(* ===== verification/Prelude.thy ===== *)
theory Prelude
  imports Main "HOL-Library.Word"
begin

text \<open>
  Shared ground of the development: the values Go functions return (an error or a result), the
  Kratos error values with their HTTP status, wrapped errors, the strings of the program as byte
  strings, and the lemma collections that carry the component proofs.
\<close>

section \<open>Errors and results\<close>

text \<open>
  An error of the program is a Kratos error (HTTP code and reason), an error wrapped by
  \<^verbatim>\<open>fmt.Errorf("ctx: %w", err)\<close>, or any other error, of which only the text is known.
\<close>

datatype err = Kratos nat string | Wrap string err | Opaque string

type_synonym 'a res = "err + 'a"

primrec err_code :: "err \<Rightarrow> nat" where
  "err_code (Kratos c r) = c"
| "err_code (Wrap m e) = err_code e"
| "err_code (Opaque m) = 500"

primrec err_reason :: "err \<Rightarrow> string" where
  "err_reason (Kratos c r) = r"
| "err_reason (Wrap m e) = err_reason e"
| "err_reason (Opaque m) = []"

definition BadRequest :: "string \<Rightarrow> err" where "BadRequest r = Kratos 400 r"
definition Unauthorized :: "string \<Rightarrow> err" where "Unauthorized r = Kratos 401 r"
definition Forbidden :: "string \<Rightarrow> err" where "Forbidden r = Kratos 403 r"
definition NotFound :: "string \<Rightarrow> err" where "NotFound r = Kratos 404 r"
definition Conflict :: "string \<Rightarrow> err" where "Conflict r = Kratos 409 r"

lemmas kratos_defs = BadRequest_def Unauthorized_def Forbidden_def NotFound_def Conflict_def

text \<open>\<^verbatim>\<open>kerrors.IsConflict(err) || kerrors.Code(err) == 409\<close>.\<close>

definition is_conflict :: "err \<Rightarrow> bool" where "is_conflict er \<longleftrightarrow> err_code er = 409"

definition is_ok :: "'e + 'a \<Rightarrow> bool" where
  "is_ok r = (case r of Inl _ \<Rightarrow> False | Inr _ \<Rightarrow> True)"

lemma is_ok_simps [simp]: "is_ok (Inr x)" "\<not> is_ok (Inl e)"
  by (simp_all add: is_ok_def)

lemma is_ok_iff: "is_ok r \<longleftrightarrow> (\<exists>x. r = Inr x)"
  by (cases r) auto

section \<open>Lemma collections\<close>

named_theorems errs \<open>the named error values of the program, unfolded to code and reason\<close>
named_theorems ops \<open>definitions of the operations, unfolded when a handler is executed symbolically\<close>
named_theorems frames \<open>what an operation leaves unchanged\<close>
named_theorems invs \<open>preservation of the component invariants\<close>

declare kratos_defs [errs]

section \<open>Rules for handlers\<close>

text \<open>
  A handler returns a result and a state. To show that a property of the state survives, one follows the
  branches: each rule splits one case distinction and hands the equation to the branches.
\<close>

named_theorems vcs \<open>rules that follow the branches of a handler\<close>

lemma vc_pair [vcs]: "P b \<Longrightarrow> P (snd (x, b))"
  by simp

lemma vc_prod [vcs]:
  "P (snd r) \<Longrightarrow> (\<And>x b. r = (x, b) \<Longrightarrow> P b \<Longrightarrow> P (snd (f x b))) \<Longrightarrow> P (snd (case r of (x, b) \<Rightarrow> f x b))"
  by (cases r) simp

lemma vc_sum [vcs]:
  "(\<And>l. x = Inl l \<Longrightarrow> P (snd (f l))) \<Longrightarrow> (\<And>y. x = Inr y \<Longrightarrow> P (snd (g y))) \<Longrightarrow>
    P (snd (case x of Inl l \<Rightarrow> f l | Inr y \<Rightarrow> g y))"
  by (cases x) simp_all

lemma vc_option [vcs]:
  "(x = None \<Longrightarrow> P (snd f)) \<Longrightarrow> (\<And>y. x = Some y \<Longrightarrow> P (snd (g y))) \<Longrightarrow>
    P (snd (case x of None \<Rightarrow> f | Some y \<Rightarrow> g y))"
  by (cases x) simp_all

lemma vc_if [vcs]: "(c \<Longrightarrow> P (snd f)) \<Longrightarrow> (\<not> c \<Longrightarrow> P (snd g)) \<Longrightarrow> P (snd (if c then f else g))"
  by simp

lemma vc_let [vcs]: "(\<And>x. x = t \<Longrightarrow> P (snd (f x))) \<Longrightarrow> P (snd (Let t f))"
  by simp

section \<open>Options, lists, maps\<close>

lemma option_case_some [simp]: "(case x of None \<Rightarrow> False | Some y \<Rightarrow> P y) \<longleftrightarrow> (\<exists>y. x = Some y \<and> P y)"
  by (cases x) auto

text \<open>Rows of a table are found by a key; at most one row is current.\<close>

lemma find_Some_mem: "List.find P xs = Some x \<Longrightarrow> x \<in> set xs \<and> P x"
  by (auto simp: find_Some_iff)

lemma find_None_all: "List.find P xs = None \<longleftrightarrow> (\<forall>x\<in>set xs. \<not> P x)"
  by (auto simp: find_None_iff)

lemma find_append: "List.find P (xs @ ys) = (case List.find P xs of Some x \<Rightarrow> Some x | None \<Rightarrow> List.find P ys)"
  by (induction xs) auto

lemma find_map_inv:
  assumes "\<And>x. P (f x) = P x"
  shows "List.find P (map f xs) = map_option f (List.find P xs)"
  using assms by (induction xs) auto

lemma find_cong_pred:
  assumes "\<And>x. x \<in> set xs \<Longrightarrow> P x = Q x"
  shows "List.find P xs = List.find Q xs"
  using assms by (induction xs) auto

lemma filter_map_length_le: "length (filter P (map f xs)) \<le> length xs"
  by (metis length_filter_le length_map)

lemma length_filter_le_take: "length (take n (filter P xs)) \<le> n"
  by simp

lemma distinct_key: "distinct (map f xs) \<Longrightarrow> x \<in> set xs \<Longrightarrow> y \<in> set xs \<Longrightarrow> f x = f y \<Longrightarrow> x = y"
  by (metis distinct_map inj_onD)

lemma sort_key_eq_Nil [simp]: "sort_key f xs = [] \<longleftrightarrow> xs = []"
  by (metis length_0_conv length_sort)

text \<open>Paging, as \<^verbatim>\<open>Offset(o).Limit(n)\<close> of every list query does it.\<close>

definition page_slice :: "nat \<Rightarrow> nat \<Rightarrow> 'a list \<Rightarrow> 'a list" where
  "page_slice off lim xs = take lim (drop off xs)"

lemma page_slice_length [simp]: "length (page_slice off lim xs) = min lim (length xs - off)"
  by (simp add: page_slice_def min.commute)

lemma page_slice_subset: "set (page_slice off lim xs) \<subseteq> set xs"
  by (auto simp: page_slice_def dest: in_set_takeD in_set_dropD)

lemma page_slice_append: "page_slice off n xs @ page_slice (off + n) m xs = page_slice off (n + m) xs"
  by (simp add: page_slice_def take_add add.commute [of off n])

lemma pages_concat:
  "concat (map (\<lambda>k. page_slice (k * n) n xs) [0..<p]) = take (p * n) xs"
proof (induction p)
  case (Suc p)
  have "take (p * n) xs @ take n (drop (p * n) xs) = take (p * n + n) xs"
    by (simp add: take_add)
  with Suc show ?case by (simp add: page_slice_def add.commute)
qed simp

end
