(* ===== verification/GoStrings.thy ===== *)
theory GoStrings
  imports Prelude
begin

text \<open>
  The part of Go's strings, unicode/utf8 and strconv that the program uses, on byte strings: a
  Go string is a sequence of bytes, here a list of 8-bit characters. Ranging over a string decodes
  UTF-8; an invalid byte reads as U+FFFD of width one.
\<close>

section \<open>UTF-8\<close>

definition byte :: "char \<Rightarrow> nat" where "byte c = of_char c"

definition bstr :: "nat list \<Rightarrow> string" where "bstr bs = map char_of bs"

definition cont :: "nat \<Rightarrow> bool" where "cont b \<longleftrightarrow> 128 \<le> b \<and> b \<le> 191"

definition rune_error :: nat where "rune_error = 65533"

fun second_ok :: "nat \<Rightarrow> nat \<Rightarrow> bool" where
  "second_ok b0 b1 \<longleftrightarrow>
    (if b0 = 224 then 160 \<le> b1 \<and> b1 \<le> 191
     else if b0 = 237 then 128 \<le> b1 \<and> b1 \<le> 159
     else if b0 = 240 then 144 \<le> b1 \<and> b1 \<le> 191
     else if b0 = 244 then 128 \<le> b1 \<and> b1 \<le> 143
     else cont b1)"

text \<open>The first rune of a non-empty byte sequence and its width.\<close>

definition decode_rune :: "nat list \<Rightarrow> nat \<times> nat" where
  "decode_rune bs =
    (case bs of
       [] \<Rightarrow> (rune_error, 0)
     | b0 # r0 \<Rightarrow>
        if b0 < 128 then (b0, 1)
        else if 194 \<le> b0 \<and> b0 \<le> 223 then
          (case r0 of
             b1 # _ \<Rightarrow> if cont b1 then ((b0 - 192) * 64 + (b1 - 128), 2) else (rune_error, 1)
           | [] \<Rightarrow> (rune_error, 1))
        else if 224 \<le> b0 \<and> b0 \<le> 239 then
          (case r0 of
             b1 # b2 # _ \<Rightarrow>
               if second_ok b0 b1 \<and> cont b2
               then ((b0 - 224) * 4096 + (b1 - 128) * 64 + (b2 - 128), 3) else (rune_error, 1)
           | _ \<Rightarrow> (rune_error, 1))
        else if 240 \<le> b0 \<and> b0 \<le> 244 then
          (case r0 of
             b1 # b2 # b3 # _ \<Rightarrow>
               if second_ok b0 b1 \<and> cont b2 \<and> cont b3
               then ((b0 - 240) * 262144 + (b1 - 128) * 4096 + (b2 - 128) * 64 + (b3 - 128), 4)
               else (rune_error, 1)
           | _ \<Rightarrow> (rune_error, 1))
        else (rune_error, 1))"

lemma decode_width: "bs \<noteq> [] \<Longrightarrow> 1 \<le> snd (decode_rune bs)"
  by (cases bs) (auto simp: decode_rune_def split: list.split)

text \<open>The string cut at its runes, each with the bytes it was read from.\<close>

function rune_segs :: "string \<Rightarrow> (nat \<times> string) list" where
  "rune_segs s =
    (if s = [] then []
     else let (r, w) = decode_rune (map byte s)
          in (r, take w s) # rune_segs (drop w s))"
  by pat_completeness auto
termination
proof (relation "measure length")
  fix s :: string and x r w
  assume "s \<noteq> []" and "x = decode_rune (map byte s)" and "(r, w) = x"
  then have "1 \<le> w" using decode_width [of "map byte s"] by (metis map_is_Nil_conv snd_conv)
  with \<open>s \<noteq> []\<close> show "(drop w s, s) \<in> measure length" by (cases s) auto
qed simp

declare rune_segs.simps [simp del]

lemma rune_segs_Nil [simp]: "rune_segs [] = []"
  by (simp add: rune_segs.simps)

lemma decode_ascii [simp]: "b < 128 \<Longrightarrow> decode_rune (b # bs) = (b, 1)"
  by (simp add: decode_rune_def)

lemma rune_segs_ascii [simp]: "byte c < 128 \<Longrightarrow> rune_segs (c # s) = (byte c, [c]) # rune_segs s"
  by (subst rune_segs.simps) simp

definition runes :: "string \<Rightarrow> nat list" where "runes s = map fst (rune_segs s)"

lemma rune_segs_concat: "concat (map snd (rune_segs s)) = s"
proof (induction s rule: rune_segs.induct)
  case (1 s)
  show ?case
  proof (cases "s = []")
    case False
    obtain r w where rw: "decode_rune (map byte s) = (r, w)" by (cases "decode_rune (map byte s)")
    from 1 [OF False rw [symmetric] refl] False rw show ?thesis
      by (subst rune_segs.simps) simp
  qed simp
qed

lemma rune_segs_length: "length (rune_segs s) \<le> length s"
proof (induction s rule: rune_segs.induct)
  case (1 s)
  show ?case
  proof (cases "s = []")
    case False
    obtain r w where rw: "decode_rune (map byte s) = (r, w)" by (cases "decode_rune (map byte s)")
    from decode_width [of "map byte s"] rw False have "1 \<le> w" by simp
    with 1 [OF False rw [symmetric] refl] False rw show ?thesis
      by (subst rune_segs.simps) (cases s; auto)
  qed simp
qed

text \<open>Encoding a rune (a value that is no code point is written as U+FFFD).\<close>

definition utf8_enc :: "nat \<Rightarrow> string" where
  "utf8_enc r = bstr
    (if r < 128 then [r]
     else if r < 2048 then [192 + r div 64, 128 + r mod 64]
     else if 1114111 < r \<or> (55296 \<le> r \<and> r \<le> 57343) then [239, 191, 189]
     else if r < 65536 then [224 + r div 4096, 128 + (r div 64) mod 64, 128 + r mod 64]
     else [240 + r div 262144, 128 + (r div 4096) mod 64, 128 + (r div 64) mod 64, 128 + r mod 64])"

section \<open>strings\<close>

definition has_prefix :: "string \<Rightarrow> string \<Rightarrow> bool" where
  "has_prefix s p \<longleftrightarrow> take (length p) s = p"

definition has_suffix :: "string \<Rightarrow> string \<Rightarrow> bool" where
  "has_suffix s p \<longleftrightarrow> length p \<le> length s \<and> drop (length s - length p) s = p"

definition trim_prefix :: "string \<Rightarrow> string \<Rightarrow> string" where
  "trim_prefix s p = (if has_prefix s p then drop (length p) s else s)"

fun contains :: "string \<Rightarrow> string \<Rightarrow> bool" where
  "contains [] sub \<longleftrightarrow> sub = []"
| "contains (c # s) sub \<longleftrightarrow> has_prefix (c # s) sub \<or> contains s sub"

text \<open>\<^verbatim>\<open>strings.Trim\<close> with a cut set.\<close>

definition trim :: "(char \<Rightarrow> bool) \<Rightarrow> string \<Rightarrow> string" where
  "trim P s = rev (dropWhile P (rev (dropWhile P s)))"

text \<open>\<^verbatim>\<open>strings.ReplaceAll\<close> for a non-empty old string: left to right, non-overlapping.\<close>

function replace_all :: "string \<Rightarrow> string \<Rightarrow> string \<Rightarrow> string" where
  "replace_all s old new =
    (if s = [] \<or> old = [] then s
     else if has_prefix s old then new @ replace_all (drop (length old) s) old new
     else hd s # replace_all (tl s) old new)"
  by pat_completeness auto
termination
  by (relation "measure (\<lambda>(s, _, _). length s)") auto

declare replace_all.simps [simp del]

text \<open>\<^verbatim>\<open>unicode.IsSpace\<close> and \<^verbatim>\<open>strings.TrimSpace\<close>.\<close>

definition is_space :: "nat \<Rightarrow> bool" where
  "is_space r \<longleftrightarrow> (9 \<le> r \<and> r \<le> 13) \<or> r = 32 \<or> r = 133 \<or> r = 160 \<or> r = 5760 \<or>
     (8192 \<le> r \<and> r \<le> 8202) \<or> r = 8232 \<or> r = 8233 \<or> r = 8239 \<or> r = 8287 \<or> r = 12288"

definition trim_segs :: "(nat \<times> string) list \<Rightarrow> (nat \<times> string) list" where
  "trim_segs xs = rev (dropWhile (is_space \<circ> fst) (rev (dropWhile (is_space \<circ> fst) xs)))"

definition trim_space :: "string \<Rightarrow> string" where
  "trim_space s = concat (map snd (trim_segs (rune_segs s)))"

text \<open>
  \<^verbatim>\<open>strings.ToLower\<close>: ASCII letters are lowered, every other rune by the Unicode table, which is a
  parameter \<^verbatim>\<open>low\<close> (the case mapping of code points from U+0080 on).
\<close>

definition lower_rune :: "(nat \<Rightarrow> nat) \<Rightarrow> nat \<Rightarrow> nat" where
  "lower_rune low r = (if r < 128 then (if 65 \<le> r \<and> r \<le> 90 then r + 32 else r) else low r)"

definition to_lower :: "(nat \<Rightarrow> nat) \<Rightarrow> string \<Rightarrow> string" where
  "to_lower low s = concat (map (utf8_enc \<circ> lower_rune low \<circ> fst) (rune_segs s))"

text \<open>\<^verbatim>\<open>strings.Split\<close> and \<^verbatim>\<open>strings.SplitN(s, sep, 2)\<close> for a one-byte separator.\<close>

fun split_on :: "char \<Rightarrow> string \<Rightarrow> string list" where
  "split_on d [] = [[]]"
| "split_on d (c # s) =
    (if c = d then [] # split_on d s
     else case split_on d s of (w # ws) \<Rightarrow> (c # w) # ws | [] \<Rightarrow> [[c]])"

lemma split_on_not_Nil [simp]: "split_on d s \<noteq> []"
  by (induction s) (auto split: list.split)

lemma split_on_pieces: "w \<in> set (split_on d s) \<Longrightarrow> d \<notin> set w"
proof (induction s arbitrary: w)
  case (Cons c s)
  then show ?case by (cases "split_on d s") (auto split: if_splits)
qed simp

definition join_with :: "char \<Rightarrow> string list \<Rightarrow> string" where
  "join_with d ws = (case ws of [] \<Rightarrow> [] | w # vs \<Rightarrow> w @ concat (map (\<lambda>v. d # v) vs))"

lemma join_split: "join_with d (split_on d s) = s"
proof (induction s)
  case (Cons c s)
  then show ?case
    by (cases "split_on d s") (auto simp: join_with_def split: list.splits)
qed (simp add: join_with_def)

section \<open>strconv\<close>

definition digit :: "nat \<Rightarrow> char" where "digit d = char_of (48 + d mod 10)"

definition is_digit :: "char \<Rightarrow> bool" where "is_digit c \<longleftrightarrow> 48 \<le> byte c \<and> byte c \<le> 57"

fun show_nat :: "nat \<Rightarrow> string" where
  "show_nat n = (if n < 10 then [digit n] else show_nat (n div 10) @ [digit n])"

declare show_nat.simps [simp del]

definition show_int :: "int \<Rightarrow> string" where
  "show_int i = (if i < 0 then CHR ''-'' # show_nat (nat (- i)) else show_nat (nat i))"

definition dec_value :: "string \<Rightarrow> nat" where
  "dec_value s = foldl (\<lambda>v c. v * 10 + (byte c - 48)) 0 s"

lemma byte_digit [simp]: "byte (digit d) = 48 + d mod 10"
proof -
  have "48 + d mod 10 < 256" by (simp add: order.strict_trans2 [of "d mod 10" 10])
  then show ?thesis by (simp add: byte_def digit_def)
qed

lemma is_digit_digit [simp]: "is_digit (digit d)"
proof -
  have "d mod 10 < 10" by simp
  then show ?thesis unfolding is_digit_def by simp
qed

lemma show_nat_not_Nil [simp]: "show_nat n \<noteq> []"
  by (simp add: show_nat.simps)

lemma show_nat_digits: "list_all is_digit (show_nat n)"
proof (induction n rule: show_nat.induct)
  case (1 n)
  then show ?case by (subst show_nat.simps) auto
qed

lemma dec_value_snoc: "dec_value (s @ [c]) = dec_value s * 10 + (byte c - 48)"
  by (simp add: dec_value_def)

lemma dec_value_show [simp]: "dec_value (show_nat n) = n"
proof (induction n rule: show_nat.induct)
  case (1 n)
  then show ?case
    by (subst show_nat.simps) (auto simp: dec_value_snoc, simp add: dec_value_def)
qed

lemma show_nat_inj: "show_nat m = show_nat n \<longleftrightarrow> m = n"
  by (metis dec_value_show)

definition max_uint64 :: nat where "max_uint64 = 18446744073709551615"

text \<open>
  \<^verbatim>\<open>strconv.ParseUint(s, 10, 64)\<close>: the value and whether an error is returned. On a range error the
  value is the largest one, on a syntax error it is zero.
\<close>

definition parse_uint64 :: "string \<Rightarrow> nat \<times> bool" where
  "parse_uint64 s =
    (if s = [] \<or> \<not> list_all is_digit s then (0, False)
     else if dec_value s \<le> max_uint64 then (dec_value s, True) else (max_uint64, False))"

lemma parse_uint64_show: "n \<le> max_uint64 \<Longrightarrow> parse_uint64 (show_nat n) = (n, True)"
  by (simp add: parse_uint64_def show_nat_digits)

text \<open>\<^verbatim>\<open>strconv.ParseInt(s, 10, 64)\<close> and \<^verbatim>\<open>strconv.Atoi\<close>: None stands for an error.\<close>

definition parse_int64 :: "string \<Rightarrow> int option" where
  "parse_int64 s =
    (let neg = (s \<noteq> [] \<and> hd s = CHR ''-'');
         d = (if s \<noteq> [] \<and> (hd s = CHR ''-'' \<or> hd s = CHR ''+'') then tl s else s)
     in if d = [] \<or> \<not> list_all is_digit d then None
        else if neg then (if dec_value d \<le> 2 ^ 63 then Some (- int (dec_value d)) else None)
        else if dec_value d < 2 ^ 63 then Some (int (dec_value d)) else None)"

lemma digit_not_sign: "is_digit c \<Longrightarrow> c \<noteq> CHR ''-'' \<and> c \<noteq> CHR ''+''"
  by (auto simp: is_digit_def byte_def)

lemma show_nat_hd_digit: "is_digit (hd (show_nat n))"
  using show_nat_digits [of n] show_nat_not_Nil [of n] by (cases "show_nat n") auto

lemma parse_int64_show_nat: "n < 2 ^ 63 \<Longrightarrow> parse_int64 (show_nat n) = Some (int n)"
  using digit_not_sign [OF show_nat_hd_digit [of n]] show_nat_digits [of n]
  by (simp add: parse_int64_def Let_def)

lemma parse_int64_show:
  assumes "- (2 ^ 63) \<le> i" "i < 2 ^ 63"
  shows "parse_int64 (show_int i) = Some i"
proof (cases "i < 0")
  case True
  with assms have "nat (- i) \<le> 2 ^ 63" by (simp add: nat_le_iff)
  with True show ?thesis by (simp add: parse_int64_def show_int_def Let_def show_nat_digits)
next
  case False
  with assms have "nat i < 2 ^ 63" by (simp add: nat_less_iff)
  with False show ?thesis by (simp add: show_int_def parse_int64_show_nat)
qed

text \<open>
  \<^verbatim>\<open>fmt.Sscanf(s, "%d", &v)\<close> into an int: blanks are skipped, then an optional sign and the longest
  run of digits are read; the variable keeps its zero when no number (or one out of range) is read.
\<close>

definition scan_int :: "string \<Rightarrow> int" where
  "scan_int s =
    (let t = dropWhile (\<lambda>c. is_space (byte c) \<and> byte c \<noteq> 10 \<and> byte c < 128) s;
         sgn = (if t \<noteq> [] \<and> (hd t = CHR ''-'' \<or> hd t = CHR ''+'') then [hd t] else []);
         d = takeWhile is_digit (drop (length sgn) t)
     in case parse_int64 (sgn @ d) of Some v \<Rightarrow> v | None \<Rightarrow> 0)"

lemma takeWhile_all: "list_all P xs \<Longrightarrow> takeWhile P xs = xs"
  by (simp add: list_all_iff)

lemma scan_int_show_nat:
  assumes "n < 2 ^ 63"
  shows "scan_int (show_nat n) = int n"
proof -
  have hd: "is_digit (hd (show_nat n))" by (rule show_nat_hd_digit)
  then have "\<not> is_space (byte (hd (show_nat n)))" by (auto simp: is_digit_def is_space_def)
  then have "dropWhile (\<lambda>c. is_space (byte c) \<and> byte c \<noteq> 10 \<and> byte c < 128) (show_nat n) = show_nat n"
    by (cases "show_nat n") auto
  then show ?thesis
    using digit_not_sign [OF hd] assms
    by (simp add: scan_int_def Let_def takeWhile_all [OF show_nat_digits] parse_int64_show_nat)
qed

end
