(* ===== verification/Utf8.thy ===== *)
theory Utf8
  imports GoStrings
begin

text \<open>
  Encoding a Unicode scalar value and decoding it again gives the value back: ranging over the bytes
  written for a list of runes reads exactly these runes.
\<close>

definition scalar :: "nat \<Rightarrow> bool" where
  "scalar r \<longleftrightarrow> r \<le> 1114111 \<and> \<not> (55296 \<le> r \<and> r \<le> 57343)"

lemma byte_char_of [simp]: "b < 256 \<Longrightarrow> byte (char_of b) = b"
  by (simp add: byte_def)

lemma map_byte_bstr: "list_all (\<lambda>b. b < 256) bs \<Longrightarrow> map byte (bstr bs) = bs"
  by (induction bs) (auto simp: bstr_def)

definition enc_bytes :: "nat \<Rightarrow> nat list" where
  "enc_bytes r =
    (if r < 128 then [r]
     else if r < 2048 then [192 + r div 64, 128 + r mod 64]
     else if r < 65536 then [224 + r div 4096, 128 + (r div 64) mod 64, 128 + r mod 64]
     else [240 + r div 262144, 128 + (r div 4096) mod 64, 128 + (r div 64) mod 64, 128 + r mod 64])"

lemma enc_bytes_utf8: "scalar r \<Longrightarrow> utf8_enc r = bstr (enc_bytes r)"
  by (auto simp: scalar_def utf8_enc_def enc_bytes_def)

lemma mod64: "(r::nat) mod 64 \<le> 63" 
  using mod_less_divisor [of 64 r] by linarith

lemma enc_bytes_lt: "scalar r \<Longrightarrow> list_all (\<lambda>b. b < 256) (enc_bytes r)"
  using mod64 [of r] mod64 [of "r div 64"] mod64 [of "r div 4096"]
  by (auto simp: enc_bytes_def scalar_def)

lemma join2: "r div 64 * 64 + r mod 64 = (r::nat)" by simp
lemma join3: "(r div 4096) * 4096 + (r div 64) mod 64 * 64 + r mod 64 = (r::nat)"
proof -
  have "r div 4096 = r div 64 div 64" by (simp add: div_mult2_eq [symmetric])
  then have "(r div 4096) * 64 + (r div 64) mod 64 = r div 64" by simp
  then have "((r div 4096) * 64 + (r div 64) mod 64) * 64 + r mod 64 = r" by simp
  then show ?thesis by (simp add: algebra_simps)
qed
lemma join4: "(r div 262144) * 262144 + (r div 4096) mod 64 * 4096 + (r div 64) mod 64 * 64 + r mod 64 = (r::nat)"
proof -
  have "r div 262144 = r div 4096 div 64" by (simp add: div_mult2_eq [symmetric])
  then have "(r div 262144) * 64 + (r div 4096) mod 64 = r div 4096" by simp
  then have "((r div 262144) * 64 + (r div 4096) mod 64) * 4096 = r div 4096 * 4096" by simp
  with join3 [of r] show ?thesis by (simp add: algebra_simps)
qed

lemma decode_enc1: "r < 128 \<Longrightarrow> decode_rune (enc_bytes r @ bs) = (r, length (enc_bytes r))"
  by (simp add: enc_bytes_def)

lemma dec2: "2 \<le> q \<Longrightarrow> q \<le> 31 \<Longrightarrow> m \<le> 63 \<Longrightarrow> decode_rune ((192 + q) # (128 + m) # bs) = (q * 64 + m, 2)"
  by (simp add: decode_rune_def cont_def)

lemma dec3:
  "a \<le> 15 \<Longrightarrow> second_ok (224 + a) (128 + b) \<Longrightarrow> c \<le> 63 \<Longrightarrow>
    decode_rune ((224 + a) # (128 + b) # (128 + c) # bs) = (a * 4096 + b * 64 + c, 3)"
  by (simp add: decode_rune_def cont_def del: second_ok.simps)

lemma dec4:
  "z \<le> 4 \<Longrightarrow> second_ok (240 + z) (128 + a) \<Longrightarrow> b \<le> 63 \<Longrightarrow> c \<le> 63 \<Longrightarrow>
    decode_rune ((240 + z) # (128 + a) # (128 + b) # (128 + c) # bs) = (z * 262144 + a * 4096 + b * 64 + c, 4)"
  by (simp add: decode_rune_def cont_def del: second_ok.simps)

lemma second3:
  "a * 4096 + b * 64 + c = r \<Longrightarrow> a \<le> 15 \<Longrightarrow> b \<le> 63 \<Longrightarrow> c \<le> 63 \<Longrightarrow> 2048 \<le> r \<Longrightarrow> scalar r \<Longrightarrow>
    second_ok (224 + a) (128 + b)"
  by (auto simp: cont_def scalar_def)

lemma second4:
  "z * 262144 + a * 4096 + b * 64 + c = r \<Longrightarrow> a \<le> 63 \<Longrightarrow> b \<le> 63 \<Longrightarrow> c \<le> 63 \<Longrightarrow> 65536 \<le> r \<Longrightarrow>
    scalar r \<Longrightarrow> second_ok (240 + z) (128 + a)"
  by (auto simp: cont_def scalar_def)

lemma decode_enc2:
  assumes "128 \<le> r" "r < 2048"
  shows "decode_rune (enc_bytes r @ bs) = (r, length (enc_bytes r))"
proof -
  have "2 \<le> r div 64" "r div 64 \<le> 31" using assms by auto
  then show ?thesis using assms dec2 [of "r div 64" "r mod 64" bs] mod64 [of r]
    by (simp only: enc_bytes_def join2) simp
qed

lemma decode_enc3:
  assumes "2048 \<le> r" "r < 65536" "scalar r"
  shows "decode_rune (enc_bytes r @ bs) = (r, length (enc_bytes r))"
proof -
  have a: "r div 4096 \<le> 15" using assms by auto
  show ?thesis
    using assms dec3 [OF a second3 [OF join3 a mod64 mod64 assms(1,3)] mod64 [of r], where bs = bs] join3 [of r]
    by (simp add: enc_bytes_def)
qed

lemma decode_enc4:
  assumes "65536 \<le> r" "scalar r"
  shows "decode_rune (enc_bytes r @ bs) = (r, length (enc_bytes r))"
proof -
  have z: "r div 262144 \<le> 4" using assms by (auto simp: scalar_def)
  show ?thesis
    using assms dec4 [OF z second4 [OF join4 mod64 mod64 mod64 assms] mod64 [of "r div 64"] mod64 [of r], where bs = bs] join4 [of r]
    by (simp add: enc_bytes_def)
qed

lemma decode_enc:
  assumes "scalar r"
  shows "decode_rune (enc_bytes r @ bs) = (r, length (enc_bytes r))"
  using decode_enc1 [of r bs] decode_enc2 [of r bs] decode_enc3 [of r bs] decode_enc4 [of r bs] assms
  by linarith

lemma utf8_enc_not_Nil [simp]: "utf8_enc r \<noteq> []"
  by (simp add: utf8_enc_def bstr_def)

lemma rune_segs_enc:
  assumes "scalar r"
  shows "rune_segs (utf8_enc r @ s) = (r, utf8_enc r) # rune_segs s"
proof -
  have m: "map byte (utf8_enc r) = enc_bytes r"
    using assms by (simp add: enc_bytes_utf8 map_byte_bstr enc_bytes_lt)
  then have l: "length (enc_bytes r) = length (utf8_enc r)" by (metis length_map)
  have "decode_rune (map byte (utf8_enc r @ s)) = (r, length (utf8_enc r))"
    using decode_enc [OF assms] by (simp add: m l)
  then show ?thesis by (subst rune_segs.simps) simp
qed

lemma runes_encode: "list_all scalar rs \<Longrightarrow> runes (concat (map utf8_enc rs) @ s) = rs @ runes s"
  by (induction rs) (auto simp: runes_def rune_segs_enc)

lemma scalar_rune_error: "scalar rune_error" by (simp add: scalar_def rune_error_def)

lemma scalar2: "194 \<le> b0 \<Longrightarrow> b0 \<le> 223 \<Longrightarrow> cont b1 \<Longrightarrow> scalar ((b0 - 192) * 64 + (b1 - 128))"
proof -
  assume "194 \<le> b0" "b0 \<le> 223" "cont b1"
  then have "(b0 - 192) * 64 \<le> 1984" "b1 - 128 \<le> 63" by (auto simp: cont_def)
  then have "(b0 - 192) * 64 + (b1 - 128) \<le> 2047" by linarith
  then show ?thesis by (simp add: scalar_def)
qed

lemma scalar3_arith:
  fixes x y z :: nat
  assumes "x \<le> 15" "y \<le> 63" "z \<le> 63" "x = 13 \<Longrightarrow> y \<le> 31"
  shows "scalar (x * 4096 + y * 64 + z)"
proof -
  consider "x \<le> 12" | "x = 13" | "14 \<le> x" by linarith
  then show ?thesis
  proof cases
    case 1
    then have "x * 4096 + y * 64 + z < 55296" using assms(2,3) by linarith
    then show ?thesis by (simp add: scalar_def)
  next
    case 2
    then have "x * 4096 + y * 64 + z < 55296" using assms(3,4) by simp
    then show ?thesis by (simp add: scalar_def)
  next
    case 3
    then have "57343 < x * 4096 + y * 64 + z" "x * 4096 + y * 64 + z \<le> 65535"
      using assms(1-3) by linarith+
    then show ?thesis by (simp add: scalar_def)
  qed
qed

lemma cont_ge: "second_ok b0 b1 \<Longrightarrow> 128 \<le> b1 \<and> b1 \<le> 191"
  by (auto simp: cont_def split: if_splits)

lemma scalar3:
  assumes "224 \<le> b0" "b0 \<le> 239" "second_ok b0 b1" "cont b2"
  shows "scalar ((b0 - 224) * 4096 + (b1 - 128) * 64 + (b2 - 128))"
proof (rule scalar3_arith)
  show "b0 - 224 \<le> 15" using assms by simp
  show "b1 - 128 \<le> 63" using cont_ge [OF assms(3)] by auto
  show "b2 - 128 \<le> 63" using assms(4) by (auto simp: cont_def)
  assume "b0 - 224 = 13"
  then have "b0 = 237" using assms by linarith
  with assms(3) show "b1 - 128 \<le> 31" by auto
qed

lemma scalar4_upper:
  fixes x y z w :: nat
  assumes "x \<le> 4" "y \<le> 63" "z \<le> 63" "w \<le> 63" "x = 4 \<Longrightarrow> y \<le> 15"
  shows "x * 262144 + y * 4096 + z * 64 + w \<le> 1114111"
proof (cases "x = 4")
  case False
  with assms have "x \<le> 3" by simp
  with assms(2-4) show ?thesis by linarith
qed (use assms in linarith)

lemma scalar4_lower:
  fixes x y z w :: nat
  assumes "x = 0 \<Longrightarrow> 16 \<le> y"
  shows "65536 \<le> x * 262144 + y * 4096 + z * 64 + w"
proof (cases "x = 0")
  case False
  then have "1 \<le> x" by simp
  then show ?thesis by linarith
qed (use assms in linarith)

lemma scalar4:
  assumes "240 \<le> b0" "b0 \<le> 244" "second_ok b0 b1" "cont b2" "cont b3"
  shows "scalar ((b0 - 240) * 262144 + (b1 - 128) * 4096 + (b2 - 128) * 64 + (b3 - 128))" (is "scalar ?r")
proof -
  have b: "b1 - 128 \<le> 63" "b2 - 128 \<le> 63" "b3 - 128 \<le> 63"
    using cont_ge [OF assms(3)] assms(4,5) by (auto simp: cont_def)
  have 4: "b0 - 240 = 4 \<Longrightarrow> b1 - 128 \<le> 15" and 0: "b0 - 240 = 0 \<Longrightarrow> 16 \<le> b1 - 128"
  proof -
    assume "b0 - 240 = 4"
    then have "b0 = 244" using assms by linarith
    with assms(3) show "b1 - 128 \<le> 15" by auto
  next
    assume "b0 - 240 = 0"
    then have "b0 = 240" using assms by linarith
    with assms(3) show "16 \<le> b1 - 128" by auto
  qed
  have "b0 - 240 \<le> 4" using assms by simp
  from scalar4_upper [OF this b 4] scalar4_lower [of "b0 - 240" "b1 - 128" "b2 - 128" "b3 - 128", OF 0]
  have "?r \<le> 1114111" "65536 \<le> ?r" by blast+
  then show ?thesis unfolding scalar_def by linarith
qed

lemma decode_scalar: "list_all (\<lambda>b. b < 256) bs \<Longrightarrow> scalar (fst (decode_rune bs))"
proof (cases bs)
  case (Cons b0 r0)
  show ?thesis
    unfolding Cons decode_rune_def
    by (simp add: scalar_rune_error scalar2 scalar3 scalar4 split: list.split del: second_ok.simps)
      (simp add: scalar_def)
qed (simp add: decode_rune_def scalar_rune_error)

lemma byte_lt: "byte c < 256"
  by (simp add: byte_def)

lemma runes_scalar: "list_all scalar (runes s)"
proof (induction s rule: rune_segs.induct)
  case (1 s)
  show ?case
  proof (cases "s = []")
    case False
    obtain r w where rw: "decode_rune (map byte s) = (r, w)" by (cases "decode_rune (map byte s)")
    have "list_all (\<lambda>b. b < 256) (map byte s)" by (simp add: list_all_iff byte_lt)
    from decode_scalar [OF this] rw have "scalar r" by simp
    with 1 [OF False rw [symmetric] refl] False rw show ?thesis
      unfolding runes_def by (subst rune_segs.simps) simp
  qed (simp add: runes_def)
qed

end
