(* ===== verification/Slug.thy ===== *)
theory Slug
  imports Utf8
begin

text \<open>
  The pure text functions of app/blog/internal/biz/article.go: slugs of titles, excerpts, tag slugs,
  the validation of titles and contents and the reading of identifiers.
\<close>

section \<open>The pinyin table\<close>

text \<open>
  The two constants of the source. The characters of \<^verbatim>\<open>pinyinBlk\<close> are given by their code points; in the
  Go string each of them takes three bytes.
\<close>

definition pinyinBlk :: "nat list" where
  "pinyinBlk = [
   30340, 19968, 26159, 19981, 20102, 22312, 20154, 26377, 25105, 20182, 36825, 20010,
   20204, 20013, 26469, 19978, 22823, 20026, 21644, 22269, 22320, 21040, 20197, 35828,
   26102, 35201, 23601, 20986, 20250, 21487, 20063, 20320, 23545, 29983, 33021, 32780,
   23376, 37027, 24471, 20110, 30528, 19979, 33258, 20043, 24180, 36807, 21457, 21518,
   20316, 37324, 29992, 36947, 34892, 25152, 28982, 23478, 31181, 20107, 25104, 20998,
   29616, 32463, 21160, 24037, 23398, 22914, 22320, 26041, 20174, 37096, 21516, 23450,
   27604, 20851, 39640, 26412, 24615, 30475, 21448, 27861, 24847, 21147, 21592, 23454,
   38271, 31561]"

definition pinyinTbl :: string where
  "pinyinTbl = ''ddsblzrywztgmmzlsdwhgddyssyjcckhkddssnneznydzxxgzggffhlzyydgxrsjzcbxggfyycsdsndxmb''"

text \<open>\<^verbatim>\<open>strings.IndexRune\<close>: the byte offset of the first occurrence of the rune.\<close>

primrec index_rune :: "nat list \<Rightarrow> nat \<Rightarrow> nat option" where
  "index_rune [] r = None"
| "index_rune (x # xs) r =
    (if x = r then Some 0
     else map_option (\<lambda>i. length (utf8_enc x) + i) (index_rune xs r))"

definition firstPinyin :: "nat \<Rightarrow> string" where
  "firstPinyin r =
    (case index_rune pinyinBlk r of
       None \<Rightarrow> []
     | Some idx \<Rightarrow> if length pinyinTbl \<le> idx then [] else [pinyinTbl ! idx])"

section \<open>generateSlug\<close>

text \<open>The switch of the loop over the runes of the title.\<close>

definition slug_rune :: "nat \<Rightarrow> string" where
  "slug_rune r =
    (if (97 \<le> r \<and> r \<le> 122) \<or> (48 \<le> r \<and> r \<le> 57) then [char_of r]
     else if 65 \<le> r \<and> r \<le> 90 then [char_of (r + 32)]
     else if 19968 \<le> r \<and> r \<le> 40959 then firstPinyin r
     else ''-'')"

definition slug_raw :: "string \<Rightarrow> string" where
  "slug_raw title = concat (map slug_rune (runes title))"

text \<open>
  \<^verbatim>\<open>for strings.Contains(s, "--") { s = strings.ReplaceAll(s, "--", "-") }\<close>; each round shortens
  the string.
\<close>

lemma has_prefix_drop_length:
  "has_prefix s old \<Longrightarrow> length (drop (length old) s) + length old = length s"
  by (auto simp: has_prefix_def dest: arg_cong [where f = length])

lemma replace_all_length_le:
  "length new \<le> length old \<Longrightarrow> length (replace_all s old new) \<le> length s"
proof (induction s old new rule: replace_all.induct)
  case (1 s old new)
  consider "s = [] \<or> old = []" | "s \<noteq> []" "old \<noteq> []" "has_prefix s old"
    | "s \<noteq> []" "old \<noteq> []" "\<not> has_prefix s old" by blast
  then show ?case
  proof cases
    case 1
    then show ?thesis by (subst replace_all.simps) simp
  next
    case 2
    with "1.IH"(1) "1.prems" has_prefix_drop_length [of s old] show ?thesis
      by (subst replace_all.simps) simp
  next
    case 3
    with "1.IH"(2) "1.prems" show ?thesis by (subst replace_all.simps) (cases s; simp)
  qed
qed

lemma replace_all_length_less:
  "contains s old \<Longrightarrow> length new < length old \<Longrightarrow> length (replace_all s old new) < length s"
proof (induction s old new rule: replace_all.induct)
  case (1 s old new)
  then have ne: "s \<noteq> []" "old \<noteq> []" by (cases s; auto)+
  show ?case
  proof (cases "has_prefix s old")
    case True
    from replace_all_length_le [of new old "drop (length old) s"] "1.prems"
    have "length (replace_all (drop (length old) s) old new) \<le> length (drop (length old) s)" by simp
    with ne True "1.prems" has_prefix_drop_length [OF True] show ?thesis
      by (subst replace_all.simps) simp
  next
    case False
    with "1.prems" ne have "contains (tl s) old" by (cases s) auto
    with "1.IH"(2) "1.prems" ne False show ?thesis by (subst replace_all.simps) (cases s; simp)
  qed
qed

function collapse :: "string \<Rightarrow> string" where
  "collapse s = (if contains s ''--'' then collapse (replace_all s ''--'' ''-'') else s)"
  by pat_completeness auto
termination
  by (relation "measure length") (auto intro: replace_all_length_less)

declare collapse.simps [simp del]

definition is_dash :: "char \<Rightarrow> bool" where "is_dash c \<longleftrightarrow> c = CHR ''-''"

definition generateSlug :: "string \<Rightarrow> string" where
  "generateSlug title =
    (let s = trim is_dash (collapse (slug_raw title))
     in if s = [] then ''article'' else if 200 < length s then take 200 s else s)"

section \<open>The other text functions\<close>

definition MaxTitleLength :: nat where "MaxTitleLength = 200"
definition MinTitleLength :: nat where "MinTitleLength = 2"
definition MaxContentLength :: nat where "MaxContentLength = 100000"
definition MaxExcerptLength :: nat where "MaxExcerptLength = 500"

text \<open>\<^verbatim>\<open>len\<close> of a Go string counts bytes.\<close>

definition ErrArticleTitleInvalid :: err where [errs]: "ErrArticleTitleInvalid = BadRequest ''TITLE_INVALID''"
definition ErrArticleContentEmpty :: err where [errs]: "ErrArticleContentEmpty = BadRequest ''CONTENT_EMPTY''"
definition ErrArticleContentTooBig :: err where [errs]: "ErrArticleContentTooBig = BadRequest ''CONTENT_TOO_BIG''"

definition validateTitle :: "string \<Rightarrow> err option" where
  "validateTitle title =
    (if length title < MinTitleLength \<or> MaxTitleLength < length title
     then Some ErrArticleTitleInvalid else None)"

definition validateArticleInput :: "string \<Rightarrow> string \<Rightarrow> err option" where
  "validateArticleInput title content =
    (case validateTitle title of
       Some e \<Rightarrow> Some e
     | None \<Rightarrow>
         if length content = 0 then Some ErrArticleContentEmpty
         else if MaxContentLength < length content then Some ErrArticleContentTooBig
         else None)"

text \<open>\<^verbatim>\<open>[]rune(content)\<close> and back: the encoding of a slice of runes.\<close>

definition truncateContent :: "string \<Rightarrow> nat \<Rightarrow> string" where
  "truncateContent content maxLen =
    (let c = trim_space content; rs = runes c
     in if length rs \<le> maxLen then c else concat (map utf8_enc (take maxLen rs)) @ ''...'')"

definition tagNameToSlug :: "(nat \<Rightarrow> nat) \<Rightarrow> string \<Rightarrow> string" where
  "tagNameToSlug low name = to_lower low (replace_all (trim_space name) '' '' ''-'')"

definition normalizeCategoryID :: "nat option \<Rightarrow> nat option" where
  "normalizeCategoryID c = (if c = None \<or> c = Some 0 then None else c)"

text \<open>
  \<^verbatim>\<open>parseUint\<close>: at most 20 characters, all digits; the scan fails above the largest 64-bit value and
  leaves zero.
\<close>

definition parseUint :: "string \<Rightarrow> nat" where
  "parseUint s =
    (if s = [] then 0
     else if 20 < length s then 0
     else if \<not> list_all is_digit s then 0
     else if dec_value s \<le> max_uint64 then dec_value s else 0)"

section \<open>What the slugs look like\<close>

lemma contains_iff: "contains s sub \<longleftrightarrow> (\<exists>a b. s = a @ sub @ b)"
proof (induction s)
  case (Cons c s)
  have "has_prefix (c # s) sub \<longleftrightarrow> (\<exists>b. c # s = sub @ b)"
    by (metis append_take_drop_id has_prefix_def append_eq_conv_conj)
  then show ?case using Cons
    by (auto simp: Cons_eq_append_conv)
qed (auto)

lemma contains_part: "contains s sub \<Longrightarrow> contains (a @ s @ b) sub"
  unfolding contains_iff by (metis append.assoc)

lemma trim_decomp: "\<exists>a b. s = a @ trim P s @ b"
proof -
  let ?d = "dropWhile P s"
  have "s = takeWhile P s @ ?d" by simp
  moreover have "?d = rev (dropWhile P (rev ?d)) @ rev (takeWhile P (rev ?d))"
    by (metis rev_append rev_rev_ident takeWhile_dropWhile_id)
  ultimately show ?thesis unfolding trim_def by (metis append.assoc)
qed

lemma trim_contains: "\<not> contains s sub \<Longrightarrow> \<not> contains (trim P s) sub"
  using trim_decomp [of s P] contains_part by metis

lemma take_contains: "\<not> contains s sub \<Longrightarrow> \<not> contains (take n s) sub"
  using contains_part [of "take n s" sub "[]" "drop n s"] by auto

lemma trim_set: "set (trim P s) \<subseteq> set s"
  using trim_decomp [of s P] by (metis Un_subset_iff order_refl set_append)

lemma trim_last: "trim P s \<noteq> [] \<Longrightarrow> \<not> P (last (trim P s))"
  unfolding trim_def by (metis hd_dropWhile last_rev rev_is_Nil_conv)

lemma trim_hd: "trim P s \<noteq> [] \<Longrightarrow> \<not> P (hd (trim P s))"
proof -
  let ?d = "dropWhile P s"
  assume ne: "trim P s \<noteq> []"
  then have "?d \<noteq> []" unfolding trim_def by force
  then have "\<not> P (hd ?d)" by (rule hd_dropWhile)
  moreover have "?d = trim P s @ rev (takeWhile P (rev ?d))"
    unfolding trim_def by (metis rev_append rev_rev_ident takeWhile_dropWhile_id)
  ultimately show ?thesis using ne by (metis hd_append2)
qed

lemma trim_id: "s \<noteq> [] \<Longrightarrow> \<not> P (hd s) \<Longrightarrow> \<not> P (last s) \<Longrightarrow> trim P s = s"
proof -
  assume a: "s \<noteq> []" "\<not> P (hd s)" "\<not> P (last s)"
  then have "dropWhile P s = s" "dropWhile P (rev s) = rev s"
    by (cases s; simp) (cases s rule: rev_cases; use a in simp)
  then show "trim P s = s" by (simp add: trim_def)
qed

lemma replace_all_set: "set (replace_all s old new) \<subseteq> set s \<union> set new"
proof (induction s old new rule: replace_all.induct)
  case (1 s old new)
  consider "s = [] \<or> old = []" | "s \<noteq> []" "old \<noteq> []" "has_prefix s old"
    | "s \<noteq> []" "old \<noteq> []" "\<not> has_prefix s old" by blast
  then show ?case
  proof cases
    case 1 then show ?thesis by (subst replace_all.simps) auto
  next
    case 2 with "1.IH"(1) show ?thesis by (subst replace_all.simps) (auto dest: in_set_dropD)
  next
    case 3 with "1.IH"(2) show ?thesis by (subst replace_all.simps) (cases s; auto)
  qed
qed

lemma collapse_props: "\<not> contains (collapse s) ''--'' \<and> set (collapse s) \<subseteq> set s \<union> {CHR ''-''}"
proof (induction s rule: collapse.induct)
  case (1 s)
  then show ?case
    using replace_all_set [of s "''--''" "''-''"] by (subst (1 2) collapse.simps) auto
qed

lemma collapse_id: "\<not> contains s ''--'' \<Longrightarrow> collapse s = s"
  by (simp add: collapse.simps)

definition slug_char :: "char \<Rightarrow> bool" where
  "slug_char c \<longleftrightarrow> (97 \<le> byte c \<and> byte c \<le> 122) \<or> is_digit c \<or> is_dash c"

definition slug_ok :: "string \<Rightarrow> bool" where
  "slug_ok s \<longleftrightarrow> s \<noteq> [] \<and> length s \<le> 200 \<and> list_all slug_char s \<and> \<not> contains s ''--'' \<and>
     \<not> is_dash (hd s) \<and> (length s < 200 \<longrightarrow> \<not> is_dash (last s))"

lemma tbl_chars: "list_all slug_char pinyinTbl"
  by (simp add: pinyinTbl_def slug_char_def byte_def)

lemma firstPinyin_chars: "list_all slug_char (firstPinyin r)"
  using tbl_chars by (auto simp: firstPinyin_def list_all_length split: option.split)

lemma slug_rune_chars: "list_all slug_char (slug_rune r)"
  using firstPinyin_chars [of r]
  by (auto simp: slug_rune_def slug_char_def is_dash_def is_digit_def byte_def)

lemma slug_raw_chars: "list_all slug_char (slug_raw t)"
  using slug_rune_chars by (auto simp: slug_raw_def list_all_iff)

lemma dash_slug_char: "slug_char CHR ''-''" by (simp add: slug_char_def is_dash_def)

lemma slug_generateSlug: "slug_ok (generateSlug title)"
proof -
  let ?s = "trim is_dash (collapse (slug_raw title))"
  have chars: "list_all slug_char ?s"
    using trim_set [of is_dash "collapse (slug_raw title)"] collapse_props [of "slug_raw title"]
      slug_raw_chars [of title] dash_slug_char by (auto simp: list_all_iff)
  have nodd: "\<not> contains ?s ''--''" using collapse_props trim_contains by blast
  have art: "slug_ok ''article''"
    by (simp add: slug_ok_def slug_char_def is_dash_def byte_def has_prefix_def)
  show ?thesis
  proof (cases "?s = []")
    case True then show ?thesis using art by (simp add: generateSlug_def)
  next
    case ne: False
    have tk: "list_all slug_char (take 200 ?s)" using chars by (auto simp: list_all_iff dest: in_set_takeD)
    from ne chars nodd tk take_contains [OF nodd, of 200] trim_hd [OF ne] trim_last [OF ne] show ?thesis
      by (auto simp: generateSlug_def Let_def slug_ok_def)
  qed
qed

text \<open>
  C12. The slug of every title is a non-empty string of lower-case letters, digits and dashes, of at most
  200 bytes, without two dashes in a row and without a leading dash; unless it was cut at 200 bytes it
  has no trailing dash either.
\<close>
theorem generateSlug_wf: "slug_ok (generateSlug title)"
  by (rule slug_generateSlug)

lemma slug_rune_id: "slug_char c \<Longrightarrow> slug_rune (byte c) = [c]"
  by (auto simp: slug_char_def slug_rune_def is_digit_def is_dash_def byte_def)

lemma slug_char_ascii: "slug_char c \<Longrightarrow> byte c < 128"
  by (auto simp: slug_char_def is_digit_def is_dash_def byte_def)

lemma slug_raw_id: "list_all slug_char s \<Longrightarrow> slug_raw s = s"
  by (induction s) (auto simp: slug_raw_def runes_def slug_char_ascii slug_rune_id)

lemma generateSlug_fix:
  assumes "slug_ok s" "length s < 200"
  shows "generateSlug s = s"
  using assms slug_raw_id [of s] by (simp add: slug_ok_def generateSlug_def collapse_id trim_id)

text \<open>
  A slug that was not cut is a fixed point: generating a slug from a slug gives the slug back.
\<close>
theorem generateSlug_idem:
  "length (generateSlug title) < 200 \<Longrightarrow> generateSlug (generateSlug title) = generateSlug title"
  using generateSlug_fix [of "generateSlug title"] slug_generateSlug [of title] by simp

theorem generateSlug_idem_witness:
  "generateSlug (generateSlug ''go-1'') = generateSlug ''go-1''"
proof (rule generateSlug_idem)
  have "slug_ok ''go-1''"
    by (simp add: slug_ok_def slug_char_def is_digit_def is_dash_def byte_def has_prefix_def)
  then show "length (generateSlug ''go-1'') < 200" by (simp add: generateSlug_fix)
qed

text \<open>
  An excerpt is cut by runes, not by bytes: read as runes, it is the trimmed content when that has
  at most \<^verbatim>\<open>maxLen\<close> runes, and its first \<^verbatim>\<open>maxLen\<close> runes followed by three dots otherwise.
\<close>
theorem truncateContent_runes:
  "runes (truncateContent content maxLen) =
     (let rs = runes (trim_space content)
      in if length rs \<le> maxLen then rs else take maxLen rs @ [46, 46, 46])"
proof -
  have "list_all scalar (take maxLen (runes (trim_space content)))"
    using runes_scalar by (auto simp: list_all_iff dest: in_set_takeD)
  moreover have "runes ''...'' = [46, 46, 46]" by (simp add: runes_def byte_def)
  ultimately show ?thesis by (simp add: truncateContent_def Let_def runes_encode)
qed

lemma index_rune_skip:
  "r \<notin> set ys \<Longrightarrow> (\<And>y. y \<in> set ys \<Longrightarrow> length (utf8_enc y) = 3) \<Longrightarrow>
    index_rune (ys @ xs) r = map_option (\<lambda>i. 3 * length ys + i) (index_rune xs r)"
proof (induction ys)
  case (Cons y ys)
  then show ?case by (cases "index_rune xs r") auto
qed (simp add: option.map_ident_strong)

lemma utf8_enc_cjk: "19968 \<le> r \<Longrightarrow> r \<le> 40959 \<Longrightarrow> length (utf8_enc r) = 3"
  by (simp add: utf8_enc_def bstr_def)

lemma pinyinBlk_cjk: "list_all (\<lambda>r. 19968 \<le> r \<and> r \<le> 40959) pinyinBlk"
  by (simp add: pinyinBlk_def)

lemma firstPinyin_late:
  assumes late: "r \<in> set pinyinBlk" "r \<notin> set (take 28 pinyinBlk)"
  shows "firstPinyin r = []"
proof -
  note late(2)
  moreover have "\<And>y. y \<in> set (take 28 pinyinBlk) \<Longrightarrow> length (utf8_enc y) = 3"
    using pinyinBlk_cjk utf8_enc_cjk by (auto simp: list_all_iff dest: in_set_takeD)
  ultimately have "index_rune (take 28 pinyinBlk @ drop 28 pinyinBlk) r =
      map_option (\<lambda>i. 3 * length (take 28 pinyinBlk) + i) (index_rune (drop 28 pinyinBlk) r)"
    by (rule index_rune_skip)
  moreover have "length (take 28 pinyinBlk) = 28" "length pinyinTbl = 82"
    by (simp_all add: pinyinBlk_def pinyinTbl_def)
  ultimately show ?thesis
    by (cases "index_rune (drop 28 pinyinBlk) r") (simp_all add: firstPinyin_def)
qed

text \<open>
  The index into the letter table is a byte offset while the table is indexed by character: the
  second character gets the letter of the fourth, and every character that is not among the first 28
  has no initial at all, although the letter table goes on.
\<close>
theorem firstPinyin_byte_index:
  "map firstPinyin (take 2 pinyinBlk) = [[pinyinTbl ! 0], [pinyinTbl ! 3]] \<and>
   pinyinTbl ! 3 \<noteq> pinyinTbl ! 1 \<and>
   list_all (\<lambda>r. firstPinyin r = []) (filter (\<lambda>r. r \<notin> set (take 28 pinyinBlk)) pinyinBlk) \<and>
   length pinyinBlk = 86 \<and> length pinyinTbl = 82"
proof -
  have "map firstPinyin (take 2 pinyinBlk) = [[pinyinTbl ! 0], [pinyinTbl ! 3]] \<and> pinyinTbl ! 3 \<noteq> pinyinTbl ! 1"
    by (simp add: pinyinBlk_def pinyinTbl_def firstPinyin_def utf8_enc_def bstr_def)
  moreover have "length pinyinBlk = 86 \<and> length pinyinTbl = 82"
    by (simp add: pinyinBlk_def pinyinTbl_def)
  ultimately show ?thesis using firstPinyin_late by (simp add: list_all_iff)
qed

end
