(* ===== verification/Metadata.thy ===== *)
theory Metadata
  imports Slug
begin

text \<open>
  The identity of a request (pkg/meta): how the gateway writes it into the metadata that travels with
  a call and how a service reads it back, and the access helpers of the blog domain built on it.
\<close>

section \<open>Writing and reading the metadata\<close>

text \<open>The metadata of a call: one value per (lower-case) key; \<^verbatim>\<open>Get\<close> of a missing key is empty.\<close>

type_synonym metadata = "string \<Rightarrow> string option"

definition md_get :: "metadata \<Rightarrow> string \<Rightarrow> string" where
  "md_get md k = (case md k of None \<Rightarrow> [] | Some v \<Rightarrow> v)"

definition MetaDataKeyPrefix :: string where "MetaDataKeyPrefix = ''x-md-global-''"
definition AuthUserIDKey :: string where "AuthUserIDKey = MetaDataKeyPrefix @ ''auth-user-id''"
definition AuthUserNameKey :: string where "AuthUserNameKey = MetaDataKeyPrefix @ ''auth-user-name''"
definition AuthUserRoleKey :: string where "AuthUserRoleKey = MetaDataKeyPrefix @ ''auth-user-role''"
definition AuthRealClientIpKey :: string where "AuthRealClientIpKey = MetaDataKeyPrefix @ ''auth-real-ip''"
definition AuthAccessTokenKey :: string where "AuthAccessTokenKey = MetaDataKeyPrefix @ ''auth-access-token''"

lemmas meta_keys = AuthUserIDKey_def AuthUserNameKey_def AuthUserRoleKey_def AuthRealClientIpKey_def
  AuthAccessTokenKey_def

record Auth =
  UserID :: nat
  UserName :: string
  Role :: string

record RequestMetaData =
  auth :: Auth
  RealClientIp :: string
  AccessToken :: string

definition anonymous :: RequestMetaData where
  "anonymous = \<lparr>auth = \<lparr>UserID = 0, UserName = [], Role = []\<rparr>, RealClientIp = [], AccessToken = []\<rparr>"

definition set_unless_empty :: "string \<Rightarrow> string \<Rightarrow> metadata \<Rightarrow> metadata" where
  "set_unless_empty k v md = (if v = [] then md else md(k \<mapsto> v))"

definition IntoMetadata :: "RequestMetaData option \<Rightarrow> metadata" where
  "IntoMetadata mo =
    (case mo of
       None \<Rightarrow> Map.empty
     | Some m \<Rightarrow>
         let md0 = Map.empty;
             md1 = (if 0 < UserID (auth m) then md0(AuthUserIDKey \<mapsto> show_nat (UserID (auth m))) else md0);
             md2 = set_unless_empty AuthUserNameKey (UserName (auth m)) md1;
             md3 = set_unless_empty AuthUserRoleKey (Role (auth m)) md2;
             md4 = set_unless_empty AuthRealClientIpKey (RealClientIp m) md3
         in set_unless_empty AuthAccessTokenKey (AccessToken m) md4)"

definition ParseMetadata :: "metadata \<Rightarrow> RequestMetaData" where
  "ParseMetadata md =
    \<lparr>auth = \<lparr>UserID = (if md_get md AuthUserIDKey \<noteq> [] then fst (parse_uint64 (md_get md AuthUserIDKey)) else 0),
            UserName = md_get md AuthUserNameKey,
            Role = md_get md AuthUserRoleKey\<rparr>,
     RealClientIp = md_get md AuthRealClientIpKey,
     AccessToken = md_get md AuthAccessTokenKey\<rparr>"

section \<open>The request context\<close>

record ctx =
  server_md :: "metadata option"
  client_md :: "metadata option"

definition NewClientCtx :: "ctx \<Rightarrow> RequestMetaData option \<Rightarrow> ctx" where
  "NewClientCtx c m = c\<lparr>client_md := Some (IntoMetadata m)\<rparr>"

definition GetServerMeta :: "ctx \<Rightarrow> RequestMetaData" where
  "GetServerMeta c = (case server_md c of None \<Rightarrow> anonymous | Some md \<Rightarrow> ParseMetadata md)"

definition GetClientMeta :: "ctx \<Rightarrow> RequestMetaData" where
  "GetClientMeta c = (case client_md c of None \<Rightarrow> anonymous | Some md \<Rightarrow> ParseMetadata md)"

definition GetRequestMetaData :: "ctx \<Rightarrow> RequestMetaData" where
  "GetRequestMetaData c =
    (case server_md c of
       Some md \<Rightarrow> ParseMetadata md
     | None \<Rightarrow> (case client_md c of Some md \<Rightarrow> ParseMetadata md | None \<Rightarrow> anonymous))"

section \<open>Access helpers of the blog domain (biz/article.go)\<close>

definition ErrUserNotAuthenticated :: err where [errs]: "ErrUserNotAuthenticated = Unauthorized ''NOT_AUTHENTICATED''"
definition ErrPermissionDenied :: err where [errs]: "ErrPermissionDenied = Forbidden ''PERMISSION_DENIED''"

definition adminRole :: string where "adminRole = ''admin''"

definition getCurrentUserID :: "ctx \<Rightarrow> nat res" where
  "getCurrentUserID c =
    (if 0 < UserID (auth (GetRequestMetaData c)) then Inr (UserID (auth (GetRequestMetaData c)))
     else Inl ErrUserNotAuthenticated)"

definition getCurrentRole :: "ctx \<Rightarrow> string" where
  "getCurrentRole c = Role (auth (GetRequestMetaData c))"

definition requireAdmin :: "ctx \<Rightarrow> err option" where
  "requireAdmin c = (if getCurrentRole c \<noteq> adminRole then Some ErrPermissionDenied else None)"

text \<open>A request received by a service, as the transport middleware hands it over.\<close>

definition received :: "RequestMetaData \<Rightarrow> ctx" where
  "received m = \<lparr>server_md = Some (IntoMetadata (Some m)), client_md = None\<rparr>"

text \<open>A request of user \<^verbatim>\<open>u\<close> with role \<^verbatim>\<open>r\<close>.\<close>

definition as_user :: "nat \<Rightarrow> string \<Rightarrow> ctx" where
  "as_user u r = received \<lparr>auth = \<lparr>UserID = u, UserName = [], Role = r\<rparr>, RealClientIp = [], AccessToken = []\<rparr>"

section \<open>Lemmas\<close>

lemma keys_distinct [simp]:
  "AuthUserIDKey \<noteq> AuthUserNameKey" "AuthUserIDKey \<noteq> AuthUserRoleKey" "AuthUserIDKey \<noteq> AuthRealClientIpKey"
  "AuthUserIDKey \<noteq> AuthAccessTokenKey" "AuthUserNameKey \<noteq> AuthUserRoleKey" "AuthUserNameKey \<noteq> AuthRealClientIpKey"
  "AuthUserNameKey \<noteq> AuthAccessTokenKey" "AuthUserRoleKey \<noteq> AuthRealClientIpKey"
  "AuthUserRoleKey \<noteq> AuthAccessTokenKey" "AuthRealClientIpKey \<noteq> AuthAccessTokenKey"
  by (simp_all add: meta_keys)

lemmas keys_distinct' [simp] = keys_distinct [symmetric]

lemma md_get_set [simp]:
  "md_get (set_unless_empty k v md) k' = (if k = k' \<and> v \<noteq> [] then v else md_get md k')"
  by (simp add: md_get_def set_unless_empty_def)

lemma parse_into: "UserID (auth m) \<le> max_uint64 \<Longrightarrow> ParseMetadata (IntoMetadata (Some m)) = m"
proof -
  assume u: "UserID (auth m) \<le> max_uint64"
  let ?md = "IntoMetadata (Some m)"
  have "md_get ?md AuthUserIDKey = (if 0 < UserID (auth m) then show_nat (UserID (auth m)) else [])"
    "md_get ?md AuthUserNameKey = UserName (auth m)" "md_get ?md AuthUserRoleKey = Role (auth m)"
    "md_get ?md AuthRealClientIpKey = RealClientIp m" "md_get ?md AuthAccessTokenKey = AccessToken m"
    by (auto simp: IntoMetadata_def md_get_def set_unless_empty_def Let_def)
  then show ?thesis using u by (cases m; cases "auth m") (auto simp: ParseMetadata_def parse_uint64_show)
qed

lemma received_meta: "UserID (auth m) \<le> max_uint64 \<Longrightarrow> GetRequestMetaData (received m) = m"
  by (simp add: received_def GetRequestMetaData_def parse_into)

lemma as_user_simps [simp]:
  "0 < u \<Longrightarrow> u \<le> max_uint64 \<Longrightarrow> getCurrentUserID (as_user u r) = Inr u"
  "u \<le> max_uint64 \<Longrightarrow> getCurrentRole (as_user u r) = r"
  "u \<le> max_uint64 \<Longrightarrow> requireAdmin (as_user u ''admin'') = None"
  by (simp_all add: as_user_def getCurrentUserID_def getCurrentRole_def requireAdmin_def adminRole_def received_meta)

lemma max_uint64_ge [simp]: "numeral w \<le> max_uint64 \<longleftrightarrow> numeral w \<le> (18446744073709551615 :: nat)" "1 \<le> max_uint64" "Suc 0 \<le> max_uint64" "0 < max_uint64"
  by (simp_all add: max_uint64_def)

lemma requireAdmin_None: "requireAdmin c = None \<longleftrightarrow> getCurrentRole c = adminRole"
  by (simp add: requireAdmin_def)

lemma getCurrentUserID_cases:
  obtains (anon) "getCurrentUserID c = Inl ErrUserNotAuthenticated"
  | (user) u where "getCurrentUserID c = Inr u" "0 < u"
  by (cases "0 < UserID (auth (GetRequestMetaData c))") (simp_all add: getCurrentUserID_def)

lemma getCurrentUserID_pos: "getCurrentUserID c = Inr u \<Longrightarrow> 0 < u"
  by (auto simp: getCurrentUserID_def split: if_splits)

lemma getCurrentUserID_Inl: "getCurrentUserID c = Inl e \<Longrightarrow> e = ErrUserNotAuthenticated"
  by (auto simp: getCurrentUserID_def split: if_splits)

text \<open>
  C11. What the gateway writes is what the service reads: the metadata built from an identity, received
  by a service, is read back as that identity (user id, name, role, client address, token), for every
  64-bit user id.
\<close>
theorem metadata_roundtrip:
  "UserID (auth m) \<le> max_uint64 \<Longrightarrow> GetRequestMetaData (received m) = m"
  by (rule received_meta)

theorem metadata_roundtrip_witness:
  "GetRequestMetaData (received \<lparr>auth = \<lparr>UserID = 7, UserName = ''ann'', Role = ''admin''\<rparr>,
      RealClientIp = [], AccessToken = ''t''\<rparr>) =
    \<lparr>auth = \<lparr>UserID = 7, UserName = ''ann'', Role = ''admin''\<rparr>, RealClientIp = [], AccessToken = ''t''\<rparr>"
  by (rule metadata_roundtrip) (simp add: max_uint64_def)

end
