(* ===== verification/Cache.thy ===== *)
theory Cache
  imports GoStrings
begin

text \<open>
  The cache of the services. First the interface \<^verbatim>\<open>cache.Cache\<close> as a locale: what a reader may rely on
  after a write, a deletion or an increment, with the lemmas of the cache-aside pattern proved from
  these laws alone. Then its two implementations: the in-memory cache of pkg/testutil/datatest, and the
  Redis-backed cache of pkg/cache as a store with deadlines whose commands may fail. Both are
  interpretations of the locale.
\<close>

section \<open>The environment of an operation\<close>

text \<open>
  What an operation cannot choose: the time, the Unicode lower-case table, which statements of the
  database and which commands of Redis fail, and the three facts about the database driver that the
  source does not show: whether the join table carries a unique index, whether preloading skips
  soft-deleted join rows, and the collation of names.
\<close>

record env =
  e_now :: int
  e_low :: "nat \<Rightarrow> nat"
  db_fault :: "string list \<Rightarrow> bool"
  kv_fault :: "string list \<Rightarrow> bool"
  join_unique :: bool
  preload_live :: bool
  collate :: "string \<Rightarrow> nat list"

definition calm :: "env \<Rightarrow> bool" where
  "calm e \<longleftrightarrow> db_fault e = (\<lambda>_. False) \<and> kv_fault e = (\<lambda>_. False)"

lemma calm_simps [simp]: "calm e \<Longrightarrow> \<not> db_fault e s" "calm e \<Longrightarrow> \<not> kv_fault e s"
  by (simp_all add: calm_def)

definition env0 :: env where
  "env0 = \<lparr>e_now = 0, e_low = (\<lambda>r. r), db_fault = (\<lambda>_. False), kv_fault = (\<lambda>_. False),
     join_unique = False, preload_live = True, collate = map byte\<rparr>"

lemma calm_env0 [simp]: "calm env0" "calm (env0\<lparr>e_now := t\<rparr>)"
  by (simp_all add: calm_def env0_def)

lemma env0_simps [simp]: "db_fault env0 s = False" "kv_fault env0 s = False" "e_now env0 = 0"
  "join_unique env0 = False" "preload_live env0 = True" "e_low env0 = (\<lambda>r. r)"
  by (simp_all add: env0_def)

section \<open>The interface\<close>

locale kv_contract =
  fixes lookup :: "'k \<Rightarrow> 's \<Rightarrow> 'v option"
    and put :: "'k \<Rightarrow> 'v \<Rightarrow> 's \<Rightarrow> 's"
    and del :: "'k \<Rightarrow> 's \<Rightarrow> 's"
    and ok :: "'s \<Rightarrow> bool"
  assumes lookup_put: "ok s \<Longrightarrow> lookup k (put k' v s) = (if k = k' then Some v else lookup k s)"
    and lookup_del: "ok s \<Longrightarrow> lookup k (del k' s) = (if k = k' then None else lookup k s)"
    and ok_put: "ok s \<Longrightarrow> ok (put k v s)"
    and ok_del: "ok s \<Longrightarrow> ok (del k s)"
begin

text \<open>
  Cache-aside: a cache is coherent with a source on a set of keys when every value it holds for such a
  key is the value of the source. Filling a miss from the source keeps it so, and so does deleting
  the key of a source entry that changes.
\<close>

definition coherent :: "'k set \<Rightarrow> ('k \<Rightarrow> 'v) \<Rightarrow> 's \<Rightarrow> bool" where
  "coherent K src s \<longleftrightarrow> (\<forall>k\<in>K. \<forall>v. lookup k s = Some v \<longrightarrow> v = src k)"

lemma coherent_fill: "ok s \<Longrightarrow> coherent K src s \<Longrightarrow> coherent K src (put k (src k) s)"
  by (simp add: coherent_def lookup_put)

lemma coherent_put_other: "ok s \<Longrightarrow> k \<notin> K \<Longrightarrow> coherent K src s \<Longrightarrow> coherent K src (put k v s)"
  by (auto simp: coherent_def lookup_put)

lemma coherent_del: "ok s \<Longrightarrow> coherent K src s \<Longrightarrow> coherent K src (del k s)"
  by (simp add: coherent_def lookup_del)

lemma coherent_invalidate:
  "ok s \<Longrightarrow> coherent K src s \<Longrightarrow> (\<And>k'. k' \<in> K \<Longrightarrow> k' \<noteq> k \<Longrightarrow> src' k' = src k') \<Longrightarrow> coherent K src' (del k s)"
  by (simp add: coherent_def lookup_del)

lemma coherent_src: "coherent K src s \<Longrightarrow> (\<And>k. k \<in> K \<Longrightarrow> src' k = src k) \<Longrightarrow> coherent K src' s"
  by (simp add: coherent_def)

lemma coherent_empty: "(\<And>k. k \<in> K \<Longrightarrow> lookup k s = None) \<Longrightarrow> coherent K src s"
  by (simp add: coherent_def)

lemma coherent_hit: "coherent K src s \<Longrightarrow> k \<in> K \<Longrightarrow> lookup k s = Some v \<Longrightarrow> v = src k"
  by (simp add: coherent_def)

lemma put_then_del: "ok s \<Longrightarrow> lookup k (del k (put k v s)) = None"
  by (simp add: lookup_del ok_put)

end

section \<open>The in-memory cache (pkg/testutil/datatest)\<close>

text \<open>A value given to \<^verbatim>\<open>Set\<close>: bytes, a string, or another Go value, which is written as JSON.\<close>

datatype 'o gvalue = VBytes string | VStr string | VObj 'o

record imc =
  store :: "string \<Rightarrow> string option"
  getErrors :: "string \<Rightarrow> err option"
  getCalls :: "string \<Rightarrow> nat"
  setCalls :: "string \<Rightarrow> nat"
  deleteCalls :: "string \<Rightarrow> nat"

definition ErrKeyNotFound :: err where "ErrKeyNotFound = Opaque ''cache: key not found''"

definition imc_new :: imc where
  "imc_new = \<lparr>store = Map.empty, getErrors = Map.empty, getCalls = (\<lambda>_. 0), setCalls = (\<lambda>_. 0),
     deleteCalls = (\<lambda>_. 0)\<rparr>"

definition bump :: "string \<Rightarrow> (string \<Rightarrow> nat) \<Rightarrow> string \<Rightarrow> nat" where
  "bump k f = f(k := f k + 1)"

text \<open>The type switch of \<^verbatim>\<open>Set\<close>, \<^verbatim>\<open>SetNX\<close> and \<^verbatim>\<open>Seed\<close>; \<^verbatim>\<open>json\<close> is encoding/json's Marshal.\<close>

definition encode_value :: "('o \<Rightarrow> string res) \<Rightarrow> 'o gvalue \<Rightarrow> string res" where
  "encode_value json v = (case v of VBytes b \<Rightarrow> Inr b | VStr s \<Rightarrow> Inr s | VObj x \<Rightarrow> json x)"

definition imc_seed :: "string \<Rightarrow> string \<Rightarrow> imc \<Rightarrow> imc" where
  "imc_seed k b c = c\<lparr>store := (store c)(k \<mapsto> b)\<rparr>"

definition imc_set_get_error :: "string \<Rightarrow> err \<Rightarrow> imc \<Rightarrow> imc" where
  "imc_set_get_error k e c = c\<lparr>getErrors := (getErrors c)(k \<mapsto> e)\<rparr>"

definition imc_get :: "string \<Rightarrow> imc \<Rightarrow> string res \<times> imc" where
  "imc_get k c =
    (let c1 = c\<lparr>getCalls := bump k (getCalls c)\<rparr>
     in case getErrors c1 k of
          Some e \<Rightarrow> (Inl e, c1)
        | None \<Rightarrow> (case store c1 k of None \<Rightarrow> (Inl ErrKeyNotFound, c1) | Some d \<Rightarrow> (Inr d, c1)))"

definition imc_get_object :: "(string \<Rightarrow> 'o res) \<Rightarrow> string \<Rightarrow> imc \<Rightarrow> 'o res \<times> imc" where
  "imc_get_object unjson k c =
    (case imc_get k c of (Inl e, c1) \<Rightarrow> (Inl e, c1) | (Inr d, c1) \<Rightarrow> (unjson d, c1))"

definition imc_set :: "('o \<Rightarrow> string res) \<Rightarrow> string \<Rightarrow> 'o gvalue \<Rightarrow> imc \<Rightarrow> err option \<times> imc" where
  "imc_set json k v c =
    (let c1 = c\<lparr>setCalls := bump k (setCalls c)\<rparr>
     in case encode_value json v of
          Inl e \<Rightarrow> (Some e, c1)
        | Inr d \<Rightarrow> (None, c1\<lparr>store := (store c1)(k \<mapsto> d)\<rparr>))"

definition imc_delete :: "string \<Rightarrow> imc \<Rightarrow> imc" where
  "imc_delete k c =
    (let c1 = c\<lparr>deleteCalls := bump k (deleteCalls c)\<rparr> in c1\<lparr>store := (store c1)(k := None)\<rparr>)"

definition imc_exists :: "string \<Rightarrow> imc \<Rightarrow> bool res" where
  "imc_exists k c =
    (case getErrors c k of
       Some e \<Rightarrow> if e = ErrKeyNotFound then Inr (store c k \<noteq> None) else Inl e
     | None \<Rightarrow> Inr (store c k \<noteq> None))"

definition imc_ttl :: "string \<Rightarrow> imc \<Rightarrow> int" where
  "imc_ttl k c = (if getErrors c k \<noteq> None then - 2 else if store c k \<noteq> None then - 1 else - 2)"

definition imc_flush :: "imc \<Rightarrow> imc" where
  "imc_flush c = c\<lparr>store := Map.empty\<rparr>"

definition imc_setnx :: "('o \<Rightarrow> string res) \<Rightarrow> string \<Rightarrow> 'o gvalue \<Rightarrow> imc \<Rightarrow> bool res \<times> imc" where
  "imc_setnx json k v c =
    (let c1 = c\<lparr>setCalls := bump k (setCalls c)\<rparr>
     in if store c1 k \<noteq> None then (Inr False, c1)
        else case encode_value json v of
               Inl e \<Rightarrow> (Inl e, c1)
             | Inr d \<Rightarrow> (Inr True, c1\<lparr>store := (store c1)(k \<mapsto> d)\<rparr>))"

text \<open>\<^verbatim>\<open>n++\<close> and \<^verbatim>\<open>n--\<close> on an int64.\<close>

definition wrap64 :: "int \<Rightarrow> int" where
  "wrap64 i = sint (word_of_int i :: 64 word)"

definition imc_add :: "int \<Rightarrow> string \<Rightarrow> imc \<Rightarrow> int \<times> imc" where
  "imc_add d k c =
    (let c1 = c\<lparr>getCalls := bump k (getCalls c)\<rparr>
     in case store c1 k of
          None \<Rightarrow> (d, c1\<lparr>store := (store c1)(k \<mapsto> show_int d)\<rparr>)
        | Some s \<Rightarrow> (let n = wrap64 (scan_int s + d)
                     in (n, c1\<lparr>store := (store c1)(k \<mapsto> show_int n)\<rparr>)))"

definition imc_incr :: "string \<Rightarrow> imc \<Rightarrow> int \<times> imc" where "imc_incr = imc_add 1"
definition imc_decr :: "string \<Rightarrow> imc \<Rightarrow> int \<times> imc" where "imc_decr = imc_add (- 1)"

definition imc_expire :: "string \<Rightarrow> imc \<Rightarrow> err option" where
  "imc_expire k c = (if store c k = None then Some ErrKeyNotFound else None)"

definition imc_mget :: "string list \<Rightarrow> imc \<Rightarrow> (string \<times> string) list \<times> imc" where
  "imc_mget ks c =
    (let c1 = (if ks = [] then c else c\<lparr>getCalls := bump (hd ks) (getCalls c)\<rparr>)
     in (List.map_filter (\<lambda>k. map_option (\<lambda>v. (k, v)) (store c1 k)) ks, c1))"

definition imc_get_or_set ::
  "('o \<Rightarrow> string res) \<Rightarrow> string \<Rightarrow> 'o gvalue res \<Rightarrow> imc \<Rightarrow> string res \<times> imc" where
  "imc_get_or_set json k loader c =
    (case imc_get k c of
       (Inr v, c1) \<Rightarrow> (Inr v, c1)
     | (Inl e, c1) \<Rightarrow>
         if e \<noteq> ErrKeyNotFound then (Inl e, c1)
         else case loader of
                Inl e' \<Rightarrow> (Inl e', c1)
              | Inr v \<Rightarrow> (case imc_set json k v c1 of
                   (Some e', c2) \<Rightarrow> (Inl e', c2)
                 | (None, c2) \<Rightarrow> imc_get k c2))"

definition imc_get_del :: "string \<Rightarrow> imc \<Rightarrow> string res \<times> imc" where
  "imc_get_del k c =
    (case imc_get k c of (Inl e, c1) \<Rightarrow> (Inl e, c1) | (Inr v, c1) \<Rightarrow> (Inr v, imc_delete k c1))"

definition imc_get_object_del :: "(string \<Rightarrow> 'o res) \<Rightarrow> string \<Rightarrow> imc \<Rightarrow> 'o res \<times> imc" where
  "imc_get_object_del unjson k c =
    (case imc_get_del k c of (Inl e, c1) \<Rightarrow> (Inl e, c1) | (Inr v, c1) \<Rightarrow> (unjson v, c1))"

definition imc_scan_all :: "string \<Rightarrow> imc \<Rightarrow> string list" where
  "imc_scan_all pat c = []"

definition imc_reset :: "imc \<Rightarrow> imc" where
  "imc_reset c = imc_new"

definition imc_was_deleted :: "string \<Rightarrow> imc \<Rightarrow> bool" where
  "imc_was_deleted k c \<longleftrightarrow> 0 < deleteCalls c k"

lemmas imc_defs = imc_get_def imc_set_def imc_delete_def imc_setnx_def imc_add_def imc_incr_def
  imc_decr_def imc_get_del_def imc_get_or_set_def bump_def encode_value_def Let_def

section \<open>The Redis cache (pkg/cache)\<close>

text \<open>
  A value in Redis: raw bytes, or the JSON text of a Go object, which reading back as that object
  recovers. A key has an optional deadline; it is there until the deadline has passed.
\<close>

datatype 'o cval = Raw string | Json 'o

type_synonym 'o rstore = "string \<Rightarrow> ('o cval \<times> int option) option"

definition live :: "env \<Rightarrow> 'o rstore \<Rightarrow> string \<Rightarrow> 'o cval option" where
  "live e m k =
    (case m k of
       None \<Rightarrow> None
     | Some (v, None) \<Rightarrow> Some v
     | Some (v, Some t) \<Rightarrow> if e_now e < t then Some v else None)"

definition kv_error :: err where "kv_error = Opaque ''redis''"

text \<open>
  Times and durations are nanoseconds. The client go-redis sends an expiry in a unit: SETEX and EXPIRE
  take whole seconds, SET NX milliseconds. What is over is cut off, and a positive expiry below one unit
  counts as one unit. Redis refuses a SET with an expiry that is not positive; 0 is no expiry (SET
  without one, as \<^verbatim>\<open>Set\<close> and \<^verbatim>\<open>SetNX\<close> send it), and -1 is go-redis's KeepTTL, which for a new key
  is no expiry either.
\<close>

definition second :: int where "second = 1000000000"
definition millisecond :: int where "millisecond = 1000000"

lemma units_pos [simp]: "0 < second" "0 < millisecond"
  by (simp_all add: second_def millisecond_def)

definition in_units :: "int \<Rightarrow> int \<Rightarrow> int" where
  "in_units u ttl = (if 0 < ttl \<and> ttl < u then u else ttl div u * u)"

definition deadline :: "int \<Rightarrow> env \<Rightarrow> int \<Rightarrow> int option" where
  "deadline u e ttl = (if ttl = 0 then None else Some (e_now e + in_units u ttl))"

lemma in_units_close: "0 < u \<Longrightarrow> ttl - u < in_units u ttl"
  using pos_mod_bound [of u ttl] by (simp add: in_units_def minus_mod_eq_div_mult [symmetric])

lemma in_units_pos: "0 < u \<Longrightarrow> 0 < in_units u ttl \<longleftrightarrow> 0 < ttl"
  using pos_imp_zdiv_pos_iff [of u ttl] by (auto simp: in_units_def zero_less_mult_iff)

definition rc_get :: "env \<Rightarrow> string \<Rightarrow> 'o rstore \<Rightarrow> 'o cval res" where
  "rc_get e k m =
    (if kv_fault e [''get'', k] then Inl kv_error
     else case live e m k of None \<Rightarrow> Inl ErrKeyNotFound | Some v \<Rightarrow> Inr v)"

text \<open>\<^verbatim>\<open>GetObject\<close> fails when the bytes do not unmarshal into the wanted type.\<close>

definition rc_get_object :: "env \<Rightarrow> ('o \<Rightarrow> 'a option) \<Rightarrow> string \<Rightarrow> 'o rstore \<Rightarrow> 'a res" where
  "rc_get_object e as k m =
    (case rc_get e k m of
       Inl er \<Rightarrow> Inl er
     | Inr (Raw b) \<Rightarrow> Inl (Opaque ''json'')
     | Inr (Json x) \<Rightarrow> (case as x of None \<Rightarrow> Inl (Opaque ''json'') | Some a \<Rightarrow> Inr a))"

definition rc_set :: "env \<Rightarrow> string \<Rightarrow> 'o cval \<Rightarrow> int \<Rightarrow> 'o rstore \<Rightarrow> err option \<times> 'o rstore" where
  "rc_set e k v ttl m =
    (if kv_fault e [''set'', k] \<or> ttl < 0 then (Some kv_error, m)
     else (None, m(k \<mapsto> (v, deadline second e ttl))))"

definition rc_delete :: "env \<Rightarrow> string \<Rightarrow> 'o rstore \<Rightarrow> err option \<times> 'o rstore" where
  "rc_delete e k m =
    (if kv_fault e [''del'', k] then (Some kv_error, m) else (None, m(k := None)))"

definition rc_exists :: "env \<Rightarrow> string \<Rightarrow> 'o rstore \<Rightarrow> bool res" where
  "rc_exists e k m = (if kv_fault e [''exists'', k] then Inl kv_error else Inr (live e m k \<noteq> None))"

definition rc_setnx :: "env \<Rightarrow> string \<Rightarrow> 'o cval \<Rightarrow> int \<Rightarrow> 'o rstore \<Rightarrow> bool res \<times> 'o rstore" where
  "rc_setnx e k v ttl m =
    (if kv_fault e [''setnx'', k] \<or> ttl < - 1 then (Inl kv_error, m)
     else if live e m k \<noteq> None then (Inr False, m)
     else (Inr True, m(k \<mapsto> (v, if ttl = - 1 then None else deadline millisecond e ttl))))"

text \<open>\<^verbatim>\<open>INCR\<close> keeps the deadline and fails on a value that is no 64-bit integer or would overflow.\<close>

definition rc_incr :: "env \<Rightarrow> string \<Rightarrow> 'o rstore \<Rightarrow> int res \<times> 'o rstore" where
  "rc_incr e k m =
    (if kv_fault e [''incr'', k] then (Inl kv_error, m)
     else case live e m k of
            None \<Rightarrow> (Inr 1, m(k \<mapsto> (Raw (show_int 1), None)))
          | Some (Json x) \<Rightarrow> (Inl kv_error, m)
          | Some (Raw b) \<Rightarrow>
              (case parse_int64 b of
                 None \<Rightarrow> (Inl kv_error, m)
               | Some n \<Rightarrow>
                   if n + 1 < 2 ^ 63
                   then (Inr (n + 1), m(k \<mapsto> (Raw (show_int (n + 1)), snd (the (m k)))))
                   else (Inl kv_error, m)))"

definition rc_expire :: "env \<Rightarrow> string \<Rightarrow> int \<Rightarrow> 'o rstore \<Rightarrow> err option \<times> 'o rstore" where
  "rc_expire e k ttl m =
    (if kv_fault e [''expire'', k] then (Some kv_error, m)
     else case live e m k of
            None \<Rightarrow> (None, m)
          | Some v \<Rightarrow> (None, m(k \<mapsto> (v, Some (e_now e + in_units second ttl)))))"

text \<open>\<^verbatim>\<open>MGet\<close>: keys that are missing do not occur in the result.\<close>

definition rc_mget :: "env \<Rightarrow> string list \<Rightarrow> 'o rstore \<Rightarrow> (string \<times> 'o cval) list res" where
  "rc_mget e ks m =
    (if ks = [] then Inr []
     else if kv_fault e [''mget''] then Inl kv_error
     else Inr (List.map_filter (\<lambda>k. map_option (\<lambda>v. (k, v)) (live e m k)) ks))"

definition rc_getdel :: "env \<Rightarrow> string \<Rightarrow> 'o rstore \<Rightarrow> 'o cval res \<times> 'o rstore" where
  "rc_getdel e k m =
    (if kv_fault e [''getdel'', k] then (Inl kv_error, m)
     else case live e m k of
            None \<Rightarrow> (Inl ErrKeyNotFound, m)
          | Some v \<Rightarrow> (Inr v, m(k := None)))"

definition rc_get_or_set ::
  "env \<Rightarrow> string \<Rightarrow> 'o cval res \<Rightarrow> int \<Rightarrow> 'o rstore \<Rightarrow> 'o cval res \<times> 'o rstore" where
  "rc_get_or_set e k loader ttl m =
    (case rc_get e k m of
       Inr v \<Rightarrow> (Inr v, m)
     | Inl er \<Rightarrow>
         if er \<noteq> ErrKeyNotFound then (Inl er, m)
         else case loader of
                Inl er' \<Rightarrow> (Inl er', m)
              | Inr v \<Rightarrow> (case rc_set e k v ttl m of
                   (Some er', m1) \<Rightarrow> (Inl er', m1)
                 | (None, m1) \<Rightarrow> (rc_get e k m1, m1)))"

lemmas rc_defs = rc_get_def rc_set_def rc_delete_def rc_setnx_def rc_incr_def rc_expire_def

section \<open>Both caches keep the contract\<close>

definition imc_lookup :: "string \<Rightarrow> imc \<Rightarrow> string option" where
  "imc_lookup k c = (case fst (imc_get k c) of Inl e \<Rightarrow> None | Inr d \<Rightarrow> Some d)"

definition imc_put :: "string \<Rightarrow> string \<Rightarrow> imc \<Rightarrow> imc" where
  "imc_put k v c = snd (imc_set (\<lambda>x::unit. Inl (Opaque [])) k (VBytes v) c)"

definition imc_clean :: "imc \<Rightarrow> bool" where
  "imc_clean c \<longleftrightarrow> getErrors c = Map.empty"

interpretation im: kv_contract imc_lookup imc_put imc_delete imc_clean
  by unfold_locales (simp_all add: imc_lookup_def imc_put_def imc_clean_def imc_defs split: option.split)

text \<open>
  For Redis the contract is stated on the held values, whatever their deadlines; a value that is read
  is held.
\<close>

definition held :: "string \<Rightarrow> 'o rstore \<Rightarrow> 'o cval option" where
  "held k m = map_option fst (m k)"

definition hold :: "int option \<Rightarrow> string \<Rightarrow> 'o cval \<Rightarrow> 'o rstore \<Rightarrow> 'o rstore" where
  "hold t k v m = m(k \<mapsto> (v, t))"

definition drop_key :: "string \<Rightarrow> 'o rstore \<Rightarrow> 'o rstore" where
  "drop_key k m = m(k := None)"

interpretation rc: kv_contract held "hold t" drop_key "\<lambda>_. True" for t
  by unfold_locales (simp_all add: held_def hold_def drop_key_def)

lemma rc_set_hold:
  "snd (rc_set e k v ttl m) = (if kv_fault e [''set'', k] \<or> ttl < 0 then m else hold (deadline second e ttl) k v m)"
  by (simp add: rc_set_def hold_def)

lemma rc_delete_drop:
  "snd (rc_delete e k m) = (if kv_fault e [''del'', k] then m else drop_key k m)"
  by (simp add: rc_delete_def drop_key_def)

lemma live_held: "live e m k = Some v \<Longrightarrow> held k m = Some v"
  by (auto simp: live_def held_def split: option.splits if_splits prod.splits)

lemma rc_get_held: "rc_get e k m = Inr v \<Longrightarrow> held k m = Some v"
  by (auto simp: rc_get_def split: if_splits option.splits intro: live_held)

lemma rc_get_object_held: "rc_get_object e as k m = Inr a \<Longrightarrow> \<exists>x. held k m = Some (Json x) \<and> as x = Some a"
  by (auto simp: rc_get_object_def split: sum.splits cval.splits option.splits dest: rc_get_held)

lemma live_set [simp]:
  "0 < u \<Longrightarrow> live e (m(k \<mapsto> (v, deadline u e ttl))) k' =
    (if k = k' then (if 0 \<le> ttl then Some v else None) else live e m k')"
  using in_units_pos [of u ttl] by (auto simp: live_def deadline_def)

lemma live_none [simp]: "live e (m(k := None)) k' = (if k = k' then None else live e m k')"
  by (simp add: live_def)

section \<open>What the caches do\<close>

lemma wrap64_id: "- (2 ^ 63) \<le> n \<Longrightarrow> n < 2 ^ 63 \<Longrightarrow> wrap64 n = n"
  unfolding wrap64_def sint_sbintrunc' by (rule signed_take_bit_int_eq_self) simp_all

lemma imc_incr_counts:
  assumes "store c k = Some (show_int n)" "0 \<le> n" "n < 2 ^ 63 - 1"
  shows "fst (imc_incr k c) = n + 1 \<and> store (snd (imc_incr k c)) k = Some (show_int (n + 1))"
proof -
  have s: "scan_int (show_int n) = n" using assms scan_int_show_nat [of "nat n"] by (simp add: show_int_def nat_less_iff)
  have "wrap64 (n + 1) = n + 1" using assms by (simp add: wrap64_id)
  with s assms show ?thesis by (simp add: imc_defs)
qed

end
