(* ===== verification/BlogData.thy ===== *)
theory BlogData
  imports Metadata Cache
begin

text \<open>
  The data model of the blog service: the entities of the biz layer, the rows of the data layer, the
  tables with the unique indexes their declarations name, and the state the repositories work on.
  A row is deleted softly: its deletion time is set and every query of the driver skips it.
\<close>

section \<open>Entities (biz/article.go, biz/tag.go)\<close>

datatype ArticleStatus = Draft | Published | Archived

record Tag =
  tag_ID :: nat
  tag_Name :: string
  tag_Slug :: string
  tag_Count :: int
  tag_CreatedAt :: int

datatype Category = Category
  (cat_ID: nat) (cat_Name: string) (cat_Slug: string) (cat_Desc: string) (cat_ParentID: "nat option")
  (cat_SortOrder: int) (cat_Count: int) (cat_CreatedAt: int) (cat_Children: "Category list")

record Article =
  ID :: nat
  Title :: string
  Slug :: string
  Content :: string
  Excerpt :: string
  CoverImage :: string
  Status :: ArticleStatus
  AuthorID :: nat
  AuthorName :: string
  AuthorAvatar :: string
  CategoryID :: "nat option"
  CategoryName :: string
  Tags :: "Tag list"
  ViewCount :: int
  LikeCount :: int
  IsTop :: bool
  IsLiked :: bool
  PublishedAt :: "int option"
  CreatedAt :: int
  UpdatedAt :: int

text \<open>The events of the article use case (biz/article.go), each offered to the bus on its topic.\<close>

datatype event =
    ArticleUpdated nat string nat
  | ArticleDeleted nat nat
  | ArticlePublished nat string string nat
  | ArticleViewed nat
  | ArticleLiked nat nat

section \<open>Rows (data/article.go, data/tag.go)\<close>

record ArticlePO =
  po_ID :: nat
  po_Title :: string
  po_Slug :: string
  po_Content :: string
  po_Excerpt :: string
  po_CoverImage :: string
  po_Status :: ArticleStatus
  po_AuthorID :: nat
  po_CategoryID :: "nat option"
  po_ViewCount :: int
  po_LikeCount :: int
  po_IsTop :: bool
  po_PublishedAt :: "int option"
  po_CreatedAt :: int
  po_UpdatedAt :: int
  po_DeletedAt :: "int option"

record TagPO =
  tpo_ID :: nat
  tpo_Name :: string
  tpo_Slug :: string
  tpo_Count :: int
  tpo_CreatedAt :: int
  tpo_DeletedAt :: "int option"

record CategoryPO =
  cpo_ID :: nat
  cpo_Name :: string
  cpo_Slug :: string
  cpo_Desc :: string
  cpo_ParentID :: "nat option"
  cpo_SortOrder :: int
  cpo_Count :: int
  cpo_CreatedAt :: int
  cpo_DeletedAt :: "int option"

record ArticleTagPO =
  at_Article :: nat
  at_Tag :: nat
  at_DeletedAt :: "int option"

record ArticleLikePO =
  lk_Article :: nat
  lk_User :: nat
  lk_DeletedAt :: "int option"

text \<open>The columns of the users table the blog service reads.\<close>

record user_row =
  ur_ID :: nat
  ur_Username :: string
  ur_Avatar :: string

section \<open>The state of the data layer\<close>

text \<open>The objects the service caches as JSON.\<close>

datatype cobj = TagList "Tag list" | CatTree "Category list"

definition as_tags :: "cobj \<Rightarrow> Tag list option" where
  "as_tags x = (case x of TagList ts \<Rightarrow> Some ts | CatTree t \<Rightarrow> None)"

definition as_tree :: "cobj \<Rightarrow> Category list option" where
  "as_tree x = (case x of TagList ts \<Rightarrow> None | CatTree t \<Rightarrow> Some t)"

record blog =
  articles :: "ArticlePO list"
  tags :: "TagPO list"
  categories :: "CategoryPO list"
  articles_tags :: "ArticleTagPO list"
  articles_likes :: "ArticleLikePO list"
  users :: "user_row list"
  next_article :: nat
  next_tag :: nat
  next_category :: nat
  kv :: "cobj rstore"
  outbox :: "event list"

definition blog0 :: blog where
  "blog0 = \<lparr>articles = [], tags = [], categories = [], articles_tags = [], articles_likes = [], users = [],
     next_article = 1, next_tag = 1, next_category = 1, kv = Map.empty, outbox = []\<rparr>"

section \<open>Errors of the database (pkg/util/dberror.go)\<close>

definition db_error :: err where "db_error = Opaque ''db''"
definition dup_error :: err where "dup_error = Opaque ''Error 1062: Duplicate entry''"

primrec err_text :: "err \<Rightarrow> string" where
  "err_text (Kratos c r) = r"
| "err_text (Wrap m e) = m @ '': '' @ err_text e"
| "err_text (Opaque m) = m"

definition containsSubstr :: "string \<Rightarrow> string \<Rightarrow> bool" where
  "containsSubstr s sub = (if length s < length sub then False else contains s sub)"

definition IsUniqueViolation :: "err option \<Rightarrow> bool" where
  "IsUniqueViolation eo =
    (case eo of
       None \<Rightarrow> False
     | Some e \<Rightarrow>
         containsSubstr (err_text e) ''23505'' \<or> containsSubstr (err_text e) ''1062'' \<or>
         containsSubstr (err_text e) ''duplicate key'' \<or> containsSubstr (err_text e) ''unique constraint'' \<or>
         containsSubstr (err_text e) ''UNIQUE constraint failed'')"

lemma unique_violation_simps [simp]:
  "IsUniqueViolation (Some dup_error)" "\<not> IsUniqueViolation (Some db_error)" "\<not> IsUniqueViolation None"
  by (simp_all add: IsUniqueViolation_def containsSubstr_def dup_error_def db_error_def has_prefix_def)

lemma db_errors_differ [simp]: "dup_error \<noteq> db_error" "db_error \<noteq> dup_error"
  by (simp_all add: dup_error_def db_error_def)

section \<open>Rows and entities\<close>

definition tagPOToBiz :: "TagPO \<Rightarrow> Tag" where
  "tagPOToBiz po = \<lparr>tag_ID = tpo_ID po, tag_Name = tpo_Name po, tag_Slug = tpo_Slug po, tag_Count = tpo_Count po,
     tag_CreatedAt = tpo_CreatedAt po\<rparr>"

definition catPOToBiz :: "CategoryPO \<Rightarrow> Category" where
  "catPOToBiz po = Category (cpo_ID po) (cpo_Name po) (cpo_Slug po) (cpo_Desc po) (cpo_ParentID po)
     (cpo_SortOrder po) (cpo_Count po) (cpo_CreatedAt po) []"

definition articlePOToBiz :: "ArticlePO \<Rightarrow> TagPO list \<Rightarrow> Article" where
  "articlePOToBiz po tgs =
    \<lparr>ID = po_ID po, Title = po_Title po, Slug = po_Slug po, Content = po_Content po, Excerpt = po_Excerpt po,
     CoverImage = po_CoverImage po, Status = po_Status po, AuthorID = po_AuthorID po, AuthorName = [],
     AuthorAvatar = [], CategoryID = po_CategoryID po, CategoryName = [], Tags = map tagPOToBiz tgs,
     ViewCount = po_ViewCount po, LikeCount = po_LikeCount po, IsTop = po_IsTop po, IsLiked = False,
     PublishedAt = po_PublishedAt po, CreatedAt = po_CreatedAt po, UpdatedAt = po_UpdatedAt po\<rparr>"

text \<open>The row of a new article; the driver fills in the id and the times of \<^verbatim>\<open>gorm.Model\<close>.\<close>

definition toArticlePO :: "nat \<Rightarrow> int \<Rightarrow> Article \<Rightarrow> ArticlePO" where
  "toArticlePO i now a =
    \<lparr>po_ID = i, po_Title = Title a, po_Slug = Slug a, po_Content = Content a, po_Excerpt = Excerpt a,
     po_CoverImage = CoverImage a, po_Status = Status a, po_AuthorID = AuthorID a, po_CategoryID = CategoryID a,
     po_ViewCount = 0, po_LikeCount = 0, po_IsTop = IsTop a, po_PublishedAt = PublishedAt a,
     po_CreatedAt = now, po_UpdatedAt = now, po_DeletedAt = None\<rparr>"

section \<open>Queries\<close>

definition live_article :: "nat \<Rightarrow> ArticlePO \<Rightarrow> bool" where
  "live_article i po \<longleftrightarrow> po_DeletedAt po = None \<and> po_ID po = i"

definition slug_article :: "string \<Rightarrow> ArticlePO \<Rightarrow> bool" where
  "slug_article s po \<longleftrightarrow> po_DeletedAt po = None \<and> po_Slug po = s"

definition row_by_id :: "blog \<Rightarrow> nat \<Rightarrow> ArticlePO option" where
  "row_by_id b i = List.find (live_article i) (articles b)"

definition row_by_slug :: "blog \<Rightarrow> string \<Rightarrow> ArticlePO option" where
  "row_by_slug b s = List.find (slug_article s) (articles b)"

definition live_tag :: "TagPO \<Rightarrow> bool" where "live_tag t \<longleftrightarrow> tpo_DeletedAt t = None"
definition live_cat :: "CategoryPO \<Rightarrow> bool" where "live_cat c \<longleftrightarrow> cpo_DeletedAt c = None"

definition tag_by_name :: "blog \<Rightarrow> string \<Rightarrow> TagPO option" where
  "tag_by_name b n = List.find (\<lambda>t. live_tag t \<and> tpo_Name t = n) (tags b)"

definition cat_by_id :: "blog \<Rightarrow> nat \<Rightarrow> CategoryPO option" where
  "cat_by_id b i = List.find (\<lambda>c. live_cat c \<and> cpo_ID c = i) (categories b)"

text \<open>\<^verbatim>\<open>Preload("Tags")\<close>: the live tags joined to the article.\<close>

definition preload_tags :: "env \<Rightarrow> blog \<Rightarrow> nat \<Rightarrow> TagPO list" where
  "preload_tags e b i =
    filter (\<lambda>t. live_tag t \<and>
        (\<exists>r\<in>set (articles_tags b). at_Article r = i \<and> at_Tag r = tpo_ID t \<and>
            (preload_live e \<longrightarrow> at_DeletedAt r = None)))
      (tags b)"

end
