(* ===== verification/TagRepo.thy ===== *)
theory TagRepo
  imports BlogData "HOL-Library.List_Lexorder" "HOL-Library.Multiset"
begin

text \<open>
  The tag and category repositories (app/blog/internal/data/tag.go): every statement and cache command
  in the order of the source, and the invariant that the two cached lists are never stale.
\<close>

section \<open>Errors and keys\<close>

definition ErrTagNotFound :: err where [errs]: "ErrTagNotFound = NotFound ''TAG_NOT_FOUND''"
definition ErrTagNameExists :: err where [errs]: "ErrTagNameExists = Conflict ''TAG_NAME_EXISTS''"
definition ErrCategoryNotFound :: err where [errs]: "ErrCategoryNotFound = NotFound ''CATEGORY_NOT_FOUND''"
definition ErrCategoryNameExists :: err where [errs]: "ErrCategoryNameExists = Conflict ''CATEGORY_NAME_EXISTS''"

definition cacheKeyTagAll :: string where "cacheKeyTagAll = ''tag:all''"
definition cacheKeyCatTree :: string where "cacheKeyCatTree = ''category:tree''"
definition minute :: int where "minute = 60000000000"
definition ttlTagAll :: int where "ttlTagAll = 60 * minute"
definition ttlCatTree :: int where "ttlCatTree = 60 * minute"

definition kv_del :: "env \<Rightarrow> string \<Rightarrow> blog \<Rightarrow> blog" where
  "kv_del e k b = b\<lparr>kv := snd (rc_delete e k (kv b))\<rparr>"

definition kv_set :: "env \<Rightarrow> string \<Rightarrow> cobj cval \<Rightarrow> int \<Rightarrow> blog \<Rightarrow> blog" where
  "kv_set e k v ttl b = b\<lparr>kv := snd (rc_set e k v ttl (kv b))\<rparr>"

section \<open>tagRepo\<close>

text \<open>
  \<^verbatim>\<open>INSERT\<close> into tags: the two unique indexes range over live rows. The result is the error of the
  statement, or the new row.
\<close>

definition tag_conflict :: "blog \<Rightarrow> string \<Rightarrow> string \<Rightarrow> bool" where
  "tag_conflict b n s \<longleftrightarrow> (\<exists>t\<in>set (tags b). live_tag t \<and> (tpo_Name t = n \<or> tpo_Slug t = s))"

definition insert_tag :: "env \<Rightarrow> string \<Rightarrow> string \<Rightarrow> blog \<Rightarrow> TagPO \<times> blog" where
  "insert_tag e n s b =
    (let po = \<lparr>tpo_ID = next_tag b, tpo_Name = n, tpo_Slug = s, tpo_Count = 0, tpo_CreatedAt = e_now e,
               tpo_DeletedAt = None\<rparr>
     in (po, b\<lparr>tags := tags b @ [po], next_tag := next_tag b + 1\<rparr>))"

definition tagRepo_Create :: "env \<Rightarrow> string \<Rightarrow> string \<Rightarrow> blog \<Rightarrow> Tag res \<times> blog" where
  "tagRepo_Create e n s b =
    (let dberr = (if db_fault e [''tags.insert''] then Some db_error
                  else if tag_conflict b n s then Some dup_error else None)
     in case dberr of
          Some er \<Rightarrow>
            if IsUniqueViolation (Some er) then (Inl ErrTagNameExists, b)
            else (Inl (Wrap ''create tag'' er), b)
        | None \<Rightarrow>
            let (po, b1) = insert_tag e n s b
            in (Inr (tagPOToBiz po), kv_del e cacheKeyTagAll b1))"

definition tagRepo_FindByName :: "env \<Rightarrow> string \<Rightarrow> blog \<Rightarrow> Tag res" where
  "tagRepo_FindByName e n b =
    (if db_fault e [''tags.by_name'', n] then Inl db_error
     else case tag_by_name b n of None \<Rightarrow> Inl ErrTagNotFound | Some po \<Rightarrow> Inr (tagPOToBiz po))"

text \<open>\<^verbatim>\<open>ON CONFLICT DO NOTHING\<close>: a conflicting insert does nothing and leaves the id at zero.\<close>

definition tagRepo_FindOrCreate :: "env \<Rightarrow> string \<Rightarrow> string \<Rightarrow> blog \<Rightarrow> Tag res \<times> blog" where
  "tagRepo_FindOrCreate e n s b =
    (case tagRepo_FindByName e n b of
       Inr t \<Rightarrow> (Inr t, b)
     | Inl er \<Rightarrow>
         if er \<noteq> ErrTagNotFound then (Inl er, b)
         else if db_fault e [''tags.insert'', n] then (Inl (Wrap ''find or create tag'' db_error), b)
         else if tag_conflict b n s then (tagRepo_FindByName e n b, b)
         else let (po, b1) = insert_tag e n s b; b2 = kv_del e cacheKeyTagAll b1
              in (tagRepo_FindByName e n b2, b2))"

text \<open>The order \<^verbatim>\<open>article_count DESC, name ASC\<close> of the tag list.\<close>

datatype tag_rank = TagRank int "nat list"

instantiation tag_rank :: linorder
begin

fun less_eq_tag_rank :: "tag_rank \<Rightarrow> tag_rank \<Rightarrow> bool" where
  "less_eq_tag_rank (TagRank c n) (TagRank d m) \<longleftrightarrow> d < c \<or> (c = d \<and> n \<le> m)"

definition less_tag_rank :: "tag_rank \<Rightarrow> tag_rank \<Rightarrow> bool" where
  "less_tag_rank x y \<longleftrightarrow> x \<le> y \<and> \<not> y \<le> (x :: tag_rank)"

instance
proof
  fix x y z :: tag_rank
  show "(x < y) = (x \<le> y \<and> \<not> y \<le> x)" by (simp add: less_tag_rank_def)
  show "x \<le> x" by (cases x) simp
  show "x \<le> y \<Longrightarrow> y \<le> z \<Longrightarrow> x \<le> z" by (cases x; cases y; cases z) auto
  show "x \<le> y \<Longrightarrow> y \<le> x \<Longrightarrow> x = y" by (cases x; cases y) auto
  show "x \<le> y \<or> y \<le> x" by (cases x; cases y) auto
qed

end

definition tag_rank_of :: "env \<Rightarrow> TagPO \<Rightarrow> tag_rank" where
  "tag_rank_of e t = TagRank (tpo_Count t) (collate e (tpo_Name t))"

definition db_tag_list :: "env \<Rightarrow> blog \<Rightarrow> Tag list" where
  "db_tag_list e b = map tagPOToBiz (sort_key (tag_rank_of e) (filter live_tag (tags b)))"

definition tagRepo_List :: "env \<Rightarrow> blog \<Rightarrow> Tag list res \<times> blog" where
  "tagRepo_List e b =
    (case rc_get_object e as_tags cacheKeyTagAll (kv b) of
       Inr ts \<Rightarrow> (Inr ts, b)
     | Inl _ \<Rightarrow>
         if db_fault e [''tags.all''] then (Inl db_error, b)
         else let ts = db_tag_list e b
              in (Inr ts, kv_set e cacheKeyTagAll (Json (TagList ts)) ttlTagAll b))"

text \<open>
  \<^verbatim>\<open>Delete\<close>: a failed statement affects no row, so it too is answered with ErrTagNotFound. The join rows
  are then removed for good (\<^verbatim>\<open>Unscoped\<close>); a failure there is only logged.
\<close>

definition tagRepo_Delete :: "env \<Rightarrow> nat \<Rightarrow> blog \<Rightarrow> err option \<times> blog" where
  "tagRepo_Delete e i b =
    (let hit = (\<lambda>t. live_tag t \<and> tpo_ID t = i);
         fails = db_fault e [''tags.delete''];
         affected = (if fails then 0 else length (filter hit (tags b)))
     in if affected = 0 then (Some ErrTagNotFound, b)
        else let b1 = b\<lparr>tags := map (\<lambda>t. if hit t then t\<lparr>tpo_DeletedAt := Some (e_now e)\<rparr> else t) (tags b)\<rparr>;
                 b2 = (if db_fault e [''articles_tags.purge''] then b1
                       else b1\<lparr>articles_tags := filter (\<lambda>r. at_Tag r \<noteq> i) (articles_tags b1)\<rparr>)
             in (None, kv_del e cacheKeyTagAll b2))"

section \<open>categoryRepo\<close>

text \<open>The unique index on the slug of categories ranges over all rows, deleted ones included.\<close>

definition cat_conflict :: "blog \<Rightarrow> string \<Rightarrow> bool" where
  "cat_conflict b s \<longleftrightarrow> (\<exists>c\<in>set (categories b). cpo_Slug c = s)"

definition categoryRepo_Create ::
  "env \<Rightarrow> string \<Rightarrow> string \<Rightarrow> string \<Rightarrow> nat option \<Rightarrow> int \<Rightarrow> blog \<Rightarrow> Category res \<times> blog" where
  "categoryRepo_Create e n s d p so b =
    (let dberr = (if db_fault e [''categories.insert''] then Some db_error
                  else if cat_conflict b s then Some dup_error else None)
     in case dberr of
          Some er \<Rightarrow>
            if IsUniqueViolation (Some er) then (Inl ErrCategoryNameExists, b)
            else (Inl (Wrap ''create category'' er), b)
        | None \<Rightarrow>
            let po = \<lparr>cpo_ID = next_category b, cpo_Name = n, cpo_Slug = s, cpo_Desc = d, cpo_ParentID = p,
                      cpo_SortOrder = so, cpo_Count = 0, cpo_CreatedAt = e_now e, cpo_DeletedAt = None\<rparr>;
                b1 = b\<lparr>categories := categories b @ [po], next_category := next_category b + 1\<rparr>
            in (Inr (catPOToBiz po), kv_del e cacheKeyCatTree b1))"

definition categoryRepo_FindByID :: "env \<Rightarrow> nat \<Rightarrow> blog \<Rightarrow> Category res" where
  "categoryRepo_FindByID e i b =
    (if db_fault e [''categories.by_id'', show_nat i] then Inl db_error
     else case cat_by_id b i of None \<Rightarrow> Inl ErrCategoryNotFound | Some po \<Rightarrow> Inr (catPOToBiz po))"

text \<open>
  \<^verbatim>\<open>Update\<close>: also here a failed or conflicting statement affects no row and is answered with
  ErrCategoryNotFound.
\<close>

definition categoryRepo_Update :: "env \<Rightarrow> Category \<Rightarrow> blog \<Rightarrow> err option \<times> blog" where
  "categoryRepo_Update e c b =
    (let hit = (\<lambda>r. live_cat r \<and> cpo_ID r = cat_ID c);
         clash = (\<exists>r\<in>set (categories b). cpo_ID r \<noteq> cat_ID c \<and> cpo_Slug r = cat_Slug c);
         affected = (if db_fault e [''categories.update''] \<or> clash then 0 else length (filter hit (categories b)))
     in if affected = 0 then (Some ErrCategoryNotFound, b)
        else let b1 = b\<lparr>categories := map (\<lambda>r. if hit r
                 then r\<lparr>cpo_Name := cat_Name c, cpo_Slug := cat_Slug c, cpo_Desc := cat_Desc c,
                        cpo_ParentID := cat_ParentID c, cpo_SortOrder := cat_SortOrder c\<rparr> else r) (categories b)\<rparr>
             in (None, kv_del e cacheKeyCatTree b1))"

definition categoryRepo_Delete :: "env \<Rightarrow> nat \<Rightarrow> blog \<Rightarrow> err option \<times> blog" where
  "categoryRepo_Delete e i b =
    (let hit = (\<lambda>r. live_cat r \<and> cpo_ID r = i);
         affected = (if db_fault e [''categories.delete''] then 0 else length (filter hit (categories b)))
     in if affected = 0 then (Some ErrCategoryNotFound, b)
        else let b1 = b\<lparr>categories := map (\<lambda>r. if hit r then r\<lparr>cpo_DeletedAt := Some (e_now e)\<rparr> else r) (categories b)\<rparr>
             in (None, kv_del e cacheKeyCatTree b1))"

definition categoryRepo_ListChildren :: "env \<Rightarrow> nat \<Rightarrow> blog \<Rightarrow> Category list res" where
  "categoryRepo_ListChildren e p b =
    (if db_fault e [''categories.children''] then Inl db_error
     else Inr (map catPOToBiz (sort_key cpo_SortOrder
            (filter (\<lambda>c. live_cat c \<and> cpo_ParentID c = Some p) (categories b)))))"

text \<open>
  The tree: all live rows by sort order and id; a row whose parent is set, is not zero and is among the
  rows is appended to the children of that row, every other row is a root. The recursion follows the
  pointers the loop builds; no path has more nodes than there are rows, so the number of rows is fuel
  enough.
\<close>

definition cat_rows :: "blog \<Rightarrow> CategoryPO list" where
  "cat_rows b = sort_key cpo_SortOrder (sort_key cpo_ID (filter live_cat (categories b)))"

definition has_parent_in :: "CategoryPO list \<Rightarrow> CategoryPO \<Rightarrow> bool" where
  "has_parent_in rows c \<longleftrightarrow>
    (case cpo_ParentID c of None \<Rightarrow> False | Some p \<Rightarrow> p \<noteq> 0 \<and> p \<in> cpo_ID ` set rows)"

definition kids_of :: "CategoryPO list \<Rightarrow> nat \<Rightarrow> CategoryPO list" where
  "kids_of rows i = filter (\<lambda>c. has_parent_in rows c \<and> cpo_ParentID c = Some i) rows"

primrec cat_node :: "nat \<Rightarrow> CategoryPO list \<Rightarrow> CategoryPO \<Rightarrow> Category" where
  "cat_node 0 rows c = catPOToBiz c"
| "cat_node (Suc n) rows c =
    Category (cpo_ID c) (cpo_Name c) (cpo_Slug c) (cpo_Desc c) (cpo_ParentID c)
      (cpo_SortOrder c) (cpo_Count c) (cpo_CreatedAt c) (map (cat_node n rows) (kids_of rows (cpo_ID c)))"

definition cat_forest :: "CategoryPO list \<Rightarrow> Category list" where
  "cat_forest rows = map (cat_node (length rows) rows) (filter (\<lambda>c. \<not> has_parent_in rows c) rows)"

definition categoryRepo_ListTree :: "env \<Rightarrow> blog \<Rightarrow> Category list res \<times> blog" where
  "categoryRepo_ListTree e b =
    (case rc_get_object e as_tree cacheKeyCatTree (kv b) of
       Inr t \<Rightarrow> (Inr t, b)
     | Inl _ \<Rightarrow>
         if db_fault e [''categories.all''] then (Inl db_error, b)
         else let t = cat_forest (cat_rows b)
              in (Inr t, kv_set e cacheKeyCatTree (Json (CatTree t)) ttlCatTree b))"

definition categoryRepo_IncrementArticleCount :: "env \<Rightarrow> nat \<Rightarrow> int \<Rightarrow> blog \<Rightarrow> err option \<times> blog" where
  "categoryRepo_IncrementArticleCount e i d b =
    (let fails = db_fault e [''categories.count''];
         b1 = (if fails then b
               else b\<lparr>categories := map (\<lambda>r. if live_cat r \<and> cpo_ID r = i
                       then r\<lparr>cpo_Count := cpo_Count r + d\<rparr> else r) (categories b)\<rparr>)
     in (if fails then Some db_error else None, kv_del e cacheKeyCatTree b1))"

section \<open>The cached lists are never stale\<close>

text \<open>What the two cache keys should hold, and the invariant that they hold nothing else.\<close>

definition list_src :: "env \<Rightarrow> blog \<Rightarrow> string \<Rightarrow> cobj cval" where
  "list_src e b k =
    (if k = cacheKeyTagAll then Json (TagList (db_tag_list e b)) else Json (CatTree (cat_forest (cat_rows b))))"

definition list_keys :: "string set" where "list_keys = {cacheKeyTagAll, cacheKeyCatTree}"

definition lists_fresh :: "env \<Rightarrow> blog \<Rightarrow> bool" where
  "lists_fresh e b \<longleftrightarrow> rc.coherent list_keys (list_src e b) (kv b)"

lemma keys_ne [simp]: "cacheKeyTagAll \<noteq> cacheKeyCatTree" "cacheKeyCatTree \<noteq> cacheKeyTagAll"
  by (simp_all add: cacheKeyTagAll_def cacheKeyCatTree_def)

lemma kv_del_frame [simp]:
  "articles (kv_del e k b) = articles b" "tags (kv_del e k b) = tags b" "categories (kv_del e k b) = categories b"
  "articles_tags (kv_del e k b) = articles_tags b" "articles_likes (kv_del e k b) = articles_likes b"
  "users (kv_del e k b) = users b" "next_article (kv_del e k b) = next_article b" "next_tag (kv_del e k b) = next_tag b"
  "next_category (kv_del e k b) = next_category b" "outbox (kv_del e k b) = outbox b"
  by (simp_all add: kv_del_def)

lemma kv_set_frame [simp]:
  "articles (kv_set e k v t b) = articles b" "tags (kv_set e k v t b) = tags b" "categories (kv_set e k v t b) = categories b"
  "articles_tags (kv_set e k v t b) = articles_tags b" "articles_likes (kv_set e k v t b) = articles_likes b"
  "users (kv_set e k v t b) = users b" "next_article (kv_set e k v t b) = next_article b" "next_tag (kv_set e k v t b) = next_tag b"
  "next_category (kv_set e k v t b) = next_category b" "outbox (kv_set e k v t b) = outbox b"
  by (simp_all add: kv_set_def)

lemma list_src_cong:
  "tags b' = tags b \<Longrightarrow> categories b' = categories b \<Longrightarrow> list_src e b' = list_src e b"
  unfolding fun_eq_iff by (simp add: list_src_def db_tag_list_def cat_rows_def)

lemma list_src_kv [simp]: "list_src e (kv_update f b) = list_src e b"
  by (rule list_src_cong) simp_all

lemma lists_fresh_env: "collate e' = collate e \<Longrightarrow> lists_fresh e' b = lists_fresh e b"
proof -
  assume "collate e' = collate e"
  then have "tag_rank_of e' = tag_rank_of e" by (simp add: tag_rank_of_def fun_eq_iff)
  then have "list_src e' b = list_src e b" by (intro ext) (simp add: list_src_def db_tag_list_def)
  then show ?thesis by (simp add: lists_fresh_def)
qed

text \<open>The ways in which an operation keeps the lists fresh.\<close>

lemma fresh_frame:
  "lists_fresh e b \<Longrightarrow> kv b' = kv b \<Longrightarrow> tags b' = tags b \<Longrightarrow> categories b' = categories b \<Longrightarrow> lists_fresh e b'"
  using list_src_cong [of b' b] by (simp add: lists_fresh_def)

lemma fresh_kv_del: "lists_fresh e b \<Longrightarrow> lists_fresh e (kv_del e k b)"
  unfolding lists_fresh_def
  by (simp add: kv_del_def rc_delete_drop rc.coherent_del)

lemma fresh_kv_set_other: "lists_fresh e b \<Longrightarrow> k \<notin> list_keys \<Longrightarrow> lists_fresh e (kv_set e k v t b)"
  unfolding lists_fresh_def
  by (simp add: kv_set_def rc_set_hold rc.coherent_put_other)

lemma fresh_tags_changed:
  assumes "lists_fresh e b" "kv b' = kv b" "categories b' = categories b" "\<not> kv_fault e [''del'', cacheKeyTagAll]"
  shows "lists_fresh e (kv_del e cacheKeyTagAll b')"
proof -
  have "rc.coherent list_keys (list_src e b') (drop_key cacheKeyTagAll (kv b))"
    by (rule rc.coherent_invalidate [OF _ assms(1) [unfolded lists_fresh_def]])
      (simp_all add: list_src_def cat_rows_def assms(3))
  with assms show ?thesis
    by (simp add: lists_fresh_def kv_del_def rc_delete_drop)
qed

lemma fresh_cats_changed:
  assumes "lists_fresh e b" "kv b' = kv b" "tags b' = tags b" "\<not> kv_fault e [''del'', cacheKeyCatTree]"
  shows "lists_fresh e (kv_del e cacheKeyCatTree b')"
proof -
  have "rc.coherent list_keys (list_src e b') (drop_key cacheKeyCatTree (kv b))"
    by (rule rc.coherent_invalidate [OF _ assms(1) [unfolded lists_fresh_def]])
      (auto simp: list_src_def db_tag_list_def assms(3) list_keys_def)
  with assms show ?thesis
    by (simp add: lists_fresh_def kv_del_def rc_delete_drop)
qed

lemmas fresh_rules = fresh_tags_changed fresh_cats_changed

lemma fresh_tagRepo_Create [invs]:
  "lists_fresh e b \<Longrightarrow> \<not> kv_fault e [''del'', cacheKeyTagAll] \<Longrightarrow> lists_fresh e (snd (tagRepo_Create e n s b))"
  by (auto simp: tagRepo_Create_def insert_tag_def Let_def intro!: fresh_tags_changed)

lemma fresh_tagRepo_FindOrCreate [invs]:
  "lists_fresh e b \<Longrightarrow> \<not> kv_fault e [''del'', cacheKeyTagAll] \<Longrightarrow> lists_fresh e (snd (tagRepo_FindOrCreate e n s b))"
  by (auto simp: tagRepo_FindOrCreate_def insert_tag_def Let_def intro!: fresh_tags_changed split: sum.split)

lemma fresh_tagRepo_Delete [invs]:
  "lists_fresh e b \<Longrightarrow> \<not> kv_fault e [''del'', cacheKeyTagAll] \<Longrightarrow> lists_fresh e (snd (tagRepo_Delete e i b))"
  by (auto simp: tagRepo_Delete_def Let_def intro!: fresh_tags_changed)

lemma fresh_categoryRepo_Create [invs]:
  "lists_fresh e b \<Longrightarrow> \<not> kv_fault e [''del'', cacheKeyCatTree] \<Longrightarrow> lists_fresh e (snd (categoryRepo_Create e n s d p so b))"
  by (auto simp: categoryRepo_Create_def Let_def intro!: fresh_cats_changed)

lemma fresh_categoryRepo_Update [invs]:
  "lists_fresh e b \<Longrightarrow> \<not> kv_fault e [''del'', cacheKeyCatTree] \<Longrightarrow> lists_fresh e (snd (categoryRepo_Update e c b))"
  by (auto simp: categoryRepo_Update_def Let_def intro!: fresh_cats_changed)

lemma fresh_categoryRepo_Delete [invs]:
  "lists_fresh e b \<Longrightarrow> \<not> kv_fault e [''del'', cacheKeyCatTree] \<Longrightarrow> lists_fresh e (snd (categoryRepo_Delete e i b))"
  by (auto simp: categoryRepo_Delete_def Let_def intro!: fresh_cats_changed)

lemma fresh_categoryRepo_IncrementArticleCount [invs]:
  "lists_fresh e b \<Longrightarrow> \<not> kv_fault e [''del'', cacheKeyCatTree] \<Longrightarrow>
    lists_fresh e (snd (categoryRepo_IncrementArticleCount e i d b))"
  by (auto simp: categoryRepo_IncrementArticleCount_def Let_def intro!: fresh_cats_changed)

lemma fresh_kv_set_src:
  "lists_fresh e b \<Longrightarrow> k \<in> list_keys \<Longrightarrow> lists_fresh e (kv_set e k (list_src e b k) t b)"
  unfolding lists_fresh_def
  by (simp add: kv_set_def rc_set_hold rc.coherent_fill)

lemma fresh_tagRepo_List [invs]: "lists_fresh e b \<Longrightarrow> lists_fresh e (snd (tagRepo_List e b))"
  using fresh_kv_set_src [of e b cacheKeyTagAll ttlTagAll]
  by (auto simp: tagRepo_List_def list_src_def list_keys_def Let_def split: sum.split)

lemma fresh_categoryRepo_ListTree [invs]: "lists_fresh e b \<Longrightarrow> lists_fresh e (snd (categoryRepo_ListTree e b))"
  using fresh_kv_set_src [of e b cacheKeyCatTree ttlCatTree]
  by (auto simp: categoryRepo_ListTree_def list_src_def list_keys_def Let_def split: sum.split)

text \<open>What a list query answers when nothing is stale.\<close>

lemma tagRepo_List_fresh:
  assumes "lists_fresh e b" "fst (tagRepo_List e b) = Inr ts"
  shows "ts = db_tag_list e b"
  using assms
  by (auto simp: tagRepo_List_def lists_fresh_def list_src_def list_keys_def as_tags_def Let_def
      dest!: rc_get_object_held rc.coherent_hit [where k = cacheKeyTagAll] split: sum.splits if_splits cobj.splits)

lemma categoryRepo_ListTree_fresh:
  assumes "lists_fresh e b" "fst (categoryRepo_ListTree e b) = Inr t"
  shows "t = cat_forest (cat_rows b)"
  using assms
  by (auto simp: categoryRepo_ListTree_def lists_fresh_def list_src_def list_keys_def as_tree_def Let_def
      dest!: rc_get_object_held rc.coherent_hit [where k = cacheKeyCatTree] split: sum.splits if_splits cobj.splits)

end
