(* ===== verification/ArticleRepo.thy ===== *)
theory ArticleRepo
  imports TagRepo
begin

text \<open>
  The article repository (app/blog/internal/data/article.go): the statements and cache commands of each
  method in the order of the source. A transaction that fails leaves the tables as they were. The
  order of a list query and the LIKE operator belong to the database and are parameters.
\<close>

section \<open>Errors, keys and times\<close>

definition ErrArticleNotFound :: err where [errs]: "ErrArticleNotFound = NotFound ''ARTICLE_NOT_FOUND''"
definition ErrSlugAlreadyExists :: err where [errs]: "ErrSlugAlreadyExists = Conflict ''SLUG_ALREADY_EXISTS''"

definition keyArticleSlug :: "string \<Rightarrow> string" where "keyArticleSlug s = ''article:slug:'' @ s"
definition nullSentinel :: string where "nullSentinel = ''null''"
definition ttlArticle :: int where "ttlArticle = 10 * minute"
definition ttlArticleStale :: int where "ttlArticleStale = 2 * minute"

definition invalidateCache :: "env \<Rightarrow> string \<Rightarrow> blog \<Rightarrow> blog" where
  "invalidateCache e s b = (if s = [] then b else kv_del e (keyArticleSlug s) b)"

section \<open>Create, Update, Delete\<close>

definition slug_taken :: "blog \<Rightarrow> string \<Rightarrow> bool" where
  "slug_taken b s \<longleftrightarrow> row_by_slug b s \<noteq> None"

definition articleRepo_Create :: "env \<Rightarrow> Article \<Rightarrow> blog \<Rightarrow> Article res \<times> blog" where
  "articleRepo_Create e a b =
    (let dberr = (if db_fault e [''articles.insert''] then Some db_error
                  else if slug_taken b (Slug a) then Some dup_error else None)
     in case dberr of
          Some er \<Rightarrow>
            if IsUniqueViolation (Some er) then (Inl ErrSlugAlreadyExists, b)
            else (Inl (Wrap ''create article'' er), b)
        | None \<Rightarrow>
            let po = toArticlePO (next_article b) (e_now e) a
            in (Inr (a\<lparr>ID := po_ID po, CreatedAt := po_CreatedAt po, UpdatedAt := po_UpdatedAt po\<rparr>),
                b\<lparr>articles := articles b @ [po], next_article := next_article b + 1\<rparr>))"

text \<open>The columns that \<^verbatim>\<open>Update\<close> writes.\<close>

definition write_article :: "env \<Rightarrow> Article \<Rightarrow> ArticlePO \<Rightarrow> ArticlePO" where
  "write_article e a po = po\<lparr>po_Title := Title a, po_Slug := Slug a, po_Content := Content a, po_Excerpt := Excerpt a,
     po_CoverImage := CoverImage a, po_Status := Status a, po_CategoryID := CategoryID a, po_IsTop := IsTop a,
     po_PublishedAt := PublishedAt a, po_UpdatedAt := e_now e\<rparr>"

definition update_row :: "(ArticlePO \<Rightarrow> ArticlePO) \<Rightarrow> nat \<Rightarrow> blog \<Rightarrow> blog" where
  "update_row f i b = b\<lparr>articles := map (\<lambda>po. if live_article i po then f po else po) (articles b)\<rparr>"

definition articleRepo_Update :: "env \<Rightarrow> Article \<Rightarrow> blog \<Rightarrow> err option \<times> blog" where
  "articleRepo_Update e a b =
    (let oldSlug = (if db_fault e [''articles.old_slug''] then []
                    else case row_by_id b (ID a) of None \<Rightarrow> [] | Some po \<Rightarrow> po_Slug po);
         clash = (\<exists>po\<in>set (articles b). slug_article (Slug a) po \<and> po_ID po \<noteq> ID a)
     in if db_fault e [''articles.update''] then (Some (Wrap ''update article'' db_error), b)
        else if row_by_id b (ID a) = None then (Some ErrArticleNotFound, b)
        else if clash then (Some (Wrap ''update article'' dup_error), b)
        else let b1 = update_row (write_article e a) (ID a) b;
                 b2 = (if oldSlug \<noteq> [] \<and> oldSlug \<noteq> Slug a then kv_del e (keyArticleSlug oldSlug) b1 else b1)
             in (None, invalidateCache e (Slug a) b2))"

definition articleRepo_Delete :: "env \<Rightarrow> nat \<Rightarrow> blog \<Rightarrow> err option \<times> blog" where
  "articleRepo_Delete e i b =
    (if db_fault e [''articles.slug_of''] then (Some (Wrap ''delete article'' db_error), b)
     else case row_by_id b i of
            None \<Rightarrow> (Some ErrArticleNotFound, b)
          | Some po \<Rightarrow>
              if db_fault e [''articles.delete''] then (Some (Wrap ''delete article'' db_error), b)
              else (None, invalidateCache e (po_Slug po) (update_row (po_DeletedAt_update (\<lambda>_. Some (e_now e))) i b)))"

section \<open>Finding\<close>

text \<open>
  \<^verbatim>\<open>enrichAuthorAndCategory\<close> for one article: the author by \<^verbatim>\<open>users.id\<close>, the name of its category from the
  rows of categories, deleted ones included (the query names the table, not the model).
\<close>

definition enrich :: "env \<Rightarrow> blog \<Rightarrow> Article \<Rightarrow> Article" where
  "enrich e b a =
    (let a1 = (if db_fault e [''users.by_ids''] then a
               else case List.find (\<lambda>u. ur_ID u = AuthorID a) (users b) of
                      None \<Rightarrow> a | Some u \<Rightarrow> a\<lparr>AuthorName := ur_Username u, AuthorAvatar := ur_Avatar u\<rparr>)
     in case CategoryID a1 of
          None \<Rightarrow> a1
        | Some cid \<Rightarrow>
            if db_fault e [''categories.by_ids''] then a1
            else a1\<lparr>CategoryName := (case List.find (\<lambda>c. cpo_ID c = cid) (categories b) of
                                        None \<Rightarrow> [] | Some c \<Rightarrow> cpo_Name c)\<rparr>)"

definition load_article :: "env \<Rightarrow> blog \<Rightarrow> ArticlePO \<Rightarrow> Article" where
  "load_article e b po = enrich e b (articlePOToBiz po (preload_tags e b (po_ID po)))"

definition articleRepo_FindByID :: "env \<Rightarrow> nat \<Rightarrow> blog \<Rightarrow> Article res" where
  "articleRepo_FindByID e i b =
    (if db_fault e [''articles.by_id'', show_nat i] then Inl (Wrap ''find article by id'' db_error)
     else case row_by_id b i of None \<Rightarrow> Inl ErrArticleNotFound | Some po \<Rightarrow> Inr (load_article e b po))"

text \<open>\<^verbatim>\<open>uint(id)\<close> of the scanned value.\<close>

definition uint64_of :: "int \<Rightarrow> nat" where
  "uint64_of i = unat (word_of_int i :: 64 word)"

definition cached_article :: "env \<Rightarrow> cobj cval \<Rightarrow> blog \<Rightarrow> Article res" where
  "cached_article e v b =
    (case v of Raw s \<Rightarrow> articleRepo_FindByID e (uint64_of (scan_int s)) b
     | Json x \<Rightarrow> articleRepo_FindByID e 0 b)"

definition find_slug_db :: "env \<Rightarrow> string \<Rightarrow> blog \<Rightarrow> Article res \<times> blog" where
  "find_slug_db e s b =
    (if db_fault e [''articles.by_slug'', s] then (Inl (Wrap ''find article by slug'' db_error), b)
     else case row_by_slug b s of
            None \<Rightarrow> (Inl ErrArticleNotFound,
                     kv_set e (keyArticleSlug s) (Raw nullSentinel) ttlArticleStale (kv_del e (keyArticleSlug s) b))
          | Some po \<Rightarrow> (Inr (load_article e b po),
                     kv_set e (keyArticleSlug s) (Raw (show_int (wrap64 (int (po_ID po))))) ttlArticle b))"

definition articleRepo_FindBySlug :: "env \<Rightarrow> string \<Rightarrow> blog \<Rightarrow> Article res \<times> blog" where
  "articleRepo_FindBySlug e s b =
    (case rc_get e (keyArticleSlug s) (kv b) of
       Inr v \<Rightarrow>
         if v = Raw nullSentinel then (Inl ErrArticleNotFound, b)
         else (case cached_article e v b of
            Inr a \<Rightarrow> (Inr a, b)
          | Inl er \<Rightarrow> find_slug_db e s b)
     | Inl er \<Rightarrow> find_slug_db e s b)"

section \<open>List and Search\<close>

record ArticleListQuery =
  q_Status :: string
  q_CategoryID :: "nat option"
  q_Tags :: "string list"
  q_AuthorID :: "nat option"
  q_SortBy :: string
  q_SortOrder :: string
  q_Page :: int
  q_PageSize :: int

definition statusToInt :: "string \<Rightarrow> ArticleStatus" where
  "statusToInt s = (if s = ''published'' then Published else if s = ''archived'' then Archived else Draft)"

definition buildOrderClause :: "string \<Rightarrow> string \<Rightarrow> string" where
  "buildOrderClause sortBy sortOrder =
    (let col = (if sortBy = ''updated_at'' then ''updated_at''
                else if sortBy = ''published_at'' then ''published_at''
                else if sortBy = ''view_count'' then ''view_count''
                else if sortBy = ''is_top'' then ''is_top DESC, published_at''
                else ''created_at'');
         dir = (if sortOrder = ''asc'' then ''ASC'' else ''DESC'')
     in if sortBy = ''is_top'' then ''is_top DESC, published_at '' @ dir else col @ '' '' @ dir)"

text \<open>
  The sub-query of the tag filter: the number of distinct tags joined to the article whose name is among
  the given ones. It is raw SQL, so it looks at deleted join rows and deleted tags too.
\<close>

definition tag_matches :: "blog \<Rightarrow> nat \<Rightarrow> string list \<Rightarrow> nat" where
  "tag_matches b i names =
    length (remdups (map tpo_ID (filter (\<lambda>t. tpo_Name t \<in> set names \<and>
       (\<exists>r\<in>set (articles_tags b). at_Article r = i \<and> at_Tag r = tpo_ID t)) (tags b))))"

definition list_filter :: "blog \<Rightarrow> ArticleListQuery \<Rightarrow> ArticlePO \<Rightarrow> bool" where
  "list_filter b q po \<longleftrightarrow>
     po_DeletedAt po = None \<and>
     (q_Status q = [] \<or> po_Status po = statusToInt (q_Status q)) \<and>
     (q_CategoryID q = None \<or> po_CategoryID po = q_CategoryID q) \<and>
     (q_AuthorID q = None \<or> Some (po_AuthorID po) = q_AuthorID q) \<and>
     (q_Tags q = [] \<or> tag_matches b (po_ID po) (q_Tags q) = length (q_Tags q))"

definition clamp_page :: "int \<Rightarrow> int" where "clamp_page p = (if p < 1 then 1 else p)"

definition clamp_size :: "int \<Rightarrow> int \<Rightarrow> int" where "clamp_size d s = (if s < 1 \<or> 50 < s then d else s)"

definition articleRepo_List ::
  "env \<Rightarrow> (string \<Rightarrow> ArticlePO list \<Rightarrow> ArticlePO list) \<Rightarrow> ArticleListQuery \<Rightarrow> blog \<Rightarrow> (Article list \<times> nat) res" where
  "articleRepo_List e ord q b =
    (let page = clamp_page (q_Page q); size = clamp_size 20 (q_PageSize q);
         offset = (page - 1) * size;
         rows = filter (list_filter b q) (articles b)
     in if db_fault e [''articles.count''] then Inl (Wrap ''count articles'' db_error)
        else if length rows = 0 then Inr ([], 0)
        else if db_fault e [''articles.list''] then Inl (Wrap ''list articles'' db_error)
        else Inr (map (load_article e b)
                    (page_slice (nat offset) (nat size) (ord (buildOrderClause (q_SortBy q) (q_SortOrder q)) rows)),
                  length rows))"

text \<open>\<^verbatim>\<open>strings.NewReplacer\<close> with the three pairs works through the bytes of the keyword once.\<close>

definition escape_char :: "char \<Rightarrow> string" where
  "escape_char c = (if c = CHR 0x5C \<or> c = CHR 0x25 \<or> c = CHR 0x5F then [CHR 0x5C, c] else [c])"

definition search_pattern :: "string \<Rightarrow> string" where
  "search_pattern keyword = CHR 0x25 # concat (map escape_char keyword) @ [CHR 0x25]"

definition search_filter :: "(string \<Rightarrow> string \<Rightarrow> bool) \<Rightarrow> string \<Rightarrow> ArticlePO \<Rightarrow> bool" where
  "search_filter like pat po \<longleftrightarrow>
     po_DeletedAt po = None \<and> po_Status po = statusToInt ''published'' \<and>
     (like pat (po_Title po) \<or> like pat (po_Excerpt po) \<or> like pat (po_Content po))"

definition articleRepo_Search ::
  "env \<Rightarrow> (string \<Rightarrow> ArticlePO list \<Rightarrow> ArticlePO list) \<Rightarrow> (string \<Rightarrow> string \<Rightarrow> bool) \<Rightarrow> string \<Rightarrow> int \<Rightarrow> int \<Rightarrow> blog \<Rightarrow>
    (Article list \<times> nat) res" where
  "articleRepo_Search e ord like keyword page0 size0 b =
    (let page = clamp_page page0; size = clamp_size 10 size0; offset = (page - 1) * size;
         rows = filter (search_filter like (search_pattern keyword)) (articles b)
     in if db_fault e [''articles.search_count''] then Inl (Wrap ''count search articles'' db_error)
        else if length rows = 0 then Inr ([], 0)
        else if db_fault e [''articles.search''] then Inl (Wrap ''search articles'' db_error)
        else Inr (map (load_article e b)
                    (page_slice (nat offset) (nat size) (ord ''published_at DESC, id DESC'' rows)),
                  length rows))"

section \<open>Counters\<close>

definition articleRepo_IncrementViewCount :: "env \<Rightarrow> nat \<Rightarrow> int \<Rightarrow> blog \<Rightarrow> err option \<times> blog" where
  "articleRepo_IncrementViewCount e i d b =
    (if db_fault e [''articles.views''] then (Some db_error, b)
     else (None, update_row (po_ViewCount_update (\<lambda>n. n + d)) i b))"

definition add_tag_count :: "nat list \<Rightarrow> int \<Rightarrow> TagPO \<Rightarrow> TagPO" where
  "add_tag_count ids d t = (if live_tag t \<and> tpo_ID t \<in> set ids then t\<lparr>tpo_Count := tpo_Count t + d\<rparr> else t)"

definition articleRepo_UpdateTagsArticleCount :: "env \<Rightarrow> nat list \<Rightarrow> int \<Rightarrow> blog \<Rightarrow> err option \<times> blog" where
  "articleRepo_UpdateTagsArticleCount e ids d b =
    (let fails = db_fault e [''tags.count''];
         b1 = (if fails then b else b\<lparr>tags := map (add_tag_count ids d) (tags b)\<rparr>)
     in (if fails then Some db_error else None, kv_del e cacheKeyTagAll b1))"

section \<open>Tags of an article\<close>

definition join_row :: "nat \<Rightarrow> nat \<Rightarrow> ArticleTagPO" where
  "join_row i t = \<lparr>at_Article = i, at_Tag = t, at_DeletedAt = None\<rparr>"

definition has_join :: "ArticleTagPO list \<Rightarrow> nat \<Rightarrow> nat \<Rightarrow> bool" where
  "has_join rows i t \<longleftrightarrow> (\<exists>r\<in>set rows. at_Article r = i \<and> at_Tag r = t)"

text \<open>\<^verbatim>\<open>ON CONFLICT DO NOTHING\<close>: with a unique index a pair that is there is skipped.\<close>

primrec insert_joins :: "bool \<Rightarrow> nat \<Rightarrow> nat list \<Rightarrow> ArticleTagPO list \<Rightarrow> ArticleTagPO list" where
  "insert_joins u i [] rows = rows"
| "insert_joins u i (t # ts) rows =
    insert_joins u i ts (if u \<and> has_join rows i t then rows else rows @ [join_row i t])"

definition articleRepo_AssociateTags :: "env \<Rightarrow> nat \<Rightarrow> nat list \<Rightarrow> blog \<Rightarrow> err option \<times> blog" where
  "articleRepo_AssociateTags e i ids b =
    (if ids = [] then (None, b)
     else if db_fault e [''articles_tags.insert''] then (Some db_error, b)
     else (None, b\<lparr>articles_tags := insert_joins (join_unique e) i ids (articles_tags b)\<rparr>))"

text \<open>
  \<^verbatim>\<open>SyncTags\<close>: in one transaction the live join rows of the article are deleted, softly, and the new ones
  inserted; the insert has no conflict clause, so with a unique index it fails on a pair that is
  there, deleted or not, and the transaction is rolled back.
\<close>

definition soft_unjoin :: "env \<Rightarrow> nat \<Rightarrow> ArticleTagPO \<Rightarrow> ArticleTagPO" where
  "soft_unjoin e i r = (if at_Article r = i \<and> at_DeletedAt r = None then r\<lparr>at_DeletedAt := Some (e_now e)\<rparr> else r)"

definition articleRepo_SyncTags :: "env \<Rightarrow> nat \<Rightarrow> nat list \<Rightarrow> blog \<Rightarrow> err option \<times> blog" where
  "articleRepo_SyncTags e i ids b =
    (let rows = map (soft_unjoin e i) (articles_tags b);
         clash = (join_unique e \<and> (\<not> distinct ids \<or> (\<exists>t\<in>set ids. has_join rows i t)))
     in if db_fault e [''articles_tags.clear''] then (Some db_error, b)
        else if ids = [] then (None, b\<lparr>articles_tags := rows\<rparr>)
        else if db_fault e [''articles_tags.insert''] then (Some db_error, b)
        else if clash then (Some dup_error, b)
        else (None, b\<lparr>articles_tags := rows @ map (join_row i) ids\<rparr>))"

section \<open>Likes\<close>

definition like_row :: "nat \<Rightarrow> nat \<Rightarrow> ArticleLikePO" where
  "like_row i u = \<lparr>lk_Article = i, lk_User = u, lk_DeletedAt = None\<rparr>"

definition is_like :: "nat \<Rightarrow> nat \<Rightarrow> ArticleLikePO \<Rightarrow> bool" where
  "is_like i u r \<longleftrightarrow> lk_Article r = i \<and> lk_User r = u"

text \<open>The unique index on (article_id, user_id) ranges over all rows, deleted ones included.\<close>

definition articleRepo_InsertLike :: "env \<Rightarrow> nat \<Rightarrow> nat \<Rightarrow> blog \<Rightarrow> err option \<times> blog" where
  "articleRepo_InsertLike e i u b =
    (if db_fault e [''likes.insert''] then (Some db_error, b)
     else if \<exists>r\<in>set (articles_likes b). is_like i u r then (None, b)
     else if db_fault e [''articles.likes''] then (Some db_error, b)
     else (None, update_row (po_LikeCount_update (\<lambda>n. n + 1)) i
                   (b\<lparr>articles_likes := articles_likes b @ [like_row i u]\<rparr>)))"

definition articleRepo_DeleteLike :: "env \<Rightarrow> nat \<Rightarrow> nat \<Rightarrow> blog \<Rightarrow> err option \<times> blog" where
  "articleRepo_DeleteLike e i u b =
    (let hit = (\<lambda>r. is_like i u r \<and> lk_DeletedAt r = None);
         affected = length (filter hit (articles_likes b))
     in if db_fault e [''likes.delete''] then (Some db_error, b)
        else if affected = 0 then (None, b)
        else if db_fault e [''articles.likes''] then (Some db_error, b)
        else (None, update_row (po_LikeCount_update (\<lambda>n. max (n - 1) 0)) i
                      (b\<lparr>articles_likes :=
                           map (\<lambda>r. if hit r then r\<lparr>lk_DeletedAt := Some (e_now e)\<rparr> else r) (articles_likes b)\<rparr>)))"

definition articleRepo_IsLiked :: "env \<Rightarrow> nat \<Rightarrow> nat \<Rightarrow> blog \<Rightarrow> bool res" where
  "articleRepo_IsLiked e i u b =
    (if db_fault e [''likes.count''] then Inl db_error
     else Inr (0 < length (filter (\<lambda>r. is_like i u r \<and> lk_DeletedAt r = None) (articles_likes b))))"

end
