(* ===== verification/TagUse.thy ===== *)
theory TagUse
  imports TagRepo
begin

text \<open>
  The tag and category use cases (app/blog/internal/biz/tag.go) over the repositories, and what keeps the
  category hierarchy a forest.
\<close>

section \<open>Errors\<close>

definition ErrCategoryHasChildren :: err where [errs]: "ErrCategoryHasChildren = Conflict ''CATEGORY_HAS_CHILDREN''"
definition ErrCategoryHasArticles :: err where [errs]: "ErrCategoryHasArticles = Conflict ''CATEGORY_HAS_ARTICLES''"
definition ErrCategorySlugEmpty :: err where [errs]: "ErrCategorySlugEmpty = BadRequest ''CATEGORY_SLUG_EMPTY''"
definition ErrTagNameEmpty :: err where [errs]: "ErrTagNameEmpty = BadRequest ''TAG_NAME_EMPTY''"
definition ErrCategoryCircularRef :: err where [errs]: "ErrCategoryCircularRef = BadRequest ''CATEGORY_CIRCULAR_REF''"

section \<open>Tags\<close>

definition CreateTag :: "env \<Rightarrow> ctx \<Rightarrow> string \<Rightarrow> blog \<Rightarrow> Tag res \<times> blog" where
  "CreateTag e c name0 b =
    (case requireAdmin c of
       Some er \<Rightarrow> (Inl er, b)
     | None \<Rightarrow>
         let name = trim_space name0 in
         if name = [] then (Inl ErrTagNameEmpty, b)
         else if 64 < length name then (Inl (BadRequest ''TAG_NAME_TOO_LONG''), b)
         else let slug = to_lower (e_low e) (replace_all name '' '' ''-'') in
              if slug = [] then (Inl ErrTagNameEmpty, b)
              else case tagRepo_Create e name slug b of
                     (Inl er, b1) \<Rightarrow>
                       if is_conflict er then (Inl ErrTagNameExists, b1)
                       else (Inl (Wrap ''create tag'' er), b1)
                   | (Inr t, b1) \<Rightarrow> (Inr t, b1))"

definition ListTags :: "env \<Rightarrow> blog \<Rightarrow> Tag list res \<times> blog" where
  "ListTags e b =
    (case tagRepo_List e b of
       (Inl er, b1) \<Rightarrow> (Inl (Wrap ''list tags'' er), b1)
     | (Inr ts, b1) \<Rightarrow> (Inr ts, b1))"

definition DeleteTag :: "env \<Rightarrow> ctx \<Rightarrow> nat \<Rightarrow> blog \<Rightarrow> err option \<times> blog" where
  "DeleteTag e c i b =
    (case requireAdmin c of
       Some er \<Rightarrow> (Some er, b)
     | None \<Rightarrow> (case tagRepo_Delete e i b of
         (Some er, b1) \<Rightarrow> (Some (Wrap ''delete tag'' er), b1)
       | (None, b1) \<Rightarrow> (None, b1)))"

section \<open>Categories\<close>

definition CreateCategory ::
  "env \<Rightarrow> ctx \<Rightarrow> string \<Rightarrow> string \<Rightarrow> string \<Rightarrow> nat option \<Rightarrow> int \<Rightarrow> blog \<Rightarrow> Category res \<times> blog" where
  "CreateCategory e c name0 slug0 desc parent0 srt b =
    (case requireAdmin c of
       Some er \<Rightarrow> (Inl er, b)
     | None \<Rightarrow>
         let name = trim_space name0 in
         if name = [] then (Inl (BadRequest ''CATEGORY_NAME_EMPTY''), b)
         else
           let slug = (if slug0 = [] then generateSlug name else slug0);
               parent = (if parent0 \<noteq> None \<and> 0 < the parent0 then parent0 else None);
               missing = (case parent of None \<Rightarrow> False
                          | Some p \<Rightarrow> \<not> is_ok (categoryRepo_FindByID e p b))
           in if missing then (Inl ErrCategoryNotFound, b)
              else case categoryRepo_Create e name slug desc parent srt b of
                     (Inl er, b1) \<Rightarrow>
                       if is_conflict er then (Inl ErrCategoryNameExists, b1)
                       else (Inl (Wrap ''create category'' er), b1)
                   | (Inr cat, b1) \<Rightarrow> (Inr cat, b1))"

text \<open>The walk to the root, at most \<^verbatim>\<open>n\<close> steps.\<close>

primrec walk_up :: "env \<Rightarrow> nat \<Rightarrow> nat \<Rightarrow> nat \<Rightarrow> blog \<Rightarrow> err option" where
  "walk_up e 0 self cur b = Some (Kratos 500 ''CIRCULAR_CHECK_DEPTH'')"
| "walk_up e (Suc n) self cur b =
    (if cur = self then Some ErrCategoryCircularRef
     else case categoryRepo_FindByID e cur b of
            Inl er \<Rightarrow> None
          | Inr p \<Rightarrow> (case cat_ParentID p of None \<Rightarrow> None | Some q \<Rightarrow> walk_up e n self q b))"

definition checkCircularRef :: "env \<Rightarrow> nat \<Rightarrow> nat \<Rightarrow> blog \<Rightarrow> err option" where
  "checkCircularRef e self parent b = walk_up e 100 self parent b"

definition UpdateCategory ::
  "env \<Rightarrow> ctx \<Rightarrow> nat \<Rightarrow> string \<Rightarrow> string \<Rightarrow> string \<Rightarrow> nat option \<Rightarrow> int \<Rightarrow> blog \<Rightarrow> Category res \<times> blog" where
  "UpdateCategory e c i name0 slug desc parent0 srt b =
    (case requireAdmin c of
       Some er \<Rightarrow> (Inl er, b)
     | None \<Rightarrow>
       (case categoryRepo_FindByID e i b of
          Inl er \<Rightarrow> (Inl ErrCategoryNotFound, b)
        | Inr cat \<Rightarrow>
            let name = trim_space name0 in
            if name = [] then (Inl (BadRequest ''CATEGORY_NAME_EMPTY''), b)
            else if slug = [] then (Inl ErrCategorySlugEmpty, b)
            else
              let given = (parent0 \<noteq> None \<and> 0 < the parent0);
                  bad = (if \<not> given then None
                         else if the parent0 = i then Some (BadRequest ''CATEGORY_SELF_PARENT'')
                         else checkCircularRef e i (the parent0) b)
              in case bad of
                   Some er \<Rightarrow> (Inl er, b)
                 | None \<Rightarrow>
                     let cat' = Category (cat_ID cat) name slug desc (if given then parent0 else None) srt
                                  (cat_Count cat) (cat_CreatedAt cat) (cat_Children cat)
                     in case categoryRepo_Update e cat' b of
                          (Some er, b1) \<Rightarrow> (Inl (Wrap ''update category'' er), b1)
                        | (None, b1) \<Rightarrow> (Inr cat', b1)))"

definition DeleteCategory :: "env \<Rightarrow> ctx \<Rightarrow> nat \<Rightarrow> blog \<Rightarrow> err option \<times> blog" where
  "DeleteCategory e c i b =
    (case requireAdmin c of
       Some er \<Rightarrow> (Some er, b)
     | None \<Rightarrow>
       (case categoryRepo_ListChildren e i b of
          Inl er \<Rightarrow> (Some (Wrap ''check children'' er), b)
        | Inr children \<Rightarrow>
            if children \<noteq> [] then (Some ErrCategoryHasChildren, b)
            else (case categoryRepo_FindByID e i b of
               Inl er \<Rightarrow> (Some ErrCategoryNotFound, b)
             | Inr cat \<Rightarrow>
                 if 0 < cat_Count cat then (Some ErrCategoryHasArticles, b)
                 else (case categoryRepo_Delete e i b of
                    (Some er, b1) \<Rightarrow> (Some (Wrap ''delete category'' er), b1)
                  | (None, b1) \<Rightarrow> (None, b1)))))"

definition ListCategories :: "env \<Rightarrow> blog \<Rightarrow> Category list res \<times> blog" where
  "ListCategories e b =
    (case categoryRepo_ListTree e b of
       (Inl er, b1) \<Rightarrow> (Inl (Wrap ''list categories'' er), b1)
     | (Inr t, b1) \<Rightarrow> (Inr t, b1))"

lemmas tag_ops = CreateTag_def ListTags_def DeleteTag_def
lemmas cat_ops = CreateCategory_def UpdateCategory_def DeleteCategory_def ListCategories_def

section \<open>The parent relation\<close>

definition parent_rel :: "blog \<Rightarrow> (nat \<times> nat) set" where
  "parent_rel b = {(i, p). \<exists>c. cat_by_id b i = Some c \<and> cpo_ParentID c = Some p}"

definition cats_acyclic :: "blog \<Rightarrow> bool" where
  "cats_acyclic b \<longleftrightarrow> acyclic (parent_rel b)"

text \<open>Every parent that is named is an id that has been given out.\<close>

definition parents_known :: "blog \<Rightarrow> bool" where
  "parents_known b \<longleftrightarrow> (\<forall>(i, p) \<in> parent_rel b. p < next_category b)"

text \<open>Ids are unique and below the next one to be given out.\<close>

definition cat_ids_ok :: "blog \<Rightarrow> bool" where
  "cat_ids_ok b \<longleftrightarrow> distinct (map cpo_ID (categories b)) \<and> (\<forall>c\<in>set (categories b). 0 < cpo_ID c \<and> cpo_ID c < next_category b)
     \<and> 0 < next_category b"

lemma parent_rel_fun: "(i, p) \<in> parent_rel b \<Longrightarrow> (i, q) \<in> parent_rel b \<Longrightarrow> p = q"
  by (auto simp: parent_rel_def)

lemma findByID_calm:
  "\<not> db_fault e [''categories.by_id'', show_nat i] \<Longrightarrow>
    categoryRepo_FindByID e i b = (case cat_by_id b i of None \<Rightarrow> Inl ErrCategoryNotFound | Some po \<Rightarrow> Inr (catPOToBiz po))"
  by (simp add: categoryRepo_FindByID_def)

text \<open>
  A walk that ends well has seen every ancestor: an ancestor equal to \<^verbatim>\<open>self\<close> would have been reported.
\<close>

lemma walk_up_no_path:
  assumes "walk_up e n self cur b = None"
    and "\<And>i. \<not> db_fault e [''categories.by_id'', show_nat i]"
  shows "(cur, self) \<notin> (parent_rel b)\<^sup>*"
  using assms(1)
proof (induction n arbitrary: cur)
  case (Suc n)
  show ?case
  proof
    assume path: "(cur, self) \<in> (parent_rel b)\<^sup>*"
    from Suc.prems have "cur \<noteq> self" by (auto split: if_splits)
    with path obtain p where p: "(cur, p) \<in> parent_rel b" "(p, self) \<in> (parent_rel b)\<^sup>*"
      by (meson converse_rtranclE)
    then obtain c where c: "cat_by_id b cur = Some c" "cpo_ParentID c = Some p" by (auto simp: parent_rel_def)
    with Suc.prems \<open>cur \<noteq> self\<close> have "walk_up e n self p b = None"
      by (simp add: findByID_calm [OF assms(2)] catPOToBiz_def)
    from Suc.IH [OF this] p(2) show False by blast
  qed
qed simp

lemma acyclic_redirect:
  assumes "acyclic r" "(p, i) \<notin> r\<^sup>*"
  shows "acyclic (insert (i, p) {(x, y) \<in> r. x \<noteq> i})"
proof -
  have "acyclic {(x, y) \<in> r. x \<noteq> i}" using assms(1) by (rule acyclic_subset) auto
  moreover have "{(x, y) \<in> r. x \<noteq> i}\<^sup>* \<subseteq> r\<^sup>*" by (rule rtrancl_mono) auto
  ultimately show ?thesis using assms(2) by (auto simp: acyclic_insert)
qed

section \<open>What the operations do to the parent relation\<close>

lemma parent_rel_kv [simp]: "parent_rel (kv_del e k b) = parent_rel b" "parent_rel (kv_set e k v t b) = parent_rel b"
  by (simp_all add: parent_rel_def cat_by_id_def)

lemma cat_by_id_map:
  assumes "\<And>c. live_cat (f c) = live_cat c" "\<And>c. cpo_ID (f c) = cpo_ID c"
  shows "cat_by_id (b\<lparr>categories := map f (categories b)\<rparr>) i = map_option f (cat_by_id b i)"
  unfolding cat_by_id_def by (simp add: find_map_inv assms)

lemma cat_by_id_Some: "cat_by_id b i = Some c \<Longrightarrow> c \<in> set (categories b) \<and> live_cat c \<and> cpo_ID c = i"
  by (auto simp: cat_by_id_def dest: find_Some_mem)

lemma categoryRepo_Update_parents:
  assumes "categoryRepo_Update e cat b = (None, b1)" "cat_by_id b (cat_ID cat) \<noteq> None"
  shows "parent_rel b1 = {(x, y) \<in> parent_rel b. x \<noteq> cat_ID cat} \<union> (case cat_ParentID cat of None \<Rightarrow> {} | Some p \<Rightarrow> {(cat_ID cat, p)})"
proof -
  let ?f = "\<lambda>r. if live_cat r \<and> cpo_ID r = cat_ID cat
     then r\<lparr>cpo_Name := cat_Name cat, cpo_Slug := cat_Slug cat, cpo_Desc := cat_Desc cat,
            cpo_ParentID := cat_ParentID cat, cpo_SortOrder := cat_SortOrder cat\<rparr> else r"
  have b1: "b1 = kv_del e cacheKeyCatTree (b\<lparr>categories := map ?f (categories b)\<rparr>)"
    using assms(1) by (auto simp: categoryRepo_Update_def Let_def split: if_splits)
  have look: "cat_by_id (b\<lparr>categories := map ?f (categories b)\<rparr>) i = map_option ?f (cat_by_id b i)" for i
    by (rule cat_by_id_map) (auto simp: live_cat_def)
  have "(i, p) \<in> parent_rel b1 \<longleftrightarrow> (if i = cat_ID cat then cat_ParentID cat = Some p else (i, p) \<in> parent_rel b)" for i p
  proof (cases "cat_by_id b i")
    case None
    with assms(2) show ?thesis unfolding b1 parent_rel_kv by (auto simp: parent_rel_def look)
  next
    case (Some c)
    then show ?thesis using cat_by_id_Some [OF Some] unfolding b1 parent_rel_kv by (auto simp: parent_rel_def look)
  qed
  then show ?thesis by (auto split: option.split if_splits)
qed

lemma find_catPO: "categoryRepo_FindByID e i b = Inr cat \<Longrightarrow> cat_by_id b i \<noteq> None \<and> cat_ID cat = i"
  by (auto simp: categoryRepo_FindByID_def catPOToBiz_def split: if_splits option.splits dest: cat_by_id_Some)

lemma categoryRepo_Update_fail: "categoryRepo_Update e cat b = (Some er, b1) \<Longrightarrow> b1 = b"
  by (auto simp: categoryRepo_Update_def Let_def split: if_splits)

lemma UpdateCategory_cases:
  obtains (unchanged) "snd (UpdateCategory e c i n s d p so b) = b"
  | (updated) cat where "categoryRepo_Update e cat b = (None, snd (UpdateCategory e c i n s d p so b))"
      "cat_ID cat = i" "cat_by_id b i \<noteq> None" "cat_ParentID cat = None \<or>
        (\<exists>q. p = Some q \<and> cat_ParentID cat = Some q \<and> q \<noteq> i \<and> checkCircularRef e i q b = None)"
proof (cases "snd (UpdateCategory e c i n s d p so b) = b")
  case True
  then show thesis by (rule unchanged)
next
  case False
  let ?given = "p \<noteq> None \<and> 0 < the p"
  from False obtain cat where pre: "requireAdmin c = None" "categoryRepo_FindByID e i b = Inr cat" "trim_space n \<noteq> []" "s \<noteq> []"
    by (auto simp: UpdateCategory_def Let_def split: option.splits sum.splits if_splits)
  let ?cat = "Category (cat_ID cat) (trim_space n) s d (if ?given then p else None) so (cat_Count cat) (cat_CreatedAt cat) (cat_Children cat)"
  from False have ok: "?given \<longrightarrow> the p \<noteq> i \<and> checkCircularRef e i (the p) b = None"
    by (auto simp: UpdateCategory_def Let_def pre split: option.splits if_splits)
  have "snd (UpdateCategory e c i n s d p so b) = snd (categoryRepo_Update e ?cat b)"
    using ok by (auto simp: UpdateCategory_def Let_def pre split: option.split prod.split)
  moreover obtain b1 where "categoryRepo_Update e ?cat b = (None, b1)"
    using False calculation categoryRepo_Update_fail by (metis not_None_eq prod.collapse)
  ultimately show thesis using find_catPO [OF pre(2)] ok
    by (intro updated [of ?cat]) auto
qed

lemma acyclic_UpdateCategory:
  assumes "cats_acyclic b" "\<And>i. \<not> db_fault e [''categories.by_id'', show_nat i]"
  shows "cats_acyclic (snd (UpdateCategory e c i n s d p so b))"
proof (cases e c i n s d p so b rule: UpdateCategory_cases)
  case unchanged
  with assms(1) show ?thesis by simp
next
  case (updated cat)
  have sub: "acyclic {(x, y) \<in> parent_rel b. x \<noteq> i}"
    using assms(1) unfolding cats_acyclic_def by (rule acyclic_subset) auto
  from updated have rel: "parent_rel (snd (UpdateCategory e c i n s d p so b)) =
      {(x, y) \<in> parent_rel b. x \<noteq> i} \<union> (case cat_ParentID cat of None \<Rightarrow> {} | Some q \<Rightarrow> {(i, q)})"
    by (subst categoryRepo_Update_parents [OF updated(1)]) auto
  from updated(4) show ?thesis
  proof (elim disjE exE conjE)
    assume "cat_ParentID cat = None"
    with rel sub show ?thesis by (simp add: cats_acyclic_def)
  next
    fix q assume q: "cat_ParentID cat = Some q" and check: "checkCircularRef e i q b = None"
    have "(q, i) \<notin> (parent_rel b)\<^sup>*"
      using walk_up_no_path [OF check [unfolded checkCircularRef_def] assms(2)] .
    with acyclic_redirect assms(1) rel q show ?thesis by (simp add: cats_acyclic_def)
  qed
qed

lemma cat_by_id_append:
  "cat_by_id (b\<lparr>categories := categories b @ [po]\<rparr>) i =
    (case cat_by_id b i of Some c \<Rightarrow> Some c | None \<Rightarrow> if live_cat po \<and> cpo_ID po = i then Some po else None)"
  unfolding cat_by_id_def by (simp add: find_append split: option.split)

lemma cat_by_id_next [simp]: "parent_rel (b\<lparr>next_category := k\<rparr>) = parent_rel b"
  by (simp add: parent_rel_def cat_by_id_def)

lemma fresh_cat_id: "cat_ids_ok b \<Longrightarrow> cat_by_id b (next_category b) = None"
  by (auto simp: cat_ids_ok_def cat_by_id_def find_None_all)

lemma categoryRepo_Create_parents:
  assumes "categoryRepo_Create e n s d p so b = (Inr cat, b1)" "cat_ids_ok b"
  shows "parent_rel b1 = parent_rel b \<union> (case p of None \<Rightarrow> {} | Some q \<Rightarrow> {(next_category b, q)})"
    "next_category b1 = next_category b + 1"
proof -
  let ?po = "\<lparr>cpo_ID = next_category b, cpo_Name = n, cpo_Slug = s, cpo_Desc = d, cpo_ParentID = p,
               cpo_SortOrder = so, cpo_Count = 0, cpo_CreatedAt = e_now e, cpo_DeletedAt = None\<rparr>"
  have b1: "b1 = kv_del e cacheKeyCatTree (b\<lparr>categories := categories b @ [?po], next_category := next_category b + 1\<rparr>)"
    using assms(1) by (auto simp: categoryRepo_Create_def Let_def split: if_splits)
  then show "next_category b1 = next_category b + 1" by simp
  have "(i, q) \<in> parent_rel b1 \<longleftrightarrow> (i, q) \<in> parent_rel b \<or> (i = next_category b \<and> p = Some q)" for i q
    using fresh_cat_id [OF assms(2)] unfolding b1 parent_rel_kv
    by (cases "cat_by_id b i") (auto simp: parent_rel_def cat_by_id_append live_cat_def cat_by_id_def find_append split: option.split)
  then show "parent_rel b1 = parent_rel b \<union> (case p of None \<Rightarrow> {} | Some q \<Rightarrow> {(next_category b, q)})"
    by (auto split: option.split)
qed


lemma acyclic_new_source:
  assumes "acyclic r" "\<And>x. (x, n) \<notin> r" "q \<noteq> n"
  shows "acyclic (insert (n, q) r)"
proof -
  have "(q, n) \<notin> r\<^sup>*"
  proof
    assume "(q, n) \<in> r\<^sup>*"
    then show False using assms(2,3) by (cases rule: rtranclE) auto
  qed
  with assms(1) show ?thesis by (simp add: acyclic_insert)
qed

lemma CreateCategory_cases:
  obtains (unchanged) "snd (CreateCategory e c n s d p so b) = b"
  | (created) n' s' p' cat where
      "categoryRepo_Create e n' s' d p' so b = (Inr cat, snd (CreateCategory e c n s d p so b))"
      "p' = None \<or> (\<exists>q. p = Some q \<and> p' = Some q \<and> 0 < q \<and> cat_by_id b q \<noteq> None)"
proof (cases "snd (CreateCategory e c n s d p so b) = b")
  case True
  then show thesis by (rule unchanged)
next
  case False
  let ?p = "if p \<noteq> None \<and> 0 < the p then p else None"
  let ?s = "if s = [] then generateSlug (trim_space n) else s"
  from False have pre: "requireAdmin c = None" "trim_space n \<noteq> []"
    "case ?p of None \<Rightarrow> True | Some q \<Rightarrow> is_ok (categoryRepo_FindByID e q b)"
    by (auto simp: CreateCategory_def Let_def split: option.splits if_splits)
  then have "snd (CreateCategory e c n s d p so b) = snd (categoryRepo_Create e (trim_space n) ?s d ?p so b)"
    by (auto simp: CreateCategory_def Let_def split: option.split sum.split prod.split)
  moreover from False this obtain cat b1 where "categoryRepo_Create e (trim_space n) ?s d ?p so b = (Inr cat, b1)"
    by (cases "fst (categoryRepo_Create e (trim_space n) ?s d ?p so b)")
      (auto simp: categoryRepo_Create_def Let_def split: if_splits)
  ultimately show thesis using pre(3)
    by (intro created [of "trim_space n" ?s ?p cat])
      (auto simp: is_ok_iff dest: find_catPO split: if_splits option.splits)
qed

lemma cat_by_id_lt: "cat_ids_ok b \<Longrightarrow> cat_by_id b q \<noteq> None \<Longrightarrow> q < next_category b"
  by (auto simp: cat_ids_ok_def dest: cat_by_id_Some)

lemma acyclic_CreateCategory:
  assumes "cats_acyclic b" "cat_ids_ok b" "parents_known b"
  shows "cats_acyclic (snd (CreateCategory e c n s d p so b)) \<and> parents_known (snd (CreateCategory e c n s d p so b))"
proof (cases e c n s d p so b rule: CreateCategory_cases)
  case unchanged
  with assms show ?thesis by simp
next
  case (created n' s' p' cat)
  note rel = categoryRepo_Create_parents [OF created(1) assms(2)]
  have known: "(x, y) \<in> parent_rel b \<Longrightarrow> y < next_category b" for x y
    using assms(3) by (auto simp: parents_known_def)
  from created(2) show ?thesis
  proof (elim disjE exE conjE)
    assume "p' = None"
    with rel assms known show ?thesis by (fastforce simp: cats_acyclic_def parents_known_def)
  next
    fix q assume q: "p' = Some q" "cat_by_id b q \<noteq> None"
    then have lt: "q < next_category b" using assms(2) by (blast intro: cat_by_id_lt)
    have "acyclic (insert (next_category b, q) (parent_rel b))"
      using assms(1) known lt by (intro acyclic_new_source) (auto simp: cats_acyclic_def)
    with rel q lt known show ?thesis by (fastforce simp: cats_acyclic_def parents_known_def)
  qed
qed

lemma categoryRepo_Delete_parents:
  assumes "categoryRepo_Delete e i b = (None, b1)"
  shows "parent_rel b1 = {(x, y) \<in> parent_rel b. x \<noteq> i}" "next_category b1 = next_category b"
proof -
  let ?f = "\<lambda>r. if live_cat r \<and> cpo_ID r = i then r\<lparr>cpo_DeletedAt := Some (e_now e)\<rparr> else r"
  have b1: "b1 = kv_del e cacheKeyCatTree (b\<lparr>categories := map ?f (categories b)\<rparr>)"
    using assms by (auto simp: categoryRepo_Delete_def Let_def split: if_splits)
  then show "next_category b1 = next_category b" by simp
  have "cat_by_id (b\<lparr>categories := map ?f xs\<rparr>) x =
      (if x = i then None else cat_by_id (b\<lparr>categories := xs\<rparr>) x)" for x xs
    by (induction xs) (auto simp: cat_by_id_def live_cat_def)
  from this [of "categories b"] show "parent_rel b1 = {(x, y) \<in> parent_rel b. x \<noteq> i}"
    unfolding b1 parent_rel_kv by (auto simp: parent_rel_def split: if_splits)
qed

lemma DeleteCategory_cases:
  obtains (refused) "snd (DeleteCategory e c i b) = b" "fst (DeleteCategory e c i b) \<noteq> None"
  | (deleted) po where "categoryRepo_Delete e i b = (None, snd (DeleteCategory e c i b))"
      "fst (DeleteCategory e c i b) = None" "requireAdmin c = None" "cat_by_id b i = Some po" "cpo_Count po \<le> 0"
      "\<And>ch. ch \<in> set (categories b) \<Longrightarrow> live_cat ch \<Longrightarrow> cpo_ParentID ch \<noteq> Some i"
proof (cases "fst (DeleteCategory e c i b)")
  case (Some er)
  then have "snd (DeleteCategory e c i b) = b"
    by (auto simp: DeleteCategory_def categoryRepo_Delete_def Let_def split: option.splits sum.splits if_splits prod.splits)
  with Some show thesis by (intro refused) simp_all
next
  case None
  then obtain cat where pre: "requireAdmin c = None" "categoryRepo_ListChildren e i b = Inr []"
      "categoryRepo_FindByID e i b = Inr cat" "\<not> 0 < cat_Count cat"
    by (auto simp: DeleteCategory_def split: option.splits sum.splits if_splits prod.splits)
  with None have del: "categoryRepo_Delete e i b = (None, snd (DeleteCategory e c i b))"
    by (auto simp: DeleteCategory_def split: option.splits prod.splits)
  obtain po where po: "cat_by_id b i = Some po" "cat = catPOToBiz po"
    using pre(3) by (auto simp: categoryRepo_FindByID_def split: if_splits option.splits)
  have "filter (\<lambda>c. live_cat c \<and> cpo_ParentID c = Some i) (categories b) = []"
    using pre(2) by (auto simp: categoryRepo_ListChildren_def sort_key_eq_Nil split: if_splits)
  then have "\<And>ch. ch \<in> set (categories b) \<Longrightarrow> live_cat ch \<Longrightarrow> cpo_ParentID ch \<noteq> Some i"
    by (auto simp: filter_empty_conv)
  with pre del po None show thesis by (intro deleted [of po]) (auto simp: catPOToBiz_def)
qed

lemma acyclic_DeleteCategory:
  assumes "cats_acyclic b" "parents_known b"
  shows "cats_acyclic (snd (DeleteCategory e c i b)) \<and> parents_known (snd (DeleteCategory e c i b))"
proof (cases e c i b rule: DeleteCategory_cases)
  case refused
  with assms show ?thesis by simp
next
  case (deleted po)
  from categoryRepo_Delete_parents [OF deleted(1)] assms show ?thesis
    by (auto simp: cats_acyclic_def parents_known_def intro: acyclic_subset)
qed


end
