(* ===== verification/ArticleUse.thy ===== *)
theory ArticleUse
  imports ArticleRepo TagUse
begin

text \<open>
  The article use case (app/blog/internal/biz/article.go): one definition per operation, with every guard,
  early return, repository call and event of the source in its order.
\<close>

section \<open>Errors and helpers\<close>

definition ErrNotArticleOwner :: err where [errs]: "ErrNotArticleOwner = Forbidden ''NOT_ARTICLE_OWNER''"
definition ErrArticleAlreadyPublished :: err where [errs]: "ErrArticleAlreadyPublished = Conflict ''ALREADY_PUBLISHED''"
definition ErrLikesDisabled :: err where [errs]: "ErrLikesDisabled = Forbidden ''LIKES_DISABLED''"

text \<open>\<^verbatim>\<open>PublishAsync\<close> offers the event to the bus; its result is ignored by every caller.\<close>

definition offer :: "event \<Rightarrow> blog \<Rightarrow> blog" where
  "offer ev b = b\<lparr>outbox := outbox b @ [ev]\<rparr>"

definition tagIDs :: "Tag list \<Rightarrow> nat list" where "tagIDs ts = map tag_ID ts"

text \<open>The candidates slug, slug-2, ..., slug-100; any error of the lookup counts as free.\<close>

definition slug_candidate :: "string \<Rightarrow> nat \<Rightarrow> string" where
  "slug_candidate slug i = (if 0 < i then slug @ ''-'' @ show_nat (i + 1) else slug)"

primrec try_slugs :: "env \<Rightarrow> string \<Rightarrow> nat \<Rightarrow> nat \<Rightarrow> blog \<Rightarrow> string res \<times> blog" where
  "try_slugs e slug 0 i b = (Inl (Opaque ''slug retries exhausted''), b)"
| "try_slugs e slug (Suc n) i b =
    (case articleRepo_FindBySlug e (slug_candidate slug i) b of
       (Inl er, b1) \<Rightarrow> (Inr (slug_candidate slug i), b1)
     | (Inr a, b1) \<Rightarrow> try_slugs e slug n (i + 1) b1)"

definition ensureUniqueSlug :: "env \<Rightarrow> string \<Rightarrow> blog \<Rightarrow> string res \<times> blog" where
  "ensureUniqueSlug e slug b = try_slugs e slug 100 0 b"

primrec resolveTags :: "env \<Rightarrow> string list \<Rightarrow> blog \<Rightarrow> Tag list res \<times> blog" where
  "resolveTags e [] b = (Inr [], b)"
| "resolveTags e (n0 # ns) b =
    (let n = trim_space n0 in
     if n = [] then resolveTags e ns b
     else case tagRepo_FindOrCreate e n (tagNameToSlug (e_low e) n) b of
            (Inl er, b1) \<Rightarrow> (Inl (Wrap ''resolve tag'' er), b1)
          | (Inr t, b1) \<Rightarrow>
              (case resolveTags e ns b1 of
                 (Inl er, b2) \<Rightarrow> (Inl er, b2)
               | (Inr ts, b2) \<Rightarrow> (Inr (t # ts), b2)))"

section \<open>Access\<close>

definition authorizeArticle :: "env \<Rightarrow> ctx \<Rightarrow> nat \<Rightarrow> blog \<Rightarrow> Article res" where
  "authorizeArticle e c i b =
    (case getCurrentUserID c of
       Inl er \<Rightarrow> Inl ErrUserNotAuthenticated
     | Inr u \<Rightarrow>
         (case articleRepo_FindByID e i b of
            Inl er \<Rightarrow> Inl ErrArticleNotFound
          | Inr a \<Rightarrow>
              if AuthorID a \<noteq> u \<and> getCurrentRole c \<noteq> adminRole then Inl ErrNotArticleOwner else Inr a))"

definition ensureArticleVisible :: "ctx \<Rightarrow> Article \<Rightarrow> err option" where
  "ensureArticleVisible c a =
    (if Status a = Published then None
     else case getCurrentUserID c of
            Inl er \<Rightarrow> Some ErrArticleNotFound
          | Inr u \<Rightarrow> if AuthorID a = u \<or> getCurrentRole c = adminRole then None else Some ErrArticleNotFound)"

definition fillIsLiked :: "env \<Rightarrow> ctx \<Rightarrow> Article \<Rightarrow> blog \<Rightarrow> Article" where
  "fillIsLiked e c a b =
    (case getCurrentUserID c of
       Inl er \<Rightarrow> a
     | Inr u \<Rightarrow> (case articleRepo_IsLiked e (ID a) u b of Inl er \<Rightarrow> a | Inr l \<Rightarrow> a\<lparr>IsLiked := l\<rparr>))"

section \<open>CreateArticle\<close>

definition new_article ::
  "string \<Rightarrow> string \<Rightarrow> string \<Rightarrow> string \<Rightarrow> string \<Rightarrow> nat \<Rightarrow> nat option \<Rightarrow> Tag list \<Rightarrow> Article" where
  "new_article title slug content excerpt cover author cat ts =
    \<lparr>ID = 0, Title = title, Slug = slug, Content = content, Excerpt = excerpt, CoverImage = cover, Status = Draft,
     AuthorID = author, AuthorName = [], AuthorAvatar = [], CategoryID = normalizeCategoryID cat, CategoryName = [],
     Tags = ts, ViewCount = 0, LikeCount = 0, IsTop = False, IsLiked = False, PublishedAt = None, CreatedAt = 0,
     UpdatedAt = 0\<rparr>"

definition CreateArticle ::
  "env \<Rightarrow> ctx \<Rightarrow> string \<Rightarrow> string \<Rightarrow> string \<Rightarrow> string \<Rightarrow> nat option \<Rightarrow> string list \<Rightarrow> blog \<Rightarrow> Article res \<times> blog" where
  "CreateArticle e c title content excerpt0 cover cat tagNames b =
    (case getCurrentUserID c of
       Inl er \<Rightarrow> (Inl ErrUserNotAuthenticated, b)
     | Inr author \<Rightarrow>
       (case validateArticleInput title content of
          Some er \<Rightarrow> (Inl er, b)
        | None \<Rightarrow>
          (case ensureUniqueSlug e (generateSlug title) b of
             (Inl er, b1) \<Rightarrow> (Inl (Wrap ''slug'' er), b1)
           | (Inr slug, b1) \<Rightarrow>
             let excerpt = (if excerpt0 = [] then truncateContent content MaxExcerptLength else excerpt0) in
             (case resolveTags e tagNames b1 of
                (Inl er, b2) \<Rightarrow> (Inl er, b2)
              | (Inr ts, b2) \<Rightarrow>
                (case articleRepo_Create e (new_article title slug content excerpt cover author cat ts) b2 of
                   (Inl er, b3) \<Rightarrow> if is_conflict er then (Inl er, b3) else (Inl (Wrap ''create article'' er), b3)
                 | (Inr a, b3) \<Rightarrow>
                   if ts = [] then (Inr a, b3)
                   else (Inr a, snd (articleRepo_AssociateTags e (ID a) (tagIDs ts) b3)))))))"

section \<open>UpdateArticle\<close>

text \<open>The category counts to adjust once the update is stored.\<close>

definition pending_counts :: "Article \<Rightarrow> nat option \<Rightarrow> (nat \<times> int) list" where
  "pending_counts a cat =
    (case cat of
       None \<Rightarrow> []
     | Some new \<Rightarrow>
         (if Status a = Published \<and> CategoryID a \<noteq> None then [(the (CategoryID a), - 1)] else []) @
         (if new \<noteq> 0 \<and> Status a = Published then [(new, 1)] else []))"

definition adjust_counts :: "env \<Rightarrow> (nat \<times> int) list \<Rightarrow> blog \<Rightarrow> blog" where
  "adjust_counts e adjs b = foldl (\<lambda>b (i, d). snd (categoryRepo_IncrementArticleCount e i d b)) b adjs"

definition set_opt :: "('a \<Rightarrow> 'r \<Rightarrow> 'r) \<Rightarrow> 'a option \<Rightarrow> 'r \<Rightarrow> 'r" where
  "set_opt f x r = (case x of None \<Rightarrow> r | Some v \<Rightarrow> f v r)"

text \<open>Step 2: a new title is validated and gets a new unique slug.\<close>

definition retitle :: "env \<Rightarrow> string option \<Rightarrow> Article \<Rightarrow> blog \<Rightarrow> Article res \<times> blog" where
  "retitle e title a b =
    (case title of
       None \<Rightarrow> (Inr a, b)
     | Some t \<Rightarrow>
       (case validateTitle t of
          Some er \<Rightarrow> (Inl er, b)
        | None \<Rightarrow>
          (case ensureUniqueSlug e (generateSlug t) b of
             (Inl er, b1) \<Rightarrow> (Inl (Wrap ''slug'' er), b1)
           | (Inr s, b1) \<Rightarrow> (Inr (a\<lparr>Title := t, Slug := s\<rparr>), b1))))"

text \<open>Steps 3 and 4: content, excerpt, cover and category; a category id of zero removes the category.\<close>

definition edit_fields :: "string option \<Rightarrow> string option \<Rightarrow> string option \<Rightarrow> Article \<Rightarrow> Article" where
  "edit_fields content excerpt cover a =
    set_opt (\<lambda>x a. a\<lparr>CoverImage := x\<rparr>) cover
      (set_opt (\<lambda>x a. a\<lparr>Excerpt := x\<rparr>) excerpt (set_opt (\<lambda>x a. a\<lparr>Content := x\<rparr>) content a))"

definition edit_category :: "nat option \<Rightarrow> Article \<Rightarrow> Article" where
  "edit_category cat a = set_opt (\<lambda>x a. a\<lparr>CategoryID := (if x = 0 then None else Some x)\<rparr>) cat a"

text \<open>Step 6: the tags are replaced when names are given.\<close>

definition replace_tags :: "env \<Rightarrow> nat \<Rightarrow> string list option \<Rightarrow> blog \<Rightarrow> err option \<times> blog" where
  "replace_tags e i tagNames b =
    (case tagNames of
       None \<Rightarrow> (None, b)
     | Some ns \<Rightarrow>
       (case resolveTags e ns b of
          (Inl er, b1) \<Rightarrow> (Some er, b1)
        | (Inr ts, b1) \<Rightarrow>
          (case articleRepo_SyncTags e i (tagIDs ts) b1 of
             (Some er, b2) \<Rightarrow> (Some (Wrap ''sync tags'' er), b2)
           | (None, b2) \<Rightarrow> (None, b2))))"

definition UpdateArticle ::
  "env \<Rightarrow> ctx \<Rightarrow> nat \<Rightarrow> string option \<Rightarrow> string option \<Rightarrow> string option \<Rightarrow> string option \<Rightarrow> nat option \<Rightarrow>
    string list option \<Rightarrow> blog \<Rightarrow> Article res \<times> blog" where
  "UpdateArticle e c i title content excerpt cover cat tagNames b =
    (case authorizeArticle e c i b of
       Inl er \<Rightarrow> (Inl er, b)
     | Inr a0 \<Rightarrow>
       (case retitle e title a0 b of
          (Inl er, b1) \<Rightarrow> (Inl er, b1)
        | (Inr a1, b1) \<Rightarrow>
          if content \<noteq> None \<and> MaxContentLength < length (the content)
          then (Inl ErrArticleContentTooBig, b1)
          else
            let a2 = edit_fields content excerpt cover a1;
                adjs = pending_counts a2 cat;
                a3 = edit_category cat a2
            in (case articleRepo_Update e a3 b1 of
                  (Some er, b2) \<Rightarrow> (Inl (Wrap ''update article'' er), b2)
                | (None, b2) \<Rightarrow>
                  (case replace_tags e i tagNames (adjust_counts e adjs b2) of
                     (Some er, b3) \<Rightarrow> (Inl er, b3)
                   | (None, b3) \<Rightarrow> (Inr a3, offer (ArticleUpdated (ID a3) (Title a3) (AuthorID a3)) b3)))))"

section \<open>DeleteArticle, PublishArticle, ArchiveArticle\<close>

text \<open>The counts of the category and the tags of an article move by \<^verbatim>\<open>d\<close>; failures are only logged.\<close>

definition move_counts :: "env \<Rightarrow> Article \<Rightarrow> int \<Rightarrow> blog \<Rightarrow> blog" where
  "move_counts e a d b =
    (let b1 = (case CategoryID a of None \<Rightarrow> b | Some cid \<Rightarrow> snd (categoryRepo_IncrementArticleCount e cid d b))
     in if Tags a = [] then b1 else snd (articleRepo_UpdateTagsArticleCount e (tagIDs (Tags a)) d b1))"

definition DeleteArticle :: "env \<Rightarrow> ctx \<Rightarrow> nat \<Rightarrow> blog \<Rightarrow> err option \<times> blog" where
  "DeleteArticle e c i b =
    (case authorizeArticle e c i b of
       Inl er \<Rightarrow> (Some er, b)
     | Inr a \<Rightarrow>
       (case articleRepo_Delete e i b of
          (Some er, b1) \<Rightarrow> (Some (Wrap ''delete article'' er), b1)
        | (None, b1) \<Rightarrow>
          let b2 = (if Status a = Published then move_counts e a (- 1) b1 else b1)
          in (None, offer (ArticleDeleted i (AuthorID a)) b2)))"

definition PublishArticle :: "env \<Rightarrow> ctx \<Rightarrow> nat \<Rightarrow> blog \<Rightarrow> Article res \<times> blog" where
  "PublishArticle e c i b =
    (case authorizeArticle e c i b of
       Inl er \<Rightarrow> (Inl er, b)
     | Inr a0 \<Rightarrow>
       if Status a0 = Published then (Inl ErrArticleAlreadyPublished, b)
       else let a = a0\<lparr>Status := Published, PublishedAt := Some (e_now e)\<rparr>
            in case articleRepo_Update e a b of
                 (Some er, b1) \<Rightarrow> (Inl (Wrap ''publish article'' er), b1)
               | (None, b1) \<Rightarrow>
                 (Inr a, offer (ArticlePublished (ID a) (Title a) (Slug a) (AuthorID a)) (move_counts e a 1 b1)))"

definition ArchiveArticle :: "env \<Rightarrow> ctx \<Rightarrow> nat \<Rightarrow> blog \<Rightarrow> Article res \<times> blog" where
  "ArchiveArticle e c i b =
    (case authorizeArticle e c i b of
       Inl er \<Rightarrow> (Inl er, b)
     | Inr a0 \<Rightarrow>
       if Status a0 = Archived then (Inr a0, b)
       else let wasPublished = (Status a0 = Published); a = a0\<lparr>Status := Archived\<rparr>
            in case articleRepo_Update e a b of
                 (Some er, b1) \<Rightarrow> (Inl (Wrap ''archive article'' er), b1)
               | (None, b1) \<Rightarrow> (Inr a, if wasPublished then move_counts e a (- 1) b1 else b1))"

section \<open>Reading\<close>

definition GetArticle :: "env \<Rightarrow> ctx \<Rightarrow> string \<Rightarrow> blog \<Rightarrow> Article res \<times> blog" where
  "GetArticle e c ident b =
    (let i = parseUint ident;
         shown = (\<lambda>a b. case ensureArticleVisible c a of
                     Some er \<Rightarrow> (Inl er, b) | None \<Rightarrow> (Inr (fillIsLiked e c a b), b));
         by_slug = (case articleRepo_FindBySlug e ident b of
                     (Inl er, b1) \<Rightarrow> (Inl ErrArticleNotFound, b1) | (Inr a, b1) \<Rightarrow> shown a b1)
     in if 0 < i then (case articleRepo_FindByID e i b of Inr a \<Rightarrow> shown a b | Inl er \<Rightarrow> by_slug)
        else by_slug)"

definition ListArticles ::
  "env \<Rightarrow> (string \<Rightarrow> ArticlePO list \<Rightarrow> ArticlePO list) \<Rightarrow> ctx \<Rightarrow> ArticleListQuery \<Rightarrow> blog \<Rightarrow> (Article list \<times> nat) res" where
  "ListArticles e ord c q b =
    (let refused = (q_Status q \<noteq> [] \<and> q_Status q \<noteq> ''published'' \<and>
            (case getCurrentUserID c of
               Inl er \<Rightarrow> True
             | Inr u \<Rightarrow> \<not> (q_AuthorID q = Some u) \<and> getCurrentRole c \<noteq> adminRole))
     in if refused then Inl ErrPermissionDenied
        else articleRepo_List e ord (if q_Status q = [] then q\<lparr>q_Status := ''published''\<rparr> else q) b)"

definition SearchArticles ::
  "env \<Rightarrow> (string \<Rightarrow> ArticlePO list \<Rightarrow> ArticlePO list) \<Rightarrow> (string \<Rightarrow> string \<Rightarrow> bool) \<Rightarrow> string \<Rightarrow> int \<Rightarrow> int \<Rightarrow> blog \<Rightarrow>
    (Article list \<times> nat) res" where
  "SearchArticles e ord like keyword0 page psize b =
    (let keyword = trim_space keyword0
     in if keyword = [] then Inr ([], 0)
        else articleRepo_Search e ord like keyword (clamp_page page) (clamp_size 10 psize) b)"

section \<open>Likes\<close>

text \<open>\<^verbatim>\<open>gate\<close> is what the site's switch answers, None when no gate is injected.\<close>

definition LikeArticle :: "env \<Rightarrow> bool res option \<Rightarrow> ctx \<Rightarrow> nat \<Rightarrow> blog \<Rightarrow> err option \<times> blog" where
  "LikeArticle e gate c i b =
    (let gated = (case gate of
            None \<Rightarrow> None
          | Some (Inl er) \<Rightarrow> Some (Wrap ''check likes gate'' er)
          | Some (Inr on) \<Rightarrow> if on then None else Some ErrLikesDisabled)
     in case gated of
          Some er \<Rightarrow> (Some er, b)
        | None \<Rightarrow>
          (case articleRepo_FindByID e i b of
             Inl er \<Rightarrow> (Some er, b)
           | Inr a \<Rightarrow>
             if Status a \<noteq> Published then (Some ErrArticleNotFound, b)
             else (case getCurrentUserID c of
                Inl er \<Rightarrow> (Some ErrUserNotAuthenticated, b)
              | Inr u \<Rightarrow>
                (case articleRepo_InsertLike e i u b of
                   (Some er, b1) \<Rightarrow> (Some (Wrap ''like article'' er), b1)
                 | (None, b1) \<Rightarrow> (None, offer (ArticleLiked i u) b1)))))"

definition UnlikeArticle :: "env \<Rightarrow> ctx \<Rightarrow> nat \<Rightarrow> blog \<Rightarrow> err option \<times> blog" where
  "UnlikeArticle e c i b =
    (case articleRepo_FindByID e i b of
       Inl er \<Rightarrow> (Some er, b)
     | Inr a \<Rightarrow>
       (case getCurrentUserID c of
          Inl er \<Rightarrow> (Some ErrUserNotAuthenticated, b)
        | Inr u \<Rightarrow>
          (case articleRepo_DeleteLike e i u b of
             (Some er, b1) \<Rightarrow> (Some (Wrap ''unlike article'' er), b1)
           | (None, b1) \<Rightarrow> (None, b1))))"

section \<open>Views\<close>

definition ViewCountCachePrefix :: string where "ViewCountCachePrefix = ''ley:article:view:''"
definition ViewCountDedupPrefix :: string where "ViewCountDedupPrefix = ''ley:article:dedup:''"
definition ViewCountTTL :: int where "ViewCountTTL = 120 * minute"
definition ViewDedupWindow :: int where "ViewDedupWindow = 60 * minute"

definition view_key :: "nat \<Rightarrow> string" where "view_key i = ViewCountCachePrefix @ show_nat i"
definition dedup_key :: "nat \<Rightarrow> string \<Rightarrow> string" where
  "dedup_key i ip = ViewCountDedupPrefix @ show_nat i @ '':'' @ ip"

definition IncrementView :: "env \<Rightarrow> nat \<Rightarrow> blog \<Rightarrow> err option \<times> blog" where
  "IncrementView e i b =
    (case articleRepo_IncrementViewCount e i 1 b of
       (Some er, b1) \<Rightarrow> (Some (Wrap ''increment view'' er), b1)
     | (None, b1) \<Rightarrow> (None, offer (ArticleViewed i) b1))"

definition view_fallback :: "env \<Rightarrow> nat \<Rightarrow> blog \<Rightarrow> bool res \<times> blog" where
  "view_fallback e i b =
    (case IncrementView e i b of (Some er, b1) \<Rightarrow> (Inl er, b1) | (None, b1) \<Rightarrow> (Inr True, b1))"

definition ViewArticle :: "env \<Rightarrow> nat \<Rightarrow> string \<Rightarrow> blog \<Rightarrow> bool res \<times> blog" where
  "ViewArticle e i ip b =
    (if i = 0 then (Inl ErrArticleContentEmpty, b)
     else case rc_setnx e (dedup_key i ip) (Raw ''1'') ViewDedupWindow (kv b) of
            (Inl er, m1) \<Rightarrow> view_fallback e i (b\<lparr>kv := m1\<rparr>)
          | (Inr fresh, m1) \<Rightarrow>
            if \<not> fresh then (Inr False, b\<lparr>kv := m1\<rparr>)
            else (case rc_incr e (view_key i) m1 of
                    (Inl er, m2) \<Rightarrow> view_fallback e i (b\<lparr>kv := m2\<rparr>)
                  | (Inr n, m2) \<Rightarrow>
                    (Inr True, offer (ArticleViewed i)
                       (b\<lparr>kv := snd (rc_expire e (view_key i) ViewCountTTL m2)\<rparr>))))"

end
