(* ===== verification/Views.thy ===== *)
theory Views
  imports ArticleUse "HOL-Library.AList"
begin

text \<open>
  The flush of the buffered view counts (app/blog/internal/data/data.go): scanning the keys, reading the
  increments, adding them to the rows in one transaction and deleting the keys. The phases are
  definitions of their own, because views that arrive between them are what makes the flush hard.
\<close>

section \<open>flushViewCounts\<close>

text \<open>
  One entry of the reply of MGet: the key must have four parts, the fourth a 64-bit id, and the value
  must be a positive integer.
\<close>

definition parse_count :: "string \<times> cobj cval \<Rightarrow> (nat \<times> int) option" where
  "parse_count x =
    (let parts = split_on CHR '':'' (fst x) in
     if length parts < 4 then None
     else case parse_uint64 (parts ! 3) of
            (i, False) \<Rightarrow> None
          | (i, True) \<Rightarrow>
            (case snd x of
               Json y \<Rightarrow> None
             | Raw s \<Rightarrow> (case parse_int64 s of
                           None \<Rightarrow> None
                         | Some d \<Rightarrow> if d \<le> 0 then None else Some (i, d))))"

primrec collect_counts :: "(string \<times> cobj cval) list \<Rightarrow> (nat \<times> int) list \<Rightarrow> (nat \<times> int) list" where
  "collect_counts [] acc = acc"
| "collect_counts (x # xs) acc =
    collect_counts xs (case parse_count x of None \<Rightarrow> acc | Some (i, d) \<Rightarrow> AList.update i d acc)"

text \<open>The transaction, given the increments read before.\<close>

definition add_views :: "(nat \<times> int) list \<Rightarrow> blog \<Rightarrow> blog" where
  "add_views counts b = foldl (\<lambda>b (i, d). update_row (po_ViewCount_update (\<lambda>n. n + d)) i b) b counts"

definition flush_tx :: "env \<Rightarrow> (nat \<times> int) list \<Rightarrow> blog \<Rightarrow> err option \<times> blog" where
  "flush_tx e counts b =
    (if \<exists>(i, d) \<in> set counts. db_fault e [''articles.flush'', show_nat i] then (Some db_error, b)
     else (None, add_views counts b))"

definition flush_delete :: "env \<Rightarrow> string list \<Rightarrow> blog \<Rightarrow> blog" where
  "flush_delete e keys b = foldl (\<lambda>b k. kv_del e k b) b keys"

definition flushViewCounts :: "env \<Rightarrow> string list res \<Rightarrow> blog \<Rightarrow> blog" where
  "flushViewCounts e scanned b =
    (case scanned of
       Inl er \<Rightarrow> b
     | Inr keys \<Rightarrow>
       if keys = [] then b
       else (case rc_mget e keys (kv b) of
               Inl er \<Rightarrow> b
             | Inr kvs \<Rightarrow>
               let counts = collect_counts kvs [] in
               if counts = [] then b
               else (case flush_tx e counts b of
                       (Some er, b1) \<Rightarrow> b1
                     | (None, b1) \<Rightarrow> flush_delete e keys b1)))"

end
