(* ===== verification/CatTree.thy ===== *)
theory CatTree
  imports TagUse
begin

text \<open>
  The category tree is complete: as long as the parent relation has no cycle, the tree that the list
  operation builds shows every live category exactly once. The proof counts levels: the nodes at
  distance k below the roots are the rows whose k-th ancestor is a root.
\<close>

section \<open>Levels and ancestors\<close>

primrec flat :: "Category \<Rightarrow> nat list" where
  "flat (Category i n s d p so k t ch) = i # concat (map flat ch)"

definition tree_ids :: "Category list \<Rightarrow> nat list" where
  "tree_ids t = concat (map flat t)"

definition parent_row :: "CategoryPO list \<Rightarrow> CategoryPO \<Rightarrow> CategoryPO option" where
  "parent_row rows c =
    (case cpo_ParentID c of None \<Rightarrow> None
     | Some p \<Rightarrow> if p = 0 then None else List.find (\<lambda>r. cpo_ID r = p) rows)"

primrec down :: "CategoryPO list \<Rightarrow> nat \<Rightarrow> CategoryPO \<Rightarrow> CategoryPO list" where
  "down rows 0 c = [c]"
| "down rows (Suc k) c = concat (map (down rows k) (kids_of rows (cpo_ID c)))"

primrec anc :: "CategoryPO list \<Rightarrow> nat \<Rightarrow> CategoryPO \<Rightarrow> CategoryPO option" where
  "anc rows 0 r = Some r"
| "anc rows (Suc k) r = (case anc rows k r of None \<Rightarrow> None | Some q \<Rightarrow> parent_row rows q)"

lemma flat_node:
  "mset (flat (cat_node n rows c)) = (\<Sum>k\<le>n. mset (map cpo_ID (down rows k c)))"
proof (induction n arbitrary: c)
  case (Suc n)
  have "mset (flat (cat_node (Suc n) rows c)) =
      {#cpo_ID c#} + (\<Sum>d\<leftarrow>kids_of rows (cpo_ID c). mset (flat (cat_node n rows d)))"
    by (simp add: mset_concat comp_def)
  also have "\<dots> = {#cpo_ID c#} + (\<Sum>d\<leftarrow>kids_of rows (cpo_ID c). \<Sum>k\<le>n. mset (map cpo_ID (down rows k d)))"
    by (simp only: Suc.IH)
  also have "(\<Sum>d\<leftarrow>xs. \<Sum>k\<le>n. mset (map cpo_ID (down rows k d))) =
      (\<Sum>k\<le>n. mset (map cpo_ID (concat (map (down rows k) xs))))" for xs
    by (induction xs) (simp_all add: sum.distrib)
  also have "{#cpo_ID c#} + (\<Sum>k\<le>n. mset (map cpo_ID (concat (map (down rows k) (kids_of rows (cpo_ID c)))))) =
      (\<Sum>k\<le>Suc n. mset (map cpo_ID (down rows k c)))"
    by (simp add: sum.atMost_Suc_shift del: sum.atMost_Suc)
  finally show ?case .
qed (simp add: catPOToBiz_def)

lemma find_by_id:
  "distinct (map cpo_ID rows) \<Longrightarrow> List.find (\<lambda>r. cpo_ID r = p) rows = Some c \<longleftrightarrow> c \<in> set rows \<and> cpo_ID c = p"
  by (induction rows) auto

lemma kid_iff:
  assumes "distinct (map cpo_ID rows)" "c \<in> set rows"
  shows "d \<in> set (kids_of rows (cpo_ID c)) \<longleftrightarrow> d \<in> set rows \<and> parent_row rows d = Some c"
  using assms
  by (auto simp: kids_of_def parent_row_def has_parent_in_def find_by_id split: option.splits if_splits)

lemma count_unique: "distinct xs \<Longrightarrow> (\<Sum>d\<leftarrow>xs. if y = Some d then 1 else 0) = (if \<exists>d\<in>set xs. y = Some d then 1 else (0::nat))"
  by (induction xs) auto

lemma distinct_rows: "distinct (map cpo_ID rows) \<Longrightarrow> distinct rows"
  by (simp add: distinct_map)

lemma count_concat: "count (mset (concat (map f xs))) r = (\<Sum>d\<leftarrow>xs. count (mset (f d)) r)"
  by (induction xs) auto

lemma sum_list_cong: "(\<And>d. d \<in> set xs \<Longrightarrow> f d = g d) \<Longrightarrow> (\<Sum>d\<leftarrow>xs. f d) = (\<Sum>d\<leftarrow>xs. (g d :: nat))"
  by (induction xs) auto

lemma parent_row_in: "parent_row rows c = Some p \<Longrightarrow> p \<in> set rows"
  by (auto simp: parent_row_def split: option.splits if_splits dest: find_Some_mem)

lemma anc_in: "r \<in> set rows \<Longrightarrow> anc rows k r = Some c \<Longrightarrow> c \<in> set rows"
  by (cases k) (auto split: option.splits dest: parent_row_in)

lemma down_count:
  assumes "distinct (map cpo_ID rows)" "c \<in> set rows" "r \<in> set rows"
  shows "count (mset (down rows k c)) r = (if anc rows k r = Some c then 1 else 0)"
  using assms(2)
proof (induction k arbitrary: c)
  case (Suc k)
  let ?ks = "kids_of rows (cpo_ID c)"
  have "count (mset (down rows (Suc k) c)) r = (\<Sum>d\<leftarrow>?ks. if anc rows k r = Some d then 1 else 0)"
    unfolding down.simps count_concat
    by (rule sum_list_cong) (use Suc kid_iff [OF assms(1) Suc.prems] in blast)
  also have "\<dots> = (if \<exists>d\<in>set ?ks. anc rows k r = Some d then 1 else 0)"
    by (rule count_unique) (use distinct_rows [OF assms(1)] in \<open>simp add: kids_of_def\<close>)
  also have "(\<exists>d\<in>set ?ks. anc rows k r = Some d) \<longleftrightarrow> anc rows (Suc k) r = Some c"
    using kid_iff [OF assms(1) Suc.prems] anc_in [OF assms(3)] by (auto split: option.splits)
  finally show ?case .
qed auto

text \<open>The chain of ancestors ends at exactly one root.\<close>

definition up_rel :: "CategoryPO list \<Rightarrow> (CategoryPO \<times> CategoryPO) set" where
  "up_rel rows = {(r, p). r \<in> set rows \<and> parent_row rows r = Some p}"

lemma anc_path: "r \<in> set rows \<Longrightarrow> anc rows (k + Suc j) r = Some c \<Longrightarrow> \<exists>d. anc rows k r = Some d \<and> (d, c) \<in> (up_rel rows)\<^sup>+"
proof (induction j arbitrary: c)
  case 0
  then obtain d where "anc rows k r = Some d" "parent_row rows d = Some c" by (auto split: option.splits)
  with 0 show ?case by (auto simp: up_rel_def dest: anc_in)
next
  case (Suc j)
  then obtain d where d: "anc rows (k + Suc j) r = Some d" "parent_row rows d = Some c" by (auto split: option.splits)
  from Suc.IH [OF Suc.prems(1) d(1)] obtain f where f: "anc rows k r = Some f" "(f, d) \<in> (up_rel rows)\<^sup>+" by blast
  have "(d, c) \<in> up_rel rows" using d anc_in [OF Suc.prems(1) d(1)] by (simp add: up_rel_def)
  with f show ?case by (blast intro: trancl_into_trancl)
qed

lemma anc_ends:
  assumes "acyclic (up_rel rows)" "r \<in> set rows"
  shows "anc rows (length rows) r = None"
proof (rule ccontr)
  assume "anc rows (length rows) r \<noteq> None"
  then have def: "anc rows k r \<noteq> None" if "k \<le> length rows" for k
    using that
  proof (induction "length rows - k" arbitrary: k)
    case (Suc x)
    then have "anc rows (Suc k) r \<noteq> None" by (simp del: anc.simps)
    then show ?case by (auto split: option.splits)
  qed simp
  let ?f = "\<lambda>k. the (anc rows k r)"
  have "inj_on ?f {..length rows}"
  proof (rule linorder_inj_onI)
    fix x y assume xy: "x < y" "x \<in> {..length rows}" "y \<in> {..length rows}"
    then obtain j where j: "y = x + Suc j" by (metis add_Suc_right less_imp_Suc_add)
    obtain c where c: "anc rows y r = Some c" using def xy by fastforce
    from anc_path [OF assms(2), of x j c] c j obtain d where "anc rows x r = Some d" "(d, c) \<in> (up_rel rows)\<^sup>+" by auto
    with assms(1) c show "?f x \<noteq> ?f y" by (auto simp: acyclic_def)
  qed (rule linear)
  moreover have "?f ` {..length rows} \<subseteq> set rows"
    using def anc_in [OF assms(2)] by fastforce
  ultimately have "card {..length rows} \<le> card (set rows)" by (metis card_inj_on_le finite_set)
  then show False using card_length [of rows] by simp
qed

lemma root_once:
  assumes "acyclic (up_rel rows)" "r \<in> set rows"
  shows "\<exists>!k. k \<le> length rows \<and> (\<exists>c. anc rows k r = Some c \<and> parent_row rows c = None)"
proof -
  define k where "k = (LEAST k. anc rows (Suc k) r = None)"
  obtain m where m: "length rows = Suc m" using assms(2) by (cases rows) auto
  have ex: "anc rows (Suc m) r = None" using anc_ends [OF assms] m by simp
  then have k1: "anc rows (Suc k) r = None" unfolding k_def by (rule LeastI)
  have km: "k \<le> m" unfolding k_def using ex by (rule Least_le)
  have k0: "anc rows k r \<noteq> None"
  proof (cases k)
    case (Suc j)
    then have "j < (LEAST k. anc rows (Suc k) r = None)" unfolding k_def by simp
    then show ?thesis using Suc not_less_Least by fastforce
  qed simp
  have stop: "anc rows (Suc k + j) r = None" for j by (induction j) (use k1 in auto)
  have uniq: "k' = k" if "anc rows k' r = Some c" "parent_row rows c = None" for k' c
  proof (rule linorder_cases [of k' k])
    assume "k' < k"
    moreover have "anc rows (Suc k') r = None" using that by simp
    ultimately show ?thesis unfolding k_def using not_less_Least by blast
  next
    assume "k < k'"
    then obtain j where "k' = Suc k + j" using less_iff_Suc_add by auto
    with stop that show ?thesis by simp
  qed
  obtain c where c: "anc rows k r = Some c" using k0 by blast
  then have "parent_row rows c = None" using k1 by simp
  with c km m have "k \<le> length rows \<and> (\<exists>c. anc rows k r = Some c \<and> parent_row rows c = None)" by auto
  with uniq show ?thesis by blast
qed

lemma has_parent_row: "distinct (map cpo_ID rows) \<Longrightarrow> c \<in> set rows \<Longrightarrow> has_parent_in rows c \<longleftrightarrow> parent_row rows c \<noteq> None"
proof (cases "cpo_ParentID c")
  case (Some p)
  have "p \<in> cpo_ID ` set rows \<longleftrightarrow> List.find (\<lambda>r. cpo_ID r = p) rows \<noteq> None"
    by (auto simp: find_None_iff)
  with Some show ?thesis by (simp add: has_parent_in_def parent_row_def)
qed (simp add: has_parent_in_def parent_row_def)

lemma image_mset_sum_atMost: "(\<Sum>k\<le>(n::nat). image_mset f (M k)) = image_mset f (\<Sum>k\<le>n. M k)"
  by (induction n) simp_all

lemma forest_complete:
  assumes "distinct (map cpo_ID rows)" "acyclic (up_rel rows)"
  shows "mset (tree_ids (cat_forest rows)) = mset (map cpo_ID rows)"
proof -
  let ?roots = "filter (\<lambda>c. \<not> has_parent_in rows c) rows" and ?N = "length rows"
  let ?lev = "\<lambda>k. concat (map (down rows k) ?roots)"
  have "mset (tree_ids (cat_forest rows)) = (\<Sum>c\<leftarrow>?roots. mset (flat (cat_node ?N rows c)))"
    by (simp add: tree_ids_def cat_forest_def mset_concat comp_def)
  also have "\<dots> = (\<Sum>k\<le>?N. mset (map cpo_ID (?lev k)))"
  proof -
    have "(\<Sum>d\<leftarrow>xs. \<Sum>k\<le>?N. mset (map cpo_ID (down rows k d))) =
        (\<Sum>k\<le>?N. mset (map cpo_ID (concat (map (down rows k) xs))))" for xs
      by (induction xs) (simp_all add: sum.distrib)
    then show ?thesis by (simp only: flat_node)
  qed
  also have "\<dots> = image_mset cpo_ID (\<Sum>k\<le>?N. mset (?lev k))"
    by (simp only: mset_map image_mset_sum_atMost)
  also have "(\<Sum>k\<le>?N. mset (?lev k)) = mset rows"
  proof (rule multiset_eqI)
    fix r
    have roots: "set ?roots = {c \<in> set rows. parent_row rows c = None}"
      using has_parent_row [OF assms(1)] by auto
    show "count (\<Sum>k\<le>?N. mset (?lev k)) r = count (mset rows) r"
    proof (cases "r \<in> set rows")
      case True
      have lev: "count (mset (?lev k)) r = (if \<exists>c. anc rows k r = Some c \<and> parent_row rows c = None then 1 else 0)" for k
      proof -
        have "count (mset (?lev k)) r = (\<Sum>d\<leftarrow>?roots. if anc rows k r = Some d then 1 else 0)"
          unfolding count_concat by (rule sum_list_cong) (use down_count [OF assms(1) _ True] in auto)
        also have "\<dots> = (if \<exists>d\<in>set ?roots. anc rows k r = Some d then 1 else 0)"
          by (rule count_unique) (use distinct_rows [OF assms(1)] in simp)
        also have "(\<exists>d\<in>set ?roots. anc rows k r = Some d) \<longleftrightarrow> (\<exists>c. anc rows k r = Some c \<and> parent_row rows c = None)"
          unfolding roots using anc_in [OF True] by blast
        finally show ?thesis .
      qed
      obtain k0 where k0: "k0 \<le> ?N" "\<And>k. k \<le> ?N \<and> (\<exists>c. anc rows k r = Some c \<and> parent_row rows c = None) \<longleftrightarrow> k = k0"
        using root_once [OF assms(2) True] by blast
      have "count (\<Sum>k\<le>?N. mset (?lev k)) r = (\<Sum>k\<le>?N. if k = k0 then 1 else 0)"
        unfolding count_sum
      proof (rule sum.cong)
        fix k assume "k \<in> {..?N}"
        then have "(\<exists>c. anc rows k r = Some c \<and> parent_row rows c = None) \<longleftrightarrow> k = k0" using k0(2) [of k] by simp
        with lev [of k] show "count (mset (?lev k)) r = (if k = k0 then 1 else 0)" by presburger
      qed simp
      also have "\<dots> = 1" using k0(1) by simp
      finally show ?thesis using True distinct_rows [OF assms(1)] by (simp add: distinct_count_atmost_1)
    next
      case False
      have "set (down rows k c) \<subseteq> set rows" if "c \<in> set rows" for k c
        using that by (induction k arbitrary: c) (auto simp: kids_of_def)
      then have "\<And>k. r \<notin> set (?lev k)" using False by fastforce
      then have "\<And>k. count (mset (?lev k)) r = 0" by (simp only: count_eq_zero_iff set_mset_mset) simp
      moreover have "count (mset rows) r = 0" using False by (simp only: count_eq_zero_iff set_mset_mset) simp
      ultimately show ?thesis unfolding count_sum by (simp only: sum.neutral_const)
    qed
  qed
  finally show ?thesis by simp
qed


section \<open>The tree of the database\<close>

lemma mset_cat_rows: "mset (cat_rows b) = mset (filter live_cat (categories b))"
  by (simp add: cat_rows_def)

lemma set_cat_rows: "set (cat_rows b) = {c \<in> set (categories b). live_cat c}"
  by (auto simp: cat_rows_def)

lemma cat_rows_distinct: "cat_ids_ok b \<Longrightarrow> distinct (map cpo_ID (cat_rows b))"
proof -
  assume "cat_ids_ok b"
  then have "distinct (map cpo_ID (filter live_cat (categories b)))"
    by (simp add: cat_ids_ok_def distinct_map inj_on_def)
  moreover have "mset (map cpo_ID (cat_rows b)) = mset (map cpo_ID (filter live_cat (categories b)))"
    by (simp add: mset_cat_rows)
  ultimately show ?thesis using mset_eq_imp_distinct_iff by blast
qed

lemma cat_by_id_row:
  assumes "cat_ids_ok b" "c \<in> set (categories b)" "live_cat c"
  shows "cat_by_id b (cpo_ID c) = Some c"
proof (cases "cat_by_id b (cpo_ID c)")
  case None
  with assms show ?thesis by (auto simp: cat_by_id_def find_None_iff)
next
  case (Some d)
  with cat_by_id_Some [OF Some] assms show ?thesis
    by (auto simp: cat_ids_ok_def distinct_map dest: inj_onD)
qed

lemma up_rel_parent:
  assumes "cat_ids_ok b" "(r, p) \<in> up_rel (cat_rows b)"
  shows "(cpo_ID r, cpo_ID p) \<in> parent_rel b"
proof -
  have r: "r \<in> set (categories b)" "live_cat r" "parent_row (cat_rows b) r = Some p"
    using assms(2) by (auto simp: up_rel_def set_cat_rows)
  then have "cpo_ParentID r = Some (cpo_ID p)"
    by (auto simp: parent_row_def split: option.splits if_splits dest: find_Some_mem)
  with cat_by_id_row [OF assms(1) r(1,2)] show ?thesis by (auto simp: parent_rel_def)
qed

lemma acyclic_up_rel:
  assumes "cat_ids_ok b" "cats_acyclic b"
  shows "acyclic (up_rel (cat_rows b))"
proof -
  have "(cpo_ID r, cpo_ID p) \<in> (parent_rel b)\<^sup>+" if "(r, p) \<in> (up_rel (cat_rows b))\<^sup>+" for r p
    using that
  proof (induction rule: trancl_induct)
    case (base y)
    with up_rel_parent [OF assms(1)] show ?case by blast
  next
    case (step y z)
    with up_rel_parent [OF assms(1)] show ?case by (blast intro: trancl_into_trancl)
  qed
  then show ?thesis using assms(2) by (auto simp: acyclic_def cats_acyclic_def)
qed

lemma db_forest_complete:
  assumes "cat_ids_ok b" "cats_acyclic b"
  shows "mset (tree_ids (cat_forest (cat_rows b))) = mset (map cpo_ID (filter live_cat (categories b)))"
  using forest_complete [OF cat_rows_distinct acyclic_up_rel] assms by (simp add: mset_cat_rows)

section \<open>Concrete categories for the witnesses\<close>

definition mk_cat :: "nat \<Rightarrow> string \<Rightarrow> nat option \<Rightarrow> CategoryPO" where
  "mk_cat i n p = \<lparr>cpo_ID = i, cpo_Name = n, cpo_Slug = n, cpo_Desc = [], cpo_ParentID = p, cpo_SortOrder = 0,
     cpo_Count = 0, cpo_CreatedAt = 0, cpo_DeletedAt = None\<rparr>"

definition two_cats :: blog where
  "two_cats = blog0\<lparr>categories := [mk_cat 1 ''a'' None, mk_cat 2 ''b'' None], next_category := 3\<rparr>"

lemma two_cats_ok: "cats_acyclic two_cats" "cat_ids_ok two_cats" "parents_known two_cats"
proof -
  have "parent_rel two_cats = {}"
    by (auto simp: parent_rel_def two_cats_def cat_by_id_def mk_cat_def split: if_splits)
  then show "cats_acyclic two_cats" "parents_known two_cats" by (simp_all add: cats_acyclic_def parents_known_def acyclic_def)
  show "cat_ids_ok two_cats" by (simp add: cat_ids_ok_def two_cats_def mk_cat_def)
qed

lemma two_cats_fresh: "lists_fresh e two_cats"
  unfolding lists_fresh_def by (rule rc.coherent_empty) (simp add: two_cats_def blog0_def held_def)

section \<open>Properties\<close>

text \<open>
  C8. Moving a category under another one never closes a cycle in the hierarchy: if the parent relation
  is acyclic before UpdateCategory, it is acyclic afterwards, whatever the arguments and whichever
  branch is taken, provided no lookup of a category fails during it (a failed lookup ends the walk over the
  ancestors as if a root had been reached). The walk stops at an unknown parent too, which CreateCategory
  can turn into a cycle later (\<^verbatim>\<open>unknown_parent_cycle\<close>).
\<close>
theorem UpdateCategory_acyclic:
  assumes "cats_acyclic b" "\<And>j. \<not> db_fault e [''categories.by_id'', show_nat j]"
  shows "cats_acyclic (snd (UpdateCategory e c i name slug desc parent srt b))"
  using assms by (rule acyclic_UpdateCategory)

theorem UpdateCategory_acyclic_witness:
  "cats_acyclic (snd (UpdateCategory env0 (as_user 1 ''admin'') 2 ''b'' ''b'' [] (Some 1) 0 two_cats))"
  by (rule UpdateCategory_acyclic) (simp_all add: two_cats_ok)

text \<open>
  C9. The category tree is complete: in a state with unique ids, an acyclic parent relation and a cache that
  is empty or holds what the database would answer, a tree that ListCategories answers holds every live
  category exactly once. With a cycle the categories on it are missing (\<^verbatim>\<open>unknown_parent_cycle\<close>).
\<close>
theorem ListCategories_complete:
  assumes "cat_ids_ok b" "cats_acyclic b" "lists_fresh e b" "fst (ListCategories e b) = Inr t"
  shows "mset (tree_ids t) = mset (map cpo_ID (filter live_cat (categories b)))"
proof -
  have "fst (categoryRepo_ListTree e b) = Inr t"
    using assms(4) by (auto simp: ListCategories_def split: sum.splits prod.splits)
  with categoryRepo_ListTree_fresh [OF assms(3)] db_forest_complete [OF assms(1,2)] show ?thesis by simp
qed

theorem ListCategories_complete_witness:
  "\<exists>t. fst (ListCategories env0 two_cats) = Inr t \<and> mset (tree_ids t) = {#1, 2#}"
proof -
  obtain t where t: "fst (ListCategories env0 two_cats) = Inr t"
    by (auto simp: ListCategories_def categoryRepo_ListTree_def rc_get_object_def rc_get_def live_def two_cats_def
        blog0_def Let_def split: prod.split)
  have "map cpo_ID (filter live_cat (categories two_cats)) = [1, 2]"
    by (simp add: two_cats_def mk_cat_def live_cat_def)
  with t ListCategories_complete [OF two_cats_ok(2,1) two_cats_fresh t] show ?thesis by simp
qed

text \<open>
  DeleteCategory refuses to orphan: if it succeeds, the caller is an administrator, the category was
  live with no positive article count, no live category has it as parent, and the hierarchy of the
  others is what it was; if it fails, nothing has changed.
\<close>
theorem DeleteCategory_guarded:
  "(let (r, b') = DeleteCategory e c i b
    in if r = None
       then requireAdmin c = None \<and> (\<exists>po. cat_by_id b i = Some po \<and> cpo_Count po \<le> 0) \<and>
            (\<forall>ch \<in> set (categories b). \<not> (live_cat ch \<and> cpo_ParentID ch = Some i)) \<and>
            parent_rel b' = {(x, y) \<in> parent_rel b. x \<noteq> i}
       else b' = b)"
proof (cases e c i b rule: DeleteCategory_cases)
  case refused
  then show ?thesis by (auto simp: Let_def split: prod.split)
next
  case (deleted po)
  with categoryRepo_Delete_parents(1) [OF deleted(1)] show ?thesis
    by (auto simp: Let_def split: prod.split)
qed

theorem DeleteCategory_guarded_witness:
  "fst (DeleteCategory env0 (as_user 1 ''admin'') 1 two_cats) = None \<and>
   filter (\<lambda>ch. live_cat ch \<and> cpo_ParentID ch = Some 1) (categories two_cats) = []"
proof -
  have "fst (DeleteCategory env0 (as_user 1 ''admin'') 1 two_cats) = None"
    by (simp add: DeleteCategory_def categoryRepo_ListChildren_def categoryRepo_FindByID_def categoryRepo_Delete_def
        cat_by_id_def two_cats_def mk_cat_def live_cat_def catPOToBiz_def Let_def)
  with DeleteCategory_guarded [of env0 "as_user 1 ''admin''" 1 two_cats] show ?thesis
    by (auto simp: Let_def filter_empty_conv split: prod.splits)
qed

lemma walk_up_step:
  "0 < n \<Longrightarrow> walk_up e n self cur b =
    (if cur = self then Some ErrCategoryCircularRef
     else case categoryRepo_FindByID e cur b of
            Inl er \<Rightarrow> None
          | Inr p \<Rightarrow> (case cat_ParentID p of None \<Rightarrow> None | Some q \<Rightarrow> walk_up e (n - 1) self q b))"
  by (cases n) (auto split: sum.split option.split)

lemma trim_short: "trim_space ''a'' = ''a''" "trim_space ''b'' = ''b''"
  by (simp_all add: trim_space_def trim_segs_def is_space_def byte_def)

lemmas concrete_ops = checkCircularRef_def walk_up_step categoryRepo_FindByID_def categoryRepo_Update_def
  categoryRepo_Create_def cat_conflict_def cat_by_id_def mk_cat_def live_cat_def catPOToBiz_def kv_del_def
  rc_delete_def blog0_def Let_def

text \<open>
  UpdateCategory accepts a parent that does not exist, and this breaks the hierarchy later: with one
  category, moving it under the not yet existing id 2 succeeds, then creating a category under the
  first one succeeds with id 2; the two are now each other's parent and the tree shows neither.
\<close>
theorem unknown_parent_cycle:
  "let a = as_user 1 ''admin'';
       b0 = blog0\<lparr>categories := [mk_cat 1 ''a'' None], next_category := 2\<rparr>;
       (r1, b1) = UpdateCategory env0 a 1 ''a'' ''a'' [] (Some 2) 0 b0;
       (r2, b2) = CreateCategory env0 a ''b'' ''b'' [] (Some 1) 0 b1
   in is_ok r1 \<and> is_ok r2 \<and> map cpo_ID (filter live_cat (categories b2)) = [1, 2] \<and>
      parent_rel b2 = {(1, 2), (2, 1)} \<and> fst (ListCategories env0 b2) = Inr []"
proof -
  let ?a = "as_user 1 ''admin''"
  let ?b0 = "blog0\<lparr>categories := [mk_cat 1 ''a'' None], next_category := 2\<rparr>"
  let ?b1 = "blog0\<lparr>categories := [mk_cat 1 ''a'' (Some 2)], next_category := 2\<rparr>"
  let ?b2 = "blog0\<lparr>categories := [mk_cat 1 ''a'' (Some 2), mk_cat 2 ''b'' (Some 1)], next_category := 3\<rparr>"
  have u: "UpdateCategory env0 ?a 1 ''a'' ''a'' [] (Some 2) 0 ?b0 = (Inr (catPOToBiz (mk_cat 1 ''a'' (Some 2))), ?b1)"
    by (simp add: UpdateCategory_def concrete_ops trim_short)
  have c: "CreateCategory env0 ?a ''b'' ''b'' [] (Some 1) 0 ?b1 = (Inr (catPOToBiz (mk_cat 2 ''b'' (Some 1))), ?b2)"
    by (simp add: CreateCategory_def concrete_ops trim_short)
  have p: "parent_rel ?b2 = {(1, 2), (2, 1)}"
    by (auto simp: parent_rel_def concrete_ops split: if_splits)
  have l: "fst (ListCategories env0 ?b2) = Inr []"
    by (simp add: ListCategories_def categoryRepo_ListTree_def rc_get_object_def rc_get_def live_def blog0_def
        cat_forest_def cat_rows_def has_parent_in_def concrete_ops)
  have "map cpo_ID (filter live_cat (categories ?b2)) = [1, 2]" by (simp add: concrete_ops)
  with u c p l show ?thesis by (simp add: Let_def)
qed

end
