(* ===== verification/BlogInv.thy ===== *)
theory BlogInv
  imports Views CatTree
begin

text \<open>
  Invariants of the blog service. The operations of the use cases are sequences of calls of the
  repositories; the locale states what a property must satisfy for every such call, and proves once
  that every operation of the service then keeps it. The invariants of the following theories are
  interpretations.
\<close>

section \<open>The steps of the service\<close>

text \<open>
  One step is one operation of a use case, or a flush of the view counts, in an environment that
  satisfies \<^verbatim>\<open>ok\<close>.
\<close>

inductive blog_step :: "(env \<Rightarrow> bool) \<Rightarrow> blog \<Rightarrow> blog \<Rightarrow> bool" for ok where
  step_CreateTag: "ok e \<Longrightarrow> blog_step ok b (snd (CreateTag e c n b))"
| step_ListTags: "ok e \<Longrightarrow> blog_step ok b (snd (ListTags e b))"
| step_DeleteTag: "ok e \<Longrightarrow> blog_step ok b (snd (DeleteTag e c i b))"
| step_CreateCategory: "ok e \<Longrightarrow> blog_step ok b (snd (CreateCategory e c n s d p so b))"
| step_UpdateCategory: "ok e \<Longrightarrow> blog_step ok b (snd (UpdateCategory e c i n s d p so b))"
| step_DeleteCategory: "ok e \<Longrightarrow> blog_step ok b (snd (DeleteCategory e c i b))"
| step_ListCategories: "ok e \<Longrightarrow> blog_step ok b (snd (ListCategories e b))"
| step_CreateArticle: "ok e \<Longrightarrow> blog_step ok b (snd (CreateArticle e c t x ex cv cat ns b))"
| step_UpdateArticle: "ok e \<Longrightarrow> blog_step ok b (snd (UpdateArticle e c i to xo exo cvo cat nso b))"
| step_DeleteArticle: "ok e \<Longrightarrow> blog_step ok b (snd (DeleteArticle e c i b))"
| step_PublishArticle: "ok e \<Longrightarrow> blog_step ok b (snd (PublishArticle e c i b))"
| step_ArchiveArticle: "ok e \<Longrightarrow> blog_step ok b (snd (ArchiveArticle e c i b))"
| step_GetArticle: "ok e \<Longrightarrow> blog_step ok b (snd (GetArticle e c ident b))"
| step_LikeArticle: "ok e \<Longrightarrow> blog_step ok b (snd (LikeArticle e g c i b))"
| step_UnlikeArticle: "ok e \<Longrightarrow> blog_step ok b (snd (UnlikeArticle e c i b))"
| step_IncrementView: "ok e \<Longrightarrow> blog_step ok b (snd (IncrementView e i b))"
| step_ViewArticle: "ok e \<Longrightarrow> blog_step ok b (snd (ViewArticle e i ip b))"
| step_flush: "ok e \<Longrightarrow> (\<And>ks k. scanned = Inr ks \<Longrightarrow> k \<in> set ks \<Longrightarrow> has_prefix k ViewCountCachePrefix) \<Longrightarrow>
    blog_step ok b (flushViewCounts e scanned b)"

definition blog_reach :: "(env \<Rightarrow> bool) \<Rightarrow> blog \<Rightarrow> blog \<Rightarrow> bool" where
  "blog_reach ok = (blog_step ok)\<^sup>*\<^sup>*"

section \<open>What an invariant must satisfy\<close>

text \<open>Keys of the view counting, which no other component uses.\<close>

definition view_side :: "string \<Rightarrow> bool" where
  "view_side k \<longleftrightarrow> has_prefix k ViewCountCachePrefix \<or> has_prefix k ViewCountDedupPrefix"

lemma view_side_keys [simp]: "view_side (view_key i)" "view_side (dedup_key i ip)"
  by (simp_all add: view_side_def view_key_def dedup_key_def has_prefix_def)

lemma rc_other:
  "k' \<noteq> k \<Longrightarrow> snd (rc_setnx e k v t m) k' = m k'"
  "k' \<noteq> k \<Longrightarrow> snd (rc_incr e k m) k' = m k'"
  "k' \<noteq> k \<Longrightarrow> snd (rc_expire e k t m) k' = m k'"
  "k' \<noteq> k \<Longrightarrow> snd (rc_delete e k m) k' = m k'"
  by (auto simp: rc_setnx_def rc_incr_def rc_expire_def rc_delete_def split: option.split cval.split)

lemma rc_view_side:
  "view_side k \<Longrightarrow> \<not> view_side k' \<Longrightarrow> snd (rc_setnx e k v t m) k' = m k'"
  "view_side k \<Longrightarrow> \<not> view_side k' \<Longrightarrow> snd (rc_incr e k m) k' = m k'"
  "view_side k \<Longrightarrow> \<not> view_side k' \<Longrightarrow> snd (rc_expire e k t m) k' = m k'"
  "view_side k \<Longrightarrow> \<not> view_side k' \<Longrightarrow> snd (rc_delete e k m) k' = m k'"
  by (metis rc_other)+

lemma try_slugs_ne: "try_slugs e s n i b = (Inr x, b1) \<Longrightarrow> s \<noteq> [] \<Longrightarrow> x \<noteq> []"
  by (induction n arbitrary: i b) (auto simp: slug_candidate_def split: sum.splits prod.splits if_splits)

lemma ensureUniqueSlug_ne: "ensureUniqueSlug e s b = (Inr x, b1) \<Longrightarrow> s \<noteq> [] \<Longrightarrow> x \<noteq> []"
  by (simp add: ensureUniqueSlug_def try_slugs_ne)

locale blog_invariant =
  fixes I :: "blog \<Rightarrow> bool"
    and W :: "Article \<Rightarrow> bool"
    and ok :: "env \<Rightarrow> bool"
  assumes W_find: "\<lbrakk>ok e; I b; articleRepo_FindByID e i b = Inr a\<rbrakk> \<Longrightarrow> W a"
    and W_edit: "\<lbrakk>W a; ID a' = ID a; Status a' = Status a; PublishedAt a' = PublishedAt a; AuthorID a' = AuthorID a;
      Slug a' = Slug a \<or> Slug a' \<noteq> []\<rbrakk> \<Longrightarrow> W a'"
    and W_publish: "W a \<Longrightarrow> W (a\<lparr>Status := Published, PublishedAt := Some t\<rparr>)"
    and W_archive: "W a \<Longrightarrow> W (a\<lparr>Status := Archived\<rparr>)"
    and I_create: "\<lbrakk>ok e; I b; Status a = Draft; PublishedAt a = None; Slug a \<noteq> []\<rbrakk> \<Longrightarrow> I (snd (articleRepo_Create e a b))"
    and I_update: "\<lbrakk>ok e; I b; W a\<rbrakk> \<Longrightarrow> I (snd (articleRepo_Update e a b))"
    and I_delete: "\<lbrakk>ok e; I b\<rbrakk> \<Longrightarrow> I (snd (articleRepo_Delete e i b))"
    and I_slug: "\<lbrakk>ok e; I b\<rbrakk> \<Longrightarrow> I (snd (articleRepo_FindBySlug e s b))"
    and I_views: "\<lbrakk>ok e; I b\<rbrakk> \<Longrightarrow> I (update_row (po_ViewCount_update (\<lambda>n. n + d)) i b)"
    and I_tagcount: "\<lbrakk>ok e; I b\<rbrakk> \<Longrightarrow> I (snd (articleRepo_UpdateTagsArticleCount e ids d b))"
    and I_assoc: "\<lbrakk>ok e; I b\<rbrakk> \<Longrightarrow> I (snd (articleRepo_AssociateTags e i ids b))"
    and I_sync: "\<lbrakk>ok e; I b\<rbrakk> \<Longrightarrow> I (snd (articleRepo_SyncTags e i ids b))"
    and I_like: "\<lbrakk>ok e; I b; articleRepo_FindByID e i b = Inr a; 0 < u\<rbrakk> \<Longrightarrow> I (snd (articleRepo_InsertLike e i u b))"
    and I_unlike: "\<lbrakk>ok e; I b\<rbrakk> \<Longrightarrow> I (snd (articleRepo_DeleteLike e i u b))"
    and I_tag_create: "\<lbrakk>ok e; I b\<rbrakk> \<Longrightarrow> I (snd (tagRepo_Create e n s b))"
    and I_tag_find_or_create: "\<lbrakk>ok e; I b\<rbrakk> \<Longrightarrow> I (snd (tagRepo_FindOrCreate e n s b))"
    and I_tag_list: "\<lbrakk>ok e; I b\<rbrakk> \<Longrightarrow> I (snd (tagRepo_List e b))"
    and I_tag_delete: "\<lbrakk>ok e; I b\<rbrakk> \<Longrightarrow> I (snd (tagRepo_Delete e i b))"
    and I_cat_create: "\<lbrakk>ok e; I b\<rbrakk> \<Longrightarrow> I (snd (categoryRepo_Create e n s dsc p so b))"
    and I_cat_update: "\<lbrakk>ok e; I b\<rbrakk> \<Longrightarrow> I (snd (categoryRepo_Update e cat b))"
    and I_cat_delete: "\<lbrakk>ok e; I b\<rbrakk> \<Longrightarrow> I (snd (categoryRepo_Delete e i b))"
    and I_cat_tree: "\<lbrakk>ok e; I b\<rbrakk> \<Longrightarrow> I (snd (categoryRepo_ListTree e b))"
    and I_cat_count: "\<lbrakk>ok e; I b\<rbrakk> \<Longrightarrow> I (snd (categoryRepo_IncrementArticleCount e i d b))"
    and I_offer: "I b \<Longrightarrow> I (offer ev b)"
    and I_view_keys: "\<lbrakk>I b; \<And>k. \<not> view_side k \<Longrightarrow> m k = kv b k\<rbrakk> \<Longrightarrow> I (b\<lparr>kv := m\<rparr>)"
begin

lemma I_fst_snd: "I (snd r) \<Longrightarrow> r = (x, b) \<Longrightarrow> I b"
  by simp

lemma CreateTag_I: "ok e \<Longrightarrow> I b \<Longrightarrow> I (snd (CreateTag e c n b))"
  by (auto simp: CreateTag_def Let_def split: option.split sum.split prod.split dest: I_fst_snd [OF I_tag_create])

lemma ListTags_I: "ok e \<Longrightarrow> I b \<Longrightarrow> I (snd (ListTags e b))"
  by (auto simp: ListTags_def split: sum.split prod.split dest: I_fst_snd [OF I_tag_list])

lemma DeleteTag_I: "ok e \<Longrightarrow> I b \<Longrightarrow> I (snd (DeleteTag e c i b))"
  by (auto simp: DeleteTag_def split: option.split prod.split dest: I_fst_snd [OF I_tag_delete])

lemma CreateCategory_I: "ok e \<Longrightarrow> I b \<Longrightarrow> I (snd (CreateCategory e c n s d p so b))"
  by (cases e c n s d p so b rule: CreateCategory_cases) (auto dest: I_fst_snd [OF I_cat_create])

lemma UpdateCategory_I: "ok e \<Longrightarrow> I b \<Longrightarrow> I (snd (UpdateCategory e c i n s d p so b))"
  by (cases e c i n s d p so b rule: UpdateCategory_cases) (auto dest: I_fst_snd [OF I_cat_update])

lemma DeleteCategory_I: "ok e \<Longrightarrow> I b \<Longrightarrow> I (snd (DeleteCategory e c i b))"
  by (cases e c i b rule: DeleteCategory_cases) (auto dest: I_fst_snd [OF I_cat_delete])

lemma ListCategories_I: "ok e \<Longrightarrow> I b \<Longrightarrow> I (snd (ListCategories e b))"
  by (auto simp: ListCategories_def split: sum.split prod.split dest: I_fst_snd [OF I_cat_tree])

lemma try_slugs_I: "ok e \<Longrightarrow> I b \<Longrightarrow> I (snd (try_slugs e s n i b))"
  by (induction n arbitrary: i b) (auto split: sum.split prod.split dest: I_fst_snd [OF I_slug])

lemma ensureUniqueSlug_I: "ok e \<Longrightarrow> I b \<Longrightarrow> I (snd (ensureUniqueSlug e s b))"
  by (simp add: ensureUniqueSlug_def try_slugs_I)

lemma resolveTags_I: "ok e \<Longrightarrow> I b \<Longrightarrow> I (snd (resolveTags e ns b))"
proof (induction ns arbitrary: b)
  case (Cons n ns)
  then have "I b1" if "tagRepo_FindOrCreate e x y b = (r, b1)" for x y r b1
    using that I_fst_snd [OF I_tag_find_or_create] by blast
  with Cons show ?case
    by (fastforce simp: Let_def split: sum.split prod.split dest: I_fst_snd [OF Cons.IH])
qed simp

lemma adjust_counts_I: "ok e \<Longrightarrow> I b \<Longrightarrow> I (adjust_counts e adjs b)"
  unfolding adjust_counts_def by (induction adjs arbitrary: b) (auto simp: I_cat_count)

lemma move_counts_I: "ok e \<Longrightarrow> I b \<Longrightarrow> I (move_counts e a d b)"
  by (auto simp: move_counts_def Let_def I_cat_count I_tagcount split: option.split)

lemma title_slug_ne: "ensureUniqueSlug e (generateSlug t) b = (Inr s, b1) \<Longrightarrow> s \<noteq> []"
  using slug_generateSlug [of t] ensureUniqueSlug_ne by (fastforce simp: slug_ok_def)

lemma authorize_W: "ok e \<Longrightarrow> I b \<Longrightarrow> authorizeArticle e c i b = Inr a \<Longrightarrow> W a"
  by (auto simp: authorizeArticle_def split: sum.splits if_splits intro: W_find)

lemmas vcI = vc_pair [where P = I] vc_prod [where P = I] vc_sum [where P = I] vc_option [where P = I]
  vc_if [where P = I] vc_let [where P = I]

lemma CreateArticle_I: "ok e \<Longrightarrow> I b \<Longrightarrow> I (snd (CreateArticle e c t x ex cv cat ns b))"
  unfolding CreateArticle_def
  by (rule vcI ensureUniqueSlug_I resolveTags_I I_create I_assoc | assumption | simp add: new_article_def title_slug_ne)+

lemma retitle_I: "ok e \<Longrightarrow> I b \<Longrightarrow> I (snd (retitle e t a b))"
  unfolding retitle_def by (rule vcI ensureUniqueSlug_I | assumption)+

lemma retitle_W: "W a \<Longrightarrow> retitle e t a b = (Inr a1, b1) \<Longrightarrow> W a1"
  using W_edit [of a a1] by (auto simp: retitle_def dest: title_slug_ne split: option.splits prod.splits sum.splits)

lemma edit_W: "W a \<Longrightarrow> W (edit_category cat (edit_fields x y z a))"
  by (erule W_edit) (auto simp: edit_category_def edit_fields_def set_opt_def split: option.split)

lemma replace_tags_I: "ok e \<Longrightarrow> I b \<Longrightarrow> I (snd (replace_tags e i ns b))"
  unfolding replace_tags_def by (rule vcI resolveTags_I I_sync | assumption)+

lemma UpdateArticle_I:
  assumes "ok e" "I b"
  shows "I (snd (UpdateArticle e c i to xo exo cvo cat nso b))"
proof (cases "authorizeArticle e c i b")
  case (Inl er)
  with assms show ?thesis by (simp add: UpdateArticle_def)
next
  case (Inr a0)
  have W0: "W a0" using authorize_W [OF assms Inr] .
  show ?thesis
    unfolding UpdateArticle_def Inr sum.case
    apply (rule vcI retitle_I adjust_counts_I replace_tags_I I_sync I_offer I_update assms | assumption)+
     apply (simp only: edit_W [OF retitle_W [OF W0]])
    apply (rule vcI retitle_I adjust_counts_I replace_tags_I I_sync I_offer I_update assms | assumption)+
    done
qed

lemma DeleteArticle_I: "ok e \<Longrightarrow> I b \<Longrightarrow> I (snd (DeleteArticle e c i b))"
  unfolding DeleteArticle_def
  by (rule vcI I_delete I_offer | assumption | simp add: move_counts_I)+

lemma PublishArticle_I:
  assumes "ok e" "I b"
  shows "I (snd (PublishArticle e c i b))"
proof (cases "authorizeArticle e c i b")
  case (Inr a0)
  have W0: "W a0" using authorize_W [OF assms Inr] .
  show ?thesis
    unfolding PublishArticle_def Inr sum.case
    by (rule vcI I_update I_offer move_counts_I assms | assumption | simp only: W_publish [OF W0])+
qed (use assms in \<open>simp add: PublishArticle_def\<close>)

lemma ArchiveArticle_I:
  assumes "ok e" "I b"
  shows "I (snd (ArchiveArticle e c i b))"
proof (cases "authorizeArticle e c i b")
  case (Inr a0)
  have W0: "W a0" using authorize_W [OF assms Inr] .
  show ?thesis
    unfolding ArchiveArticle_def Inr sum.case
    by (rule vcI I_update I_offer assms | assumption | simp only: W_archive [OF W0] | simp add: move_counts_I assms)+
qed (use assms in \<open>simp add: ArchiveArticle_def\<close>)

lemma GetArticle_I: "ok e \<Longrightarrow> I b \<Longrightarrow> I (snd (GetArticle e c s b))"
  unfolding GetArticle_def Let_def
  by (rule vcI I_slug | assumption)+

lemma LikeArticle_I: "ok e \<Longrightarrow> I b \<Longrightarrow> I (snd (LikeArticle e g c i b))"
  unfolding LikeArticle_def
  by (rule vcI I_like I_offer | assumption | erule getCurrentUserID_pos)+

lemma UnlikeArticle_I: "ok e \<Longrightarrow> I b \<Longrightarrow> I (snd (UnlikeArticle e c i b))"
  unfolding UnlikeArticle_def
  by (rule vcI I_unlike | assumption)+

lemma IncrementView_I: "ok e \<Longrightarrow> I b \<Longrightarrow> I (snd (IncrementView e i b))"
  unfolding IncrementView_def articleRepo_IncrementViewCount_def
  by (rule vcI I_views I_offer | assumption)+

lemma view_fallback_I: "ok e \<Longrightarrow> I b \<Longrightarrow> I (snd (view_fallback e i b))"
  unfolding view_fallback_def by (rule vcI IncrementView_I | assumption)+

lemma I_view_del: "I b \<Longrightarrow> view_side k \<Longrightarrow> I (kv_del e k b)"
  unfolding kv_del_def by (rule I_view_keys) (simp_all add: rc_view_side)

lemma ViewArticle_I:
  assumes "ok e" "I b"
  shows "I (snd (ViewArticle e i ip b))"
proof -
  have 1: "I (b\<lparr>kv := snd (rc_setnx e (dedup_key i ip) v t (kv b))\<rparr>)" for v t
    by (rule I_view_keys [OF assms(2)]) (simp add: rc_view_side)
  have 2: "I (b\<lparr>kv := snd (rc_incr e (view_key i) (snd (rc_setnx e (dedup_key i ip) v t (kv b))))\<rparr>)" for v t
    by (rule I_view_keys [OF assms(2)]) (simp add: rc_view_side)
  have 3: "I (b\<lparr>kv := snd (rc_expire e (view_key i) t' (snd (rc_incr e (view_key i) (snd (rc_setnx e (dedup_key i ip) v t (kv b))))))\<rparr>)" for v t t'
    by (rule I_view_keys [OF assms(2)]) (simp add: rc_view_side)
  show ?thesis
    using 1 [of "Raw ''1''" ViewDedupWindow] 2 [of "Raw ''1''" ViewDedupWindow] 3 [of ViewCountTTL "Raw ''1''" ViewDedupWindow] assms
    by (auto simp: ViewArticle_def I_offer view_fallback_I split: prod.split sum.split)
qed

lemma add_views_I: "ok e \<Longrightarrow> I b \<Longrightarrow> I (add_views counts b)"
  unfolding add_views_def by (induction counts arbitrary: b) (auto simp: I_views)

lemma flush_delete_I: "I b \<Longrightarrow> (\<And>k. k \<in> set ks \<Longrightarrow> view_side k) \<Longrightarrow> I (flush_delete e ks b)"
  unfolding flush_delete_def by (induction ks arbitrary: b) (auto simp: I_view_del)

lemma flush_I:
  assumes "ok e" "I b" "\<And>ks k. scanned = Inr ks \<Longrightarrow> k \<in> set ks \<Longrightarrow> has_prefix k ViewCountCachePrefix"
  shows "I (flushViewCounts e scanned b)"
proof (cases scanned)
  case (Inr ks)
  then have "\<And>k. k \<in> set ks \<Longrightarrow> view_side k" using assms(3) by (simp add: view_side_def)
  moreover have "I (snd (flush_tx e counts b))" for counts
    using assms by (auto simp: flush_tx_def add_views_I)
  ultimately show ?thesis
    using Inr assms(2) by (fastforce simp: flushViewCounts_def Let_def split: sum.split prod.split option.split
        intro!: flush_delete_I dest: I_fst_snd)
qed (use assms in \<open>simp add: flushViewCounts_def\<close>)

lemma step_I: "blog_step ok b b' \<Longrightarrow> I b \<Longrightarrow> I b'"
  by (induction rule: blog_step.induct)
    (simp_all only: CreateTag_I ListTags_I DeleteTag_I CreateCategory_I UpdateCategory_I DeleteCategory_I
      ListCategories_I CreateArticle_I UpdateArticle_I DeleteArticle_I PublishArticle_I ArchiveArticle_I
      GetArticle_I LikeArticle_I UnlikeArticle_I IncrementView_I ViewArticle_I flush_I)

lemma reach_I: "blog_reach ok b b' \<Longrightarrow> I b \<Longrightarrow> I b'"
  unfolding blog_reach_def by (induction rule: rtranclp_induct) (auto dest: step_I)

end

end
