(* ===== verification/FreshInv.thy ===== *)
theory FreshInv
  imports BlogInv
begin

text \<open>
  The first invariant of the blog service: the cached tag list and category tree are never stale, as
  long as Redis does not fail to delete one of the two keys.
\<close>

section \<open>Repository calls\<close>

lemma slug_key_other [simp]: "keyArticleSlug s \<notin> list_keys" "cacheKeyTagAll \<noteq> keyArticleSlug s"
  "cacheKeyCatTree \<noteq> keyArticleSlug s" "keyArticleSlug s \<noteq> cacheKeyTagAll" "keyArticleSlug s \<noteq> cacheKeyCatTree"
  by (auto simp: list_keys_def keyArticleSlug_def cacheKeyTagAll_def cacheKeyCatTree_def)

lemma list_keys_not_view: "\<not> view_side cacheKeyTagAll" "\<not> view_side cacheKeyCatTree"
  by (simp_all add: view_side_def has_prefix_def ViewCountCachePrefix_def ViewCountDedupPrefix_def
      cacheKeyTagAll_def cacheKeyCatTree_def)

lemma fresh_invalidate: "lists_fresh e b \<Longrightarrow> lists_fresh e (invalidateCache e' s b)"
proof -
  assume f: "lists_fresh e b"
  let ?e = "e'\<lparr>collate := collate e\<rparr>"
  have "lists_fresh ?e (kv_del ?e (keyArticleSlug s) b)"
    by (rule fresh_kv_del) (use f lists_fresh_env [of ?e e] in simp)
  moreover have "kv_del ?e (keyArticleSlug s) b = kv_del e' (keyArticleSlug s) b"
    by (simp add: kv_del_def rc_delete_def)
  ultimately show ?thesis using f lists_fresh_env [of ?e e] by (simp add: invalidateCache_def)
qed

lemma fresh_update_row: "lists_fresh e b \<Longrightarrow> lists_fresh e (update_row f i b)"
  by (erule fresh_frame) (simp_all add: update_row_def)

lemma fresh_article_Update: "lists_fresh e b \<Longrightarrow> lists_fresh e (snd (articleRepo_Update e a b))"
  by (auto simp: articleRepo_Update_def Let_def intro!: fresh_invalidate fresh_kv_del fresh_update_row)

lemma fresh_article_Delete: "lists_fresh e b \<Longrightarrow> lists_fresh e (snd (articleRepo_Delete e i b))"
  by (auto simp: articleRepo_Delete_def intro!: fresh_invalidate fresh_update_row split: option.split)

lemma fresh_article_Create: "lists_fresh e b \<Longrightarrow> lists_fresh e (snd (articleRepo_Create e a b))"
  by (auto simp: articleRepo_Create_def Let_def intro: fresh_frame split: option.split)

lemma fresh_find_slug_db: "lists_fresh e b \<Longrightarrow> lists_fresh e (snd (find_slug_db e s b))"
  by (auto simp: find_slug_db_def intro!: fresh_kv_set_other fresh_kv_del split: option.split)

lemma fresh_FindBySlug: "lists_fresh e b \<Longrightarrow> lists_fresh e (snd (articleRepo_FindBySlug e s b))"
  by (auto simp: articleRepo_FindBySlug_def fresh_find_slug_db split: sum.split)

lemma fresh_AssociateTags: "lists_fresh e b \<Longrightarrow> lists_fresh e (snd (articleRepo_AssociateTags e i ids b))"
  by (auto simp: articleRepo_AssociateTags_def intro: fresh_frame)

lemma fresh_SyncTags: "lists_fresh e b \<Longrightarrow> lists_fresh e (snd (articleRepo_SyncTags e i ids b))"
  by (auto simp: articleRepo_SyncTags_def Let_def intro: fresh_frame)

lemma fresh_InsertLike: "lists_fresh e b \<Longrightarrow> lists_fresh e (snd (articleRepo_InsertLike e i u b))"
  by (auto simp: articleRepo_InsertLike_def intro!: fresh_update_row intro: fresh_frame)

lemma fresh_DeleteLike: "lists_fresh e b \<Longrightarrow> lists_fresh e (snd (articleRepo_DeleteLike e i u b))"
  by (auto simp: articleRepo_DeleteLike_def Let_def intro!: fresh_update_row intro: fresh_frame)

lemma fresh_UpdateTagsArticleCount:
  "lists_fresh e b \<Longrightarrow> \<not> kv_fault e [''del'', cacheKeyTagAll] \<Longrightarrow> lists_fresh e (snd (articleRepo_UpdateTagsArticleCount e ids d b))"
  by (auto simp: articleRepo_UpdateTagsArticleCount_def Let_def intro!: fresh_tags_changed)

lemma fresh_view_keys:
  "lists_fresh e b \<Longrightarrow> (\<And>k. \<not> view_side k \<Longrightarrow> m k = kv b k) \<Longrightarrow> lists_fresh e (b\<lparr>kv := m\<rparr>)"
  using list_keys_not_view by (auto simp: lists_fresh_def rc.coherent_def list_keys_def held_def)

lemmas fresh_calls = fresh_article_Create fresh_article_Update fresh_article_Delete fresh_FindBySlug
  fresh_update_row fresh_UpdateTagsArticleCount fresh_AssociateTags fresh_SyncTags fresh_InsertLike fresh_DeleteLike
  fresh_tagRepo_Create fresh_tagRepo_FindOrCreate fresh_tagRepo_List fresh_tagRepo_Delete
  fresh_categoryRepo_Create fresh_categoryRepo_Update fresh_categoryRepo_Delete fresh_categoryRepo_ListTree
  fresh_categoryRepo_IncrementArticleCount

section \<open>The invariant\<close>

definition dels_ok :: "env \<Rightarrow> env \<Rightarrow> bool" where
  "dels_ok e0 e \<longleftrightarrow> collate e = collate e0 \<and> \<not> kv_fault e [''del'', cacheKeyTagAll] \<and>
     \<not> kv_fault e [''del'', cacheKeyCatTree]"

lemma fresh_shift:
  "dels_ok e0 e \<Longrightarrow> lists_fresh e0 b \<Longrightarrow> (lists_fresh e b \<Longrightarrow> lists_fresh e b') \<Longrightarrow> lists_fresh e0 b'"
  using lists_fresh_env [of e e0] by (simp add: dels_ok_def)

interpretation fresh: blog_invariant "lists_fresh e0" "\<lambda>_. True" "dels_ok e0" for e0
proof unfold_locales
  fix b ev assume "lists_fresh e0 b"
  then show "lists_fresh e0 (offer ev b)" by (rule fresh_frame) (simp_all add: offer_def)
next
  fix b m assume "lists_fresh e0 b" "\<And>k. \<not> view_side k \<Longrightarrow> m k = kv b k"
  then show "lists_fresh e0 (b\<lparr>kv := m\<rparr>)" by (rule fresh_view_keys)
qed ((rule fresh_shift, assumption, assumption, (rule fresh_calls; simp add: dels_ok_def)) | simp)+

text \<open>
  C4. The tag list and the category tree that the service answers are never stale: after any sequence of
  operations of the service (by any users, with any failures of the database and of Redis except
  failures to delete one of the two keys), starting from a state whose caches are fresh, a list of
  tags or a category tree that is answered is the one the tables hold.
\<close>
theorem lists_never_stale:
  assumes "lists_fresh e b0" "blog_reach (dels_ok e) b0 b"
  shows "(\<forall>ts. fst (ListTags e b) = Inr ts \<longrightarrow> ts = db_tag_list e b) \<and>
         (\<forall>t. fst (ListCategories e b) = Inr t \<longrightarrow> t = cat_forest (cat_rows b))"
proof -
  have f: "lists_fresh e b" using fresh.reach_I [OF assms(2,1)] .
  have "fst (tagRepo_List e b) = Inr ts" if "fst (ListTags e b) = Inr ts" for ts
    using that by (auto simp: ListTags_def split: sum.splits prod.splits)
  moreover have "fst (categoryRepo_ListTree e b) = Inr t" if "fst (ListCategories e b) = Inr t" for t
    using that by (auto simp: ListCategories_def split: sum.splits prod.splits)
  ultimately show ?thesis
    using tagRepo_List_fresh [OF f] categoryRepo_ListTree_fresh [OF f] by blast
qed

theorem lists_never_stale_witness:
  "let b = snd (DeleteTag env0 (as_user 1 ''admin'') 5 (snd (ListTags env0 blog0)))
   in fst (ListTags env0 b) = Inr (db_tag_list env0 b)"
proof -
  let ?b = "snd (DeleteTag env0 (as_user 1 ''admin'') 5 (snd (ListTags env0 blog0)))"
  have ok: "dels_ok env0 env0" by (simp add: dels_ok_def)
  have "blog_step (dels_ok env0) blog0 (snd (ListTags env0 blog0))" by (rule step_ListTags) (rule ok)
  moreover have "blog_step (dels_ok env0) (snd (ListTags env0 blog0)) ?b" by (rule step_DeleteTag) (rule ok)
  ultimately have "blog_reach (dels_ok env0) blog0 ?b"
    unfolding blog_reach_def by (meson r_into_rtranclp rtranclp_trans)
  moreover have "lists_fresh env0 blog0"
    unfolding lists_fresh_def by (rule rc.coherent_empty) (simp add: blog0_def held_def)
  moreover obtain ts where "fst (ListTags env0 ?b) = Inr ts"
    by (cases "fst (ListTags env0 ?b)")
      (auto simp: ListTags_def tagRepo_List_def Let_def split: sum.splits prod.splits)
  ultimately show ?thesis using lists_never_stale [of env0 blog0 ?b] by (simp add: Let_def)
qed

end
