(* ===== verification/ArticleInv.thy ===== *)
theory ArticleInv
  imports FreshInv
begin

text \<open>
  Invariants of the article tables: unique ids and slugs, the like counters, publication times, authors
  and drafts, and the positive entries of the slug cache.
\<close>

section \<open>Calls that leave the article tables alone\<close>

text \<open>What the invariants of this theory look at.\<close>

definition core :: "blog \<Rightarrow> ArticlePO list \<times> nat \<times> ArticleLikePO list" where
  "core b = (articles b, next_article b, articles_likes b)"

lemma core_kv [simp]: "core (kv_del e k b) = core b" "core (kv_set e k v t b) = core b" "core (b\<lparr>kv := m\<rparr>) = core b"
  "core (invalidateCache e s b) = core b" "core (offer ev b) = core b"
  by (simp_all add: core_def kv_del_def kv_set_def invalidateCache_def offer_def)

lemma core_find_slug_db [simp]: "core (snd (find_slug_db e s b)) = core b"
  by (simp add: find_slug_db_def split: option.split)

lemma core_FindBySlug [simp]: "core (snd (articleRepo_FindBySlug e s b)) = core b"
  by (simp add: articleRepo_FindBySlug_def split: sum.split)

lemma core_tag_calls [simp]:
  "core (snd (tagRepo_Create e n s b)) = core b" "core (snd (tagRepo_FindOrCreate e n s b)) = core b"
  "core (snd (tagRepo_List e b)) = core b" "core (snd (tagRepo_Delete e i b)) = core b"
  by (simp_all add: tagRepo_Create_def tagRepo_FindOrCreate_def tagRepo_List_def tagRepo_Delete_def insert_tag_def
      Let_def core_def split: sum.split option.split)

lemma core_cat_calls [simp]:
  "core (snd (categoryRepo_Create e n s d p so b)) = core b" "core (snd (categoryRepo_Update e cat b)) = core b"
  "core (snd (categoryRepo_Delete e i b)) = core b" "core (snd (categoryRepo_ListTree e b)) = core b"
  "core (snd (categoryRepo_IncrementArticleCount e i dl b)) = core b"
  by (simp_all add: categoryRepo_Create_def categoryRepo_Update_def categoryRepo_Delete_def categoryRepo_ListTree_def
      categoryRepo_IncrementArticleCount_def Let_def core_def split: sum.split)

lemma core_join_calls [simp]:
  "core (snd (articleRepo_UpdateTagsArticleCount e ids d b)) = core b"
  "core (snd (articleRepo_AssociateTags e i ids b)) = core b" "core (snd (articleRepo_SyncTags e i ids b)) = core b"
  by (simp_all add: articleRepo_UpdateTagsArticleCount_def articleRepo_AssociateTags_def articleRepo_SyncTags_def
      Let_def core_def)

section \<open>Unique ids and slugs\<close>

definition arts_ok :: "blog \<Rightarrow> bool" where
  "arts_ok b \<longleftrightarrow>
     distinct (map po_ID (articles b)) \<and>
     (\<forall>po\<in>set (articles b). 0 < po_ID po \<and> po_ID po < next_article b \<and> po_Slug po \<noteq> []) \<and>
     inj_on po_Slug {po \<in> set (articles b). po_DeletedAt po = None} \<and>
     0 < next_article b"

lemma arts_ok_frame: "arts_ok b \<Longrightarrow> core b' = core b \<Longrightarrow> arts_ok b'"
  by (simp add: core_def arts_ok_def)

lemma row_by_id_Some: "row_by_id b i = Some po \<Longrightarrow> po \<in> set (articles b) \<and> po_DeletedAt po = None \<and> po_ID po = i"
  by (auto simp: row_by_id_def live_article_def dest: find_Some_mem)

lemma row_by_slug_Some: "row_by_slug b s = Some po \<Longrightarrow> po \<in> set (articles b) \<and> po_DeletedAt po = None \<and> po_Slug po = s"
  by (auto simp: row_by_slug_def slug_article_def dest: find_Some_mem)

lemma row_by_id_of:
  assumes "arts_ok b" "po \<in> set (articles b)" "po_DeletedAt po = None"
  shows "row_by_id b (po_ID po) = Some po"
proof (cases "row_by_id b (po_ID po)")
  case None
  with assms show ?thesis by (auto simp: row_by_id_def live_article_def find_None_iff)
next
  case (Some q)
  then have "q = po"
    using row_by_id_Some [OF Some] assms distinct_key [of po_ID "articles b" q po] by (simp add: arts_ok_def)
  with Some show ?thesis by simp
qed

lemma row_by_id_core: "core b' = core b \<Longrightarrow> row_by_id b' i = row_by_id b i"
  by (simp add: core_def row_by_id_def)

lemma update_row_simps [simp]:
  "next_article (update_row f i b) = next_article b" "articles_likes (update_row f i b) = articles_likes b"
  "kv (update_row f i b) = kv b" "tags (update_row f i b) = tags b" "categories (update_row f i b) = categories b"
  "articles (update_row f i b) = map (\<lambda>po. if live_article i po then f po else po) (articles b)"
  by (simp_all add: update_row_def)

lemma row_by_id_update:
  assumes "\<And>po. po_DeletedAt (f po) = po_DeletedAt po" "\<And>po. po_ID (f po) = po_ID po"
  shows "row_by_id (update_row f i b) j = (if j = i then map_option f (row_by_id b i) else row_by_id b j)"
proof -
  have L: "live_article j (f po) = live_article j po" "live_article i po \<Longrightarrow> live_article j po \<longleftrightarrow> j = i" for po
    by (auto simp: live_article_def assms)
  have "List.find (live_article j) (map (\<lambda>po. if live_article i po then f po else po) xs) =
      (if j = i then map_option f (List.find (live_article i) xs) else List.find (live_article j) xs)" for xs
    by (induction xs) (use L in auto)
  then show ?thesis by (simp add: row_by_id_def)
qed

lemma row_by_id_delete:
  "row_by_id (update_row (po_DeletedAt_update (\<lambda>_. Some t)) i b) j = (if j = i then None else row_by_id b j)"
proof -
  have L: "\<not> live_article j (po\<lparr>po_DeletedAt := Some t\<rparr>)" "live_article i po \<Longrightarrow> live_article j po \<longleftrightarrow> j = i" for po
    by (auto simp: live_article_def)
  have "List.find (live_article j) (map (\<lambda>po. if live_article i po then po\<lparr>po_DeletedAt := Some t\<rparr> else po) xs) =
      (if j = i then None else List.find (live_article j) xs)" for xs
    by (induction xs) (use L in auto)
  then show ?thesis by (simp add: row_by_id_def)
qed

lemma map_ID_update: "(\<And>po. po_ID (f po) = po_ID po) \<Longrightarrow>
    map po_ID (map (\<lambda>po. if live_article i po then f po else po) xs) = map po_ID xs"
  by (induction xs) auto

lemma inj_slug_update:
  assumes "inj_on po_Slug {po \<in> set xs. po_DeletedAt po = None}"
    and "\<And>p. p \<in> set xs \<Longrightarrow> po_DeletedAt (g p) = None \<Longrightarrow> po_DeletedAt p = None"
    and "\<And>p q. \<lbrakk>p \<in> set xs; q \<in> set xs; po_DeletedAt p = None; po_DeletedAt q = None; po_Slug (g p) = po_Slug (g q)\<rbrakk> \<Longrightarrow> p = q"
  shows "inj_on po_Slug {po \<in> set (map g xs). po_DeletedAt po = None}"
proof (rule inj_onI)
  fix x y assume x: "x \<in> {po \<in> set (map g xs). po_DeletedAt po = None}"
    and y: "y \<in> {po \<in> set (map g xs). po_DeletedAt po = None}" and eq: "po_Slug x = po_Slug y"
  from x obtain p where p: "p \<in> set xs" "x = g p" "po_DeletedAt (g p) = None" by auto
  from y obtain q where q: "q \<in> set xs" "y = g q" "po_DeletedAt (g q) = None" by auto
  have "p = q" using assms(2) [OF p(1,3)] assms(2) [OF q(1,3)] assms(3) [OF p(1) q(1)] eq p(2) q(2) by simp
  with p q show "x = y" by simp
qed

lemma arts_ok_update_same:
  assumes "arts_ok b" "\<And>po. po_ID (f po) = po_ID po" "\<And>po. po_Slug (f po) = po_Slug po"
    "\<And>po. po_DeletedAt (f po) = None \<Longrightarrow> po_DeletedAt po = None"
  shows "arts_ok (update_row f i b)"
proof -
  have "inj_on po_Slug {po \<in> set (map (\<lambda>po. if live_article i po then f po else po) (articles b)). po_DeletedAt po = None}"
  proof (rule inj_slug_update)
    show inj: "inj_on po_Slug {po \<in> set (articles b). po_DeletedAt po = None}" using assms(1) by (simp add: arts_ok_def)
    fix p q assume "p \<in> set (articles b)" "q \<in> set (articles b)" "po_DeletedAt p = None" "po_DeletedAt q = None"
      "po_Slug (if live_article i p then f p else p) = po_Slug (if live_article i q then f q else q)"
    then show "p = q" using inj_onD [OF inj, of p q] assms(3) by (auto split: if_splits)
  qed (use assms(4) in \<open>auto split: if_splits\<close>)
  moreover have "map po_ID (map (\<lambda>po. if live_article i po then f po else po) (articles b)) = map po_ID (articles b)"
    by (rule map_ID_update) (rule assms(2))
  moreover have "\<forall>po\<in>set (map (\<lambda>po. if live_article i po then f po else po) (articles b)).
      0 < po_ID po \<and> po_ID po < next_article b \<and> po_Slug po \<noteq> []"
    using assms(1-3) by (auto simp: arts_ok_def)
  ultimately show ?thesis using assms(1) unfolding arts_ok_def update_row_simps by (simp only: simp_thms)
qed

lemma live_unique:
  assumes "arts_ok b" "p \<in> set (articles b)" "q \<in> set (articles b)" "po_ID p = po_ID q"
  shows "p = q"
  using assms distinct_key [of po_ID "articles b"] by (simp add: arts_ok_def)

lemma arts_ok_write:
  assumes "arts_ok b" "Slug a \<noteq> []" "\<And>po. po \<in> set (articles b) \<Longrightarrow> slug_article (Slug a) po \<Longrightarrow> po_ID po = ID a"
  shows "arts_ok (update_row (write_article e a) (ID a) b)"
proof -
  let ?g = "\<lambda>po. if live_article (ID a) po then write_article e a po else po"
  have f: "po_ID (write_article e a po) = po_ID po" "po_DeletedAt (write_article e a po) = po_DeletedAt po"
    "po_Slug (write_article e a po) = Slug a" for po
    by (simp_all add: write_article_def)
  have "inj_on po_Slug {po \<in> set (map ?g (articles b)). po_DeletedAt po = None}"
  proof (rule inj_slug_update)
    show inj: "inj_on po_Slug {po \<in> set (articles b). po_DeletedAt po = None}" using assms(1) by (simp add: arts_ok_def)
    fix p q assume pq: "p \<in> set (articles b)" "q \<in> set (articles b)" "po_DeletedAt p = None" "po_DeletedAt q = None"
      "po_Slug (?g p) = po_Slug (?g q)"
    have 1: "po_ID x = ID a" if "x \<in> set (articles b)" "po_DeletedAt x = None" "po_Slug x = Slug a" for x
      using assms(3) that by (simp add: slug_article_def)
    have 2: "po_ID p = ID a \<longleftrightarrow> live_article (ID a) p" "po_ID q = ID a \<longleftrightarrow> live_article (ID a) q"
      using pq(3,4) by (auto simp: live_article_def)
    show "p = q"
    proof (cases "live_article (ID a) p \<or> live_article (ID a) q")
      case True
      then have "po_ID p = ID a" "po_ID q = ID a" using pq 1 2 f(3) by (auto split: if_splits)
      then show ?thesis using live_unique [OF assms(1) pq(1,2)] by simp
    next
      case False
      with pq inj_onD [OF inj, of p q] show ?thesis by simp
    qed
  qed (simp add: f split: if_splits)
  moreover have "map po_ID (map ?g (articles b)) = map po_ID (articles b)" by (rule map_ID_update) (rule f)
  moreover have "\<forall>po\<in>set (map ?g (articles b)). 0 < po_ID po \<and> po_ID po < next_article b \<and> po_Slug po \<noteq> []"
    using assms(1,2) f by (auto simp: arts_ok_def)
  ultimately show ?thesis using assms(1) unfolding arts_ok_def update_row_simps by (simp only: simp_thms)
qed

lemma slug_taken_iff: "slug_taken b s \<longleftrightarrow> (\<exists>po\<in>set (articles b). slug_article s po)"
  by (auto simp: slug_taken_def row_by_slug_def find_Some_iff find_None_iff)

lemma article_Update_ok:
  assumes "articleRepo_Update e a b = (None, b')"
  shows "core b' = core (update_row (write_article e a) (ID a) b)" "row_by_id b (ID a) \<noteq> None"
    "\<And>po. po \<in> set (articles b) \<Longrightarrow> slug_article (Slug a) po \<Longrightarrow> po_ID po = ID a"
  using assms by (auto simp: articleRepo_Update_def Let_def split: if_splits)

lemma article_Update_fail: "articleRepo_Update e a b = (Some er, b') \<Longrightarrow> b' = b"
  by (auto simp: articleRepo_Update_def Let_def split: if_splits)

lemma article_Delete_cases:
  obtains (failed) er where "articleRepo_Delete e i b = (Some er, b)"
  | (deleted) b' where "articleRepo_Delete e i b = (None, b')"
      "core b' = core (update_row (po_DeletedAt_update (\<lambda>_. Some (e_now e))) i b)" "row_by_id b i \<noteq> None"
proof (cases "fst (articleRepo_Delete e i b)")
  case None
  then show thesis
    by (intro deleted [of "snd (articleRepo_Delete e i b)"])
      (auto simp: articleRepo_Delete_def prod_eq_iff split: option.splits if_splits)
next
  case (Some er)
  then show thesis
    by (intro failed [of er]) (auto simp: articleRepo_Delete_def prod_eq_iff split: option.splits if_splits)
qed

lemma article_Create_cases:
  obtains (failed) er where "articleRepo_Create e a b = (Inl er, b)"
  | (created) a' where "articleRepo_Create e a b =
        (Inr a', b\<lparr>articles := articles b @ [toArticlePO (next_article b) (e_now e) a], next_article := next_article b + 1\<rparr>)"
      "\<not> slug_taken b (Slug a)" "a' = a\<lparr>ID := next_article b, CreatedAt := e_now e, UpdatedAt := e_now e\<rparr>"
  by (cases "db_fault e [''articles.insert'']"; cases "slug_taken b (Slug a)")
    (auto simp: articleRepo_Create_def Let_def toArticlePO_def)

lemma toArticlePO_simps [simp]:
  "po_ID (toArticlePO i t a) = i" "po_Slug (toArticlePO i t a) = Slug a" "po_DeletedAt (toArticlePO i t a) = None"
  "po_Status (toArticlePO i t a) = Status a" "po_AuthorID (toArticlePO i t a) = AuthorID a"
  "po_PublishedAt (toArticlePO i t a) = PublishedAt a" "po_LikeCount (toArticlePO i t a) = 0"
  "po_ViewCount (toArticlePO i t a) = 0" "po_CategoryID (toArticlePO i t a) = CategoryID a"
  by (simp_all add: toArticlePO_def)

lemma arts_ok_append:
  assumes "arts_ok b" "po_ID po = next_article b" "po_Slug po \<noteq> []" "\<not> slug_taken b (po_Slug po)"
  shows "arts_ok (b\<lparr>articles := articles b @ [po], next_article := next_article b + 1\<rparr>)"
proof -
  have free: "\<And>q. q \<in> set (articles b) \<Longrightarrow> po_DeletedAt q = None \<Longrightarrow> po_Slug q \<noteq> po_Slug po"
    using assms(4) by (auto simp: slug_taken_iff slug_article_def)
  have inj: "inj_on po_Slug {q \<in> set (articles b). po_DeletedAt q = None}" using assms(1) by (simp add: arts_ok_def)
  have "inj_on po_Slug {q \<in> set (articles b @ [po]). po_DeletedAt q = None}"
  proof (rule inj_onI)
    fix x y assume "x \<in> {q \<in> set (articles b @ [po]). po_DeletedAt q = None}"
      "y \<in> {q \<in> set (articles b @ [po]). po_DeletedAt q = None}" "po_Slug x = po_Slug y"
    then show "x = y" using free inj_onD [OF inj, of x y] by auto metis+
  qed
  then show ?thesis using assms(1-3) unfolding arts_ok_def by (auto simp: less_Suc_eq)
qed

lemma arts_ok_Create: "arts_ok b \<Longrightarrow> Slug a \<noteq> [] \<Longrightarrow> arts_ok (snd (articleRepo_Create e a b))"
  using arts_ok_append [of b "toArticlePO (next_article b) (e_now e) a"]
  by (cases e a b rule: article_Create_cases) simp_all

lemma arts_ok_Update:
  assumes "arts_ok b" "Slug a \<noteq> []"
  shows "arts_ok (snd (articleRepo_Update e a b))"
proof (cases "articleRepo_Update e a b")
  case (Pair r b')
  show ?thesis
  proof (cases r)
    case None
    with Pair have u: "articleRepo_Update e a b = (None, b')" by simp
    show ?thesis
      using arts_ok_frame [OF arts_ok_write [OF assms article_Update_ok(3) [OF u]] article_Update_ok(1) [OF u]] u by simp
  next
    case (Some er)
    with Pair assms show ?thesis by (auto dest: article_Update_fail)
  qed
qed

lemma arts_ok_Delete: "arts_ok b \<Longrightarrow> arts_ok (snd (articleRepo_Delete e i b))"
proof (cases e i b rule: article_Delete_cases)
  case (deleted b')
  assume "arts_ok b"
  then have "arts_ok (update_row (po_DeletedAt_update (\<lambda>_. Some (e_now e))) i b)"
    by (rule arts_ok_update_same) simp_all
  from arts_ok_frame [OF this deleted(2)] deleted(1) show ?thesis by simp
qed simp

lemma arts_ok_likes [simp]: "arts_ok (b\<lparr>articles_likes := ls\<rparr>) = arts_ok b"
  by (simp add: arts_ok_def)

lemma arts_ok_InsertLike: "arts_ok b \<Longrightarrow> arts_ok (snd (articleRepo_InsertLike e i u b))"
  by (auto simp: articleRepo_InsertLike_def intro!: arts_ok_update_same)

lemma arts_ok_DeleteLike: "arts_ok b \<Longrightarrow> arts_ok (snd (articleRepo_DeleteLike e i u b))"
  by (auto simp: articleRepo_DeleteLike_def Let_def intro!: arts_ok_update_same)

lemma find_row: "articleRepo_FindByID e i b = Inr a \<Longrightarrow> \<exists>po. row_by_id b i = Some po \<and> a = load_article e b po"
  by (auto simp: articleRepo_FindByID_def split: if_splits option.splits)

lemma load_fields [simp]:
  "ID (load_article e b po) = po_ID po" "Title (load_article e b po) = po_Title po" "Slug (load_article e b po) = po_Slug po"
  "Content (load_article e b po) = po_Content po"
  "Status (load_article e b po) = po_Status po" "AuthorID (load_article e b po) = po_AuthorID po"
  "CategoryID (load_article e b po) = po_CategoryID po" "PublishedAt (load_article e b po) = po_PublishedAt po"
  "ViewCount (load_article e b po) = po_ViewCount po" "LikeCount (load_article e b po) = po_LikeCount po"
  "Tags (load_article e b po) = map tagPOToBiz (preload_tags e b (po_ID po))"
  by (simp_all add: load_article_def enrich_def articlePOToBiz_def Let_def split: option.split)

interpretation unique: blog_invariant arts_ok "\<lambda>a. Slug a \<noteq> []" "\<lambda>_. True"
proof unfold_locales
  fix e i b a assume "arts_ok b" "articleRepo_FindByID e i b = Inr a"
  then show "Slug a \<noteq> []" by (auto simp: arts_ok_def dest!: find_row row_by_id_Some)
next
  fix b d i assume "arts_ok b"
  then show "arts_ok (update_row (po_ViewCount_update (\<lambda>n. n + d)) i b)" by (rule arts_ok_update_same) simp_all
qed ((erule arts_ok_frame, (simp; fail)) |
    (auto simp: arts_ok_Create arts_ok_Update arts_ok_Delete arts_ok_InsertLike arts_ok_DeleteLike) [1])+

end
