(* ===== verification/ArticleHist.thy ===== *)
theory ArticleHist
  imports ArticleInv
begin

text \<open>
  Three more invariants of the articles: what can become of a row over time, the like counters, and the
  positive entries of the slug cache.
\<close>

section \<open>The history of an article\<close>

text \<open>
  Seen from an earlier state: a live row with an old id is the row that was live then, its author is the
  same, and it is a draft only if it was one. A published row has a publication time.
\<close>

definition hist :: "blog \<Rightarrow> blog \<Rightarrow> bool" where
  "hist b0 b \<longleftrightarrow>
     arts_ok b \<and> next_article b0 \<le> next_article b \<and>
     (\<forall>i p. row_by_id b i = Some p \<longrightarrow>
        (po_Status p = Published \<longrightarrow> po_PublishedAt p \<noteq> None) \<and>
        (i < next_article b0 \<longrightarrow>
           (\<exists>p0. row_by_id b0 i = Some p0 \<and> po_AuthorID p = po_AuthorID p0 \<and>
              (po_Status p = Draft \<longrightarrow> po_Status p0 = Draft))))"

text \<open>The articles that the use case stores.\<close>

definition hist_art :: "blog \<Rightarrow> Article \<Rightarrow> bool" where
  "hist_art b0 a \<longleftrightarrow> Slug a \<noteq> [] \<and> (Status a = Published \<longrightarrow> PublishedAt a \<noteq> None) \<and>
     (ID a < next_article b0 \<longrightarrow>
        (\<exists>p0. row_by_id b0 (ID a) = Some p0 \<and> (Status a = Draft \<longrightarrow> po_Status p0 = Draft)))"

lemma hist_frame: "hist b0 b \<Longrightarrow> core b' = core b \<Longrightarrow> hist b0 b'"
  using arts_ok_frame row_by_id_core [of b' b] by (auto simp: hist_def core_def)

lemma hist_Create:
  assumes "hist b0 b" "Status a = Draft" "Slug a \<noteq> []"
  shows "hist b0 (snd (articleRepo_Create e a b))"
proof (cases e a b rule: article_Create_cases)
  case (created a')
  have "row_by_id (b\<lparr>articles := articles b @ [toArticlePO (next_article b) (e_now e) a], next_article := next_article b + 1\<rparr>) i =
      (case row_by_id b i of Some p \<Rightarrow> Some p
       | None \<Rightarrow> if i = next_article b then Some (toArticlePO (next_article b) (e_now e) a) else None)" for i
    by (auto simp: row_by_id_def find_append live_article_def split: option.split)
  moreover have "arts_ok (b\<lparr>articles := articles b @ [toArticlePO (next_article b) (e_now e) a], next_article := next_article b + 1\<rparr>)"
    using assms(1,3) created(2) by (intro arts_ok_append) (simp_all add: hist_def)
  ultimately show ?thesis using created assms
    by (auto simp: hist_def split: option.splits if_splits)
qed (use assms in simp)

lemma hist_Update:
  assumes "hist b0 b" "hist_art b0 a"
  shows "hist b0 (snd (articleRepo_Update e a b))"
proof (cases "articleRepo_Update e a b")
  case (Pair r b')
  show ?thesis
  proof (cases r)
    case None
    with Pair have u: "articleRepo_Update e a b = (None, b')" by simp
    have ok: "arts_ok (snd (articleRepo_Update e a b))"
      using assms by (intro arts_ok_Update) (auto simp: hist_def hist_art_def)
    have row: "row_by_id b' i = (if i = ID a then map_option (write_article e a) (row_by_id b (ID a)) else row_by_id b i)" for i
      using row_by_id_core [OF article_Update_ok(1) [OF u]] row_by_id_update [of "write_article e a" "ID a" b i]
      by (simp add: write_article_def)
    have "next_article b' = next_article b" using article_Update_ok(1) [OF u] by (simp add: core_def)
    moreover have "(po_Status p = Published \<longrightarrow> po_PublishedAt p \<noteq> None) \<and>
        (i < next_article b0 \<longrightarrow> (\<exists>p0. row_by_id b0 i = Some p0 \<and> po_AuthorID p = po_AuthorID p0 \<and>
              (po_Status p = Draft \<longrightarrow> po_Status p0 = Draft)))" if p: "row_by_id b' i = Some p" for i p
    proof (cases "i = ID a")
      case True
      then obtain z where z: "row_by_id b (ID a) = Some z" "p = write_article e a z" using p row by auto
      then have "ID a < next_article b0 \<longrightarrow> (\<exists>p0. row_by_id b0 (ID a) = Some p0 \<and> po_AuthorID z = po_AuthorID p0)"
        using assms(1) unfolding hist_def by blast
      with z True assms(2) show ?thesis by (auto simp: hist_art_def write_article_def)
    next
      case False
      with p row assms(1) show ?thesis unfolding hist_def by simp
    qed
    ultimately show ?thesis using ok u assms by (simp add: hist_def)
  next
    case (Some er)
    with Pair assms show ?thesis by (auto dest: article_Update_fail)
  qed
qed

lemma hist_Delete: "hist b0 b \<Longrightarrow> hist b0 (snd (articleRepo_Delete e i b))"
proof (cases e i b rule: article_Delete_cases)
  case (deleted b')
  assume h: "hist b0 b"
  then have "arts_ok b'" using arts_ok_Delete [of b e i] deleted(1) by (simp add: hist_def)
  moreover have "next_article b' = next_article b" using deleted(2) by (simp add: core_def)
  moreover have "row_by_id b' j = (if j = i then None else row_by_id b j)" for j
    using row_by_id_core [OF deleted(2)] row_by_id_delete by simp
  ultimately show ?thesis using h deleted(1) by (auto simp: hist_def split: if_splits)
qed simp

lemma hist_update_row:
  assumes "hist b0 b" "\<And>po. po_ID (f po) = po_ID po" "\<And>po. po_Slug (f po) = po_Slug po"
    "\<And>po. po_DeletedAt (f po) = po_DeletedAt po" "\<And>po. po_Status (f po) = po_Status po"
    "\<And>po. po_AuthorID (f po) = po_AuthorID po" "\<And>po. po_PublishedAt (f po) = po_PublishedAt po"
  shows "hist b0 (update_row f i b)"
proof -
  have "arts_ok (update_row f i b)"
    using assms by (intro arts_ok_update_same) (simp_all add: hist_def)
  with assms(1,5-7) row_by_id_update [of f i b] assms(2,4) show ?thesis
    by (auto simp: hist_def split: if_splits)
qed

lemma hist_likes [simp]: "hist b0 (b\<lparr>articles_likes := ls\<rparr>) = hist b0 b"
  by (simp add: hist_def row_by_id_def)

lemma hist_InsertLike: "hist b0 b \<Longrightarrow> hist b0 (snd (articleRepo_InsertLike e i u b))"
  by (auto simp: articleRepo_InsertLike_def intro!: hist_update_row)

lemma hist_DeleteLike: "hist b0 b \<Longrightarrow> hist b0 (snd (articleRepo_DeleteLike e i u b))"
  by (auto simp: articleRepo_DeleteLike_def Let_def intro!: hist_update_row)

interpretation history: blog_invariant "hist b0" "hist_art b0" "\<lambda>_. True" for b0
proof unfold_locales
  fix e i b a assume h: "hist b0 b" and f: "articleRepo_FindByID e i b = Inr a"
  from find_row [OF f] obtain po where po: "row_by_id b i = Some po" "a = load_article e b po" by blast
  have "(po_Status po = Published \<longrightarrow> po_PublishedAt po \<noteq> None) \<and>
      (i < next_article b0 \<longrightarrow> (\<exists>p0. row_by_id b0 i = Some p0 \<and> (po_Status po = Draft \<longrightarrow> po_Status p0 = Draft)))"
    using h po(1) unfolding hist_def by blast
  with h po row_by_id_Some [OF po(1)] show "hist_art b0 a" by (auto simp: hist_def hist_art_def arts_ok_def)
next
  fix b d i assume "hist b0 b"
  then show "hist b0 (update_row (po_ViewCount_update (\<lambda>n. n + d)) i b)" by (rule hist_update_row) simp_all
qed ((erule hist_frame, (simp; fail)) |
    (auto simp: hist_art_def hist_Create hist_Update hist_Delete hist_InsertLike hist_DeleteLike) [1])+

section \<open>The like counters\<close>

definition live_likes :: "blog \<Rightarrow> nat \<Rightarrow> nat" where
  "live_likes b i = length (filter (\<lambda>r. lk_Article r = i \<and> lk_DeletedAt r = None) (articles_likes b))"

definition likes_ok :: "blog \<Rightarrow> bool" where
  "likes_ok b \<longleftrightarrow>
     arts_ok b \<and>
     distinct (map (\<lambda>r. (lk_Article r, lk_User r)) (articles_likes b)) \<and>
     (\<forall>r\<in>set (articles_likes b). lk_Article r < next_article b) \<and>
     (\<forall>po\<in>set (articles b). po_DeletedAt po = None \<longrightarrow> po_LikeCount po = int (live_likes b (po_ID po)))"

lemma likes_frame: "likes_ok b \<Longrightarrow> core b' = core b \<Longrightarrow> likes_ok b'"
  using arts_ok_frame by (auto simp: likes_ok_def core_def live_likes_def)

lemma likes_update_row:
  assumes "likes_ok b" "arts_ok (update_row f i b)" "\<And>po. po_ID (f po) = po_ID po"
    "\<And>po. po_DeletedAt (f po) = None \<Longrightarrow> po_DeletedAt po = None" "\<And>po. po_LikeCount (f po) = po_LikeCount po"
  shows "likes_ok (update_row f i b)"
  using assms by (auto simp: likes_ok_def live_likes_def)

lemma likes_Create: "likes_ok b \<Longrightarrow> Slug a \<noteq> [] \<Longrightarrow> likes_ok (snd (articleRepo_Create e a b))"
proof (cases e a b rule: article_Create_cases)
  case (created a')
  assume l: "likes_ok b" and s: "Slug a \<noteq> []"
  let ?po = "toArticlePO (next_article b) (e_now e) a"
  have "filter (\<lambda>r. lk_Article r = next_article b \<and> lk_DeletedAt r = None) (articles_likes b) = []"
    using l by (auto simp: likes_ok_def filter_empty_conv)
  then have "live_likes b (next_article b) = 0" by (simp add: live_likes_def)
  moreover have "arts_ok (b\<lparr>articles := articles b @ [?po], next_article := next_article b + 1\<rparr>)"
    using l created s by (intro arts_ok_append) (simp_all add: likes_ok_def)
  ultimately show ?thesis using created l by (auto simp: likes_ok_def live_likes_def less_Suc_eq)
qed simp

lemma likes_Update: "likes_ok b \<Longrightarrow> Slug a \<noteq> [] \<Longrightarrow> likes_ok (snd (articleRepo_Update e a b))"
proof (cases "articleRepo_Update e a b")
  case (Pair r b')
  assume l: "likes_ok b" and s: "Slug a \<noteq> []"
  show ?thesis
  proof (cases r)
    case None
    with Pair have u: "articleRepo_Update e a b = (None, b')" by simp
    have "arts_ok (update_row (write_article e a) (ID a) b)"
      using l s article_Update_ok(3) [OF u] by (intro arts_ok_write) (simp_all add: likes_ok_def)
    with l have "likes_ok (update_row (write_article e a) (ID a) b)"
      by (rule likes_update_row) (simp_all add: write_article_def)
    with likes_frame [OF this article_Update_ok(1) [OF u]] u show ?thesis by simp
  next
    case (Some er)
    with Pair l show ?thesis by (auto dest: article_Update_fail)
  qed
qed

lemma likes_Delete: "likes_ok b \<Longrightarrow> likes_ok (snd (articleRepo_Delete e i b))"
proof (cases e i b rule: article_Delete_cases)
  case (deleted b')
  assume l: "likes_ok b"
  have "arts_ok (update_row (po_DeletedAt_update (\<lambda>_. Some (e_now e))) i b)"
    using l by (intro arts_ok_update_same) (simp_all add: likes_ok_def)
  with l have "likes_ok (update_row (po_DeletedAt_update (\<lambda>_. Some (e_now e))) i b)"
    by (rule likes_update_row) simp_all
  from likes_frame [OF this deleted(2)] deleted(1) show ?thesis by simp
qed simp

lemma likes_InsertLike:
  assumes "likes_ok b" "row_by_id b i = Some po"
  shows "likes_ok (snd (articleRepo_InsertLike e i u b))"
proof (cases "db_fault e [''likes.insert''] \<or> (\<exists>r\<in>set (articles_likes b). is_like i u r) \<or> db_fault e [''articles.likes'']")
  case True
  with assms show ?thesis by (auto simp: articleRepo_InsertLike_def)
next
  case False
  let ?b = "b\<lparr>articles_likes := articles_likes b @ [like_row i u]\<rparr>"
  have i: "i < next_article b" using assms row_by_id_Some [OF assms(2)] by (auto simp: likes_ok_def arts_ok_def)
  have ll: "live_likes (update_row f i ?b) j = live_likes b j + (if j = i then 1 else 0)" for f j
    by (auto simp: live_likes_def like_row_def)
  have "arts_ok (update_row (po_LikeCount_update (\<lambda>n. n + 1)) i ?b)"
    using assms(1) by (intro arts_ok_update_same) (simp_all add: likes_ok_def)
  moreover have "(i, u) \<notin> (\<lambda>r. (lk_Article r, lk_User r)) ` set (articles_likes b)"
    using False by (auto simp: is_like_def)
  ultimately have "likes_ok (update_row (po_LikeCount_update (\<lambda>n. n + 1)) i ?b)"
    using assms(1) i ll unfolding likes_ok_def by (auto simp: like_row_def live_article_def)
  with False show ?thesis by (simp add: articleRepo_InsertLike_def)
qed

lemma count_unlike:
  assumes "distinct (map key xs)" "\<And>r. hit r \<Longrightarrow> Q r \<and> key r = k" "\<And>r. hit r \<Longrightarrow> \<not> Q (d r)"
  shows "length (filter Q (map (\<lambda>r. if hit r then d r else r) xs)) + (if \<exists>r\<in>set xs. hit r then 1 else 0) = length (filter Q xs)"
  using assms(1)
proof (induction xs)
  case (Cons x xs)
  show ?case
  proof (cases "hit x")
    case True
    then have "\<not> (\<exists>r\<in>set xs. hit r)" using Cons.prems assms(2) by force
    moreover then have "map (\<lambda>r. if hit r then d r else r) xs = xs" by (auto intro: map_idI)
    ultimately show ?thesis using True assms(2,3) by simp
  next
    case False
    with Cons show ?thesis by auto
  qed
qed simp

lemma likes_DeleteLike:
  assumes "likes_ok b"
  shows "likes_ok (snd (articleRepo_DeleteLike e i u b))"
proof -
  let ?hit = "\<lambda>r. is_like i u r \<and> lk_DeletedAt r = None" and ?d = "\<lambda>r. r\<lparr>lk_DeletedAt := Some (e_now e)\<rparr>"
  let ?g = "\<lambda>r. if ?hit r then ?d r else r"
  let ?b = "b\<lparr>articles_likes := map ?g (articles_likes b)\<rparr>"
  show ?thesis
  proof (cases "db_fault e [''likes.delete''] \<or> length (filter ?hit (articles_likes b)) = 0 \<or> db_fault e [''articles.likes'']")
    case True
    with assms show ?thesis by (auto simp: articleRepo_DeleteLike_def Let_def)
  next
    case False
    then have ex: "\<exists>r\<in>set (articles_likes b). ?hit r" by (auto simp: filter_empty_conv)
    have dist: "distinct (map (\<lambda>r. (lk_Article r, lk_User r)) (articles_likes b))" using assms by (simp add: likes_ok_def)
    have at_i: "live_likes ?b i + 1 = live_likes b i"
      using count_unlike [OF dist, of ?hit "\<lambda>r. lk_Article r = i \<and> lk_DeletedAt r = None" "(i, u)" ?d] ex
      by (simp add: live_likes_def is_like_def)
    have other: "live_likes ?b j = live_likes b j" if "j \<noteq> i" for j
    proof -
      have "filter (\<lambda>r. lk_Article r = j \<and> lk_DeletedAt r = None) (map ?g xs) =
          filter (\<lambda>r. lk_Article r = j \<and> lk_DeletedAt r = None) xs" for xs
        using that by (induction xs) (auto simp: is_like_def)
      then show ?thesis by (simp add: live_likes_def)
    qed
    have keys: "map (\<lambda>r. (lk_Article r, lk_User r)) (map ?g xs) = map (\<lambda>r. (lk_Article r, lk_User r)) xs" for xs
      by (induction xs) auto
    have arts: "arts_ok (update_row (po_LikeCount_update (\<lambda>n. max (n - 1) 0)) i ?b)"
      using assms by (intro arts_ok_update_same) (simp_all add: likes_ok_def)
    have "likes_ok (update_row (po_LikeCount_update (\<lambda>n. max (n - 1) 0)) i ?b)"
      unfolding likes_ok_def
    proof (intro conjI)
      show "distinct (map (\<lambda>r. (lk_Article r, lk_User r)) (articles_likes (update_row (po_LikeCount_update (\<lambda>n. max (n - 1) 0)) i ?b)))"
      proof -
        have "articles_likes ?b = map ?g (articles_likes b)" by simp
        then show ?thesis using dist by (simp only: update_row_simps keys)
      qed
      show "\<forall>r\<in>set (articles_likes (update_row (po_LikeCount_update (\<lambda>n. max (n - 1) 0)) i ?b)).
          lk_Article r < next_article (update_row (po_LikeCount_update (\<lambda>n. max (n - 1) 0)) i ?b)"
        using assms by (auto simp: likes_ok_def)
      have ll: "live_likes (update_row f i ?b) j = live_likes ?b j" for f j by (simp add: live_likes_def)
      show "\<forall>po\<in>set (articles (update_row (po_LikeCount_update (\<lambda>n. max (n - 1) 0)) i ?b)).
          po_DeletedAt po = None \<longrightarrow>
          po_LikeCount po = int (live_likes (update_row (po_LikeCount_update (\<lambda>n. max (n - 1) 0)) i ?b) (po_ID po))"
        unfolding ll using assms at_i other by (fastforce simp: likes_ok_def live_article_def)
    qed (rule arts)
    with False show ?thesis by (simp add: articleRepo_DeleteLike_def Let_def)
  qed
qed

interpretation likes: blog_invariant likes_ok "\<lambda>a. Slug a \<noteq> []" "\<lambda>_. True"
proof unfold_locales
  fix e i b a assume "likes_ok b" "articleRepo_FindByID e i b = Inr a"
  then show "Slug a \<noteq> []" by (auto simp: likes_ok_def arts_ok_def dest!: find_row row_by_id_Some)
next
  fix b d i assume l: "likes_ok b"
  then have "arts_ok (update_row (po_ViewCount_update (\<lambda>n. n + d)) i b)"
    by (intro arts_ok_update_same) (simp_all add: likes_ok_def)
  with l show "likes_ok (update_row (po_ViewCount_update (\<lambda>n. n + d)) i b)" by (rule likes_update_row) simp_all
next
  fix e i b a u assume "likes_ok b" "articleRepo_FindByID e i b = Inr a"
  then show "likes_ok (snd (articleRepo_InsertLike e i u b))" by (auto dest!: find_row intro: likes_InsertLike)
qed ((erule likes_frame, (simp; fail)) | (auto simp: likes_Create likes_Update likes_Delete likes_DeleteLike) [1])+

end
