(* ===== verification/SlugCache.thy ===== *)
theory SlugCache
  imports ArticleHist
begin

text \<open>
  The slug cache of the article repository: an entry that names an article names the one that has the
  slug, in every reachable state; an entry that says "no such article" may be wrong, because creating an
  article does not remove it.
\<close>

section \<open>The invariant\<close>

definition slug_entries :: "blog \<Rightarrow> string \<Rightarrow> cobj cval option" where
  "slug_entries b s = held (keyArticleSlug s) (kv b)"

definition entry_ok :: "blog \<Rightarrow> string \<Rightarrow> cobj cval \<Rightarrow> bool" where
  "entry_ok b s v \<longleftrightarrow> v = Raw nullSentinel \<or>
     (\<exists>i. i < next_article b \<and> v = Raw (show_int (wrap64 (int i))) \<and>
          (\<forall>po. row_by_id b i = Some po \<longrightarrow> po_Slug po = s))"

definition slug_cache_ok :: "blog \<Rightarrow> bool" where
  "slug_cache_ok b \<longleftrightarrow> arts_ok b \<and> (\<forall>s v. slug_entries b s = Some v \<longrightarrow> entry_ok b s v)"

text \<open>The environments in which the repository can keep its promise.\<close>

definition slug_env :: "env \<Rightarrow> bool" where
  "slug_env e \<longleftrightarrow> \<not> db_fault e [''articles.old_slug''] \<and> (\<forall>s. \<not> kv_fault e [''del'', keyArticleSlug s])"

lemma key_inj [simp]: "keyArticleSlug s = keyArticleSlug t \<longleftrightarrow> s = t"
  by (simp add: keyArticleSlug_def)

lemma slug_not_view: "\<not> view_side (keyArticleSlug s)"
  by (simp add: view_side_def has_prefix_def ViewCountCachePrefix_def ViewCountDedupPrefix_def keyArticleSlug_def)

lemma slug_entries_simps [simp]:
  "slug_entries (kv_del e cacheKeyTagAll b) s = slug_entries b s"
  "slug_entries (kv_del e cacheKeyCatTree b) s = slug_entries b s"
  "slug_entries (kv_set e cacheKeyTagAll v t b) s = slug_entries b s"
  "slug_entries (kv_set e cacheKeyCatTree v t b) s = slug_entries b s"
  "slug_entries (offer ev b) s = slug_entries b s"
  "slug_entries (update_row f i b) s = slug_entries b s"
  by (simp_all add: slug_entries_def kv_del_def kv_set_def rc_delete_def rc_set_def held_def offer_def)

lemma slug_entries_kv: "kv b' = kv b \<Longrightarrow> slug_entries b' = slug_entries b"
  by (intro ext) (simp add: slug_entries_def)

lemma slug_entries_del:
  "slug_env e \<Longrightarrow> slug_entries (kv_del e (keyArticleSlug s) b) t = (if t = s then None else slug_entries b t)"
  by (simp add: slug_entries_def kv_del_def rc_delete_def held_def slug_env_def)

lemma slug_entries_invalidate:
  "slug_env e \<Longrightarrow> s \<noteq> [] \<Longrightarrow> slug_entries (invalidateCache e s b) t = (if t = s then None else slug_entries b t)"
  by (simp add: invalidateCache_def slug_entries_del)

lemma slug_entries_set:
  "slug_entries (kv_set e (keyArticleSlug s) v d b) t =
     (if t = s \<and> \<not> kv_fault e [''set'', keyArticleSlug s] \<and> 0 \<le> d then Some v else slug_entries b t)"
  by (simp add: slug_entries_def kv_set_def rc_set_def held_def)

lemma slug_entries_view:
  "(\<And>k. \<not> view_side k \<Longrightarrow> m k = kv b k) \<Longrightarrow> slug_entries (b\<lparr>kv := m\<rparr>) s = slug_entries b s"
  using slug_not_view by (simp add: slug_entries_def held_def)

lemma entry_ok_core: "core b' = core b \<Longrightarrow> entry_ok b' s v = entry_ok b s v"
  using row_by_id_core [of b' b] by (simp add: entry_ok_def core_def)

lemma slug_frame:
  assumes "slug_cache_ok b" "core b' = core b" "\<And>s. slug_entries b' s = slug_entries b s"
  shows "slug_cache_ok b'"
  using assms entry_ok_core [OF assms(2)] arts_ok_frame by (auto simp: slug_cache_ok_def)

lemmas slug_kv_defs = slug_entries_def held_def kv_del_def kv_set_def rc_delete_def rc_set_def

lemma slug_tag_calls [simp]:
  "slug_entries (snd (tagRepo_Create e n s b)) t = slug_entries b t"
  "slug_entries (snd (tagRepo_FindOrCreate e n s b)) t = slug_entries b t"
  "slug_entries (snd (tagRepo_List e b)) t = slug_entries b t" "slug_entries (snd (tagRepo_Delete e i b)) t = slug_entries b t"
  by (simp_all add: tagRepo_Create_def tagRepo_FindOrCreate_def tagRepo_List_def tagRepo_Delete_def insert_tag_def
      Let_def slug_kv_defs split: sum.split option.split)

lemma slug_cat_calls [simp]:
  "slug_entries (snd (categoryRepo_Create e n s d p so b)) t = slug_entries b t"
  "slug_entries (snd (categoryRepo_Update e cat b)) t = slug_entries b t"
  "slug_entries (snd (categoryRepo_Delete e i b)) t = slug_entries b t"
  "slug_entries (snd (categoryRepo_ListTree e b)) t = slug_entries b t"
  "slug_entries (snd (categoryRepo_IncrementArticleCount e i dl b)) t = slug_entries b t"
  by (simp_all add: categoryRepo_Create_def categoryRepo_Update_def categoryRepo_Delete_def categoryRepo_ListTree_def
      categoryRepo_IncrementArticleCount_def Let_def slug_kv_defs split: sum.split)

lemma slug_join_calls [simp]:
  "slug_entries (snd (articleRepo_UpdateTagsArticleCount e ids d b)) t = slug_entries b t"
  "slug_entries (snd (articleRepo_AssociateTags e i ids b)) t = slug_entries b t"
  "slug_entries (snd (articleRepo_SyncTags e i ids b)) t = slug_entries b t"
  by (simp_all add: articleRepo_UpdateTagsArticleCount_def articleRepo_AssociateTags_def articleRepo_SyncTags_def
      Let_def slug_kv_defs)

lemma slug_like_calls [simp]:
  "slug_entries (snd (articleRepo_InsertLike e i u b)) t = slug_entries b t"
  "slug_entries (snd (articleRepo_DeleteLike e i u b)) t = slug_entries b t"
  by (simp_all add: articleRepo_InsertLike_def articleRepo_DeleteLike_def Let_def slug_kv_defs)

lemma slug_rows_same:
  assumes "slug_cache_ok b" "arts_ok b'" "next_article b' = next_article b" "\<And>s. slug_entries b' s = slug_entries b s"
    and "\<And>i po. row_by_id b' i = Some po \<Longrightarrow> \<exists>po'. row_by_id b i = Some po' \<and> po_Slug po' = po_Slug po"
  shows "slug_cache_ok b'"
  unfolding slug_cache_ok_def
proof (intro conjI allI impI)
  fix s v assume "slug_entries b' s = Some v"
  then have "entry_ok b s v" using assms(1,4) by (simp add: slug_cache_ok_def)
  then show "entry_ok b' s v" using assms(3,5) unfolding entry_ok_def by fastforce
qed (rule assms)

lemma slug_update_row:
  assumes "slug_cache_ok b" "\<And>po. po_ID (f po) = po_ID po" "\<And>po. po_Slug (f po) = po_Slug po"
    "\<And>po. po_DeletedAt (f po) = po_DeletedAt po"
  shows "slug_cache_ok (update_row f i b)"
proof (rule slug_rows_same [OF assms(1)])
  show "arts_ok (update_row f i b)" using assms by (intro arts_ok_update_same) (simp_all add: slug_cache_ok_def)
  fix j po assume "row_by_id (update_row f i b) j = Some po"
  then show "\<exists>po'. row_by_id b j = Some po' \<and> po_Slug po' = po_Slug po"
    using row_by_id_update [of f i b j] assms(2-4) by (auto split: if_splits)
qed simp_all

lemma slug_Create:
  assumes "slug_cache_ok b" "Slug a \<noteq> []"
  shows "slug_cache_ok (snd (articleRepo_Create e a b))"
proof (cases e a b rule: article_Create_cases)
  case (created a')
  let ?b' = "b\<lparr>articles := articles b @ [toArticlePO (next_article b) (e_now e) a], next_article := next_article b + 1\<rparr>"
  have "arts_ok ?b'" using assms created by (intro arts_ok_append) (simp_all add: slug_cache_ok_def)
  moreover have row: "i < next_article b \<Longrightarrow> row_by_id ?b' i = row_by_id b i" for i
    by (auto simp: row_by_id_def find_append live_article_def split: option.split)
  moreover have "entry_ok ?b' s v" if "entry_ok b s v" for s v
    using that row unfolding entry_ok_def by fastforce
  moreover have "slug_entries ?b' = slug_entries b" by (rule slug_entries_kv) simp
  ultimately have "slug_cache_ok ?b'" using assms(1) by (simp add: slug_cache_ok_def)
  with created show ?thesis by simp
qed (use assms in simp)

lemma slug_Delete: "slug_env e \<Longrightarrow> slug_cache_ok b \<Longrightarrow> slug_cache_ok (snd (articleRepo_Delete e i b))"
proof -
  assume e: "slug_env e" and ok: "slug_cache_ok b"
  let ?b1 = "update_row (po_DeletedAt_update (\<lambda>_. Some (e_now e))) i b"
  have arts: "arts_ok ?b1" using ok by (intro arts_ok_update_same) (simp_all add: slug_cache_ok_def)
  have 1: "slug_cache_ok ?b1"
    by (rule slug_rows_same [OF ok arts]) (auto simp: row_by_id_delete split: if_splits)
  have "slug_cache_ok (invalidateCache e s ?b1)" for s
    using 1 slug_entries_invalidate [OF e, of s ?b1] entry_ok_core [of "invalidateCache e s ?b1" ?b1]
      arts_ok_frame [of ?b1 "invalidateCache e s ?b1"]
    by (cases "s = []") (auto simp: slug_cache_ok_def invalidateCache_def [of e "[]"])
  with ok show ?thesis by (auto simp: articleRepo_Delete_def split: option.split)
qed

lemma slug_Update:
  assumes "slug_env e" "slug_cache_ok b" "Slug a \<noteq> []"
  shows "slug_cache_ok (snd (articleRepo_Update e a b))"
proof (cases "articleRepo_Update e a b")
  case (Pair r b')
  show ?thesis
  proof (cases r)
    case (Some er)
    with Pair assms show ?thesis by (auto dest: article_Update_fail)
  next
    case None
    with Pair have u: "articleRepo_Update e a b = (None, b')" by simp
    obtain old where old: "row_by_id b (ID a) = Some old" using article_Update_ok(2) [OF u] by auto
    have "po_Slug old \<noteq> []" using assms(2) row_by_id_Some [OF old] by (auto simp: slug_cache_ok_def arts_ok_def)
    then have b': "b' = invalidateCache e (Slug a)
        (if po_Slug old \<noteq> Slug a then kv_del e (keyArticleSlug (po_Slug old)) (update_row (write_article e a) (ID a) b)
         else update_row (write_article e a) (ID a) b)"
      using u old assms(1) by (auto simp: articleRepo_Update_def Let_def slug_env_def split: if_splits)
    have entries: "slug_entries b' s = (if s = Slug a \<or> s = po_Slug old then None else slug_entries b s)" for s
      unfolding b' slug_entries_invalidate [OF assms(1,3)] by (auto simp: slug_entries_del [OF assms(1)])
    have arts: "arts_ok b'" using arts_ok_Update [of b a e] assms u by (simp add: slug_cache_ok_def)
    have next_id: "next_article b' = next_article b" using article_Update_ok(1) [OF u] by (simp add: core_def)
    have row: "row_by_id b' i = (if i = ID a then Some (write_article e a old) else row_by_id b i)" for i
      using row_by_id_core [OF article_Update_ok(1) [OF u]] row_by_id_update [of "write_article e a" "ID a" b i] old
      by (simp add: write_article_def)
    have "entry_ok b' s v" if s: "slug_entries b' s = Some v" for s v
    proof -
      from s entries [of s] have ne: "s \<noteq> po_Slug old" and "slug_entries b s = Some v" by (auto split: if_splits)
      with assms(2) have "entry_ok b s v" by (simp add: slug_cache_ok_def)
      then consider "v = Raw nullSentinel" | i where "i < next_article b" "v = Raw (show_int (wrap64 (int i)))"
          "\<forall>po. row_by_id b i = Some po \<longrightarrow> po_Slug po = s" by (auto simp: entry_ok_def)
      then show ?thesis
      proof cases
        case 2
        then have "i \<noteq> ID a" using ne old by auto
        with 2 row next_id show ?thesis by (auto simp: entry_ok_def)
      qed (simp add: entry_ok_def)
    qed
    with arts have "slug_cache_ok b'" by (simp add: slug_cache_ok_def)
    with u show ?thesis by simp
  qed
qed

lemma slug_FindBySlug:
  assumes "slug_cache_ok b"
  shows "slug_cache_ok (snd (articleRepo_FindBySlug e s b))"
proof -
  have set_ok: "slug_cache_ok (kv_set e (keyArticleSlug s) v d b')"
    if "slug_cache_ok b'" "entry_ok b' s v" for v d b'
  proof -
    have c: "core (kv_set e (keyArticleSlug s) v d b') = core b'" by simp
    from that arts_ok_frame [OF _ c] entry_ok_core [OF c] show ?thesis
      by (auto simp: slug_cache_ok_def slug_entries_set split: if_splits)
  qed
  have del_ok: "slug_cache_ok (kv_del e (keyArticleSlug s) b)"
  proof -
    have "slug_entries (kv_del e (keyArticleSlug s) b) t = Some v \<Longrightarrow> slug_entries b t = Some v" for t v
      by (auto simp: slug_entries_def kv_del_def rc_delete_def held_def split: if_splits)
    with assms entry_ok_core [of "kv_del e (keyArticleSlug s) b" b] arts_ok_frame [of b "kv_del e (keyArticleSlug s) b"]
    show ?thesis by (simp add: slug_cache_ok_def)
  qed
  have null: "entry_ok b' s (Raw nullSentinel)" for b' by (simp add: entry_ok_def)
  have found: "entry_ok b s (Raw (show_int (wrap64 (int (po_ID po)))))" if "row_by_slug b s = Some po" for po
    using row_by_slug_Some [OF that] row_by_id_of [of b po] assms
    by (auto simp: entry_ok_def slug_cache_ok_def arts_ok_def)
  have "slug_cache_ok (snd (find_slug_db e s b))"
    using assms set_ok [OF del_ok null] set_ok [OF assms found]
    by (auto simp: find_slug_db_def split: option.split)
  with assms show ?thesis by (auto simp: articleRepo_FindBySlug_def split: sum.split)
qed

interpretation slugs: blog_invariant slug_cache_ok "\<lambda>a. Slug a \<noteq> []" slug_env
proof unfold_locales
  fix e i b a assume "slug_cache_ok b" "articleRepo_FindByID e i b = Inr a"
  then show "Slug a \<noteq> []" by (auto simp: slug_cache_ok_def arts_ok_def dest!: find_row row_by_id_Some)
next
  fix b d i assume "slug_cache_ok b"
  then show "slug_cache_ok (update_row (po_ViewCount_update (\<lambda>n. n + d)) i b)" by (rule slug_update_row) simp_all
next
  fix e b i u assume ok: "slug_cache_ok b"
  have "slug_cache_ok (update_row f i (b\<lparr>articles_likes := ls\<rparr>))"
    if "\<And>po. po_ID (f po) = po_ID po" "\<And>po. po_Slug (f po) = po_Slug po" "\<And>po. po_DeletedAt (f po) = po_DeletedAt po" for f ls
  proof (rule slug_update_row)
    show "slug_cache_ok (b\<lparr>articles_likes := ls\<rparr>)"
      using ok by (rule slug_rows_same) (use ok in \<open>auto simp: slug_cache_ok_def slug_entries_def row_by_id_def\<close>)
  qed (use that in auto)
  then show "slug_cache_ok (snd (articleRepo_DeleteLike e i u b))" "slug_cache_ok (snd (articleRepo_InsertLike e i u b))"
    using ok by (auto simp: articleRepo_DeleteLike_def articleRepo_InsertLike_def Let_def)
next
  fix b m assume ok: "slug_cache_ok b" and m: "\<And>k. \<not> view_side k \<Longrightarrow> m k = kv b k"
  show "slug_cache_ok (b\<lparr>kv := m\<rparr>)" by (rule slug_frame [OF ok core_kv(3) slug_entries_view [OF m]])
qed ((erule slug_frame, (simp; fail), (simp; fail)) | (auto simp: slug_Create slug_Update slug_Delete slug_FindBySlug) [1])+

end
