(* ===== verification/ArticleProps.thy ===== *)
theory ArticleProps
  imports SlugCache
begin

text \<open>
  The properties of the article use case: who may read and write, what a lookup by slug answers, what
  becomes of an article, the counters of categories, and the places where the code does not do what it
  means to.
\<close>

section \<open>Reading\<close>

lemma uint64_small: "i < 2 ^ 63 \<Longrightarrow> uint64_of (scan_int (show_int (wrap64 (int i)))) = i"
proof -
  assume i: "i < 2 ^ 63"
  then have "wrap64 (int i) = int i" by (intro wrap64_id) simp_all
  with i have "scan_int (show_int (wrap64 (int i))) = int i" by (simp add: show_int_def scan_int_show_nat)
  moreover have "uint64_of (int i) = i" using i by (simp add: uint64_of_def unat_of_nat take_bit_nat_eq_self)
  ultimately show ?thesis by simp
qed

lemma FindBySlug_sound:
  assumes "slug_cache_ok b" "next_article b \<le> 2 ^ 63" "articleRepo_FindBySlug e s b = (Inr a, b')"
  shows "Slug a = s \<and> (\<exists>po. row_by_id b (ID a) = Some po \<and> a = load_article e b po)"
proof -
  have db: "Slug a = s \<and> (\<exists>po. row_by_id b (ID a) = Some po \<and> a = load_article e b po)"
    if f: "find_slug_db e s b = (Inr a, b')" for b'
  proof -
    from f obtain po where po: "row_by_slug b s = Some po" "a = load_article e b po"
      by (auto simp: find_slug_db_def split: if_splits option.splits)
    with row_by_slug_Some [OF po(1)] row_by_id_of [of b po] assms(1) show ?thesis
      by (auto simp: slug_cache_ok_def)
  qed
  show ?thesis
  proof (cases "rc_get e (keyArticleSlug s) (kv b)")
    case (Inl er)
    with assms(3) db show ?thesis by (simp add: articleRepo_FindBySlug_def)
  next
    case (Inr v)
    then have "slug_entries b s = Some v" by (simp add: slug_entries_def rc_get_held)
    with assms(1) have ok: "entry_ok b s v" by (simp add: slug_cache_ok_def)
    have nn: "v \<noteq> Raw nullSentinel" using assms(3) Inr by (auto simp: articleRepo_FindBySlug_def)
    with ok obtain i where i: "i < next_article b" "v = Raw (show_int (wrap64 (int i)))"
      "\<And>po. row_by_id b i = Some po \<Longrightarrow> po_Slug po = s" by (auto simp: entry_ok_def)
    then have c: "cached_article e v b = articleRepo_FindByID e i b"
      using assms(2) uint64_small [of i] by (simp add: cached_article_def)
    show ?thesis
    proof (cases "articleRepo_FindByID e i b")
      case (Inl er)
      with assms(3) Inr nn c db show ?thesis by (simp add: articleRepo_FindBySlug_def)
    next
      case f: (Inr a')
      with assms(3) \<open>rc_get e (keyArticleSlug s) (kv b) = Inr v\<close> nn c have "a' = a" by (simp add: articleRepo_FindBySlug_def)
      with find_row [OF f] i(3) row_by_id_Some show ?thesis by fastforce
    qed
  qed
qed

definition may_see :: "ctx \<Rightarrow> Article \<Rightarrow> bool" where
  "may_see c a \<longleftrightarrow> Status a = Published \<or>
     (\<exists>u. getCurrentUserID c = Inr u \<and> (AuthorID a = u \<or> getCurrentRole c = adminRole))"

lemma visible_may_see: "ensureArticleVisible c a = None \<longleftrightarrow> may_see c a"
  by (auto simp: ensureArticleVisible_def may_see_def split: sum.split)

lemma fillIsLiked_fields [simp]: "Status (fillIsLiked e c a b) = Status a" "AuthorID (fillIsLiked e c a b) = AuthorID a"
  "ID (fillIsLiked e c a b) = ID a" "Slug (fillIsLiked e c a b) = Slug a"
  by (simp_all add: fillIsLiked_def split: sum.split)

lemma may_see_fill [simp]: "may_see c (fillIsLiked e c a b) = may_see c a"
  by (simp add: may_see_def)

lemma FindByID_ID: "articleRepo_FindByID e i b = Inr a \<Longrightarrow> ID a = i"
  by (auto dest!: find_row row_by_id_Some)

lemma GetArticle_cases:
  assumes "fst (GetArticle e c ident b) = Inr a"
  obtains (by_id) a' where "articleRepo_FindByID e (parseUint ident) b = Inr a'" "0 < parseUint ident"
      "ensureArticleVisible c a' = None" "a = fillIsLiked e c a' b"
  | (by_slug) a' b' where "articleRepo_FindBySlug e ident b = (Inr a', b')" "ensureArticleVisible c a' = None"
      "a = fillIsLiked e c a' b'"
  using assms by (auto simp: GetArticle_def Let_def split: if_splits sum.splits option.splits prod.splits)

text \<open>
  C1. Reading an article answers the article that was asked for, and only to those who may see it: in
  every state reachable from an empty service (whatever failed on the way, except the deletion of slug
  keys and the lookup of the old slug), an article that GetArticle answers has the identifier as its
  id or as its slug, is a live row, and is published unless the caller is its author or an
  administrator.
\<close>
theorem GetArticle_sound:
  assumes "blog_reach slug_env blog0 b" "next_article b \<le> 2 ^ 63" "fst (GetArticle e c ident b) = Inr a"
  shows "(ID a = parseUint ident \<or> Slug a = ident) \<and> row_by_id b (ID a) \<noteq> None \<and> may_see c a"
proof -
  have "slug_cache_ok blog0" by (simp add: slug_cache_ok_def arts_ok_def blog0_def slug_entries_def held_def)
  from slugs.reach_I [OF assms(1) this] have ok: "slug_cache_ok b" .
  show ?thesis using assms(3)
  proof (cases rule: GetArticle_cases)
    case (by_id a')
    with find_row [OF by_id(1)] show ?thesis by (auto simp: visible_may_see dest!: FindByID_ID)
  next
    case (by_slug a' b')
    with FindBySlug_sound [OF ok assms(2) by_slug(1)] show ?thesis by (auto simp: visible_may_see)
  qed
qed

text \<open>A service with one article, for the witnesses.\<close>

definition one_po :: "ArticleStatus \<Rightarrow> ArticlePO" where
  "one_po st = \<lparr>po_ID = 1, po_Title = ''ab'', po_Slug = ''ab'', po_Content = ''x'', po_Excerpt = [], po_CoverImage = [],
     po_Status = st, po_AuthorID = 7, po_CategoryID = None, po_ViewCount = 0, po_LikeCount = 0, po_IsTop = False,
     po_PublishedAt = Some 0, po_CreatedAt = 0, po_UpdatedAt = 0, po_DeletedAt = None\<rparr>"

definition one_article :: "ArticleStatus \<Rightarrow> blog" where
  "one_article st = blog0\<lparr>articles := [one_po st], next_article := 2\<rparr>"

lemmas one_defs = one_article_def one_po_def blog0_def

lemma one_find [simp]: "articleRepo_FindByID e 1 (one_article st) =
    (if db_fault e [''articles.by_id'', show_nat 1] then Inl (Wrap ''find article by id'' db_error)
     else Inr (load_article e (one_article st) (one_po st)))"
  by (simp add: articleRepo_FindByID_def row_by_id_def live_article_def one_article_def one_po_def)

lemma one_arts_ok [simp]: "arts_ok (one_article st)"
  by (auto simp: arts_ok_def one_defs inj_on_def)

text \<open>
  C10. A list shows nobody what he may not see: every article of a successful ListArticles is published,
  or the caller is an administrator, or the caller is its author, whatever filter was asked for
  (the database's ordering only has to return rows it was given).
\<close>
theorem ListArticles_visible:
  assumes "ListArticles e ord c q b = Inr (as, n)" "\<And>cl xs. set (ord cl xs) \<subseteq> set xs"
  shows "\<forall>a\<in>set as. may_see c a"
proof -
  let ?q = "if q_Status q = [] then q\<lparr>q_Status := ''published''\<rparr> else q"
  from assms(1) have l: "articleRepo_List e ord ?q b = Inr (as, n)"
    and g: "q_Status q = [] \<or> q_Status q = ''published'' \<or>
      (\<exists>u. getCurrentUserID c = Inr u \<and> (q_AuthorID q = Some u \<or> getCurrentRole c = adminRole))"
    by (auto simp: ListArticles_def Let_def split: if_splits sum.splits)
  show ?thesis
  proof
    fix a assume "a \<in> set as"
    with l obtain po o1 n1 cl where po: "a = load_article e b po"
        "po \<in> set (page_slice o1 n1 (ord cl (filter (list_filter b ?q) (articles b))))"
      unfolding articleRepo_List_def Let_def by (fastforce split: if_splits)
    then have "list_filter b ?q po" using page_slice_subset assms(2) by fastforce
    then have "po_Status po = statusToInt (if q_Status q = [] then ''published'' else q_Status q)"
      "q_AuthorID q = None \<or> Some (po_AuthorID po) = q_AuthorID q"
      by (auto simp: list_filter_def split: if_splits)
    with g po(1) show "may_see c a" by (auto simp: may_see_def statusToInt_def)
  qed
qed

section \<open>Creating\<close>

text \<open>What CreateArticle does for a title whose slug is free and not cached.\<close>

definition created_state :: "env \<Rightarrow> Article \<Rightarrow> blog \<Rightarrow> blog" where
  "created_state e a b =
    (let b1 = kv_set e (keyArticleSlug (Slug a)) (Raw nullSentinel) ttlArticleStale (kv_del e (keyArticleSlug (Slug a)) b)
     in b1\<lparr>articles := articles b1 @ [toArticlePO (next_article b1) (e_now e) a], next_article := next_article b1 + 1\<rparr>)"

lemma first_slug_free:
  assumes "live e (kv b) (keyArticleSlug s) = None" "row_by_slug b s = None" "calm e"
  shows "ensureUniqueSlug e s b =
    (Inr s, kv_set e (keyArticleSlug s) (Raw nullSentinel) ttlArticleStale (kv_del e (keyArticleSlug s) b))"
proof -
  have "articleRepo_FindBySlug e s b = (Inl ErrArticleNotFound,
      kv_set e (keyArticleSlug s) (Raw nullSentinel) ttlArticleStale (kv_del e (keyArticleSlug s) b))"
    using assms by (simp add: articleRepo_FindBySlug_def find_slug_db_def rc_get_def)
  moreover have "(100::nat) = Suc 99" by simp
  ultimately show ?thesis unfolding ensureUniqueSlug_def by (simp only: try_slugs.simps) (simp add: slug_candidate_def)
qed

lemma row_by_slug_kv [simp]: "row_by_slug (kv_del e k b) s = row_by_slug b s" "row_by_slug (kv_set e k v t b) s = row_by_slug b s"
  by (simp_all add: row_by_slug_def)

lemma CreateArticle_fresh:
  assumes "calm e" "getCurrentUserID c = Inr u" "validateArticleInput t x = None"
    and "live e (kv b) (keyArticleSlug (generateSlug t)) = None" "row_by_slug b (generateSlug t) = None"
  shows "\<exists>a. CreateArticle e c t x ex cv cat [] b = (Inr a, created_state e
      (new_article t (generateSlug t) x (if ex = [] then truncateContent x MaxExcerptLength else ex) cv u cat []) b)
    \<and> ID a = next_article b \<and> Slug a = generateSlug t"
  using assms first_slug_free [OF assms(4,5,1)]
  by (simp add: CreateArticle_def Let_def articleRepo_Create_def slug_taken_def created_state_def new_article_def)

lemma created_row: "arts_ok b \<Longrightarrow> row_by_slug b (Slug a) = None \<Longrightarrow>
    row_by_slug (created_state e a b) (Slug a) = Some (toArticlePO (next_article b) (e_now e) a)"
  by (auto simp: created_state_def Let_def row_by_slug_def find_append slug_article_def)

lemma created_cache:
  assumes "calm e" "e_now e2 < e_now e + ttlArticleStale"
  shows "live e2 (kv (created_state e a b)) (keyArticleSlug (Slug a)) = Some (Raw nullSentinel)"
  using assms
  by (simp add: created_state_def Let_def kv_set_def kv_del_def rc_set_def rc_delete_def live_def deadline_def in_units_def second_def
      ttlArticleStale_def minute_def)

text \<open>
  C13. A title cannot be used twice in a row, although the slugs are meant to be numbered: creating an
  article leaves the entry "no such article" that its own slug check has written, so for two minutes
  the check for the same title finds the slug free and the second CreateArticle ends with the
  conflict SLUG_ALREADY_EXISTS instead of the slug with "-2"; in the same time reading the new
  article by its slug answers "not found".
\<close>
theorem create_leaves_stale_miss:
  assumes "calm e" "calm e2" "e_now e2 < e_now e + ttlArticleStale" "arts_ok b"
    and "getCurrentUserID c = Inr u" "validateArticleInput t x = None"
    and "live e (kv b) (keyArticleSlug (generateSlug t)) = None" "row_by_slug b (generateSlug t) = None"
    and "parseUint (generateSlug t) = 0"
  shows "(let (r1, b1) = CreateArticle e c t x ex cv cat [] b
          in is_ok r1 \<and> fst (CreateArticle e2 c t x ex cv cat [] b1) = Inl ErrSlugAlreadyExists \<and>
             fst (GetArticle e2 c (generateSlug t) b1) = Inl ErrArticleNotFound)"
proof -
  let ?a = "new_article t (generateSlug t) x (if ex = [] then truncateContent x MaxExcerptLength else ex) cv u cat []"
  let ?b1 = "created_state e ?a b"
  obtain a where c1: "CreateArticle e c t x ex cv cat [] b = (Inr a, ?b1)"
    using CreateArticle_fresh [OF assms(1,5,6,7,8)] by blast
  have slug: "Slug ?a = generateSlug t" by (simp add: new_article_def)
  have live: "live e2 (kv ?b1) (keyArticleSlug (generateSlug t)) = Some (Raw nullSentinel)"
    using created_cache [OF assms(1,3), of ?a b] by (simp only: slug)
  then have miss: "articleRepo_FindBySlug e2 (generateSlug t) ?b1 = (Inl ErrArticleNotFound, ?b1)"
    using assms(2) by (simp add: articleRepo_FindBySlug_def rc_get_def)
  have "(100::nat) = Suc 99" by simp
  then have "ensureUniqueSlug e2 (generateSlug t) ?b1 = (Inr (generateSlug t), ?b1)"
    unfolding ensureUniqueSlug_def by (simp only: try_slugs.simps) (simp add: slug_candidate_def miss)
  moreover have "slug_taken ?b1 (generateSlug t)"
    using created_row [OF assms(4), of ?a e] assms(8) by (simp add: slug_taken_def slug)
  ultimately have "fst (CreateArticle e2 c t x ex cv cat [] ?b1) = Inl ErrSlugAlreadyExists"
    using assms(2,5,6)
    by (simp add: CreateArticle_def Let_def articleRepo_Create_def new_article_def is_conflict_def errs)
  moreover have "fst (GetArticle e2 c (generateSlug t) ?b1) = Inl ErrArticleNotFound"
    using assms(9) miss by (simp add: GetArticle_def Let_def)
  ultimately show ?thesis using c1 by (simp add: Let_def)
qed

lemma slug_ab: "generateSlug ''ab'' = ''ab''"
  by (rule generateSlug_fix) (simp_all add: slug_ok_def slug_char_def is_digit_def is_dash_def byte_def has_prefix_def)

lemma valid_ab: "validateArticleInput ''ab'' ''x'' = None"
  by (simp add: validateArticleInput_def validateTitle_def MinTitleLength_def MaxTitleLength_def MaxContentLength_def)

lemma parse_ab: "parseUint ''ab'' = 0"
  by (simp add: parseUint_def is_digit_def byte_def)

lemma blog0_simps [simp]: "kv blog0 = Map.empty" "articles blog0 = []" "next_article blog0 = 1" "arts_ok blog0"
  by (simp_all add: blog0_def arts_ok_def)

lemma blog0_slug [simp]: "row_by_slug blog0 s = None" "live e Map.empty k = None"
  by (simp_all add: row_by_slug_def live_def)

theorem create_leaves_stale_miss_witness:
  "let (r1, b1) = CreateArticle env0 (as_user 7 []) ''ab'' ''x'' ''x'' [] None [] blog0
   in is_ok r1 \<and> fst (CreateArticle env0 (as_user 7 []) ''ab'' ''x'' ''x'' [] None [] b1) = Inl ErrSlugAlreadyExists \<and>
      fst (GetArticle env0 (as_user 7 []) (generateSlug ''ab'') b1) = Inl ErrArticleNotFound"
  by (rule create_leaves_stale_miss [where u = 7])
    (simp_all add: slug_ab valid_ab parse_ab ttlArticleStale_def minute_def)

theorem GetArticle_sound_witness:
  "\<exists>b a. fst (GetArticle env0 (as_user 7 []) ''1'' b) = Inr a \<and> may_see (as_user 7 []) a"
proof -
  let ?c = "as_user 7 []"
  let ?n = "new_article ''ab'' ''ab'' ''x'' ''x'' [] 7 None []"
  let ?b = "created_state env0 ?n blog0"
  obtain a0 where c1: "CreateArticle env0 ?c ''ab'' ''x'' ''x'' [] None [] blog0 = (Inr a0, ?b)"
    using CreateArticle_fresh [of env0 ?c 7 "''ab''" "''x''" blog0 "''x''" "[]" None] by (auto simp: slug_ab valid_ab)
  have "slug_env env0" by (simp add: slug_env_def)
  then have "blog_step slug_env blog0 (snd (CreateArticle env0 ?c ''ab'' ''x'' ''x'' [] None [] blog0))" by (rule step_CreateArticle)
  then have reach: "blog_reach slug_env blog0 ?b" unfolding c1 blog_reach_def by simp
  have nx: "next_article ?b \<le> 2 ^ 63" by (simp add: created_state_def Let_def)
  have p: "parseUint ''1'' = 1" by (simp add: parseUint_def is_digit_def byte_def dec_value_def)
  have "articleRepo_FindByID env0 1 ?b = Inr (load_article env0 ?b (toArticlePO 1 0 ?n))"
    by (simp add: articleRepo_FindByID_def row_by_id_def created_state_def Let_def live_article_def)
  then have "fst (GetArticle env0 ?c ''1'' ?b) = Inr (fillIsLiked env0 ?c (load_article env0 ?b (toArticlePO 1 0 ?n)) ?b)"
    using p by (simp add: GetArticle_def Let_def ensureArticleVisible_def new_article_def)
  with GetArticle_sound [OF reach nx this] show ?thesis by blast
qed

theorem ListArticles_visible_witness:
  "list_all (may_see (as_user 3 [])) (fst (projr (ListArticles env0 (\<lambda>cl xs. xs) (as_user 3 [])
      \<lparr>q_Status = [], q_CategoryID = None, q_Tags = [], q_AuthorID = None, q_SortBy = [], q_SortOrder = [],
       q_Page = 1, q_PageSize = 10\<rparr> (one_article Published))))"
proof -
  let ?q = "\<lparr>q_Status = [], q_CategoryID = None, q_Tags = [], q_AuthorID = None, q_SortBy = [], q_SortOrder = [],
       q_Page = 1, q_PageSize = 10\<rparr>"
  obtain as n where r: "ListArticles env0 (\<lambda>cl xs. xs) (as_user 3 []) ?q (one_article Published) = Inr (as, n)"
  proof -
    have "\<exists>r. ListArticles env0 (\<lambda>cl xs. xs) (as_user 3 []) ?q (one_article Published) = Inr r"
      by (simp add: ListArticles_def articleRepo_List_def Let_def)
    then show thesis using that by auto
  qed
  from ListArticles_visible [OF r] show ?thesis unfolding r by (simp add: list_all_iff)
qed

end
