(* ===== verification/Counts.thy ===== *)
theory Counts
  imports ArticleProps
begin

text \<open>
  The article counts of categories: every operation on an article moves the count of a category by as
  much as the number of published articles in it changes. The difference of the two, the gap, is the
  same before and after.
\<close>

section \<open>The gap of a category\<close>







section \<open>Counting calls\<close>

lemma cat_by_id_core: "categories b' = categories b \<Longrightarrow> cat_by_id b' j = cat_by_id b j"
  by (simp add: cat_by_id_def)




lemma core_adjust [simp]: "core (adjust_counts e adjs b) = core b"
  unfolding adjust_counts_def by (induction adjs arbitrary: b) auto

lemma core_move [simp]: "core (move_counts e a d b) = core b"
  by (simp add: move_counts_def Let_def split: option.split)

lemma cats_tag_calls [simp]:
  "categories (snd (articleRepo_UpdateTagsArticleCount e ids d b)) = categories b"
  "categories (snd (articleRepo_SyncTags e i ids b)) = categories b"
  "categories (snd (articleRepo_AssociateTags e i ids b)) = categories b"
  "categories (snd (tagRepo_FindOrCreate e n s b)) = categories b"
  "categories (invalidateCache e k b) = categories b" "categories (offer ev b) = categories b"
  "categories (snd (articleRepo_FindBySlug e k b)) = categories b"
  by (simp_all add: articleRepo_UpdateTagsArticleCount_def articleRepo_SyncTags_def articleRepo_AssociateTags_def
      tagRepo_FindOrCreate_def insert_tag_def Let_def invalidateCache_def offer_def articleRepo_FindBySlug_def
      find_slug_db_def split: sum.split option.split)





section \<open>The operations\<close>











lemma tags_only [simp]:
  "core (snd (resolveTags e ns b)) = core b \<and> categories (snd (resolveTags e ns b)) = categories b"
proof (induction ns arbitrary: b)
  case (Cons n ns)
  have 1: "core b1 = core b \<and> categories b1 = categories b" if "tagRepo_FindOrCreate e x y b = (r, b1)" for x y r b1
    using core_tag_calls(2) [of e x y b] cats_tag_calls(4) [of e x y b] that by simp
  have 2: "core b2 = core b1 \<and> categories b2 = categories b1" if "resolveTags e ns b1 = (r, b2)" for r b1 b2
    using Cons.IH [of b1] that by simp
  show ?case using Cons.IH 1 2 by (fastforce simp: Let_def split: sum.split prod.split)
qed simp


lemma replace_tags_frame:
  "core (snd (replace_tags e i ns b)) = core b" "categories (snd (replace_tags e i ns b)) = categories b"
proof -
  have 1: "core b1 = core b \<and> categories b1 = categories b" if "resolveTags e xs b = (r, b1)" for xs r b1
    using tags_only [of e xs b] that by simp
  have 2: "core b2 = core b1 \<and> categories b2 = categories b1" if "articleRepo_SyncTags e i ids b1 = (r, b2)" for ids r b1 b2
    using core_join_calls(3) [of e i ids b1] cats_tag_calls(2) [of e i ids b1] that by simp
  show "core (snd (replace_tags e i ns b)) = core b" "categories (snd (replace_tags e i ns b)) = categories b"
    using 1 2 by (auto simp: replace_tags_def split: option.split prod.split sum.split; metis)+
qed

lemma cat_by_id_replace [simp]: "cat_by_id (snd (replace_tags e i ns b)) j = cat_by_id b j"
  by (rule cat_by_id_core) (simp add: replace_tags_frame)


lemma edit_fields_frame [simp]:
  "ID (edit_fields x y z a) = ID a" "Status (edit_fields x y z a) = Status a" "CategoryID (edit_fields x y z a) = CategoryID a"
  by (simp_all add: edit_fields_def set_opt_def split: option.split)

lemma edit_category_frame [simp]: "ID (edit_category cat a) = ID a" "Status (edit_category cat a) = Status a"
  by (simp_all add: edit_category_def set_opt_def split: option.split)







end
