(* ===== verification/ArticleLife.thy ===== *)
theory ArticleLife
  imports Counts
begin

text \<open>
  The life of an article: who may change it, what may become of it, the numbering of its slug, and its
  likes.
\<close>

section \<open>Who may change an article\<close>

definition may_edit :: "ctx \<Rightarrow> blog \<Rightarrow> nat \<Rightarrow> bool" where
  "may_edit c b i \<longleftrightarrow> (\<exists>u po. getCurrentUserID c = Inr u \<and> row_by_id b i = Some po \<and>
     (po_AuthorID po = u \<or> getCurrentRole c = adminRole))"

text \<open>What a refused caller gets: 401 before 404 before 403.\<close>

definition refusal :: "env \<Rightarrow> ctx \<Rightarrow> nat \<Rightarrow> blog \<Rightarrow> err" where
  "refusal e c i b =
    (if \<not> is_ok (getCurrentUserID c) then ErrUserNotAuthenticated
     else if \<not> is_ok (articleRepo_FindByID e i b) then ErrArticleNotFound else ErrNotArticleOwner)"

lemma authorize_refused: "\<not> may_edit c b i \<Longrightarrow> authorizeArticle e c i b = Inl (refusal e c i b)"
  by (auto simp: authorizeArticle_def refusal_def may_edit_def is_ok_def split: sum.split dest: find_row)

text \<open>
  C2. Only the author of an article or an administrator changes it: for everybody else UpdateArticle,
  DeleteArticle, PublishArticle and ArchiveArticle leave the whole service as it was (tables, cache
  and events) and answer 401 without a login, else 404 without such an article, else 403.
\<close>
theorem edits_authorized:
  assumes "\<not> may_edit c b i"
  shows "UpdateArticle e c i to xo exo cvo cat nso b = (Inl (refusal e c i b), b) \<and>
    DeleteArticle e c i b = (Some (refusal e c i b), b) \<and>
    PublishArticle e c i b = (Inl (refusal e c i b), b) \<and>
    ArchiveArticle e c i b = (Inl (refusal e c i b), b)"
  using authorize_refused [OF assms]
  by (simp add: UpdateArticle_def DeleteArticle_def PublishArticle_def ArchiveArticle_def)

lemma one_row: "row_by_id (one_article st) 1 = Some (one_po st)"
  by (simp add: row_by_id_def live_article_def one_article_def one_po_def)

lemmas one_row_simps [simp] = one_row one_row [simplified] one_find [simplified]

theorem edits_authorized_witness:
  "PublishArticle env0 (as_user 3 []) 1 (one_article Draft) = (Inl ErrNotArticleOwner, one_article Draft)"
proof -
  have "\<not> may_edit (as_user 3 []) (one_article Draft) 1"
    by (simp add: may_edit_def adminRole_def) (simp add: one_po_def)
  from edits_authorized [OF this, of env0] show ?thesis by (simp add: refusal_def is_ok_def)
qed

section \<open>What may become of an article\<close>

text \<open>
  C3. The history of an article: however the service got from one state to another, whatever failed on
  the way, an article that is there and was created before the first state was there in the first
  state too, has the same author, is a draft only if it was one, and has a publication time if it is
  published; no two articles share an id or a slug.
\<close>
theorem article_history:
  assumes "blog_reach (\<lambda>_. True) blog0 b0" "blog_reach (\<lambda>_. True) b0 b" "row_by_id b i = Some p"
  shows "(po_Status p = Published \<longrightarrow> po_PublishedAt p \<noteq> None) \<and>
    (\<forall>q\<in>set (articles b). po_DeletedAt q = None \<and> (po_ID q = i \<or> po_Slug q = po_Slug p) \<longrightarrow> q = p) \<and>
    (i < next_article b0 \<longrightarrow> (\<exists>p0. row_by_id b0 i = Some p0 \<and> po_AuthorID p = po_AuthorID p0 \<and>
       (po_Status p = Draft \<longrightarrow> po_Status p0 = Draft)))"
proof -
  have "hist blog0 blog0" by (simp add: hist_def row_by_id_def)
  from history.reach_I [OF assms(1) this] have "hist blog0 b0" .
  then have "hist b0 b0" by (auto simp: hist_def)
  from history.reach_I [OF assms(2) this] have h: "hist b0 b" .
  then have ok: "arts_ok b" by (simp add: hist_def)
  have "\<forall>q\<in>set (articles b). po_DeletedAt q = None \<and> (po_ID q = i \<or> po_Slug q = po_Slug p) \<longrightarrow> q = p"
    using live_unique [OF ok] row_by_id_Some [OF assms(3)] ok
    by (auto simp: arts_ok_def dest!: inj_onD)
  with h assms(3) show ?thesis unfolding hist_def by blast
qed

text \<open>The state after one CreateArticle in an empty service, for the witnesses.\<close>

definition first_article :: Article where
  "first_article = new_article ''ab'' ''ab'' ''x'' ''x'' [] 7 None []"

definition first_state :: blog where "first_state = created_state env0 first_article blog0"

lemma first_reach: "blog_reach (\<lambda>_. True) blog0 first_state"
proof -
  obtain a where "CreateArticle env0 (as_user 7 []) ''ab'' ''x'' ''x'' [] None [] blog0 = (Inr a, first_state)"
    using CreateArticle_fresh [of env0 "as_user 7 []" 7 "''ab''" "''x''" blog0 "''x''" "[]" None]
    by (auto simp: slug_ab valid_ab first_state_def first_article_def)
  moreover have "blog_step (\<lambda>_. True) blog0 (snd (CreateArticle env0 (as_user 7 []) ''ab'' ''x'' ''x'' [] None [] blog0))"
    by (rule step_CreateArticle) simp
  ultimately show ?thesis unfolding blog_reach_def by simp
qed

lemma first_row: "row_by_id first_state 1 = Some (toArticlePO 1 0 first_article)" "next_article first_state = 2"
  by (simp_all add: first_state_def created_state_def Let_def row_by_id_def live_article_def)

lemma first_fields: "Status first_article = Draft" "AuthorID first_article = 7"
  by (simp_all add: first_article_def new_article_def)

theorem article_history_witness:
  "let b = snd (PublishArticle env0 (as_user 7 []) 1 first_state)
   in \<exists>p. row_by_id b 1 = Some p \<and> po_Status p = Published \<and> po_PublishedAt p \<noteq> None \<and> po_AuthorID p = 7"
proof -
  let ?b = "snd (PublishArticle env0 (as_user 7 []) 1 first_state)"
  let ?ld = "load_article env0 first_state (toArticlePO 1 0 first_article)"
  let ?a = "?ld\<lparr>Status := Published, PublishedAt := Some 0\<rparr>"
  have "blog_step (\<lambda>_. True) first_state ?b" by (rule step_PublishArticle) simp
  then have reach: "blog_reach (\<lambda>_. True) first_state ?b" unfolding blog_reach_def by simp
  have auth: "authorizeArticle env0 (as_user 7 []) 1 first_state = Inr ?ld"
    using first_row(1) by (simp add: authorizeArticle_def articleRepo_FindByID_def first_fields)
  have "fst (articleRepo_Update env0 ?a first_state) = None"
    using first_row(1) by (auto simp: articleRepo_Update_def Let_def first_state_def created_state_def slug_article_def)
  then obtain b1 where u: "articleRepo_Update env0 ?a first_state = (None, b1)" by (metis prod.collapse)
  have "core ?b = core b1"
    using auth u by (simp add: PublishArticle_def Let_def first_fields del: One_nat_def)
  then have "row_by_id ?b 1 = Some (write_article env0 ?a (toArticlePO 1 0 first_article))"
    using row_by_id_core [of ?b b1 1] row_by_id_core [OF article_Update_ok(1) [OF u]] first_row(1)
      row_by_id_update [of "write_article env0 ?a" 1 first_state 1] by (simp add: write_article_def)
  moreover from article_history [OF first_reach reach this] first_row
  have "po_AuthorID (write_article env0 ?a (toArticlePO 1 0 first_article)) = 7"
    by (auto simp: first_fields)
  ultimately show ?thesis by (simp add: write_article_def)
qed

section \<open>Likes\<close>

text \<open>
  C5. The like counter of an article is the number of users who like it: in every state reachable from
  an empty service, whatever failed on the way, the counter of a live article equals the number of its
  live like rows, and no user has two rows for it.
\<close>
theorem like_counter_exact:
  assumes "blog_reach (\<lambda>_. True) blog0 b" "row_by_id b i = Some p"
  shows "po_LikeCount p = int (card {u. articleRepo_IsLiked env0 i u b = Inr True})"
proof -
  have "likes_ok blog0" by (simp add: likes_ok_def) (simp add: blog0_def)
  from likes.reach_I [OF assms(1) this] have l: "likes_ok b" .
  let ?rows = "filter (\<lambda>r. lk_Article r = i \<and> lk_DeletedAt r = None) (articles_likes b)"
  have "{u. articleRepo_IsLiked env0 i u b = Inr True} = lk_User ` set ?rows"
    by (auto simp: articleRepo_IsLiked_def is_like_def filter_empty_conv)
  moreover have "distinct (map lk_User ?rows)"
  proof -
    have "distinct (map (\<lambda>r. (lk_Article r, lk_User r)) (articles_likes b))" using l by (simp add: likes_ok_def)
    then have "distinct (map (\<lambda>r. (lk_Article r, lk_User r)) ?rows)" by (rule distinct_map_filter)
    moreover have "map (\<lambda>r. (lk_Article r, lk_User r)) ?rows = map (Pair i) (map lk_User ?rows)" by simp
    ultimately have "distinct (map (Pair i) (map lk_User ?rows))" by (simp only:)
    then show ?thesis by (rule distinct_map [THEN iffD1, THEN conjunct1])
  qed
  then have "card (lk_User ` set ?rows) = length ?rows"
    using distinct_card [of "map lk_User ?rows"] by simp
  ultimately have "card {u. articleRepo_IsLiked env0 i u b = Inr True} = live_likes b i" by (simp add: live_likes_def)
  with l row_by_id_Some [OF assms(2)] show ?thesis by (auto simp: likes_ok_def)
qed

theorem like_counter_exact_witness:
  "\<exists>p. row_by_id first_state 1 = Some p \<and>
     po_LikeCount p = int (card {u. articleRepo_IsLiked env0 1 u first_state = Inr True})"
  using like_counter_exact [OF first_reach first_row(1)] first_row(1) by simp

text \<open>Liking and unliking a published article in calm weather.\<close>

lemma like_calm:
  assumes "calm e" "row_by_id b i = Some po" "po_Status po = Published" "getCurrentUserID c = Inr u"
    "gate = None \<or> gate = Some (Inr True)"
  shows "LikeArticle e gate c i b = (None, offer (ArticleLiked i u) (snd (articleRepo_InsertLike e i u b)))"
  using assms by (auto simp: LikeArticle_def Let_def articleRepo_FindByID_def articleRepo_InsertLike_def)

lemma unlike_calm:
  assumes "calm e" "row_by_id b i = Some po" "getCurrentUserID c = Inr u"
  shows "UnlikeArticle e c i b = (None, snd (articleRepo_DeleteLike e i u b))"
  using assms by (auto simp: UnlikeArticle_def Let_def articleRepo_FindByID_def articleRepo_DeleteLike_def)

lemma row_DeleteLike:
  "row_by_id (snd (articleRepo_DeleteLike e i u b)) j =
     (if row_by_id (snd (articleRepo_DeleteLike e i u b)) j = row_by_id b j then row_by_id b j
      else map_option (po_LikeCount_update (\<lambda>n. max (n - 1) 0)) (row_by_id b j))"
  using row_by_id_update [of "po_LikeCount_update (\<lambda>n. max (n - 1) 0)" i _ j]
  by (auto simp: articleRepo_DeleteLike_def Let_def row_by_id_def)

lemma status_DeleteLike:
  "row_by_id b i = Some po \<Longrightarrow> \<exists>po'. row_by_id (snd (articleRepo_DeleteLike e i u b)) i = Some po' \<and> po_Status po' = po_Status po"
  using row_DeleteLike [of e i u b i] by (auto split: if_splits)

text \<open>
  A like that was taken back cannot be given again: deleting a like only marks its row, the unique
  index over article and user still holds it, so the next LikeArticle of the same user succeeds,
  offers its event, and changes neither the like rows nor the counter; the article stays not liked.
\<close>
theorem relike_is_lost:
  assumes "calm e" "row_by_id b i = Some po" "po_Status po = Published" "getCurrentUserID c = Inr u"
    and "gate = None \<or> gate = Some (Inr True)" "articleRepo_IsLiked e i u b = Inr True"
  shows "let b1 = snd (UnlikeArticle e c i b); (r, b2) = LikeArticle e gate c i b1
         in r = None \<and> core b2 = core b1 \<and> articleRepo_IsLiked e i u b2 = Inr False"
proof -
  let ?b1 = "snd (articleRepo_DeleteLike e i u b)"
  have u: "UnlikeArticle e c i b = (None, ?b1)" using unlike_calm assms by blast
  obtain po' where po': "row_by_id ?b1 i = Some po'" "po_Status po' = Published"
    using status_DeleteLike [OF assms(2)] assms(3) by metis
  have l: "LikeArticle e gate c i ?b1 = (None, offer (ArticleLiked i u) (snd (articleRepo_InsertLike e i u ?b1)))"
    by (rule like_calm [OF assms(1) po' assms(4,5)])
  have hit: "\<exists>r\<in>set (articles_likes b). is_like i u r \<and> lk_DeletedAt r = None"
    using assms(1,6) by (auto simp: articleRepo_IsLiked_def filter_empty_conv split: if_splits)
  then have b1: "articles_likes ?b1 =
      map (\<lambda>r. if is_like i u r \<and> lk_DeletedAt r = None then r\<lparr>lk_DeletedAt := Some (e_now e)\<rparr> else r) (articles_likes b)"
    using assms(1) by (auto simp: articleRepo_DeleteLike_def Let_def filter_empty_conv)
  have "is_like i u (r\<lparr>lk_DeletedAt := t\<rparr>) = is_like i u r" for r t by (simp add: is_like_def)
  with hit have "\<exists>r\<in>set (articles_likes ?b1). is_like i u r" unfolding b1 by force
  then have "snd (articleRepo_InsertLike e i u ?b1) = ?b1" by (simp add: articleRepo_InsertLike_def)
  moreover have "articleRepo_IsLiked e i u ?b1 = Inr False"
    using assms(1) by (auto simp: articleRepo_IsLiked_def b1 filter_empty_conv)
  ultimately show ?thesis using u l assms(1) by (simp add: offer_def articleRepo_IsLiked_def core_def)
qed

theorem relike_is_lost_witness:
  "let b1 = snd (UnlikeArticle env0 (as_user 3 []) 1 (one_article Published\<lparr>articles_likes := [like_row 1 3]\<rparr>));
       (r, b2) = LikeArticle env0 None (as_user 3 []) 1 b1
   in r = None \<and> core b2 = core b1 \<and> articleRepo_IsLiked env0 1 3 b2 = Inr False"
proof (rule relike_is_lost)
  show "row_by_id (one_article Published\<lparr>articles_likes := [like_row 1 3]\<rparr>) 1 = Some (one_po Published)"
    using one_row [of Published] by (simp add: row_by_id_def)
qed (simp_all add: one_po_def articleRepo_IsLiked_def like_row_def is_like_def)

end
