(* ===== verification/Jwt.thy ===== *)
theory Jwt
  imports Cache Metadata
begin

text \<open>
  Access and refresh tokens (pkg/jwt): issuing and parsing them, the separation of the two kinds, the
  blacklist in the cache, the middleware that reads a caller's identity from a token, and the
  configuration from etcd. Signing and verification belong to the library golang-jwt and are
  parameters; \<^verbatim>\<open>lib_sound\<close> is what its documentation promises.
\<close>

section \<open>Claims and configuration\<close>

definition TokenTypeAccess :: string where "TokenTypeAccess = ''access''"
definition TokenTypeRefresh :: string where "TokenTypeRefresh = ''refresh''"
definition blacklistKeyPrefix :: string where "blacklistKeyPrefix = ''jwt:blacklist:''"

lemma token_types [simp]: "TokenTypeAccess \<noteq> TokenTypeRefresh" "TokenTypeRefresh \<noteq> TokenTypeAccess"
  by (simp_all add: TokenTypeAccess_def TokenTypeRefresh_def)

record Payload =
  pl_UserId :: nat
  pl_UserName :: string
  pl_Role :: string

text \<open>
  \<^verbatim>\<open>ExpiresAt\<close> is a pointer in the library; every token that this code signs has one (\<^verbatim>\<open>claims_for\<close>), so a
  claim without an expiry only comes from a foreign holder of the key and is outside \<^verbatim>\<open>lib_sound\<close>.
\<close>

record Claims =
  TokenType :: string
  cl_Payload :: Payload
  ExpiresAt :: int
  IssuedAt :: int
  cl_Issuer :: string
  cl_ID :: string

record JwtConfig =
  SigningKey :: string
  ExpiredTime :: int
  RefreshExpiredTime :: int
  cfg_Issuer :: string

record TokenPair =
  tp_Access :: string
  tp_Refresh :: string

text \<open>
  The library: signing claims with a key, parsing a token with a key at a time, and the rounding of a
  time in a claim (\<^verbatim>\<open>NewNumericDate\<close>).
\<close>

record jwtlib =
  sign :: "string \<Rightarrow> Claims \<Rightarrow> string res"
  parse :: "string \<Rightarrow> int \<Rightarrow> string \<Rightarrow> Claims res"
  numeric_date :: "int \<Rightarrow> int"

text \<open>
  What the library promises: a signed token is parsed with the same key into the same claims until it
  expires and fails from then on, and no token at all is accepted after the time in its claims.
\<close>

definition lib_sound :: "jwtlib \<Rightarrow> bool" where
  "lib_sound L \<longleftrightarrow>
     (\<forall>k c t now. sign L k c = Inr t \<longrightarrow> now < ExpiresAt c \<longrightarrow> parse L k now t = Inr c) \<and>
     (\<forall>k c t now. parse L k now t = Inr c \<longrightarrow> now < ExpiresAt c) \<and>
     (\<forall>k c c' t now now'. parse L k now t = Inr c \<longrightarrow> parse L k now' t = Inr c' \<longrightarrow> c' = c) \<and>
     (\<forall>k c t now. sign L k c = Inr t \<longrightarrow> ExpiresAt c \<le> now \<longrightarrow> \<not> is_ok (parse L k now t))"

section \<open>Issuing and parsing\<close>

definition claims_for :: "jwtlib \<Rightarrow> JwtConfig \<Rightarrow> int \<Rightarrow> string \<Rightarrow> string \<Rightarrow> int \<Rightarrow> Payload \<Rightarrow> Claims" where
  "claims_for L j now jti kind ttl p =
    \<lparr>TokenType = kind, cl_Payload = p, ExpiresAt = numeric_date L (now + ttl), IssuedAt = numeric_date L now,
     cl_Issuer = cfg_Issuer j, cl_ID = jti\<rparr>"

text \<open>\<^verbatim>\<open>jti\<close> is the uuid drawn for the token.\<close>

definition GenerateToken :: "jwtlib \<Rightarrow> JwtConfig \<Rightarrow> int \<Rightarrow> string \<Rightarrow> Payload \<Rightarrow> string res" where
  "GenerateToken L j now jti p = sign L (SigningKey j) (claims_for L j now jti TokenTypeAccess (ExpiredTime j) p)"

definition refreshTTL :: "JwtConfig \<Rightarrow> int" where
  "refreshTTL j = (if RefreshExpiredTime j \<le> 0 then wrap64 (ExpiredTime j * 7) else RefreshExpiredTime j)"

definition GenerateTokenPair :: "jwtlib \<Rightarrow> JwtConfig \<Rightarrow> int \<Rightarrow> string \<times> string \<Rightarrow> Payload \<Rightarrow> TokenPair res" where
  "GenerateTokenPair L j now jtis p =
    (case GenerateToken L j now (fst jtis) p of
       Inl er \<Rightarrow> Inl er
     | Inr a \<Rightarrow>
       (case sign L (SigningKey j) (claims_for L j now (snd jtis) TokenTypeRefresh (refreshTTL j) p) of
          Inl er \<Rightarrow> Inl er
        | Inr r \<Rightarrow> Inr \<lparr>tp_Access = a, tp_Refresh = r\<rparr>))"

definition AccessTTL :: "JwtConfig \<Rightarrow> int" where "AccessTTL j = ExpiredTime j"

definition ParseToken :: "jwtlib \<Rightarrow> JwtConfig \<Rightarrow> int \<Rightarrow> string \<Rightarrow> Claims res" where
  "ParseToken L j now t = parse L (SigningKey j) now t"

definition ParseAccessToken :: "jwtlib \<Rightarrow> JwtConfig \<Rightarrow> int \<Rightarrow> string \<Rightarrow> Claims res" where
  "ParseAccessToken L j now t =
    (case ParseToken L j now t of
       Inl er \<Rightarrow> Inl er
     | Inr c \<Rightarrow> if TokenType c \<noteq> TokenTypeAccess then Inl (Opaque ''invalid token type: expected access token'') else Inr c)"

definition ParseRefreshToken :: "jwtlib \<Rightarrow> JwtConfig \<Rightarrow> int \<Rightarrow> string \<Rightarrow> Claims res" where
  "ParseRefreshToken L j now t =
    (case ParseToken L j now t of
       Inl er \<Rightarrow> Inl er
     | Inr c \<Rightarrow> if TokenType c \<noteq> TokenTypeRefresh then Inl (Opaque ''invalid token type: expected refresh token'') else Inr c)"

section \<open>The blacklist\<close>

text \<open>\<^verbatim>\<open>on\<close> says whether a cache is there.\<close>

definition bl_key :: "string \<Rightarrow> string" where "bl_key t = blacklistKeyPrefix @ t"

definition bl_AddWithTTL :: "env \<Rightarrow> bool \<Rightarrow> string \<Rightarrow> int \<Rightarrow> 'o rstore \<Rightarrow> err option \<times> 'o rstore" where
  "bl_AddWithTTL e on t ttl m =
    (if \<not> on then (Some (Opaque ''cache is not initialized''), m) else rc_set e (bl_key t) (Raw ''1'') ttl m)"

definition bl_Add :: "env \<Rightarrow> bool \<Rightarrow> string \<Rightarrow> 'o rstore \<Rightarrow> err option \<times> 'o rstore" where
  "bl_Add e on t m = bl_AddWithTTL e on t 0 m"

definition IsTokenBlackListed :: "env \<Rightarrow> bool \<Rightarrow> string \<Rightarrow> 'o rstore \<Rightarrow> bool" where
  "IsTokenBlackListed e on t m =
    (if \<not> on then False else case rc_exists e (bl_key t) m of Inl er \<Rightarrow> False | Inr x \<Rightarrow> x)"

section \<open>The middleware\<close>

definition extractToken :: "string \<Rightarrow> string" where
  "extractToken h = (if has_prefix h ''Bearer '' then trim_prefix h ''Bearer '' else h)"

text \<open>\<^verbatim>\<open>hdr\<close> is the Authorization header, None outside a server transport.\<close>

definition Server :: "jwtlib \<Rightarrow> JwtConfig \<Rightarrow> int \<Rightarrow> string option \<Rightarrow> ctx \<Rightarrow> ctx" where
  "Server L j now hdr c =
    (case hdr of
       None \<Rightarrow> c
     | Some h \<Rightarrow>
       if h = [] \<or> extractToken h = [] then c
       else case ParseAccessToken L j now (extractToken h) of
              Inl er \<Rightarrow> c
            | Inr cl \<Rightarrow>
                NewClientCtx c (Some \<lparr>auth = \<lparr>UserID = pl_UserId (cl_Payload cl), UserName = pl_UserName (cl_Payload cl),
                  Role = pl_Role (cl_Payload cl)\<rparr>, RealClientIp = [], AccessToken = []\<rparr>))"

definition Client :: "ctx \<Rightarrow> ctx" where
  "Client c = (if 0 < UserID (auth (GetRequestMetaData c)) then NewClientCtx c (Some (GetRequestMetaData c)) else c)"

section \<open>The configuration in etcd\<close>

record EtcdJWTConfig =
  ej_SigningKey :: string
  ej_Issuer :: string
  ej_ExpiredHours :: int

text \<open>\<^verbatim>\<open>got\<close> is the answer of etcd (the values of the key), \<^verbatim>\<open>unmarshal\<close> is encoding/json's.\<close>

definition LoadEtcdJWTConfig :: "(string \<Rightarrow> EtcdJWTConfig res) \<Rightarrow> string list res \<Rightarrow> EtcdJWTConfig res" where
  "LoadEtcdJWTConfig unmarshal got =
    (case got of
       Inl er \<Rightarrow> Inl (Wrap ''etcd get'' er)
     | Inr [] \<Rightarrow> Inl (Opaque ''etcd key not found'')
     | Inr (v # vs) \<Rightarrow>
       (case unmarshal v of
          Inl er \<Rightarrow> Inl (Wrap ''parse etcd JWT config'' er)
        | Inr c \<Rightarrow> if ej_SigningKey c = [] then Inl (Opaque ''signing_key is empty in etcd config'') else Inr c))"

definition hour :: int where "hour = 3600000000000"

definition ToJWTConfig :: "EtcdJWTConfig \<Rightarrow> JwtConfig" where
  "ToJWTConfig c =
    \<lparr>SigningKey = ej_SigningKey c,
     ExpiredTime = (if 0 < ej_ExpiredHours c then wrap64 (ej_ExpiredHours c * hour) else hour * 24),
     RefreshExpiredTime = 0, cfg_Issuer = ej_Issuer c\<rparr>"

definition NewJWTEtcd :: "(string \<Rightarrow> EtcdJWTConfig res) \<Rightarrow> string list res \<Rightarrow> JwtConfig res" where
  "NewJWTEtcd unmarshal got =
    (case LoadEtcdJWTConfig unmarshal got of Inl er \<Rightarrow> Inl er | Inr c \<Rightarrow> Inr (ToJWTConfig c))"

section \<open>Lemmas\<close>

lemma claims_for_simps [simp]:
  "TokenType (claims_for L j now jti k ttl p) = k" "cl_Payload (claims_for L j now jti k ttl p) = p"
  "ExpiresAt (claims_for L j now jti k ttl p) = numeric_date L (now + ttl)"
  by (simp_all add: claims_for_def)

lemma pair_signed:
  assumes "GenerateTokenPair L j now jtis p = Inr tp"
  shows "sign L (SigningKey j) (claims_for L j now (fst jtis) TokenTypeAccess (ExpiredTime j) p) = Inr (tp_Access tp)"
    "sign L (SigningKey j) (claims_for L j now (snd jtis) TokenTypeRefresh (refreshTTL j) p) = Inr (tp_Refresh tp)"
  using assms by (auto simp: GenerateTokenPair_def GenerateToken_def split: sum.splits)

lemma parse_signed:
  assumes "lib_sound L" "sign L (SigningKey j) c = Inr t"
  shows "now < ExpiresAt c \<Longrightarrow> ParseToken L j now t = Inr c" "ExpiresAt c \<le> now \<Longrightarrow> \<not> is_ok (ParseToken L j now t)"
  using assms unfolding ParseToken_def lib_sound_def by blast+

lemma ParseAccess_ok: "ParseAccessToken L j now t = Inr c \<longleftrightarrow> ParseToken L j now t = Inr c \<and> TokenType c = TokenTypeAccess"
  by (auto simp: ParseAccessToken_def split: sum.split)

lemma ParseRefresh_ok: "ParseRefreshToken L j now t = Inr c \<longleftrightarrow> ParseToken L j now t = Inr c \<and> TokenType c = TokenTypeRefresh"
  by (auto simp: ParseRefreshToken_def split: sum.split)

lemma parse_live: "lib_sound L \<Longrightarrow> ParseToken L j now t = Inr c \<Longrightarrow> now < ExpiresAt c"
  unfolding lib_sound_def ParseToken_def by blast

lemma parse_unique: "lib_sound L \<Longrightarrow> ParseToken L j now t = Inr c \<Longrightarrow> ParseToken L j now' t = Inr c' \<Longrightarrow> c' = c"
  unfolding lib_sound_def ParseToken_def by blast

lemma bl_key_inj [simp]: "bl_key t = bl_key t' \<longleftrightarrow> t = t'"
  by (simp add: bl_key_def)

text \<open>
  C16. The two kinds of token are separate and carry the identity they were issued for: of an issued pair
  the access token is parsed as an access token until it expires and never as a refresh token, the refresh
  token the other way round, both with the id, name and role of the user they were issued for, and neither
  is accepted once its time has come.
\<close>
theorem token_kinds_separate:
  assumes "lib_sound L" "GenerateTokenPair L j now jtis p = Inr tp"
  shows "(\<forall>c. ParseAccessToken L j t (tp_Access tp) = Inr c \<longrightarrow> cl_Payload c = p) \<and>
    (\<forall>c. ParseRefreshToken L j t (tp_Refresh tp) = Inr c \<longrightarrow> cl_Payload c = p) \<and>
    is_ok (ParseAccessToken L j t (tp_Access tp)) = (t < numeric_date L (now + ExpiredTime j)) \<and>
    is_ok (ParseRefreshToken L j t (tp_Refresh tp)) = (t < numeric_date L (now + refreshTTL j)) \<and>
    \<not> is_ok (ParseRefreshToken L j t (tp_Access tp)) \<and> \<not> is_ok (ParseAccessToken L j t (tp_Refresh tp))"
proof -
  note a = parse_signed [OF assms(1) pair_signed(1) [OF assms(2)], of t]
  note r = parse_signed [OF assms(1) pair_signed(2) [OF assms(2)], of t]
  show ?thesis
    using a r by (cases "t < numeric_date L (now + ExpiredTime j)"; cases "t < numeric_date L (now + refreshTTL j)")
      (auto simp: ParseAccessToken_def ParseRefreshToken_def is_ok_def split: sum.splits)
qed

text \<open>A library that can sign two claims, for the witnesses.\<close>

definition toy_lib :: "Claims \<Rightarrow> Claims \<Rightarrow> jwtlib" where
  "toy_lib a r = \<lparr>sign = (\<lambda>k c. if c = a then Inr ''a'' else if c = r then Inr ''r'' else Inl (Opaque [])),
     parse = (\<lambda>k now t. if t = ''a'' \<and> now < ExpiresAt a then Inr a
        else if t = ''r'' \<and> now < ExpiresAt r then Inr r else Inl (Opaque [])),
     numeric_date = (\<lambda>t. t)\<rparr>"

lemma toy_sound: "lib_sound (toy_lib a r)"
  by (auto simp: lib_sound_def toy_lib_def split: if_splits)

definition toy_config :: JwtConfig where
  "toy_config = \<lparr>SigningKey = ''k'', ExpiredTime = 15 * second, RefreshExpiredTime = 100 * second, cfg_Issuer = ''ley''\<rparr>"

definition toy_claims :: "string \<Rightarrow> int \<Rightarrow> string \<Rightarrow> Payload \<Rightarrow> Claims" where
  "toy_claims kind expiry jti p = \<lparr>TokenType = kind, cl_Payload = p, ExpiresAt = expiry, IssuedAt = 0, cl_Issuer = ''ley'', cl_ID = jti\<rparr>"

definition toy_jwt :: "Payload \<Rightarrow> jwtlib" where
  "toy_jwt p = toy_lib (toy_claims TokenTypeAccess (15 * second) ''1'' p) (toy_claims TokenTypeRefresh (100 * second) ''2'' p)"

lemma toy_pair: "GenerateTokenPair (toy_jwt p) toy_config 0 (''1'', ''2'') p = Inr \<lparr>tp_Access = ''a'', tp_Refresh = ''r''\<rparr>"
  by (simp add: GenerateTokenPair_def GenerateToken_def toy_jwt_def toy_lib_def toy_config_def claims_for_def
      refreshTTL_def toy_claims_def second_def)

theorem token_kinds_separate_witness:
  "let p = \<lparr>pl_UserId = 7, pl_UserName = ''ann'', pl_Role = ''reader''\<rparr> in
   is_ok (ParseAccessToken (toy_jwt p) toy_config (14 * second) ''a'') \<and>
   \<not> is_ok (ParseAccessToken (toy_jwt p) toy_config (15 * second) ''a'') \<and>
   \<not> is_ok (ParseRefreshToken (toy_jwt p) toy_config (14 * second) ''a'')"
proof -
  let ?p = "\<lparr>pl_UserId = 7, pl_UserName = ''ann'', pl_Role = ''reader''\<rparr>"
  have "lib_sound (toy_jwt ?p)" by (simp add: toy_jwt_def toy_sound)
  from token_kinds_separate [OF this toy_pair [of ?p], of "14 * second"] token_kinds_separate [OF this toy_pair [of ?p], of "15 * second"]
  show ?thesis by (simp add: Let_def toy_config_def toy_jwt_def toy_lib_def second_def)
qed

end
