(* ===== verification/Users.thy ===== *)
theory Users
  imports BlogData Jwt
begin

text \<open>
  The users of the auth service (app/auth/internal/biz/user.go, app/auth/internal/data/user.go): the
  entity and its table, validation, the repository with the cache of users by id, and the profile
  operations.
\<close>

section \<open>Users\<close>

datatype UserStatus = Active | Disabled

definition RoleReader :: string where "RoleReader = ''reader''"
definition RoleAuthor :: string where "RoleAuthor = ''author''"
definition RoleAdmin :: string where "RoleAdmin = ''admin''"

record User =
  u_ID :: nat
  u_Username :: string
  u_Email :: string
  u_Password :: string
  u_Avatar :: string
  u_Bio :: string
  u_Status :: UserStatus
  u_Role :: string
  u_CreatedAt :: int
  u_UpdatedAt :: int

record UserPO =
  upo_ID :: nat
  upo_Username :: string
  upo_Email :: string
  upo_Password :: string
  upo_Avatar :: string
  upo_Bio :: string
  upo_Status :: UserStatus
  upo_Role :: string
  upo_CreatedAt :: int
  upo_UpdatedAt :: int
  upo_DeletedAt :: "int option"

definition ErrPasswordTooShort :: err where [errs]: "ErrPasswordTooShort = BadRequest ''PASSWORD_TOO_SHORT''"
definition ErrPasswordTooLong :: err where [errs]: "ErrPasswordTooLong = BadRequest ''PASSWORD_TOO_LONG''"
definition ErrPasswordWeak :: err where [errs]: "ErrPasswordWeak = BadRequest ''PASSWORD_WEAK''"
definition ErrUsernameInvalid :: err where [errs]: "ErrUsernameInvalid = BadRequest ''USERNAME_INVALID''"
definition ErrBioTooLong :: err where [errs]: "ErrBioTooLong = BadRequest ''BIO_TOO_LONG''"
definition ErrUserNotFound :: err where [errs]: "ErrUserNotFound = NotFound ''USER_NOT_FOUND''"
definition ErrUserDuplicate :: err where [errs]: "ErrUserDuplicate = Conflict ''USER_DUPLICATE''"
definition ErrUsernameTaken :: err where [errs]: "ErrUsernameTaken = Conflict ''USERNAME_TAKEN''"
definition ErrEmailTaken :: err where [errs]: "ErrEmailTaken = Conflict ''EMAIL_TAKEN''"
definition ErrBadCredentials :: err where [errs]: "ErrBadCredentials = Unauthorized ''BAD_CREDENTIALS''"
definition ErrAccountDisabled :: err where [errs]: "ErrAccountDisabled = Forbidden ''ACCOUNT_DISABLED''"

section \<open>Validation\<close>

definition MinPasswordLength :: nat where "MinPasswordLength = 8"
definition MaxPasswordLength :: nat where "MaxPasswordLength = 64"
definition MinUsernameLength :: nat where "MinUsernameLength = 3"
definition MaxUsernameLength :: nat where "MaxUsernameLength = 32"
definition MaxBioLength :: nat where "MaxBioLength = 500"

definition is_lower_rune :: "nat \<Rightarrow> bool" where "is_lower_rune r \<longleftrightarrow> 97 \<le> r \<and> r \<le> 122"
definition is_upper_rune :: "nat \<Rightarrow> bool" where "is_upper_rune r \<longleftrightarrow> 65 \<le> r \<and> r \<le> 90"
definition is_digit_rune :: "nat \<Rightarrow> bool" where "is_digit_rune r \<longleftrightarrow> 48 \<le> r \<and> r \<le> 57"

definition validateUsername :: "string \<Rightarrow> err option" where
  "validateUsername s =
    (if length s < MinUsernameLength \<or> MaxUsernameLength < length s then Some ErrUsernameInvalid
     else if \<forall>r\<in>set (runes s). is_lower_rune r \<or> is_upper_rune r \<or> is_digit_rune r \<or> r = 95 \<or> r = 45 then None
     else Some ErrUsernameInvalid)"

definition validatePassword :: "string \<Rightarrow> err option" where
  "validatePassword s =
    (if length s < MinPasswordLength then Some ErrPasswordTooShort
     else if MaxPasswordLength < length s then Some ErrPasswordTooLong
     else if (\<exists>r\<in>set (runes s). is_upper_rune r) \<and> (\<exists>r\<in>set (runes s). is_lower_rune r) \<and>
        (\<exists>r\<in>set (runes s). is_digit_rune r) then None
     else Some ErrPasswordWeak)"

section \<open>The state of the auth service\<close>

text \<open>The tables, the cache (which may be absent) and the events offered to the bus.\<close>

datatype auth_event = UserRegistered nat string string

record authst =
  a_users :: "UserPO list"
  next_user :: nat
  cache_on :: bool
  a_kv :: "User rstore"
  a_out :: "auth_event list"

definition auth0 :: authst where
  "auth0 = \<lparr>a_users = [], next_user = 1, cache_on = True, a_kv = Map.empty, a_out = []\<rparr>"

definition toUser :: "UserPO \<Rightarrow> User" where
  "toUser po = \<lparr>u_ID = upo_ID po, u_Username = upo_Username po, u_Email = upo_Email po, u_Password = upo_Password po,
     u_Avatar = upo_Avatar po, u_Bio = upo_Bio po, u_Status = upo_Status po, u_Role = upo_Role po,
     u_CreatedAt = upo_CreatedAt po, u_UpdatedAt = upo_UpdatedAt po\<rparr>"

definition toUserPO :: "nat \<Rightarrow> int \<Rightarrow> User \<Rightarrow> UserPO" where
  "toUserPO i now u = \<lparr>upo_ID = i, upo_Username = u_Username u, upo_Email = u_Email u, upo_Password = u_Password u,
     upo_Avatar = u_Avatar u, upo_Bio = u_Bio u, upo_Status = u_Status u, upo_Role = u_Role u,
     upo_CreatedAt = now, upo_UpdatedAt = now, upo_DeletedAt = None\<rparr>"

definition live_user :: "UserPO \<Rightarrow> bool" where "live_user po \<longleftrightarrow> upo_DeletedAt po = None"

definition user_by_id :: "authst \<Rightarrow> nat \<Rightarrow> UserPO option" where
  "user_by_id s i = List.find (\<lambda>po. live_user po \<and> upo_ID po = i) (a_users s)"

text \<open>\<^verbatim>\<open>UPDATE ... WHERE id = ?\<close> on the live rows.\<close>

definition set_user :: "(UserPO \<Rightarrow> UserPO) \<Rightarrow> nat \<Rightarrow> authst \<Rightarrow> authst" where
  "set_user f i s = s\<lparr>a_users := map (\<lambda>po. if live_user po \<and> upo_ID po = i then f po else po) (a_users s)\<rparr>"

section \<open>The cache of users\<close>

definition cacheKeyUser :: "nat \<Rightarrow> string" where "cacheKeyUser i = ''auth:user:'' @ show_nat i"
definition cacheTTLUser :: int where "cacheTTLUser = 30 * 60000000000"
definition cacheTTLUserStale :: int where "cacheTTLUserStale = 5 * 60000000000"

definition user_null :: string where "user_null = ''null''"
definition null_sentinel :: err where "null_sentinel = Opaque ''null sentinel''"

definition readCache :: "env \<Rightarrow> string \<Rightarrow> authst \<Rightarrow> User res" where
  "readCache e k s =
    (if \<not> cache_on s then Inl ErrKeyNotFound
     else case rc_get e k (a_kv s) of
            Inl er \<Rightarrow> Inl er
          | Inr (Raw b) \<Rightarrow> if b = user_null then Inl null_sentinel else Inl (Wrap ''cache deserialize'' (Opaque ''json''))
          | Inr (Json u) \<Rightarrow> Inr u)"

definition kv_put :: "env \<Rightarrow> string \<Rightarrow> User cval \<Rightarrow> int \<Rightarrow> authst \<Rightarrow> authst" where
  "kv_put e k v ttl s = s\<lparr>a_kv := snd (rc_set e k v ttl (a_kv s))\<rparr>"

definition writeCache :: "env \<Rightarrow> string \<Rightarrow> User \<Rightarrow> int \<Rightarrow> authst \<Rightarrow> authst" where
  "writeCache e k u ttl s = (if \<not> cache_on s then s else kv_put e k (Json u) ttl s)"

definition writeNullSentinel :: "env \<Rightarrow> string \<Rightarrow> authst \<Rightarrow> authst" where
  "writeNullSentinel e k s = (if \<not> cache_on s then s else kv_put e k (Raw user_null) cacheTTLUserStale s)"

definition deleteCache :: "env \<Rightarrow> nat \<Rightarrow> authst \<Rightarrow> authst" where
  "deleteCache e i s =
    (if \<not> cache_on s then s else s\<lparr>a_kv := snd (rc_delete e (cacheKeyUser i) (a_kv s))\<rparr>)"

section \<open>The repository\<close>

text \<open>The unique indexes on username and email range over all rows, deleted ones included.\<close>

definition user_clash :: "User \<Rightarrow> authst \<Rightarrow> bool" where
  "user_clash u s \<longleftrightarrow> (\<exists>po\<in>set (a_users s). upo_Username po = u_Username u \<or> upo_Email po = u_Email u)"

definition userRepo_Create :: "env \<Rightarrow> User \<Rightarrow> authst \<Rightarrow> User res \<times> authst" where
  "userRepo_Create e u s =
    (let dberr = (if db_fault e [''users.insert''] then Some db_error
                  else if user_clash u s then Some dup_error else None)
     in case dberr of
          Some er \<Rightarrow>
            if IsUniqueViolation (Some er) then (Inl ErrUserDuplicate, s) else (Inl (Wrap ''create user'' er), s)
        | None \<Rightarrow>
            let po = toUserPO (next_user s) (e_now e) u
            in (Inr (u\<lparr>u_ID := upo_ID po, u_CreatedAt := upo_CreatedAt po, u_UpdatedAt := upo_UpdatedAt po\<rparr>),
                s\<lparr>a_users := a_users s @ [po], next_user := next_user s + 1\<rparr>))"

definition userRepo_UpdateProfile :: "env \<Rightarrow> nat \<Rightarrow> string \<Rightarrow> string \<Rightarrow> authst \<Rightarrow> err option \<times> authst" where
  "userRepo_UpdateProfile e i avatar bio s =
    (if db_fault e [''users.profile''] then (Some (Wrap ''update user profile'' db_error), s)
     else if user_by_id s i = None then (Some ErrUserNotFound, s)
     else (None, deleteCache e i
             (set_user (\<lambda>po. po\<lparr>upo_Avatar := avatar, upo_Bio := bio, upo_UpdatedAt := e_now e\<rparr>) i s)))"

definition userRepo_Delete :: "env \<Rightarrow> nat \<Rightarrow> authst \<Rightarrow> err option \<times> authst" where
  "userRepo_Delete e i s =
    (if db_fault e [''users.by_id''] then (Some (Wrap ''delete user'' db_error), s)
     else if user_by_id s i = None then (Some ErrUserNotFound, s)
     else if db_fault e [''users.delete''] then (Some (Wrap ''delete user'' db_error), s)
     else (None, deleteCache e i (set_user (\<lambda>po. po\<lparr>upo_DeletedAt := Some (e_now e)\<rparr>) i s)))"

definition userRepo_FindByID :: "env \<Rightarrow> nat \<Rightarrow> authst \<Rightarrow> User res \<times> authst" where
  "userRepo_FindByID e i s =
    (case readCache e (cacheKeyUser i) s of
       Inr u \<Rightarrow> (Inr u, s)
     | Inl er \<Rightarrow>
       if er = null_sentinel then (Inl ErrUserNotFound, s)
       else if db_fault e [''users.by_id''] then (Inl (Wrap ''find user by id'' db_error), s)
       else case user_by_id s i of
              None \<Rightarrow> (Inl ErrUserNotFound, writeNullSentinel e (cacheKeyUser i) s)
            | Some po \<Rightarrow> (Inr (toUser po), writeCache e (cacheKeyUser i) (toUser po) cacheTTLUser s))"

definition find_user :: "env \<Rightarrow> string \<Rightarrow> (UserPO \<Rightarrow> bool) \<Rightarrow> authst \<Rightarrow> User res" where
  "find_user e what P s =
    (if db_fault e [what] then Inl (Wrap what db_error)
     else case List.find (\<lambda>po. live_user po \<and> P po) (a_users s) of
            None \<Rightarrow> Inl ErrUserNotFound | Some po \<Rightarrow> Inr (toUser po))"

definition userRepo_FindByUsername :: "env \<Rightarrow> string \<Rightarrow> authst \<Rightarrow> User res" where
  "userRepo_FindByUsername e n s = find_user e ''find user by username'' (\<lambda>po. upo_Username po = n) s"

definition userRepo_FindByEmail :: "env \<Rightarrow> string \<Rightarrow> authst \<Rightarrow> User res" where
  "userRepo_FindByEmail e m s = find_user e ''find user by email'' (\<lambda>po. upo_Email po = m) s"

text \<open>\<^verbatim>\<open>First\<close> takes the row of the smallest id; rows are in the order of their ids.\<close>

definition userRepo_FindByAccount :: "env \<Rightarrow> string \<Rightarrow> authst \<Rightarrow> User res" where
  "userRepo_FindByAccount e a s = find_user e ''find user by account'' (\<lambda>po. upo_Username po = a \<or> upo_Email po = a) s"

text \<open>\<^verbatim>\<open>ord\<close> is what the database does for ORDER BY created_at DESC.\<close>

definition userRepo_List ::
  "env \<Rightarrow> (UserPO list \<Rightarrow> UserPO list) \<Rightarrow> int \<Rightarrow> int \<Rightarrow> authst \<Rightarrow> (User list \<times> nat) res" where
  "userRepo_List e ord page0 size0 s =
    (let page = (if page0 < 1 then 1 else page0);
         psize = (if size0 < 1 \<or> 100 < size0 then 20 else size0);
         rows = filter live_user (a_users s)
     in if db_fault e [''users.count''] then Inl (Wrap ''count users'' db_error)
        else if length rows = 0 then Inr ([], 0)
        else if db_fault e [''users.list''] then Inl (Wrap ''list users'' db_error)
        else Inr (map toUser (page_slice (nat ((page - 1) * psize)) (nat psize) (ord rows)), length rows))"

definition userRepo_UpdateStatus :: "env \<Rightarrow> nat \<Rightarrow> UserStatus \<Rightarrow> authst \<Rightarrow> err option \<times> authst" where
  "userRepo_UpdateStatus e i st s =
    (if db_fault e [''users.status''] then (Some (Wrap ''update user status'' db_error), s)
     else if user_by_id s i = None then (Some ErrUserNotFound, s)
     else (None, deleteCache e i (set_user (\<lambda>po. po\<lparr>upo_Status := st, upo_UpdatedAt := e_now e\<rparr>) i s)))"

section \<open>UserUseCase\<close>

definition GetProfile :: "env \<Rightarrow> nat \<Rightarrow> authst \<Rightarrow> User res \<times> authst" where
  "GetProfile e i s =
    (case userRepo_FindByID e i s of (Inl er, s1) \<Rightarrow> (Inl ErrUserNotFound, s1) | (Inr u, s1) \<Rightarrow> (Inr u, s1))"

definition UpdateProfile :: "env \<Rightarrow> nat \<Rightarrow> string \<Rightarrow> string \<Rightarrow> authst \<Rightarrow> User res \<times> authst" where
  "UpdateProfile e i avatar bio s =
    (if MaxBioLength < length bio then (Inl ErrBioTooLong, s)
     else case userRepo_FindByID e i s of
            (Inl er, s1) \<Rightarrow> (Inl ErrUserNotFound, s1)
          | (Inr u, s1) \<Rightarrow>
            (case userRepo_UpdateProfile e i avatar bio s1 of
               (Some er, s2) \<Rightarrow> (Inl (Wrap ''update profile'' er), s2)
             | (None, s2) \<Rightarrow> (Inr (u\<lparr>u_Avatar := avatar, u_Bio := bio\<rparr>), s2)))"

definition FindUser :: "env \<Rightarrow> nat \<Rightarrow> authst \<Rightarrow> User res \<times> authst" where
  "FindUser e i s =
    (case userRepo_FindByID e i s of (Inl er, s1) \<Rightarrow> (Inl ErrUserNotFound, s1) | (Inr u, s1) \<Rightarrow> (Inr u, s1))"

definition ListUsers ::
  "env \<Rightarrow> (UserPO list \<Rightarrow> UserPO list) \<Rightarrow> int \<Rightarrow> int \<Rightarrow> authst \<Rightarrow> (User list \<times> nat) res" where
  "ListUsers e ord page psize s = userRepo_List e ord page psize s"

definition UpdateStatus :: "env \<Rightarrow> nat \<Rightarrow> UserStatus \<Rightarrow> authst \<Rightarrow> err option \<times> authst" where
  "UpdateStatus e i st s =
    (case userRepo_UpdateStatus e i st s of (Some er, s1) \<Rightarrow> (Some er, s1) | (None, s1) \<Rightarrow> (None, s1))"

definition DeleteUser :: "env \<Rightarrow> nat \<Rightarrow> authst \<Rightarrow> err option \<times> authst" where
  "DeleteUser e i s =
    (case userRepo_Delete e i s of (Some er, s1) \<Rightarrow> (Some er, s1) | (None, s1) \<Rightarrow> (None, s1))"

end
