(* ===== verification/AuthUse.thy ===== *)
theory AuthUse
  imports Users
begin

text \<open>
  The authentication use case and service (app/auth/internal/biz/auth.go,
  app/auth/internal/service/service.go, pkg/security/password.go): registration, login, rotation of
  refresh tokens, logout, and the handlers over them.
\<close>

section \<open>Passwords\<close>

text \<open>The bcrypt library; \<^verbatim>\<open>bcrypt_ok\<close>: a hash it made verifies against its password.\<close>

record bcrypt =
  bc_hash :: "string \<Rightarrow> string res"
  bc_compare :: "string \<Rightarrow> string \<Rightarrow> err option"

definition HashPassword :: "bcrypt \<Rightarrow> string \<Rightarrow> string res" where
  "HashPassword B p = (case bc_hash B p of Inl er \<Rightarrow> Inl er | Inr h \<Rightarrow> Inr h)"

definition VerifyPassword :: "bcrypt \<Rightarrow> string \<Rightarrow> string \<Rightarrow> bool" where
  "VerifyPassword B p h \<longleftrightarrow> bc_compare B h p = None"

definition bcrypt_ok :: "bcrypt \<Rightarrow> bool" where
  "bcrypt_ok B \<longleftrightarrow> (\<forall>p h. bc_hash B p = Inr h \<longrightarrow> bc_compare B h p = None)"

section \<open>AuthUseCase\<close>

text \<open>What the use case is built with.\<close>

record authcfg =
  ac_lib :: jwtlib
  ac_jwt :: JwtConfig
  ac_bcrypt :: bcrypt

definition payload_of :: "User \<Rightarrow> Payload" where
  "payload_of u = \<lparr>pl_UserId = u_ID u, pl_UserName = u_Username u, pl_Role = u_Role u\<rparr>"

definition issue :: "authcfg \<Rightarrow> env \<Rightarrow> string \<times> string \<Rightarrow> User \<Rightarrow> TokenPair res" where
  "issue A e jtis u = GenerateTokenPair (ac_lib A) (ac_jwt A) (e_now e) jtis (payload_of u)"

definition ErrHashFailed :: err where "ErrHashFailed = Kratos 500 ''HASH_FAILED''"
definition ErrTokenFailed :: err where "ErrTokenFailed = Kratos 500 ''TOKEN_FAILED''"
definition ErrTokenInvalid :: err where "ErrTokenInvalid = Unauthorized ''TOKEN_INVALID''"
definition ErrTokenBlacklisted :: err where "ErrTokenBlacklisted = Unauthorized ''TOKEN_BLACKLISTED''"

definition Register ::
  "authcfg \<Rightarrow> env \<Rightarrow> string \<times> string \<Rightarrow> string \<Rightarrow> string \<Rightarrow> string \<Rightarrow> authst \<Rightarrow> (TokenPair \<times> User) res \<times> authst" where
  "Register A e jtis username email password s =
    (case validateUsername username of
       Some er \<Rightarrow> (Inl er, s)
     | None \<Rightarrow>
     (case validatePassword password of
        Some er \<Rightarrow> (Inl er, s)
      | None \<Rightarrow>
        if is_ok (userRepo_FindByUsername e username s) then (Inl ErrUsernameTaken, s)
        else if is_ok (userRepo_FindByEmail e email s) then (Inl ErrEmailTaken, s)
        else
        (case HashPassword (ac_bcrypt A) password of
           Inl er \<Rightarrow> (Inl ErrHashFailed, s)
         | Inr h \<Rightarrow>
           (case userRepo_Create e \<lparr>u_ID = 0, u_Username = username, u_Email = email, u_Password = h, u_Avatar = [],
                u_Bio = [], u_Status = Active, u_Role = RoleReader, u_CreatedAt = 0, u_UpdatedAt = 0\<rparr> s of
              (Inl er, s1) \<Rightarrow> if is_conflict er then (Inl er, s1) else (Inl (Wrap ''register'' er), s1)
            | (Inr u, s1) \<Rightarrow>
              (case issue A e jtis u of
                 Inl er \<Rightarrow> (Inl ErrTokenFailed, s1)
               | Inr p \<Rightarrow>
                 (Inr (p, u), s1\<lparr>a_out := a_out s1 @ [UserRegistered (u_ID u) (u_Username u) (u_Email u)]\<rparr>))))))"

definition Login ::
  "authcfg \<Rightarrow> env \<Rightarrow> string \<times> string \<Rightarrow> string \<Rightarrow> string \<Rightarrow> authst \<Rightarrow> (TokenPair \<times> User) res" where
  "Login A e jtis account password s =
    (case userRepo_FindByAccount e account s of
       Inl er \<Rightarrow> Inl ErrBadCredentials
     | Inr u \<Rightarrow>
       if u_Status u \<noteq> Active then Inl ErrAccountDisabled
       else if \<not> VerifyPassword (ac_bcrypt A) password (u_Password u) then Inl ErrBadCredentials
       else case issue A e jtis u of Inl er \<Rightarrow> Inl ErrTokenFailed | Inr p \<Rightarrow> Inr (p, u))"

definition tokenRemainingTTL :: "env \<Rightarrow> Claims \<Rightarrow> int" where
  "tokenRemainingTTL e c = (let ttl = ExpiresAt c - e_now e in if ttl \<le> 0 then second else ttl)"

definition revoke :: "env \<Rightarrow> string \<Rightarrow> Claims \<Rightarrow> authst \<Rightarrow> authst" where
  "revoke e t c s = s\<lparr>a_kv := snd (bl_AddWithTTL e (cache_on s) t (tokenRemainingTTL e c) (a_kv s))\<rparr>"

definition RefreshToken ::
  "authcfg \<Rightarrow> env \<Rightarrow> string \<times> string \<Rightarrow> string \<Rightarrow> authst \<Rightarrow> (TokenPair \<times> User) res \<times> authst" where
  "RefreshToken A e jtis t s =
    (case ParseRefreshToken (ac_lib A) (ac_jwt A) (e_now e) t of
       Inl er \<Rightarrow> (Inl ErrTokenInvalid, s)
     | Inr c \<Rightarrow>
       if cache_on s \<and> IsTokenBlackListed e (cache_on s) t (a_kv s) then (Inl ErrTokenBlacklisted, s)
       else
       (case userRepo_FindByID e (pl_UserId (cl_Payload c)) s of
          (Inl er, s1) \<Rightarrow> (Inl ErrUserNotFound, s1)
        | (Inr u, s1) \<Rightarrow>
          if u_Status u \<noteq> Active then (Inl ErrAccountDisabled, s1)
          else (case issue A e jtis u of
                  Inl er \<Rightarrow> (Inl (Wrap ''refresh token'' er), s1)
                | Inr p \<Rightarrow> (Inr (p, u), if cache_on s1 then revoke e t c s1 else s1))))"

definition revoke_if ::
  "env \<Rightarrow> (string \<Rightarrow> Claims res) \<Rightarrow> string \<Rightarrow> authst \<Rightarrow> authst" where
  "revoke_if e prs t s =
    (if t = [] then s else case prs t of Inl er \<Rightarrow> s | Inr c \<Rightarrow> revoke e t c s)"

definition Logout :: "authcfg \<Rightarrow> env \<Rightarrow> string \<Rightarrow> string \<Rightarrow> authst \<Rightarrow> err option \<times> authst" where
  "Logout A e access refresh s =
    (if \<not> cache_on s then (None, s)
     else (None, revoke_if e (ParseRefreshToken (ac_lib A) (ac_jwt A) (e_now e)) refresh
                   (revoke_if e (ParseAccessToken (ac_lib A) (ac_jwt A) (e_now e)) access s)))"

section \<open>The service\<close>

record UserInfo =
  ui_Id :: nat
  ui_Username :: string
  ui_Email :: string
  ui_Avatar :: string
  ui_Bio :: string
  ui_Role :: string
  ui_CreatedAt :: string
  ui_UpdatedAt :: string

record TokenReply =
  tr_Access :: string
  tr_Refresh :: string
  tr_ExpiresIn :: int

text \<open>\<^verbatim>\<open>rfc3339\<close> is time's formatting of an instant in UTC.\<close>

definition toUserInfo :: "(int \<Rightarrow> string) \<Rightarrow> User \<Rightarrow> UserInfo" where
  "toUserInfo rfc3339 u = \<lparr>ui_Id = u_ID u, ui_Username = u_Username u, ui_Email = u_Email u, ui_Avatar = u_Avatar u,
     ui_Bio = u_Bio u, ui_Role = u_Role u, ui_CreatedAt = rfc3339 (u_CreatedAt u), ui_UpdatedAt = rfc3339 (u_UpdatedAt u)\<rparr>"

text \<open>\<^verbatim>\<open>int64(d.Seconds())\<close> drops the fraction towards zero.\<close>

definition toTokenPair :: "TokenPair \<Rightarrow> int \<Rightarrow> TokenReply" where
  "toTokenPair p ttl = \<lparr>tr_Access = tp_Access p, tr_Refresh = tp_Refresh p,
     tr_ExpiresIn = (if 0 \<le> ttl then ttl div second else - ((- ttl) div second))\<rparr>"

definition getUserID :: "ctx \<Rightarrow> nat" where
  "getUserID c = (if 0 < UserID (auth (GetRequestMetaData c)) then UserID (auth (GetRequestMetaData c)) else 0)"

text \<open>\<^verbatim>\<open>hdr\<close> is the Authorization header of the transport, None without one.\<close>

definition access_token_of :: "string option \<Rightarrow> ctx \<Rightarrow> string" where
  "access_token_of hdr c =
    (case hdr of
       None \<Rightarrow> AccessToken (GetRequestMetaData c)
     | Some h \<Rightarrow>
       if length ''Bearer '' < length h \<and> take (length ''Bearer '') h = ''Bearer '' then drop (length ''Bearer '') h
       else if h \<noteq> [] then h else AccessToken (GetRequestMetaData c))"

definition reply_pair :: "authcfg \<Rightarrow> (int \<Rightarrow> string) \<Rightarrow> (TokenPair \<times> User) res \<Rightarrow> (UserInfo \<times> TokenReply) res" where
  "reply_pair A rfc r =
    (case r of Inl er \<Rightarrow> Inl er | Inr (p, u) \<Rightarrow> Inr (toUserInfo rfc u, toTokenPair p (AccessTTL (ac_jwt A))))"

definition svc_Register ::
  "authcfg \<Rightarrow> (int \<Rightarrow> string) \<Rightarrow> env \<Rightarrow> string \<times> string \<Rightarrow> string \<Rightarrow> string \<Rightarrow> string \<Rightarrow> authst \<Rightarrow>
    (UserInfo \<times> TokenReply) res \<times> authst" where
  "svc_Register A rfc e jtis n m p s = (let (r, s1) = Register A e jtis n m p s in (reply_pair A rfc r, s1))"

definition svc_Login ::
  "authcfg \<Rightarrow> (int \<Rightarrow> string) \<Rightarrow> env \<Rightarrow> string \<times> string \<Rightarrow> string \<Rightarrow> string \<Rightarrow> authst \<Rightarrow> (UserInfo \<times> TokenReply) res" where
  "svc_Login A rfc e jtis a p s = reply_pair A rfc (Login A e jtis a p s)"

definition svc_RefreshToken ::
  "authcfg \<Rightarrow> (int \<Rightarrow> string) \<Rightarrow> env \<Rightarrow> string \<times> string \<Rightarrow> string \<Rightarrow> authst \<Rightarrow> (UserInfo \<times> TokenReply) res \<times> authst" where
  "svc_RefreshToken A rfc e jtis t s = (let (r, s1) = RefreshToken A e jtis t s in (reply_pair A rfc r, s1))"

definition svc_Logout :: "authcfg \<Rightarrow> env \<Rightarrow> string option \<Rightarrow> ctx \<Rightarrow> string \<Rightarrow> authst \<Rightarrow> err option \<times> authst" where
  "svc_Logout A e hdr c refresh s = Logout A e (access_token_of hdr c) refresh s"

definition svc_GetProfile :: "(int \<Rightarrow> string) \<Rightarrow> env \<Rightarrow> ctx \<Rightarrow> authst \<Rightarrow> UserInfo res \<times> authst" where
  "svc_GetProfile rfc e c s =
    (case GetProfile e (getUserID c) s of (Inl er, s1) \<Rightarrow> (Inl er, s1) | (Inr u, s1) \<Rightarrow> (Inr (toUserInfo rfc u), s1))"

definition svc_UpdateProfile :: "(int \<Rightarrow> string) \<Rightarrow> env \<Rightarrow> ctx \<Rightarrow> string \<Rightarrow> string \<Rightarrow> authst \<Rightarrow> UserInfo res \<times> authst" where
  "svc_UpdateProfile rfc e c avatar bio s =
    (case UpdateProfile e (getUserID c) avatar bio s of
       (Inl er, s1) \<Rightarrow> (Inl er, s1) | (Inr u, s1) \<Rightarrow> (Inr (toUserInfo rfc u), s1))"

section \<open>The service as a state machine\<close>

text \<open>Every operation with any arguments, in an environment that satisfies \<^verbatim>\<open>ok\<close>; administration included.\<close>

inductive auth_step :: "authcfg \<Rightarrow> (env \<Rightarrow> bool) \<Rightarrow> authst \<Rightarrow> authst \<Rightarrow> bool" for A ok where
  Register: "ok e \<Longrightarrow> auth_step A ok s (snd (Register A e jtis n m p s))"
| Refresh: "ok e \<Longrightarrow> auth_step A ok s (snd (RefreshToken A e jtis t s))"
| Logout: "ok e \<Longrightarrow> auth_step A ok s (snd (Logout A e ta tr s))"
| Profile: "ok e \<Longrightarrow> auth_step A ok s (snd (GetProfile e i s))"
| Edit: "ok e \<Longrightarrow> auth_step A ok s (snd (UpdateProfile e i av bio s))"
| Status: "ok e \<Longrightarrow> auth_step A ok s (snd (UpdateStatus e i st s))"
| Delete: "ok e \<Longrightarrow> auth_step A ok s (snd (DeleteUser e i s))"

inductive_cases auth_stepE: "auth_step A ok s s'"

definition auth_reach :: "authcfg \<Rightarrow> (env \<Rightarrow> bool) \<Rightarrow> authst \<Rightarrow> authst \<Rightarrow> bool" where
  "auth_reach A ok = (auth_step A ok)\<^sup>*\<^sup>*"

section \<open>Invariants of the service\<close>

text \<open>
  What an invariant has to survive: a new row, a change of the profile or status, a deletion, the entries
  of the user cache, and a revoked token. From these it survives every operation.
\<close>

locale auth_invariant =
  fixes A :: authcfg
    and I :: "authst \<Rightarrow> bool"
    and ok :: "env \<Rightarrow> bool"
  assumes I_out: "I s \<Longrightarrow> I (s\<lparr>a_out := out\<rparr>)"
    and I_create: "ok e \<Longrightarrow> I s \<Longrightarrow> I (snd (userRepo_Create e u s))"
    and I_profile: "ok e \<Longrightarrow> I s \<Longrightarrow> I (snd (userRepo_UpdateProfile e i av bio s))"
    and I_status: "ok e \<Longrightarrow> I s \<Longrightarrow> I (snd (userRepo_UpdateStatus e i st s))"
    and I_delete: "ok e \<Longrightarrow> I s \<Longrightarrow> I (snd (userRepo_Delete e i s))"
    and I_find: "ok e \<Longrightarrow> I s \<Longrightarrow> I (snd (userRepo_FindByID e i s))"
    and I_revoke: "ok e \<Longrightarrow> I s \<Longrightarrow> cache_on s \<Longrightarrow> ParseToken (ac_lib A) (ac_jwt A) (e_now e) t = Inr c \<Longrightarrow> I (revoke e t c s)"
begin

lemma Register_I: "ok e \<Longrightarrow> I s \<Longrightarrow> I (snd (Register A e jtis n m p s))"
  using I_create [of e s]
  by (auto simp: Register_def I_out split: option.split sum.split prod.split) (metis snd_conv I_out)+

lemma Refresh_I:
  assumes "ok e" "I s"
  shows "I (snd (RefreshToken A e jtis t s))"
proof -
  have 1: "I s1" if "userRepo_FindByID e i s = (r, s1)" for i r s1
    using I_find [OF assms, of i] that by simp
  show ?thesis
    using assms 1 by (auto simp: RefreshToken_def ParseRefresh_ok split: sum.split prod.split intro: I_revoke)
qed

lemma revoke_if_I:
  assumes "ok e" "I s" "cache_on s" "\<And>c. prs t = Inr c \<Longrightarrow> ParseToken (ac_lib A) (ac_jwt A) (e_now e) t = Inr c"
  shows "I (revoke_if e prs t s)"
  using assms by (auto simp: revoke_if_def split: sum.split intro: I_revoke)

lemma cache_on_revoke_if: "cache_on (revoke_if e prs t s) = cache_on s"
  by (simp add: revoke_if_def revoke_def split: sum.split)

lemma Logout_I: "ok e \<Longrightarrow> I s \<Longrightarrow> I (snd (Logout A e ta tr s))"
  by (auto simp: Logout_def ParseRefresh_ok ParseAccess_ok cache_on_revoke_if intro!: revoke_if_I)

lemma Profile_I: "ok e \<Longrightarrow> I s \<Longrightarrow> I (snd (GetProfile e i s))"
  using I_find [of e s i] by (auto simp: GetProfile_def split: sum.split prod.split)

lemma Edit_I:
  assumes "ok e" "I s"
  shows "I (snd (UpdateProfile e i av bio s))"
proof -
  have 1: "I s1" if "userRepo_FindByID e i s = (r, s1)" for r s1 using I_find [OF assms, of i] that by simp
  have 2: "I s2" if "userRepo_UpdateProfile e i av bio s1 = (r, s2)" "I s1" for r s1 s2
    using I_profile [OF assms(1) that(2), of i av bio] that(1) by simp
  show ?thesis using assms 1 2 by (auto simp: UpdateProfile_def split: sum.split prod.split option.split)
qed

lemma Status_I: "ok e \<Longrightarrow> I s \<Longrightarrow> I (snd (UpdateStatus e i st s))"
  using I_status [of e s i st] by (auto simp: UpdateStatus_def split: prod.split option.split)

lemma Delete_I: "ok e \<Longrightarrow> I s \<Longrightarrow> I (snd (DeleteUser e i s))"
  using I_delete [of e s i] by (auto simp: DeleteUser_def split: prod.split option.split)

lemma step_I: "auth_step A ok s s' \<Longrightarrow> I s \<Longrightarrow> I s'"
  by (induction rule: auth_step.induct)
    (simp_all only: Register_I Refresh_I Logout_I Profile_I Edit_I Status_I Delete_I)

lemma reach_I: "auth_reach A ok s s' \<Longrightarrow> I s \<Longrightarrow> I s'"
  unfolding auth_reach_def by (induction rule: rtranclp_induct) (auto dest: step_I)

end

end
