(* ===== verification/AuthProps.thy ===== *)
theory AuthProps
  imports AuthUse
begin

text \<open>
  The properties of the authentication service: revoked tokens stay revoked up to their last second, tokens go only to active
  accounts with the right password, what the cache of users may hold, and the uniqueness of accounts.
\<close>

section \<open>Keys\<close>

lemma auth_keys [simp]: "cacheKeyUser i \<noteq> bl_key t" "bl_key t \<noteq> cacheKeyUser i"
  "cacheKeyUser i = cacheKeyUser j \<longleftrightarrow> i = j"
  by (simp_all add: cacheKeyUser_def bl_key_def blacklistKeyPrefix_def show_nat_inj)

text \<open>The operations of the repository touch no key of the blacklist.\<close>

lemma bl_frame [simp]:
  "a_kv (snd (userRepo_Create e u s)) = a_kv s"
  "a_kv (snd (userRepo_UpdateProfile e i av bio s)) (bl_key t) = a_kv s (bl_key t)"
  "a_kv (snd (userRepo_UpdateStatus e i st s)) (bl_key t) = a_kv s (bl_key t)"
  "a_kv (snd (userRepo_Delete e i s)) (bl_key t) = a_kv s (bl_key t)"
  "a_kv (snd (userRepo_FindByID e i s)) (bl_key t) = a_kv s (bl_key t)"
  by (simp_all add: userRepo_Create_def userRepo_UpdateProfile_def userRepo_UpdateStatus_def userRepo_Delete_def
      userRepo_FindByID_def Let_def deleteCache_def set_user_def writeCache_def writeNullSentinel_def kv_put_def
      rc_delete_def rc_set_def split: sum.split option.split)

lemma cache_on_frame [simp]:
  "cache_on (kv_put e k v ttl s) = cache_on s"
  "cache_on (snd (userRepo_FindByID e i s)) = cache_on s" "cache_on (revoke e t c s) = cache_on s"
  by (simp_all add: userRepo_FindByID_def writeCache_def writeNullSentinel_def kv_put_def revoke_def
      split: sum.split option.split)

section \<open>Revoked tokens\<close>

text \<open>
  The blacklist holds the token until less than a second before its claims expire: Redis keeps the entry
  for whole seconds.
\<close>

definition revoked :: "string \<Rightarrow> Claims \<Rightarrow> authst \<Rightarrow> bool" where
  "revoked t c s \<longleftrightarrow> cache_on s \<and> (\<exists>v d. a_kv s (bl_key t) = Some (v, Some d) \<and> ExpiresAt c < d + second)"

text \<open>A time outside the last second of a token.\<close>

definition not_last_second :: "int \<Rightarrow> Claims \<Rightarrow> bool" where
  "not_last_second now c \<longleftrightarrow> now + second \<le> ExpiresAt c \<or> ExpiresAt c \<le> now"

lemma revoke_revoked:
  assumes "cache_on s" "e_now e < ExpiresAt c" "\<not> kv_fault e [''set'', bl_key t]"
  shows "revoked t c (revoke e t c s)"
  using assms in_units_close [of second "ExpiresAt c - e_now e"]
  by (simp add: revoked_def revoke_def bl_AddWithTTL_def rc_set_def tokenRemainingTTL_def Let_def deadline_def)

text \<open>
  The gap: an entry made with a second or more to go is over after the whole seconds that were left,
  and the token, which is accepted until its claims expire, is on no blacklist from then on.
\<close>

lemma entry_ends_early:
  assumes "cache_on s" "second \<le> ExpiresAt c - e_now e" "\<not> kv_fault e [''set'', bl_key t]"
    and "e_now e + (ExpiresAt c - e_now e) div second * second \<le> e_now e2"
  shows "\<not> IsTokenBlackListed e2 True t (a_kv (revoke e t c s))"
proof -
  have "0 < ExpiresAt c - e_now e" using assms(2) units_pos(1) by linarith
  with assms show ?thesis
    by (simp add: IsTokenBlackListed_def rc_exists_def revoke_def bl_AddWithTTL_def rc_set_def tokenRemainingTTL_def Let_def
        deadline_def in_units_def live_def)
qed

lemma revoked_kept:
  assumes "lib_sound (ac_lib A)" "ParseToken (ac_lib A) (ac_jwt A) now t = Inr c" "revoked t c s"
    and "ParseToken (ac_lib A) (ac_jwt A) (e_now e) t' = Inr c'"
  shows "revoked t c (revoke e t' c' s)"
proof (cases "t' = t \<and> \<not> kv_fault e [''set'', bl_key t]")
  case True
  with assms have "c' = c" "e_now e < ExpiresAt c'" by (auto intro: parse_unique parse_live)
  with True assms(3) show ?thesis using revoke_revoked [of s e c t] by (simp add: revoked_def)
next
  case False
  with assms(3) show ?thesis by (auto simp: revoked_def revoke_def bl_AddWithTTL_def rc_set_def)
qed

lemma repo_cache_on [simp]:
  "cache_on (snd (userRepo_Create e u s)) = cache_on s"
  "cache_on (snd (userRepo_UpdateProfile e i av bio s)) = cache_on s"
  "cache_on (snd (userRepo_UpdateStatus e i st s)) = cache_on s"
  "cache_on (snd (userRepo_Delete e i s)) = cache_on s"
  by (simp_all add: userRepo_Create_def userRepo_UpdateProfile_def userRepo_UpdateStatus_def userRepo_Delete_def
      Let_def deleteCache_def set_user_def)

interpretation revocation: auth_invariant A
  "\<lambda>s. lib_sound (ac_lib A) \<longrightarrow> ParseToken (ac_lib A) (ac_jwt A) now t = Inr c \<longrightarrow> revoked t c s" "\<lambda>_. True"
  for A now t c
  using revoked_kept [of A now t c] by unfold_locales (simp_all add: revoked_def)

lemma revoked_refused:
  assumes "lib_sound (ac_lib A)" "ParseToken (ac_lib A) (ac_jwt A) now t = Inr c" "revoked t c s"
    and "\<not> kv_fault e [''exists'', bl_key t]" "not_last_second (e_now e) c"
  shows "RefreshToken A e jtis t s = (Inl ErrTokenInvalid, s) \<or> RefreshToken A e jtis t s = (Inl ErrTokenBlacklisted, s)"
proof (cases "ParseRefreshToken (ac_lib A) (ac_jwt A) (e_now e) t")
  case (Inr c')
  then have "c' = c" "e_now e < ExpiresAt c'"
    using assms by (auto simp: ParseRefresh_ok intro: parse_unique parse_live)
  with assms(3-5) Inr show ?thesis
    by (auto simp: RefreshToken_def revoked_def not_last_second_def IsTokenBlackListed_def rc_exists_def live_def)
qed (simp add: RefreshToken_def)


lemma Refresh_success:
  assumes "RefreshToken A e jtis t s = (Inr (p, u), s1)"
  obtains c s0 where "ParseRefreshToken (ac_lib A) (ac_jwt A) (e_now e) t = Inr c"
    "userRepo_FindByID e (pl_UserId (cl_Payload c)) s = (Inr u, s0)" "cache_on s0 = cache_on s"
    "u_Status u = Active" "issue A e jtis u = Inr p" "s1 = (if cache_on s then revoke e t c s0 else s0)"
proof -
  from assms obtain c where c: "ParseRefreshToken (ac_lib A) (ac_jwt A) (e_now e) t = Inr c"
    by (auto simp: RefreshToken_def split: sum.splits)
  obtain ru s0 where f: "userRepo_FindByID e (pl_UserId (cl_Payload c)) s = (ru, s0)" by (cases "userRepo_FindByID e (pl_UserId (cl_Payload c)) s")
  have "cache_on s0 = cache_on s" using cache_on_frame(2) [of e "pl_UserId (cl_Payload c)" s] f by simp
  with assms c f show thesis
    by (intro that [of c s0]) (auto simp: RefreshToken_def split: sum.splits if_splits)
qed

text \<open>
  C14. A refresh token is good for one use, up to its last second: once RefreshToken has answered with a
  new pair, with a cache configured and Redis taking the blacklist entry, the same token is refused
  whenever Redis answers the look-up, as blacklisted or as expired, whatever operations ran in between and
  whatever failed in them; but for times within the last second before the token expires, where the entry,
  kept for whole seconds, can already be gone (\<^verbatim>\<open>entry_ends_early\<close>).
\<close>
theorem refresh_single_use:
  assumes "lib_sound (ac_lib A)" "cache_on s" "\<not> kv_fault e [''set'', bl_key t]"
    and "RefreshToken A e jtis t s = (Inr r, s1)" "auth_reach A (\<lambda>_. True) s1 s2" "\<not> kv_fault e2 [''exists'', bl_key t]"
    and "ParseRefreshToken (ac_lib A) (ac_jwt A) (e_now e) t = Inr c" "not_last_second (e_now e2) c"
  shows "RefreshToken A e2 jtis2 t s2 = (Inl ErrTokenInvalid, s2) \<or> RefreshToken A e2 jtis2 t s2 = (Inl ErrTokenBlacklisted, s2)"
proof -
  from assms(4) obtain p u where "RefreshToken A e jtis t s = (Inr (p, u), s1)" by (cases r) simp
  then obtain s0 where s1: "cache_on s0 = cache_on s" "s1 = (if cache_on s then revoke e t c s0 else s0)"
    using assms(7) by (auto elim!: Refresh_success)
  from assms(7) have p: "ParseToken (ac_lib A) (ac_jwt A) (e_now e) t = Inr c" by (simp add: ParseRefresh_ok)
  have "revoked t c s1"
    using revoke_revoked [of s0 e c t] parse_live [OF assms(1) p] assms(2,3) s1 by simp
  then have "revoked t c s2" using revocation.reach_I [OF assms(5)] assms(1) p by blast
  from revoked_refused [OF assms(1) p this assms(6,8)] show ?thesis .
qed

text \<open>
  Logging out ends the session: with Redis taking the entries, the refresh token is not accepted
  again, and the access token is on the blacklist until it expires, whatever runs afterwards; for each of
  the two but for its last second.
\<close>
theorem logout_ends_session:
  assumes "lib_sound (ac_lib A)" "cache_on s" "\<And>k. \<not> kv_fault e [''set'', k]"
    and "ParseAccessToken (ac_lib A) (ac_jwt A) (e_now e) ta = Inr ca" "ta \<noteq> []"
    and "ParseRefreshToken (ac_lib A) (ac_jwt A) (e_now e) tr = Inr cr" "tr \<noteq> []"
    and "auth_reach A (\<lambda>_. True) (snd (Logout A e ta tr s)) s2" "\<And>k. \<not> kv_fault e2 [''exists'', k]"
    and "not_last_second (e_now e2) ca" "not_last_second (e_now e2) cr"
  shows "\<not> is_ok (fst (RefreshToken A e2 jtis tr s2)) \<and>
    (is_ok (ParseAccessToken (ac_lib A) (ac_jwt A) (e_now e2) ta) \<longrightarrow> IsTokenBlackListed e2 (cache_on s2) ta (a_kv s2))"
proof -
  let ?s1 = "revoke e tr cr (revoke e ta ca s)"
  have l: "snd (Logout A e ta tr s) = ?s1" using assms by (simp add: Logout_def revoke_if_def)
  have pa: "ParseToken (ac_lib A) (ac_jwt A) (e_now e) ta = Inr ca" and pr: "ParseToken (ac_lib A) (ac_jwt A) (e_now e) tr = Inr cr"
    using assms(4,6) by (simp_all add: ParseAccess_ok ParseRefresh_ok)
  have "revoked ta ca (revoke e ta ca s)"
    using revoke_revoked [of s e ca ta] parse_live [OF assms(1) pa] assms(2,3) by simp
  then have "revoked ta ca ?s1" by (rule revoked_kept [OF assms(1) pa _ pr])
  then have a: "revoked ta ca s2" using revocation.reach_I [OF assms(8)] assms(1) pa unfolding l by blast
  have "revoked tr cr ?s1"
    using revoke_revoked [of "revoke e ta ca s" e cr tr] parse_live [OF assms(1) pr] assms(2,3) by simp
  then have r: "revoked tr cr s2" using revocation.reach_I [OF assms(8)] assms(1) pr unfolding l by blast
  from revoked_refused [OF assms(1) pr r assms(9,11), of jtis] have 1: "\<not> is_ok (fst (RefreshToken A e2 jtis tr s2))"
    by auto
  have "IsTokenBlackListed e2 (cache_on s2) ta (a_kv s2)" if "ParseAccessToken (ac_lib A) (ac_jwt A) (e_now e2) ta = Inr c'" for c'
  proof -
    have p': "ParseToken (ac_lib A) (ac_jwt A) (e_now e2) ta = Inr c'" using that by (simp add: ParseAccess_ok)
    then have "c' = ca" "e_now e2 < ExpiresAt c'"
      using assms(1) pa by (auto intro: parse_unique parse_live)
    with a assms(9,10) show ?thesis
      by (auto simp: revoked_def not_last_second_def IsTokenBlackListed_def rc_exists_def live_def)
  qed
  with 1 show ?thesis by (auto simp: is_ok_iff)
qed


section \<open>Accounts and the cache of users\<close>

text \<open>
  Ids are distinct and below the next one, usernames and emails are distinct over all rows, and a user
  that the cache holds under an id is the live row of that id.
\<close>

definition users_ok :: "authst \<Rightarrow> bool" where
  "users_ok s \<longleftrightarrow>
     distinct (map upo_ID (a_users s)) \<and> distinct (map upo_Username (a_users s)) \<and> distinct (map upo_Email (a_users s)) \<and>
     (\<forall>po\<in>set (a_users s). upo_ID po < next_user s) \<and>
     (\<forall>i u. held (cacheKeyUser i) (a_kv s) = Some (Json u) \<longrightarrow> map_option toUser (user_by_id s i) = Some u)"

text \<open>Deletions of the user cache do not fail.\<close>

definition evicts :: "env \<Rightarrow> bool" where
  "evicts e \<longleftrightarrow> (\<forall>i. \<not> kv_fault e [''del'', cacheKeyUser i])"

lemma user_by_id_Some: "user_by_id s i = Some po \<Longrightarrow> po \<in> set (a_users s) \<and> live_user po \<and> upo_ID po = i"
  by (auto simp: user_by_id_def dest: find_Some_mem)

lemma user_by_id_set:
  assumes "\<And>po. upo_ID (f po) = upo_ID po"
  shows "j \<noteq> i \<Longrightarrow> user_by_id (set_user f i s) j = user_by_id s j"
proof -
  assume "j \<noteq> i"
  then have "List.find (\<lambda>po. live_user po \<and> upo_ID po = j) (map (\<lambda>po. if live_user po \<and> upo_ID po = i then f po else po) xs) =
      List.find (\<lambda>po. live_user po \<and> upo_ID po = j) xs" for xs
    by (induction xs) (auto simp: assms)
  then show ?thesis by (simp add: user_by_id_def set_user_def)
qed

lemma users_ok_write:
  assumes "users_ok s" "evicts e" "\<And>po. upo_ID (f po) = upo_ID po" "\<And>po. upo_Username (f po) = upo_Username po"
    "\<And>po. upo_Email (f po) = upo_Email po" "cache_on s \<or> (\<forall>k. a_kv s k = None)"
  shows "users_ok (deleteCache e i (set_user f i s))"
proof -
  let ?g = "\<lambda>po. if live_user po \<and> upo_ID po = i then f po else po"
  have m: "map upo_ID (map ?g xs) = map upo_ID xs" "map upo_Username (map ?g xs) = map upo_Username xs"
    "map upo_Email (map ?g xs) = map upo_Email xs" for xs
    using assms(3-5) by (induction xs) auto
  let ?s = "deleteCache e i (set_user f i s)"
  have u: "a_users ?s = map ?g (a_users s)" "next_user ?s = next_user s" "user_by_id ?s j = user_by_id (set_user f i s) j" for j
    by (simp_all add: deleteCache_def set_user_def user_by_id_def)
  have h: "held (cacheKeyUser j) (a_kv ?s) = (if j = i then None else held (cacheKeyUser j) (a_kv s))" for j
    using assms(2,6) by (auto simp: deleteCache_def set_user_def rc_delete_def held_def evicts_def)
  have "upo_ID po < next_user s" if "po \<in> set (map ?g (a_users s))" for po
    using that assms(1,3) by (auto simp: users_ok_def)
  moreover have "distinct (map upo_ID (map ?g (a_users s)))" "distinct (map upo_Username (map ?g (a_users s)))"
    "distinct (map upo_Email (map ?g (a_users s)))" using assms(1) by (simp_all only: m users_ok_def)
  moreover have "map_option toUser (user_by_id ?s j) = Some v" if "held (cacheKeyUser j) (a_kv ?s) = Some (Json v)" for j v
    using that assms(1) h user_by_id_set [of f j i s] assms(3) unfolding u(3) users_ok_def by (auto split: if_splits)
  ultimately show ?thesis unfolding users_ok_def u(1,2) by blast
qed

text \<open>A service without a cache holds nothing in it.\<close>

definition auth_ok :: "authst \<Rightarrow> bool" where
  "auth_ok s \<longleftrightarrow> users_ok s \<and> (cache_on s \<or> (\<forall>k. a_kv s k = None))"

lemma auth_ok_write:
  assumes "auth_ok s" "evicts e" "\<And>po. upo_ID (f po) = upo_ID po" "\<And>po. upo_Username (f po) = upo_Username po"
    "\<And>po. upo_Email (f po) = upo_Email po"
  shows "auth_ok (deleteCache e i (set_user f i s))"
  using users_ok_write [of s e f i] assms by (auto simp: auth_ok_def deleteCache_def set_user_def)

lemma users_ok_kv:
  assumes "users_ok s" "\<And>i u. held (cacheKeyUser i) m = Some (Json u) \<Longrightarrow> map_option toUser (user_by_id s i) = Some u"
  shows "users_ok (s\<lparr>a_kv := m\<rparr>)"
  using assms by (auto simp: users_ok_def user_by_id_def)

lemma auth_ok_find:
  assumes "auth_ok s"
  shows "auth_ok (snd (userRepo_FindByID e i s))"
proof -
  have put: "users_ok (kv_put e (cacheKeyUser i) v ttl s)"
    if "\<And>u. v = Json u \<Longrightarrow> map_option toUser (user_by_id s i) = Some u" for v ttl
    unfolding kv_put_def using assms that
    by (intro users_ok_kv) (auto simp: auth_ok_def rc_set_def held_def users_ok_def split: if_splits)
  have "users_ok (writeNullSentinel e (cacheKeyUser i) s)"
    "user_by_id s i = Some po \<Longrightarrow> users_ok (writeCache e (cacheKeyUser i) (toUser po) cacheTTLUser s)" for po
    using assms put [of "Raw user_null" cacheTTLUserStale] put [of "Json (toUser po)" cacheTTLUser]
    by (simp_all add: writeNullSentinel_def writeCache_def auth_ok_def)
  then have "users_ok (snd (userRepo_FindByID e i s))"
    using assms by (simp add: userRepo_FindByID_def auth_ok_def split: sum.split option.split)
  then show ?thesis using assms
    by (auto simp: auth_ok_def userRepo_FindByID_def writeCache_def writeNullSentinel_def split: sum.split option.split)
qed

lemma auth_ok_create:
  assumes "auth_ok s"
  shows "auth_ok (snd (userRepo_Create e u s))"
proof (cases "db_fault e [''users.insert''] \<or> user_clash u s")
  case True
  then show ?thesis using assms by (auto simp: userRepo_Create_def)
next
  case False
  let ?po = "toUserPO (next_user s) (e_now e) u"
  let ?s = "s\<lparr>a_users := a_users s @ [?po], next_user := next_user s + 1\<rparr>"
  have new: "upo_ID ?po = next_user s" "upo_Username ?po = u_Username u" "upo_Email ?po = u_Email u"
    by (simp_all add: toUserPO_def)
  have "user_by_id ?s i = (case user_by_id s i of Some x \<Rightarrow> Some x | None \<Rightarrow> if i = next_user s then Some ?po else None)" for i
    by (auto simp: user_by_id_def find_append live_user_def toUserPO_def split: option.split)
  then have "map_option toUser (user_by_id ?s i) = Some v" if "held (cacheKeyUser i) (a_kv s) = Some (Json v)" for i v
    using that assms by (cases "user_by_id s i") (force simp: auth_ok_def users_ok_def)+
  moreover have "distinct (map upo_ID (a_users ?s))" "distinct (map upo_Username (a_users ?s))"
    "distinct (map upo_Email (a_users ?s))" "\<forall>po\<in>set (a_users ?s). upo_ID po < next_user ?s"
    using assms False new by (auto simp: auth_ok_def users_ok_def user_clash_def)
  ultimately have "users_ok ?s" unfolding users_ok_def by simp
  with False assms show ?thesis by (simp add: userRepo_Create_def auth_ok_def Let_def)
qed

interpretation accounts: auth_invariant A auth_ok evicts for A
proof unfold_locales
  fix e :: env and t c s assume "auth_ok s"
  then have "users_ok (s\<lparr>a_kv := snd (bl_AddWithTTL e (cache_on s) t (tokenRemainingTTL e c) (a_kv s))\<rparr>)"
    by (intro users_ok_kv) (auto simp: auth_ok_def users_ok_def bl_AddWithTTL_def rc_set_def held_def split: if_splits)
  with \<open>auth_ok s\<close> show "auth_ok (revoke e t c s)" by (auto simp: auth_ok_def revoke_def bl_AddWithTTL_def)
next
  fix s :: authst and out assume "auth_ok s"
  then show "auth_ok (s\<lparr>a_out := out\<rparr>)" by (simp add: auth_ok_def users_ok_def user_by_id_def)
qed (auto simp: auth_ok_create auth_ok_find userRepo_UpdateProfile_def userRepo_UpdateStatus_def userRepo_Delete_def
    intro: auth_ok_write)


lemma auth_ok0: "auth_ok auth0"
  by (simp add: auth_ok_def users_ok_def auth0_def held_def)

lemma find_cached:
  assumes "auth_ok s" "userRepo_FindByID e i s = (Inr u, s1)"
  shows "\<exists>po. user_by_id s i = Some po \<and> toUser po = u"
proof (cases "readCache e (cacheKeyUser i) s")
  case (Inl er)
  with assms(2) show ?thesis by (auto simp: userRepo_FindByID_def split: if_splits option.splits)
next
  case (Inr v)
  then have "held (cacheKeyUser i) (a_kv s) = Some (Json v)"
    by (auto simp: readCache_def split: if_splits sum.splits cval.splits dest: rc_get_held)
  with assms Inr show ?thesis by (auto simp: userRepo_FindByID_def auth_ok_def users_ok_def)
qed

lemma toUser_simps [simp]: "u_ID (toUser po) = upo_ID po" "u_Status (toUser po) = upo_Status po"
  "u_Password (toUser po) = upo_Password po" "u_Username (toUser po) = upo_Username po" "u_Email (toUser po) = upo_Email po"
  by (simp_all add: toUser_def)

lemma users_distinct_find:
  assumes "distinct (map upo_ID (a_users s))" "po \<in> set (a_users s)" "live_user po"
  shows "user_by_id s (upo_ID po) = Some po"
proof (cases "user_by_id s (upo_ID po)")
  case None
  with assms(2,3) show ?thesis by (auto simp: user_by_id_def find_None_iff)
next
  case (Some q)
  with user_by_id_Some [OF Some] assms distinct_key [of upo_ID "a_users s" q po] show ?thesis by simp
qed

text \<open>
  C15. Tokens are only issued for accounts that are there and active: in every state reachable from an
  empty service (evictions from the user cache succeeding, anything else failing at will), a user for
  whom Login or RefreshToken answers a pair is the live row of its id, as it is now and not as some
  cache remembers it, is not disabled, and the access token carries exactly its id, name and current
  role; for a login the password verifies against the row.
\<close>
theorem tokens_for_active_accounts:
  assumes "auth_reach A evicts auth0 s" "lib_sound (ac_lib A)"
    and "Login A e jtis account password s = Inr (p, u) \<or> fst (RefreshToken A e jtis t s) = Inr (p, u)"
  shows "\<exists>po. user_by_id s (u_ID u) = Some po \<and> toUser po = u \<and> upo_Status po = Active \<and>
    (\<forall>now c. ParseAccessToken (ac_lib A) (ac_jwt A) now (tp_Access p) = Inr c \<longrightarrow> cl_Payload c = payload_of u) \<and>
    (Login A e jtis account password s = Inr (p, u) \<longrightarrow>
       VerifyPassword (ac_bcrypt A) password (upo_Password po) \<and> (upo_Username po = account \<or> upo_Email po = account))"
proof -
  have ok: "auth_ok s" by (rule accounts.reach_I [OF assms(1) auth_ok0])
  have login: "\<exists>po. user_by_id s (u_ID u) = Some po \<and> toUser po = u \<and> upo_Status po = Active \<and> issue A e jtis u = Inr p \<and>
      VerifyPassword (ac_bcrypt A) password (upo_Password po) \<and> (upo_Username po = account \<or> upo_Email po = account)"
    if "Login A e jtis account password s = Inr (p, u)"
  proof -
    from that obtain po where "List.find (\<lambda>po. live_user po \<and> (upo_Username po = account \<or> upo_Email po = account)) (a_users s) = Some po"
      "u = toUser po" "upo_Status po = Active" "issue A e jtis u = Inr p" "VerifyPassword (ac_bcrypt A) password (upo_Password po)"
      by (auto simp: Login_def userRepo_FindByAccount_def find_user_def split: sum.splits option.splits if_splits)
    with find_Some_mem [OF this(1)] users_distinct_find [of s po] ok show ?thesis
      by (auto simp: auth_ok_def users_ok_def)
  qed
  have refresh: "\<exists>po. user_by_id s (u_ID u) = Some po \<and> toUser po = u \<and> upo_Status po = Active \<and> issue A e jtis u = Inr p"
    if r: "fst (RefreshToken A e jtis t s) = Inr (p, u)"
  proof -
    obtain s1 where "RefreshToken A e jtis t s = (Inr (p, u), s1)" using r by (metis prod.collapse)
    then show ?thesis
    proof (rule Refresh_success)
      fix c s0 assume f: "userRepo_FindByID e (pl_UserId (cl_Payload c)) s = (Inr u, s0)" "u_Status u = Active" "issue A e jtis u = Inr p"
      from find_cached [OF ok f(1)] obtain po where po: "user_by_id s (pl_UserId (cl_Payload c)) = Some po" "toUser po = u" by blast
      with user_by_id_Some [OF po(1)] f show ?thesis by auto
    qed
  qed
  have "cl_Payload c = payload_of u" if i: "issue A e jtis u = Inr p"
    and c: "ParseAccessToken (ac_lib A) (ac_jwt A) now (tp_Access p) = Inr c" for now c
  proof -
    from i have sg: "sign (ac_lib A) (SigningKey (ac_jwt A))
        (claims_for (ac_lib A) (ac_jwt A) (e_now e) (fst jtis) TokenTypeAccess (ExpiredTime (ac_jwt A)) (payload_of u)) = Inr (tp_Access p)"
      (is "sign _ _ ?c = _") unfolding issue_def by (rule pair_signed)
    from c have pc: "ParseToken (ac_lib A) (ac_jwt A) now (tp_Access p) = Inr c" by (simp add: ParseAccess_ok)
    have "now < ExpiresAt ?c" using parse_signed(2) [OF assms(2) sg, of now] pc by (cases "now < ExpiresAt ?c") simp_all
    from parse_signed(1) [OF assms(2) sg this] pc show ?thesis by simp
  qed
  then show ?thesis using assms(3) login refresh by blast
qed


section \<open>Registration\<close>

lemma Register_success:
  assumes "Register A e jtis n m pw s = (Inr (p, u), s1)"
  obtains h po where "validateUsername n = None" "validatePassword pw = None" "bc_hash (ac_bcrypt A) pw = Inr h"
    "\<not> user_clash u s" "u = toUser po" "upo_ID po = next_user s" "upo_Username po = n" "upo_Email po = m"
    "upo_Password po = h" "upo_Status po = Active" "upo_Role po = RoleReader" "live_user po"
    "a_users s1 = a_users s @ [po]" "next_user s1 = next_user s + 1" "issue A e jtis u = Inr p"
proof -
  define u0 where "u0 h = \<lparr>u_ID = 0, u_Username = n, u_Email = m, u_Password = h, u_Avatar = [],
     u_Bio = [], u_Status = Active, u_Role = RoleReader, u_CreatedAt = 0, u_UpdatedAt = 0\<rparr>" for h
  from assms obtain h s0 where h: "bc_hash (ac_bcrypt A) pw = Inr h" "userRepo_Create e (u0 h) s = (Inr u, s0)"
    "validateUsername n = None" "validatePassword pw = None" "issue A e jtis u = Inr p"
    "a_users s1 = a_users s0" "next_user s1 = next_user s0"
    unfolding u0_def by (auto simp: Register_def HashPassword_def split: option.splits sum.splits prod.splits if_splits)
  let ?po = "toUserPO (next_user s) (e_now e) (u0 h)"
  from h(2) have c: "\<not> user_clash (u0 h) s" "u = toUser ?po" "a_users s0 = a_users s @ [?po]" "next_user s0 = next_user s + 1"
    by (auto simp: userRepo_Create_def Let_def toUserPO_def toUser_def u0_def split: if_splits)
  have "\<not> user_clash u s" using c(1,2) by (simp add: user_clash_def toUserPO_def)
  then show thesis using h c by (intro that [of h ?po]) (simp_all add: toUserPO_def u0_def live_user_def)
qed

lemma find_last:
  assumes "\<And>x. x \<in> set xs \<Longrightarrow> \<not> P x" "P y"
  shows "List.find P (xs @ [y]) = Some y"
  using assms by (induction xs) auto

text \<open>
  Who registers can log in: after a successful registration, and while the database answers, logging
  in with the username and the password passes every check and issues a pair for the new user, who is
  an active reader; the username is 3 to 32 bytes and the password 8 to 64. The condition is that no
  account has the new username as its email.
\<close>
theorem register_then_login:
  assumes "Register A e jtis n m pw s = (Inr (p, u), s1)" "bcrypt_ok (ac_bcrypt A)"
    and "\<And>w. \<not> db_fault e2 [w]" "\<And>po. po \<in> set (a_users s) \<Longrightarrow> upo_Email po \<noteq> n"
  shows "Login A e2 jtis2 n pw s1 =
      (case issue A e2 jtis2 u of Inl er \<Rightarrow> Inl ErrTokenFailed | Inr q \<Rightarrow> Inr (q, u)) \<and>
    u_ID u = next_user s \<and> u_Status u = Active \<and> u_Role u = ''reader'' \<and> u_Username u = n \<and> u_Email u = m \<and>
    3 \<le> length n \<and> length n \<le> 32 \<and> 8 \<le> length pw \<and> length pw \<le> 64"
  using assms(1)
proof (rule Register_success)
  fix h po assume v: "validateUsername n = None" "validatePassword pw = None" and h: "bc_hash (ac_bcrypt A) pw = Inr h"
    and c: "\<not> user_clash u s" and po: "u = toUser po" "upo_ID po = next_user s" "upo_Username po = n" "upo_Email po = m"
    "upo_Password po = h" "upo_Status po = Active" "upo_Role po = RoleReader" "live_user po"
    and rows: "a_users s1 = a_users s @ [po]"
  have "upo_Username q \<noteq> n" if "q \<in> set (a_users s)" for q using that c po by (auto simp: user_clash_def)
  then have "List.find (\<lambda>q. live_user q \<and> (upo_Username q = n \<or> upo_Email q = n)) (a_users s1) = Some po"
    unfolding rows using assms(4) po by (intro find_last) auto
  then have "userRepo_FindByAccount e2 n s1 = Inr u" using assms(3) po(1) by (simp add: userRepo_FindByAccount_def find_user_def)
  moreover have "VerifyPassword (ac_bcrypt A) pw (u_Password u)" using assms(2) h po by (simp add: bcrypt_ok_def VerifyPassword_def)
  moreover have "u_Role u = ''reader''" using po by (simp add: toUser_def RoleReader_def)
  ultimately show ?thesis using v po
    by (simp add: Login_def validateUsername_def validatePassword_def MinUsernameLength_def MaxUsernameLength_def
        MinPasswordLength_def MaxPasswordLength_def split: if_splits sum.split)
qed

text \<open>
  An email can shadow a username: emails are not checked, and a login looks for the account among
  usernames and emails at once and takes the oldest row. When an older account has the new username as
  its email, registration succeeds, but no password ever logs the new user in by its username.
\<close>
theorem email_shadows_username:
  assumes "Register A e jtis n m pw s = (Inr (p, u), s1)"
    and "po \<in> set (a_users s)" "live_user po" "upo_Email po = n" "list_all (\<lambda>q. upo_ID q < next_user s) (a_users s)"
  shows "\<not> (\<exists>q u2. Login A e2 jtis2 n pw2 s1 = Inr (q, u2) \<and> u_ID u2 = u_ID u)"
  using assms(1)
proof (rule Register_success)
  fix h new assume new: "u = toUser new" "upo_ID new = next_user s" and rows: "a_users s1 = a_users s @ [new]"
  have "\<exists>q. List.find (\<lambda>q. live_user q \<and> (upo_Username q = n \<or> upo_Email q = n)) (a_users s) = Some q"
    using assms(2-4) by (auto simp: find_None_iff simp flip: not_None_eq)
  then obtain q where q: "List.find (\<lambda>q. live_user q \<and> (upo_Username q = n \<or> upo_Email q = n)) (a_users s) = Some q" ..
  then have "upo_ID q < next_user s" using assms(5) find_Some_mem [OF q] by (auto simp: list_all_iff)
  with q new show ?thesis
    by (auto simp: Login_def userRepo_FindByAccount_def find_user_def rows find_append split: sum.splits if_splits option.splits)
qed


section \<open>The properties at work\<close>

definition ann :: UserPO where
  "ann = \<lparr>upo_ID = 1, upo_Username = ''ann'', upo_Email = ''bob'', upo_Password = ''#Passw0rd'', upo_Avatar = [], upo_Bio = [],
     upo_Status = Active, upo_Role = ''reader'', upo_CreatedAt = 0, upo_UpdatedAt = 0, upo_DeletedAt = None\<rparr>"

definition one_user :: authst where "one_user = auth0\<lparr>a_users := [ann], next_user := 2\<rparr>"

definition toy_bcrypt :: bcrypt where
  "toy_bcrypt = \<lparr>bc_hash = (\<lambda>p. Inr (CHR ''#'' # p)), bc_compare = (\<lambda>h p. if h = CHR ''#'' # p then None else Some (Opaque []))\<rparr>"

definition toy_cfg :: "Payload \<Rightarrow> authcfg" where
  "toy_cfg p = \<lparr>ac_lib = toy_jwt p, ac_jwt = toy_config, ac_bcrypt = toy_bcrypt\<rparr>"

lemma toy_cfg_simps [simp]: "ac_lib (toy_cfg p) = toy_jwt p" "ac_jwt (toy_cfg p) = toy_config" "ac_bcrypt (toy_cfg p) = toy_bcrypt"
  "lib_sound (toy_jwt p)" "bcrypt_ok toy_bcrypt"
  by (simp_all add: toy_cfg_def toy_jwt_def toy_sound bcrypt_ok_def toy_bcrypt_def)

abbreviation ann_cfg :: authcfg where "ann_cfg \<equiv> toy_cfg (payload_of (toUser ann))"

lemma toy_parse: "ParseRefreshToken (toy_jwt p) toy_config 0 ''r'' = Inr (toy_claims TokenTypeRefresh (100 * second) ''2'' p)"
  "ParseAccessToken (toy_jwt p) toy_config 0 ''a'' = Inr (toy_claims TokenTypeAccess (15 * second) ''1'' p)"
  by (simp_all add: ParseRefreshToken_def ParseAccessToken_def ParseToken_def toy_jwt_def toy_lib_def toy_claims_def)

lemma ann_find: "userRepo_FindByID env0 1 one_user =
    (Inr (toUser ann), writeCache env0 (cacheKeyUser 1) (toUser ann) cacheTTLUser one_user)"
  by (simp add: userRepo_FindByID_def readCache_def one_user_def auth0_def rc_get_def live_def user_by_id_def ann_def live_user_def
      ErrKeyNotFound_def null_sentinel_def)

lemma ann_refresh: "\<exists>s1. RefreshToken ann_cfg env0 (''1'', ''2'') ''r'' one_user =
    (Inr (\<lparr>tp_Access = ''a'', tp_Refresh = ''r''\<rparr>, toUser ann), s1)"
proof -
  have "pl_UserId (cl_Payload (toy_claims TokenTypeRefresh (100 * second) ''2'' (payload_of (toUser ann)))) = 1"
    by (simp add: toy_claims_def payload_of_def) (simp add: ann_def)
  moreover have "\<not> IsTokenBlackListed env0 True ''r'' (a_kv one_user)" "cache_on one_user"
    by (simp_all add: IsTokenBlackListed_def rc_exists_def live_def one_user_def auth0_def)
  moreover have "upo_Status ann = Active" by (simp add: ann_def)
  ultimately show ?thesis by (simp add: RefreshToken_def toy_parse ann_find issue_def toy_pair del: One_nat_def)
qed

theorem refresh_single_use_witness:
  "let s1 = snd (RefreshToken ann_cfg env0 (''1'', ''2'') ''r'' one_user)
   in is_ok (fst (RefreshToken ann_cfg env0 (''1'', ''2'') ''r'' one_user)) \<and>
      \<not> is_ok (fst (RefreshToken ann_cfg (env0\<lparr>e_now := 99 * second\<rparr>) (''1'', ''2'') ''r'' s1))"
proof -
  obtain s1 where s1: "RefreshToken ann_cfg env0 (''1'', ''2'') ''r'' one_user =
      (Inr (\<lparr>tp_Access = ''a'', tp_Refresh = ''r''\<rparr>, toUser ann), s1)" using ann_refresh by blast
  have "auth_reach ann_cfg (\<lambda>_. True) s1 s1" by (simp add: auth_reach_def)
  from refresh_single_use [OF _ _ _ s1 this, of "env0\<lparr>e_now := 99 * second\<rparr>" _ "(''1'', ''2'')"] show ?thesis
    unfolding s1 by (auto simp: one_user_def auth0_def Let_def toy_parse not_last_second_def toy_claims_def env0_def)
qed

theorem logout_ends_session_witness:
  "let s1 = snd (Logout ann_cfg env0 ''a'' ''r'' one_user)
   in \<not> is_ok (fst (RefreshToken ann_cfg env0 (''1'', ''2'') ''r'' s1)) \<and> IsTokenBlackListed env0 True ''a'' (a_kv s1)"
proof -
  let ?s1 = "snd (Logout ann_cfg env0 ''a'' ''r'' one_user)"
  have reach: "auth_reach ann_cfg (\<lambda>_. True) ?s1 ?s1" by (simp add: auth_reach_def)
  have last: "not_last_second 0 (toy_claims k (15 * second) j p)" "not_last_second 0 (toy_claims k (100 * second) j p)" for k j p
    by (simp_all add: not_last_second_def toy_claims_def)
  from logout_ends_session [OF _ _ _ _ _ _ _ reach, of _ _ env0 "(''1'', ''2'')"]
  have "\<not> is_ok (fst (RefreshToken ann_cfg env0 (''1'', ''2'') ''r'' ?s1)) \<and> IsTokenBlackListed env0 (cache_on ?s1) ''a'' (a_kv ?s1)"
    by (simp add: toy_parse one_user_def auth0_def last)
  moreover have "cache_on ?s1" by (simp add: Logout_def one_user_def auth0_def revoke_if_def split: sum.split)
  ultimately show ?thesis by (simp add: Let_def)
qed

lemma one_user_reach_shape: "user_by_id one_user 1 = Some ann" "cache_on one_user"
  by (simp_all add: one_user_def auth0_def user_by_id_def live_user_def ann_def)

lemma pw_ok: "validatePassword ''Passw0rd'' = None" "validateUsername ''bob'' = None" "validateUsername ''eve'' = None"
  by code_simp+

definition bob :: "nat \<Rightarrow> User" where
  "bob i = \<lparr>u_ID = i, u_Username = ''bob'', u_Email = ''b@x'', u_Password = ''#Passw0rd'', u_Avatar = [], u_Bio = [],
     u_Status = Active, u_Role = RoleReader, u_CreatedAt = 0, u_UpdatedAt = 0\<rparr>"

abbreviation bob_cfg :: "nat \<Rightarrow> authcfg" where "bob_cfg i \<equiv> toy_cfg (payload_of (bob i))"

abbreviation register_bob :: "authst \<Rightarrow> (TokenPair \<times> User) res \<times> authst" where
  "register_bob s \<equiv> Register (bob_cfg (next_user s)) env0 (''1'', ''2'') ''bob'' ''b@x'' ''Passw0rd'' s"

lemma bob_registers:
  assumes "\<And>po. po \<in> set (a_users s) \<Longrightarrow> upo_Username po \<noteq> ''bob'' \<and> upo_Email po \<noteq> ''b@x''"
  shows "\<exists>s1. register_bob s = (Inr (\<lparr>tp_Access = ''a'', tp_Refresh = ''r''\<rparr>, bob (next_user s)), s1)"
proof -
  have none: "List.find (\<lambda>po. live_user po \<and> upo_Username po = ''bob'') (a_users s) = None"
    "List.find (\<lambda>po. live_user po \<and> upo_Email po = ''b@x'') (a_users s) = None"
    using assms by (auto simp: find_None_iff)
  then have f: "userRepo_FindByUsername env0 ''bob'' s = Inl ErrUserNotFound"
    "userRepo_FindByEmail env0 ''b@x'' s = Inl ErrUserNotFound"
    by (simp_all add: userRepo_FindByUsername_def userRepo_FindByEmail_def find_user_def)
  have h: "HashPassword toy_bcrypt ''Passw0rd'' = Inr ''#Passw0rd''" by (simp add: HashPassword_def toy_bcrypt_def)
  have "\<exists>s0. userRepo_Create env0 \<lparr>u_ID = 0, u_Username = ''bob'', u_Email = ''b@x'', u_Password = ''#Passw0rd'', u_Avatar = [],
     u_Bio = [], u_Status = Active, u_Role = RoleReader, u_CreatedAt = 0, u_UpdatedAt = 0\<rparr> s = (Inr (bob (next_user s)), s0)"
    using assms by (auto simp: userRepo_Create_def user_clash_def toUserPO_def bob_def Let_def)
  with f h show ?thesis by (auto simp: Register_def pw_ok issue_def toy_pair)
qed

theorem email_shadows_username_witness:
  "let (r, s1) = register_bob one_user
   in is_ok r \<and> \<not> (\<exists>q u2. Login (bob_cfg 2) env0 (''1'', ''2'') ''bob'' ''Passw0rd'' s1 = Inr (q, u2) \<and> u_ID u2 = 2)"
proof -
  have two: "next_user one_user = 2" by (simp add: one_user_def)
  have "\<exists>s1. register_bob one_user = (Inr (\<lparr>tp_Access = ''a'', tp_Refresh = ''r''\<rparr>, bob (next_user one_user)), s1)"
    by (rule bob_registers) (simp add: one_user_def ann_def)
  then obtain s1 where s1: "register_bob one_user = (Inr (\<lparr>tp_Access = ''a'', tp_Refresh = ''r''\<rparr>, bob 2), s1)"
    unfolding two by blast
  have "u_ID (bob 2) = 2" by (simp add: bob_def)
  with email_shadows_username [OF s1 [unfolded two], of ann env0 "(''1'', ''2'')" "''Passw0rd''"] show ?thesis
    unfolding s1 Let_def by (simp add: one_user_def ann_def live_user_def)
qed

lemma bob_login:
  assumes "register_bob auth0 = (Inr (\<lparr>tp_Access = ''a'', tp_Refresh = ''r''\<rparr>, bob 1), s1)"
  shows "a_users s1 = [toUserPO 1 0 (bob 1)]"
  using assms(1)
proof (rule Register_success)
  fix h po assume *: "bob 1 = toUser po" "live_user po" "a_users s1 = a_users auth0 @ [po]"
  from *(1,2) have "po = toUserPO 1 0 (bob 1)" by (cases po) (simp add: toUser_def bob_def toUserPO_def live_user_def)
  with *(3) show ?thesis by (simp add: auth0_def)
qed

lemma auth0_next: "next_user auth0 = 1" "a_users auth0 = []"
  by (simp_all add: auth0_def)

theorem register_then_login_witness:
  "let s1 = snd (register_bob auth0) in is_ok (Login (bob_cfg 1) env0 (''1'', ''2'') ''bob'' ''Passw0rd'' s1)"
proof -
  obtain s1 where s1: "register_bob auth0 = (Inr (\<lparr>tp_Access = ''a'', tp_Refresh = ''r''\<rparr>, bob 1), s1)"
    using bob_registers [of auth0] by (auto simp: auth0_next)
  have "issue (bob_cfg 1) env0 (''1'', ''2'') (bob 1) = Inr \<lparr>tp_Access = ''a'', tp_Refresh = ''r''\<rparr>"
    by (simp add: issue_def toy_pair)
  with register_then_login [OF s1 [unfolded auth0_next], of env0 "(''1'', ''2'')"] show ?thesis
    unfolding s1 Let_def by (simp add: auth0_next)
qed

theorem tokens_for_active_accounts_witness:
  "let s1 = snd (register_bob auth0)
   in \<exists>p u po. Login (bob_cfg 1) env0 (''1'', ''2'') ''bob'' ''Passw0rd'' s1 = Inr (p, u) \<and>
        user_by_id s1 1 = Some po \<and> toUser po = u \<and> upo_Status po = Active"
proof -
  obtain s1 where s1: "register_bob auth0 = (Inr (\<lparr>tp_Access = ''a'', tp_Refresh = ''r''\<rparr>, bob 1), s1)"
    using bob_registers [of auth0] by (auto simp: auth0_next)
  have rows: "a_users s1 = [toUserPO 1 0 (bob 1)]" by (rule bob_login [OF s1])
  have "evicts env0" by (simp add: evicts_def)
  then have "auth_step (bob_cfg 1) evicts auth0 (snd (Register (bob_cfg 1) env0 (''1'', ''2'') ''bob'' ''b@x'' ''Passw0rd'' auth0))"
    by (rule auth_step.Register)
  then have reach: "auth_reach (bob_cfg 1) evicts auth0 s1" using s1 by (simp add: auth_reach_def auth0_next)
  have "toUser (toUserPO 1 0 (bob 1)) = bob 1" by (simp add: toUser_def toUserPO_def bob_def)
  moreover have "upo_Username (toUserPO 1 0 (bob 1)) = ''bob''" "live_user (toUserPO 1 0 (bob 1))" "u_Status (bob 1) = Active"
    "u_Password (bob 1) = ''#Passw0rd''" by (simp_all add: toUserPO_def bob_def live_user_def)
  ultimately have l: "Login (bob_cfg 1) env0 (''1'', ''2'') ''bob'' ''Passw0rd'' s1 =
      Inr (\<lparr>tp_Access = ''a'', tp_Refresh = ''r''\<rparr>, bob 1)"
    by (simp add: Login_def userRepo_FindByAccount_def find_user_def rows issue_def toy_pair VerifyPassword_def toy_bcrypt_def)
  have "u_ID (bob 1) = 1" by (simp add: bob_def)
  with tokens_for_active_accounts [OF reach _ disjI1 [OF l]] have "\<exists>po. user_by_id s1 1 = Some po \<and> toUser po = bob 1 \<and> upo_Status po = Active"
    by auto
  with l show ?thesis unfolding Let_def auth0_next s1 [unfolded auth0_next] snd_conv by blast
qed

end
