(* ===== verification/ObjectStore.thy ===== *)
theory ObjectStore
  imports Cache
begin

text \<open>
  Object storage (pkg/oss): the sentinel errors every implementation maps to, the calls of the MinIO and
  Aliyun implementations over a bucket, and the logic around the SDKs: argument checks, range headers,
  limits of listings, batches of deletions. The storage service is a bucket, a map from keys to
  objects, whose calls may fail.
\<close>

section \<open>Errors\<close>

text \<open>What an SDK answers: a response of the service with its code, or any other error.\<close>

datatype sdk_error = ServiceError string | OtherError string

datatype sentinel = ErrObjectNotFound | ErrBucketNotFound | ErrAccessDenied | ErrEmptyKey | ErrInvalidParam

datatype oss_error = Mapped string | Plain string | InvalidParam string

definition toOssErr :: "sdk_error \<Rightarrow> oss_error" where
  "toOssErr er = (case er of ServiceError c \<Rightarrow> Mapped c | OtherError m \<Rightarrow> Plain m)"

definition toAliyunErr :: "sdk_error \<Rightarrow> oss_error" where
  "toAliyunErr er = (case er of ServiceError c \<Rightarrow> Mapped c | OtherError m \<Rightarrow> Plain m)"

definition mapped_is :: "string \<Rightarrow> sentinel \<Rightarrow> bool" where
  "mapped_is code t \<longleftrightarrow>
    (if code = ''NoSuchKey'' then t = ErrObjectNotFound
     else if code = ''NoSuchBucket'' then t = ErrBucketNotFound
     else if code = ''AccessDenied'' \<or> code = ''InvalidAccessKeyId'' \<or> code = ''SignatureDoesNotMatch'' then t = ErrAccessDenied
     else False)"

text \<open>\<^verbatim>\<open>errors.Is(err, target)\<close>.\<close>

definition oss_is :: "oss_error \<Rightarrow> sentinel \<Rightarrow> bool" where
  "oss_is er t \<longleftrightarrow>
    (case er of Mapped c \<Rightarrow> mapped_is c t | Plain m \<Rightarrow> False | InvalidParam m \<Rightarrow> t = ErrInvalidParam)"

section \<open>The bucket\<close>

record blob =
  b_Content :: string
  b_Type :: string

record ObjectInfo =
  oi_Key :: string
  oi_Size :: int
  oi_ContentType :: string

type_synonym bucket = "string \<Rightarrow> blob option"

definition oss_fault :: "env \<Rightarrow> string \<Rightarrow> string \<Rightarrow> sdk_error option" where
  "oss_fault e cmd k = (if db_fault e [''oss'', cmd, k] then Some (OtherError ''network'') else None)"

definition oss_PutObject :: "env \<Rightarrow> string \<Rightarrow> string \<Rightarrow> string \<Rightarrow> bucket \<Rightarrow> oss_error option \<times> bucket" where
  "oss_PutObject e k content ctype b =
    (case oss_fault e ''put'' k of
       Some er \<Rightarrow> (Some (toOssErr er), b)
     | None \<Rightarrow> (None, b(k \<mapsto> \<lparr>b_Content = content, b_Type = ctype\<rparr>)))"

definition toObjectInfo :: "string \<Rightarrow> blob \<Rightarrow> ObjectInfo" where
  "toObjectInfo k o1 = \<lparr>oi_Key = k, oi_Size = int (length (b_Content o1)), oi_ContentType = b_Type o1\<rparr>"

definition oss_GetObject :: "env \<Rightarrow> string \<Rightarrow> bucket \<Rightarrow> oss_error + (string \<times> ObjectInfo)" where
  "oss_GetObject e k b =
    (case oss_fault e ''get'' k of
       Some er \<Rightarrow> Inl (toOssErr er)
     | None \<Rightarrow> (case b k of None \<Rightarrow> Inl (toOssErr (ServiceError ''NoSuchKey''))
                         | Some o1 \<Rightarrow> Inr (b_Content o1, toObjectInfo k o1)))"

definition oss_StatObject :: "env \<Rightarrow> string \<Rightarrow> bucket \<Rightarrow> oss_error + ObjectInfo" where
  "oss_StatObject e k b =
    (case oss_fault e ''stat'' k of
       Some er \<Rightarrow> Inl (toOssErr er)
     | None \<Rightarrow> (case b k of None \<Rightarrow> Inl (toOssErr (ServiceError ''NoSuchKey'')) | Some o1 \<Rightarrow> Inr (toObjectInfo k o1)))"

definition oss_DeleteObject :: "env \<Rightarrow> string \<Rightarrow> bucket \<Rightarrow> oss_error option \<times> bucket" where
  "oss_DeleteObject e k b =
    (case oss_fault e ''delete'' k of Some er \<Rightarrow> (Some (toOssErr er), b) | None \<Rightarrow> (None, b(k := None)))"

definition oss_CopyObject :: "env \<Rightarrow> string \<Rightarrow> string \<Rightarrow> bucket \<Rightarrow> oss_error option \<times> bucket" where
  "oss_CopyObject e src dst b =
    (case oss_fault e ''copy'' src of
       Some er \<Rightarrow> (Some (toOssErr er), b)
     | None \<Rightarrow> (case b src of None \<Rightarrow> (Some (toOssErr (ServiceError ''NoSuchKey'')), b) | Some o1 \<Rightarrow> (None, b(dst \<mapsto> o1))))"

section \<open>Around the SDKs\<close>

text \<open>The Range header of a read from \<^verbatim>\<open>offset\<close>, to the end when the length is not positive.\<close>

definition rangeHeader :: "int \<Rightarrow> int \<Rightarrow> oss_error + string" where
  "rangeHeader offset len =
    (if offset < 0 then Inl (InvalidParam (''offset='' @ show_int offset))
     else if len \<le> 0 then Inr (''bytes='' @ show_int offset @ ''-'')
     else Inr (''bytes='' @ show_int offset @ ''-'' @ show_int (wrap64 (offset + len - 1))))"

definition listLimit :: "int \<Rightarrow> int" where
  "listLimit n = (if n \<le> 0 \<or> 1000 < n then 1000 else n)"

text \<open>
  \<^verbatim>\<open>ls\<close> is the SDK's listing: objects, whether it was cut, and the token of the next page, which may be
  missing.
\<close>

definition ListObjects ::
  "(string \<Rightarrow> int \<Rightarrow> string \<Rightarrow> sdk_error + (ObjectInfo list \<times> bool \<times> string option)) \<Rightarrow>
    string \<Rightarrow> int \<Rightarrow> string \<Rightarrow> oss_error + (ObjectInfo list \<times> string)" where
  "ListObjects ls prefix limit token =
    (case ls prefix (listLimit limit) token of
       Inl er \<Rightarrow> Inl (toAliyunErr er)
     | Inr (os, truncd, nxt) \<Rightarrow> Inr (os, if truncd \<and> nxt \<noteq> None then the nxt else []))"

definition validateExpiry :: "int \<Rightarrow> oss_error option" where
  "validateExpiry n = (if n \<le> 0 \<or> 7 * 24 * 3600 < n then Some (InvalidParam ''expiry'') else None)"

definition aliyun_GetPresignedPutURL ::
  "(string \<Rightarrow> string option \<Rightarrow> int \<Rightarrow> sdk_error + string) \<Rightarrow> string \<Rightarrow> string \<Rightarrow> int \<Rightarrow> oss_error + string" where
  "aliyun_GetPresignedPutURL presign k ctype expiry =
    (case validateExpiry expiry of
       Some er \<Rightarrow> Inl er
     | None \<Rightarrow>
       (case presign k (if ctype \<noteq> [] then Some ctype else None) (expiry * 1000000000) of
          Inl er \<Rightarrow> Inl (toAliyunErr er) | Inr url \<Rightarrow> Inr url))"

definition aliyun_GetPresignedURL ::
  "(string \<Rightarrow> int \<Rightarrow> sdk_error + string) \<Rightarrow> string \<Rightarrow> int \<Rightarrow> oss_error + string" where
  "aliyun_GetPresignedURL presign k expiry =
    (case validateExpiry expiry of
       Some er \<Rightarrow> Inl er
     | None \<Rightarrow> (case presign k (expiry * 1000000000) of Inl er \<Rightarrow> Inl (toAliyunErr er) | Inr url \<Rightarrow> Inr url))"

text \<open>\<^verbatim>\<open>sdk\<close> deletes several objects in one request; the state \<^verbatim>\<open>'b\<close> is the service's.\<close>

definition maxBatch :: nat where "maxBatch = 1000"

function delete_batches :: "(string list \<Rightarrow> 'b \<Rightarrow> sdk_error option \<times> 'b) \<Rightarrow> string list \<Rightarrow> 'b \<Rightarrow> oss_error option \<times> 'b" where
  "delete_batches sdk keys b =
    (if keys = [] then (None, b)
     else case sdk (take maxBatch keys) b of
            (Some er, b1) \<Rightarrow> (Some (toAliyunErr er), b1)
          | (None, b1) \<Rightarrow> delete_batches sdk (drop maxBatch keys) b1)"
  by pat_completeness auto
termination
  by (relation "measure (\<lambda>(sdk, keys, b). length keys)") (auto simp: maxBatch_def)

declare delete_batches.simps [simp del]

definition DeleteObjects :: "(string list \<Rightarrow> 'b \<Rightarrow> sdk_error option \<times> 'b) \<Rightarrow> string list \<Rightarrow> 'b \<Rightarrow> oss_error option \<times> 'b" where
  "DeleteObjects sdk keys b = (if keys = [] then (None, b) else delete_batches sdk keys b)"

definition BucketExists :: "sdk_error option \<Rightarrow> oss_error + bool" where
  "BucketExists answer =
    (case answer of
       None \<Rightarrow> Inr True
     | Some er \<Rightarrow> if oss_is (toAliyunErr er) ErrBucketNotFound then Inr False else Inl (toAliyunErr er))"

section \<open>Lemmas\<close>

lemma listLimit_bounds: "1 \<le> listLimit n \<and> listLimit n \<le> 1000"
  by (simp add: listLimit_def)

text \<open>A map without the listed keys.\<close>

definition removes :: "string list \<Rightarrow> (string \<Rightarrow> 'v option) \<Rightarrow> string \<Rightarrow> 'v option" where
  "removes ks b = (\<lambda>k. if k \<in> set ks then None else b k)"

lemma removes_split: "removes (drop n ks) (removes (take n ks) b) = removes ks b"
proof -
  have "set ks = set (take n ks) \<union> set (drop n ks)" by (metis append_take_drop_id set_append)
  then show ?thesis by (auto simp: removes_def fun_eq_iff)
qed

text \<open>
  Deleting many objects respects the service's limit and deletes them all: when the service takes any
  request of at most 1000 keys, as S3 and OSS document, the call succeeds for key lists of any length
  and removes exactly the listed objects, duplicates and missing keys included.
\<close>
theorem DeleteObjects_all:
  assumes "\<And>ks b. length ks \<le> 1000 \<Longrightarrow> sdk ks b = (None, removes ks b)"
  shows "DeleteObjects sdk keys b = (None, removes keys b)"
proof -
  have "delete_batches sdk keys b = (None, removes keys b)"
    using assms
  proof (induction sdk keys b rule: delete_batches.induct)
    case (1 sdk keys b)
    have *: "sdk (take maxBatch keys) b = (None, removes (take maxBatch keys) b)"
      by (rule 1(2)) (simp add: maxBatch_def)
    show ?case
    proof (cases "keys = []")
      case True
      then show ?thesis by (simp add: delete_batches.simps removes_def)
    next
      case False
      then show ?thesis using 1(1) [OF False, OF * [symmetric]] 1(2) *
        by (subst delete_batches.simps) (simp add: removes_split)
    qed
  qed
  then show ?thesis by (simp add: DeleteObjects_def removes_def)
qed

theorem DeleteObjects_all_witness:
  "DeleteObjects (\<lambda>ks b. if length ks \<le> 1000 then (None, removes ks b) else (Some (ServiceError ''MalformedXML''), b))
     (replicate 2500 ''a'' @ [''b'']) (Map.empty :: string \<Rightarrow> nat option) = (None, Map.empty)"
proof -
  have "removes ks (Map.empty :: string \<Rightarrow> nat option) = Map.empty" for ks by (simp add: removes_def fun_eq_iff)
  then show ?thesis by (subst DeleteObjects_all) auto
qed

end
