(* ===== verification/Files.thy ===== *)
theory Files
  imports BlogData ObjectStore
begin

text \<open>
  Uploaded files (app/blog/internal/biz/file.go, app/blog/internal/data/file.go): file names as
  path/filepath cleans them, the white lists, the checks of the content, the records of files with
  their objects, direct uploads, and uploads by presigned URL.
\<close>

section \<open>path/filepath (Unix)\<close>

text \<open>\<^verbatim>\<open>Clean\<close>, element by element; \<^verbatim>\<open>out\<close> is the cleaned path, last element first.\<close>

definition clean_elem :: "bool \<Rightarrow> string \<Rightarrow> string list \<Rightarrow> string list" where
  "clean_elem rooted w out =
    (if w = [] \<or> w = ''.'' then out
     else if w = ''..'' then
       (if out \<noteq> [] \<and> hd out \<noteq> ''..'' then tl out else if rooted then out else ''..'' # out)
     else w # out)"

definition path_clean :: "string \<Rightarrow> string" where
  "path_clean p =
    (let rooted = (p \<noteq> [] \<and> hd p = CHR ''/'');
         body = join_with (CHR ''/'') (rev (fold (clean_elem rooted) (split_on (CHR ''/'') p) []));
         full = (if rooted then CHR ''/'' # body else body)
     in if full = [] then ''.'' else full)"

definition path_base :: "string \<Rightarrow> string" where
  "path_base p =
    (if p = [] then ''.''
     else let q = rev (dropWhile (\<lambda>c. c = CHR ''/'') (rev p));
              r = rev (takeWhile (\<lambda>c. c \<noteq> CHR ''/'') (rev q))
          in if r = [] then ''/'' else r)"

text \<open>From the last dot of the last element on.\<close>

definition path_ext :: "string \<Rightarrow> string" where
  "path_ext p =
    (let w = takeWhile (\<lambda>c. c \<noteq> CHR ''.'' \<and> c \<noteq> CHR ''/'') (rev p)
     in case drop (length w) (rev p) of
          [] \<Rightarrow> []
        | c # _ \<Rightarrow> if c = CHR ''.'' then c # rev w else [])"

section \<open>White lists and limits\<close>

record File =
  f_ID :: nat
  f_UserID :: nat
  f_Filename :: string
  f_MimeType :: string
  f_Size :: int
  f_URL :: string
  f_CreatedAt :: int

definition MaxFileSize :: int where "MaxFileSize = 10 * 1024 * 1024"
definition MaxAttachSize :: int where "MaxAttachSize = 50 * 1024 * 1024"

definition allowedMimeTypes :: "string list" where
  "allowedMimeTypes = [''image/jpeg'', ''image/png'', ''image/gif'', ''image/webp'', ''image/svg+xml'', ''application/pdf'',
     ''text/plain'', ''text/markdown'', ''text/csv'', ''application/zip'', ''application/gzip'', ''application/x-tar'']"

definition allowedExtensions :: "string list" where
  "allowedExtensions = [''.jpg'', ''.jpeg'', ''.png'', ''.gif'', ''.webp'', ''.svg'', ''.bmp'', ''.pdf'', ''.txt'', ''.md'', ''.csv'',
     ''.zip'', ''.gz'', ''.tar'', ''.doc'', ''.docx'', ''.xls'', ''.xlsx'']"

definition magicNumbers :: "string \<Rightarrow> nat list option" where
  "magicNumbers = [''image/jpeg'' \<mapsto> [0xFF, 0xD8, 0xFF], ''image/png'' \<mapsto> [0x89, 0x50, 0x4E, 0x47],
     ''image/gif'' \<mapsto> [0x47, 0x49, 0x46, 0x38], ''image/webp'' \<mapsto> [0x52, 0x49, 0x46, 0x46],
     ''application/pdf'' \<mapsto> [0x25, 0x50, 0x44, 0x46], ''application/zip'' \<mapsto> [0x50, 0x4B, 0x03, 0x04]]"

definition ErrFileNotFound :: err where [errs]: "ErrFileNotFound = NotFound ''FILE_NOT_FOUND''"
definition ErrFileTooLarge :: err where [errs]: "ErrFileTooLarge = BadRequest ''FILE_TOO_LARGE''"
definition ErrMimeNotAllowed :: err where [errs]: "ErrMimeNotAllowed = BadRequest ''MIME_NOT_ALLOWED''"
definition ErrExtensionNotAllowed :: err where [errs]: "ErrExtensionNotAllowed = BadRequest ''EXT_NOT_ALLOWED''"
definition ErrInvalidFilename :: err where [errs]: "ErrInvalidFilename = BadRequest ''INVALID_FILENAME''"
definition ErrMimeMismatch :: err where [errs]: "ErrMimeMismatch = BadRequest ''MIME_MISMATCH''"
definition ErrInvalidImage :: err where [errs]: "ErrInvalidImage = BadRequest ''INVALID_IMAGE''"
definition ErrFilePermissionDenied :: err where [errs]: "ErrFilePermissionDenied = Forbidden ''FILE_PERMISSION_DENIED''"

section \<open>The content\<close>

definition verifyMagicNumber :: "string \<Rightarrow> string \<Rightarrow> bool" where
  "verifyMagicNumber content mime =
    (case magicNumbers mime of
       None \<Rightarrow> True
     | Some sig \<Rightarrow> if length content < length sig then False else map byte (take (length sig) content) = sig)"

definition starts :: "nat list \<Rightarrow> string \<Rightarrow> bool" where
  "starts sig content \<longleftrightarrow> length sig \<le> length content \<and> map byte (take (length sig) content) = sig"

definition detectImageMimeType :: "string \<Rightarrow> string" where
  "detectImageMimeType d =
    (if starts [0x89, 0x50, 0x4E, 0x47] d then ''image/png''
     else if starts [0xFF, 0xD8, 0xFF] d then ''image/jpeg''
     else if starts [0x47, 0x49, 0x46, 0x38] d then ''image/gif''
     else if 12 \<le> length d \<and> starts [0x52, 0x49, 0x46, 0x46] d \<and> starts [0x57, 0x45, 0x42, 0x50] (drop 8 d) then ''image/webp''
     else [])"

definition isImageContent :: "string \<Rightarrow> bool" where
  "isImageContent d \<longleftrightarrow> detectImageMimeType d \<noteq> []"

section \<open>Object keys\<close>

definition hexChars :: string where "hexChars = ''0123456789abcdef''"

text \<open>\<^verbatim>\<open>hex_from i n ts\<close> writes the characters \<^verbatim>\<open>i\<close> to \<^verbatim>\<open>n\<close>; the state wraps at 64 bits.\<close>

unbundle bit_operations_syntax

fun hex_from :: "nat \<Rightarrow> nat \<Rightarrow> 64 word \<Rightarrow> string" where
  "hex_from i 0 ts = []"
| "hex_from i (Suc n) ts =
    hexChars ! unat (drop_bit (i * 4) ts AND 0xF) # hex_from (Suc i) n (ts * 1103515245 + 12345)"


definition randomHex :: "int \<Rightarrow> nat \<Rightarrow> string" where
  "randomHex now n = hex_from 0 n (word_of_int now)"

definition presignedKeyPrefix :: string where "presignedKeyPrefix = ''uploads/''"
definition presignedExpireSeconds :: int where "presignedExpireSeconds = 3600"
definition maxPresignedFileSize :: int where "maxPresignedFileSize = MaxAttachSize"

section \<open>Records and objects\<close>

record FilePO =
  fpo_ID :: nat
  fpo_Filename :: string
  fpo_MimeType :: string
  fpo_Size :: int
  fpo_URL :: string
  fpo_UserID :: nat
  fpo_CreatedAt :: int
  fpo_DeletedAt :: "int option"

record filest =
  file_rows :: "FilePO list"
  next_file :: nat
  bucket :: bucket

definition files0 :: filest where "files0 = \<lparr>file_rows = [], next_file = 1, bucket = Map.empty\<rparr>"

definition live_file :: "FilePO \<Rightarrow> bool" where "live_file po \<longleftrightarrow> fpo_DeletedAt po = None"

definition file_by_id :: "filest \<Rightarrow> nat \<Rightarrow> FilePO option" where
  "file_by_id s i = List.find (\<lambda>po. live_file po \<and> fpo_ID po = i) (file_rows s)"

definition fileToBiz :: "FilePO \<Rightarrow> File" where
  "fileToBiz po = \<lparr>f_ID = fpo_ID po, f_UserID = fpo_UserID po, f_Filename = fpo_Filename po, f_MimeType = fpo_MimeType po,
     f_Size = fpo_Size po, f_URL = fpo_URL po, f_CreatedAt = fpo_CreatedAt po\<rparr>"

definition toFilePO :: "nat \<Rightarrow> int \<Rightarrow> File \<Rightarrow> FilePO" where
  "toFilePO i now f = \<lparr>fpo_ID = i, fpo_Filename = f_Filename f, fpo_MimeType = f_MimeType f, fpo_Size = f_Size f,
     fpo_URL = f_URL f, fpo_UserID = f_UserID f, fpo_CreatedAt = now, fpo_DeletedAt = None\<rparr>"

text \<open>The insertion of the record, which both ways of uploading end with.\<close>

definition insert_file :: "env \<Rightarrow> string \<Rightarrow> File \<Rightarrow> filest \<Rightarrow> File res \<times> filest" where
  "insert_file e what f s =
    (if db_fault e [''files.insert''] then (Inl (Wrap what db_error), s)
     else (Inr (f\<lparr>f_ID := next_file s, f_CreatedAt := e_now e\<rparr>),
           s\<lparr>file_rows := file_rows s @ [toFilePO (next_file s) (e_now e) f], next_file := next_file s + 1\<rparr>))"

text \<open>\<^verbatim>\<open>key\<close> is the new UUID.\<close>

definition fileRepo_Create :: "env \<Rightarrow> string \<Rightarrow> File \<Rightarrow> string \<Rightarrow> filest \<Rightarrow> File res \<times> filest" where
  "fileRepo_Create e key f content s =
    (case oss_PutObject e key content (f_MimeType f) (bucket s) of
       (Some er, b) \<Rightarrow> (Inl (Wrap ''upload to oss'' (Opaque ''oss'')), s\<lparr>bucket := b\<rparr>)
     | (None, b) \<Rightarrow> insert_file e ''create file record'' (f\<lparr>f_URL := key\<rparr>) (s\<lparr>bucket := b\<rparr>))"

definition fileRepo_FindByID :: "env \<Rightarrow> nat \<Rightarrow> filest \<Rightarrow> File res" where
  "fileRepo_FindByID e i s =
    (if db_fault e [''files.by_id''] then Inl db_error
     else case file_by_id s i of None \<Rightarrow> Inl ErrFileNotFound | Some po \<Rightarrow> Inr (fileToBiz po))"

definition fileRepo_Delete :: "env \<Rightarrow> nat \<Rightarrow> filest \<Rightarrow> err option \<times> filest" where
  "fileRepo_Delete e i s =
    (if db_fault e [''files.by_id''] then (Some db_error, s)
     else case file_by_id s i of
            None \<Rightarrow> (Some ErrFileNotFound, s)
          | Some po \<Rightarrow>
            let s1 = s\<lparr>bucket := snd (oss_DeleteObject e (fpo_URL po) (bucket s))\<rparr>
            in if db_fault e [''files.delete''] then (Some db_error, s1)
               else (None, s1\<lparr>file_rows := map (\<lambda>q. if live_file q \<and> fpo_ID q = fpo_ID po
                        then q\<lparr>fpo_DeletedAt := Some (e_now e)\<rparr> else q) (file_rows s1)\<rparr>))"

text \<open>\<^verbatim>\<open>ord\<close> is what the database does for ORDER BY created_at DESC.\<close>

definition fileRepo_List ::
  "env \<Rightarrow> (FilePO list \<Rightarrow> FilePO list) \<Rightarrow> nat \<Rightarrow> int \<Rightarrow> int \<Rightarrow> filest \<Rightarrow> (File list \<times> nat) res" where
  "fileRepo_List e ord u page0 size0 s =
    (let page = (if page0 < 1 then 1 else page0);
         psize = (if size0 < 1 \<or> 50 < size0 then 20 else size0);
         rows = filter (\<lambda>po. live_file po \<and> fpo_UserID po = u) (file_rows s)
     in if db_fault e [''files.count''] \<or> db_fault e [''files.list''] then Inl db_error
        else Inr (map fileToBiz (page_slice (nat ((page - 1) * psize)) (nat psize) (ord rows)), length rows))"

definition RegisterPresignedObject :: "env \<Rightarrow> File \<Rightarrow> filest \<Rightarrow> File res \<times> filest" where
  "RegisterPresignedObject e f s =
    (case oss_StatObject e (f_URL f) (bucket s) of
       Inl er \<Rightarrow> (Inl (Wrap ''verify presigned object'' (Opaque ''oss'')), s)
     | Inr info \<Rightarrow>
       if oi_Size info \<le> 0 \<or> MaxAttachSize < oi_Size info then (Inl ErrFileTooLarge, s)
       else insert_file e ''create presigned file record'' (f\<lparr>f_Size := oi_Size info\<rparr>) s)"

section \<open>FileUseCase\<close>

definition bad_name :: "string \<Rightarrow> bool" where
  "bad_name n \<longleftrightarrow> n = ''.'' \<or> n = ''..'' \<or> n = []"

definition base_name :: "string \<Rightarrow> string" where "base_name fn = path_base (path_clean fn)"

definition lower_ext :: "env \<Rightarrow> string \<Rightarrow> string" where "lower_ext e n = to_lower (e_low e) (path_ext n)"

text \<open>The checks of \<^verbatim>\<open>Upload\<close>, in its order.\<close>

definition check_upload :: "env \<Rightarrow> string \<Rightarrow> string \<Rightarrow> string \<Rightarrow> err option" where
  "check_upload e fn mime content =
    (if bad_name (base_name fn) then Some ErrInvalidFilename
     else if lower_ext e (base_name fn) \<notin> set allowedExtensions then Some ErrExtensionNotAllowed
     else if mime \<notin> set allowedMimeTypes then Some ErrMimeNotAllowed
     else if MaxFileSize < int (length content) then Some ErrFileTooLarge
     else if \<not> verifyMagicNumber content mime then Some ErrMimeMismatch
     else if has_prefix mime ''image/'' \<and> \<not> isImageContent content then Some ErrInvalidImage
     else None)"

definition Upload :: "env \<Rightarrow> string \<Rightarrow> ctx \<Rightarrow> string \<Rightarrow> string \<Rightarrow> string \<Rightarrow> filest \<Rightarrow> File res \<times> filest" where
  "Upload e key c fn mime content s =
    (case getCurrentUserID c of
       Inl er \<Rightarrow> (Inl ErrUserNotAuthenticated, s)
     | Inr u \<Rightarrow>
       (case check_upload e fn mime content of
          Some er \<Rightarrow> (Inl er, s)
        | None \<Rightarrow>
          (case fileRepo_Create e key \<lparr>f_ID = 0, f_UserID = u, f_Filename = base_name fn, f_MimeType = mime,
              f_Size = int (length content), f_URL = [], f_CreatedAt = 0\<rparr> content s of
             (Inl er, s1) \<Rightarrow> (Inl (Wrap ''upload'' er), s1) | (Inr f, s1) \<Rightarrow> (Inr f, s1))))"

definition GetFile :: "env \<Rightarrow> ctx \<Rightarrow> nat \<Rightarrow> filest \<Rightarrow> File res" where
  "GetFile e c i s =
    (case fileRepo_FindByID e i s of
       Inl er \<Rightarrow> Inl ErrFileNotFound
     | Inr f \<Rightarrow>
       (case getCurrentUserID c of
          Inl er \<Rightarrow> Inl ErrUserNotAuthenticated
        | Inr u \<Rightarrow> if f_UserID f \<noteq> u then Inl ErrFilePermissionDenied else Inr f))"

definition DeleteFile :: "env \<Rightarrow> ctx \<Rightarrow> nat \<Rightarrow> filest \<Rightarrow> err option \<times> filest" where
  "DeleteFile e c i s =
    (case fileRepo_FindByID e i s of
       Inl er \<Rightarrow> (Some ErrFileNotFound, s)
     | Inr f \<Rightarrow>
       (case getCurrentUserID c of
          Inl er \<Rightarrow> (Some ErrUserNotAuthenticated, s)
        | Inr u \<Rightarrow>
          if f_UserID f \<noteq> u then (Some ErrFilePermissionDenied, s)
          else (case fileRepo_Delete e i s of
                  (Some er, s1) \<Rightarrow> (Some (Wrap ''delete file'' er), s1) | (None, s1) \<Rightarrow> (None, s1))))"

definition ListFiles ::
  "env \<Rightarrow> (FilePO list \<Rightarrow> FilePO list) \<Rightarrow> ctx \<Rightarrow> int \<Rightarrow> int \<Rightarrow> filest \<Rightarrow> (File list \<times> nat) res" where
  "ListFiles e ord c page psize s =
    (case getCurrentUserID c of
       Inl er \<Rightarrow> Inl ErrUserNotAuthenticated
     | Inr u \<Rightarrow> (case fileRepo_List e ord u page psize s of Inl er \<Rightarrow> Inl (Wrap ''list files'' er) | Inr r \<Rightarrow> Inr r))"

text \<open>\<^verbatim>\<open>presign\<close> is the store's: an URL for a key, a content type and a number of seconds.\<close>

definition GetPresignedPutURL ::
  "env \<Rightarrow> (string \<Rightarrow> string \<Rightarrow> int \<Rightarrow> string res) \<Rightarrow> ctx \<Rightarrow> string \<Rightarrow> string \<Rightarrow> (string \<times> string) res" where
  "GetPresignedPutURL e presign c fn mime =
    (case getCurrentUserID c of
       Inl er \<Rightarrow> Inl er
     | Inr u \<Rightarrow>
       if lower_ext e fn \<notin> set allowedExtensions then Inl ErrExtensionNotAllowed
       else let key = show_int (e_now e) @ ''_'' @ randomHex (e_now e) 8 @ lower_ext e fn
            in case presign key mime 3600 of
                 Inl er \<Rightarrow> Inl (Wrap ''presigned url'' er) | Inr url \<Rightarrow> Inr (url, key))"

text \<open>\<^verbatim>\<open>day\<close> formats the date as yyyyMMdd, \<^verbatim>\<open>uid\<close> is the new UUID.\<close>

definition CreatePresignedUpload ::
  "env \<Rightarrow> (string \<Rightarrow> string \<Rightarrow> int \<Rightarrow> string res) \<Rightarrow> (int \<Rightarrow> string) \<Rightarrow> string \<Rightarrow> ctx \<Rightarrow> string \<Rightarrow> string \<Rightarrow> int \<Rightarrow>
    (string \<times> string) res" where
  "CreatePresignedUpload e presign day uid c fn mime sz =
    (case getCurrentUserID c of
       Inl er \<Rightarrow> Inl er
     | Inr u \<Rightarrow>
       if bad_name (base_name fn) then Inl ErrInvalidFilename
       else if lower_ext e (base_name fn) \<notin> set allowedExtensions then Inl ErrExtensionNotAllowed
       else if mime \<notin> set allowedMimeTypes then Inl ErrMimeNotAllowed
       else if sz \<le> 0 \<or> maxPresignedFileSize < sz then Inl ErrFileTooLarge
       else let key = presignedKeyPrefix @ day (e_now e) @ ''_'' @ uid @ lower_ext e (base_name fn)
            in case presign key mime presignedExpireSeconds of
                 Inl er \<Rightarrow> Inl (Wrap ''create presigned upload'' er) | Inr url \<Rightarrow> Inr (url, key))"

definition CompletePresignedUpload :: "env \<Rightarrow> ctx \<Rightarrow> string \<Rightarrow> string \<Rightarrow> string \<Rightarrow> filest \<Rightarrow> File res \<times> filest" where
  "CompletePresignedUpload e c key fn mime s =
    (case getCurrentUserID c of
       Inl er \<Rightarrow> (Inl er, s)
     | Inr u \<Rightarrow>
       if \<not> has_prefix key presignedKeyPrefix then (Inl ErrInvalidFilename, s)
       else if bad_name (base_name fn) then (Inl ErrInvalidFilename, s)
       else if lower_ext e (base_name fn) \<notin> set allowedExtensions then (Inl ErrExtensionNotAllowed, s)
       else if mime \<notin> set allowedMimeTypes then (Inl ErrMimeNotAllowed, s)
       else RegisterPresignedObject e \<lparr>f_ID = 0, f_UserID = u, f_Filename = base_name fn, f_MimeType = mime,
              f_Size = 0, f_URL = key, f_CreatedAt = 0\<rparr> s)"

section \<open>The component as a state machine\<close>

text \<open>
  One step of the file service as user request \<^verbatim>\<open>c\<close> makes it, and the one step outside the service: a
  client writes to a presigned URL. Both kinds of presigned key contain an underscore, and the UUIDs
  that name direct uploads are new and contain neither an underscore nor a slash.
\<close>

definition direct_key :: "string \<Rightarrow> bool" where
  "direct_key k \<longleftrightarrow> CHR ''_'' \<notin> set k \<and> CHR ''/'' \<notin> set k"

definition new_key :: "filest \<Rightarrow> string \<Rightarrow> bool" where
  "new_key s k \<longleftrightarrow> direct_key k \<and> bucket s k = None \<and> (\<forall>po\<in>set (file_rows s). fpo_URL po \<noteq> k)"

inductive file_step :: "ctx \<Rightarrow> filest \<Rightarrow> filest \<Rightarrow> bool" where
  Upload: "new_key s k \<Longrightarrow> file_step c s (snd (Upload e k c fn mime content s))"
| Delete: "file_step c s (snd (DeleteFile e c i s))"
| Complete: "file_step c s (snd (CompletePresignedUpload e c key fn mime s))"
| Put: "\<not> direct_key k \<Longrightarrow> file_step c s (s\<lparr>bucket := (bucket s)(k \<mapsto> o1)\<rparr>)"

inductive_cases file_stepE: "file_step c s s'"

definition file_reach :: "(ctx \<Rightarrow> bool) \<Rightarrow> filest \<Rightarrow> filest \<Rightarrow> bool" where
  "file_reach by_whom = (\<lambda>s s'. \<exists>c. by_whom c \<and> file_step c s s')\<^sup>*\<^sup>*"

end
