(* ===== verification/FilesProps.thy ===== *)
theory FilesProps
  imports Files
begin

text \<open>
  Properties of uploaded files: what a successful upload has passed, what a stored object is worth as
  long as it is there, who can touch whose files, and the session of a presigned upload.
\<close>

section \<open>Names\<close>

lemma path_base_slash: "path_base p = ''/'' \<or> CHR ''/'' \<notin> set (path_base p)"
  by (auto simp: path_base_def Let_def dest: set_takeWhileD)

lemma ext_slash: "path_ext ''/'' = []"
  by (simp add: path_ext_def)

lemma to_lower_Nil: "to_lower low [] = []"
  by (simp add: to_lower_def)

lemma allowed_not_Nil: "[] \<notin> set allowedExtensions"
  by (simp add: allowedExtensions_def)

lemma stored_name:
  assumes "lower_ext e (base_name fn) \<in> set allowedExtensions"
  shows "CHR ''/'' \<notin> set (base_name fn)"
  using assms path_base_slash [of "path_clean fn"] allowed_not_Nil
  by (auto simp: lower_ext_def base_name_def ext_slash to_lower_Nil)

lemma key_put: "GetPresignedPutURL e presign c fn mime = Inr (url, key) \<Longrightarrow> CHR ''_'' \<in> set key"
  by (auto simp: GetPresignedPutURL_def Let_def split: sum.splits if_splits)

lemma key_create: "CreatePresignedUpload e presign day uid c fn mime sz = Inr (url, key) \<Longrightarrow>
    CHR ''_'' \<in> set key \<and> has_prefix key presignedKeyPrefix"
  by (auto simp: CreatePresignedUpload_def Let_def has_prefix_def split: sum.splits if_splits)

lemmas issued_keys = key_put key_create

section \<open>Content\<close>

lemma starts_hd: "starts (b # bs) d \<Longrightarrow> d \<noteq> [] \<and> byte (hd d) = b"
  by (cases d) (auto simp: starts_def)

lemma verify_starts: "verifyMagicNumber d m = (case magicNumbers m of None \<Rightarrow> True | Some g \<Rightarrow> starts g d)"
  by (auto simp: verifyMagicNumber_def starts_def split: option.split)

definition svg :: string where "svg = ''image/svg+xml''"

lemma image_mimes:
  "mime \<in> set allowedMimeTypes \<Longrightarrow> has_prefix mime ''image/'' \<Longrightarrow>
    mime \<in> {''image/jpeg'', ''image/png'', ''image/gif'', ''image/webp'', svg}"
proof -
  assume *: "mime \<in> set allowedMimeTypes" "has_prefix mime ''image/''"
  have "list_all (\<lambda>m. has_prefix m ''image/'' \<longrightarrow>
      m \<in> set [''image/jpeg'', ''image/png'', ''image/gif'', ''image/webp'', svg]) allowedMimeTypes"
    by code_simp
  with * have "mime \<in> set [''image/jpeg'', ''image/png'', ''image/gif'', ''image/webp'', svg]"
    unfolding list_all_iff by blast
  then show ?thesis by (simp only: list.set)
qed

lemma detect_claimed:
  assumes "mime \<in> set allowedMimeTypes" "has_prefix mime ''image/''" "verifyMagicNumber d mime" "isImageContent d"
  shows "mime = svg \<or> detectImageMimeType d = mime"
proof -
  have f: "starts [0x89, 0x50, 0x4E, 0x47] d \<Longrightarrow> byte (hd d) = 0x89" "starts [0xFF, 0xD8, 0xFF] d \<Longrightarrow> byte (hd d) = 0xFF"
    "starts [0x47, 0x49, 0x46, 0x38] d \<Longrightarrow> byte (hd d) = 0x47" "starts [0x52, 0x49, 0x46, 0x46] d \<Longrightarrow> byte (hd d) = 0x52"
    using starts_hd by blast+
  from image_mimes [OF assms(1,2)] consider "mime = svg" | "mime = ''image/png''" | "mime = ''image/jpeg''"
    | "mime = ''image/gif''" | "mime = ''image/webp''" by blast
  then show ?thesis
  proof cases
    case 2
    with assms(3) have "starts [0x89, 0x50, 0x4E, 0x47] d" by (simp add: verify_starts magicNumbers_def)
    with 2 show ?thesis by (simp add: detectImageMimeType_def)
  next
    case 3
    with assms(3) have "starts [0xFF, 0xD8, 0xFF] d" by (simp add: verify_starts magicNumbers_def)
    with 3 f(1,2) show ?thesis by (auto simp: detectImageMimeType_def)
  next
    case 4
    with assms(3) have "starts [0x47, 0x49, 0x46, 0x38] d" by (simp add: verify_starts magicNumbers_def)
    with 4 f(1,2,3) show ?thesis by (auto simp: detectImageMimeType_def)
  next
    case 5
    with assms(3) have "starts [0x52, 0x49, 0x46, 0x46] d" by (simp add: verify_starts magicNumbers_def)
    with 5 f assms(4) show ?thesis by (auto simp: detectImageMimeType_def isImageContent_def split: if_splits)
  qed simp
qed

definition checked_content :: "string \<Rightarrow> string \<Rightarrow> bool" where
  "checked_content mime d \<longleftrightarrow> int (length d) \<le> MaxFileSize \<and> verifyMagicNumber d mime \<and>
    (has_prefix mime ''image/'' \<longrightarrow> detectImageMimeType d \<noteq> [] \<and> (mime \<noteq> svg \<longrightarrow> detectImageMimeType d = mime))"

lemma check_uploadD:
  assumes "check_upload e fn mime d = None"
  shows "lower_ext e (base_name fn) \<in> set allowedExtensions \<and> \<not> bad_name (base_name fn) \<and> mime \<in> set allowedMimeTypes \<and>
    checked_content mime d"
  using assms detect_claimed [of mime d]
  by (auto simp: check_upload_def checked_content_def isImageContent_def split: if_splits)

lemma Upload_success:
  assumes "Upload e k c fn mime d s = (Inr f, s')"
  obtains u where "getCurrentUserID c = Inr u" "check_upload e fn mime d = None"
    "f = \<lparr>f_ID = next_file s, f_UserID = u, f_Filename = base_name fn, f_MimeType = mime, f_Size = int (length d),
        f_URL = k, f_CreatedAt = e_now e\<rparr>"
    "s' = s\<lparr>bucket := (bucket s)(k \<mapsto> \<lparr>b_Content = d, b_Type = mime\<rparr>),
        file_rows := file_rows s @ [toFilePO (next_file s) (e_now e) f], next_file := next_file s + 1\<rparr>"
  using assms
  by (auto simp: Upload_def fileRepo_Create_def oss_PutObject_def insert_file_def toFilePO_def
      split: sum.splits option.splits if_splits)

text \<open>
  An accepted upload has passed every check: the caller is logged in and becomes the owner, the name
  is a plain file name (no slash, not "." or ".."), its lower-cased extension and the type are on the
  white lists, there are at most 10 MiB, the first bytes are those of the claimed type, and the content
  of an image is recognised as the very type claimed, SVG apart. The record and the object hold exactly
  what was sent.
\<close>
theorem upload_checked:
  assumes "Upload e k c fn mime d s = (Inr f, s')"
  shows "getCurrentUserID c = Inr (f_UserID f) \<and> CHR ''/'' \<notin> set (f_Filename f) \<and> \<not> bad_name (f_Filename f) \<and>
    lower_ext e (f_Filename f) \<in> set allowedExtensions \<and> f_MimeType f = mime \<and> mime \<in> set allowedMimeTypes \<and>
    checked_content mime d \<and> f_Size f = int (length d) \<and>
    bucket s' (f_URL f) = Some \<lparr>b_Content = d, b_Type = mime\<rparr> \<and>
    toFilePO (f_ID f) (f_CreatedAt f) f \<in> set (file_rows s')"
  using assms
proof (rule Upload_success)
  fix u
  assume *: "getCurrentUserID c = Inr u" "check_upload e fn mime d = None"
    "f = \<lparr>f_ID = next_file s, f_UserID = u, f_Filename = base_name fn, f_MimeType = mime, f_Size = int (length d),
        f_URL = k, f_CreatedAt = e_now e\<rparr>"
    "s' = s\<lparr>bucket := (bucket s)(k \<mapsto> \<lparr>b_Content = d, b_Type = mime\<rparr>),
        file_rows := file_rows s @ [toFilePO (next_file s) (e_now e) f], next_file := next_file s + 1\<rparr>"
  from check_uploadD [OF *(2)] stored_name [of e fn] show ?thesis by (simp add: *(1,3,4))
qed

section \<open>Stored objects\<close>

definition object_ok :: "bucket \<Rightarrow> FilePO \<Rightarrow> bool" where
  "object_ok b po =
    (case b (fpo_URL po) of
       None \<Rightarrow> True
     | Some o1 \<Rightarrow> b_Type o1 = fpo_MimeType po \<and> int (length (b_Content o1)) = fpo_Size po \<and>
         checked_content (fpo_MimeType po) (b_Content o1))"

text \<open>No other row has the key.\<close>

definition sole :: "FilePO list \<Rightarrow> FilePO \<Rightarrow> bool" where
  "sole rows po \<longleftrightarrow> (\<forall>q\<in>set rows. fpo_URL q = fpo_URL po \<longrightarrow> fpo_ID q = fpo_ID po)"

definition row_ok :: "filest \<Rightarrow> FilePO \<Rightarrow> bool" where
  "row_ok s po \<longleftrightarrow> fpo_ID po < next_file s \<and>
    (direct_key (fpo_URL po) \<longrightarrow>
sole (file_rows s) po \<and> object_ok (bucket s) po)"

definition file_ok :: "filest \<Rightarrow> bool" where
  "file_ok s \<longleftrightarrow> distinct (map fpo_ID (file_rows s)) \<and> (\<forall>po\<in>set (file_rows s). row_ok s po)"

lemma file_ok0: "file_ok files0"
  by (simp add: file_ok_def files0_def)

lemma prefix_not_direct: "has_prefix k presignedKeyPrefix \<Longrightarrow> \<not> direct_key k"
proof -
  assume "has_prefix k presignedKeyPrefix"
  then have "take (length presignedKeyPrefix) k = presignedKeyPrefix" by (simp only: has_prefix_def)
  moreover have "CHR ''/'' \<in> set presignedKeyPrefix" by (simp add: presignedKeyPrefix_def)
  ultimately have "CHR ''/'' \<in> set (take (length presignedKeyPrefix) k)" by (simp only:)
  then show ?thesis by (auto simp: direct_key_def dest: in_set_takeD)
qed

lemma Upload_cases:
  assumes "Upload e k c fn mime d s = (r, s')"
  obtains "s' = s" | b where "s' = s\<lparr>bucket := b\<rparr>" "b = (bucket s)(k \<mapsto> \<lparr>b_Content = d, b_Type = mime\<rparr>)"
  | f where "r = Inr f"
proof -
  have "s' = s \<or> s' = s\<lparr>bucket := (bucket s)(k \<mapsto> \<lparr>b_Content = d, b_Type = mime\<rparr>)\<rparr> \<or> (\<exists>f. r = Inr f)"
    using assms
    by (auto simp: Upload_def fileRepo_Create_def oss_PutObject_def insert_file_def
        split: sum.splits option.splits if_splits)
  then show thesis using that by blast
qed

lemma insert_file_cases:
  "insert_file e what f s = (r, s') \<Longrightarrow>
    s' = s \<or> s' = s\<lparr>file_rows := file_rows s @ [toFilePO (next_file s) (e_now e) f], next_file := next_file s + 1\<rparr>"
  by (auto simp: insert_file_def split: if_splits)

lemma Register_cases:
  assumes "RegisterPresignedObject e f s = (r, s')"
  shows "s' = s \<or> (\<exists>z. s' = s\<lparr>file_rows := file_rows s @ [toFilePO (next_file s) (e_now e) (f\<lparr>f_Size := z\<rparr>)],
      next_file := next_file s + 1\<rparr>)"
proof (cases "oss_StatObject e (f_URL f) (bucket s)")
  case (Inr info)
  with assms show ?thesis
    using insert_file_cases [of e "''create presigned file record''" "f\<lparr>f_Size := oi_Size info\<rparr>" s r s']
    by (auto simp: RegisterPresignedObject_def split: if_splits)
qed (use assms in \<open>simp add: RegisterPresignedObject_def\<close>)

lemma Complete_cases:
  assumes "CompletePresignedUpload e c key fn mime s = (r, s')"
  obtains "s' = s" | u po where "getCurrentUserID c = Inr u" "has_prefix key presignedKeyPrefix" "fpo_URL po = key"
    "fpo_UserID po = u" "fpo_ID po = next_file s" "s' = s\<lparr>file_rows := file_rows s @ [po], next_file := next_file s + 1\<rparr>"
proof (cases "getCurrentUserID c")
  case (Inl er)
  with assms that(1) show thesis by (simp add: CompletePresignedUpload_def)
next
  case (Inr u)
  let ?f = "\<lparr>f_ID = 0, f_UserID = u, f_Filename = base_name fn, f_MimeType = mime, f_Size = 0, f_URL = key, f_CreatedAt = 0\<rparr>"
  have "s' = s \<or> (has_prefix key presignedKeyPrefix \<and> RegisterPresignedObject e ?f s = (r, s'))"
    using assms Inr by (simp add: CompletePresignedUpload_def split: if_splits)
  then consider "s' = s" | z where "has_prefix key presignedKeyPrefix"
    "s' = s\<lparr>file_rows := file_rows s @ [toFilePO (next_file s) (e_now e) (?f\<lparr>f_Size := z\<rparr>)], next_file := next_file s + 1\<rparr>"
    using Register_cases [of e ?f s r s'] by blast
  then show thesis
    by cases (use Inr that(1) that(2) [of u "toFilePO (next_file s) (e_now e) (?f\<lparr>f_Size := z\<rparr>)" for z] in \<open>auto simp: toFilePO_def\<close>)
qed

lemma file_by_id_Some: "file_by_id s i = Some po \<Longrightarrow> po \<in> set (file_rows s) \<and> live_file po \<and> fpo_ID po = i"
  unfolding file_by_id_def by (drule find_Some_mem) simp

lemma Delete_cases:
  assumes "DeleteFile e c i s = (r, s')"
  obtains "s' = s" | u po b rows where "getCurrentUserID c = Inr u" "file_by_id s i = Some po" "fpo_UserID po = u"
    "s' = s\<lparr>bucket := b, file_rows := rows\<rparr>" "b = bucket s \<or> b = (bucket s)(fpo_URL po := None)"
    "rows = file_rows s \<or> rows = map (\<lambda>q. if live_file q \<and> fpo_ID q = fpo_ID po
        then q\<lparr>fpo_DeletedAt := Some (e_now e)\<rparr> else q) (file_rows s)"
proof -
  have "s' = s \<or> (\<exists>u po. getCurrentUserID c = Inr u \<and> file_by_id s i = Some po \<and> fpo_UserID po = u \<and>
    s' = s\<lparr>bucket := bucket s', file_rows := file_rows s'\<rparr> \<and> (bucket s' = bucket s \<or> bucket s' = (bucket s)(fpo_URL po := None)) \<and>
    (file_rows s' = file_rows s \<or> file_rows s' = map (\<lambda>q. if live_file q \<and> fpo_ID q = fpo_ID po
        then q\<lparr>fpo_DeletedAt := Some (e_now e)\<rparr> else q) (file_rows s)))"
    using assms
    by (auto simp: DeleteFile_def fileRepo_FindByID_def fileRepo_Delete_def fileToBiz_def oss_DeleteObject_def oss_fault_def Let_def
        split: sum.splits option.splits if_splits)
  then show thesis using that by blast
qed

text \<open>What a row and its object look like to the invariant.\<close>

definition file_view :: "FilePO \<Rightarrow> nat \<times> nat \<times> string \<times> string \<times> int" where
  "file_view po = (fpo_ID po, fpo_UserID po, fpo_URL po, fpo_MimeType po, fpo_Size po)"

lemma object_ok_cong: "b (fpo_URL po) = b' (fpo_URL po) \<Longrightarrow> object_ok b po = object_ok b' po"
  by (simp add: object_ok_def)

lemma object_ok_view: "file_view q = file_view po \<Longrightarrow> object_ok b q = object_ok b po"
  by (simp add: object_ok_def file_view_def split: option.split)

lemma object_ok_gone: "b (fpo_URL po) = None \<Longrightarrow> object_ok b po"
  by (simp add: object_ok_def)

lemma row_ok_view:
  assumes "map file_view rows = map file_view (file_rows s)" "row_ok s q" "file_view q = file_view po"
    "\<And>k. direct_key k \<Longrightarrow> b k = None \<or> b k = bucket s k"
  shows "row_ok (s\<lparr>bucket := b, file_rows := rows\<rparr>) po"
proof -
  have mem: "\<exists>q\<in>set (file_rows s). file_view q = file_view p" if "p \<in> set rows" for p
    using that arg_cong [OF assms(1), of set] unfolding set_map by (metis imageE imageI)
  have f: "fpo_ID q = fpo_ID po" "fpo_URL q = fpo_URL po" "fpo_MimeType q = fpo_MimeType po" "fpo_Size q = fpo_Size po"
    using assms(3) by (simp_all add: file_view_def)
  have o1: "object_ok b po" if "direct_key (fpo_URL po)"
  proof (cases "b (fpo_URL po) = None")
    case False
    with assms(4) [OF that] have "b (fpo_URL po) = bucket s (fpo_URL po)" by blast
    moreover have "object_ok (bucket s) q" using assms(2) that f by (simp add: row_ok_def)
    ultimately show ?thesis using object_ok_view [OF assms(3)] object_ok_cong by blast
  qed (rule object_ok_gone)
  have "sole rows po" if "direct_key (fpo_URL po)"
    unfolding sole_def
  proof (intro ballI impI)
    fix p assume p: "p \<in> set rows" "fpo_URL p = fpo_URL po"
    obtain q' where q': "q' \<in> set (file_rows s)" "file_view q' = file_view p" using mem [OF p(1)] by blast
    then have "fpo_URL q' = fpo_URL q" "fpo_ID q' = fpo_ID p" using p(2) f(2) by (simp_all add: file_view_def)
    moreover have "sole (file_rows s) q" using assms(2) that f(2) by (simp add: row_ok_def)
    ultimately show "fpo_ID p = fpo_ID po" using q'(1) f(1) unfolding sole_def by metis
  qed
  with o1 f(1,2) assms(2) show ?thesis by (simp add: row_ok_def)
qed

lemma file_ok_view:
  assumes "map file_view rows = map file_view (file_rows s)" "file_ok s"
    "\<And>k. direct_key k \<Longrightarrow> b k = None \<or> b k = bucket s k"
  shows "file_ok (s\<lparr>bucket := b, file_rows := rows\<rparr>)"
proof -
  have "map fpo_ID rows = map fpo_ID (file_rows s)"
    using arg_cong [OF assms(1), of "map fst"] by (simp add: file_view_def comp_def)
  moreover have "\<exists>q\<in>set (file_rows s). file_view q = file_view p" if "p \<in> set rows" for p
    using that arg_cong [OF assms(1), of set] unfolding set_map by (metis imageE imageI)
  ultimately show ?thesis
    using assms(2) row_ok_view [OF assms(1) _ _ assms(3)] by (fastforce simp: file_ok_def)
qed

lemma view_delete:
  "map file_view (map (\<lambda>q. if live_file q \<and> fpo_ID q = i then q\<lparr>fpo_DeletedAt := t\<rparr> else q) rows) = map file_view rows"
  by (simp add: file_view_def)

lemma file_ok_add:
  assumes "file_ok s" "fpo_ID po = next_file s" "\<And>k. direct_key k \<Longrightarrow> k \<noteq> fpo_URL po \<Longrightarrow> b k = bucket s k"
    "\<And>q. q \<in> set (file_rows s) \<Longrightarrow> direct_key (fpo_URL q) \<Longrightarrow> fpo_URL q \<noteq> fpo_URL po"
    "direct_key (fpo_URL po) \<Longrightarrow> object_ok b po"
  shows "file_ok (s\<lparr>bucket := b, file_rows := file_rows s @ [po], next_file := next_file s + 1\<rparr>)" (is "file_ok ?s")
proof -
  have old: "row_ok ?s q" if q: "q \<in> set (file_rows s)" for q
  proof -
    from q assms(1) have r: "row_ok s q" by (simp add: file_ok_def)
    have "object_ok b q" if "direct_key (fpo_URL q)"
      using r that object_ok_cong [of b q "bucket s"] assms(3) [OF that assms(4) [OF q that]] by (simp add: row_ok_def)
    moreover have "sole (file_rows s @ [po]) q" if "direct_key (fpo_URL q)"
      using r that assms(4) [OF q that] by (auto simp: row_ok_def sole_def)
    ultimately show ?thesis using r by (simp add: row_ok_def)
  qed
  have "sole (file_rows s @ [po]) po" if "direct_key (fpo_URL po)"
    using assms(4) that unfolding sole_def by (metis Un_iff empty_iff list.set set_append singletonD insert_iff)
  then have new: "row_ok ?s po" using assms(2,5) by (simp add: row_ok_def)
  have "next_file s \<notin> fpo_ID ` set (file_rows s)" using assms(1) by (auto simp: file_ok_def row_ok_def)
  with old new assms(1,2) show ?thesis by (simp add: file_ok_def)
qed

lemma file_ok_bucket:
  assumes "file_ok s" "\<And>po. po \<in> set (file_rows s) \<Longrightarrow> direct_key (fpo_URL po) \<Longrightarrow> b (fpo_URL po) = bucket s (fpo_URL po)"
  shows "file_ok (s\<lparr>bucket := b\<rparr>)"
  using assms by (simp add: file_ok_def row_ok_def object_ok_def)

lemma file_ok_put:
  assumes "file_ok s" "new_key s k \<or> \<not> direct_key k"
  shows "file_ok (s\<lparr>bucket := (bucket s)(k \<mapsto> o1)\<rparr>)"
proof (rule file_ok_bucket [OF assms(1)])
  fix po assume "po \<in> set (file_rows s)" "direct_key (fpo_URL po)"
  with assms(2) have "fpo_URL po \<noteq> k" by (auto simp: new_key_def)
  then show "((bucket s)(k \<mapsto> o1)) (fpo_URL po) = bucket s (fpo_URL po)" by simp
qed

lemma Upload_ok:
  assumes "Upload e k c fn mime d s = (r, s')" "new_key s k" "file_ok s"
  shows "file_ok s'"
  using assms(1)
proof (cases rule: Upload_cases)
  case (2 b)
  then show ?thesis using file_ok_put [OF assms(3)] assms(2) by simp
next
  case (3 f)
  from assms(1) [unfolded 3] show ?thesis
  proof (rule Upload_success)
    fix u
    assume *: "check_upload e fn mime d = None"
      "f = \<lparr>f_ID = next_file s, f_UserID = u, f_Filename = base_name fn, f_MimeType = mime, f_Size = int (length d),
          f_URL = k, f_CreatedAt = e_now e\<rparr>"
      "s' = s\<lparr>bucket := (bucket s)(k \<mapsto> \<lparr>b_Content = d, b_Type = mime\<rparr>),
          file_rows := file_rows s @ [toFilePO (next_file s) (e_now e) f], next_file := next_file s + 1\<rparr>"
    have po: "fpo_URL (toFilePO (next_file s) (e_now e) f) = k" "fpo_ID (toFilePO (next_file s) (e_now e) f) = next_file s"
      "object_ok ((bucket s)(k \<mapsto> \<lparr>b_Content = d, b_Type = mime\<rparr>)) (toFilePO (next_file s) (e_now e) f)"
      using check_uploadD [OF *(1)] by (simp_all add: *(2) toFilePO_def object_ok_def)
    show ?thesis
      unfolding *(3) using assms(2) po by (intro file_ok_add assms(3)) (auto simp: new_key_def)
  qed
qed (use assms in simp)

lemma Delete_ok:
  assumes "DeleteFile e c i s = (r, s')" "file_ok s"
  shows "file_ok s'"
  using assms(1)
proof (cases rule: Delete_cases)
  case (2 u po b rows)
  have "map file_view rows = map file_view (file_rows s)" using 2(6) by (elim disjE) (simp_all only: view_delete)
  moreover have "b k = None \<or> b k = bucket s k" for k using 2(5) by auto
  ultimately show ?thesis unfolding 2(4) using assms(2) by (intro file_ok_view)
qed (use assms in simp)

lemma Complete_ok:
  assumes "CompletePresignedUpload e c key fn mime s = (r, s')" "file_ok s"
  shows "file_ok s'"
  using assms(1)
proof (cases rule: Complete_cases)
  case (2 u po)
  then have n: "\<not> direct_key (fpo_URL po)" using prefix_not_direct by simp
  have "file_ok (s\<lparr>bucket := bucket s, file_rows := file_rows s @ [po], next_file := next_file s + 1\<rparr>)"
    using n 2(5) by (intro file_ok_add assms(2)) auto
  with 2(6) show ?thesis by simp
qed (use assms in simp)

lemma file_step_ok: "file_step c s s' \<Longrightarrow> file_ok s \<Longrightarrow> file_ok s'"
  by (induction rule: file_step.induct)
    (metis Upload_ok prod.collapse, metis Delete_ok prod.collapse, metis Complete_ok prod.collapse, simp add: file_ok_put)

lemma file_reach_ok: "file_reach P s s' \<Longrightarrow> file_ok s \<Longrightarrow> file_ok s'"
  unfolding file_reach_def by (induction rule: rtranclp_induct) (auto dest: file_step_ok)

text \<open>
  C18. A direct upload keeps its worth: in every state the service reaches, whatever clients write to
  presigned URLs and whatever fails, the object of a direct upload is either gone or still has the type,
  the size and content that passed the checks of its record.
\<close>
theorem stored_objects_checked:
  assumes "file_reach P files0 s" "po \<in> set (file_rows s)" "direct_key (fpo_URL po)" "bucket s (fpo_URL po) = Some o1"
  shows "b_Type o1 = fpo_MimeType po \<and> int (length (b_Content o1)) = fpo_Size po \<and>
    checked_content (fpo_MimeType po) (b_Content o1)"
proof -
  from file_reach_ok [OF assms(1) file_ok0] assms(2,3) have "object_ok (bucket s) po" by (simp add: file_ok_def row_ok_def)
  with assms(4) show ?thesis by (simp add: object_ok_def)
qed

section \<open>Owners\<close>

text \<open>The records of a user, each with the object of a direct upload.\<close>

definition belongings :: "filest \<Rightarrow> nat \<Rightarrow> (FilePO \<times> blob option) list" where
  "belongings s u = map (\<lambda>po. (po, if direct_key (fpo_URL po) then bucket s (fpo_URL po) else None))
     (filter (\<lambda>po. fpo_UserID po = u) (file_rows s))"

lemma belongings_bucket:
  assumes "\<And>po. po \<in> set (file_rows s) \<Longrightarrow> fpo_UserID po = u \<Longrightarrow> direct_key (fpo_URL po) \<Longrightarrow> b (fpo_URL po) = bucket s (fpo_URL po)"
  shows "belongings (s\<lparr>bucket := b\<rparr>) u = belongings s u"
  using assms by (simp add: belongings_def)

lemma belongings_append:
  "fpo_UserID po \<noteq> u \<Longrightarrow> belongings (s\<lparr>file_rows := file_rows s @ [po], next_file := n\<rparr>) u = belongings s u"
  by (simp add: belongings_def)

lemma belongings_put:
  "new_key s k \<or> \<not> direct_key k \<Longrightarrow> belongings (s\<lparr>bucket := (bucket s)(k \<mapsto> o1)\<rparr>) u = belongings s u"
  by (rule belongings_bucket) (auto simp: new_key_def)

lemma filter_map_other:
  "(\<And>x. x \<in> set xs \<Longrightarrow> P (f x) = P x) \<Longrightarrow> (\<And>x. x \<in> set xs \<Longrightarrow> P x \<Longrightarrow> f x = x) \<Longrightarrow> filter P (map f xs) = filter P xs"
  by (induction xs) auto

lemma Upload_other:
  assumes "Upload e k c fn mime d s = (r, s')" "new_key s k" "getCurrentUserID c \<noteq> Inr u"
  shows "belongings s' u = belongings s u"
  using assms(1)
proof (cases rule: Upload_cases)
  case (2 b)
  then show ?thesis using belongings_put [of s k] assms(2) by simp
next
  case (3 f)
  from assms(1) [unfolded 3] show ?thesis
  proof (rule Upload_success)
    fix v
    assume *: "getCurrentUserID c = Inr v" 
      "f = \<lparr>f_ID = next_file s, f_UserID = v, f_Filename = base_name fn, f_MimeType = mime, f_Size = int (length d),
          f_URL = k, f_CreatedAt = e_now e\<rparr>"
      "s' = s\<lparr>bucket := (bucket s)(k \<mapsto> \<lparr>b_Content = d, b_Type = mime\<rparr>),
          file_rows := file_rows s @ [toFilePO (next_file s) (e_now e) f], next_file := next_file s + 1\<rparr>"
    let ?s = "s\<lparr>bucket := (bucket s)(k \<mapsto> \<lparr>b_Content = d, b_Type = mime\<rparr>)\<rparr>"
    have "v \<noteq> u" using *(1) assms(3) by simp
    then have "belongings (?s\<lparr>file_rows := file_rows ?s @ [toFilePO (next_file s) (e_now e) f], next_file := next_file s + 1\<rparr>) u
      = belongings ?s u"
      by (intro belongings_append) (simp add: *(2) toFilePO_def)
    with *(3) belongings_put [of s k] assms(2) show ?thesis by simp
  qed
qed simp

lemma Delete_other:
  assumes "DeleteFile e c i s = (r, s')" "file_ok s" "getCurrentUserID c \<noteq> Inr u"
  shows "belongings s' u = belongings s u"
  using assms(1)
proof (cases rule: Delete_cases)
  case (2 v po b rows)
  have v: "fpo_UserID po \<noteq> u" using 2(1,3) assms(3) by auto
  note po = file_by_id_Some [OF 2(2)]
  have ids: "distinct (map fpo_ID (file_rows s))" using assms(2) by (simp add: file_ok_def)
  have "filter (\<lambda>q. fpo_UserID q = u) rows = filter (\<lambda>q. fpo_UserID q = u) (file_rows s)"
    using 2(6)
  proof (elim disjE)
    assume "rows = map (\<lambda>q. if live_file q \<and> fpo_ID q = fpo_ID po then q\<lparr>fpo_DeletedAt := Some (e_now e)\<rparr> else q) (file_rows s)"
    then show ?thesis
      using v distinct_key [OF ids] po by (simp only:) (rule filter_map_other, auto)
  qed simp
  then have 1: "belongings s' u = belongings (s\<lparr>bucket := b\<rparr>) u" by (simp add: belongings_def 2(4))
  also have "\<dots> = belongings s u"
  proof (rule belongings_bucket)
    fix q assume q: "q \<in> set (file_rows s)" "fpo_UserID q = u" "direct_key (fpo_URL q)"
    have "fpo_URL q \<noteq> fpo_URL po"
    proof
      assume "fpo_URL q = fpo_URL po"
      moreover have "sole (file_rows s) q" using q assms(2) by (simp add: file_ok_def row_ok_def)
      ultimately have "fpo_ID po = fpo_ID q" using po unfolding sole_def by metis
      with distinct_key [OF ids] po q(1) have "po = q" by blast
      with v q(2) show False by simp
    qed
    with 2(5) show "b (fpo_URL q) = bucket s (fpo_URL q)" by auto
  qed
  finally show ?thesis .
qed simp

lemma Complete_other:
  assumes "CompletePresignedUpload e c key fn mime s = (r, s')" "getCurrentUserID c \<noteq> Inr u"
  shows "belongings s' u = belongings s u"
  using assms(1)
proof (cases rule: Complete_cases)
  case (2 v po)
  with assms(2) show ?thesis by (simp add: belongings_append)
qed simp

lemma file_step_other: "file_step c s s' \<Longrightarrow> file_ok s \<Longrightarrow> getCurrentUserID c \<noteq> Inr u \<Longrightarrow> belongings s' u = belongings s u"
  by (induction rule: file_step.induct)
    (metis Upload_other prod.collapse, metis Delete_other prod.collapse, metis Complete_other prod.collapse,
     simp add: belongings_put)

text \<open>
  C17. Users cannot touch each other's direct uploads: from any reachable state, whatever everyone else
  does (uploads, deletions by id, registrations of presigned objects, writes to presigned URLs), the
  records of a user stay as they are, and so do the objects behind the direct uploads among them.
\<close>
theorem uploads_isolated:
  assumes "file_reach P files0 s" "file_reach (\<lambda>c. getCurrentUserID c \<noteq> Inr u) s s'"
  shows "belongings s' u = belongings s u"
proof -
  have "file_ok s" using file_reach_ok [OF assms(1) file_ok0] .
  from assms(2) this have "belongings s' u = belongings s u \<and> file_ok s'"
    unfolding file_reach_def by (induction rule: rtranclp_induct) (auto dest: file_step_ok file_step_other)
  then show ?thesis ..
qed

section \<open>Presigned uploads\<close>

lemma Complete_calm:
  assumes "calm e" "getCurrentUserID c = Inr u" "has_prefix key presignedKeyPrefix" "\<not> bad_name (base_name fn)"
    "lower_ext e (base_name fn) \<in> set allowedExtensions" "mime \<in> set allowedMimeTypes"
    "bucket s key = Some o1" "0 < length (b_Content o1)" "int (length (b_Content o1)) \<le> MaxAttachSize"
  shows "CompletePresignedUpload e c key fn mime s =
    (let f = \<lparr>f_ID = next_file s, f_UserID = u, f_Filename = base_name fn, f_MimeType = mime,
        f_Size = int (length (b_Content o1)), f_URL = key, f_CreatedAt = e_now e\<rparr>
     in (Inr f, s\<lparr>file_rows := file_rows s @ [toFilePO (next_file s) (e_now e) f], next_file := next_file s + 1\<rparr>))"
  using assms
  by (simp add: CompletePresignedUpload_def RegisterPresignedObject_def oss_StatObject_def oss_fault_def toObjectInfo_def
      insert_file_def toFilePO_def Let_def)

lemma file_by_id_next:
  assumes "\<And>po. po \<in> set (file_rows s) \<Longrightarrow> fpo_ID po < next_file s" "fpo_ID q = next_file s" "live_file q"
    "file_rows s' = file_rows s @ [q]"
  shows "file_by_id s' (next_file s) = Some q"
proof -
  have "List.find (\<lambda>po. live_file po \<and> fpo_ID po = next_file s) (file_rows s) = None"
    using assms(1) by (auto simp: find_None_iff dest: assms(1))
  with assms(2-4) show ?thesis by (simp add: file_by_id_def find_append)
qed

text \<open>
  A presigned upload works from end to end: when CreatePresignedUpload has issued a key and the
  client has written an object of 1 byte to 50 MiB there, completing the upload under the same name and
  type succeeds, records the size the store reports, and the file can be read by its owner.
\<close>
theorem presigned_session:
  assumes "CreatePresignedUpload e presign day uid c fn mime sz = Inr (url, key)"
    "calm e2" "e_low e2 = e_low e" "\<And>po. po \<in> set (file_rows s) \<Longrightarrow> fpo_ID po < next_file s"
    "0 < length d" "int (length d) \<le> MaxAttachSize"
  shows "let s1 = s\<lparr>bucket := (bucket s)(key \<mapsto> \<lparr>b_Content = d, b_Type = t\<rparr>)\<rparr>;
      (r, s2) = CompletePresignedUpload e2 c key fn mime s1
    in \<exists>f. r = Inr f \<and> f_Size f = int (length d) \<and> f_URL f = key \<and> f_Filename f = base_name fn \<and>
      GetFile e2 c (f_ID f) s2 = Inr f"
proof -
  obtain u where u: "getCurrentUserID c = Inr u" "\<not> bad_name (base_name fn)" "mime \<in> set allowedMimeTypes"
    "lower_ext e2 (base_name fn) \<in> set allowedExtensions"
    using assms(1,3) by (auto simp: CreatePresignedUpload_def lower_ext_def split: sum.splits if_splits)
  let ?s1 = "s\<lparr>bucket := (bucket s)(key \<mapsto> \<lparr>b_Content = d, b_Type = t\<rparr>)\<rparr>"
  let ?f = "\<lparr>f_ID = next_file s, f_UserID = u, f_Filename = base_name fn, f_MimeType = mime,
      f_Size = int (length d), f_URL = key, f_CreatedAt = e_now e2\<rparr>"
  let ?s2 = "?s1\<lparr>file_rows := file_rows s @ [toFilePO (next_file s) (e_now e2) ?f], next_file := next_file s + 1\<rparr>"
  have c: "CompletePresignedUpload e2 c key fn mime ?s1 = (Inr ?f, ?s2)"
    using Complete_calm [OF assms(2) u(1) _ u(2,4,3), of key ?s1 "\<lparr>b_Content = d, b_Type = t\<rparr>"] key_create [OF assms(1)] assms(5,6)
    by (simp add: Let_def)
  have "file_by_id ?s2 (next_file s) = Some (toFilePO (next_file s) (e_now e2) ?f)"
    by (rule file_by_id_next) (auto simp: assms(4) toFilePO_def live_file_def)
  then have "GetFile e2 c (next_file s) ?s2 = Inr ?f"
    using assms(2) u(1) by (simp add: GetFile_def fileRepo_FindByID_def fileToBiz_def toFilePO_def)
  with c show ?thesis by (simp add: Let_def)
qed

text \<open>
  A presigned object can be taken over: completion accepts any existing object under uploads/ and
  does not ask who was issued the key or whether it is registered. So a logged-in user who learns the key
  of another user's presigned file, which the file's URL shows, registers it as his own and then deletes
  it: the object is gone, the record of its owner stays.
\<close>
theorem presigned_takeover:
  assumes "calm e" "po \<in> set (file_rows s)" "live_file po" "has_prefix (fpo_URL po) presignedKeyPrefix"
    "bucket s (fpo_URL po) = Some o1" "0 < length (b_Content o1)" "int (length (b_Content o1)) \<le> MaxAttachSize"
    "\<And>q. q \<in> set (file_rows s) \<Longrightarrow> fpo_ID q < next_file s" "getCurrentUserID c = Inr thief"
    "\<not> bad_name (base_name fn)" "lower_ext e (base_name fn) \<in> set allowedExtensions" "mime \<in> set allowedMimeTypes"
  shows "let s1 = snd (CompletePresignedUpload e c (fpo_URL po) fn mime s);
      (r, s2) = DeleteFile e c (next_file s) s1
    in r = None \<and> po \<in> set (file_rows s2) \<and> bucket s2 (fpo_URL po) = None"
proof -
  let ?f = "\<lparr>f_ID = next_file s, f_UserID = thief, f_Filename = base_name fn, f_MimeType = mime,
      f_Size = int (length (b_Content o1)), f_URL = fpo_URL po, f_CreatedAt = e_now e\<rparr>"
  let ?q = "toFilePO (next_file s) (e_now e) ?f"
  let ?s1 = "s\<lparr>file_rows := file_rows s @ [?q], next_file := next_file s + 1\<rparr>"
  have s1: "snd (CompletePresignedUpload e c (fpo_URL po) fn mime s) = ?s1"
    using Complete_calm [OF assms(1,9,4,10,11,12,5,6,7)] by (simp add: Let_def)
  have q: "file_by_id ?s1 (next_file s) = Some ?q"
    by (rule file_by_id_next) (auto simp: assms(8) toFilePO_def live_file_def)
  have ne: "fpo_ID po \<noteq> next_file s" using assms(8) [OF assms(2)] by simp
  have "po \<in> set (map (\<lambda>p. if live_file p \<and> fpo_ID p = next_file s then p\<lparr>fpo_DeletedAt := Some (e_now e)\<rparr> else p)
      (file_rows s @ [?q]))"
    using assms(2) ne by (auto simp: image_iff intro!: bexI [of _ po])
  with q assms(1,9) s1 show ?thesis
    by (simp add: DeleteFile_def fileRepo_FindByID_def fileRepo_Delete_def fileToBiz_def toFilePO_def oss_DeleteObject_def
        oss_fault_def Let_def)
qed

section \<open>Examples\<close>

definition note_up :: "File res \<times> filest" where
  "note_up = Upload env0 ''k'' (as_user 1 ''reader'') ''dir/../a.TXT'' ''text/plain'' ''hi'' files0"

lemma base_a: "base_name ''dir/../a.TXT'' = ''a.TXT''" "base_name ''a.txt'' = ''a.txt''"
  by code_simp+

lemma ext_a: "lower_ext env0 ''a.TXT'' = ''.txt''" "lower_ext env0 ''a.txt'' = ''.txt''"
  by code_simp+

lemma check_a: "check_upload env0 ''dir/../a.TXT'' ''text/plain'' ''hi'' = None"
  unfolding check_upload_def base_a ext_a
  by (simp add: bad_name_def allowedExtensions_def allowedMimeTypes_def MaxFileSize_def verifyMagicNumber_def magicNumbers_def
      has_prefix_def)

definition note_file :: File where
  "note_file = \<lparr>f_ID = 1, f_UserID = 1, f_Filename = ''a.TXT'', f_MimeType = ''text/plain'', f_Size = 2, f_URL = ''k'', f_CreatedAt = 0\<rparr>"

lemma note_up: "note_up = (Inr note_file, \<lparr>file_rows = [toFilePO 1 0 note_file], next_file = 2,
    bucket = [''k'' \<mapsto> \<lparr>b_Content = ''hi'', b_Type = ''text/plain''\<rparr>]\<rparr>)"
  by (simp add: note_up_def Upload_def check_a fileRepo_Create_def oss_PutObject_def oss_fault_def insert_file_def files0_def
      base_a toFilePO_def note_file_def)

theorem upload_checked_witness:
  "checked_content ''text/plain'' ''hi'' \<and> CHR ''/'' \<notin> set (f_Filename note_file)"
  using upload_checked [OF note_up [unfolded note_up_def]] by simp

lemma note_reach: "file_reach (\<lambda>_. True) files0 (snd note_up)"
  unfolding file_reach_def note_up_def
  by (rule r_into_rtranclp) (auto intro!: exI file_step.Upload simp: new_key_def direct_key_def files0_def)

theorem stored_objects_checked_witness:
  "checked_content (fpo_MimeType (toFilePO 1 0 note_file)) ''hi''"
  using stored_objects_checked [OF note_reach, of "toFilePO 1 0 note_file" "\<lparr>b_Content = ''hi'', b_Type = ''text/plain''\<rparr>"]
  by (simp add: note_up) (simp add: toFilePO_def note_file_def direct_key_def)

theorem uploads_isolated_witness:
  "belongings (snd (DeleteFile env0 (as_user 2 ''admin'') 1 (snd note_up))) 1 = belongings (snd note_up) 1"
proof -
  have "file_reach (\<lambda>c. getCurrentUserID c \<noteq> Inr 1) (snd note_up) (snd (DeleteFile env0 (as_user 2 ''admin'') 1 (snd note_up)))"
    unfolding file_reach_def
    by (rule r_into_rtranclp) (intro exI [of _ "as_user 2 ''admin''"] conjI file_step.Delete, simp)
  from uploads_isolated [OF note_reach this] show ?thesis .
qed

definition two_files :: filest where
  "two_files = \<lparr>file_rows = [toFilePO 1 0 \<lparr>f_ID = 1, f_UserID = 1, f_Filename = ''a.txt'', f_MimeType = ''text/plain'', f_Size = 2,
       f_URL = ''uploads/x_y.txt'', f_CreatedAt = 0\<rparr>], next_file = 2,
     bucket = [''uploads/x_y.txt'' \<mapsto> \<lparr>b_Content = ''hi'', b_Type = ''text/plain''\<rparr>]\<rparr>"

theorem presigned_takeover_witness:
  "let (r, s2) = DeleteFile env0 (as_user 2 ''reader'') 2
       (snd (CompletePresignedUpload env0 (as_user 2 ''reader'') ''uploads/x_y.txt'' ''a.txt'' ''text/plain'' two_files))
   in r = None \<and> live_file (hd (file_rows two_files)) \<and> hd (file_rows two_files) \<in> set (file_rows s2) \<and>
      bucket s2 ''uploads/x_y.txt'' = None"
  using presigned_takeover [of env0 "hd (file_rows two_files)" two_files "\<lparr>b_Content = ''hi'', b_Type = ''text/plain''\<rparr>"
      "as_user 2 ''reader''" 2 "''a.txt''" "''text/plain''"]
  by (simp add: base_a ext_a two_files_def toFilePO_def live_file_def has_prefix_def presignedKeyPrefix_def MaxAttachSize_def
      bad_name_def allowedExtensions_def allowedMimeTypes_def Let_def)

theorem presigned_session_witness:
  "let key = ''uploads/20260101_u.txt''; c = as_user 1 ''reader'';
     s1 = files0\<lparr>bucket := [key \<mapsto> \<lparr>b_Content = ''hi'', b_Type = []\<rparr>]\<rparr>;
     (r, s2) = CompletePresignedUpload env0 c key ''a.txt'' ''text/plain'' s1
   in \<exists>f. r = Inr f \<and> f_Size f = 2 \<and> GetFile env0 c (f_ID f) s2 = Inr f"
proof -
  have "CreatePresignedUpload env0 (\<lambda>k m n. Inr k) (\<lambda>t. ''20260101'') ''u'' (as_user 1 ''reader'') ''a.txt'' ''text/plain'' 5 =
      Inr (''uploads/20260101_u.txt'', ''uploads/20260101_u.txt'')"
    unfolding CreatePresignedUpload_def base_a ext_a
    by (simp add: bad_name_def allowedExtensions_def allowedMimeTypes_def maxPresignedFileSize_def MaxAttachSize_def
        presignedKeyPrefix_def Let_def)
  from presigned_session [OF this, of env0 files0 "''hi''" "[]"] show ?thesis
    by (auto simp: files0_def MaxAttachSize_def Let_def split: prod.splits)
qed

end
