(* ===== verification/Site.thy ===== *)
theory Site
  imports Files
begin

text \<open>
  The site's settings and backgrounds (app/blog/internal/biz/site.go, app/blog/internal/data/site.go,
  app/blog/internal/service/site.go): the configuration kept as one JSON row, its merging updates, the
  background images with the one active among them, the playlist, both caches, and the handlers.
\<close>

section \<open>Entities\<close>

record MusicTrack =
  mt_Title :: string
  mt_Artist :: string
  mt_URL :: string
  mt_CoverURL :: string

type_synonym MusicPlaylist = "MusicTrack list"

text \<open>The texts of the settings, which the message of the API shares.\<close>

record SiteTexts =
  SiteTitle :: string
  SiteSubtitle :: string
  SiteDescription :: string
  SiteLogo :: string
  SiteFavicon :: string
  SeoKeywords :: string
  SeoDescription :: string
  SocialGithub :: string
  SocialTwitter :: string
  SocialEmail :: string
  FooterText :: string
  ICPNumber :: string

record SiteSetting = SiteTexts +
  EnableLikes :: "bool option"
  Playlist :: "MusicPlaylist option"

definition no_setting :: SiteSetting where
  "no_setting = \<lparr>SiteTitle = [], SiteSubtitle = [], SiteDescription = [], SiteLogo = [], SiteFavicon = [], SeoKeywords = [],
     SeoDescription = [], SocialGithub = [], SocialTwitter = [], SocialEmail = [], FooterText = [], ICPNumber = [],
     EnableLikes = None, Playlist = None\<rparr>"

record SiteBackground =
  bg_ID :: nat
  bg_Filename :: string
  bg_URL :: string
  bg_MimeType :: string
  bg_IsActive :: bool
  bg_SortOrder :: int
  bg_CreatedAt :: int

record SiteBackgroundPO =
  bpo_ID :: nat
  bpo_Filename :: string
  bpo_URL :: string
  bpo_IsActive :: bool
  bpo_SortOrder :: int
  bpo_CreatedAt :: int

definition ErrBackgroundNotFound :: err where [errs]: "ErrBackgroundNotFound = NotFound ''BACKGROUND_NOT_FOUND''"
definition ErrInvalidImageFormat :: err where [errs]: "ErrInvalidImageFormat = BadRequest ''INVALID_IMAGE''"
definition ErrInvalidMusicURL :: err where [errs]: "ErrInvalidMusicURL = BadRequest ''INVALID_MUSIC_URL''"

section \<open>The state\<close>

datatype sobj = Setting SiteSetting | Backgrounds "SiteBackground list"

definition as_setting :: "sobj \<Rightarrow> SiteSetting option" where
  "as_setting x = (case x of Setting c \<Rightarrow> Some c | Backgrounds b \<Rightarrow> None)"

definition as_backgrounds :: "sobj \<Rightarrow> SiteBackground list option" where
  "as_backgrounds x = (case x of Setting c \<Rightarrow> None | Backgrounds b \<Rightarrow> Some b)"

text \<open>The row of id 1 in site_settings, the backgrounds, the cache and the bucket.\<close>

record sitest =
  setting_row :: "SiteSetting option"
  bg_rows :: "SiteBackgroundPO list"
  next_bg :: nat
  s_kv :: "sobj rstore"
  s_bucket :: bucket

definition site0 :: sitest where
  "site0 = \<lparr>setting_row = None, bg_rows = [], next_bg = 1, s_kv = Map.empty, s_bucket = Map.empty\<rparr>"

definition cfgKey :: string where "cfgKey = ''site:config''"
definition bgKey :: string where "bgKey = ''site:backgrounds''"

definition skv_del :: "env \<Rightarrow> string \<Rightarrow> sitest \<Rightarrow> sitest" where
  "skv_del e k s = s\<lparr>s_kv := snd (rc_delete e k (s_kv s))\<rparr>"

definition skv_set :: "env \<Rightarrow> string \<Rightarrow> sobj cval \<Rightarrow> int \<Rightarrow> sitest \<Rightarrow> sitest" where
  "skv_set e k v t s = s\<lparr>s_kv := snd (rc_set e k v t (s_kv s))\<rparr>"

section \<open>siteRepo\<close>

definition siteRepo_GetConfig :: "env \<Rightarrow> sitest \<Rightarrow> SiteSetting res \<times> sitest" where
  "siteRepo_GetConfig e s =
    (case rc_get_object e as_setting cfgKey (s_kv s) of
       Inr c \<Rightarrow> (Inr c, s)
     | Inl _ \<Rightarrow>
       if db_fault e [''site.get''] then (Inl (Wrap ''get site config'' db_error), s)
       else case setting_row s of
              None \<Rightarrow> (Inr no_setting, s)
            | Some c \<Rightarrow> (Inr c, skv_set e cfgKey (Json (Setting c)) (10 * 60 * 1000 * 1000 * 1000) s))"

definition siteRepo_SaveConfig :: "env \<Rightarrow> SiteSetting \<Rightarrow> sitest \<Rightarrow> err option \<times> sitest" where
  "siteRepo_SaveConfig e c s =
    (if db_fault e [''site.save''] then (Some db_error, s)
     else (None, skv_del e cfgKey (s\<lparr>setting_row := Some c\<rparr>)))"

definition bgToBiz :: "SiteBackgroundPO \<Rightarrow> SiteBackground" where
  "bgToBiz po = \<lparr>bg_ID = bpo_ID po, bg_Filename = bpo_Filename po, bg_URL = bpo_URL po, bg_MimeType = [],
     bg_IsActive = bpo_IsActive po, bg_SortOrder = bpo_SortOrder po, bg_CreatedAt = bpo_CreatedAt po\<rparr>"

definition siteRepo_CreateBackground ::
  "env \<Rightarrow> string \<Rightarrow> SiteBackground \<Rightarrow> string \<Rightarrow> sitest \<Rightarrow> SiteBackground res \<times> sitest" where
  "siteRepo_CreateBackground e key bg content s =
    (case oss_PutObject e key content (bg_MimeType bg) (s_bucket s) of
       (Some er, b) \<Rightarrow> (Inl (Opaque ''oss''), s\<lparr>s_bucket := b\<rparr>)
     | (None, b) \<Rightarrow>
       let s1 = s\<lparr>s_bucket := b\<rparr>;
           po = \<lparr>bpo_ID = next_bg s, bpo_Filename = bg_Filename bg, bpo_URL = key, bpo_IsActive = False,
                 bpo_SortOrder = bg_SortOrder bg, bpo_CreatedAt = e_now e\<rparr>
       in if db_fault e [''bg.insert''] then (Inl db_error, s1)
          else (Inr (bg\<lparr>bg_ID := bpo_ID po, bg_URL := key, bg_CreatedAt := bpo_CreatedAt po\<rparr>),
                skv_del e bgKey (s1\<lparr>bg_rows := bg_rows s1 @ [po], next_bg := next_bg s1 + 1\<rparr>)))"

text \<open>Any failure to find the row is answered as not found; the row is removed for good.\<close>

definition siteRepo_DeleteBackground :: "env \<Rightarrow> nat \<Rightarrow> sitest \<Rightarrow> err option \<times> sitest" where
  "siteRepo_DeleteBackground e i s =
    (case (if db_fault e [''bg.by_id''] then None else List.find (\<lambda>po. bpo_ID po = i) (bg_rows s)) of
       None \<Rightarrow> (Some ErrBackgroundNotFound, s)
     | Some po \<Rightarrow>
       let s1 = skv_del e bgKey (s\<lparr>s_bucket := snd (oss_DeleteObject e (bpo_URL po) (s_bucket s))\<rparr>)
       in if db_fault e [''bg.delete''] then (Some db_error, s1)
          else (None, s1\<lparr>bg_rows := filter (\<lambda>q. bpo_ID q \<noteq> i) (bg_rows s1)\<rparr>))"

text \<open>Rows of one sort order come in the order of their ids.\<close>

definition db_backgrounds :: "sitest \<Rightarrow> SiteBackground list" where
  "db_backgrounds s = map bgToBiz (sort_key bpo_SortOrder (bg_rows s))"

definition siteRepo_ListBackgrounds :: "env \<Rightarrow> sitest \<Rightarrow> SiteBackground list res \<times> sitest" where
  "siteRepo_ListBackgrounds e s =
    (case rc_get_object e as_backgrounds bgKey (s_kv s) of
       Inr l \<Rightarrow> (Inr l, s)
     | Inl _ \<Rightarrow>
       if db_fault e [''bg.list''] then (Inl db_error, s)
       else (Inr (db_backgrounds s),
             skv_set e bgKey (Json (Backgrounds (db_backgrounds s))) (30 * 60 * 1000 * 1000 * 1000) s))"

text \<open>
  The transaction: its first statement, whose error the code drops, deactivates every active row; the
  second activates the row of the id. No row affected, or an error there or at the commit, rolls back.
\<close>

definition deactivate_all :: "SiteBackgroundPO list \<Rightarrow> SiteBackgroundPO list" where
  "deactivate_all rows = map (\<lambda>po. if bpo_IsActive po then po\<lparr>bpo_IsActive := False\<rparr> else po) rows"

definition activate :: "nat \<Rightarrow> SiteBackgroundPO list \<Rightarrow> SiteBackgroundPO list" where
  "activate i rows = map (\<lambda>po. if bpo_ID po = i then po\<lparr>bpo_IsActive := True\<rparr> else po) rows"

definition siteRepo_SetActiveBackground :: "env \<Rightarrow> nat \<Rightarrow> sitest \<Rightarrow> err option \<times> sitest" where
  "siteRepo_SetActiveBackground e i s =
    (let rows1 = (if db_fault e [''bg.deactivate''] then bg_rows s else deactivate_all (bg_rows s));
         affected = (if db_fault e [''bg.activate''] then 0 else length (filter (\<lambda>po. bpo_ID po = i) rows1))
     in if affected = 0 then (Some ErrBackgroundNotFound, s)
        else if db_fault e [''bg.commit''] then (Some db_error, s)
        else (None, skv_del e bgKey (s\<lparr>bg_rows := activate i rows1\<rparr>)))"

definition siteRepo_IsLikesEnabled :: "env \<Rightarrow> sitest \<Rightarrow> bool res \<times> sitest" where
  "siteRepo_IsLikesEnabled e s =
    (case siteRepo_GetConfig e s of
       (Inl er, s1) \<Rightarrow> (Inl er, s1)
     | (Inr c, s1) \<Rightarrow> (case EnableLikes c of None \<Rightarrow> (Inr True, s1) | Some x \<Rightarrow> (Inr x, s1)))"

section \<open>SiteUseCase\<close>

definition override :: "string \<Rightarrow> string \<Rightarrow> string" where
  "override old new = (if new \<noteq> [] then new else old)"

definition mergeConfig :: "SiteSetting \<Rightarrow> SiteSetting \<Rightarrow> SiteSetting" where
  "mergeConfig old new =
    \<lparr>SiteTitle = override (SiteTitle old) (SiteTitle new),
     SiteSubtitle = override (SiteSubtitle old) (SiteSubtitle new),
     SiteDescription = override (SiteDescription old) (SiteDescription new),
     SiteLogo = override (SiteLogo old) (SiteLogo new),
     SiteFavicon = override (SiteFavicon old) (SiteFavicon new),
     SeoKeywords = override (SeoKeywords old) (SeoKeywords new),
     SeoDescription = override (SeoDescription old) (SeoDescription new),
     SocialGithub = override (SocialGithub old) (SocialGithub new),
     SocialTwitter = override (SocialTwitter old) (SocialTwitter new),
     SocialEmail = override (SocialEmail old) (SocialEmail new),
     FooterText = override (FooterText old) (FooterText new),
     ICPNumber = override (ICPNumber old) (ICPNumber new),
     EnableLikes = (if EnableLikes new \<noteq> None then EnableLikes new else EnableLikes old),
     Playlist = (if Playlist new \<noteq> None then Playlist new else Playlist old)\<rparr>"

definition GetConfig :: "env \<Rightarrow> sitest \<Rightarrow> SiteSetting res \<times> sitest" where
  "GetConfig e s =
    (case siteRepo_GetConfig e s of
       (Inl er, s1) \<Rightarrow> (Inl (Wrap ''get site config'' er), s1) | (Inr c, s1) \<Rightarrow> (Inr c, s1))"

text \<open>A nil configuration or playlist is dereferenced, which panics.\<close>

definition nil_deref :: err where "nil_deref = Opaque ''panic: nil pointer dereference''"

definition UpdateConfig :: "env \<Rightarrow> ctx \<Rightarrow> SiteSetting option \<Rightarrow> sitest \<Rightarrow> SiteSetting res \<times> sitest" where
  "UpdateConfig e c new s =
    (case requireAdmin c of
       Some er \<Rightarrow> (Inl er, s)
     | None \<Rightarrow>
       (case siteRepo_GetConfig e s of
          (Inl er, s1) \<Rightarrow> (Inl er, s1)
        | (Inr old, s1) \<Rightarrow>
          (case new of
             None \<Rightarrow> (Inl nil_deref, s1)
           | Some n \<Rightarrow>
             (case siteRepo_SaveConfig e (mergeConfig old n) s1 of
                (Some er, s2) \<Rightarrow> (Inl (Wrap ''update site config'' er), s2)
              | (None, s2) \<Rightarrow> (Inr (mergeConfig old n), s2)))))"

definition ListBackgrounds :: "env \<Rightarrow> sitest \<Rightarrow> SiteBackground list res \<times> sitest" where
  "ListBackgrounds e s = siteRepo_ListBackgrounds e s"

definition AddBackground :: "env \<Rightarrow> string \<Rightarrow> ctx \<Rightarrow> string \<Rightarrow> string \<Rightarrow> sitest \<Rightarrow> SiteBackground res \<times> sitest" where
  "AddBackground e key c fn content s =
    (case requireAdmin c of
       Some er \<Rightarrow> (Inl er, s)
     | None \<Rightarrow>
       if \<not> isImageContent content then (Inl ErrInvalidImageFormat, s)
       else (case siteRepo_CreateBackground e key \<lparr>bg_ID = 0, bg_Filename = fn, bg_URL = [],
                bg_MimeType = detectImageMimeType content, bg_IsActive = False, bg_SortOrder = 0, bg_CreatedAt = 0\<rparr> content s of
               (Inl er, s1) \<Rightarrow> (Inl (Wrap ''add background'' er), s1) | (Inr bg, s1) \<Rightarrow> (Inr bg, s1)))"

definition DeleteBackground :: "env \<Rightarrow> ctx \<Rightarrow> nat \<Rightarrow> sitest \<Rightarrow> err option \<times> sitest" where
  "DeleteBackground e c i s =
    (case requireAdmin c of Some er \<Rightarrow> (Some er, s) | None \<Rightarrow> siteRepo_DeleteBackground e i s)"

definition SetActiveBackground :: "env \<Rightarrow> ctx \<Rightarrow> nat \<Rightarrow> sitest \<Rightarrow> err option \<times> sitest" where
  "SetActiveBackground e c i s =
    (case requireAdmin c of
       Some er \<Rightarrow> (Some er, s)
     | None \<Rightarrow>
       (case siteRepo_SetActiveBackground e i s of
          (Some er, s1) \<Rightarrow> (Some (Wrap ''set active background'' er), s1) | (None, s1) \<Rightarrow> (None, s1)))"

definition GetPlaylist :: "env \<Rightarrow> sitest \<Rightarrow> MusicPlaylist option res \<times> sitest" where
  "GetPlaylist e s =
    (case siteRepo_GetConfig e s of (Inl er, s1) \<Rightarrow> (Inl er, s1) | (Inr c, s1) \<Rightarrow> (Inr (Playlist c), s1))"

definition http_url :: "string \<Rightarrow> bool" where
  "http_url u \<longleftrightarrow> has_prefix u ''http://'' \<or> has_prefix u ''https://''"

definition UpdatePlaylist :: "env \<Rightarrow> ctx \<Rightarrow> MusicPlaylist option \<Rightarrow> sitest \<Rightarrow> MusicPlaylist option res \<times> sitest" where
  "UpdatePlaylist e c pl s =
    (case requireAdmin c of
       Some er \<Rightarrow> (Inl er, s)
     | None \<Rightarrow>
       (case pl of
          None \<Rightarrow> (Inl nil_deref, s)
        | Some ts \<Rightarrow>
          if \<exists>t\<in>set ts. \<not> http_url (mt_URL t) then (Inl ErrInvalidMusicURL, s)
          else (case siteRepo_GetConfig e s of
                  (Inl er, s1) \<Rightarrow> (Inl er, s1)
                | (Inr cfg, s1) \<Rightarrow>
                  (case siteRepo_SaveConfig e (cfg\<lparr>Playlist := pl\<rparr>) s1 of
                     (Some er, s2) \<Rightarrow> (Inl (Wrap ''update playlist'' er), s2)
                   | (None, s2) \<Rightarrow> (Inr pl, s2)))))"

section \<open>SiteService\<close>

text \<open>The message of the configuration: no playlist, and a plain bool for the likes switch.\<close>

record SiteConfigMsg = SiteTexts +
  sc_EnableLikes :: bool

definition toSiteConfig :: "SiteSetting \<Rightarrow> SiteConfigMsg" where
  "toSiteConfig c =
    \<lparr>SiteTitle = SiteTitle c, SiteSubtitle = SiteSubtitle c, SiteDescription = SiteDescription c,
     SiteLogo = SiteLogo c, SiteFavicon = SiteFavicon c, SeoKeywords = SeoKeywords c,
     SeoDescription = SeoDescription c, SocialGithub = SocialGithub c, SocialTwitter = SocialTwitter c,
     SocialEmail = SocialEmail c, FooterText = FooterText c, ICPNumber = ICPNumber c,
     sc_EnableLikes = (case EnableLikes c of None \<Rightarrow> False | Some x \<Rightarrow> x)\<rparr>"

definition fromSiteConfig :: "SiteConfigMsg \<Rightarrow> SiteSetting" where
  "fromSiteConfig m =
    \<lparr>SiteTitle = SiteTitle m, SiteSubtitle = SiteSubtitle m, SiteDescription = SiteDescription m,
     SiteLogo = SiteLogo m, SiteFavicon = SiteFavicon m, SeoKeywords = SeoKeywords m,
     SeoDescription = SeoDescription m, SocialGithub = SocialGithub m, SocialTwitter = SocialTwitter m,
     SocialEmail = SocialEmail m, FooterText = FooterText m, ICPNumber = ICPNumber m,
     EnableLikes = Some (sc_EnableLikes m), Playlist = None\<rparr>"

definition svc_GetSiteConfig :: "env \<Rightarrow> sitest \<Rightarrow> SiteConfigMsg res \<times> sitest" where
  "svc_GetSiteConfig e s =
    (case GetConfig e s of (Inl er, s1) \<Rightarrow> (Inl er, s1) | (Inr c, s1) \<Rightarrow> (Inr (toSiteConfig c), s1))"

definition svc_UpdateSiteConfig :: "env \<Rightarrow> ctx \<Rightarrow> SiteConfigMsg option \<Rightarrow> sitest \<Rightarrow> SiteConfigMsg res \<times> sitest" where
  "svc_UpdateSiteConfig e c m s =
    (case UpdateConfig e c (map_option fromSiteConfig m) s of
       (Inl er, s1) \<Rightarrow> (Inl er, s1) | (Inr c', s1) \<Rightarrow> (Inr (toSiteConfig c'), s1))"

section \<open>Steps\<close>

inductive site_step :: "(env \<Rightarrow> bool) \<Rightarrow> sitest \<Rightarrow> sitest \<Rightarrow> bool" for ok where
  Get: "ok e \<Longrightarrow> site_step ok s (snd (GetConfig e s))"
| Update: "ok e \<Longrightarrow> site_step ok s (snd (UpdateConfig e c new s))"
| Listing: "ok e \<Longrightarrow> site_step ok s (snd (ListBackgrounds e s))"
| Add: "ok e \<Longrightarrow> site_step ok s (snd (AddBackground e key c fn content s))"
| Delete: "ok e \<Longrightarrow> site_step ok s (snd (DeleteBackground e c i s))"
| SetActive: "ok e \<Longrightarrow> site_step ok s (snd (SetActiveBackground e c i s))"
| GetTracks: "ok e \<Longrightarrow> site_step ok s (snd (GetPlaylist e s))"
| SetTracks: "ok e \<Longrightarrow> site_step ok s (snd (UpdatePlaylist e c pl s))"
| LikesGate: "ok e \<Longrightarrow> site_step ok s (snd (siteRepo_IsLikesEnabled e s))"

definition site_reach :: "(env \<Rightarrow> bool) \<Rightarrow> sitest \<Rightarrow> bool" where
  "site_reach ok s = (site_step ok)\<^sup>*\<^sup>* site0 s"

end
