(* ===== verification/SiteProps.thy ===== *)
theory SiteProps
  imports Site
begin

text \<open>
  Properties of the site settings: while evictions succeed both caches never serve what is not stored, while
  the deactivating statement succeeds at most one background is active, and what the likes switch does under an update that only copies what was read.
\<close>

section \<open>The caches\<close>

definition current :: "sitest \<Rightarrow> SiteSetting" where
  "current s = (case setting_row s of None \<Rightarrow> no_setting | Some c \<Rightarrow> c)"

text \<open>What a cache entry has to be; as long as no setting is stored, no JSON is right.\<close>

definition site_src :: "sitest \<Rightarrow> string \<Rightarrow> sobj cval" where
  "site_src s k =
    (if k = cfgKey then (case setting_row s of None \<Rightarrow> Raw [] | Some c \<Rightarrow> Json (Setting c))
     else Json (Backgrounds (db_backgrounds s)))"

definition site_fresh :: "sitest \<Rightarrow> bool" where
  "site_fresh s \<longleftrightarrow> rc.coherent {cfgKey, bgKey} (site_src s) (s_kv s)"

lemma keys [simp]: "cfgKey \<noteq> bgKey" "bgKey \<noteq> cfgKey"
  by (simp_all add: cfgKey_def bgKey_def)

lemma site_fresh0: "site_fresh site0"
  unfolding site_fresh_def by (rule rc.coherent_empty) (simp_all add: site0_def held_def)

lemma site_src_cong:
  "setting_row s' = setting_row s \<Longrightarrow> bg_rows s' = bg_rows s \<Longrightarrow> site_src s' = site_src s"
  by (simp add: site_src_def db_backgrounds_def fun_eq_iff)

lemma fresh_same:
  "site_fresh s \<Longrightarrow> s_kv s' = s_kv s \<Longrightarrow> setting_row s' = setting_row s \<Longrightarrow> bg_rows s' = bg_rows s \<Longrightarrow> site_fresh s'"
  using site_src_cong [of s' s] by (simp add: site_fresh_def)

lemma fresh_fill:
  assumes "site_fresh s" "site_src s k = v"
  shows "site_fresh (skv_set e k v t s)"
proof -
  have "rc.coherent {cfgKey, bgKey} (site_src s) (snd (rc_set e k v t (s_kv s)))"
    using assms by (auto simp: site_fresh_def rc_set_hold rc.coherent_fill)
  then show ?thesis using site_src_cong [of "skv_set e k v t s" s] by (simp add: site_fresh_def skv_set_def)
qed

lemma fresh_changed:
  assumes "site_fresh s" "s_kv s' = s_kv s" "k \<in> {cfgKey, bgKey}" "\<not> kv_fault e [''del'', k]"
    "\<And>k'. k' \<in> {cfgKey, bgKey} \<Longrightarrow> k' \<noteq> k \<Longrightarrow> site_src s' k' = site_src s k'"
  shows "site_fresh (skv_del e k s')"
proof -
  have "rc.coherent {cfgKey, bgKey} (site_src s') (drop_key k (s_kv s))"
    using assms(5) by (intro rc.coherent_invalidate [OF _ assms(1) [unfolded site_fresh_def]]) auto
  then show ?thesis using assms(2,4) site_src_cong [of "skv_del e k s'" s']
    by (simp add: site_fresh_def skv_del_def rc_delete_drop)
qed

lemma fresh_GetConfig: "site_fresh s \<Longrightarrow> site_fresh (snd (siteRepo_GetConfig e s))"
  by (auto simp: siteRepo_GetConfig_def site_src_def intro!: fresh_fill split: sum.split option.split)

lemma GetConfig_current:
  assumes "siteRepo_GetConfig e s = (Inr c, s')" "site_fresh s"
  shows "c = current s \<and> setting_row s' = setting_row s \<and> bg_rows s' = bg_rows s"
proof (cases "rc_get_object e as_setting cfgKey (s_kv s)")
  case (Inr c')
  then obtain x where x: "held cfgKey (s_kv s) = Some (Json x)" "as_setting x = Some c'" using rc_get_object_held [OF Inr] by auto
  have "Json x = site_src s cfgKey" by (rule rc.coherent_hit [OF assms(2) [unfolded site_fresh_def] _ x(1)]) simp
  with x(2) have "setting_row s = Some c'" by (auto simp: site_src_def as_setting_def split: option.splits)
  with assms(1) Inr show ?thesis by (simp add: siteRepo_GetConfig_def current_def)
next
  case (Inl er)
  with assms(1) show ?thesis
    by (auto simp: siteRepo_GetConfig_def current_def skv_set_def split: if_splits option.splits)
qed

lemma fresh_ListBackgrounds: "site_fresh s \<Longrightarrow> site_fresh (snd (siteRepo_ListBackgrounds e s))"
  by (auto simp: siteRepo_ListBackgrounds_def site_src_def intro!: fresh_fill split: sum.split)

lemma ListBackgrounds_current:
  assumes "siteRepo_ListBackgrounds e s = (Inr l, s')" "site_fresh s"
  shows "l = db_backgrounds s"
proof (cases "rc_get_object e as_backgrounds bgKey (s_kv s)")
  case (Inr l')
  then obtain x where x: "held bgKey (s_kv s) = Some (Json x)" "as_backgrounds x = Some l'" using rc_get_object_held [OF Inr] by auto
  have "Json x = site_src s bgKey" by (rule rc.coherent_hit [OF assms(2) [unfolded site_fresh_def] _ x(1)]) simp
  with x(2) have "l' = db_backgrounds s" by (auto simp: site_src_def as_backgrounds_def)
  with assms(1) Inr show ?thesis by (auto simp: siteRepo_ListBackgrounds_def)
next
  case (Inl er)
  with assms(1) show ?thesis by (auto simp: siteRepo_ListBackgrounds_def split: if_splits)
qed

section \<open>Invariants of the site\<close>

text \<open>From the repository's calls an invariant of the site extends to every operation.\<close>

locale site_invariant =
  fixes I :: "sitest \<Rightarrow> bool" and ok :: "env \<Rightarrow> bool"
  assumes I_get: "ok e \<Longrightarrow> I s \<Longrightarrow> I (snd (siteRepo_GetConfig e s))"
    and I_save: "ok e \<Longrightarrow> I s \<Longrightarrow> I (snd (siteRepo_SaveConfig e c s))"
    and I_list: "ok e \<Longrightarrow> I s \<Longrightarrow> I (snd (siteRepo_ListBackgrounds e s))"
    and I_create: "ok e \<Longrightarrow> I s \<Longrightarrow> bg_IsActive bg = False \<Longrightarrow> I (snd (siteRepo_CreateBackground e key bg content s))"
    and I_delete: "ok e \<Longrightarrow> I s \<Longrightarrow> I (snd (siteRepo_DeleteBackground e i s))"
    and I_active: "ok e \<Longrightarrow> I s \<Longrightarrow> I (snd (siteRepo_SetActiveBackground e i s))"
    and I_start: "I site0"
begin

lemma I_get_then:
  assumes "ok e" "I s" "siteRepo_GetConfig e s = (r, s1)"
  shows "I s1"
  using I_get [OF assms(1,2)] assms(3) by simp

lemma I_save_then:
  assumes "ok e" "I s" "siteRepo_SaveConfig e c s = (r, s1)"
  shows "I s1"
  using I_save [OF assms(1,2), of c] assms(3) by simp

lemma Update_I: "ok e \<Longrightarrow> I s \<Longrightarrow> I (snd (UpdateConfig e c new s))"
  unfolding UpdateConfig_def by (auto split: option.split sum.split prod.split dest: I_get_then I_save_then)

lemma SetTracks_I: "ok e \<Longrightarrow> I s \<Longrightarrow> I (snd (UpdatePlaylist e c pl s))"
  unfolding UpdatePlaylist_def by (auto split: option.split sum.split prod.split dest: I_get_then I_save_then)

lemma readers_I:
  assumes "ok e" "I s"
  shows "I (snd (GetConfig e s))" "I (snd (GetPlaylist e s))" "I (snd (siteRepo_IsLikesEnabled e s))"
    "I (snd (ListBackgrounds e s))"
  using I_get [OF assms] I_list [OF assms]
  by (auto simp: GetConfig_def GetPlaylist_def siteRepo_IsLikesEnabled_def ListBackgrounds_def
      split: prod.split sum.split option.split)

lemma Add_I:
  assumes "ok e" "I s"
  shows "I (snd (AddBackground e key c fn content s))"
proof -
  have "I s1" if "siteRepo_CreateBackground e key bg content s = (r, s1)" "bg_IsActive bg = False" for bg r s1
    using I_create [OF assms that(2)] that(1) by (metis snd_conv)
  then show ?thesis using assms unfolding AddBackground_def by (auto split: option.split sum.split prod.split)
qed

lemma Delete_I: "ok e \<Longrightarrow> I s \<Longrightarrow> I (snd (DeleteBackground e c i s))"
  by (auto simp: DeleteBackground_def I_delete split: option.split)

lemma SetActive_I:
  assumes "ok e" "I s"
  shows "I (snd (SetActiveBackground e c i s))"
  using I_active [OF assms, of i] assms(2) by (auto simp: SetActiveBackground_def split: option.split prod.split)

lemma step_I: "site_step ok s s' \<Longrightarrow> I s \<Longrightarrow> I s'"
  by (induction rule: site_step.induct)
    (simp_all only: readers_I Update_I SetTracks_I Add_I Delete_I SetActive_I)

lemma reach_I: "site_reach ok s \<Longrightarrow> I s"
proof -
  have "I s'" if "(site_step ok)\<^sup>*\<^sup>* s s'" "I s" for s s'
    using that by (induction rule: rtranclp_induct) (auto dest: step_I)
  then show "site_reach ok s \<Longrightarrow> I s" using I_start unfolding site_reach_def by blast
qed

end

definition evicts :: "env \<Rightarrow> bool" where
  "evicts e \<longleftrightarrow> \<not> kv_fault e [''del'', cfgKey] \<and> \<not> kv_fault e [''del'', bgKey]"

lemma src_row: "bg_rows s' = bg_rows s \<Longrightarrow> site_src s' bgKey = site_src s bgKey"
  by (simp add: site_src_def db_backgrounds_def)

lemma src_bg: "setting_row s' = setting_row s \<Longrightarrow> site_src s' cfgKey = site_src s cfgKey"
  by (simp add: site_src_def)

lemma fresh_save: "evicts e \<Longrightarrow> site_fresh s \<Longrightarrow> site_fresh (snd (siteRepo_SaveConfig e c s))"
  by (auto simp: siteRepo_SaveConfig_def evicts_def intro!: fresh_changed [of s] src_row)

lemma fresh_create: "evicts e \<Longrightarrow> site_fresh s \<Longrightarrow> site_fresh (snd (siteRepo_CreateBackground e key bg content s))"
  unfolding siteRepo_CreateBackground_def Let_def
  by (auto simp: evicts_def intro!: fresh_changed [of s] src_bg intro: fresh_same split: prod.split option.split)

lemma fresh_active: "evicts e \<Longrightarrow> site_fresh s \<Longrightarrow> site_fresh (snd (siteRepo_SetActiveBackground e i s))"
  unfolding siteRepo_SetActiveBackground_def Let_def
  by (auto simp: evicts_def intro!: fresh_changed [of s] src_bg)

lemma fresh_rows: "site_fresh s \<Longrightarrow> held bgKey (s_kv s) = None \<Longrightarrow> site_fresh (s\<lparr>bg_rows := rows\<rparr>)"
  unfolding site_fresh_def rc.coherent_def by (auto simp: site_src_def)

lemma fresh_delete:
  assumes "evicts e" "site_fresh s"
  shows "site_fresh (snd (siteRepo_DeleteBackground e i s))"
proof -
  have 1: "site_fresh (skv_del e bgKey (s\<lparr>s_bucket := b\<rparr>))" for b
    using assms by (intro fresh_changed [of s] src_bg) (auto simp: evicts_def intro!: src_bg)
  have "held bgKey (s_kv (skv_del e bgKey (s\<lparr>s_bucket := b\<rparr>))) = None" for b
    using assms(1) by (simp add: skv_del_def rc_delete_def evicts_def held_def)
  note 2 = fresh_rows [OF 1 this]
  from 1 2 assms(2) show ?thesis
    unfolding siteRepo_DeleteBackground_def Let_def by (simp split: option.split)
qed

interpretation caches: site_invariant site_fresh evicts
  by unfold_locales (simp_all add: fresh_GetConfig fresh_save fresh_ListBackgrounds fresh_create fresh_delete fresh_active site_fresh0)

text \<open>
  C21. The site's caches are transparent: in every reachable state (evictions succeeding, anything else
  failing at will) a read of the settings or of the backgrounds that succeeds returns what is stored,
  not what was cached earlier; settings that were never stored read as empty.
\<close>
theorem site_reads_current:
  assumes "site_reach evicts s"
  shows "(fst (GetConfig e s) = Inr c \<longrightarrow> c = current s) \<and> (fst (ListBackgrounds e s) = Inr l \<longrightarrow> l = db_backgrounds s)"
proof (intro conjI impI)
  note fresh = caches.reach_I [OF assms]
  assume "fst (GetConfig e s) = Inr c"
  then obtain s' where "siteRepo_GetConfig e s = (Inr c, s')" by (auto simp: GetConfig_def split: prod.splits sum.splits)
  from GetConfig_current [OF this fresh] show "c = current s" by simp
next
  note fresh = caches.reach_I [OF assms]
  assume "fst (ListBackgrounds e s) = Inr l"
  then have "siteRepo_ListBackgrounds e s = (Inr l, snd (ListBackgrounds e s))" by (simp add: ListBackgrounds_def prod_eq_iff)
  from ListBackgrounds_current [OF this fresh] show "l = db_backgrounds s" .
qed

section \<open>The active background\<close>

definition bgs_ok :: "sitest \<Rightarrow> bool" where
  "bgs_ok s \<longleftrightarrow> distinct (map bpo_ID (bg_rows s)) \<and> (\<forall>po\<in>set (bg_rows s). bpo_ID po < next_bg s) \<and>
    length (filter bpo_IsActive (bg_rows s)) \<le> 1"

definition deactivates :: "env \<Rightarrow> bool" where
  "deactivates e \<longleftrightarrow> \<not> db_fault e [''bg.deactivate'']"

lemma bgs_frame: "bgs_ok s \<Longrightarrow> bg_rows s' = bg_rows s \<Longrightarrow> next_bg s' = next_bg s \<Longrightarrow> bgs_ok s'"
  by (simp add: bgs_ok_def)

lemma skv_frame [simp]:
  "bg_rows (skv_set e k v t s) = bg_rows s" "next_bg (skv_set e k v t s) = next_bg s"
  "bg_rows (skv_del e k s) = bg_rows s" "next_bg (skv_del e k s) = next_bg s"
  "setting_row (skv_set e k v t s) = setting_row s" "setting_row (skv_del e k s) = setting_row s"
  by (simp_all add: skv_set_def skv_del_def)

lemma deactivated:
  "map bpo_ID (deactivate_all rows) = map bpo_ID rows" "po \<in> set (deactivate_all rows) \<Longrightarrow> \<not> bpo_IsActive po"
  by (simp add: deactivate_all_def comp_def if_distrib cong: if_cong) (auto simp: deactivate_all_def split: if_splits)

lemma activated: "map bpo_ID (activate i rows) = map bpo_ID rows"
  by (induction rows) (auto simp: activate_def)

lemma active_one:
  assumes "distinct (map bpo_ID rows)" "i \<in> set (map bpo_ID rows)" "\<And>po. po \<in> set rows \<Longrightarrow> \<not> bpo_IsActive po"
  shows "map bpo_ID (filter bpo_IsActive (activate i rows)) = [i]"
proof -
  have "map bpo_ID (filter bpo_IsActive (activate i rows)) = filter (\<lambda>j. j = i) (map bpo_ID rows)"
    using assms(3) by (induction rows) (auto simp: activate_def)
  moreover have "filter (\<lambda>j. j = i) js = [i]" if "distinct js" "i \<in> set js" for js
    using that by (induction js) (auto simp: filter_empty_conv)
  ultimately show ?thesis using assms(1,2) by simp
qed

lemma SetActive_rows:
  assumes "siteRepo_SetActiveBackground e i s = (None, s')" "deactivates e" "distinct (map bpo_ID (bg_rows s))"
  shows "map bpo_ID (filter bpo_IsActive (bg_rows s')) = [i] \<and> map bpo_ID (bg_rows s') = map bpo_ID (bg_rows s) \<and>
    next_bg s' = next_bg s"
proof -
  have s': "filter (\<lambda>po. bpo_ID po = i) (deactivate_all (bg_rows s)) \<noteq> []"
    "s' = skv_del e bgKey (s\<lparr>bg_rows := activate i (deactivate_all (bg_rows s))\<rparr>)"
    using assms(1,2) by (auto simp: siteRepo_SetActiveBackground_def deactivates_def Let_def split: if_splits)
  have "i \<in> set (map bpo_ID (deactivate_all (bg_rows s)))" using s'(1) by (auto simp: filter_empty_conv)
  with active_one [of "deactivate_all (bg_rows s)"] assms(3) deactivated show ?thesis
    unfolding s'(2) by (simp add: activated)
qed

lemma bgs_create:
  assumes "bgs_ok s" "bg_IsActive bg = False"
  shows "bgs_ok (snd (siteRepo_CreateBackground e key bg content s))"
  using assms
  by (auto simp: siteRepo_CreateBackground_def bgs_ok_def Let_def less_Suc_eq split: prod.split option.split)

lemma bgs_delete: "bgs_ok s \<Longrightarrow> bgs_ok (snd (siteRepo_DeleteBackground e i s))"
proof -
  assume ok: "bgs_ok s"
  have "length (filter bpo_IsActive (filter P rows)) \<le> length (filter bpo_IsActive rows)" for P rows
    by (induction rows) auto
  then have "length (filter bpo_IsActive (filter P (bg_rows s))) \<le> 1" for P
    using ok unfolding bgs_ok_def by (meson le_trans)
  then show ?thesis
    using ok by (auto simp: siteRepo_DeleteBackground_def bgs_ok_def Let_def distinct_map_filter split: option.split)
qed

lemma bgs_active:
  assumes "deactivates e" "bgs_ok s"
  shows "bgs_ok (snd (siteRepo_SetActiveBackground e i s))"
proof (cases "siteRepo_SetActiveBackground e i s")
  case (Pair r s')
  show ?thesis
  proof (cases r)
    case None
    have "distinct (map bpo_ID (bg_rows s))" using assms(2) by (simp add: bgs_ok_def)
    note rows = SetActive_rows [OF Pair [unfolded None] assms(1) this]
    have "length (filter bpo_IsActive (bg_rows s')) = 1"
      using arg_cong [OF conjunct1 [OF rows], of length] by (simp only: length_map) simp
    moreover have "\<forall>po\<in>set (bg_rows s'). bpo_ID po < next_bg s'"
    proof
      fix po assume "po \<in> set (bg_rows s')"
      then have "bpo_ID po \<in> set (map bpo_ID (bg_rows s))" using rows by (metis image_eqI list.set_map)
      then show "bpo_ID po < next_bg s'" using assms(2) rows by (auto simp: bgs_ok_def)
    qed
    ultimately show ?thesis using rows assms(2) Pair by (simp add: bgs_ok_def)
  next
    case (Some er)
    with Pair assms(2) show ?thesis
      by (auto simp: siteRepo_SetActiveBackground_def Let_def split: if_splits)
  qed
qed

lemma bgs_others:
  "bgs_ok s \<Longrightarrow> bgs_ok (snd (siteRepo_GetConfig e s))" "bgs_ok s \<Longrightarrow> bgs_ok (snd (siteRepo_SaveConfig e c s))"
  "bgs_ok s \<Longrightarrow> bgs_ok (snd (siteRepo_ListBackgrounds e s))"
  by (auto simp: siteRepo_GetConfig_def siteRepo_SaveConfig_def siteRepo_ListBackgrounds_def bgs_ok_def
      split: sum.split option.split)

interpretation backgrounds: site_invariant bgs_ok deactivates
  by unfold_locales (simp_all add: bgs_others bgs_create bgs_delete bgs_active, simp add: bgs_ok_def site0_def)

text \<open>
  C22. One background at most is active: in every state that is reachable without a failure of the
  statement that deactivates (anything else failing at will) no two backgrounds are active, and when from
  there SetActiveBackground succeeds, again without that failure, exactly the background it was asked for is
  active, and the caller was an administrator. The error of the deactivating statement is dropped by the
  code, hence the condition.
\<close>
theorem one_active_background:
  assumes "site_reach deactivates s" "deactivates e"
  shows "length (filter bpo_IsActive (bg_rows s)) \<le> 1 \<and>
    (SetActiveBackground e c i s = (None, s') \<longrightarrow>
      map bpo_ID (filter bpo_IsActive (bg_rows s')) = [i] \<and> getCurrentRole c = adminRole)"
proof (intro conjI [rotated] impI)
  have ok: "bgs_ok s" by (rule backgrounds.reach_I [OF assms(1)])
  then show "length (filter bpo_IsActive (bg_rows s)) \<le> 1" by (simp add: bgs_ok_def)
  assume "SetActiveBackground e c i s = (None, s')"
  then have r: "siteRepo_SetActiveBackground e i s = (None, s')" "requireAdmin c = None"
    by (auto simp: SetActiveBackground_def split: option.splits prod.splits)
  with SetActive_rows [OF r(1) assms(2)] ok
  show "map bpo_ID (filter bpo_IsActive (bg_rows s')) = [i]" "getCurrentRole c = adminRole"
    by (simp_all add: bgs_ok_def requireAdmin_None)
qed

section \<open>The likes switch\<close>

text \<open>
  Reading the settings and writing back what was read switches likes off: while the switch was never
  set, likes are on, but the reply of GetSiteConfig shows them as off, and UpdateSiteConfig takes the
  plain bool of its request as a decision. So an administrator who changes the title, or nothing, turns
  likes off for the whole site.
\<close>
theorem likes_switched_off:
  assumes "calm e" "requireAdmin c = None" "site_fresh s" "EnableLikes (current s) = None"
  shows "let (r, s1) = svc_GetSiteConfig e s in
    \<exists>m. r = Inr m \<and> fst (siteRepo_IsLikesEnabled e s) = Inr True \<and>
      fst (siteRepo_IsLikesEnabled e (snd (svc_UpdateSiteConfig e c (Some (m\<lparr>SiteTitle := t\<rparr>)) s1))) = Inr False"
proof -
  have get: "\<exists>s'. siteRepo_GetConfig e z = (Inr (current z), s') \<and> site_fresh s' \<and> setting_row s' = setting_row z" if "site_fresh z" for z
  proof -
    have "\<exists>d s'. siteRepo_GetConfig e z = (Inr d, s')"
      by (cases "rc_get_object e as_setting cfgKey (s_kv z)") (simp_all add: siteRepo_GetConfig_def assms(1) split: option.split)
    then obtain d s' where d: "siteRepo_GetConfig e z = (Inr d, s')" by blast
    with GetConfig_current [OF d that] fresh_GetConfig [OF that, of e] show ?thesis by auto
  qed
  obtain s1 where s1: "siteRepo_GetConfig e s = (Inr (current s), s1)" "site_fresh s1" "setting_row s1 = setting_row s"
    using get [OF assms(3)] by blast
  let ?m = "toSiteConfig (current s)"
  let ?n = "mergeConfig (current s) (fromSiteConfig (?m\<lparr>SiteTitle := t\<rparr>))"
  obtain s2 where s2: "siteRepo_GetConfig e s1 = (Inr (current s), s2)" "site_fresh s2"
    using get [OF s1(2)] s1(3) by (auto simp: current_def)
  have save: "siteRepo_SaveConfig e ?n s2 = (None, skv_del e cfgKey (s2\<lparr>setting_row := Some ?n\<rparr>))"
    using assms(1) by (simp add: siteRepo_SaveConfig_def)
  let ?s3 = "skv_del e cfgKey (s2\<lparr>setting_row := Some ?n\<rparr>)"
  have "evicts e" using assms(1) by (simp add: evicts_def)
  from fresh_save [OF this s2(2), of ?n] have "site_fresh ?s3" by (simp only: save snd_conv)
  from get [OF this] obtain s4 where s4: "siteRepo_GetConfig e ?s3 = (Inr ?n, s4)" by (auto simp: current_def)
  have n: "EnableLikes ?n = Some False" by (simp add: mergeConfig_def fromSiteConfig_def toSiteConfig_def assms(4))
  have "svc_GetSiteConfig e s = (Inr ?m, s1)" by (simp add: svc_GetSiteConfig_def GetConfig_def s1(1))
  moreover have "snd (svc_UpdateSiteConfig e c (Some (?m\<lparr>SiteTitle := t\<rparr>)) s1) = ?s3"
    by (simp add: svc_UpdateSiteConfig_def UpdateConfig_def assms(2) s2(1) save)
  moreover have "fst (siteRepo_IsLikesEnabled e ?s3) = Inr False" by (simp add: siteRepo_IsLikesEnabled_def s4 n)
  moreover have "fst (siteRepo_IsLikesEnabled e s) = Inr True" by (simp add: siteRepo_IsLikesEnabled_def s1(1) assms(4))
  ultimately show ?thesis by (simp add: Let_def)
qed

section \<open>Examples\<close>

lemma admin_ok: "requireAdmin (as_user 1 ''admin'') = None"
  by (simp add: requireAdmin_None getCurrentRole_def adminRole_def)

theorem likes_switched_off_witness:
  "let (r, s1) = svc_GetSiteConfig env0 site0 in
    \<exists>m. r = Inr m \<and> fst (siteRepo_IsLikesEnabled env0 site0) = Inr True \<and>
      fst (siteRepo_IsLikesEnabled env0 (snd (svc_UpdateSiteConfig env0 (as_user 1 ''admin'') (Some (m\<lparr>SiteTitle := ''Blog''\<rparr>)) s1))) = Inr False"
  by (rule likes_switched_off [OF _ admin_ok site_fresh0]) (simp_all add: current_def site0_def no_setting_def)

definition png :: string where "png = map char_of [0x89, 0x50, 0x4E, 0x47 :: nat]"

lemma png_image: "isImageContent png"
  by code_simp

definition add_bg :: "string \<Rightarrow> sitest \<Rightarrow> sitest" where
  "add_bg key s = snd (AddBackground env0 key (as_user 1 ''admin'') ''a.png'' png s)"

lemma add_bg: "bg_rows (add_bg key s) = bg_rows s @ [\<lparr>bpo_ID = next_bg s, bpo_Filename = ''a.png'', bpo_URL = key,
    bpo_IsActive = False, bpo_SortOrder = 0, bpo_CreatedAt = 0\<rparr>]" "next_bg (add_bg key s) = next_bg s + 1"
  using admin_ok
  by (simp_all add: add_bg_def AddBackground_def png_image siteRepo_CreateBackground_def oss_PutObject_def oss_fault_def Let_def)

text \<open>A site with a title and a background, both read once, while the database is down: the caches answer.\<close>

definition titled :: sitest where
  "titled = snd (UpdateConfig env0 (as_user 1 ''admin'') (Some (no_setting\<lparr>SiteTitle := ''Blog''\<rparr>)) site0)"

definition read_once :: sitest where
  "read_once = snd (ListBackgrounds env0 (snd (GetConfig env0 (add_bg ''k1'' titled))))"

definition db_down :: env where "db_down = env0\<lparr>db_fault := (\<lambda>_. True)\<rparr>"

lemma titled_state: "setting_row titled = Some (no_setting\<lparr>SiteTitle := ''Blog''\<rparr>)" "bg_rows titled = []"
  using admin_ok by (simp_all add: titled_def UpdateConfig_def siteRepo_GetConfig_def siteRepo_SaveConfig_def site0_def
      rc_get_object_def rc_get_def live_def skv_del_def mergeConfig_def override_def no_setting_def)

lemma add_bg_setting: "setting_row (add_bg k s) = setting_row s"
  by (auto simp: add_bg_def AddBackground_def siteRepo_CreateBackground_def Let_def split: sum.split option.split prod.split)

lemma read_once_state: "setting_row read_once = setting_row titled" "bg_rows read_once = bg_rows (add_bg ''k1'' titled)"
  by (auto simp: read_once_def ListBackgrounds_def siteRepo_ListBackgrounds_def GetConfig_def siteRepo_GetConfig_def add_bg_def
      AddBackground_def siteRepo_CreateBackground_def Let_def split: sum.split option.split prod.split)

lemma read_once_reach: "site_reach evicts read_once"
proof -
  have e: "evicts env0" by (simp add: evicts_def)
  have "site_step evicts site0 titled" unfolding titled_def by (rule site_step.Update [where ok = evicts, OF e])
  moreover have "site_step evicts titled (add_bg ''k1'' titled)" unfolding add_bg_def by (rule site_step.Add [where ok = evicts, OF e])
  ultimately show ?thesis unfolding site_reach_def read_once_def
    by (meson rtranclp.rtrancl_into_rtrancl rtranclp.rtrancl_refl site_step.Get [where ok = evicts, OF e] site_step.Listing [where ok = evicts, OF e])
qed

lemma config_cached:
  "setting_row s = Some c \<Longrightarrow> \<exists>c'. rc_get_object env0 as_setting cfgKey (s_kv (snd (GetConfig env0 s))) = Inr c'"
  by (cases "rc_get_object env0 as_setting cfgKey (s_kv s)")
    (simp_all add: GetConfig_def siteRepo_GetConfig_def skv_set_def rc_set_def rc_get_object_def [of env0 as_setting cfgKey "_(_ \<mapsto> _)"]
      rc_get_def as_setting_def)

lemma backgrounds_cached:
  "\<exists>l. rc_get_object env0 as_backgrounds bgKey (s_kv (snd (ListBackgrounds env0 s))) = Inr l"
  by (cases "rc_get_object env0 as_backgrounds bgKey (s_kv s)")
    (simp_all add: ListBackgrounds_def siteRepo_ListBackgrounds_def skv_set_def rc_set_def
      rc_get_object_def [of env0 as_backgrounds bgKey "_(_ \<mapsto> _)"] rc_get_def as_backgrounds_def)

lemma listing_config:
  "rc_get_object env0 as_setting cfgKey (s_kv (snd (ListBackgrounds env0 s))) = rc_get_object env0 as_setting cfgKey (s_kv s)"
  by (auto simp: ListBackgrounds_def siteRepo_ListBackgrounds_def skv_set_def rc_set_def rc_get_object_def rc_get_def
      split: sum.split)

lemma db_down_reads: "rc_get_object db_down as k m = rc_get_object env0 as k m"
proof -
  have "live db_down m k = live env0 m k"
    by (cases "m k") (auto simp: live_def db_down_def split: option.split)
  then show ?thesis by (simp add: rc_get_object_def rc_get_def db_down_def)
qed

lemma read_once_hits: "\<exists>c. fst (GetConfig db_down read_once) = Inr c" "\<exists>l. fst (ListBackgrounds db_down read_once) = Inr l"
proof -
  have "setting_row (add_bg ''k1'' titled) = Some (no_setting\<lparr>SiteTitle := ''Blog''\<rparr>)"
    using read_once_state(1) titled_state(1) by (simp add: add_bg_setting)
  from config_cached [OF this] show "\<exists>c. fst (GetConfig db_down read_once) = Inr c"
    by (auto simp: read_once_def GetConfig_def [of db_down] siteRepo_GetConfig_def [of db_down] db_down_reads listing_config)
  from backgrounds_cached [of "snd (GetConfig env0 (add_bg ''k1'' titled))"]
  show "\<exists>l. fst (ListBackgrounds db_down read_once) = Inr l"
    by (auto simp: read_once_def ListBackgrounds_def [of db_down] siteRepo_ListBackgrounds_def [of db_down] db_down_reads)
qed

theorem site_reads_current_witness:
  "\<exists>c l. fst (GetConfig db_down read_once) = Inr c \<and> SiteTitle c = ''Blog'' \<and>
    fst (ListBackgrounds db_down read_once) = Inr l \<and> map bg_Filename l = [''a.png'']"
proof -
  obtain c where c: "fst (GetConfig db_down read_once) = Inr c" using read_once_hits(1) by blast
  obtain l where l: "fst (ListBackgrounds db_down read_once) = Inr l" using read_once_hits(2) by blast
  from site_reads_current [OF read_once_reach, of db_down c l] c l
  have "c = current read_once" "l = db_backgrounds read_once" by simp_all
  with c l show ?thesis
    by (simp add: current_def db_backgrounds_def read_once_state titled_state add_bg bgToBiz_def)
qed

definition two_bgs :: sitest where
  "two_bgs = snd (SetActiveBackground env0 (as_user 1 ''admin'') 1 (add_bg ''k2'' (add_bg ''k1'' site0)))"

lemma two_bgs_rows: "map bpo_ID (bg_rows two_bgs) = [1, 2]"
  using admin_ok
  by (simp add: two_bgs_def Let_def SetActiveBackground_def siteRepo_SetActiveBackground_def add_bg
      site0_def deactivate_all_def activate_def)

lemma two_bgs_reach: "site_reach deactivates two_bgs"
proof -
  have d: "deactivates env0" by (simp add: deactivates_def)
  have "(site_step deactivates)\<^sup>*\<^sup>* site0 (add_bg ''k1'' site0)"
    unfolding add_bg_def by (rule r_into_rtranclp [of "site_step deactivates", OF site_step.Add [where ok = deactivates, OF d]])
  then have "(site_step deactivates)\<^sup>*\<^sup>* site0 (add_bg ''k2'' (add_bg ''k1'' site0))"
    unfolding add_bg_def [of "''k2''"] by (rule rtranclp.rtrancl_into_rtrancl [of "site_step deactivates", OF _ site_step.Add [where ok = deactivates, OF d]])
  then show ?thesis
    unfolding site_reach_def two_bgs_def
    by (rule rtranclp.rtrancl_into_rtrancl [of "site_step deactivates", OF _ site_step.SetActive [where ok = deactivates, OF d]])
qed

theorem one_active_background_witness:
  "map bpo_ID (filter bpo_IsActive (bg_rows (snd (SetActiveBackground env0 (as_user 1 ''admin'') 2 two_bgs)))) = [2]"
proof -
  have "filter (\<lambda>po. bpo_ID po = 2) (deactivate_all (bg_rows two_bgs)) \<noteq> []"
    using two_bgs_rows deactivated(1) [of "bg_rows two_bgs"]
    by (metis (mono_tags) filter_empty_conv image_iff list.set_intros(1,2) list.set_map)
  then have "SetActiveBackground env0 (as_user 1 ''admin'') 2 two_bgs =
      (None, snd (SetActiveBackground env0 (as_user 1 ''admin'') 2 two_bgs))"
    using admin_ok by (simp add: SetActiveBackground_def siteRepo_SetActiveBackground_def)
  moreover have "deactivates env0" by (simp add: deactivates_def)
  ultimately show ?thesis using one_active_background [OF two_bgs_reach] by blast
qed

end
