(* ===== verification/ClientIp.thy ===== *)
theory ClientIp
  imports Metadata
begin

text \<open>
  The client's address (pkg/security/ip.go): Go's net.ParseIP on IPv4 and IPv6, the test for private and
  reserved addresses, and the search through the proxy headers.
\<close>

section \<open>net.ParseIP\<close>

text \<open>An address is its 16 bytes; IPv4 is mapped to \<^verbatim>\<open>::ffff:a.b.c.d\<close>.\<close>

type_synonym ip = "nat list"

definition v4_field :: "string \<Rightarrow> nat option" where
  "v4_field w =
    (if w = [] \<or> \<not> list_all is_digit w \<or> (1 < length w \<and> hd w = CHR ''0'') \<or> 255 < dec_value w then None
     else Some (dec_value w))"

definition parse_v4 :: "string \<Rightarrow> nat list option" where
  "parse_v4 s = (let ws = split_on (CHR ''.'') s in if length ws \<noteq> 4 then None else those (map v4_field ws))"

definition hex_digit :: "char \<Rightarrow> nat option" where
  "hex_digit c =
    (let b = byte c
     in if 48 \<le> b \<and> b \<le> 57 then Some (b - 48)
        else if 97 \<le> b \<and> b \<le> 102 then Some (b - 87)
        else if 65 \<le> b \<and> b \<le> 70 then Some (b - 55) else None)"

definition hex_value :: "string \<Rightarrow> nat" where
  "hex_value w = fold (\<lambda>c a. a * 16 + (case hex_digit c of None \<Rightarrow> 0 | Some d \<Rightarrow> d)) w 0"

text \<open>
  The loop over the groups: \<^verbatim>\<open>n\<close> groups may still come, \<^verbatim>\<open>out\<close> are the bytes so far, \<^verbatim>\<open>ell\<close> the position
  of the ellipsis. The answer is the bytes, the ellipsis and what is left of the string.
\<close>

fun v6_groups :: "nat \<Rightarrow> string \<Rightarrow> nat list \<Rightarrow> nat option \<Rightarrow> (nat list \<times> nat option \<times> string) option" where
  "v6_groups 0 s out ell = Some (out, ell, s)"
| "v6_groups (Suc n) s out ell =
    (let w = takeWhile (\<lambda>c. hex_digit c \<noteq> None) s; rest = drop (length w) s
     in if w = [] \<or> 4 < length w then None
        else case rest of
               [] \<Rightarrow> Some (out @ [hex_value w div 256, hex_value w mod 256], ell, [])
             | c # rest1 \<Rightarrow>
               if c = CHR ''.'' then
                 (if (ell = None \<and> length out \<noteq> 12) \<or> 12 < length out then None
                  else case parse_v4 s of None \<Rightarrow> None | Some fs \<Rightarrow> Some (out @ fs, ell, []))
               else if c \<noteq> CHR '':'' \<or> rest1 = [] then None
               else let out1 = out @ [hex_value w div 256, hex_value w mod 256]
                    in if hd rest1 = CHR '':'' then
                         (if ell \<noteq> None then None
                          else if tl rest1 = [] then Some (out1, Some (length out1), [])
                          else v6_groups n (tl rest1) out1 (Some (length out1)))
                       else v6_groups n rest1 out1 ell)"

definition parse_v6 :: "string \<Rightarrow> ip option" where
  "parse_v6 s =
    (let lead = has_prefix s ''::''; body = (if lead then drop 2 s else s)
     in if lead \<and> body = [] then Some (replicate 16 0)
        else case v6_groups 8 body [] (if lead then Some 0 else None) of
               None \<Rightarrow> None
             | Some (out, ell, left) \<Rightarrow>
               if left \<noteq> [] then None
               else if length out < 16 then
                 (case ell of None \<Rightarrow> None | Some p \<Rightarrow> Some (take p out @ replicate (16 - length out) 0 @ drop p out))
               else if ell \<noteq> None then None else Some out)"

definition v4_mapped :: "nat list \<Rightarrow> ip" where
  "v4_mapped fs = replicate 10 0 @ [255, 255] @ fs"

definition ParseIP :: "string \<Rightarrow> ip option" where
  "ParseIP s =
    (if CHR ''%'' \<in> set s then None
     else case dropWhile (\<lambda>c. c \<noteq> CHR ''.'' \<and> c \<noteq> CHR '':'') s of
            [] \<Rightarrow> None
          | c # _ \<Rightarrow> if c = CHR ''.'' then map_option v4_mapped (parse_v4 s) else parse_v6 s)"

definition To4 :: "ip \<Rightarrow> nat list option" where
  "To4 p = (if take 12 p = replicate 10 0 @ [255, 255] then Some (drop 12 p) else None)"

definition ip_IsPrivate :: "ip \<Rightarrow> bool" where
  "ip_IsPrivate p \<longleftrightarrow>
    (case To4 p of
       Some q \<Rightarrow> q ! 0 = 10 \<or> (q ! 0 = 172 \<and> q ! 1 div 16 = 1) \<or> (q ! 0 = 192 \<and> q ! 1 = 168)
     | None \<Rightarrow> p ! 0 div 2 = 126)"

definition ip_IsLoopback :: "ip \<Rightarrow> bool" where
  "ip_IsLoopback p \<longleftrightarrow> (case To4 p of Some q \<Rightarrow> q ! 0 = 127 | None \<Rightarrow> p = replicate 15 0 @ [1])"

definition ip_IsLinkLocalUnicast :: "ip \<Rightarrow> bool" where
  "ip_IsLinkLocalUnicast p \<longleftrightarrow>
    (case To4 p of Some q \<Rightarrow> q ! 0 = 169 \<and> q ! 1 = 254 | None \<Rightarrow> p ! 0 = 254 \<and> p ! 1 div 64 = 2)"

definition ip_IsLinkLocalMulticast :: "ip \<Rightarrow> bool" where
  "ip_IsLinkLocalMulticast p \<longleftrightarrow>
    (case To4 p of Some q \<Rightarrow> q ! 0 = 224 \<and> q ! 1 = 0 \<and> q ! 2 = 0 | None \<Rightarrow> p ! 0 = 255 \<and> p ! 1 mod 16 = 2)"

section \<open>pkg/security\<close>

definition IsValidIp :: "string \<Rightarrow> bool" where
  "IsValidIp s \<longleftrightarrow> ParseIP s \<noteq> None"

definition IsPrivateIp :: "string \<Rightarrow> bool" where
  "IsPrivateIp s \<longleftrightarrow>
    (case ParseIP s of
       None \<Rightarrow> False
     | Some p \<Rightarrow>
       ip_IsPrivate p \<or> ip_IsLoopback p \<or> ip_IsLinkLocalUnicast p \<or> ip_IsLinkLocalMulticast p \<or>
       (case To4 p of
          None \<Rightarrow> False
        | Some q \<Rightarrow> q ! 0 = 0 \<or> (q ! 0 = 169 \<and> q ! 1 = 254) \<or> (224 \<le> q ! 0 \<and> q ! 0 \<le> 239) \<or> 240 \<le> q ! 0))"

definition ip_headers :: "string list" where
  "ip_headers = [''EO-Client-Ip'', ''Cf-Connecting-Ip'', ''True-Client-Ip'', ''X-Real-Ip'', ''X-Forwarded-For'', ''X-Forwarded'',
     ''Forwarded-For'', ''Forwarded'', ''Client-Ip'']"

text \<open>The address in a header: of a list the first, trimmed.\<close>

definition header_ip :: "string \<Rightarrow> string" where
  "header_ip v = (if CHR '','' \<in> set v then trim_space (hd (split_on (CHR '','') v)) else v)"

text \<open>\<^verbatim>\<open>hdr\<close> are the request headers of the transport (absent ones read as empty), None without one.\<close>

definition GetRealIp :: "(string \<Rightarrow> string) option \<Rightarrow> ctx \<Rightarrow> string" where
  "GetRealIp hdr c =
    (if RealClientIp (GetRequestMetaData c) \<noteq> [] then RealClientIp (GetRequestMetaData c)
     else case hdr of
            None \<Rightarrow> ''0.0.0.0''
          | Some h \<Rightarrow>
            (case List.find (\<lambda>n. h n \<noteq> [] \<and> IsValidIp (header_ip (h n)) \<and> \<not> IsPrivateIp (header_ip (h n))) ip_headers of
               Some n \<Rightarrow> header_ip (h n)
             | None \<Rightarrow>
               if h ''X-Forwarded-For'' \<noteq> [] \<and> IsValidIp (header_ip (h ''X-Forwarded-For''))
               then header_ip (h ''X-Forwarded-For'') else ''0.0.0.0''))"

section \<open>Lemmas\<close>

definition dotted :: "nat list \<Rightarrow> string" where
  "dotted fs = join_with (CHR ''.'') (map show_nat fs)"

lemma show_nat_no_dot: "CHR ''.'' \<notin> set (show_nat n)" "CHR ''%'' \<notin> set (show_nat n)" "CHR '':'' \<notin> set (show_nat n)"
  using show_nat_digits [of n] by (auto simp: list_all_iff is_digit_def byte_def)

lemma show_nat_hd: "0 < n \<Longrightarrow> hd (show_nat n) \<noteq> CHR ''0''"
proof (induction n rule: show_nat.induct)
  case (1 n)
  show ?case
  proof (cases "n < 10")
    case True
    have "byte (digit n) \<noteq> 48" using 1(2) True by simp
    then have "digit n \<noteq> CHR ''0''" by (auto simp: byte_def)
    with True show ?thesis by (simp add: show_nat.simps)
  next
    case False
    then have "hd (show_nat (n div 10)) \<noteq> CHR ''0''" using 1(1) by simp
    with False show ?thesis by (subst show_nat.simps) (simp add: hd_append)
  qed
qed

lemma v4_field_show: "n < 256 \<Longrightarrow> v4_field (show_nat n) = Some n"
proof -
  assume n: "n < 256"
  have "\<not> (1 < length (show_nat n) \<and> hd (show_nat n) = CHR ''0'')"
    using show_nat_hd [of n] by (cases "n = 0") (simp_all add: show_nat.simps)
  with n show ?thesis using show_nat_digits [of n] by (simp add: v4_field_def)
qed

lemma split_on_app: "d \<notin> set w \<Longrightarrow> split_on d (w @ d # s) = w # split_on d s"
  by (induction w) auto

lemma split_on_single: "d \<notin> set w \<Longrightarrow> split_on d w = [w]"
  by (induction w) auto

lemma split_join:
  assumes "ws \<noteq> []" "\<And>w. w \<in> set ws \<Longrightarrow> d \<notin> set w"
  shows "split_on d (join_with d ws) = ws"
  using assms
proof (induction ws)
  case (Cons w vs)
  then show ?case
    by (cases vs) (auto simp: join_with_def split_on_single split_on_app)
qed simp

lemma parse_v4_dotted:
  assumes "length fs = 4" "\<forall>f\<in>set fs. f < 256"
  shows "parse_v4 (dotted fs) = Some fs"
proof -
  have "split_on (CHR ''.'') (dotted fs) = map show_nat fs"
    unfolding dotted_def using assms(1) by (intro split_join) (auto simp: show_nat_no_dot)
  moreover have "those (map (v4_field \<circ> show_nat) gs) = Some gs" if "\<forall>f\<in>set gs. f < 256" for gs
    using that by (induction gs) (simp_all add: v4_field_show)
  ultimately show ?thesis using assms by (simp add: parse_v4_def)
qed

lemma ParseIP_dotted:
  assumes "a < 256" "b < 256" "c < 256" "d < 256"
  shows "ParseIP (dotted [a, b, c, d]) = Some (v4_mapped [a, b, c, d])"
proof -
  have "CHR ''%'' \<notin> set (dotted [a, b, c, d])"
    by (simp add: dotted_def join_with_def show_nat_no_dot)
  moreover have "dropWhile (\<lambda>c. c \<noteq> CHR ''.'' \<and> c \<noteq> CHR '':'') (dotted [a, b, c, d]) =
      CHR ''.'' # show_nat b @ CHR ''.'' # show_nat c @ CHR ''.'' # show_nat d"
  proof -
    have "dropWhile (\<lambda>c. c \<noteq> CHR ''.'' \<and> c \<noteq> CHR '':'') (show_nat a @ s) =
      dropWhile (\<lambda>c. c \<noteq> CHR ''.'' \<and> c \<noteq> CHR '':'') s" for s
      by (rule dropWhile_append2) (use show_nat_no_dot [of a] in auto)
    then show ?thesis by (simp add: dotted_def join_with_def)
  qed
  ultimately show ?thesis
    using parse_v4_dotted [of "[a, b, c, d]"] assms by (simp add: ParseIP_def)
qed

lemma To4_mapped: "length q = 4 \<Longrightarrow> To4 (v4_mapped q) = Some q"
  by (simp add: To4_def v4_mapped_def)

text \<open>
  For every IPv4 address the test is exact: a dotted address is valid, and it counts as private
  precisely in 0/8, 10/8, 127/8, 169.254/16, 172.16/12, 192.168/16 and from 224 on; in particular no
  public address is taken for private.
\<close>
theorem private_ipv4:
  assumes "a < 256" "b < 256" "c < 256" "d < 256"
  shows "IsValidIp (dotted [a, b, c, d]) \<and>
    (IsPrivateIp (dotted [a, b, c, d]) \<longleftrightarrow> a = 0 \<or> a = 10 \<or> a = 127 \<or> (a = 169 \<and> b = 254) \<or>
       (a = 172 \<and> 16 \<le> b \<and> b \<le> 31) \<or> (a = 192 \<and> b = 168) \<or> 224 \<le> a)"
proof -
  have b: "b div 16 = Suc 0 \<longleftrightarrow> 16 \<le> b \<and> b \<le> 31" by linarith
  have a: "(224 \<le> a \<and> a \<le> 239) \<or> 240 \<le> a \<longleftrightarrow> 224 \<le> a" "a = 224 \<Longrightarrow> 224 \<le> a" by linarith+
  have t: "To4 (v4_mapped [a, b, c, d]) = Some [a, b, c, d]" by (simp add: To4_mapped)
  have "IsPrivateIp (dotted [a, b, c, d]) \<longleftrightarrow>
     (a = 10 \<or> (a = 172 \<and> b div 16 = Suc 0) \<or> (a = 192 \<and> b = 168)) \<or> a = 127 \<or> (a = 169 \<and> b = 254) \<or>
     (a = 224 \<and> b = 0 \<and> c = 0) \<or> a = 0 \<or> (a = 169 \<and> b = 254) \<or> ((224 \<le> a \<and> a \<le> 239) \<or> 240 \<le> a)"
    by (simp add: IsPrivateIp_def ParseIP_dotted [OF assms] t ip_IsPrivate_def ip_IsLoopback_def ip_IsLinkLocalUnicast_def
        ip_IsLinkLocalMulticast_def)
  then have "IsPrivateIp (dotted [a, b, c, d]) \<longleftrightarrow> a = 0 \<or> a = 10 \<or> a = 127 \<or> (a = 169 \<and> b = 254) \<or>
       (a = 172 \<and> 16 \<le> b \<and> b \<le> 31) \<or> (a = 192 \<and> b = 168) \<or> 224 \<le> a"
    unfolding b a(1) using a(2) by blast
  then show ?thesis by (simp add: IsValidIp_def ParseIP_dotted [OF assms])
qed

theorem private_ipv4_witness:
  "IsPrivateIp (dotted [172, 31, 0, 1]) \<and> \<not> IsPrivateIp (dotted [172, 32, 0, 1]) \<and> dotted [172, 32, 0, 1] = ''172.32.0.1''"
proof -
  have "dotted [172, 32, 0, 1] = ''172.32.0.1''" by code_simp
  then show ?thesis using private_ipv4 [of 172 31 0 1] private_ipv4 [of 172 32 0 1] by simp
qed

definition public_ip :: "string \<Rightarrow> bool" where
  "public_ip s \<longleftrightarrow> IsValidIp s \<and> \<not> IsPrivateIp s"

text \<open>
  What GetRealIp answers: the address the gateway passed on when there is one; otherwise the first
  header, in the order of trust, that holds a public address, then the first address of
  X-Forwarded-For, private or not, and "0.0.0.0" when nothing is usable. It is never empty and, unless
  it was passed on, always a valid address.
\<close>
theorem GetRealIp_choice:
  "let r = GetRealIp hdr c in
   if RealClientIp (GetRequestMetaData c) \<noteq> [] then r = RealClientIp (GetRequestMetaData c)
   else r \<noteq> [] \<and> IsValidIp r \<and>
     (public_ip r \<or> r = ''0.0.0.0'' \<or> (\<exists>h. hdr = Some h \<and> r = header_ip (h ''X-Forwarded-For'')))"
proof -
  have z: "IsValidIp ''0.0.0.0''" by code_simp
  have e: "\<not> IsValidIp []" by code_simp
  show ?thesis
  proof (cases "RealClientIp (GetRequestMetaData c) = []")
    case True
    show ?thesis
    proof (cases hdr)
      case (Some h)
      let ?ok = "\<lambda>n. h n \<noteq> [] \<and> IsValidIp (header_ip (h n)) \<and> \<not> IsPrivateIp (header_ip (h n))"
      show ?thesis
      proof (cases "List.find ?ok ip_headers")
        case (Some n)
        then have "?ok n" using find_Some_mem [of ?ok] by blast
        with Some \<open>hdr = Some h\<close> True e show ?thesis by (auto simp: GetRealIp_def public_ip_def Let_def)
      qed (use Some z e True in \<open>auto simp: GetRealIp_def Let_def\<close>)
    qed (simp add: GetRealIp_def True z Let_def)
  qed (simp add: GetRealIp_def Let_def)
qed

end
