(* ===== verification/BlogService.thy ===== *)
theory BlogService
  imports ArticleUse TagUse Site ClientIp
begin

text \<open>
  The transport layer of the blog service (app/blog/internal/service): the conversion of requests, where
  an empty string and the number zero stand for absence, the messages of the replies, and the handlers of
  articles, tags, categories and files over the use cases. The messages' field types are those of the
  generated code: unsigned ids, times as RFC 3339 texts.
\<close>

section \<open>Absent values (utils.go)\<close>

definition strPtr :: "string \<Rightarrow> string option" where
  "strPtr s = (if s = [] then None else Some s)"

definition toUintPtr :: "nat \<Rightarrow> nat option" where
  "toUintPtr v = (if v = 0 then None else Some v)"

definition derefUint :: "nat option \<Rightarrow> nat" where
  "derefUint p = (case p of None \<Rightarrow> 0 | Some v \<Rightarrow> v)"

text \<open>A repeated field that was not sent, or sent empty, is a nil slice.\<close>

definition nil_slice :: "'a list \<Rightarrow> 'a list option" where
  "nil_slice xs = (if xs = [] then None else Some xs)"

section \<open>Messages\<close>

record TagInfo =
  ti_Id :: nat
  ti_Name :: string
  ti_Slug :: string
  ti_ArticleCount :: int

definition toTagInfo :: "Tag \<Rightarrow> TagInfo" where
  "toTagInfo t = \<lparr>ti_Id = tag_ID t, ti_Name = tag_Name t, ti_Slug = tag_Slug t, ti_ArticleCount = tag_Count t\<rparr>"

datatype CategoryInfo = CategoryInfo
  (ci_Id: nat) (ci_Name: string) (ci_Slug: string) (ci_Description: string) (ci_ParentId: nat)
  (ci_SortOrder: int) (ci_ArticleCount: int) (ci_Children: "CategoryInfo list")

text \<open>\<^verbatim>\<open>int32(c.SortOrder)\<close> keeps the low 32 bits.\<close>

definition wrap32 :: "int \<Rightarrow> int" where
  "wrap32 i = sint (word_of_int i :: 32 word)"

primrec toCategoryInfo :: "Category \<Rightarrow> CategoryInfo" where
  "toCategoryInfo (Category i n s d p so k t ch) =
    CategoryInfo i n s d (derefUint p) (wrap32 so) k (map toCategoryInfo ch)"

record AuthorInfo =
  au_Id :: nat
  au_Username :: string
  au_Avatar :: string

record ArticleInfo =
  ai_Id :: nat
  ai_Title :: string
  ai_Slug :: string
  ai_Content :: string
  ai_Excerpt :: string
  ai_CoverImage :: string
  ai_Status :: string
  ai_AuthorId :: nat
  ai_Author :: AuthorInfo
  ai_CategoryId :: nat
  ai_Category :: "(nat \<times> string) option"
  ai_ViewCount :: int
  ai_LikeCount :: int
  ai_IsTop :: bool
  ai_IsLiked :: bool
  ai_PublishedAt :: string
  ai_CreatedAt :: string
  ai_UpdatedAt :: string
  ai_Tags :: "TagInfo list"

definition articleStatusStr :: "ArticleStatus \<Rightarrow> string" where
  "articleStatusStr s = (case s of Published \<Rightarrow> ''published'' | Archived \<Rightarrow> ''archived'' | Draft \<Rightarrow> ''draft'')"

definition toArticleInfo :: "(int \<Rightarrow> string) \<Rightarrow> Article \<Rightarrow> ArticleInfo" where
  "toArticleInfo rfc a =
    \<lparr>ai_Id = ID a, ai_Title = Title a, ai_Slug = Slug a, ai_Content = Content a, ai_Excerpt = Excerpt a,
     ai_CoverImage = CoverImage a, ai_Status = articleStatusStr (Status a), ai_AuthorId = AuthorID a,
     ai_Author = \<lparr>au_Id = AuthorID a, au_Username = AuthorName a, au_Avatar = AuthorAvatar a\<rparr>,
     ai_CategoryId = derefUint (CategoryID a),
     ai_Category = map_option (\<lambda>i. (i, CategoryName a)) (CategoryID a),
     ai_ViewCount = ViewCount a, ai_LikeCount = LikeCount a, ai_IsTop = IsTop a, ai_IsLiked = IsLiked a,
     ai_PublishedAt = (case PublishedAt a of None \<Rightarrow> [] | Some t \<Rightarrow> rfc t),
     ai_CreatedAt = rfc (CreatedAt a), ai_UpdatedAt = rfc (UpdatedAt a), ai_Tags = map toTagInfo (Tags a)\<rparr>"

definition reply :: "('a \<Rightarrow> 'm) \<Rightarrow> 'a res \<times> 's \<Rightarrow> 'm res \<times> 's" where
  "reply f r = (case r of (Inl er, s) \<Rightarrow> (Inl er, s) | (Inr x, s) \<Rightarrow> (Inr (f x), s))"

definition reply_list :: "('a \<Rightarrow> 'm) \<Rightarrow> ('a list \<times> nat) res \<Rightarrow> ('m list \<times> nat) res" where
  "reply_list f r = (case r of Inl er \<Rightarrow> Inl er | Inr (xs, n) \<Rightarrow> Inr (map f xs, n))"

section \<open>ArticleService\<close>

record CreateArticleRequest =
  cr_Title :: string
  cr_Content :: string
  cr_Excerpt :: string
  cr_CoverImage :: string
  cr_CategoryId :: nat
  cr_TagNames :: "string list"
  cr_Status :: string

definition svc_CreateArticle ::
  "(int \<Rightarrow> string) \<Rightarrow> env \<Rightarrow> ctx \<Rightarrow> CreateArticleRequest \<Rightarrow> blog \<Rightarrow> ArticleInfo res \<times> blog" where
  "svc_CreateArticle rfc e c r b =
    (case CreateArticle e c (cr_Title r) (cr_Content r) (cr_Excerpt r) (cr_CoverImage r) (toUintPtr (cr_CategoryId r))
        (cr_TagNames r) b of
       (Inl er, b1) \<Rightarrow> (Inl er, b1)
     | (Inr a, b1) \<Rightarrow>
       if cr_Status r = ''published'' then reply (toArticleInfo rfc) (PublishArticle e c (ID a) b1)
       else (Inr (toArticleInfo rfc a), b1))"

record UpdateArticleRequest =
  ur_Id :: nat
  ur_Title :: string
  ur_Content :: string
  ur_Excerpt :: string
  ur_CoverImage :: string
  ur_CategoryId :: nat
  ur_TagNames :: "string list"

definition svc_UpdateArticle ::
  "(int \<Rightarrow> string) \<Rightarrow> env \<Rightarrow> ctx \<Rightarrow> UpdateArticleRequest \<Rightarrow> blog \<Rightarrow> ArticleInfo res \<times> blog" where
  "svc_UpdateArticle rfc e c r b =
    reply (toArticleInfo rfc)
      (UpdateArticle e c (ur_Id r) (strPtr (ur_Title r)) (strPtr (ur_Content r)) (strPtr (ur_Excerpt r))
        (strPtr (ur_CoverImage r)) (toUintPtr (ur_CategoryId r)) (nil_slice (ur_TagNames r)) b)"

definition svc_DeleteArticle :: "env \<Rightarrow> ctx \<Rightarrow> nat \<Rightarrow> blog \<Rightarrow> err option \<times> blog" where
  "svc_DeleteArticle e c i b = DeleteArticle e c i b"

definition svc_GetArticle :: "(int \<Rightarrow> string) \<Rightarrow> env \<Rightarrow> ctx \<Rightarrow> string \<Rightarrow> blog \<Rightarrow> ArticleInfo res \<times> blog" where
  "svc_GetArticle rfc e c ident b = reply (toArticleInfo rfc) (GetArticle e c ident b)"

record ListArticlesRequest =
  lr_Status :: string
  lr_CategoryId :: nat
  lr_Tags :: "string list"
  lr_AuthorId :: nat
  lr_SortBy :: string
  lr_SortOrder :: string
  lr_Page :: int
  lr_PageSize :: int

definition svc_ListArticles ::
  "(int \<Rightarrow> string) \<Rightarrow> env \<Rightarrow> (string \<Rightarrow> ArticlePO list \<Rightarrow> ArticlePO list) \<Rightarrow> ctx \<Rightarrow> ListArticlesRequest \<Rightarrow> blog \<Rightarrow>
    (ArticleInfo list \<times> nat) res" where
  "svc_ListArticles rfc e ord c r b =
    reply_list (toArticleInfo rfc)
      (ListArticles e ord c \<lparr>q_Status = lr_Status r, q_CategoryID = toUintPtr (lr_CategoryId r), q_Tags = lr_Tags r,
         q_AuthorID = toUintPtr (lr_AuthorId r), q_SortBy = lr_SortBy r, q_SortOrder = lr_SortOrder r,
         q_Page = lr_Page r, q_PageSize = lr_PageSize r\<rparr> b)"

definition svc_PublishArticle :: "(int \<Rightarrow> string) \<Rightarrow> env \<Rightarrow> ctx \<Rightarrow> nat \<Rightarrow> blog \<Rightarrow> ArticleInfo res \<times> blog" where
  "svc_PublishArticle rfc e c i b = reply (toArticleInfo rfc) (PublishArticle e c i b)"

definition svc_ArchiveArticle :: "(int \<Rightarrow> string) \<Rightarrow> env \<Rightarrow> ctx \<Rightarrow> nat \<Rightarrow> blog \<Rightarrow> ArticleInfo res \<times> blog" where
  "svc_ArchiveArticle rfc e c i b = reply (toArticleInfo rfc) (ArchiveArticle e c i b)"

definition svc_SearchArticles ::
  "(int \<Rightarrow> string) \<Rightarrow> env \<Rightarrow> (string \<Rightarrow> ArticlePO list \<Rightarrow> ArticlePO list) \<Rightarrow> (string \<Rightarrow> string \<Rightarrow> bool) \<Rightarrow> string \<Rightarrow> int \<Rightarrow> int \<Rightarrow>
    blog \<Rightarrow> (ArticleInfo list \<times> nat) res" where
  "svc_SearchArticles rfc e ord like kw page psize b =
    reply_list (toArticleInfo rfc) (SearchArticles e ord like kw page psize b)"

text \<open>The gate is the site's switch, read through its cache.\<close>

definition svc_LikeArticle :: "env \<Rightarrow> ctx \<Rightarrow> nat \<Rightarrow> blog \<times> sitest \<Rightarrow> err option \<times> blog \<times> sitest" where
  "svc_LikeArticle e c i bs =
    (case siteRepo_IsLikesEnabled e (snd bs) of
       (gate, s1) \<Rightarrow> (case LikeArticle e (Some gate) c i (fst bs) of (r, b1) \<Rightarrow> (r, b1, s1)))"

definition svc_UnlikeArticle :: "env \<Rightarrow> ctx \<Rightarrow> nat \<Rightarrow> blog \<Rightarrow> err option \<times> blog" where
  "svc_UnlikeArticle e c i b = UnlikeArticle e c i b"

definition svc_ViewArticle :: "env \<Rightarrow> (string \<Rightarrow> string) option \<Rightarrow> ctx \<Rightarrow> nat \<Rightarrow> blog \<Rightarrow> bool res \<times> blog" where
  "svc_ViewArticle e hdr c i b =
    (let ip = RealClientIp (GetRequestMetaData c)
     in ViewArticle e i (if ip = [] then GetRealIp hdr c else ip) b)"

section \<open>TagService and CategoryService\<close>

definition svc_CreateTag :: "env \<Rightarrow> ctx \<Rightarrow> string \<Rightarrow> blog \<Rightarrow> TagInfo res \<times> blog" where
  "svc_CreateTag e c n b = reply toTagInfo (CreateTag e c n b)"

definition svc_ListTags :: "env \<Rightarrow> blog \<Rightarrow> TagInfo list res \<times> blog" where
  "svc_ListTags e b = reply (map toTagInfo) (ListTags e b)"

definition svc_DeleteTag :: "env \<Rightarrow> ctx \<Rightarrow> nat \<Rightarrow> blog \<Rightarrow> err option \<times> blog" where
  "svc_DeleteTag e c i b = DeleteTag e c i b"

definition svc_CreateCategory ::
  "env \<Rightarrow> ctx \<Rightarrow> string \<Rightarrow> string \<Rightarrow> string \<Rightarrow> nat \<Rightarrow> int \<Rightarrow> blog \<Rightarrow> CategoryInfo res \<times> blog" where
  "svc_CreateCategory e c n s d p so b = reply toCategoryInfo (CreateCategory e c n s d (toUintPtr p) so b)"

definition svc_ListCategories :: "env \<Rightarrow> blog \<Rightarrow> CategoryInfo list res \<times> blog" where
  "svc_ListCategories e b = reply (map toCategoryInfo) (ListCategories e b)"

definition svc_UpdateCategory ::
  "env \<Rightarrow> ctx \<Rightarrow> nat \<Rightarrow> string \<Rightarrow> string \<Rightarrow> string \<Rightarrow> nat \<Rightarrow> int \<Rightarrow> blog \<Rightarrow> CategoryInfo res \<times> blog" where
  "svc_UpdateCategory e c i n s d p so b = reply toCategoryInfo (UpdateCategory e c i n s d (toUintPtr p) so b)"

definition svc_DeleteCategory :: "env \<Rightarrow> ctx \<Rightarrow> nat \<Rightarrow> blog \<Rightarrow> err option \<times> blog" where
  "svc_DeleteCategory e c i b = DeleteCategory e c i b"

section \<open>FileService and SiteService\<close>

record FileInfo =
  fi_Id :: nat
  fi_Filename :: string
  fi_MimeType :: string
  fi_Size :: int
  fi_Url :: string
  fi_CreatedAt :: string

definition toFileInfo :: "(int \<Rightarrow> string) \<Rightarrow> File \<Rightarrow> FileInfo" where
  "toFileInfo rfc f = \<lparr>fi_Id = f_ID f, fi_Filename = f_Filename f, fi_MimeType = f_MimeType f, fi_Size = f_Size f,
     fi_Url = f_URL f, fi_CreatedAt = rfc (f_CreatedAt f)\<rparr>"

definition svc_UploadFile ::
  "(int \<Rightarrow> string) \<Rightarrow> env \<Rightarrow> string \<Rightarrow> ctx \<Rightarrow> string \<Rightarrow> string \<Rightarrow> string \<Rightarrow> filest \<Rightarrow> FileInfo res \<times> filest" where
  "svc_UploadFile rfc e key c fn mime content s = reply (toFileInfo rfc) (Upload e key c fn mime content s)"

definition svc_GetFile :: "(int \<Rightarrow> string) \<Rightarrow> env \<Rightarrow> ctx \<Rightarrow> nat \<Rightarrow> filest \<Rightarrow> FileInfo res" where
  "svc_GetFile rfc e c i s = (case GetFile e c i s of Inl er \<Rightarrow> Inl er | Inr f \<Rightarrow> Inr (toFileInfo rfc f))"

definition svc_DeleteFile :: "env \<Rightarrow> ctx \<Rightarrow> nat \<Rightarrow> filest \<Rightarrow> err option \<times> filest" where
  "svc_DeleteFile e c i s = DeleteFile e c i s"

definition svc_ListFiles ::
  "(int \<Rightarrow> string) \<Rightarrow> env \<Rightarrow> (FilePO list \<Rightarrow> FilePO list) \<Rightarrow> ctx \<Rightarrow> int \<Rightarrow> int \<Rightarrow> filest \<Rightarrow> (FileInfo list \<times> nat) res" where
  "svc_ListFiles rfc e ord c page psize s = reply_list (toFileInfo rfc) (ListFiles e ord c page psize s)"

definition svc_CompletePresignedUpload ::
  "(int \<Rightarrow> string) \<Rightarrow> env \<Rightarrow> ctx \<Rightarrow> string \<Rightarrow> string \<Rightarrow> string \<Rightarrow> filest \<Rightarrow> FileInfo res \<times> filest" where
  "svc_CompletePresignedUpload rfc e c key fn mime s =
    reply (toFileInfo rfc) (CompletePresignedUpload e c key fn mime s)"

record BackgroundMsg =
  bm_Id :: nat
  bm_Filename :: string
  bm_Url :: string
  bm_IsActive :: bool
  bm_SortOrder :: int
  bm_CreatedAt :: string

definition toSiteBackground :: "(int \<Rightarrow> string) \<Rightarrow> SiteBackground \<Rightarrow> BackgroundMsg" where
  "toSiteBackground rfc g = \<lparr>bm_Id = bg_ID g, bm_Filename = bg_Filename g, bm_Url = bg_URL g, bm_IsActive = bg_IsActive g,
     bm_SortOrder = wrap32 (bg_SortOrder g), bm_CreatedAt = rfc (bg_CreatedAt g)\<rparr>"

definition svc_ListBackgrounds :: "(int \<Rightarrow> string) \<Rightarrow> env \<Rightarrow> sitest \<Rightarrow> BackgroundMsg list res \<times> sitest" where
  "svc_ListBackgrounds rfc e s = reply (map (toSiteBackground rfc)) (ListBackgrounds e s)"

definition svc_UploadBackground ::
  "(int \<Rightarrow> string) \<Rightarrow> env \<Rightarrow> string \<Rightarrow> ctx \<Rightarrow> string \<Rightarrow> string \<Rightarrow> sitest \<Rightarrow> BackgroundMsg res \<times> sitest" where
  "svc_UploadBackground rfc e key c fn content s = reply (toSiteBackground rfc) (AddBackground e key c fn content s)"

definition svc_DeleteBackground :: "env \<Rightarrow> ctx \<Rightarrow> nat \<Rightarrow> sitest \<Rightarrow> err option \<times> sitest" where
  "svc_DeleteBackground e c i s = DeleteBackground e c i s"

definition svc_SetActiveBackground :: "env \<Rightarrow> ctx \<Rightarrow> nat \<Rightarrow> sitest \<Rightarrow> err option \<times> sitest" where
  "svc_SetActiveBackground e c i s = SetActiveBackground e c i s"

definition svc_GetMusicPlaylist :: "env \<Rightarrow> sitest \<Rightarrow> MusicPlaylist option res \<times> sitest" where
  "svc_GetMusicPlaylist e s = GetPlaylist e s"

definition svc_UpdateMusicPlaylist :: "env \<Rightarrow> ctx \<Rightarrow> MusicPlaylist option \<Rightarrow> sitest \<Rightarrow> MusicPlaylist option res \<times> sitest" where
  "svc_UpdateMusicPlaylist e c p s = UpdatePlaylist e c p s"

end
