(* ===== verification/ServiceProps.thy ===== *)
theory ServiceProps
  imports BlogService SiteProps Counts
begin

text \<open>
  What the transport layer adds: how the blank fields of an update read, and how the site's switch and
  the likes of articles work together.
\<close>

section \<open>Updates\<close>

definition pick :: "string \<Rightarrow> string \<Rightarrow> string" where
  "pick new old = (if new = [] then old else new)"

lemma set_opt_strPtr: "set_opt f (strPtr s) r = (if s = [] then r else f s r)"
  by (simp add: set_opt_def strPtr_def)

lemma retitle_result:
  "retitle e to a b = (Inr a1, b1) \<Longrightarrow> a1 = a\<lparr>Title := Title a1, Slug := Slug a1\<rparr> \<and>
    Title a1 = (case to of None \<Rightarrow> Title a | Some t \<Rightarrow> t) \<and> (to = None \<longrightarrow> Slug a1 = Slug a)"
  by (auto simp: retitle_def split: option.splits sum.splits prod.splits)

text \<open>
  In an update of an article a blank field means "leave it": title, content, excerpt, cover and
  category of the reply are the values of the request where they are not blank, and otherwise those of
  the article as it was; author, status and counters stay. Consequently the removal of a category,
  which the use case offers for the id zero, and the clearing of an excerpt or a cover cannot be
  requested.
\<close>
theorem update_blank_keeps:
  assumes "authorizeArticle e c (ur_Id r) b = Inr a0" "svc_UpdateArticle rfc e c r b = (Inr m, b')"
  shows "ai_Title m = pick (ur_Title r) (Title a0) \<and> ai_Content m = pick (ur_Content r) (Content a0) \<and>
    ai_Excerpt m = pick (ur_Excerpt r) (Excerpt a0) \<and> ai_CoverImage m = pick (ur_CoverImage r) (CoverImage a0) \<and>
    ai_CategoryId m = (if ur_CategoryId r = 0 then derefUint (CategoryID a0) else ur_CategoryId r) \<and>
    ai_AuthorId m = AuthorID a0 \<and> ai_Status m = articleStatusStr (Status a0) \<and> ai_LikeCount m = LikeCount a0 \<and>
    ai_ViewCount m = ViewCount a0"
proof -
  obtain a3 where u: "UpdateArticle e c (ur_Id r) (strPtr (ur_Title r)) (strPtr (ur_Content r)) (strPtr (ur_Excerpt r))
      (strPtr (ur_CoverImage r)) (toUintPtr (ur_CategoryId r)) (nil_slice (ur_TagNames r)) b = (Inr a3, b')"
    and m: "m = toArticleInfo rfc a3"
    using assms(2) by (auto simp: svc_UpdateArticle_def reply_def split: prod.splits sum.splits)
  obtain a1 b1 where t: "retitle e (strPtr (ur_Title r)) a0 b = (Inr a1, b1)"
    and a3: "a3 = edit_category (toUintPtr (ur_CategoryId r))
      (edit_fields (strPtr (ur_Content r)) (strPtr (ur_Excerpt r)) (strPtr (ur_CoverImage r)) a1)"
    using u assms(1) by (auto simp: UpdateArticle_def Let_def split: prod.splits sum.splits if_splits option.splits)
  note a1 = retitle_result [OF t]
  then have f: "Content a1 = Content a0" "Excerpt a1 = Excerpt a0" "CoverImage a1 = CoverImage a0" "CategoryID a1 = CategoryID a0"
    "AuthorID a1 = AuthorID a0" "Status a1 = Status a0" "LikeCount a1 = LikeCount a0" "ViewCount a1 = ViewCount a0"
    by (metis Article.ext_inject Article.surjective Article.update_convs(2,3))+
  have "Title a1 = pick (ur_Title r) (Title a0)" using a1 by (simp add: pick_def strPtr_def split: if_splits)
  then show ?thesis
    unfolding m a3 toArticleInfo_def edit_category_def edit_fields_def set_opt_strPtr
    by (simp add: f pick_def derefUint_def toUintPtr_def set_opt_def)
qed

section \<open>The likes switch\<close>

lemma svc_Update_current:
  assumes "site_fresh s" "evicts e" "svc_UpdateSiteConfig e adm (Some m) s = (Inr m', s1)"
  shows "site_fresh s1 \<and> EnableLikes (current s1) = Some (sc_EnableLikes m)"
proof -
  have u: "snd (UpdateConfig e adm (Some (fromSiteConfig m)) s) = s1" "is_ok (fst (UpdateConfig e adm (Some (fromSiteConfig m)) s))"
    using assms(3) by (auto simp: svc_UpdateSiteConfig_def split: prod.splits sum.splits)
  have "site_fresh s1" using caches.Update_I [OF assms(2,1), of adm "Some (fromSiteConfig m)"] u(1) by simp
  moreover have "EnableLikes (current s1) = Some (sc_EnableLikes m)"
    using u by (auto simp: UpdateConfig_def siteRepo_SaveConfig_def current_def mergeConfig_def fromSiteConfig_def
        split: option.splits prod.splits sum.splits if_splits)
  ultimately show ?thesis ..
qed

lemma likes_gate:
  assumes "site_fresh s" "\<not> db_fault e [''site.get'']" "EnableLikes (current s) = Some on"
  shows "fst (siteRepo_IsLikesEnabled e s) = Inr on"
proof -
  have "\<exists>d s'. siteRepo_GetConfig e s = (Inr d, s')"
    by (cases "rc_get_object e as_setting cfgKey (s_kv s)") (simp_all add: siteRepo_GetConfig_def assms(2) split: option.split)
  then obtain d s' where d: "siteRepo_GetConfig e s = (Inr d, s')" by blast
  with GetConfig_current [OF d assms(1)] assms(3) show ?thesis by (simp add: siteRepo_IsLikesEnabled_def)
qed

text \<open>
  C20. The switch of the site governs likes: once UpdateSiteConfig has succeeded, a like is refused with
  LIKES_DISABLED, changing nothing, when the switch was turned off, and goes the way of the ungated use
  case when it was turned on; whatever the cache held before (evictions succeeding and the settings
  readable).
\<close>
theorem likes_follow_switch:
  assumes "site_reach evicts s" "evicts e1" "svc_UpdateSiteConfig e1 adm (Some m) s = (Inr m', s1)"
    "\<not> db_fault e [''site.get'']"
  shows "\<exists>s2. svc_LikeArticle e c i (b, s1) =
    (if sc_EnableLikes m then (case LikeArticle e None c i b of (r, b') \<Rightarrow> (r, b', s2)) else (Some ErrLikesDisabled, b, s2))"
proof -
  note s1 = svc_Update_current [OF caches.reach_I [OF assms(1)] assms(2,3)]
  have "fst (siteRepo_IsLikesEnabled e s1) = Inr (sc_EnableLikes m)" using likes_gate [OF _ assms(4)] s1 by blast
  then obtain s2 where g: "siteRepo_IsLikesEnabled e s1 = (Inr (sc_EnableLikes m), s2)"
    by (cases "siteRepo_IsLikesEnabled e s1") simp
  show ?thesis
    by (rule exI [of _ s2]) (simp add: svc_LikeArticle_def g LikeArticle_def)
qed

section \<open>Examples\<close>

definition likes_off :: SiteConfigMsg where
  "likes_off = \<lparr>SiteTitle = ''Blog'', SiteSubtitle = [], SiteDescription = [], SiteLogo = [], SiteFavicon = [], SeoKeywords = [],
     SeoDescription = [], SocialGithub = [], SocialTwitter = [], SocialEmail = [], FooterText = [], ICPNumber = [],
     sc_EnableLikes = False\<rparr>"

theorem likes_follow_switch_witness:
  "\<exists>m' s1 s2. svc_UpdateSiteConfig env0 (as_user 1 ''admin'') (Some likes_off) site0 = (Inr m', s1) \<and>
     svc_LikeArticle env0 (as_user 2 ''reader'') 1 (blog0, s1) = (Some ErrLikesDisabled, blog0, s2)"
proof -
  have "\<exists>m' s1. svc_UpdateSiteConfig env0 (as_user 1 ''admin'') (Some likes_off) site0 = (Inr m', s1)"
    using admin_ok by (simp add: svc_UpdateSiteConfig_def UpdateConfig_def siteRepo_GetConfig_def siteRepo_SaveConfig_def
        site0_def rc_get_object_def rc_get_def live_def)
  then obtain m' s1 where u: "svc_UpdateSiteConfig env0 (as_user 1 ''admin'') (Some likes_off) site0 = (Inr m', s1)" by blast
  have "site_reach evicts site0" "evicts env0" by (simp_all add: site_reach_def evicts_def)
  from likes_follow_switch [OF this u, of env0 "as_user 2 ''reader''" 1 blog0] u show ?thesis by (auto simp: likes_off_def)
qed

definition new_excerpt :: UpdateArticleRequest where
  "new_excerpt = \<lparr>ur_Id = 1, ur_Title = [], ur_Content = [], ur_Excerpt = ''news'', ur_CoverImage = [], ur_CategoryId = 0,
     ur_TagNames = []\<rparr>"

lemma one_authorize: "authorizeArticle env0 (as_user 7 []) 1 (one_article Published) =
    Inr (load_article env0 (one_article Published) (one_po Published))"
  using one_find [of env0 Published]
  by (simp add: authorizeArticle_def load_fields) (simp add: one_po_def)

theorem update_blank_keeps_witness:
  "\<exists>m b'. svc_UpdateArticle (\<lambda>_. []) env0 (as_user 7 []) new_excerpt (one_article Published) = (Inr m, b') \<and>
     ai_Excerpt m = ''news'' \<and> ai_Title m = ''ab''"
proof -
  let ?a0 = "load_article env0 (one_article Published) (one_po Published)"
  let ?a3 = "?a0\<lparr>Excerpt := ''news''\<rparr>"
  have a0: "ID ?a0 = 1" "Slug ?a0 = ''ab''" "Title ?a0 = ''ab''"
    by (simp_all add: load_fields) (simp_all add: one_po_def)
  have "row_by_id (one_article Published) 1 \<noteq> None"
    by (simp add: row_by_id_def live_article_def one_article_def one_po_def)
  moreover have "\<not> (\<exists>po\<in>set (articles (one_article Published)). slug_article (Slug ?a3) po \<and> po_ID po \<noteq> ID ?a3)"
    using a0 by (simp add: one_article_def one_po_def)
  ultimately obtain b2 where "articleRepo_Update env0 ?a3 (one_article Published) = (None, b2)"
    using a0 by (simp add: articleRepo_Update_def Let_def)
  then have "\<exists>m b'. svc_UpdateArticle (\<lambda>_. []) env0 (as_user 7 []) new_excerpt (one_article Published) = (Inr m, b')"
    using one_authorize
    by (simp add: svc_UpdateArticle_def UpdateArticle_def new_excerpt_def strPtr_def toUintPtr_def nil_slice_def retitle_def
        edit_fields_def edit_category_def set_opt_def pending_counts_def adjust_counts_def replace_tags_def reply_def Let_def)
  then obtain m b' where u: "svc_UpdateArticle (\<lambda>_. []) env0 (as_user 7 []) new_excerpt (one_article Published) = (Inr m, b')"
    by blast
  have "authorizeArticle env0 (as_user 7 []) (ur_Id new_excerpt) (one_article Published) = Inr ?a0"
    using one_authorize by (simp add: new_excerpt_def)
  from update_blank_keeps [OF this u] u a0(3) show ?thesis by (auto simp: new_excerpt_def pick_def)
qed

end
