(* ===== verification/Gateway.thy ===== *)
theory Gateway
  imports Jwt
begin

text \<open>
  The entry gateway (app/entry/internal/common, app/entry/internal/router/middleware): the response
  envelope, the mapping of errors of the services to HTTP statuses, the identity kept with a request,
  and the middlewares: request metadata, CORS, the rate limiter by address, authentication by bearer
  token, roles. Requests, responses and the context between handlers are gin's; a middleware either
  answers, which ends the chain, or hands a context on (\<^verbatim>\<open>c.Next()\<close>). Logging and metrics of a
  request are left out.
\<close>

section \<open>Responses\<close>

type_synonym headers = "(string \<times> string) list"

text \<open>The envelope \<^verbatim>\<open>{code, msg, data}\<close> with its HTTP status; data is JSON text.\<close>

record response =
  rs_status :: nat
  rs_code :: nat
  rs_msg :: string
  rs_data :: "string option"

definition CodeOK :: nat where "CodeOK = 0"

definition JSON :: "nat \<Rightarrow> nat \<Rightarrow> string \<Rightarrow> string option \<Rightarrow> response" where
  "JSON st code m d = \<lparr>rs_status = st, rs_code = code, rs_msg = m, rs_data = d\<rparr>"

definition OK :: "string option \<Rightarrow> response" where "OK d = JSON 200 CodeOK ''ok'' d"

definition Fail :: "nat \<Rightarrow> nat \<Rightarrow> string \<Rightarrow> response" where "Fail st code m = JSON st code m None"

lemma response_simps [simp]:
  "rs_status (Fail st c m) = st" "rs_code (Fail st c m) = c" "rs_status (OK d) = 200" "rs_code (OK d) = 0"
  "rs_data (OK d) = d" "rs_msg (Fail st c m) = m"
  by (simp_all add: Fail_def OK_def JSON_def CodeOK_def)

text \<open>The texts of the gateway, in UTF-8.\<close>

definition msg_internal :: string where
  "msg_internal = bstr [230, 156, 141, 229, 138, 161, 229, 134, 133, 233, 131, 168, 233, 148, 153, 232, 175, 175]"

definition msg_no_token :: string where
  "msg_no_token = bstr [230, 156, 170, 230, 143, 144, 228, 190, 155, 232, 174, 164, 232, 175, 129, 228, 187, 164, 231, 137, 140]"

definition msg_bad_token :: string where
  "msg_bad_token = bstr [230, 151, 160, 230, 149, 136, 231, 154, 132, 232, 174, 164, 232, 175, 129, 228, 187, 164, 231, 137, 140]"

definition msg_revoked :: string where
  "msg_revoked = bstr [228, 187, 164, 231, 137, 140, 229, 183, 178, 229, 144, 138, 233, 148, 128]"

definition msg_no_role :: string where
  "msg_no_role = bstr [230, 151, 160, 230, 157, 131, 232, 174, 191, 233, 151, 174, 239, 188, 154, 231, 188, 186, 229, 176, 145, 232, 167, 146, 232, 137, 178, 228, 191, 161, 230, 129, 175]"

definition msg_forbidden :: string where
  "msg_forbidden = bstr [230, 151, 160, 230, 157, 131, 232, 174, 191, 233, 151, 174]"

definition msg_rate :: string where
  "msg_rate = bstr [232, 175, 183, 230, 177, 130, 232, 191, 135, 228, 186, 142, 233, 162, 145, 231, 185, 129, 239, 188, 140, 232, 175, 183, 231, 168, 141, 229, 144, 142, 229, 134, 141, 232, 175, 149]"

definition msg_no_route :: string where
  "msg_no_route = bstr [230, 142, 165, 229, 143, 163, 228, 184, 141, 229, 173, 152, 229, 156, 168]"

definition msg_no_method :: string where
  "msg_no_method = bstr [232, 175, 183, 230, 177, 130, 230, 150, 185, 230, 179, 149, 228, 184, 141, 229, 133, 129, 232, 174, 184]"

definition msg_parse :: string where
  "msg_parse = bstr [229, 143, 130, 230, 149, 176, 232, 167, 163, 230, 158, 144, 229, 164, 177, 232, 180, 165]"

section \<open>Errors of the services\<close>

datatype code =
  OKCode | Canceled | Unknown | InvalidArgument | DeadlineExceeded | NotFoundCode | AlreadyExists | PermissionDenied |
  ResourceExhausted | FailedPrecondition | Aborted | OutOfRange | Unimplemented | Internal | Unavailable | DataLoss |
  Unauthenticated

definition grpcToHTTP :: "code \<Rightarrow> nat option" where
  "grpcToHTTP c = (case c of
     InvalidArgument \<Rightarrow> Some 400
   | NotFoundCode \<Rightarrow> Some 404
   | AlreadyExists \<Rightarrow> Some 409
   | Aborted \<Rightarrow> Some 409
   | PermissionDenied \<Rightarrow> Some 403
   | Unauthenticated \<Rightarrow> Some 401
   | DeadlineExceeded \<Rightarrow> Some 504
   | Unavailable \<Rightarrow> Some 503
   | ResourceExhausted \<Rightarrow> Some 429
   | Internal \<Rightarrow> Some 500
   | _ \<Rightarrow> None)"

definition grpcDefaultMsg :: "code \<Rightarrow> string" where
  "grpcDefaultMsg c = (case c of
     InvalidArgument \<Rightarrow> bstr [229, 143, 130, 230, 149, 176, 233, 148, 153, 232, 175, 175]
   | NotFoundCode \<Rightarrow> bstr [232, 181, 132, 230, 186, 144, 228, 184, 141, 229, 173, 152, 229, 156, 168]
   | AlreadyExists \<Rightarrow> bstr [232, 181, 132, 230, 186, 144, 229, 183, 178, 229, 173, 152, 229, 156, 168]
   | Aborted \<Rightarrow> bstr [232, 175, 183, 230, 177, 130, 229, 134, 178, 231, 170, 129]
   | PermissionDenied \<Rightarrow> bstr [230, 151, 160, 230, 157, 131, 233, 153, 144, 232, 174, 191, 233, 151, 174]
   | Unauthenticated \<Rightarrow> bstr [230, 156, 170, 232, 174, 164, 232, 175, 129, 230, 136, 150, 228, 187, 164, 231, 137, 140, 229, 164, 177, 230, 149, 136]
   | DeadlineExceeded \<Rightarrow> bstr [230, 156, 141, 229, 138, 161, 229, 164, 132, 231, 144, 134, 232, 182, 133, 230, 151, 182, 239, 188, 140, 232, 175, 183, 231, 168, 141, 229, 144, 142, 233, 135, 141, 232, 175, 149]
   | Unavailable \<Rightarrow> bstr [230, 156, 141, 229, 138, 161, 230, 154, 130, 228, 184, 141, 229, 143, 175, 231, 148, 168, 239, 188, 140, 232, 175, 183, 231, 168, 141, 229, 144, 142, 233, 135, 141, 232, 175, 149]
   | ResourceExhausted \<Rightarrow> bstr [232, 175, 183, 230, 177, 130, 232, 191, 135, 228, 186, 142, 233, 162, 145, 231, 185, 129, 239, 188, 140, 232, 175, 183, 231, 168, 141, 229, 144, 142, 229, 134, 141, 232, 175, 149]
   | Internal \<Rightarrow> bstr [230, 156, 141, 229, 138, 161, 229, 134, 133, 233, 131, 168, 233, 148, 153, 232, 175, 175]
   | _ \<Rightarrow> [])"

text \<open>
  The error of a call: one that carries a gRPC status (its code, the business message that Kratos
  decodes from it, its own message), or any other error.
\<close>

datatype callerr = GrpcStatus (st_code: code) (st_kratos: "string option") (st_message: string) | PlainError string

definition httpStatusOf :: "code \<Rightarrow> nat" where
  "httpStatusOf c = (case grpcToHTTP c of Some hs \<Rightarrow> hs | None \<Rightarrow> 500)"

definition MapGRPCError :: "callerr option \<Rightarrow> nat \<times> nat \<times> string" where
  "MapGRPCError er =
    (case er of
       None \<Rightarrow> (500, 500, msg_internal)
     | Some (PlainError t) \<Rightarrow> (500, 500, msg_internal)
     | Some (GrpcStatus c ke m) \<Rightarrow>
       (httpStatusOf c, httpStatusOf c,
        (if ke \<noteq> None \<and> the ke \<noteq> [] then the ke
         else if m \<noteq> [] then m
         else if grpcDefaultMsg c = [] then msg_internal else grpcDefaultMsg c)))"

section \<open>Requests and the context of their handlers\<close>

text \<open>
  Absent headers read as empty; \<^verbatim>\<open>rq_query\<close> are the values of a query key in their order;
  \<^verbatim>\<open>rq_client_ip\<close> is what gin makes of the connection.
\<close>

record request =
  rq_method :: string
  rq_path :: string
  rq_header :: "string \<Rightarrow> string"
  rq_query :: "string \<Rightarrow> string list"
  rq_body :: "string res"
  rq_client_ip :: string

text \<open>The keys a handler finds in the context, and the headers set so far.\<close>

record gctx =
  g_user_id :: "nat option"
  g_user_name :: "string option"
  g_role :: "string option"
  g_request_id :: "string option"
  g_meta :: "RequestMetaData option"
  g_headers :: headers

definition gctx0 :: gctx where
  "gctx0 = \<lparr>g_user_id = None, g_user_name = None, g_role = None, g_request_id = None, g_meta = None, g_headers = []\<rparr>"

definition SetRequestMeta :: "gctx \<Rightarrow> RequestMetaData \<Rightarrow> gctx" where
  "SetRequestMeta c m = c\<lparr>g_meta := Some m\<rparr>"

definition GetRequestMeta :: "gctx \<Rightarrow> RequestMetaData option" where
  "GetRequestMeta c = g_meta c"

definition before_comma :: "string \<Rightarrow> string" where
  "before_comma s = takeWhile (\<lambda>c. c \<noteq> CHR '','') s"

definition realClientIP :: "request \<Rightarrow> string" where
  "realClientIP r =
    (let first = trim_space (before_comma (rq_header r ''X-Forwarded-For'')) in
     if rq_header r ''X-Forwarded-For'' \<noteq> [] \<and> first \<noteq> [] then first
     else let x = trim_space (rq_header r ''X-Real-IP'') in if x \<noteq> [] then x else rq_client_ip r)"

definition BuildRequestMeta :: "request \<Rightarrow> gctx \<Rightarrow> RequestMetaData" where
  "BuildRequestMeta r c =
    (case GetRequestMeta c of
       None \<Rightarrow> anonymous\<lparr>RealClientIp := realClientIP r\<rparr>
     | Some m \<Rightarrow> \<lparr>auth = auth m, RealClientIp = realClientIP r, AccessToken = AccessToken m\<rparr>)"

section \<open>Request metadata\<close>

text \<open>\<^verbatim>\<open>suffix\<close> are eight letters of the random source, None when it fails.\<close>

definition generateRequestID :: "int \<Rightarrow> string option \<Rightarrow> string" where
  "generateRequestID now suffix = (case suffix of None \<Rightarrow> show_int now | Some l \<Rightarrow> show_int now @ l)"

definition set_header :: "string \<Rightarrow> string \<Rightarrow> gctx \<Rightarrow> gctx" where
  "set_header k v c = c\<lparr>g_headers := (k, v) # g_headers c\<rparr>"

definition AddMetaData :: "int \<Rightarrow> string option \<Rightarrow> gctx \<Rightarrow> gctx" where
  "AddMetaData now suffix c =
    (let i = generateRequestID now suffix
     in SetRequestMeta (set_header ''X-Request-ID'' i (c\<lparr>g_request_id := Some i\<rparr>)) anonymous)"

section \<open>CORS\<close>

definition corsAllowMethods :: string where "corsAllowMethods = ''GET, POST, PUT, PATCH, DELETE, HEAD, OPTIONS''"
definition corsAllowHeaders :: string where
  "corsAllowHeaders = ''Origin, X-Requested-With, Content-Type, Accept, Authorization''"
definition corsMaxAge :: string where "corsMaxAge = ''86400''"

definition cors_origin :: "string list \<Rightarrow> string \<Rightarrow> string" where
  "cors_origin origins origin =
    (if origins = [] then ''*'' else if origin \<noteq> [] \<and> origin \<in> set origins then origin else [])"

definition cors_headers :: "string list \<Rightarrow> string \<Rightarrow> gctx \<Rightarrow> gctx" where
  "cors_headers origins allow c =
    (let c1 = set_header ''Access-Control-Allow-Origin'' allow c;
         c2 = (if origins = [] then c1 else set_header ''Access-Control-Allow-Credentials'' ''true'' c1)
     in set_header ''Access-Control-Max-Age'' corsMaxAge
          (set_header ''Access-Control-Allow-Headers'' corsAllowHeaders
            (set_header ''Access-Control-Allow-Methods'' corsAllowMethods c2)))"

text \<open>A preflight is answered with 204 and no body.\<close>

definition no_content :: response where "no_content = \<lparr>rs_status = 204, rs_code = 0, rs_msg = [], rs_data = None\<rparr>"

definition CORS :: "string list \<Rightarrow> request \<Rightarrow> gctx \<Rightarrow> (response \<times> gctx) + gctx" where
  "CORS origins r c =
    (let allow = cors_origin origins (rq_header r ''Origin'');
         c1 = (if allow \<noteq> [] then cors_headers origins allow c else c)
     in if rq_method r = ''OPTIONS'' then Inl (no_content, c1) else Inr c1)"

section \<open>The rate limiter\<close>

text \<open>
  A token bucket per address; the bucket itself is golang.org/x/time/rate's: a new one for a rate and a
  capacity, and \<^verbatim>\<open>Allow\<close> at a time. The two maps are association lists.
\<close>

record 'lim ratelib =
  rt_new :: "int \<Rightarrow> int \<Rightarrow> 'lim"
  rt_allow :: "'lim \<Rightarrow> int \<Rightarrow> bool \<times> 'lim"

record 'lim ipRateLimiter =
  rl_limit :: int
  rl_burst :: int
  buckets :: "(string \<times> 'lim) list"
  lastSeen :: "(string \<times> int) list"

definition maxIPBuckets :: nat where "maxIPBuckets = 10000"
definition ipIdleTimeout :: int where "ipIdleTimeout = 600000000000"

definition amap_set :: "'k \<Rightarrow> 'v \<Rightarrow> ('k \<times> 'v) list \<Rightarrow> ('k \<times> 'v) list" where
  "amap_set k v m = (k, v) # filter (\<lambda>p. fst p \<noteq> k) m"

definition new_rate_limiter :: "int \<Rightarrow> int \<Rightarrow> 'lim ipRateLimiter" where
  "new_rate_limiter limit burst = \<lparr>rl_limit = limit, rl_burst = burst, buckets = [], lastSeen = []\<rparr>"

definition idle :: "int \<Rightarrow> 'lim ipRateLimiter \<Rightarrow> string \<Rightarrow> bool" where
  "idle now rl ip \<longleftrightarrow> (case map_of (lastSeen rl) ip of None \<Rightarrow> False | Some seen \<Rightarrow> ipIdleTimeout < now - seen)"

definition sweepIdle :: "int \<Rightarrow> 'lim ipRateLimiter \<Rightarrow> 'lim ipRateLimiter" where
  "sweepIdle now rl =
    rl\<lparr>buckets := filter (\<lambda>p. \<not> idle now rl (fst p)) (buckets rl),
       lastSeen := filter (\<lambda>p. \<not> idle now rl (fst p)) (lastSeen rl)\<rparr>"

definition bucketFor :: "'lim ratelib \<Rightarrow> int \<Rightarrow> string \<Rightarrow> 'lim ipRateLimiter \<Rightarrow> 'lim \<times> 'lim ipRateLimiter" where
  "bucketFor T now ip rl =
    (case map_of (buckets rl) ip of
       Some l \<Rightarrow> (l, rl\<lparr>lastSeen := amap_set ip now (lastSeen rl)\<rparr>)
     | None \<Rightarrow>
       (let rl1 = (if maxIPBuckets \<le> length (buckets rl) then sweepIdle now rl else rl);
            l = rt_new T (rl_limit rl1) (rl_burst rl1)
        in (l, rl1\<lparr>buckets := amap_set ip l (buckets rl1), lastSeen := amap_set ip now (lastSeen rl1)\<rparr>)))"

text \<open>\<^verbatim>\<open>Allow\<close> changes the bucket in place.\<close>

definition rate_limit ::
  "'lim ratelib \<Rightarrow> int \<Rightarrow> request \<Rightarrow> 'lim ipRateLimiter \<Rightarrow> response option \<times> 'lim ipRateLimiter" where
  "rate_limit T now r rl =
    (if rl_limit rl \<le> 0 then (None, rl)
     else case bucketFor T now (rq_client_ip r) rl of
       (l, rl1) \<Rightarrow>
         (case rt_allow T l now of
            (ok, l') \<Rightarrow> (if ok then None else Some (Fail 429 429 msg_rate),
                        rl1\<lparr>buckets := amap_set (rq_client_ip r) l' (buckets rl1)\<rparr>)))"

section \<open>Authentication\<close>

datatype bearer = bearerOK string | bearerNone | bearerMalformed

definition bearerPrefix :: string where "bearerPrefix = ''Bearer ''"

text \<open>
  \<^verbatim>\<open>strings.EqualFold\<close> with a text of these letters: no other rune folds to one of them, so the case of
  ASCII letters is all that it ignores.
\<close>

definition ascii_lower :: "char \<Rightarrow> char" where
  "ascii_lower c = (if 65 \<le> byte c \<and> byte c \<le> 90 then char_of (byte c + 32) else c)"

definition equal_fold :: "string \<Rightarrow> string \<Rightarrow> bool" where
  "equal_fold s t \<longleftrightarrow> map ascii_lower s = map ascii_lower t"

definition extractBearerToken :: "string \<Rightarrow> bearer" where
  "extractBearerToken header =
    (let h = trim_space header in
     if h = [] then bearerNone
     else if length h < length bearerPrefix \<or> \<not> equal_fold (take (length bearerPrefix) h) bearerPrefix then bearerMalformed
     else let t = trim_space (drop (length bearerPrefix) h) in if t = [] then bearerNone else bearerOK t)"

text \<open>
  \<^verbatim>\<open>bl\<close> asks the blacklist: None when there is none (no Redis configured or reached at start).
\<close>

definition identify :: "Claims \<Rightarrow> string \<Rightarrow> gctx \<Rightarrow> gctx" where
  "identify cl t c =
    SetRequestMeta (c\<lparr>g_user_id := Some (pl_UserId (cl_Payload cl)), g_user_name := Some (pl_UserName (cl_Payload cl)),
        g_role := Some (pl_Role (cl_Payload cl))\<rparr>)
      \<lparr>auth = \<lparr>UserID = pl_UserId (cl_Payload cl), UserName = pl_UserName (cl_Payload cl), Role = pl_Role (cl_Payload cl)\<rparr>,
       RealClientIp = [], AccessToken = t\<rparr>"

definition NewJWTAuth ::
  "(string \<Rightarrow> Claims res) \<Rightarrow> (string \<Rightarrow> bool) option \<Rightarrow> bool \<Rightarrow> request \<Rightarrow> gctx \<Rightarrow> response + gctx" where
  "NewJWTAuth parse_access bl optional r c =
    (case extractBearerToken (rq_header r ''Authorization'') of
       bearerNone \<Rightarrow> if optional then Inr c else Inl (Fail 401 401 msg_no_token)
     | bearerMalformed \<Rightarrow> if optional then Inr c else Inl (Fail 401 401 msg_bad_token)
     | bearerOK t \<Rightarrow>
       if bl \<noteq> None \<and> the bl t then Inl (Fail 401 401 msg_revoked)
       else case parse_access t of
              Inl er \<Rightarrow> if optional then Inr c else Inl (Fail 401 401 msg_bad_token)
            | Inr cl \<Rightarrow> Inr (identify cl t c))"

section \<open>Roles\<close>

definition RequireRole :: "string list \<Rightarrow> gctx \<Rightarrow> response + gctx" where
  "RequireRole allowed c =
    (case g_role c of
       None \<Rightarrow> Inl (Fail 403 403 msg_no_role)
     | Some role \<Rightarrow> if role \<in> set allowed then Inr c else Inl (Fail 403 403 msg_forbidden))"

end
