(* ===== verification/GatewayRoutes.thy ===== *)
theory GatewayRoutes
  imports Gateway
begin

text \<open>
  The routes of the gateway (app/entry/internal/domain/proxy, app/entry/internal/router): binding a
  request's path, query and body to the message of a call, the call itself with the identity in its
  metadata, one handler per call, the table of routes with their classes, and a request's whole way
  through middlewares, router and handler. The generated clients, protojson and gin's router are
  parameters.
\<close>

section \<open>Messages\<close>

text \<open>
  The calls of the services, and their request messages: fields by their names, where zero, the empty
  string and the empty list stand for an absent field, as in proto3; \<^verbatim>\<open>m_sub\<close> is the nested message.
\<close>

datatype rpc =
  R_Register | R_Login | R_RefreshToken | R_Logout | R_GetProfile | R_UpdateProfile | R_ListArticles |
  R_SearchArticles | R_GetArticle | R_CreateArticle | R_ViewArticle | R_UpdateArticle | R_DeleteArticle |
  R_PublishArticle | R_ArchiveArticle | R_LikeArticle | R_UnlikeArticle | R_ListTags | R_CreateTag | R_DeleteTag
  | R_ListCategories | R_CreateCategory | R_UpdateCategory | R_DeleteCategory | R_UploadFile | R_ListFiles |
  R_GetPresignedPutURL | R_GetFile | R_DeleteFile | R_CreatePresignedUpload | R_CompletePresignedUpload |
  R_GetSiteConfig | R_ListBackgrounds | R_GetMusicPlaylist | R_UpdateSiteConfig | R_UploadBackground |
  R_DeleteBackground | R_SetActiveBackground | R_UpdateMusicPlaylist

record 'n message =
  m_rpc :: rpc
  m_u :: "string \<Rightarrow> nat"
  m_i :: "string \<Rightarrow> int"
  m_s :: "string \<Rightarrow> string"
  m_l :: "string \<Rightarrow> string list"
  m_sub :: "'n option"

definition empty_message :: "rpc \<Rightarrow> 'n message" where
  "empty_message k = \<lparr>m_rpc = k, m_u = (\<lambda>_. 0), m_i = (\<lambda>_. 0), m_s = (\<lambda>_. []), m_l = (\<lambda>_. []), m_sub = None\<rparr>"

definition put_u :: "string \<Rightarrow> nat \<Rightarrow> 'n message \<Rightarrow> 'n message" where
  "put_u f v m = m\<lparr>m_u := (m_u m)(f := v)\<rparr>"

definition put_i :: "string \<Rightarrow> int \<Rightarrow> 'n message \<Rightarrow> 'n message" where
  "put_i f v m = m\<lparr>m_i := (m_i m)(f := v)\<rparr>"

definition put_s :: "string \<Rightarrow> string \<Rightarrow> 'n message \<Rightarrow> 'n message" where
  "put_s f v m = m\<lparr>m_s := (m_s m)(f := v)\<rparr>"

definition put_l :: "string \<Rightarrow> string list \<Rightarrow> 'n message \<Rightarrow> 'n message" where
  "put_l f v m = m\<lparr>m_l := (m_l m)(f := v)\<rparr>"

lemma message_simps [simp]:
  "m_rpc (empty_message k) = k" "m_u (empty_message k) f = 0" "m_s (empty_message k) f = []"
  "m_rpc (put_u f i m) = m_rpc m" "m_rpc (put_i f j m) = m_rpc m" "m_rpc (put_s f t m) = m_rpc m" "m_rpc (put_l f l m) = m_rpc m"
  "m_u (put_u f i m) f = i" "m_u (put_s f t m) g = m_u m g" "m_u (put_i f j m) g = m_u m g" "m_u (put_l f l m) g = m_u m g"
  "m_s (put_u f i m) g = m_s m g"
  by (simp_all add: empty_message_def put_u_def put_i_def put_s_def put_l_def)

text \<open>
  protojson and proto.Merge: a body read as a message of a kind (unknown fields dropped), the fields of
  one message laid over another, a reply written as JSON. \<^verbatim>\<open>codec_ok\<close> is what their documentation says
  of the fields used here: a message is read as the kind asked for, and merging keeps the target's
  scalars where the source has none.
\<close>

record ('n, 'r) codec =
  cd_unmarshal :: "rpc \<Rightarrow> string \<Rightarrow> 'n message res"
  cd_merge :: "'n message \<Rightarrow> 'n message \<Rightarrow> 'n message"
  cd_marshal :: "'r \<Rightarrow> string res"

definition codec_ok :: "('n, 'r) codec \<Rightarrow> bool" where
  "codec_ok D \<longleftrightarrow>
     (\<forall>k b m. cd_unmarshal D k b = Inr m \<longrightarrow> m_rpc m = k) \<and>
     (\<forall>d s. m_rpc s = m_rpc d \<longrightarrow> m_rpc (cd_merge D d s) = m_rpc d) \<and>
     (\<forall>d s f. m_u (cd_merge D d s) f = (if m_u s f = 0 then m_u d f else m_u s f)) \<and>
     (\<forall>d s f. m_s (cd_merge D d s) f = (if m_s s f = [] then m_s d f else m_s s f))"

section \<open>Binding the body\<close>

text \<open>Reading the body empties it; the request left over is returned with the message.\<close>

definition bindRequestBody ::
  "('n, 'r) codec \<Rightarrow> request \<Rightarrow> 'n message \<Rightarrow> 'n message res \<times> request" where
  "bindRequestBody D rq m =
    (if rq_method rq = ''GET'' \<or> rq_method rq = ''HEAD'' then (Inr m, rq)
     else case rq_body rq of
            Inl er \<Rightarrow> (Inl er, rq)
          | Inr b \<Rightarrow>
            (let rq1 = rq\<lparr>rq_body := Inr []\<rparr> in
             if trim_space b = [] then (Inr m, rq1)
             else case cd_unmarshal D (m_rpc m) b of Inl er \<Rightarrow> (Inl er, rq1) | Inr t \<Rightarrow> (Inr (cd_merge D m t), rq1)))"

section \<open>The call\<close>

text \<open>
  The generated client: given the context and the message it answers an error or a reply, and changes
  the state of the services.
\<close>

type_synonym ('n, 'r, 's) invoke = "ctx \<Rightarrow> 'n message \<Rightarrow> 's \<Rightarrow> (callerr + 'r) \<times> 's"

definition no_ctx :: ctx where "no_ctx = \<lparr>server_md = None, client_md = None\<rparr>"

definition callProto ::
  "('n, 'r) codec \<Rightarrow> ('n, 'r, 's) invoke \<Rightarrow> request \<Rightarrow> gctx \<Rightarrow> 'n message \<Rightarrow> 's \<Rightarrow> response \<times> 's" where
  "callProto D rpc_call rq c m s =
    (case bindRequestBody D rq m of
       (Inl er, rq1) \<Rightarrow> (Fail 400 400 msg_parse, s)
     | (Inr m1, rq1) \<Rightarrow>
       (case rpc_call (NewClientCtx no_ctx (Some (BuildRequestMeta rq1 c))) m1 s of
          (Inl er, s1) \<Rightarrow> (case MapGRPCError (Some er) of (hs, code, msg) \<Rightarrow> (Fail hs code msg, s1))
        | (Inr r, s1) \<Rightarrow>
          (case cd_marshal D r of Inl er \<Rightarrow> (Fail 500 500 msg_internal, s1) | Inr d \<Rightarrow> (OK (Some d), s1))))"

text \<open>
  The server receives the metadata that the client put into its context, as Kratos's metadata middlewares
  carry it.
\<close>

definition as_received :: "ctx \<Rightarrow> ctx" where
  "as_received c = \<lparr>server_md = client_md c, client_md = None\<rparr>"

section \<open>Binding path and query\<close>

type_synonym params = "string \<Rightarrow> string"

definition msg_path :: "string \<Rightarrow> string" where
  "msg_path n = bstr [232, 183, 175, 229, 190, 132, 229, 143, 130, 230, 149, 176, 32] @ n"
definition msg_query :: "string \<Rightarrow> string" where
  "msg_query n = bstr [230, 159, 165, 232, 175, 162, 229, 143, 130, 230, 149, 176, 32] @ n"
definition must_be_unsigned :: string where
  "must_be_unsigned = bstr [32, 229, 191, 133, 233, 161, 187, 228, 184, 186, 230, 151, 160, 231, 172, 166, 229, 143, 183, 230,
     149, 180, 230, 149, 176]"
definition must_be_integer :: string where
  "must_be_integer = bstr [32, 229, 191, 133, 233, 161, 187, 228, 184, 186, 230, 149, 180, 230, 149, 176]"

text \<open>\<^verbatim>\<open>strconv.ParseInt(s, 10, 32)\<close>.\<close>

definition parse_int32 :: "string \<Rightarrow> int option" where
  "parse_int32 s =
    (case parse_int64 s of None \<Rightarrow> None | Some v \<Rightarrow> if - (2 ^ 31) \<le> v \<and> v < 2 ^ 31 then Some v else None)"

definition BindPathString :: "params \<Rightarrow> string \<Rightarrow> string \<Rightarrow> string" where
  "BindPathString ps n dst = (if ps n \<noteq> [] then ps n else dst)"

definition BindPathUint64 :: "params \<Rightarrow> string \<Rightarrow> nat \<Rightarrow> response + nat" where
  "BindPathUint64 ps n dst =
    (if ps n = [] then Inr dst
     else case parse_uint64 (ps n) of (v, ok) \<Rightarrow> if ok then Inr v else Inl (Fail 400 400 (msg_path n @ must_be_unsigned)))"

definition BindPathInt64 :: "params \<Rightarrow> string \<Rightarrow> int \<Rightarrow> response + int" where
  "BindPathInt64 ps n dst =
    (if ps n = [] then Inr dst
     else case parse_int64 (ps n) of Some v \<Rightarrow> Inr v | None \<Rightarrow> Inl (Fail 400 400 (msg_path n @ must_be_integer)))"

definition BindPathInt32 :: "params \<Rightarrow> string \<Rightarrow> int \<Rightarrow> response + int" where
  "BindPathInt32 ps n dst =
    (if ps n = [] then Inr dst
     else case parse_int32 (ps n) of Some v \<Rightarrow> Inr v | None \<Rightarrow> Inl (Fail 400 400 (msg_path n @ must_be_integer)))"

text \<open>The first value of a query key, empty without one.\<close>

definition Query :: "request \<Rightarrow> string \<Rightarrow> string" where
  "Query rq n = (case rq_query rq n of [] \<Rightarrow> [] | v # _ \<Rightarrow> v)"

definition bindQueryString :: "request \<Rightarrow> string \<Rightarrow> string \<Rightarrow> string" where
  "bindQueryString rq n dst = (if Query rq n \<noteq> [] then Query rq n else dst)"

definition bindQueryUint64 :: "request \<Rightarrow> string \<Rightarrow> 'n message \<Rightarrow> response + 'n message" where
  "bindQueryUint64 rq n m =
    (if Query rq n = [] then Inr m
     else case parse_uint64 (Query rq n) of
            (v, ok) \<Rightarrow> if ok then Inr (put_u n v m) else Inl (Fail 400 400 (msg_query n @ must_be_unsigned)))"

definition bindQueryInt32 :: "request \<Rightarrow> string \<Rightarrow> 'n message \<Rightarrow> response + 'n message" where
  "bindQueryInt32 rq n m =
    (if Query rq n = [] then Inr m
     else case parse_int32 (Query rq n) of
            Some v \<Rightarrow> Inr (put_i n v m) | None \<Rightarrow> Inl (Fail 400 400 (msg_query n @ must_be_integer)))"

definition queryTags :: "request \<Rightarrow> string list" where
  "queryTags rq =
    concat (map (\<lambda>v. filter (\<lambda>p. p \<noteq> []) (map trim_space (split_on (CHR '','') v))) (rq_query rq ''tags''))"

text \<open>One binding after the other, up to the first that fails.\<close>

definition and_bind :: "response + 'n message \<Rightarrow> ('n message \<Rightarrow> response + 'n message) \<Rightarrow> response + 'n message" where
  "and_bind x f = (case x of Inl resp \<Rightarrow> Inl resp | Inr m \<Rightarrow> f m)"

definition bind_pages :: "request \<Rightarrow> 'n message \<Rightarrow> response + 'n message" where
  "bind_pages rq m = and_bind (bindQueryInt32 rq ''page'' m) (bindQueryInt32 rq ''page_size'')"

definition bindListQuery :: "request \<Rightarrow> 'n message \<Rightarrow> response + 'n message" where
  "bindListQuery rq m =
    (let m1 = put_l ''tags'' (queryTags rq)
          (put_s ''sort_order'' (Query rq ''sort_order'')
            (put_s ''sort_by'' (Query rq ''sort_by'') (put_s ''status'' (Query rq ''status'') m)))
     in and_bind (bindQueryUint64 rq ''category_id'' m1)
          (\<lambda>m2. and_bind (bindQueryUint64 rq ''author_id'' m2) (bind_pages rq)))"

definition bindSearchQuery :: "request \<Rightarrow> 'n message \<Rightarrow> response + 'n message" where
  "bindSearchQuery rq m = bind_pages rq (put_s ''keyword'' (Query rq ''keyword'') m)"

section \<open>Handlers\<close>

type_synonym 's handler = "request \<Rightarrow> params \<Rightarrow> gctx \<Rightarrow> 's \<Rightarrow> response \<times> 's"

subsection \<open>Accounts\<close>

definition authH_Register :: "('n, 'r) codec \<Rightarrow> ('n, 'r, 's) invoke \<Rightarrow> 's handler" where
  "authH_Register D rpc_call rq ps c s = callProto D rpc_call rq c (empty_message R_Register) s"

definition authH_Login :: "('n, 'r) codec \<Rightarrow> ('n, 'r, 's) invoke \<Rightarrow> 's handler" where
  "authH_Login D rpc_call rq ps c s = callProto D rpc_call rq c (empty_message R_Login) s"

definition authH_RefreshToken :: "('n, 'r) codec \<Rightarrow> ('n, 'r, 's) invoke \<Rightarrow> 's handler" where
  "authH_RefreshToken D rpc_call rq ps c s = callProto D rpc_call rq c (empty_message R_RefreshToken) s"

definition authH_Logout :: "('n, 'r) codec \<Rightarrow> ('n, 'r, 's) invoke \<Rightarrow> 's handler" where
  "authH_Logout D rpc_call rq ps c s = callProto D rpc_call rq c (empty_message R_Logout) s"

definition authH_GetProfile :: "('n, 'r) codec \<Rightarrow> ('n, 'r, 's) invoke \<Rightarrow> 's handler" where
  "authH_GetProfile D rpc_call rq ps c s = callProto D rpc_call rq c (empty_message R_GetProfile) s"

definition authH_UpdateProfile :: "('n, 'r) codec \<Rightarrow> ('n, 'r, 's) invoke \<Rightarrow> 's handler" where
  "authH_UpdateProfile D rpc_call rq ps c s = callProto D rpc_call rq c (empty_message R_UpdateProfile) s"

subsection \<open>Articles\<close>

definition articleH_ListArticles :: "('n, 'r) codec \<Rightarrow> ('n, 'r, 's) invoke \<Rightarrow> 's handler" where
  "articleH_ListArticles D rpc_call rq ps c s =
    (case bindListQuery rq (empty_message R_ListArticles) of Inl resp \<Rightarrow> (resp, s) | Inr m \<Rightarrow> callProto D rpc_call rq c m s)"

definition articleH_SearchArticles :: "('n, 'r) codec \<Rightarrow> ('n, 'r, 's) invoke \<Rightarrow> 's handler" where
  "articleH_SearchArticles D rpc_call rq ps c s =
    (case bindSearchQuery rq (empty_message R_SearchArticles) of Inl resp \<Rightarrow> (resp, s) | Inr m \<Rightarrow> callProto D rpc_call rq c m s)"

definition articleH_GetArticle :: "('n, 'r) codec \<Rightarrow> ('n, 'r, 's) invoke \<Rightarrow> 's handler" where
  "articleH_GetArticle D rpc_call rq ps c s =
    callProto D rpc_call rq c (put_s ''identifier'' (BindPathString ps ''identifier'' []) (empty_message R_GetArticle)) s"

definition articleH_CreateArticle :: "('n, 'r) codec \<Rightarrow> ('n, 'r, 's) invoke \<Rightarrow> 's handler" where
  "articleH_CreateArticle D rpc_call rq ps c s = callProto D rpc_call rq c (empty_message R_CreateArticle) s"

definition articleH_ViewArticle :: "('n, 'r) codec \<Rightarrow> ('n, 'r, 's) invoke \<Rightarrow> 's handler" where
  "articleH_ViewArticle D rpc_call rq ps c s =
    (case BindPathUint64 ps ''id'' 0 of
       Inl resp \<Rightarrow> (resp, s)
     | Inr i \<Rightarrow> callProto D rpc_call rq c (put_u ''id'' i (empty_message R_ViewArticle)) s)"

definition articleH_UpdateArticle :: "('n, 'r) codec \<Rightarrow> ('n, 'r, 's) invoke \<Rightarrow> 's handler" where
  "articleH_UpdateArticle D rpc_call rq ps c s =
    (case BindPathUint64 ps ''id'' 0 of
       Inl resp \<Rightarrow> (resp, s)
     | Inr i \<Rightarrow> callProto D rpc_call rq c (put_u ''id'' i (empty_message R_UpdateArticle)) s)"

definition articleH_DeleteArticle :: "('n, 'r) codec \<Rightarrow> ('n, 'r, 's) invoke \<Rightarrow> 's handler" where
  "articleH_DeleteArticle D rpc_call rq ps c s =
    (case BindPathUint64 ps ''id'' 0 of
       Inl resp \<Rightarrow> (resp, s)
     | Inr i \<Rightarrow> callProto D rpc_call rq c (put_u ''id'' i (empty_message R_DeleteArticle)) s)"

definition articleH_PublishArticle :: "('n, 'r) codec \<Rightarrow> ('n, 'r, 's) invoke \<Rightarrow> 's handler" where
  "articleH_PublishArticle D rpc_call rq ps c s =
    (case BindPathUint64 ps ''id'' 0 of
       Inl resp \<Rightarrow> (resp, s)
     | Inr i \<Rightarrow> callProto D rpc_call rq c (put_u ''id'' i (empty_message R_PublishArticle)) s)"

definition articleH_ArchiveArticle :: "('n, 'r) codec \<Rightarrow> ('n, 'r, 's) invoke \<Rightarrow> 's handler" where
  "articleH_ArchiveArticle D rpc_call rq ps c s =
    (case BindPathUint64 ps ''id'' 0 of
       Inl resp \<Rightarrow> (resp, s)
     | Inr i \<Rightarrow> callProto D rpc_call rq c (put_u ''id'' i (empty_message R_ArchiveArticle)) s)"

definition articleH_LikeArticle :: "('n, 'r) codec \<Rightarrow> ('n, 'r, 's) invoke \<Rightarrow> 's handler" where
  "articleH_LikeArticle D rpc_call rq ps c s =
    (case BindPathUint64 ps ''id'' 0 of
       Inl resp \<Rightarrow> (resp, s)
     | Inr i \<Rightarrow> callProto D rpc_call rq c (put_u ''id'' i (empty_message R_LikeArticle)) s)"

definition articleH_UnlikeArticle :: "('n, 'r) codec \<Rightarrow> ('n, 'r, 's) invoke \<Rightarrow> 's handler" where
  "articleH_UnlikeArticle D rpc_call rq ps c s =
    (case BindPathUint64 ps ''id'' 0 of
       Inl resp \<Rightarrow> (resp, s)
     | Inr i \<Rightarrow> callProto D rpc_call rq c (put_u ''id'' i (empty_message R_UnlikeArticle)) s)"

subsection \<open>Tags\<close>

definition tagH_ListTags :: "('n, 'r) codec \<Rightarrow> ('n, 'r, 's) invoke \<Rightarrow> 's handler" where
  "tagH_ListTags D rpc_call rq ps c s = callProto D rpc_call rq c (empty_message R_ListTags) s"

definition tagH_CreateTag :: "('n, 'r) codec \<Rightarrow> ('n, 'r, 's) invoke \<Rightarrow> 's handler" where
  "tagH_CreateTag D rpc_call rq ps c s = callProto D rpc_call rq c (empty_message R_CreateTag) s"

definition tagH_DeleteTag :: "('n, 'r) codec \<Rightarrow> ('n, 'r, 's) invoke \<Rightarrow> 's handler" where
  "tagH_DeleteTag D rpc_call rq ps c s =
    (case BindPathUint64 ps ''id'' 0 of
       Inl resp \<Rightarrow> (resp, s)
     | Inr i \<Rightarrow> callProto D rpc_call rq c (put_u ''id'' i (empty_message R_DeleteTag)) s)"

subsection \<open>Categories\<close>

definition categoryH_ListCategories :: "('n, 'r) codec \<Rightarrow> ('n, 'r, 's) invoke \<Rightarrow> 's handler" where
  "categoryH_ListCategories D rpc_call rq ps c s = callProto D rpc_call rq c (empty_message R_ListCategories) s"

definition categoryH_CreateCategory :: "('n, 'r) codec \<Rightarrow> ('n, 'r, 's) invoke \<Rightarrow> 's handler" where
  "categoryH_CreateCategory D rpc_call rq ps c s = callProto D rpc_call rq c (empty_message R_CreateCategory) s"

text \<open>The body first, then the path: here the path wins.\<close>

definition categoryH_UpdateCategory :: "('n, 'r) codec \<Rightarrow> ('n, 'r, 's) invoke \<Rightarrow> 's handler" where
  "categoryH_UpdateCategory D rpc_call rq ps c s =
    (case bindRequestBody D rq (empty_message R_UpdateCategory) of
       (Inl er, rq1) \<Rightarrow> (Fail 400 400 msg_parse, s)
     | (Inr m, rq1) \<Rightarrow>
       (case BindPathUint64 ps ''id'' (m_u m ''id'') of
          Inl resp \<Rightarrow> (resp, s)
        | Inr i \<Rightarrow> callProto D rpc_call rq1 c (put_u ''id'' i m) s))"

definition categoryH_DeleteCategory :: "('n, 'r) codec \<Rightarrow> ('n, 'r, 's) invoke \<Rightarrow> 's handler" where
  "categoryH_DeleteCategory D rpc_call rq ps c s =
    (case BindPathUint64 ps ''id'' 0 of
       Inl resp \<Rightarrow> (resp, s)
     | Inr i \<Rightarrow> callProto D rpc_call rq c (put_u ''id'' i (empty_message R_DeleteCategory)) s)"

subsection \<open>Files\<close>

definition fileH_UploadFile :: "('n, 'r) codec \<Rightarrow> ('n, 'r, 's) invoke \<Rightarrow> 's handler" where
  "fileH_UploadFile D rpc_call rq ps c s = callProto D rpc_call rq c (empty_message R_UploadFile) s"

definition fileH_ListFiles :: "('n, 'r) codec \<Rightarrow> ('n, 'r, 's) invoke \<Rightarrow> 's handler" where
  "fileH_ListFiles D rpc_call rq ps c s =
    (case bind_pages rq (empty_message R_ListFiles) of Inl resp \<Rightarrow> (resp, s) | Inr m \<Rightarrow> callProto D rpc_call rq c m s)"

definition fileH_GetPresignedPutURL :: "('n, 'r) codec \<Rightarrow> ('n, 'r, 's) invoke \<Rightarrow> 's handler" where
  "fileH_GetPresignedPutURL D rpc_call rq ps c s =
    callProto D rpc_call rq c
      (put_s ''mime_type'' (bindQueryString rq ''mime_type'' [])
        (put_s ''filename'' (bindQueryString rq ''filename'' []) (empty_message R_GetPresignedPutURL))) s"

definition fileH_GetFile :: "('n, 'r) codec \<Rightarrow> ('n, 'r, 's) invoke \<Rightarrow> 's handler" where
  "fileH_GetFile D rpc_call rq ps c s =
    (case BindPathUint64 ps ''id'' 0 of
       Inl resp \<Rightarrow> (resp, s)
     | Inr i \<Rightarrow> callProto D rpc_call rq c (put_u ''id'' i (empty_message R_GetFile)) s)"

definition fileH_DeleteFile :: "('n, 'r) codec \<Rightarrow> ('n, 'r, 's) invoke \<Rightarrow> 's handler" where
  "fileH_DeleteFile D rpc_call rq ps c s =
    (case BindPathUint64 ps ''id'' 0 of
       Inl resp \<Rightarrow> (resp, s)
     | Inr i \<Rightarrow> callProto D rpc_call rq c (put_u ''id'' i (empty_message R_DeleteFile)) s)"

definition fileH_CreatePresignedUpload :: "('n, 'r) codec \<Rightarrow> ('n, 'r, 's) invoke \<Rightarrow> 's handler" where
  "fileH_CreatePresignedUpload D rpc_call rq ps c s = callProto D rpc_call rq c (empty_message R_CreatePresignedUpload) s"

definition fileH_CompletePresignedUpload :: "('n, 'r) codec \<Rightarrow> ('n, 'r, 's) invoke \<Rightarrow> 's handler" where
  "fileH_CompletePresignedUpload D rpc_call rq ps c s = callProto D rpc_call rq c (empty_message R_CompletePresignedUpload) s"

subsection \<open>The site\<close>

definition siteH_GetSiteConfig :: "('n, 'r) codec \<Rightarrow> ('n, 'r, 's) invoke \<Rightarrow> 's handler" where
  "siteH_GetSiteConfig D rpc_call rq ps c s = callProto D rpc_call rq c (empty_message R_GetSiteConfig) s"

definition siteH_ListBackgrounds :: "('n, 'r) codec \<Rightarrow> ('n, 'r, 's) invoke \<Rightarrow> 's handler" where
  "siteH_ListBackgrounds D rpc_call rq ps c s = callProto D rpc_call rq c (empty_message R_ListBackgrounds) s"

definition siteH_GetMusicPlaylist :: "('n, 'r) codec \<Rightarrow> ('n, 'r, 's) invoke \<Rightarrow> 's handler" where
  "siteH_GetMusicPlaylist D rpc_call rq ps c s = callProto D rpc_call rq c (empty_message R_GetMusicPlaylist) s"

definition siteH_UpdateSiteConfig :: "('n, 'r) codec \<Rightarrow> ('n, 'r, 's) invoke \<Rightarrow> 's handler" where
  "siteH_UpdateSiteConfig D rpc_call rq ps c s = callProto D rpc_call rq c (empty_message R_UpdateSiteConfig) s"

definition siteH_UploadBackground :: "('n, 'r) codec \<Rightarrow> ('n, 'r, 's) invoke \<Rightarrow> 's handler" where
  "siteH_UploadBackground D rpc_call rq ps c s = callProto D rpc_call rq c (empty_message R_UploadBackground) s"

definition siteH_DeleteBackground :: "('n, 'r) codec \<Rightarrow> ('n, 'r, 's) invoke \<Rightarrow> 's handler" where
  "siteH_DeleteBackground D rpc_call rq ps c s =
    (case BindPathUint64 ps ''id'' 0 of
       Inl resp \<Rightarrow> (resp, s)
     | Inr i \<Rightarrow> callProto D rpc_call rq c (put_u ''id'' i (empty_message R_DeleteBackground)) s)"

definition siteH_SetActiveBackground :: "('n, 'r) codec \<Rightarrow> ('n, 'r, 's) invoke \<Rightarrow> 's handler" where
  "siteH_SetActiveBackground D rpc_call rq ps c s =
    (case BindPathUint64 ps ''id'' 0 of
       Inl resp \<Rightarrow> (resp, s)
     | Inr i \<Rightarrow> callProto D rpc_call rq c (put_u ''id'' i (empty_message R_SetActiveBackground)) s)"

definition siteH_UpdateMusicPlaylist :: "('n, 'r) codec \<Rightarrow> ('n, 'r, 's) invoke \<Rightarrow> 's handler" where
  "siteH_UpdateMusicPlaylist D rpc_call rq ps c s = callProto D rpc_call rq c (empty_message R_UpdateMusicPlaylist) s"

section \<open>The table of routes\<close>

definition apiV1BasePath :: string where "apiV1BasePath = ''/api/v1''"

datatype RouteClass = RouteClassPublic | RouteClassAuth | RouteClassAuthorOrAdmin | RouteClassAdmin

definition RouteClass_String :: "RouteClass \<Rightarrow> string" where
  "RouteClass_String c = (case c of
     RouteClassPublic \<Rightarrow> ''PUBLIC'' | RouteClassAuth \<Rightarrow> ''AUTH''
   | RouteClassAuthorOrAdmin \<Rightarrow> ''AUTHOR_OR_ADMIN'' | RouteClassAdmin \<Rightarrow> ''ADMIN'')"

record RouteRule =
  rr_Method :: string
  rr_Path :: string
  rr_Class :: RouteClass
  rr_Handler :: rpc

definition newRouteRules :: "RouteRule list" where
  "newRouteRules =
   [\<lparr>rr_Method = ''POST'', rr_Path = apiV1BasePath @ ''/auth/register'', rr_Class = RouteClassPublic, rr_Handler = R_Register\<rparr>,
    \<lparr>rr_Method = ''POST'', rr_Path = apiV1BasePath @ ''/auth/login'', rr_Class = RouteClassPublic, rr_Handler = R_Login\<rparr>,
    \<lparr>rr_Method = ''POST'', rr_Path = apiV1BasePath @ ''/auth/refresh'', rr_Class = RouteClassPublic, rr_Handler = R_RefreshToken\<rparr>,
    \<lparr>rr_Method = ''GET'', rr_Path = apiV1BasePath @ ''/articles'', rr_Class = RouteClassPublic, rr_Handler = R_ListArticles\<rparr>,
    \<lparr>rr_Method = ''GET'', rr_Path = apiV1BasePath @ ''/articles/search'', rr_Class = RouteClassPublic, rr_Handler = R_SearchArticles\<rparr>,
    \<lparr>rr_Method = ''GET'', rr_Path = apiV1BasePath @ ''/articles/{identifier}'', rr_Class = RouteClassPublic, rr_Handler = R_GetArticle\<rparr>,
    \<lparr>rr_Method = ''GET'', rr_Path = apiV1BasePath @ ''/tags'', rr_Class = RouteClassPublic, rr_Handler = R_ListTags\<rparr>,
    \<lparr>rr_Method = ''GET'', rr_Path = apiV1BasePath @ ''/categories'', rr_Class = RouteClassPublic, rr_Handler = R_ListCategories\<rparr>,
    \<lparr>rr_Method = ''GET'', rr_Path = apiV1BasePath @ ''/site/config'', rr_Class = RouteClassPublic, rr_Handler = R_GetSiteConfig\<rparr>,
    \<lparr>rr_Method = ''GET'', rr_Path = apiV1BasePath @ ''/site/backgrounds'', rr_Class = RouteClassPublic, rr_Handler = R_ListBackgrounds\<rparr>,
    \<lparr>rr_Method = ''GET'', rr_Path = apiV1BasePath @ ''/site/music/playlist'', rr_Class = RouteClassPublic, rr_Handler = R_GetMusicPlaylist\<rparr>,
    \<lparr>rr_Method = ''POST'', rr_Path = apiV1BasePath @ ''/auth/logout'', rr_Class = RouteClassPublic, rr_Handler = R_Logout\<rparr>,
    \<lparr>rr_Method = ''GET'', rr_Path = apiV1BasePath @ ''/users/me'', rr_Class = RouteClassAuth, rr_Handler = R_GetProfile\<rparr>,
    \<lparr>rr_Method = ''PUT'', rr_Path = apiV1BasePath @ ''/users/me'', rr_Class = RouteClassAuth, rr_Handler = R_UpdateProfile\<rparr>,
    \<lparr>rr_Method = ''POST'', rr_Path = apiV1BasePath @ ''/articles'', rr_Class = RouteClassAuth, rr_Handler = R_CreateArticle\<rparr>,
    \<lparr>rr_Method = ''POST'', rr_Path = apiV1BasePath @ ''/articles/{id}/view'', rr_Class = RouteClassAuth, rr_Handler = R_ViewArticle\<rparr>,
    \<lparr>rr_Method = ''PUT'', rr_Path = apiV1BasePath @ ''/articles/{id}'', rr_Class = RouteClassAuth, rr_Handler = R_UpdateArticle\<rparr>,
    \<lparr>rr_Method = ''DELETE'', rr_Path = apiV1BasePath @ ''/articles/{id}'', rr_Class = RouteClassAuth, rr_Handler = R_DeleteArticle\<rparr>,
    \<lparr>rr_Method = ''POST'', rr_Path = apiV1BasePath @ ''/articles/{id}/publish'', rr_Class = RouteClassAuth, rr_Handler = R_PublishArticle\<rparr>,
    \<lparr>rr_Method = ''POST'', rr_Path = apiV1BasePath @ ''/articles/{id}/archive'', rr_Class = RouteClassAuth, rr_Handler = R_ArchiveArticle\<rparr>,
    \<lparr>rr_Method = ''POST'', rr_Path = apiV1BasePath @ ''/articles/{id}/like'', rr_Class = RouteClassAuth, rr_Handler = R_LikeArticle\<rparr>,
    \<lparr>rr_Method = ''DELETE'', rr_Path = apiV1BasePath @ ''/articles/{id}/like'', rr_Class = RouteClassAuth, rr_Handler = R_UnlikeArticle\<rparr>,
    \<lparr>rr_Method = ''POST'', rr_Path = apiV1BasePath @ ''/files/upload'', rr_Class = RouteClassAuth, rr_Handler = R_UploadFile\<rparr>,
    \<lparr>rr_Method = ''GET'', rr_Path = apiV1BasePath @ ''/files'', rr_Class = RouteClassAuth, rr_Handler = R_ListFiles\<rparr>,
    \<lparr>rr_Method = ''GET'', rr_Path = apiV1BasePath @ ''/files/presigned-upload'', rr_Class = RouteClassAuth, rr_Handler = R_GetPresignedPutURL\<rparr>,
    \<lparr>rr_Method = ''GET'', rr_Path = apiV1BasePath @ ''/files/{id}'', rr_Class = RouteClassAuth, rr_Handler = R_GetFile\<rparr>,
    \<lparr>rr_Method = ''DELETE'', rr_Path = apiV1BasePath @ ''/files/{id}'', rr_Class = RouteClassAuth, rr_Handler = R_DeleteFile\<rparr>,
    \<lparr>rr_Method = ''POST'', rr_Path = apiV1BasePath @ ''/files/presigned-uploads'', rr_Class = RouteClassAuth, rr_Handler = R_CreatePresignedUpload\<rparr>,
    \<lparr>rr_Method = ''POST'', rr_Path = apiV1BasePath @ ''/files/presigned-uploads/complete'', rr_Class = RouteClassAuth, rr_Handler = R_CompletePresignedUpload\<rparr>,
    \<lparr>rr_Method = ''POST'', rr_Path = apiV1BasePath @ ''/tags'', rr_Class = RouteClassAdmin, rr_Handler = R_CreateTag\<rparr>,
    \<lparr>rr_Method = ''DELETE'', rr_Path = apiV1BasePath @ ''/tags/{id}'', rr_Class = RouteClassAdmin, rr_Handler = R_DeleteTag\<rparr>,
    \<lparr>rr_Method = ''POST'', rr_Path = apiV1BasePath @ ''/categories'', rr_Class = RouteClassAdmin, rr_Handler = R_CreateCategory\<rparr>,
    \<lparr>rr_Method = ''PUT'', rr_Path = apiV1BasePath @ ''/categories/{id}'', rr_Class = RouteClassAdmin, rr_Handler = R_UpdateCategory\<rparr>,
    \<lparr>rr_Method = ''DELETE'', rr_Path = apiV1BasePath @ ''/categories/{id}'', rr_Class = RouteClassAdmin, rr_Handler = R_DeleteCategory\<rparr>,
    \<lparr>rr_Method = ''PUT'', rr_Path = apiV1BasePath @ ''/site/config'', rr_Class = RouteClassAdmin, rr_Handler = R_UpdateSiteConfig\<rparr>,
    \<lparr>rr_Method = ''POST'', rr_Path = apiV1BasePath @ ''/site/backgrounds'', rr_Class = RouteClassAdmin, rr_Handler = R_UploadBackground\<rparr>,
    \<lparr>rr_Method = ''DELETE'', rr_Path = apiV1BasePath @ ''/site/backgrounds/{id}'', rr_Class = RouteClassAdmin, rr_Handler = R_DeleteBackground\<rparr>,
    \<lparr>rr_Method = ''PUT'', rr_Path = apiV1BasePath @ ''/site/backgrounds/{id}/active'', rr_Class = RouteClassAdmin, rr_Handler = R_SetActiveBackground\<rparr>,
    \<lparr>rr_Method = ''PUT'', rr_Path = apiV1BasePath @ ''/site/music/playlist'', rr_Class = RouteClassAdmin, rr_Handler = R_UpdateMusicPlaylist\<rparr>]"

definition handler_of :: "('n, 'r) codec \<Rightarrow> ('n, 'r, 's) invoke \<Rightarrow> rpc \<Rightarrow> 's handler" where
  "handler_of D rpc_call k = (case k of
     R_Register \<Rightarrow> authH_Register D rpc_call
   | R_Login \<Rightarrow> authH_Login D rpc_call
   | R_RefreshToken \<Rightarrow> authH_RefreshToken D rpc_call
   | R_Logout \<Rightarrow> authH_Logout D rpc_call
   | R_GetProfile \<Rightarrow> authH_GetProfile D rpc_call
   | R_UpdateProfile \<Rightarrow> authH_UpdateProfile D rpc_call
   | R_ListArticles \<Rightarrow> articleH_ListArticles D rpc_call
   | R_SearchArticles \<Rightarrow> articleH_SearchArticles D rpc_call
   | R_GetArticle \<Rightarrow> articleH_GetArticle D rpc_call
   | R_CreateArticle \<Rightarrow> articleH_CreateArticle D rpc_call
   | R_ViewArticle \<Rightarrow> articleH_ViewArticle D rpc_call
   | R_UpdateArticle \<Rightarrow> articleH_UpdateArticle D rpc_call
   | R_DeleteArticle \<Rightarrow> articleH_DeleteArticle D rpc_call
   | R_PublishArticle \<Rightarrow> articleH_PublishArticle D rpc_call
   | R_ArchiveArticle \<Rightarrow> articleH_ArchiveArticle D rpc_call
   | R_LikeArticle \<Rightarrow> articleH_LikeArticle D rpc_call
   | R_UnlikeArticle \<Rightarrow> articleH_UnlikeArticle D rpc_call
   | R_ListTags \<Rightarrow> tagH_ListTags D rpc_call
   | R_CreateTag \<Rightarrow> tagH_CreateTag D rpc_call
   | R_DeleteTag \<Rightarrow> tagH_DeleteTag D rpc_call
   | R_ListCategories \<Rightarrow> categoryH_ListCategories D rpc_call
   | R_CreateCategory \<Rightarrow> categoryH_CreateCategory D rpc_call
   | R_UpdateCategory \<Rightarrow> categoryH_UpdateCategory D rpc_call
   | R_DeleteCategory \<Rightarrow> categoryH_DeleteCategory D rpc_call
   | R_UploadFile \<Rightarrow> fileH_UploadFile D rpc_call
   | R_ListFiles \<Rightarrow> fileH_ListFiles D rpc_call
   | R_GetPresignedPutURL \<Rightarrow> fileH_GetPresignedPutURL D rpc_call
   | R_GetFile \<Rightarrow> fileH_GetFile D rpc_call
   | R_DeleteFile \<Rightarrow> fileH_DeleteFile D rpc_call
   | R_CreatePresignedUpload \<Rightarrow> fileH_CreatePresignedUpload D rpc_call
   | R_CompletePresignedUpload \<Rightarrow> fileH_CompletePresignedUpload D rpc_call
   | R_GetSiteConfig \<Rightarrow> siteH_GetSiteConfig D rpc_call
   | R_ListBackgrounds \<Rightarrow> siteH_ListBackgrounds D rpc_call
   | R_GetMusicPlaylist \<Rightarrow> siteH_GetMusicPlaylist D rpc_call
   | R_UpdateSiteConfig \<Rightarrow> siteH_UpdateSiteConfig D rpc_call
   | R_UploadBackground \<Rightarrow> siteH_UploadBackground D rpc_call
   | R_DeleteBackground \<Rightarrow> siteH_DeleteBackground D rpc_call
   | R_SetActiveBackground \<Rightarrow> siteH_SetActiveBackground D rpc_call
   | R_UpdateMusicPlaylist \<Rightarrow> siteH_UpdateMusicPlaylist D rpc_call)"

text \<open>The chain of a class, in the order of its middlewares.\<close>

definition and_then :: "response + gctx \<Rightarrow> (gctx \<Rightarrow> response + gctx) \<Rightarrow> response + gctx" where
  "and_then x f = (case x of Inl resp \<Rightarrow> Inl resp | Inr c \<Rightarrow> f c)"

definition classMiddleWires ::
  "(bool \<Rightarrow> request \<Rightarrow> gctx \<Rightarrow> response + gctx) \<Rightarrow> RouteClass \<Rightarrow> request \<Rightarrow> gctx \<Rightarrow> response + gctx" where
  "classMiddleWires AuthMiddleWire class rq c = (case class of
     RouteClassPublic \<Rightarrow> AuthMiddleWire True rq c
   | RouteClassAuth \<Rightarrow> AuthMiddleWire False rq c
   | RouteClassAuthorOrAdmin \<Rightarrow> and_then (AuthMiddleWire False rq c) (RequireRole [''author'', ''admin''])
   | RouteClassAdmin \<Rightarrow> and_then (AuthMiddleWire False rq c) (RequireRole [''admin'']))"

definition toGinPath :: "string \<Rightarrow> string" where
  "toGinPath p = map (\<lambda>c. if c = CHR ''{'' then CHR '':'' else c) (filter (\<lambda>c. c \<noteq> CHR ''}'') p)"

section \<open>The engine\<close>

datatype endpoint = Api RouteClass rpc | Healthz | Readyz | Metrics

record registered =
  rg_method :: string
  rg_path :: string
  rg_end :: endpoint

definition register_rule :: "RouteRule \<Rightarrow> registered" where
  "register_rule r = \<lparr>rg_method = rr_Method r, rg_path = apiV1BasePath @ toGinPath (trim_prefix (rr_Path r) apiV1BasePath),
     rg_end = Api (rr_Class r) (rr_Handler r)\<rparr>"

text \<open>\<^verbatim>\<open>metrics\<close> says whether there is a metrics handler.\<close>

definition RegisterRouter :: "bool \<Rightarrow> registered list" where
  "RegisterRouter metrics =
    map register_rule newRouteRules @
    [\<lparr>rg_method = ''GET'', rg_path = ''/healthz'', rg_end = Healthz\<rparr>,
     \<lparr>rg_method = ''GET'', rg_path = ''/readyz'', rg_end = Readyz\<rparr>] @
    (if metrics then [\<lparr>rg_method = ''GET'', rg_path = ''/metrics'', rg_end = Metrics\<rparr>] else [])"

text \<open>
  gin's router: the route of a request with its parameters, a redirect that gin answers itself, no
  route, or a route of another method only. What it promises: a route it finds is a registered one of the
  request's method.
\<close>

datatype route_match = Hit registered params | Redirect nat | NoRoute | NoMethod

definition gin_ok :: "(registered list \<Rightarrow> string \<Rightarrow> string \<Rightarrow> route_match) \<Rightarrow> bool" where
  "gin_ok gin \<longleftrightarrow> (\<forall>gs m p g ps. gin gs m p = Hit g ps \<longrightarrow> g \<in> set gs \<and> rg_method g = m)"

text \<open>What the gateway is built with; \<^verbatim>\<open>gw_kv\<close> is the Redis that its blacklist reads.\<close>

record ('n, 'r, 's, 'lim, 'o) gateway =
  gw_codec :: "('n, 'r) codec"
  gw_lib :: jwtlib
  gw_jwt :: JwtConfig
  gw_blacklist :: bool
  gw_kv :: "'s \<Rightarrow> 'o rstore"
  gw_origins :: "string list"
  gw_rps :: int
  gw_rate :: "'lim ratelib"
  gw_gin :: "registered list \<Rightarrow> string \<Rightarrow> string \<Rightarrow> route_match"
  gw_metrics :: "string option"

definition auth_wire ::
  "('n, 'r, 's, 'lim, 'o) gateway \<Rightarrow> env \<Rightarrow> 's \<Rightarrow> bool \<Rightarrow> request \<Rightarrow> gctx \<Rightarrow> response + gctx" where
  "auth_wire G e s =
    NewJWTAuth (ParseAccessToken (gw_lib G) (gw_jwt G) (e_now e))
      (if gw_blacklist G then Some (\<lambda>t. IsTokenBlackListed e True t (gw_kv G s)) else None)"

text \<open>A redirect leaves before the middlewares.\<close>

definition redirected :: "nat \<Rightarrow> response" where
  "redirected st = \<lparr>rs_status = st, rs_code = 0, rs_msg = [], rs_data = None\<rparr>"

definition serve_endpoint ::
  "('n, 'r, 's, 'lim, 'o) gateway \<Rightarrow> env \<Rightarrow> ('n, 'r, 's) invoke \<Rightarrow> request \<Rightarrow> gctx \<Rightarrow> route_match \<Rightarrow> 's \<Rightarrow>
    response \<times> 's" where
  "serve_endpoint G e rpc_call rq c hit s =
    (case hit of
       Redirect st \<Rightarrow> (redirected st, s)
     | NoRoute \<Rightarrow> (Fail 404 404 msg_no_route, s)
     | NoMethod \<Rightarrow> (Fail 405 405 msg_no_method, s)
     | Hit g ps \<Rightarrow>
       (case rg_end g of
          Healthz \<Rightarrow> (OK None, s)
        | Readyz \<Rightarrow> (OK None, s)
        | Metrics \<Rightarrow> (OK (gw_metrics G), s)
        | Api class k \<Rightarrow>
          (case classMiddleWires (auth_wire G e s) class rq c of
             Inl resp \<Rightarrow> (resp, s)
           | Inr c1 \<Rightarrow> handler_of (gw_codec G) rpc_call k rq ps c1 s)))"

definition serve_http ::
  "('n, 'r, 's, 'lim, 'o) gateway \<Rightarrow> env \<Rightarrow> string option \<Rightarrow> ('n, 'r, 's) invoke \<Rightarrow> request \<Rightarrow>
    'lim ipRateLimiter \<times> 's \<Rightarrow> (response \<times> headers) \<times> 'lim ipRateLimiter \<times> 's" where
  "serve_http G e suffix rpc_call rq st =
    (case gw_gin G (RegisterRouter (gw_metrics G \<noteq> None)) (rq_method rq) (rq_path rq) of
       Redirect code \<Rightarrow> ((redirected code, []), st)
     | hit \<Rightarrow>
       (case CORS (gw_origins G) rq (AddMetaData (e_now e) suffix gctx0) of
          Inl (resp, c) \<Rightarrow> ((resp, g_headers c), st)
        | Inr c \<Rightarrow>
          (case (if 0 < gw_rps G then rate_limit (gw_rate G) (e_now e) rq (fst st) else (None, fst st)) of
             (Some resp, rl) \<Rightarrow> ((resp, g_headers c), rl, snd st)
           | (None, rl) \<Rightarrow>
             (case serve_endpoint G e rpc_call rq c hit (snd st) of (resp, s1) \<Rightarrow> ((resp, g_headers c), rl, s1)))))"

end
