(* ===== verification/System.thy ===== *)
theory System
  imports GatewayRoutes BlogService AuthUse
begin

text \<open>
  The whole system: the services behind the gateway (the dispatch of the generated gRPC servers over the
  handlers of app/auth and app/blog), the state of all of them, and the steps of the system: a request
  through the gateway, and what an operator does to the accounts.
\<close>

section \<open>The services behind the gateway\<close>

record world =
  w_auth :: authst
  w_blog :: blog
  w_files :: filest
  w_site :: sitest

datatype nested = ConfigMsg SiteConfigMsg | PlaylistMsg MusicPlaylist

definition nested_config :: "nested option \<Rightarrow> SiteConfigMsg option" where
  "nested_config x = (case x of Some (ConfigMsg c) \<Rightarrow> Some c | _ \<Rightarrow> None)"

definition nested_playlist :: "nested option \<Rightarrow> MusicPlaylist option" where
  "nested_playlist x = (case x of Some (PlaylistMsg p) \<Rightarrow> Some p | _ \<Rightarrow> None)"

datatype reply_msg =
  AccountReply UserInfo TokenReply | UserReply UserInfo | EmptyReply | ArticleReply ArticleInfo |
  ArticlesReply "ArticleInfo list" nat | ViewReply bool | TagReply TagInfo | TagsReply "TagInfo list" |
  CategoryReply CategoryInfo | CategoriesReply "CategoryInfo list" | FileReply FileInfo | FilesReply "FileInfo list" nat |
  UrlReply string string | ConfigReply SiteConfigMsg | BackgroundReply BackgroundMsg | BackgroundsReply "BackgroundMsg list" |
  PlaylistReply "MusicPlaylist option"

text \<open>
  What a call draws or asks of code outside: the ids of new tokens and keys of new objects, the format of
  times and days, the signing of URLs, the orders and the text search of the database.
\<close>

record outside =
  x_env :: env
  x_jtis :: "string \<times> string"
  x_key :: string
  x_uid :: string
  x_rfc :: "int \<Rightarrow> string"
  x_day :: "int \<Rightarrow> string"
  x_presign :: "string \<Rightarrow> string \<Rightarrow> int \<Rightarrow> string res"
  x_article_order :: "string \<Rightarrow> ArticlePO list \<Rightarrow> ArticlePO list"
  x_file_order :: "FilePO list \<Rightarrow> FilePO list"
  x_like :: "string \<Rightarrow> string \<Rightarrow> bool"

text \<open>
  The error of a handler as the client sees it: Kratos gives its codes the gRPC codes of the HTTP
  statuses, also when they are wrapped; any other error is Unknown with its text.
\<close>

definition ToGRPCCode :: "nat \<Rightarrow> code" where
  "ToGRPCCode c =
    (if c = 200 then OKCode else if c = 400 then InvalidArgument else if c = 401 then Unauthenticated
     else if c = 403 then PermissionDenied else if c = 404 then NotFoundCode else if c = 409 then Aborted
     else if c = 429 then ResourceExhausted else if c = 500 then Internal else if c = 501 then Unimplemented
     else if c = 503 then Unavailable else if c = 504 then DeadlineExceeded else if c = 499 then Canceled else Unknown)"

primrec grpc_of :: "err \<Rightarrow> code" where
  "grpc_of (Kratos c r) = ToGRPCCode c"
| "grpc_of (Wrap m e) = grpc_of e"
| "grpc_of (Opaque m) = Unknown"

definition wire_ok :: "(err \<Rightarrow> callerr) \<Rightarrow> bool" where
  "wire_ok wire \<longleftrightarrow> (\<forall>er. \<exists>ke m. wire er = GrpcStatus (grpc_of er) ke m)"

definition answer :: "(err \<Rightarrow> callerr) \<Rightarrow> ('a \<Rightarrow> reply_msg) \<Rightarrow> 'a res \<Rightarrow> callerr + reply_msg" where
  "answer wire f r = (case r of Inl er \<Rightarrow> Inl (wire er) | Inr x \<Rightarrow> Inr (f x))"

definition finished :: "(err \<Rightarrow> callerr) \<Rightarrow> err option \<Rightarrow> callerr + reply_msg" where
  "finished wire r = (case r of None \<Rightarrow> Inr EmptyReply | Some er \<Rightarrow> Inl (wire er))"

definition with_auth :: "world \<Rightarrow> ('a \<Rightarrow> callerr + reply_msg) \<Rightarrow> 'a \<times> authst \<Rightarrow> (callerr + reply_msg) \<times> world" where
  "with_auth w f r = (f (fst r), w\<lparr>w_auth := snd r\<rparr>)"

definition with_blog :: "world \<Rightarrow> ('a \<Rightarrow> callerr + reply_msg) \<Rightarrow> 'a \<times> blog \<Rightarrow> (callerr + reply_msg) \<times> world" where
  "with_blog w f r = (f (fst r), w\<lparr>w_blog := snd r\<rparr>)"

definition with_files :: "world \<Rightarrow> ('a \<Rightarrow> callerr + reply_msg) \<Rightarrow> 'a \<times> filest \<Rightarrow> (callerr + reply_msg) \<times> world" where
  "with_files w f r = (f (fst r), w\<lparr>w_files := snd r\<rparr>)"

definition with_site :: "world \<Rightarrow> ('a \<Rightarrow> callerr + reply_msg) \<Rightarrow> 'a \<times> sitest \<Rightarrow> (callerr + reply_msg) \<times> world" where
  "with_site w f r = (f (fst r), w\<lparr>w_site := snd r\<rparr>)"

section \<open>Requests as messages\<close>

definition create_article_msg :: "nested message \<Rightarrow> CreateArticleRequest" where
  "create_article_msg m = \<lparr>cr_Title = m_s m ''title'', cr_Content = m_s m ''content'', cr_Excerpt = m_s m ''excerpt'',
     cr_CoverImage = m_s m ''cover_image'', cr_CategoryId = m_u m ''category_id'', cr_TagNames = m_l m ''tag_names'',
     cr_Status = m_s m ''status''\<rparr>"

definition update_article_msg :: "nested message \<Rightarrow> UpdateArticleRequest" where
  "update_article_msg m = \<lparr>ur_Id = m_u m ''id'', ur_Title = m_s m ''title'', ur_Content = m_s m ''content'',
     ur_Excerpt = m_s m ''excerpt'', ur_CoverImage = m_s m ''cover_image'', ur_CategoryId = m_u m ''category_id'',
     ur_TagNames = m_l m ''tag_names''\<rparr>"

definition list_articles_msg :: "nested message \<Rightarrow> ListArticlesRequest" where
  "list_articles_msg m = \<lparr>lr_Status = m_s m ''status'', lr_CategoryId = m_u m ''category_id'', lr_Tags = m_l m ''tags'',
     lr_AuthorId = m_u m ''author_id'', lr_SortBy = m_s m ''sort_by'', lr_SortOrder = m_s m ''sort_order'',
     lr_Page = m_i m ''page'', lr_PageSize = m_i m ''page_size''\<rparr>"

section \<open>The dispatch\<close>

text \<open>
  The call of a client lands in the handler of its name. The gateway sends no Authorization header with a
  call, so that header reads as empty and the access token comes from the metadata.
\<close>

definition serve_auth ::
  "authcfg \<Rightarrow> (err \<Rightarrow> callerr) \<Rightarrow> outside \<Rightarrow> ctx \<Rightarrow> nested message \<Rightarrow> world \<Rightarrow> (callerr + reply_msg) \<times> world" where
  "serve_auth A wire x c m w =
    (let acc = answer wire (\<lambda>p. AccountReply (fst p) (snd p)) in
     case m_rpc m of
       R_Register \<Rightarrow> with_auth w acc (svc_Register A (x_rfc x) (x_env x) (x_jtis x) (m_s m ''username'') (m_s m ''email'')
         (m_s m ''password'') (w_auth w))
     | R_Login \<Rightarrow> (acc (svc_Login A (x_rfc x) (x_env x) (x_jtis x) (m_s m ''account'') (m_s m ''password'') (w_auth w)), w)
     | R_RefreshToken \<Rightarrow> with_auth w acc (svc_RefreshToken A (x_rfc x) (x_env x) (x_jtis x) (m_s m ''refresh_token'') (w_auth w))
     | R_Logout \<Rightarrow> with_auth w (finished wire) (svc_Logout A (x_env x) (Some []) c (m_s m ''refresh_token'') (w_auth w))
     | R_GetProfile \<Rightarrow> with_auth w (answer wire UserReply) (svc_GetProfile (x_rfc x) (x_env x) c (w_auth w))
     | _ \<Rightarrow> with_auth w (answer wire UserReply)
         (svc_UpdateProfile (x_rfc x) (x_env x) c (m_s m ''avatar'') (m_s m ''bio'') (w_auth w)))"

definition serve_blog ::
  "(err \<Rightarrow> callerr) \<Rightarrow> outside \<Rightarrow> ctx \<Rightarrow> nested message \<Rightarrow> world \<Rightarrow> (callerr + reply_msg) \<times> world" where
  "serve_blog wire x c m w =
    (let e = x_env x; rfc = x_rfc x; b = w_blog w; i = m_u m ''id''; art = answer wire ArticleReply;
         arts = answer wire (\<lambda>p. ArticlesReply (fst p) (snd p)) in
     case m_rpc m of
       R_CreateArticle \<Rightarrow> with_blog w art (svc_CreateArticle rfc e c (create_article_msg m) b)
     | R_UpdateArticle \<Rightarrow> with_blog w art (svc_UpdateArticle rfc e c (update_article_msg m) b)
     | R_DeleteArticle \<Rightarrow> with_blog w (finished wire) (svc_DeleteArticle e c i b)
     | R_GetArticle \<Rightarrow> with_blog w art (svc_GetArticle rfc e c (m_s m ''identifier'') b)
     | R_ListArticles \<Rightarrow> (arts (svc_ListArticles rfc e (x_article_order x) c (list_articles_msg m) b), w)
     | R_SearchArticles \<Rightarrow>
         (arts (svc_SearchArticles rfc e (x_article_order x) (x_like x) (m_s m ''keyword'') (m_i m ''page'') (m_i m ''page_size'') b), w)
     | R_PublishArticle \<Rightarrow> with_blog w art (svc_PublishArticle rfc e c i b)
     | R_ArchiveArticle \<Rightarrow> with_blog w art (svc_ArchiveArticle rfc e c i b)
     | R_LikeArticle \<Rightarrow>
         (case svc_LikeArticle e c i (b, w_site w) of (r, b1, s1) \<Rightarrow> (finished wire r, w\<lparr>w_blog := b1, w_site := s1\<rparr>))
     | R_UnlikeArticle \<Rightarrow> with_blog w (finished wire) (svc_UnlikeArticle e c i b)
     | R_ViewArticle \<Rightarrow> with_blog w (answer wire ViewReply) (svc_ViewArticle e (Some (\<lambda>_. [])) c i b)
     | R_CreateTag \<Rightarrow> with_blog w (answer wire TagReply) (svc_CreateTag e c (m_s m ''name'') b)
     | R_ListTags \<Rightarrow> with_blog w (answer wire TagsReply) (svc_ListTags e b)
     | R_DeleteTag \<Rightarrow> with_blog w (finished wire) (svc_DeleteTag e c i b)
     | R_CreateCategory \<Rightarrow> with_blog w (answer wire CategoryReply)
         (svc_CreateCategory e c (m_s m ''name'') (m_s m ''slug'') (m_s m ''description'') (m_u m ''parent_id'') (m_i m ''sort_order'') b)
     | R_ListCategories \<Rightarrow> with_blog w (answer wire CategoriesReply) (svc_ListCategories e b)
     | R_UpdateCategory \<Rightarrow> with_blog w (answer wire CategoryReply)
         (svc_UpdateCategory e c i (m_s m ''name'') (m_s m ''slug'') (m_s m ''description'') (m_u m ''parent_id'') (m_i m ''sort_order'') b)
     | _ \<Rightarrow> with_blog w (finished wire) (svc_DeleteCategory e c i b))"

definition serve_files ::
  "(err \<Rightarrow> callerr) \<Rightarrow> outside \<Rightarrow> ctx \<Rightarrow> nested message \<Rightarrow> world \<Rightarrow> (callerr + reply_msg) \<times> world" where
  "serve_files wire x c m w =
    (let e = x_env x; rfc = x_rfc x; s = w_files w; i = m_u m ''id''; fn = m_s m ''filename''; mime = m_s m ''mime_type'';
         url = answer wire (\<lambda>p. UrlReply (fst p) (snd p)) in
     case m_rpc m of
       R_UploadFile \<Rightarrow> with_files w (answer wire FileReply) (svc_UploadFile rfc e (x_key x) c fn mime (m_s m ''content'') s)
     | R_GetFile \<Rightarrow> (answer wire FileReply (svc_GetFile rfc e c i s), w)
     | R_DeleteFile \<Rightarrow> with_files w (finished wire) (svc_DeleteFile e c i s)
     | R_ListFiles \<Rightarrow> (answer wire (\<lambda>p. FilesReply (fst p) (snd p))
         (svc_ListFiles rfc e (x_file_order x) c (m_i m ''page'') (m_i m ''page_size'') s), w)
     | R_GetPresignedPutURL \<Rightarrow> (url (GetPresignedPutURL e (x_presign x) c fn mime), w)
     | R_CreatePresignedUpload \<Rightarrow>
         (url (CreatePresignedUpload e (x_presign x) (x_day x) (x_uid x) c fn mime (m_i m ''size'')), w)
     | _ \<Rightarrow> with_files w (answer wire FileReply) (svc_CompletePresignedUpload rfc e c (m_s m ''object_key'') fn mime s))"

definition serve_site ::
  "(err \<Rightarrow> callerr) \<Rightarrow> outside \<Rightarrow> ctx \<Rightarrow> nested message \<Rightarrow> world \<Rightarrow> (callerr + reply_msg) \<times> world" where
  "serve_site wire x c m w =
    (let e = x_env x; rfc = x_rfc x; s = w_site w; i = m_u m ''id'' in
     case m_rpc m of
       R_GetSiteConfig \<Rightarrow> with_site w (answer wire ConfigReply) (svc_GetSiteConfig e s)
     | R_UpdateSiteConfig \<Rightarrow> with_site w (answer wire ConfigReply) (svc_UpdateSiteConfig e c (nested_config (m_sub m)) s)
     | R_ListBackgrounds \<Rightarrow> with_site w (answer wire BackgroundsReply) (svc_ListBackgrounds rfc e s)
     | R_UploadBackground \<Rightarrow> with_site w (answer wire BackgroundReply)
         (svc_UploadBackground rfc e (x_key x) c (m_s m ''filename'') (m_s m ''content'') s)
     | R_DeleteBackground \<Rightarrow> with_site w (finished wire) (svc_DeleteBackground e c i s)
     | R_SetActiveBackground \<Rightarrow> with_site w (finished wire) (svc_SetActiveBackground e c i s)
     | R_GetMusicPlaylist \<Rightarrow> with_site w (answer wire PlaylistReply) (svc_GetMusicPlaylist e s)
     | _ \<Rightarrow> with_site w (answer wire PlaylistReply) (svc_UpdateMusicPlaylist e c (nested_playlist (m_sub m)) s))"

definition auth_rpcs :: "rpc list" where
  "auth_rpcs = [R_Register, R_Login, R_RefreshToken, R_Logout, R_GetProfile, R_UpdateProfile]"

definition file_rpcs :: "rpc list" where
  "file_rpcs = [R_UploadFile, R_GetFile, R_DeleteFile, R_ListFiles, R_GetPresignedPutURL, R_CreatePresignedUpload,
     R_CompletePresignedUpload]"

definition site_rpcs :: "rpc list" where
  "site_rpcs = [R_GetSiteConfig, R_UpdateSiteConfig, R_ListBackgrounds, R_UploadBackground, R_DeleteBackground,
     R_SetActiveBackground, R_GetMusicPlaylist, R_UpdateMusicPlaylist]"

definition serve ::
  "authcfg \<Rightarrow> (err \<Rightarrow> callerr) \<Rightarrow> outside \<Rightarrow> (nested, reply_msg, world) invoke" where
  "serve A wire x c0 m w =
    (let c = as_received c0 in
     if m_rpc m \<in> set auth_rpcs then serve_auth A wire x c m w
     else if m_rpc m \<in> set file_rpcs then serve_files wire x c m w
     else if m_rpc m \<in> set site_rpcs then serve_site wire x c m w
     else serve_blog wire x c m w)"

section \<open>The system\<close>

text \<open>
  The gateway verifies the tokens of the auth service with the same key and library, and its blacklist
  reads the Redis that the auth service writes.
\<close>

definition deployed :: "authcfg \<Rightarrow> (nested, reply_msg, world, 'lim, User) gateway \<Rightarrow> bool" where
  "deployed A G \<longleftrightarrow>
     codec_ok (gw_codec G) \<and> gin_ok (gw_gin G) \<and> lib_sound (ac_lib A) \<and>
     gw_lib G = ac_lib A \<and> SigningKey (gw_jwt G) = SigningKey (ac_jwt A) \<and>
     gw_blacklist G \<and> gw_kv G = (\<lambda>w. a_kv (w_auth w))"

text \<open>
  A step: a request of anybody, with any outcome of what the services draw and of what fails, or an
  operator disabling or deleting an account.
\<close>

inductive sys_step ::
  "authcfg \<Rightarrow> (nested, reply_msg, world, 'lim, User) gateway \<Rightarrow>
    'lim ipRateLimiter \<times> world \<Rightarrow> 'lim ipRateLimiter \<times> world \<Rightarrow> bool" for A G where
  Http: "sys_step A G st (snd (serve_http G e sf (serve A wire x) rq st))"
| Operator: "auth_step A (\<lambda>_. True) (w_auth (snd st)) a \<Longrightarrow> sys_step A G st (fst st, (snd st)\<lparr>w_auth := a\<rparr>)"

inductive_cases sys_stepE: "sys_step A G st st'"

definition sys_reach ::
  "authcfg \<Rightarrow> (nested, reply_msg, world, 'lim, User) gateway \<Rightarrow>
    'lim ipRateLimiter \<times> world \<Rightarrow> 'lim ipRateLimiter \<times> world \<Rightarrow> bool" where
  "sys_reach A G = (sys_step A G)\<^sup>*\<^sup>*"

end
