(* ===== verification/GatewayProps.thy ===== *)
theory GatewayProps
  imports GatewayRoutes
begin

text \<open>
  What the gateway guarantees whatever stands behind it: which calls a request can cause and with which
  identity, what becomes of revoked tokens, and the bounds of the rate limiter.
\<close>

section \<open>Calls\<close>

lemmas handler_defs =
  authH_Register_def authH_Login_def authH_RefreshToken_def authH_Logout_def authH_GetProfile_def
  authH_UpdateProfile_def articleH_ListArticles_def articleH_SearchArticles_def articleH_GetArticle_def
  articleH_CreateArticle_def articleH_ViewArticle_def articleH_UpdateArticle_def articleH_DeleteArticle_def
  articleH_PublishArticle_def articleH_ArchiveArticle_def articleH_LikeArticle_def articleH_UnlikeArticle_def
  tagH_ListTags_def tagH_CreateTag_def tagH_DeleteTag_def categoryH_ListCategories_def
  categoryH_CreateCategory_def categoryH_UpdateCategory_def categoryH_DeleteCategory_def fileH_UploadFile_def
  fileH_ListFiles_def fileH_GetPresignedPutURL_def fileH_GetFile_def fileH_DeleteFile_def
  fileH_CreatePresignedUpload_def fileH_CompletePresignedUpload_def siteH_GetSiteConfig_def
  siteH_ListBackgrounds_def siteH_GetMusicPlaylist_def siteH_UpdateSiteConfig_def siteH_UploadBackground_def
  siteH_DeleteBackground_def siteH_SetActiveBackground_def siteH_UpdateMusicPlaylist_def

text \<open>The context a handler calls with.\<close>

definition ctx_of :: "request \<Rightarrow> gctx \<Rightarrow> ctx" where
  "ctx_of rq c = NewClientCtx no_ctx (Some (BuildRequestMeta rq c))"

lemma meta_body [simp]: "BuildRequestMeta (rq\<lparr>rq_body := b\<rparr>) c = BuildRequestMeta rq c"
  by (simp add: BuildRequestMeta_def realClientIP_def Let_def split: option.split)

lemma bind_request: "bindRequestBody D rq m = (r, rq1) \<Longrightarrow> BuildRequestMeta rq1 c = BuildRequestMeta rq c"
  by (auto simp: bindRequestBody_def Let_def split: if_splits sum.splits)

lemma bind_rpc: "codec_ok D \<Longrightarrow> bindRequestBody D rq m = (Inr m1, rq1) \<Longrightarrow> m_rpc m1 = m_rpc m"
  unfolding bindRequestBody_def codec_ok_def Let_def by (simp split: if_splits sum.splits) (metis prod.inject sum.inject(2))

lemma callProto_cong:
  assumes "codec_ok D" "\<And>m' s'. m_rpc m' = m_rpc m \<Longrightarrow> f (ctx_of rq c) m' s' = g (ctx_of rq c) m' s'"
  shows "callProto D f rq c m s = callProto D g rq c m s"
proof (cases "bindRequestBody D rq m")
  case (Pair r rq1)
  show ?thesis
  proof (cases r)
    case (Inr m1)
    with Pair bind_request [OF Pair, of c] bind_rpc [OF assms(1)] assms(2) show ?thesis
      by (simp add: callProto_def ctx_of_def)
  qed (use Pair in \<open>simp add: callProto_def\<close>)
qed

lemma and_bind_Inr: "and_bind x h = Inr m2 \<longleftrightarrow> (\<exists>m. x = Inr m \<and> h m = Inr m2)"
  by (cases x) (simp_all add: and_bind_def)

lemma rpc_query:
  "bindQueryInt32 rq n m = Inr m2 \<Longrightarrow> m_rpc m2 = m_rpc m" "bindQueryUint64 rq n m = Inr m2 \<Longrightarrow> m_rpc m2 = m_rpc m"
  by (auto simp: bindQueryInt32_def bindQueryUint64_def split: if_splits option.splits prod.splits)

lemma rpc_queries:
  "bind_pages rq m = Inr m2 \<Longrightarrow> m_rpc m2 = m_rpc m" "bindSearchQuery rq m = Inr m2 \<Longrightarrow> m_rpc m2 = m_rpc m"
  "bindListQuery rq m = Inr m2 \<Longrightarrow> m_rpc m2 = m_rpc m"
  by (auto simp: bind_pages_def bindSearchQuery_def bindListQuery_def Let_def and_bind_Inr dest!: rpc_query)

lemma handler_cong:
  assumes "codec_ok D" "\<And>m' s'. m_rpc m' = k \<Longrightarrow> f (ctx_of rq c) m' s' = g (ctx_of rq c) m' s'"
  shows "handler_of D f k rq ps c s = handler_of D g k rq ps c s"
proof -
  have call: "callProto D f rq1 c m s = callProto D g rq1 c m s" if "m_rpc m = k" "ctx_of rq1 c = ctx_of rq c" for m rq1
    using callProto_cong [OF assms(1), of m f rq1 c g s] assms(2) that by simp
  have cat: "categoryH_UpdateCategory D f rq ps c s = categoryH_UpdateCategory D g rq ps c s" if "k = R_UpdateCategory"
  proof (cases "bindRequestBody D rq (empty_message R_UpdateCategory)")
    case (Pair r rq1)
    show ?thesis
    proof (cases r)
      case (Inr m)
      with Pair bind_request [OF Pair, of c] bind_rpc [OF assms(1)] that
      have "ctx_of rq1 c = ctx_of rq c" "m_rpc m = k" by (fastforce simp: ctx_of_def)+
      with Pair Inr call show ?thesis by (simp add: categoryH_UpdateCategory_def split: sum.split)
    qed (use Pair in \<open>simp add: categoryH_UpdateCategory_def\<close>)
  qed
  show ?thesis
    using call [OF _ refl] cat
    by (cases k; simp only: handler_of_def rpc.case) (simp_all add: handler_defs rpc_queries split: sum.split)
qed

section \<open>Identities\<close>

text \<open>The identity that a service sees.\<close>

definition seen :: "ctx \<Rightarrow> RequestMetaData" where "seen c = GetRequestMetaData (as_received c)"

definition bearer_token :: "request \<Rightarrow> string option" where
  "bearer_token rq = (case extractBearerToken (rq_header rq ''Authorization'') of bearerOK t \<Rightarrow> Some t | _ \<Rightarrow> None)"

definition revoked_bearer :: "('n, 'r, 's, 'lim, 'o) gateway \<Rightarrow> env \<Rightarrow> 's \<Rightarrow> request \<Rightarrow> bool" where
  "revoked_bearer G e s rq \<longleftrightarrow>
     gw_blacklist G \<and> (\<exists>t. bearer_token rq = Some t \<and> IsTokenBlackListed e True t (gw_kv G s))"

definition bearer_claims :: "('n, 'r, 's, 'lim, 'o) gateway \<Rightarrow> env \<Rightarrow> request \<Rightarrow> (string \<times> Claims) option" where
  "bearer_claims G e rq =
    (case bearer_token rq of
       None \<Rightarrow> None
     | Some t \<Rightarrow> (case ParseAccessToken (gw_lib G) (gw_jwt G) (e_now e) t of Inl er \<Rightarrow> None | Inr cl \<Rightarrow> Some (t, cl)))"

definition auth_of :: "Claims \<Rightarrow> Auth" where
  "auth_of cl = \<lparr>UserID = pl_UserId (cl_Payload cl), UserName = pl_UserName (cl_Payload cl), Role = pl_Role (cl_Payload cl)\<rparr>"

text \<open>
  The calls a request may cause: one of a route of its method, with the identity of its token and no
  other, an administrator's where the class asks for one, and none at all with a revoked token.
\<close>

definition allowed_call ::
  "('n, 'r, 's, 'lim, 'o) gateway \<Rightarrow> env \<Rightarrow> 's \<Rightarrow> request \<Rightarrow> ctx \<Rightarrow> 'n message \<Rightarrow> bool" where
  "allowed_call G e s rq c m \<longleftrightarrow>
     \<not> revoked_bearer G e s rq \<and> RealClientIp (seen c) = realClientIP rq \<and>
     (\<exists>r\<in>set newRouteRules. rr_Handler r = m_rpc m \<and> rr_Method r = rq_method rq \<and>
        (case bearer_claims G e rq of
           None \<Rightarrow> rr_Class r = RouteClassPublic \<and> auth (seen c) = auth anonymous \<and> AccessToken (seen c) = []
         | Some (t, cl) \<Rightarrow>
             auth (seen c) = auth_of cl \<and> AccessToken (seen c) = t \<and>
             (rr_Class r = RouteClassAdmin \<longrightarrow> pl_Role (cl_Payload cl) = adminRole)))"

text \<open>User ids are 64-bit numbers.\<close>

definition ids_fit :: "('n, 'r, 's, 'lim, 'o) gateway \<Rightarrow> bool" where
  "ids_fit G \<longleftrightarrow> (\<forall>now t cl. ParseToken (gw_lib G) (gw_jwt G) now t = Inr cl \<longrightarrow> pl_UserId (cl_Payload cl) \<le> max_uint64)"

lemma seen_ctx: "UserID (auth (BuildRequestMeta rq c)) \<le> max_uint64 \<Longrightarrow> seen (ctx_of rq c) = BuildRequestMeta rq c"
  using received_meta [of "BuildRequestMeta rq c"]
  by (simp add: seen_def as_received_def ctx_of_def NewClientCtx_def received_def no_ctx_def)

lemma auth_wire_cases:
  assumes "auth_wire G e s opt rq c = Inr c1"
  obtains (anon) "opt" "bearer_claims G e rq = None" "c1 = c" "\<not> revoked_bearer G e s rq"
  | (known) t cl where "bearer_claims G e rq = Some (t, cl)" "c1 = identify cl t c" "\<not> revoked_bearer G e s rq"
proof -
  have "(opt \<and> bearer_claims G e rq = None \<and> c1 = c \<or> (\<exists>t cl. bearer_claims G e rq = Some (t, cl) \<and> c1 = identify cl t c)) \<and>
    \<not> revoked_bearer G e s rq"
    using assms unfolding auth_wire_def NewJWTAuth_def bearer_claims_def revoked_bearer_def bearer_token_def
    by (auto split: bearer.splits if_splits sum.splits)
  then show thesis by (elim conjE disjE exE) (rule that; assumption)+
qed

lemma claims_id: "ids_fit G \<Longrightarrow> bearer_claims G e rq = Some (t, cl) \<Longrightarrow> pl_UserId (cl_Payload cl) \<le> max_uint64"
  by (auto simp: bearer_claims_def ids_fit_def ParseAccess_ok split: option.splits sum.splits)

lemma registered_api:
  "g \<in> set (RegisterRouter b) \<Longrightarrow> rg_end g = Api cls k \<Longrightarrow>
    \<exists>r\<in>set newRouteRules. rr_Handler r = k \<and> rr_Method r = rg_method g \<and> rr_Class r = cls"
  by (auto simp: RegisterRouter_def register_rule_def split: if_splits)

lemma meta_identify [simp]:
  "BuildRequestMeta rq (identify cl t c) = \<lparr>auth = auth_of cl, RealClientIp = realClientIP rq, AccessToken = t\<rparr>"
  "g_role (identify cl t c) = Some (pl_Role (cl_Payload cl))"
  by (simp_all add: BuildRequestMeta_def identify_def SetRequestMeta_def GetRequestMeta_def auth_of_def)

lemma chain_cases:
  assumes "classMiddleWires (auth_wire G e s) cls rq c = Inr c1"
  obtains opt where "auth_wire G e s opt rq c = Inr c1" "opt \<longrightarrow> cls = RouteClassPublic"
    "cls = RouteClassAdmin \<longrightarrow> g_role c1 = Some adminRole"
proof -
  have "\<exists>opt. auth_wire G e s opt rq c = Inr c1 \<and> (opt \<longrightarrow> cls = RouteClassPublic) \<and>
      (cls = RouteClassAdmin \<longrightarrow> g_role c1 = Some adminRole)"
    using assms unfolding classMiddleWires_def and_then_def RequireRole_def adminRole_def
    by (cases cls) (auto split: sum.splits option.splits if_splits)
  with that show thesis by blast
qed

lemma chain_allowed:
  assumes "ids_fit G" "g_meta c = Some anonymous" "g \<in> set (RegisterRouter b)" "rg_end g = Api cls k" "rg_method g = rq_method rq"
    and "classMiddleWires (auth_wire G e s) cls rq c = Inr c1" "m_rpc m = k"
  shows "allowed_call G e s rq (ctx_of rq c1) m"
proof -
  obtain r where r: "r \<in> set newRouteRules" "rr_Handler r = k" "rr_Method r = rq_method rq" "rr_Class r = cls"
    using registered_api [OF assms(3,4)] assms(5) by auto
  from assms(6) show ?thesis
  proof (rule chain_cases)
    fix opt assume w: "auth_wire G e s opt rq c = Inr c1" "opt \<longrightarrow> cls = RouteClassPublic"
      "cls = RouteClassAdmin \<longrightarrow> g_role c1 = Some adminRole"
    from w(1) show ?thesis
    proof (cases rule: auth_wire_cases)
      case anon
      have b: "BuildRequestMeta rq c1 = anonymous\<lparr>RealClientIp := realClientIP rq\<rparr>"
        using assms(2) anon by (simp add: BuildRequestMeta_def GetRequestMeta_def anonymous_def)
      then have "seen (ctx_of rq c1) = BuildRequestMeta rq c1" by (intro seen_ctx) (simp add: anonymous_def)
      with b anon w r assms(7) show ?thesis unfolding allowed_call_def by (auto simp: anonymous_def)
    next
      case (known t cl)
      have "seen (ctx_of rq c1) = BuildRequestMeta rq c1"
        using known claims_id [OF assms(1) known(1)] by (intro seen_ctx) (simp add: auth_of_def)
      with known w r assms(7) show ?thesis unfolding allowed_call_def by (auto simp: adminRole_def)
    qed
  qed
qed

lemma cors_meta: "CORS origins rq c = Inr c1 \<Longrightarrow> g_meta c1 = g_meta c"
  by (auto simp: CORS_def Let_def cors_headers_def set_header_def split: if_splits)

lemma seeded: "g_meta (AddMetaData now sf c) = Some anonymous"
  by (simp add: AddMetaData_def SetRequestMeta_def Let_def)

lemma endpoint_cong:
  assumes "codec_ok (gw_codec G)" "gin_ok (gw_gin G)" "ids_fit G" "g_meta c = Some anonymous"
    and "\<And>x m s'. allowed_call G e s rq x m \<Longrightarrow> f x m s' = h x m s'"
    and "gw_gin G (RegisterRouter b) (rq_method rq) (rq_path rq) = hit"
  shows "serve_endpoint G e f rq c hit s = serve_endpoint G e h rq c hit s"
proof (cases hit)
  case (Hit g ps)
  then have g: "g \<in> set (RegisterRouter b)" "rg_method g = rq_method rq"
    using assms(2,6) unfolding gin_ok_def by blast+
  show ?thesis
  proof (cases "rg_end g")
    case (Api cls k)
    have "handler_of (gw_codec G) f k rq ps c1 s = handler_of (gw_codec G) h k rq ps c1 s"
      if "classMiddleWires (auth_wire G e s) cls rq c = Inr c1" for c1
      using chain_allowed [OF assms(3,4) g(1) Api g(2) that] assms(5) by (intro handler_cong [OF assms(1)]) simp
    with Hit Api show ?thesis by (simp add: serve_endpoint_def split: sum.split)
  qed (simp_all add: serve_endpoint_def Hit)
qed (simp_all add: serve_endpoint_def)

lemma allowed_calls_only:
  assumes "codec_ok (gw_codec G)" "gin_ok (gw_gin G)" "ids_fit G"
    and "\<And>x m s'. allowed_call G e (snd st) rq x m \<Longrightarrow> f x m s' = h x m s'"
  shows "serve_http G e sf f rq st = serve_http G e sf h rq st"
proof -
  have "serve_endpoint G e f rq c hit (snd st) = serve_endpoint G e h rq c hit (snd st)"
    if "gw_gin G (RegisterRouter (gw_metrics G \<noteq> None)) (rq_method rq) (rq_path rq) = hit" "g_meta c = Some anonymous" for c hit
    using endpoint_cong [OF assms(1-3) that(2) assms(4) that(1)] by simp
  then show ?thesis
    by (auto simp: serve_http_def seeded dest!: cors_meta split: route_match.split sum.split prod.split option.split)
qed

text \<open>
  C25. The gateway is the guard it is meant to be: whatever a client sends, the services are only ever
  called with the method of a registered route and the identity of the request's bearer token, read
  from a live access token, or with no identity at all on a public route; an administrator's call needs
  the role in the token; the client's address is the gateway's own finding; and a request with a
  revoked token calls nothing, on public routes as well. (Two backends that agree on the calls that are
  allowed cannot be told apart.)
\<close>
theorem only_allowed_calls:
  assumes "codec_ok (gw_codec G)" "gin_ok (gw_gin G)" "ids_fit G"
    and "\<And>x m s'. allowed_call G e (snd st) rq x m \<Longrightarrow> f x m s' = h x m s'"
  shows "serve_http G e sf f rq st = serve_http G e sf h rq st"
  using assms by (rule allowed_calls_only)

section \<open>The rate limiter\<close>

inductive rl_step :: "'lim ratelib \<Rightarrow> 'lim ipRateLimiter \<Rightarrow> 'lim ipRateLimiter \<Rightarrow> bool" for T where
  Request: "rl_step T rl (snd (rate_limit T now r rl))"

definition rl_reach :: "'lim ratelib \<Rightarrow> 'lim ipRateLimiter \<Rightarrow> bool" where
  "rl_reach T rl \<longleftrightarrow> (\<exists>limit burst. (rl_step T)\<^sup>*\<^sup>* (new_rate_limiter limit burst) rl)"

text \<open>One bucket and one time for each address, and for the same addresses.\<close>

definition rl_ok :: "'lim ipRateLimiter \<Rightarrow> bool" where
  "rl_ok rl \<longleftrightarrow> distinct (map fst (buckets rl)) \<and> fst ` set (buckets rl) = fst ` set (lastSeen rl) \<and> distinct (map fst (lastSeen rl))"

lemma amap_map_of [simp]: "map_of (amap_set k v m) j = (if j = k then Some v else map_of m j)"
proof -
  have "map_of (filter (\<lambda>p. fst p \<noteq> k) m) j = (if j = k then None else map_of m j)" by (induction m) auto
  then show ?thesis by (simp add: amap_set_def)
qed

lemma amap_keys [simp]:
  "fst ` set (amap_set k v m) = insert k (fst ` set m)"
  "distinct (map fst m) \<Longrightarrow> distinct (map fst (amap_set k v m))"
  by (auto simp: amap_set_def distinct_map intro: inj_on_subset)

lemma amap_length: "distinct (map fst m) \<Longrightarrow> length (amap_set k v m) = (if k \<in> fst ` set m then length m else Suc (length m))"
proof -
  assume d: "distinct (map fst m)"
  have len: "length xs = card (fst ` set xs)" if "distinct (map fst xs)" for xs :: "('a \<times> 'b) list"
    using distinct_card [OF that] by simp
  show ?thesis using len [OF d] len [OF amap_keys(2) [OF d]] by (simp add: insert_absorb)
qed

lemma map_of_filter_key: "map_of (filter (\<lambda>p. P (fst p)) m) k = (if P k then map_of m k else None)"
  by (induction m) auto

lemma rl_sweep: "rl_ok rl \<Longrightarrow> rl_ok (sweepIdle now rl)"
  by (force simp: rl_ok_def sweepIdle_def distinct_map inj_on_def image_def)

definition swept :: "int \<Rightarrow> 'lim ipRateLimiter \<Rightarrow> 'lim ipRateLimiter" where
  "swept now rl = (if maxIPBuckets \<le> length (buckets rl) then sweepIdle now rl else rl)"

lemma bucketFor_new:
  "map_of (buckets rl) ip = None \<Longrightarrow> bucketFor T now ip rl = (l, rl') \<Longrightarrow>
    rl' = (swept now rl)\<lparr>buckets := amap_set ip l (buckets (swept now rl)), lastSeen := amap_set ip now (lastSeen (swept now rl))\<rparr>"
  unfolding bucketFor_def swept_def [symmetric] by (auto simp: Let_def)

lemma rl_swept: "rl_ok rl \<Longrightarrow> rl_ok (swept now rl)"
  by (simp add: swept_def rl_sweep)

lemma rl_bucketFor:
  assumes "rl_ok rl" "bucketFor T now ip rl = (l, rl')"
  shows "rl_ok rl' \<and> ip \<in> fst ` set (buckets rl')"
proof (cases "map_of (buckets rl) ip")
  case (Some x)
  then have ip: "ip \<in> fst ` set (buckets rl)" by (metis map_of_eq_None_iff option.distinct(1))
  from Some assms(2) have "rl' = rl\<lparr>lastSeen := amap_set ip now (lastSeen rl)\<rparr>" by (simp add: bucketFor_def)
  with assms(1) ip show ?thesis by (simp add: rl_ok_def insert_absorb)
next
  case None
  from bucketFor_new [OF None assms(2)] rl_swept [OF assms(1), of now] show ?thesis by (simp add: rl_ok_def)
qed

lemma rl_rate_limit:
  assumes "rl_ok rl"
  shows "rl_ok (snd (rate_limit T now r rl))"
proof (cases "bucketFor T now (rq_client_ip r) rl")
  case (Pair l rl1)
  have "insert (rq_client_ip r) (fst ` set (buckets rl1)) = fst ` set (buckets rl1)"
    using rl_bucketFor [OF assms Pair] by (simp only: insert_absorb)
  then have "rl_ok (rl1\<lparr>buckets := amap_set (rq_client_ip r) l' (buckets rl1)\<rparr>)" for l'
    using rl_bucketFor [OF assms Pair] by (simp add: rl_ok_def)
  with Pair assms show ?thesis by (simp add: rate_limit_def split: prod.split)
qed

lemma rl_reach_ok: "rl_reach T rl \<Longrightarrow> rl_ok rl"
proof -
  have "(rl_step T)\<^sup>*\<^sup>* rl0 rl \<Longrightarrow> rl_ok rl0 \<Longrightarrow> rl_ok rl" for rl0
    by (induction rule: rtranclp_induct) (auto elim!: rl_step.cases intro: rl_rate_limit)
  moreover have "rl_ok (new_rate_limiter limit burst)" for limit burst by (simp add: rl_ok_def new_rate_limiter_def)
  ultimately show "rl_reach T rl \<Longrightarrow> rl_ok rl" unfolding rl_reach_def by blast
qed

lemma idle_set [simp]:
  "idle now (rl\<lparr>buckets := b, lastSeen := amap_set ip now ls\<rparr>) ip' =
    (if ip' = ip then False else case map_of ls ip' of None \<Rightarrow> False | Some z \<Rightarrow> ipIdleTimeout < now - z)"
  by (simp add: idle_def ipIdleTimeout_def)

text \<open>A bucket for a new address: the others that are not idle stay, and the sweep ends below the bound or finds nothing.\<close>

lemma bucketFor_keeps:
  assumes "rl_ok rl" "map_of (buckets rl) a0 = None" "bucketFor T now a0 rl = (l, rl1)"
  shows "ip \<noteq> a0 \<Longrightarrow> \<not> idle now rl ip \<Longrightarrow> map_of (buckets rl1) ip = map_of (buckets rl) ip"
    and "length (buckets rl1) \<le> maxIPBuckets \<or> (\<forall>a. \<not> idle now rl1 a)"
proof -
  have new: "a0 \<notin> fst ` set (buckets rl)" using assms(2) by (simp add: map_of_eq_None_iff)
  define rl0 where "rl0 = swept now rl"
  have rl1: "rl1 = rl0\<lparr>buckets := amap_set a0 l (buckets rl0), lastSeen := amap_set a0 now (lastSeen rl0)\<rparr>"
    unfolding rl0_def by (rule bucketFor_new [OF assms(2,3)])
  have "map_of (buckets rl0) ip = map_of (buckets rl) ip" if "\<not> idle now rl ip"
    using that by (simp add: rl0_def swept_def sweepIdle_def map_of_filter_key [of "\<lambda>a. \<not> idle now rl a"])
  then show "ip \<noteq> a0 \<Longrightarrow> \<not> idle now rl ip \<Longrightarrow> map_of (buckets rl1) ip = map_of (buckets rl) ip" by (simp add: rl1)
  have "set (buckets rl0) \<subseteq> set (buckets rl)" by (auto simp: rl0_def swept_def sweepIdle_def)
  with new have "a0 \<notin> fst ` set (buckets rl0)" by blast
  moreover have "distinct (map fst (buckets rl0))" using rl_swept [OF assms(1), of now] by (simp add: rl_ok_def rl0_def)
  ultimately have l1: "length (buckets rl1) = Suc (length (buckets rl0))" by (simp add: rl1 amap_length)
  show "length (buckets rl1) \<le> maxIPBuckets \<or> (\<forall>a. \<not> idle now rl1 a)"
  proof (cases "maxIPBuckets \<le> length (buckets rl)")
    case True
    then have "lastSeen rl0 = filter (\<lambda>p. \<not> idle now rl (fst p)) (lastSeen rl)" by (simp add: rl0_def swept_def sweepIdle_def)
    then have "\<not> idle now rl1 a" for a
      unfolding rl1 by (simp add: map_of_filter_key [of "\<lambda>a. \<not> idle now rl a"]) (simp add: idle_def split: option.split)
    then show ?thesis by blast
  qed (use l1 in \<open>simp add: rl0_def swept_def\<close>)
qed

text \<open>The requester's bucket: its own, or a new one when it has none.\<close>

definition own_bucket :: "'lim ratelib \<Rightarrow> string \<Rightarrow> 'lim ipRateLimiter \<Rightarrow> 'lim" where
  "own_bucket T ip rl = (case map_of (buckets rl) ip of Some l \<Rightarrow> l | None \<Rightarrow> rt_new T (rl_limit rl) (rl_burst rl))"

lemma rate_limit_own:
  assumes "0 < rl_limit rl" "rt_allow T (own_bucket T (rq_client_ip r) rl) now = (ok, l)"
  shows "fst (rate_limit T now r rl) = (if ok then None else Some (Fail 429 429 msg_rate)) \<and>
    map_of (buckets (snd (rate_limit T now r rl))) (rq_client_ip r) = Some l"
proof -
  obtain rl1 where "bucketFor T now (rq_client_ip r) rl = (own_bucket T (rq_client_ip r) rl, rl1)"
    by (cases "map_of (buckets rl) (rq_client_ip r)") (auto simp: bucketFor_def own_bucket_def sweepIdle_def Let_def)
  with assms show ?thesis by (simp add: rate_limit_def amap_set_def)
qed

text \<open>
  C27. The limiter counts each address in its own bucket, forgets only the idle, and grows only to the busy.
  In every reachable limiter: a request is decided by the bucket of its own address, a new one if there is
  none, which it leaves as the library's Allow does; it leaves the bucket of any other address that has been
  seen within ten minutes as it is, so nobody regains a full bucket by a flood of addresses; and when
  it makes the table grow, the table holds at most 10000 buckets afterwards or every address in it has been
  seen within ten minutes. A limit of 0 or below lets everything pass and changes nothing.
\<close>
theorem limiter_keeps_active:
  assumes "rl_reach T rl"
  shows "(ip \<noteq> rq_client_ip r \<and> \<not> idle now rl ip \<longrightarrow>
      map_of (buckets (snd (rate_limit T now r rl))) ip = map_of (buckets rl) ip) \<and>
    (length (buckets rl) < length (buckets (snd (rate_limit T now r rl))) \<longrightarrow>
      length (buckets (snd (rate_limit T now r rl))) \<le> maxIPBuckets \<or>
      (\<forall>a. \<not> idle now (snd (rate_limit T now r rl)) a)) \<and>
    (if rl_limit rl \<le> 0 then rate_limit T now r rl = (None, rl)
     else fst (rate_limit T now r rl) =
         (if fst (rt_allow T (own_bucket T (rq_client_ip r) rl) now) then None else Some (Fail 429 429 msg_rate)) \<and>
       map_of (buckets (snd (rate_limit T now r rl))) (rq_client_ip r) =
         Some (snd (rt_allow T (own_bucket T (rq_client_ip r) rl) now)))"
proof (cases "rl_limit rl \<le> 0")
  case False
  have own: "fst (rate_limit T now r rl) =
         (if fst (rt_allow T (own_bucket T (rq_client_ip r) rl) now) then None else Some (Fail 429 429 msg_rate)) \<and>
       map_of (buckets (snd (rate_limit T now r rl))) (rq_client_ip r) =
         Some (snd (rt_allow T (own_bucket T (rq_client_ip r) rl) now))"
    by (rule rate_limit_own) (use False in simp_all)
  let ?ip = "rq_client_ip r"
  have ok: "rl_ok rl" by (rule rl_reach_ok [OF assms])
  obtain l rl1 where b: "bucketFor T now ?ip rl = (l, rl1)" by (cases "bucketFor T now ?ip rl")
  obtain res l' where al: "rt_allow T l now = (res, l')" by (cases "rt_allow T l now")
  have ok1: "rl_ok rl1" "?ip \<in> fst ` set (buckets rl1)" using rl_bucketFor [OF ok b] by simp_all
  have r: "snd (rate_limit T now r rl) = rl1\<lparr>buckets := amap_set ?ip l' (buckets rl1)\<rparr>"
    using False b al by (simp add: rate_limit_def)
  have len: "length (amap_set ?ip l' (buckets rl1)) = length (buckets rl1)"
    using ok1 by (simp add: amap_length rl_ok_def)
  show ?thesis
  proof (cases "map_of (buckets rl) ?ip")
    case (Some x)
    with b have "rl1 = rl\<lparr>lastSeen := amap_set ?ip now (lastSeen rl)\<rparr>" by (simp add: bucketFor_def)
    then have "buckets rl1 = buckets rl" by simp
    with len own show ?thesis using False unfolding r by simp
  next
    case None
    have "idle now (rl1\<lparr>buckets := z\<rparr>) a = idle now rl1 a" for z a by (simp add: idle_def)
    with bucketFor_keeps [OF ok None b] len own show ?thesis using False unfolding r by simp
  qed
qed (simp add: rate_limit_def)

end
