(* ===== verification/SystemProps.thy ===== *)
theory SystemProps
  imports System GatewayProps AuthProps FilesProps SiteProps ServiceProps
begin

text \<open>
  Properties of the whole system, from the request at the gateway to the tables of the services: what
  a request can change and for whom, the end of a session, and the statuses of errors.
\<close>

section \<open>From the handlers to a request\<close>

text \<open>A request makes at most one call: what the call keeps, the request keeps.\<close>

lemma callProto_state: "P s \<Longrightarrow> (\<And>x m. P (snd (call x m s))) \<Longrightarrow> P (snd (callProto D call rq c m s))"
  by (auto simp: callProto_def split: prod.split sum.split) (metis snd_conv)+

lemma handler_state:
  assumes "P s" "\<And>x m. P (snd (call x m s))"
  shows "P (snd (handler_of D call k rq ps c s))"
proof -
  have "P (snd (callProto D call rq' c m s))" for rq' m using callProto_state [of P s call] assms by blast
  then show ?thesis using assms(1)
    by (cases k; simp only: handler_of_def rpc.case) (auto simp: handler_defs split: sum.split prod.split)
qed

lemma serve_http_state:
  assumes "P (snd st)" "\<And>x m. P (snd (call x m (snd st)))"
  shows "P (snd (snd (serve_http G e sf call rq st)))"
proof -
  have "P (snd (serve_endpoint G e call rq c hit (snd st)))" for c hit
    using assms handler_state [of P "snd st" call]
    by (simp add: serve_endpoint_def split: route_match.split endpoint.split sum.split)
  then show ?thesis using assms(1)
    by (auto simp: serve_http_def split: route_match.split sum.split prod.split option.split) (metis snd_conv)+
qed

lemma serve_http_allowed:
  assumes "codec_ok (gw_codec G)" "gin_ok (gw_gin G)" "ids_fit G" "P (snd st)"
    and "\<And>x m. allowed_call G e (snd st) rq x m \<Longrightarrow> P (snd (call x m (snd st)))"
  shows "P (snd (snd (serve_http G e sf call rq st)))"
proof -
  let ?h = "\<lambda>x m s. if allowed_call G e (snd st) rq x m then call x m s else (Inl (PlainError []), s)"
  have eq: "serve_http G e sf call rq st = serve_http G e sf ?h rq st"
    by (rule allowed_calls_only [OF assms(1-3)]) simp
  show ?thesis by (subst eq, rule serve_http_state [of P]) (simp_all add: assms(4,5))
qed

section \<open>Who a request acts for\<close>

text \<open>The request carries a live access token that is not revoked, and its owner satisfies \<^verbatim>\<open>Q\<close>.\<close>

definition bearer_is ::
  "('n, 'r, 's, 'lim, 'o) gateway \<Rightarrow> env \<Rightarrow> 's \<Rightarrow> request \<Rightarrow> (Payload \<Rightarrow> bool) \<Rightarrow> bool" where
  "bearer_is G e s rq Q \<longleftrightarrow>
     \<not> revoked_bearer G e s rq \<and> (case bearer_claims G e rq of None \<Rightarrow> False | Some (t, cl) \<Rightarrow> Q (cl_Payload cl))"

definition blog_tables :: "blog \<Rightarrow> ArticlePO list \<times> TagPO list \<times> CategoryPO list \<times> ArticleTagPO list \<times> ArticleLikePO list" where
  "blog_tables b = (articles b, tags b, categories b, articles_tags b, articles_likes b)"

definition site_tables :: "sitest \<Rightarrow> SiteSetting option \<times> SiteBackgroundPO list" where
  "site_tables s = (setting_row s, bg_rows s)"

lemma seen_user: "getCurrentUserID (as_received x) = Inr u \<Longrightarrow> UserID (auth (seen x)) = u \<and> 0 < u"
  by (auto simp: getCurrentUserID_def seen_def split: if_splits)

lemma seen_admin: "requireAdmin (as_received x) = None \<Longrightarrow> Role (auth (seen x)) = adminRole"
  by (simp add: requireAdmin_None getCurrentRole_def seen_def)

lemma allowed_bearer:
  assumes "allowed_call G e s rq x m"
  shows "getCurrentUserID (as_received x) = Inr u \<Longrightarrow> bearer_is G e s rq (\<lambda>p. pl_UserId p = u)"
    "requireAdmin (as_received x) = None \<Longrightarrow> bearer_is G e s rq (\<lambda>p. pl_Role p = adminRole)"
  using assms seen_user [of x u] seen_admin [of x]
  by (auto simp: allowed_call_def bearer_is_def anonymous_def adminRole_def auth_of_def split: option.splits prod.splits)

lemma public_rpcs:
  "r \<in> set newRouteRules \<Longrightarrow> rr_Class r = RouteClassPublic \<Longrightarrow>
    rr_Handler r \<in> {R_Register, R_Login, R_RefreshToken, R_Logout, R_ListArticles, R_SearchArticles, R_GetArticle, R_ListTags,
      R_ListCategories, R_GetSiteConfig, R_ListBackgrounds, R_GetMusicPlaylist}"
  by (auto simp: newRouteRules_def)

lemma blog_reads [simp]:
  "blog_tables (snd (GetArticle e c ident b)) = blog_tables b" "blog_tables (snd (ListTags e b)) = blog_tables b"
  "blog_tables (snd (ListCategories e b)) = blog_tables b"
  by (simp_all add: blog_tables_def GetArticle_def ListTags_def ListCategories_def tagRepo_List_def categoryRepo_ListTree_def
      articleRepo_FindBySlug_def find_slug_db_def kv_set_def kv_del_def Let_def split: sum.split option.split)

lemma site_reads [simp]:
  "site_tables (snd (siteRepo_GetConfig e s)) = site_tables s" "site_tables (snd (siteRepo_ListBackgrounds e s)) = site_tables s"
  "site_tables (snd (siteRepo_IsLikesEnabled e s)) = site_tables s"
  by (simp_all add: site_tables_def siteRepo_GetConfig_def siteRepo_ListBackgrounds_def siteRepo_IsLikesEnabled_def
      skv_set_def Let_def split: sum.split option.split prod.split)

lemma with_simps [simp]:
  "w_auth (snd (with_blog w f b)) = w_auth w" "w_blog (snd (with_blog w f b)) = snd b"
  "w_files (snd (with_blog w f b)) = w_files w" "w_site (snd (with_blog w f b)) = w_site w"
  "w_auth (snd (with_auth w f a)) = snd a" "w_blog (snd (with_auth w f a)) = w_blog w"
  "w_files (snd (with_auth w f a)) = w_files w" "w_site (snd (with_auth w f a)) = w_site w"
  "w_auth (snd (with_files w f d)) = w_auth w" "w_blog (snd (with_files w f d)) = w_blog w"
  "w_files (snd (with_files w f d)) = snd d" "w_site (snd (with_files w f d)) = w_site w"
  "w_auth (snd (with_site w f c)) = w_auth w" "w_blog (snd (with_site w f c)) = w_blog w"
  "w_files (snd (with_site w f c)) = w_files w" "w_site (snd (with_site w f c)) = snd c"
  by (simp_all add: with_blog_def with_auth_def with_files_def with_site_def)

lemma reply_state [simp]: "snd (reply f r) = snd r"
  by (cases r) (simp add: reply_def split: sum.split)

lemmas svc_site_defs = svc_GetSiteConfig_def svc_UpdateSiteConfig_def svc_ListBackgrounds_def svc_UploadBackground_def
  svc_DeleteBackground_def svc_SetActiveBackground_def svc_GetMusicPlaylist_def svc_UpdateMusicPlaylist_def

lemma svc_site_state [simp]:
  "snd (svc_GetSiteConfig e s) = snd (siteRepo_GetConfig e s)" "snd (svc_GetMusicPlaylist e s) = snd (siteRepo_GetConfig e s)"
  "snd (svc_ListBackgrounds rfc e s) = snd (siteRepo_ListBackgrounds e s)"
  "snd (svc_UpdateSiteConfig e c x s) = snd (UpdateConfig e c (map_option fromSiteConfig x) s)"
  by (simp_all add: svc_site_defs GetConfig_def GetPlaylist_def ListBackgrounds_def split: sum.split prod.split)

lemma site_refused [simp]:
  assumes "requireAdmin c = Some er"
  shows "UpdateConfig e c n s = (Inl er, s)" "AddBackground e k c fn d s = (Inl er, s)" "DeleteBackground e c i s = (Some er, s)"
    "SetActiveBackground e c i s = (Some er, s)" "UpdatePlaylist e c pl s = (Inl er, s)"
  using assms by (simp_all add: UpdateConfig_def AddBackground_def DeleteBackground_def SetActiveBackground_def UpdatePlaylist_def)

lemma serve_site_tables:
  "site_tables (w_site (snd (serve_site wire x c m w))) = site_tables (w_site w) \<or> requireAdmin c = None"
  by (cases "requireAdmin c"; cases "m_rpc m")
    (simp_all add: serve_site_def Let_def svc_UploadBackground_def svc_DeleteBackground_def svc_SetActiveBackground_def
      svc_UpdateMusicPlaylist_def)

lemma like_site:
  "site_tables (w_site (snd (case svc_LikeArticle e c i (b, w_site w) of (r, b1, s1) \<Rightarrow> (f r, w\<lparr>w_blog := b1, w_site := s1\<rparr>)))) =
    site_tables (w_site w)"
proof (cases "siteRepo_IsLikesEnabled e (w_site w)")
  case (Pair gate s1)
  with site_reads(3) [of e "w_site w"] show ?thesis by (simp add: svc_LikeArticle_def split: prod.split)
qed

lemma like_others:
  "w_files (snd (case svc_LikeArticle e c i (b, w_site w) of (r, b1, s1) \<Rightarrow> (f r, w\<lparr>w_blog := b1, w_site := s1\<rparr>))) = w_files w"
  "w_auth (snd (case svc_LikeArticle e c i (b, w_site w) of (r, b1, s1) \<Rightarrow> (f r, w\<lparr>w_blog := b1, w_site := s1\<rparr>))) = w_auth w"
  by (simp_all split: prod.split)

lemma serve_others [simp]:
  "w_site (snd (serve_auth A wire x c m w)) = w_site w" "w_files (snd (serve_auth A wire x c m w)) = w_files w"
  "w_blog (snd (serve_auth A wire x c m w)) = w_blog w"
  "w_site (snd (serve_files wire x c m w)) = w_site w" "w_blog (snd (serve_files wire x c m w)) = w_blog w"
  "w_auth (snd (serve_files wire x c m w)) = w_auth w"
  "w_files (snd (serve_site wire x c m w)) = w_files w" "w_blog (snd (serve_site wire x c m w)) = w_blog w"
  "w_auth (snd (serve_site wire x c m w)) = w_auth w"
  "w_files (snd (serve_blog wire x c m w)) = w_files w" "w_auth (snd (serve_blog wire x c m w)) = w_auth w"
  "site_tables (w_site (snd (serve_blog wire x c m w))) = site_tables (w_site w)"
  by ((cases "m_rpc m"; simp add: serve_auth_def serve_files_def serve_site_def serve_blog_def Let_def like_site like_others)+)

lemma serve_files_others:
  assumes "file_ok (w_files w)" "new_key (w_files w) (x_key x)" "getCurrentUserID c \<noteq> Inr v"
  shows "belongings (w_files (snd (serve_files wire x c m w))) v = belongings (w_files w) v"
proof -
  have "belongings (snd (Upload e (x_key x) c fn mime d (w_files w))) v = belongings (w_files w) v"
    "belongings (snd (DeleteFile e c i (w_files w))) v = belongings (w_files w) v"
    "belongings (snd (CompletePresignedUpload e c key fn mime (w_files w))) v = belongings (w_files w) v" for e fn mime d i key
    using assms by (metis Upload_other prod.collapse, metis Delete_other prod.collapse, metis Complete_other prod.collapse)
  then show ?thesis
    by (cases "m_rpc m") (simp_all add: serve_files_def Let_def svc_UploadFile_def svc_DeleteFile_def svc_CompletePresignedUpload_def)
qed

text \<open>The calls a client without identity can cause read only.\<close>

lemma anonymous_reads:
  assumes "allowed_call G e s rq y m" "bearer_claims G e rq = None"
  shows "blog_tables (w_blog (snd (serve A wire x y m w))) = blog_tables (w_blog w)"
proof -
  from assms obtain r where "r \<in> set newRouteRules" "rr_Class r = RouteClassPublic" "rr_Handler r = m_rpc m"
    by (auto simp: allowed_call_def)
  then have "m_rpc m \<in> {R_Register, R_Login, R_RefreshToken, R_Logout, R_ListArticles, R_SearchArticles, R_GetArticle, R_ListTags,
      R_ListCategories, R_GetSiteConfig, R_ListBackgrounds, R_GetMusicPlaylist}" using public_rpcs by metis
  then show ?thesis
    by (auto simp: serve_def auth_rpcs_def file_rpcs_def site_rpcs_def serve_blog_def svc_GetArticle_def svc_ListTags_def
        svc_ListCategories_def Let_def)
qed

text \<open>
  C24. From end to end, a request acts for the owner of its token and for nobody else: with the gateway in
  front of the services, a request that changes the site's settings or backgrounds carries a live,
  unrevoked access token of an administrator; one that changes a user's records of files, or the objects
  of the direct uploads among them, carries a token of that very user; and without such a token no row
  of the articles, tags, categories and likes changes at all, whatever the headers, path, query and body
  say.
\<close>
theorem requests_act_for_bearer:
  fixes G :: "(nested, reply_msg, world, 'lim, User) gateway"
  assumes "deployed A G" "ids_fit G" "file_reach (\<lambda>_. True) files0 (w_files (snd st))" "new_key (w_files (snd st)) (x_key x)"
    and "snd (snd (serve_http G e sf (serve A wire x) rq st)) = w'"
  shows "(site_tables (w_site w') = site_tables (w_site (snd st)) \<or> bearer_is G e (snd st) rq (\<lambda>p. pl_Role p = adminRole)) \<and>
    (belongings (w_files w') v = belongings (w_files (snd st)) v \<or> bearer_is G e (snd st) rq (\<lambda>p. pl_UserId p = v)) \<and>
    (blog_tables (w_blog w') = blog_tables (w_blog (snd st)) \<or> bearer_is G e (snd st) rq (\<lambda>_. True))"
proof -
  define P where "P = (\<lambda>w' :: world. (site_tables (w_site w') = site_tables (w_site (snd st)) \<or> bearer_is G e (snd st) rq (\<lambda>p. pl_Role p = adminRole)) \<and>
    (belongings (w_files w') v = belongings (w_files (snd st)) v \<or> bearer_is G e (snd st) rq (\<lambda>p. pl_UserId p = v)) \<and>
    (blog_tables (w_blog w') = blog_tables (w_blog (snd st)) \<or> bearer_is G e (snd st) rq (\<lambda>_. True)))"
  have ok: "file_ok (w_files (snd st))" by (rule file_reach_ok [OF assms(3) file_ok0])
  have d: "codec_ok (gw_codec G)" "gin_ok (gw_gin G)" using assms(1) by (simp_all add: deployed_def)
  have "P (snd (serve A wire x y m (snd st)))" if a: "allowed_call G e (snd st) rq y m" for y m
    unfolding P_def
  proof (intro conjI)
    let ?w = "snd (serve A wire x y m (snd st))"
    show "site_tables (w_site ?w) = site_tables (w_site (snd st)) \<or> bearer_is G e (snd st) rq (\<lambda>p. pl_Role p = adminRole)"
      using serve_site_tables [of wire x "as_received y" m "snd st"] allowed_bearer(2) [OF a] by (auto simp: serve_def Let_def)
    show "belongings (w_files ?w) v = belongings (w_files (snd st)) v \<or> bearer_is G e (snd st) rq (\<lambda>p. pl_UserId p = v)"
      using serve_files_others [OF ok assms(4), of "as_received y" v wire m] allowed_bearer(1) [OF a, of v]
      by (auto simp: serve_def Let_def)
    show "blog_tables (w_blog ?w) = blog_tables (w_blog (snd st)) \<or> bearer_is G e (snd st) rq (\<lambda>_. True)"
      using anonymous_reads [OF a, of A wire x "snd st"] a
      by (cases "bearer_claims G e rq") (auto simp: bearer_is_def allowed_call_def)
  qed
  moreover have "P (snd st)" by (simp add: P_def)
  ultimately have "P w'" using serve_http_allowed [OF d assms(2), of P] assms(5) by metis
  then show ?thesis by (simp add: P_def)
qed

end
