(* ===== verification/GatewayToy.thy ===== *)
theory GatewayToy
  imports GatewayProps
begin

text \<open>
  A gateway with its parameters made concrete (a router by equal paths, a codec for messages without a
  body, a bucket that counts down), on which the properties of the gateway and the system are evaluated.
\<close>

section \<open>A gateway to evaluate\<close>

definition toy_gin :: "registered list \<Rightarrow> string \<Rightarrow> string \<Rightarrow> route_match" where
  "toy_gin gs m p =
    (case List.find (\<lambda>g. rg_method g = m \<and> rg_path g = p) gs of Some g \<Rightarrow> Hit g (\<lambda>_. []) | None \<Rightarrow> NoRoute)"

definition toy_codec :: "('n, 'r) codec" where
  "toy_codec = \<lparr>cd_unmarshal = (\<lambda>k b. Inr (empty_message k)),
     cd_merge = (\<lambda>d s. d\<lparr>m_u := (\<lambda>f. if m_u s f = 0 then m_u d f else m_u s f), m_s := (\<lambda>f. if m_s s f = [] then m_s d f else m_s s f)\<rparr>),
     cd_marshal = (\<lambda>r. Inr [])\<rparr>"

definition toy_rate :: "int ratelib" where
  "toy_rate = \<lparr>rt_new = (\<lambda>r b. b), rt_allow = (\<lambda>l now. (0 < l, l - 1))\<rparr>"

definition toy_gateway :: "jwtlib \<Rightarrow> ('s \<Rightarrow> 'o rstore) \<Rightarrow> ('n, 'r, 's, int, 'o) gateway" where
  "toy_gateway L redis = \<lparr>gw_codec = toy_codec, gw_lib = L, gw_jwt = toy_config, gw_blacklist = True, gw_kv = redis,
     gw_origins = [], gw_rps = 0, gw_rate = toy_rate, gw_gin = toy_gin, gw_metrics = None\<rparr>"

definition toy_request :: "string \<Rightarrow> string \<Rightarrow> string \<Rightarrow> request" where
  "toy_request m p tok = \<lparr>rq_method = m, rq_path = p, rq_header = (\<lambda>h. if h = ''Authorization'' then tok else []),
     rq_query = (\<lambda>_. []), rq_body = Inr [], rq_client_ip = ''192.0.2.1''\<rparr>"

lemma toy_ok [simp]: "codec_ok toy_codec" "gin_ok toy_gin"
  by (auto simp: codec_ok_def toy_codec_def gin_ok_def toy_gin_def split: option.splits dest: find_Some_mem)

lemma toy_gateway_simps [simp]:
  "gw_codec (toy_gateway L redis) = toy_codec" "gw_lib (toy_gateway L redis) = L" "gw_jwt (toy_gateway L redis) = toy_config"
  "gw_blacklist (toy_gateway L redis)" "gw_kv (toy_gateway L redis) = redis" "gw_gin (toy_gateway L redis) = toy_gin"
  "gw_metrics (toy_gateway L redis) = None" "gw_rps (toy_gateway L redis) = 0"  "gw_origins (toy_gateway L redis) = []"
  by (simp_all add: toy_gateway_def)

lemma toy_ids: "pl_UserId p \<le> max_uint64 \<Longrightarrow> ids_fit (toy_gateway (toy_jwt p) redis)"
  by (auto simp: ids_fit_def ParseToken_def toy_jwt_def toy_lib_def toy_claims_def split: if_splits)

lemma registered_path:
  "rg_path (register_rule \<lparr>rr_Method = m, rr_Path = apiV1BasePath @ p, rr_Class = c, rr_Handler = k\<rparr>) = apiV1BasePath @ toGinPath p"
  by (simp add: register_rule_def trim_prefix_def has_prefix_def)

lemma registered_other:
  "rg_method (register_rule r) = rr_Method r" "rg_end (register_rule r) = Api (rr_Class r) (rr_Handler r)"
  by (simp_all add: register_rule_def)

lemma toy_finds:
  "\<exists>g. toy_gin (RegisterRouter False) ''POST'' (apiV1BasePath @ ''/auth/logout'') = Hit g (\<lambda>_. []) \<and> rg_end g = Api RouteClassPublic R_Logout"
  "\<exists>g. toy_gin (RegisterRouter False) ''GET'' (apiV1BasePath @ ''/tags'') = Hit g (\<lambda>_. []) \<and> rg_end g = Api RouteClassPublic R_ListTags"
  "\<exists>g. toy_gin (RegisterRouter False) ''POST'' (apiV1BasePath @ ''/tags'') = Hit g (\<lambda>_. []) \<and> rg_end g = Api RouteClassAdmin R_CreateTag"
  by (simp_all add: toy_gin_def RegisterRouter_def newRouteRules_def registered_path registered_other toGinPath_def)

lemma toy_bearer: "extractBearerToken [] = bearerNone"
  by (simp add: extractBearerToken_def trim_space_def trim_segs_def)

lemma toy_bearer_a: "extractBearerToken ''Bearer a'' = bearerOK ''a''"
proof -
  have "trim_space ''Bearer a'' = ''Bearer a''" "trim_space ''a'' = ''a''"
    by (simp_all add: trim_space_def trim_segs_def is_space_def byte_def)
  then show ?thesis by (simp add: extractBearerToken_def Let_def bearerPrefix_def equal_fold_def)
qed

lemma toy_request_simps [simp]:
  "rq_method (toy_request m p tok) = m" "rq_path (toy_request m p tok) = p" "rq_header (toy_request m p tok) ''Authorization'' = tok"
  "rq_client_ip (toy_request m p tok) = ''192.0.2.1''"
  by (simp_all add: toy_request_def)

text \<open>A service that counts the tags it is asked to create, and one that never creates any.\<close>

definition counting :: "(unit, unit, nat) invoke" where
  "counting x m s = (Inr (), if m_rpc m = R_CreateTag then s + 1 else s)"

definition refusing :: "(unit, unit, nat) invoke" where
  "refusing x m s = (Inr (), s)"

definition reader_7 :: Payload where
  "reader_7 = \<lparr>pl_UserId = 7, pl_UserName = ''ann'', pl_Role = ''reader''\<rparr>"

definition toy_front :: "(unit, unit, nat, int, unit) gateway" where
  "toy_front = toy_gateway (toy_jwt reader_7) (\<lambda>_. Map.empty)"

theorem only_allowed_calls_witness:
  "let rq = toy_request ''POST'' (apiV1BasePath @ ''/tags'') ''Bearer a''; st = (new_rate_limiter 0 0, 0)
   in serve_http toy_front env0 None counting rq st = serve_http toy_front env0 None refusing rq st"
proof -
  let ?rq = "toy_request ''POST'' (apiV1BasePath @ ''/tags'') ''Bearer a''"
  have no: "m_rpc m \<noteq> R_CreateTag" if "allowed_call toy_front env0 0 ?rq x m" for x and m :: "unit message"
  proof
    assume k: "m_rpc m = R_CreateTag"
    have c: "bearer_claims toy_front env0 ?rq = Some (''a'', toy_claims TokenTypeAccess (15 * second) ''1'' reader_7)"
      by (simp add: toy_front_def bearer_claims_def bearer_token_def toy_bearer_a ParseAccessToken_def ParseToken_def toy_jwt_def toy_lib_def
          toy_claims_def)
    from that k obtain r where r: "r \<in> set newRouteRules" "rr_Handler r = R_CreateTag" "rr_Class r \<noteq> RouteClassAdmin"
      unfolding allowed_call_def c by (auto simp: toy_claims_def adminRole_def reader_7_def)
    then show False by (auto simp: newRouteRules_def)
  qed
  have "serve_http toy_front env0 None counting ?rq (new_rate_limiter 0 0, 0) = serve_http toy_front env0 None refusing ?rq (new_rate_limiter 0 0, 0)"
    by (rule only_allowed_calls) (use no in \<open>auto simp: toy_front_def reader_7_def counting_def refusing_def intro!: toy_ids\<close>)
  then show ?thesis by (simp add: Let_def)
qed

theorem limiter_keeps_active_witness:
  "let rl = snd (rate_limit toy_rate 0 ((toy_request [] [] [])\<lparr>rq_client_ip := ''a''\<rparr>) (new_rate_limiter 5 2));
       rl1 = snd (rate_limit toy_rate 1 ((toy_request [] [] [])\<lparr>rq_client_ip := ''b''\<rparr>) rl)
   in map_of (buckets rl) ''a'' = Some 1 \<and> map_of (buckets rl1) ''a'' = Some 1"
proof -
  let ?r = "\<lambda>a. (toy_request [] [] [])\<lparr>rq_client_ip := a\<rparr>"
  let ?rl = "snd (rate_limit toy_rate 0 (?r ''a'') (new_rate_limiter 5 2))"
  have "rl_reach toy_rate ?rl" unfolding rl_reach_def by (intro exI r_into_rtranclp) (rule rl_step.Request)
  note k = limiter_keeps_active [OF this, of "''a''" "?r ''b''" 1]
  have "map_of (buckets ?rl) ''a'' = Some 1" "\<not> idle 1 ?rl ''a''"
    by (simp_all add: rate_limit_def bucketFor_def new_rate_limiter_def toy_rate_def idle_def ipIdleTimeout_def maxIPBuckets_def)
  with k show ?thesis by (simp add: Let_def)
qed

end
