(* ===== verification/Session.thy ===== *)
theory Session
  imports SystemProps GatewayToy
begin

text \<open>
  The end of a session, seen from the client: what a logout at the gateway means for every later request,
  and the status with which the errors of the services arrive.
\<close>

section \<open>The accounts under the system's steps\<close>

lemma auth_reach_step: "auth_step A (\<lambda>_. True) s s' \<Longrightarrow> auth_reach A (\<lambda>_. True) s s'"
  unfolding auth_reach_def by (rule r_into_rtranclp)

lemmas auth_steps = auth_step.intros [where ok = "\<lambda>_. True", OF TrueI]

lemma svc_auth_state [simp]:
  "snd (svc_Register A rfc e j n m p s) = snd (Register A e j n m p s)"
  "snd (svc_RefreshToken A rfc e j t s) = snd (RefreshToken A e j t s)"
  "snd (svc_GetProfile rfc e c s) = snd (GetProfile e (getUserID c) s)"
  "snd (svc_UpdateProfile rfc e c av bio s) = snd (UpdateProfile e (getUserID c) av bio s)"
  by (simp_all add: svc_Register_def svc_RefreshToken_def svc_GetProfile_def svc_UpdateProfile_def split: prod.split sum.split)

lemma serve_accounts: "auth_reach A (\<lambda>_. True) (w_auth w) (w_auth (snd (serve A wire x y m w)))"
proof -
  have same: "auth_reach A (\<lambda>_. True) s s" for s by (simp add: auth_reach_def)
  have "auth_reach A (\<lambda>_. True) (w_auth w) (w_auth (snd (serve_auth A wire x c m w)))" for c
    by (cases "m_rpc m")
      (simp_all add: serve_auth_def Let_def svc_Logout_def auth_reach_step auth_steps same)
  then show ?thesis by (simp add: serve_def Let_def same)
qed

lemma sys_accounts: "sys_reach A G st st' \<Longrightarrow> auth_reach A (\<lambda>_. True) (w_auth (snd st)) (w_auth (snd st'))"
proof -
  have one: "auth_reach A (\<lambda>_. True) (w_auth (snd s)) (w_auth (snd s'))" if "sys_step A G s s'" for s s'
    using that
  proof cases
    case (Http e sf wire x rq)
    have "auth_reach A (\<lambda>_. True) (w_auth (snd s)) (w_auth (snd s))" by (simp add: auth_reach_def)
    with serve_http_state [of "\<lambda>w. auth_reach A (\<lambda>_. True) (w_auth (snd s)) (w_auth w)" s "serve A wire x" G e sf rq]
      serve_accounts [of A "snd s"] Http show ?thesis by simp
  next
    case (Operator a)
    then show ?thesis by (simp add: auth_reach_step)
  qed
  assume "sys_reach A G st st'"
  then show ?thesis unfolding sys_reach_def
  proof (induction rule: rtranclp_induct)
    case (step s s')
    from step(3) one [OF step(2)] show ?case unfolding auth_reach_def by (rule rtranclp_trans)
  qed (simp add: auth_reach_def)
qed

section \<open>Logging out\<close>

text \<open>A request that gin routes to an endpoint.\<close>

definition routed_to :: "('n, 'r, 's, 'lim, 'o) gateway \<Rightarrow> request \<Rightarrow> registered \<Rightarrow> params \<Rightarrow> bool" where
  "routed_to G rq g ps \<longleftrightarrow> gw_gin G (RegisterRouter (gw_metrics G \<noteq> None)) (rq_method rq) (rq_path rq) = Hit g ps"

lemma served:
  assumes "routed_to G rq g ps" "rg_end g = Api cls k"
  obtains (early) "snd (snd (serve_http G e sf call rq st)) = snd st" "rs_status (fst (fst (serve_http G e sf call rq st))) \<in> {204, 429}"
    "rq_method rq = ''OPTIONS'' \<or> 0 < gw_rps G"
  | (chain) c where "g_meta c = Some anonymous"
    "(fst (fst (serve_http G e sf call rq st)), snd (snd (serve_http G e sf call rq st))) =
      (case classMiddleWires (auth_wire G e (snd st)) cls rq c of
         Inl resp \<Rightarrow> (resp, snd st) | Inr c1 \<Rightarrow> handler_of (gw_codec G) call k rq ps c1 (snd st))"
proof (cases "CORS (gw_origins G) rq (AddMetaData (e_now e) sf gctx0)")
  case (Inl p)
  then have "rq_method rq = ''OPTIONS'' \<and> fst p = no_content" by (auto simp: CORS_def Let_def split: if_splits)
  with Inl assms show thesis
    by (intro early) (auto simp: serve_http_def routed_to_def no_content_def split: prod.split)
next
  case (Inr c)
  obtain res rl where l: "(if 0 < gw_rps G then rate_limit (gw_rate G) (e_now e) rq (fst st) else (None, fst st)) = (res, rl)"
    by (meson surj_pair)
  show thesis
  proof (cases res)
    case None
    have "g_meta c = Some anonymous" using cors_meta [OF Inr] by (simp add: seeded)
    with Inr None l assms show thesis
      by (intro chain [of c]) (simp_all add: serve_http_def routed_to_def serve_endpoint_def split: prod.split sum.split)
  next
    case (Some resp)
    have "rs_status resp = 429"
      using l Some by (auto simp: rate_limit_def split: if_splits prod.splits)
    moreover have "0 < gw_rps G" using l Some by (auto split: if_splits)
    ultimately show thesis using Inr Some l assms by (intro early) (auto simp: serve_http_def routed_to_def)
  qed
qed

lemma authH_Logout_handler [simp]: "handler_of D call R_Logout rq ps c s = callProto D call rq c (empty_message R_Logout) s"
  by (simp add: handler_of_def authH_Logout_def)

lemma callProto_ok:
  assumes "callProto D call rq c m s = (resp, s')" "rs_status resp = 200" "codec_ok D"
  obtains m1 where "m_rpc m1 = m_rpc m" "s' = snd (call (ctx_of rq c) m1 s)"
proof (cases "bindRequestBody D rq m")
  case (Pair r rq1)
  from assms(1,2) Pair obtain m1 where "r = Inr m1" by (cases r) (auto simp: callProto_def)
  with Pair assms(1) bind_rpc [OF assms(3)] bind_request [OF Pair, of c] that [of m1] show thesis
    by (auto simp: callProto_def ctx_of_def split: sum.splits prod.splits)
qed

lemma logout_revokes:
  assumes "lib_sound (ac_lib A)" "cache_on s" "\<not> kv_fault e [''set'', bl_key t]" "t \<noteq> []"
    and "ParseAccessToken (ac_lib A) (ac_jwt A) (e_now e) t = Inr cl"
  shows "revoked t cl (snd (Logout A e t tr s))"
proof -
  have p: "ParseToken (ac_lib A) (ac_jwt A) (e_now e) t = Inr cl" using assms(5) by (simp add: ParseAccess_ok)
  have r: "revoked t cl (revoke e t cl s)"
    using revoke_revoked [of s e cl t] parse_live [OF assms(1) p] assms(2,3) by simp
  have "revoked t cl (revoke_if e (ParseRefreshToken (ac_lib A) (ac_jwt A) (e_now e)) tr (revoke e t cl s))"
  proof (cases "tr = [] \<or> \<not> is_ok (ParseRefreshToken (ac_lib A) (ac_jwt A) (e_now e) tr)")
    case False
    then obtain c' where c': "ParseRefreshToken (ac_lib A) (ac_jwt A) (e_now e) tr = Inr c'" by (auto simp: is_ok_iff)
    then have "ParseToken (ac_lib A) (ac_jwt A) (e_now e) tr = Inr c'" by (simp add: ParseRefresh_ok)
    with revoked_kept [OF assms(1) p r, of e tr c'] False c' show ?thesis by (simp add: revoke_if_def)
  qed (use r in \<open>auto simp: revoke_if_def is_ok_def split: sum.splits\<close>)
  with assms show ?thesis by (simp add: Logout_def revoke_if_def)
qed

lemma revoked_blacklisted:
  assumes "lib_sound (ac_lib A)" "ParseToken (ac_lib A) (ac_jwt A) now t = Inr cl" "revoked t cl s" "\<not> kv_fault e [''exists'', bl_key t]"
    and "ParseToken (ac_lib A) (ac_jwt A) (e_now e) t = Inr c'" "not_last_second (e_now e) cl"
  shows "IsTokenBlackListed e True t (a_kv s)"
proof -
  have "c' = cl" "e_now e < ExpiresAt c'" using assms by (auto intro: parse_unique parse_live)
  with assms(3,4,6) show ?thesis
    by (auto simp: revoked_def not_last_second_def IsTokenBlackListed_def rc_exists_def live_def)
qed

lemma gateway_parse: "deployed A G \<Longrightarrow> ParseAccessToken (gw_lib G) (gw_jwt G) now t = ParseAccessToken (ac_lib A) (ac_jwt A) now t"
  by (simp add: deployed_def ParseAccessToken_def ParseToken_def)

lemma logged_out:
  fixes G :: "(nested, reply_msg, world, 'lim, User) gateway"
  assumes d: "deployed A G" "ids_fit G" and on: "cache_on (w_auth (snd st))"
    and route: "routed_to G rq g ps" "rg_end g = Api RouteClassPublic R_Logout" "rq_method rq = ''POST''"
    and tok: "bearer_token rq = Some t" "t \<noteq> []" "ParseAccessToken (ac_lib A) (ac_jwt A) (e_now e) t = Inr cl"
      "ParseAccessToken (ac_lib A) (ac_jwt A) (e_now (x_env x)) t = Inr cl"
    and redis: "\<not> kv_fault (x_env x) [''set'', bl_key t]"
    and res: "serve_http G e sf (serve A wire x) rq st = (out, st1)" "rs_status (fst out) = 200"
  shows "revoked t cl (w_auth (snd st1))"
  using route(1,2)
proof (cases rule: served [where e = e and sf = sf and call = "serve A wire x" and st = st])
  case early
  with res show ?thesis by simp
next
  case (chain c)
  have bc: "bearer_claims G e rq = Some (t, cl)" using tok gateway_parse [OF d(1)] by (simp add: bearer_claims_def)
  show ?thesis
  proof (cases "auth_wire G e (snd st) True rq c")
    case (Inl resp)
    then have "rs_status resp = 401" by (auto simp: auth_wire_def NewJWTAuth_def split: bearer.splits if_splits sum.splits)
    with Inl chain res show ?thesis by (simp add: classMiddleWires_def)
  next
    case (Inr c1)
    then have c1: "c1 = identify cl t c" using bc by (cases rule: auth_wire_cases) simp_all
    from chain res Inr have "callProto (gw_codec G) (serve A wire x) rq c1 (empty_message R_Logout) (snd st) = (fst out, snd st1)"
      by (simp add: classMiddleWires_def)
    moreover have "codec_ok (gw_codec G)" using d(1) by (simp add: deployed_def)
    ultimately obtain m1 where m1: "m_rpc m1 = R_Logout" "snd st1 = snd (serve A wire x (ctx_of rq c1) m1 (snd st))"
      using res(2) by (auto elim: callProto_ok)
    have "AccessToken (seen (ctx_of rq c1)) = t"
      using seen_ctx [of rq c1] claims_id [OF d(2) bc] by (simp add: c1 auth_of_def)
    then have "w_auth (snd st1) = snd (Logout A (x_env x) t (m_s m1 ''refresh_token'') (w_auth (snd st)))"
      by (simp add: m1 serve_def auth_rpcs_def serve_auth_def Let_def svc_Logout_def access_token_of_def seen_def)
    then show ?thesis using logout_revokes on redis tok d(1) by (simp add: deployed_def)
  qed
qed

text \<open>
  C23. Logging out ends the session everywhere: take a deployment with a blacklist, an auth service with a
  cache, and a valid access token; once the gateway has answered a logout with it with 200, and the auth
  service's Redis took the entry, then after any further requests of anybody and any work of an operator,
  a request with that token, on whatever route, is stopped with 401 (or by the rate limiter or as a
  preflight) and changes nothing, provided that Redis answers the look-up, that it is not the last second
  of the token, and that the token is unexpired or the route is not public (a public route treats an
  expired token as an anonymous caller). In the last second the entry can be gone, as in C14.
\<close>
theorem logout_ends_everywhere:
  fixes G :: "(nested, reply_msg, world, 'lim, User) gateway"
  assumes "deployed A G" "ids_fit G" "cache_on (w_auth (snd st))"
    and "routed_to G rq g ps" "rg_end g = Api RouteClassPublic R_Logout" "rq_method rq = ''POST''"
    and "bearer_token rq = Some t" "t \<noteq> []" "ParseAccessToken (ac_lib A) (ac_jwt A) (e_now e) t = Inr cl"
    and "ParseAccessToken (ac_lib A) (ac_jwt A) (e_now (x_env x)) t = Inr cl" "\<not> kv_fault (x_env x) [''set'', bl_key t]"
    and "serve_http G e sf (serve A wire x) rq st = (out, st1)" "rs_status (fst out) = 200"
    and "sys_reach A G st1 st2"
    and "routed_to G rq2 g2 ps2" "rg_end g2 = Api cls k" "bearer_token rq2 = Some t" "\<not> kv_fault e2 [''exists'', bl_key t]"
    and "cls \<noteq> RouteClassPublic \<or> is_ok (ParseAccessToken (ac_lib A) (ac_jwt A) (e_now e2) t)"
    and "not_last_second (e_now e2) cl"
  shows "rs_status (fst (fst (serve_http G e2 sf2 (serve A wire2 x2) rq2 st2))) \<in> {401, 429, 204} \<and>
    snd (snd (serve_http G e2 sf2 (serve A wire2 x2) rq2 st2)) = snd st2"
  using assms(15,16)
proof (cases rule: served [where e = e2 and sf = sf2 and call = "serve A wire2 x2" and st = st2])
  case (chain c)
  have L: "lib_sound (ac_lib A)" using assms(1) by (simp add: deployed_def)
  have p: "ParseToken (ac_lib A) (ac_jwt A) (e_now e) t = Inr cl" using assms(9) by (simp add: ParseAccess_ok)
  have "revoked t cl (w_auth (snd st1))" by (rule logged_out [OF assms(1-13)])
  then have r: "revoked t cl (w_auth (snd st2))"
    using revocation.reach_I [OF sys_accounts [OF assms(14)]] L p by blast
  have "\<exists>resp. auth_wire G e2 (snd st2) opt rq2 c = Inl resp \<and> rs_status resp = 401" if "opt \<longrightarrow> cls = RouteClassPublic" for opt
  proof (cases "ParseAccessToken (ac_lib A) (ac_jwt A) (e_now e2) t")
    case (Inr c')
    then have "IsTokenBlackListed e2 True t (a_kv (w_auth (snd st2)))"
      using revoked_blacklisted [OF L p r assms(18) _ assms(20)] by (simp add: ParseAccess_ok)
    with assms(1,17) show ?thesis
      by (auto simp: auth_wire_def NewJWTAuth_def bearer_token_def deployed_def split: bearer.splits)
  next
    case (Inl er)
    with assms(17,19) that gateway_parse [OF assms(1)] show ?thesis
      by (auto simp: auth_wire_def NewJWTAuth_def bearer_token_def split: bearer.splits)
  qed
  from this [of False] this [of True]
  have "\<exists>resp. classMiddleWires (auth_wire G e2 (snd st2)) cls rq2 c = Inl resp \<and> rs_status resp = 401"
    by (cases cls) (auto simp: classMiddleWires_def and_then_def)
  with chain show ?thesis by auto
qed auto

section \<open>Errors\<close>

text \<open>
  The errors that the services name, with the code 500 for those without a name, arrive with their own status.
\<close>

definition mapped_codes :: "nat list" where "mapped_codes = [400, 401, 403, 404, 409, 429, 500, 503, 504]"

primrec kratos_code_in :: "nat list \<Rightarrow> err \<Rightarrow> bool" where
  "kratos_code_in cs (Kratos c r) \<longleftrightarrow> c \<in> set cs"
| "kratos_code_in cs (Wrap m e) \<longleftrightarrow> kratos_code_in cs e"
| "kratos_code_in cs (Opaque m) \<longleftrightarrow> True"

lemma status_kept: "kratos_code_in mapped_codes er \<Longrightarrow> httpStatusOf (grpc_of er) = err_code er"
  by (induction er) (auto simp: mapped_codes_def httpStatusOf_def grpcToHTTP_def ToGRPCCode_def)

text \<open>The errors that the services name.\<close>

definition service_errors :: "err list" where
  "service_errors =
    [ErrArticleNotFound, ErrSlugAlreadyExists, ErrNotArticleOwner, ErrArticleAlreadyPublished,
     ErrLikesDisabled, ErrHashFailed, ErrTokenFailed, ErrTokenInvalid, ErrTokenBlacklisted, ErrFileNotFound,
     ErrFileTooLarge, ErrMimeNotAllowed, ErrExtensionNotAllowed, ErrInvalidFilename, ErrMimeMismatch,
     ErrInvalidImage, ErrFilePermissionDenied, ErrUserNotAuthenticated, ErrPermissionDenied,
     ErrBackgroundNotFound, ErrInvalidImageFormat, ErrInvalidMusicURL, ErrArticleTitleInvalid,
     ErrArticleContentEmpty, ErrArticleContentTooBig, ErrTagNotFound, ErrTagNameExists, ErrCategoryNotFound,
     ErrCategoryNameExists, ErrCategoryHasChildren, ErrCategoryHasArticles, ErrCategorySlugEmpty,
     ErrTagNameEmpty, ErrCategoryCircularRef, ErrPasswordTooShort, ErrPasswordTooLong, ErrPasswordWeak,
     ErrUsernameInvalid, ErrBioTooLong, ErrUserNotFound, ErrUserDuplicate, ErrUsernameTaken, ErrEmailTaken,
     ErrBadCredentials, ErrAccountDisabled]"

lemma service_codes: "list_all (kratos_code_in mapped_codes) service_errors"
  by (simp add: service_errors_def mapped_codes_def errs
      ErrHashFailed_def ErrTokenFailed_def ErrTokenInvalid_def ErrTokenBlacklisted_def)

text \<open>
  C26. Errors keep their meaning on the way out: when a service answers an error with one of the codes in
  use (wrapped or not; one without a code counts as 500), the client receives exactly that HTTP status,
  the same number as the business code, no data, and the message that the service gave when it gave one;
  and every error that the services name carries such a code.
\<close>
theorem error_status_kept:
  assumes "wire_ok wire" "kratos_code_in mapped_codes er" "bindRequestBody D rq m = (Inr m1, rq1)"
    and "call (NewClientCtx no_ctx (Some (BuildRequestMeta rq1 c))) m1 s = (Inl (wire er), s1)"
  shows "rs_status (fst (callProto D call rq c m s)) = err_code er \<and> rs_code (fst (callProto D call rq c m s)) = err_code er \<and>
    rs_data (fst (callProto D call rq c m s)) = None \<and>
    (st_kratos (wire er) = Some (a # t) \<longrightarrow> rs_msg (fst (callProto D call rq c m s)) = a # t) \<and>
    list_all (kratos_code_in mapped_codes) service_errors"
proof -
  obtain ke t' where "wire er = GrpcStatus (grpc_of er) ke t'" using assms(1) unfolding wire_ok_def by blast
  with assms(3,4) status_kept [OF assms(2)] service_codes show ?thesis
    by (simp add: callProto_def MapGRPCError_def Fail_def JSON_def)
qed

section \<open>Witnesses\<close>

definition toy_world :: world where
  "toy_world = \<lparr>w_auth = one_user, w_blog = blog0, w_files = files0, w_site = site0\<rparr>"

definition toy_outside :: outside where
  "toy_outside = \<lparr>x_env = env0, x_jtis = (''1'', ''2''), x_key = ''k'', x_uid = ''u'', x_rfc = (\<lambda>_. []), x_day = (\<lambda>_. []),
     x_presign = (\<lambda>_ _ _. Inr []), x_article_order = (\<lambda>_ l. l), x_file_order = (\<lambda>l. l), x_like = (\<lambda>_ _. False)\<rparr>"

definition toy_wire :: "err \<Rightarrow> callerr" where
  "toy_wire er = GrpcStatus (grpc_of er) (Some (err_reason er)) (err_reason er)"

definition toy_system :: "(nested, reply_msg, world, int, User) gateway" where
  "toy_system = toy_gateway (toy_jwt (payload_of (toUser ann))) (\<lambda>w. a_kv (w_auth w))"

abbreviation toy_start :: "int ipRateLimiter \<times> world" where
  "toy_start \<equiv> (new_rate_limiter 0 0, toy_world)"

lemma toy_deployed: "deployed ann_cfg toy_system" "ids_fit toy_system"
proof -
  have "pl_UserId (payload_of (toUser ann)) \<le> max_uint64" by (simp add: payload_of_def ann_def)
  then show "deployed ann_cfg toy_system" "ids_fit toy_system"
    by (simp_all add: deployed_def toy_system_def toy_ids)
qed

theorem requests_act_for_bearer_witness:
  "let w = snd (snd (serve_http toy_system env0 None (serve ann_cfg toy_wire toy_outside)
      (toy_request ''PUT'' (apiV1BasePath @ ''/site/config'') ''Bearer a'') toy_start))
   in site_tables (w_site w) = site_tables site0"
proof -
  let ?rq = "toy_request ''PUT'' (apiV1BasePath @ ''/site/config'') ''Bearer a''"
  have "file_reach (\<lambda>_. True) files0 (w_files (snd toy_start))" "new_key (w_files (snd toy_start)) (x_key toy_outside)"
    by (simp_all add: file_reach_def toy_world_def new_key_def direct_key_def files0_def toy_outside_def)
  note m = requests_act_for_bearer [OF toy_deployed this refl, of env0 None toy_wire ?rq]
  have "bearer_claims toy_system env0 ?rq = Some (''a'', toy_claims TokenTypeAccess (15 * second) ''1'' (payload_of (toUser ann)))"
    by (simp add: toy_system_def bearer_claims_def bearer_token_def toy_bearer_a toy_parse)
  moreover have "pl_Role (payload_of (toUser ann)) \<noteq> adminRole" by (simp add: payload_of_def toUser_def ann_def adminRole_def)
  ultimately have "\<not> bearer_is toy_system env0 (snd toy_start) ?rq (\<lambda>p. pl_Role p = adminRole)"
    by (simp add: bearer_is_def toy_claims_def)
  with m show ?thesis by (simp add: Let_def toy_world_def)
qed

definition toy_logout :: request where
  "toy_logout = toy_request ''POST'' (apiV1BasePath @ ''/auth/logout'') ''Bearer a''"

lemma toy_not_listed: "\<not> IsTokenBlackListed env0 True t (a_kv one_user)" "cache_on one_user"
  by (simp_all add: IsTokenBlackListed_def rc_exists_def live_def one_user_def auth0_def)

lemma toy_logout_call:
  "m_rpc m = R_Logout \<Longrightarrow> \<exists>w1. serve ann_cfg toy_wire toy_outside x m toy_world = (Inr EmptyReply, w1)"
  by (simp add: serve_def auth_rpcs_def serve_auth_def svc_Logout_def Logout_def with_auth_def finished_def Let_def
      toy_world_def toy_not_listed)

lemma toy_logout_handler:
  "rs_status (fst (callProto toy_codec (serve ann_cfg toy_wire toy_outside) toy_logout c (empty_message R_Logout) toy_world)) = 200"
proof -
  have "bindRequestBody (toy_codec :: (nested, reply_msg) codec) toy_logout (empty_message R_Logout) = (Inr (empty_message R_Logout), toy_logout)"
    by (simp add: bindRequestBody_def toy_logout_def toy_request_def trim_space_def trim_segs_def)
  moreover obtain w1 where "serve ann_cfg toy_wire toy_outside (NewClientCtx no_ctx (Some (BuildRequestMeta toy_logout c)))
      (empty_message R_Logout) toy_world = (Inr EmptyReply, w1)"
    using toy_logout_call by fastforce
  moreover have "cd_marshal (toy_codec :: (nested, reply_msg) codec) r = Inr []" for r by (simp add: toy_codec_def)
  ultimately show ?thesis by (simp add: callProto_def)
qed

lemma toy_logout_answer:
  obtains out st1 where "serve_http toy_system env0 None (serve ann_cfg toy_wire toy_outside) toy_logout toy_start = (out, st1)"
    "rs_status (fst out) = 200"
proof -
  obtain g where g: "routed_to toy_system toy_logout g (\<lambda>_. [])" "rg_end g = Api RouteClassPublic R_Logout"
    using toy_finds(1) by (auto simp: routed_to_def toy_system_def toy_logout_def)
  let ?r = "serve_http toy_system env0 None (serve ann_cfg toy_wire toy_outside) toy_logout toy_start"
  have "rs_status (fst (fst ?r)) = 200"
    using g
  proof (cases rule: served [where e = env0 and sf = None and call = "serve ann_cfg toy_wire toy_outside" and st = toy_start])
    case early
    then show ?thesis by (simp add: toy_logout_def toy_system_def)
  next
    case (chain c)
    have "auth_wire toy_system env0 toy_world True toy_logout c = Inr (identify (toy_claims TokenTypeAccess (15 * second) ''1'' (payload_of (toUser ann))) ''a'' c)"
      using toy_not_listed by (simp add: auth_wire_def NewJWTAuth_def toy_system_def toy_logout_def toy_bearer_a toy_parse toy_world_def)
    moreover have "gw_codec toy_system = toy_codec" by (simp add: toy_system_def)
    ultimately have "(fst (fst ?r), snd (snd ?r)) = callProto toy_codec (serve ann_cfg toy_wire toy_outside) toy_logout
        (identify (toy_claims TokenTypeAccess (15 * second) ''1'' (payload_of (toUser ann))) ''a'' c) (empty_message R_Logout) toy_world"
      using chain(2) by (simp add: classMiddleWires_def)
    then show ?thesis using toy_logout_handler by (metis fst_conv)
  qed
  then show thesis using that by (cases ?r) auto
qed

theorem logout_ends_everywhere_witness:
  "\<exists>st1. serve_http toy_system env0 None (serve ann_cfg toy_wire toy_outside) toy_logout toy_start = st1 \<and>
    rs_status (fst (fst (serve_http toy_system (env0\<lparr>e_now := 14 * second\<rparr>) None (serve ann_cfg toy_wire toy_outside)
      (toy_request ''GET'' (apiV1BasePath @ ''/tags'') ''Bearer a'') (snd st1)))) \<in> {401, 429, 204}"
proof -
  let ?rq2 = "toy_request ''GET'' (apiV1BasePath @ ''/tags'') ''Bearer a''"
  let ?cl = "toy_claims TokenTypeAccess (15 * second) ''1'' (payload_of (toUser ann))"
  obtain out st1 where a: "serve_http toy_system env0 None (serve ann_cfg toy_wire toy_outside) toy_logout toy_start = (out, st1)"
    "rs_status (fst out) = 200" by (rule toy_logout_answer)
  obtain g where g: "routed_to toy_system toy_logout g (\<lambda>_. [])" "rg_end g = Api RouteClassPublic R_Logout"
    using toy_finds(1) by (auto simp: routed_to_def toy_system_def toy_logout_def)
  obtain g2 where g2: "routed_to toy_system ?rq2 g2 (\<lambda>_. [])" "rg_end g2 = Api RouteClassPublic R_ListTags"
    using toy_finds(2) by (auto simp: routed_to_def toy_system_def)
  have t: "bearer_token toy_logout = Some ''a''" "bearer_token ?rq2 = Some ''a''"
    by (simp_all add: bearer_token_def toy_logout_def toy_bearer_a)
  have live: "is_ok (ParseAccessToken (toy_jwt p) toy_config (14 * second) ''a'')" for p
    by (simp add: ParseAccessToken_def ParseToken_def toy_jwt_def toy_lib_def toy_claims_def)
  have last: "not_last_second (14 * second) ?cl" by (simp add: not_last_second_def toy_claims_def)
  have on: "cache_on (w_auth (snd toy_start))" by (simp add: toy_world_def toy_not_listed)
  have "sys_reach ann_cfg toy_system st1 st1" by (simp add: sys_reach_def)
  from logout_ends_everywhere [OF toy_deployed on g _ t(1) _ _ _ _ a this g2 t(2), where cl = ?cl and ?e2.0 = "env0\<lparr>e_now := 14 * second\<rparr>"
      and ?sf2.0 = None and ?wire2.0 = toy_wire and ?x2.0 = toy_outside]
  show ?thesis using a(1) live last by (auto simp: toy_logout_def toy_outside_def toy_parse env0_def)
qed

definition failing :: "(unit, unit, unit) invoke" where
  "failing x m s = (Inl (toy_wire (Wrap ''create'' ErrTagNameExists)), s)"

theorem error_status_kept_witness:
  "rs_status (fst (callProto toy_codec failing (toy_request ''GET'' [] []) gctx0 (empty_message R_ListTags) ())) = 409"
proof -
  let ?er = "Wrap ''create'' ErrTagNameExists" and ?rq = "toy_request ''GET'' [] []"
  have "wire_ok toy_wire" by (auto simp: wire_ok_def toy_wire_def)
  moreover have "kratos_code_in mapped_codes ?er" "err_code ?er = 409" by (simp_all add: mapped_codes_def errs)
  moreover have "bindRequestBody (toy_codec :: (unit, unit) codec) ?rq (empty_message R_ListTags) = (Inr (empty_message R_ListTags), ?rq)"
    by (simp add: bindRequestBody_def)
  moreover have "failing x m s = (Inl (toy_wire ?er), s)" for x m s by (simp add: failing_def)
  ultimately show ?thesis using error_status_kept [of toy_wire ?er toy_codec ?rq _ _ ?rq failing] by metis
qed

end
