(* ===== verification/TaskHeap.thy ===== *)
theory TaskHeap
  imports GoStrings "HOL-Library.Multiset"
begin

text \<open>
  The priority queue of the task package (pkg/task/task.go, pkg/task/worker_pool.go): tasks, the order
  in which they are served, and the binary heap of the standard library's container/heap in a slice.
  Tasks are shared by reference, so a queue holds addresses and the tasks live in a store.
\<close>

section \<open>The heap of container/heap\<close>

definition swap :: "nat \<Rightarrow> nat \<Rightarrow> 'a list \<Rightarrow> 'a list" where
  "swap i j xs = xs[i := xs ! j, j := xs ! i]"

lemma swap_simps [simp]: "length (swap i j xs) = length xs"
  "i < length xs \<Longrightarrow> j < length xs \<Longrightarrow> swap i j xs ! k = (if k = j then xs ! i else if k = i then xs ! j else xs ! k)"
  "i < length xs \<Longrightarrow> j < length xs \<Longrightarrow> mset (swap i j xs) = mset xs"
  by (auto simp: swap_def nth_list_update mset_swap)

function heap_up :: "('a \<Rightarrow> 'a \<Rightarrow> bool) \<Rightarrow> nat \<Rightarrow> 'a list \<Rightarrow> 'a list" where
  "heap_up lt j xs =
    (let i = (j - 1) div 2 in
     if i = j \<or> \<not> lt (xs ! j) (xs ! i) then xs else heap_up lt i (swap i j xs))"
  by pat_completeness auto

termination by (relation "measure (\<lambda>(lt, j, xs). j)") auto

function heap_down :: "('a \<Rightarrow> 'a \<Rightarrow> bool) \<Rightarrow> nat \<Rightarrow> nat \<Rightarrow> 'a list \<Rightarrow> 'a list" where
  "heap_down lt i n xs =
    (let j1 = 2 * i + 1; j2 = j1 + 1; j = (if j2 < n \<and> lt (xs ! j2) (xs ! j1) then j2 else j1) in
     if n \<le> j1 then xs
     else if \<not> lt (xs ! j) (xs ! i) then xs
     else heap_down lt j n (swap i j xs))"
  by pat_completeness auto

termination by (relation "measure (\<lambda>(lt, i, n, xs). n - i)") (auto simp: Let_def split: if_splits)

declare heap_up.simps [simp del] heap_down.simps [simp del]

definition heap_Push :: "('a \<Rightarrow> 'a \<Rightarrow> bool) \<Rightarrow> 'a \<Rightarrow> 'a list \<Rightarrow> 'a list" where
  "heap_Push lt x xs = heap_up lt (length xs) (xs @ [x])"

definition heap_Pop :: "('a \<Rightarrow> 'a \<Rightarrow> bool) \<Rightarrow> 'a list \<Rightarrow> 'a \<times> 'a list" where
  "heap_Pop lt xs =
    (let n = length xs - 1; ys = heap_down lt 0 n (swap 0 n xs) in (ys ! n, take n ys))"

section \<open>The order of a heap\<close>

text \<open>What Go asks of \<^verbatim>\<open>Less\<close>: a strict order whose ties are transitive.\<close>

definition weak_order :: "('a \<Rightarrow> 'a \<Rightarrow> bool) \<Rightarrow> bool" where
  "weak_order lt \<longleftrightarrow> (\<forall>a b. lt a b \<longrightarrow> \<not> lt b a) \<and> (\<forall>a b c. \<not> lt a b \<longrightarrow> \<not> lt b c \<longrightarrow> \<not> lt a c)"

lemma weak_orderD: "weak_order lt \<Longrightarrow> lt a b \<Longrightarrow> \<not> lt b a"
  "weak_order lt \<Longrightarrow> \<not> lt a b \<Longrightarrow> \<not> lt b c \<Longrightarrow> \<not> lt a c"
  "weak_order lt \<Longrightarrow> lt a b \<Longrightarrow> \<not> lt c b \<Longrightarrow> \<not> lt c a"
  unfolding weak_order_def by blast+

definition parent :: "nat \<Rightarrow> nat" where "parent k = (k - 1) div 2"

definition is_heap :: "('a \<Rightarrow> 'a \<Rightarrow> bool) \<Rightarrow> nat \<Rightarrow> 'a list \<Rightarrow> bool" where
  "is_heap lt n xs \<longleftrightarrow> (\<forall>k. 0 < k \<and> k < n \<longrightarrow> \<not> lt (xs ! k) (xs ! (parent k)))"

text \<open>A heap but for the place of one element, which may be too small or too large for it.\<close>

definition heap_but_up :: "('a \<Rightarrow> 'a \<Rightarrow> bool) \<Rightarrow> nat \<Rightarrow> nat \<Rightarrow> 'a list \<Rightarrow> bool" where
  "heap_but_up lt j n xs \<longleftrightarrow>
    (\<forall>k. 0 < k \<and> k < n \<and> k \<noteq> j \<longrightarrow> \<not> lt (xs ! k) (xs ! (parent k))) \<and>
    (\<forall>k. 0 < k \<and> k < n \<and> parent k = j \<and> 0 < j \<longrightarrow> \<not> lt (xs ! k) (xs ! (parent j)))"

definition heap_but_down :: "('a \<Rightarrow> 'a \<Rightarrow> bool) \<Rightarrow> nat \<Rightarrow> nat \<Rightarrow> 'a list \<Rightarrow> bool" where
  "heap_but_down lt i n xs \<longleftrightarrow>
    (\<forall>k. 0 < k \<and> k < n \<and> parent k \<noteq> i \<longrightarrow> \<not> lt (xs ! k) (xs ! (parent k))) \<and>
    (\<forall>k. 0 < k \<and> k < n \<and> parent k = i \<and> 0 < i \<longrightarrow> \<not> lt (xs ! k) (xs ! (parent i)))"

lemma child_cases: "0 < k \<Longrightarrow> parent k = i \<longleftrightarrow> k = 2 * i + 1 \<or> k = 2 * i + 2"
  by (auto simp: parent_def)

lemma parent_less: "0 < k \<Longrightarrow> parent k < k" "parent 0 = 0"
  by (auto simp: parent_def)

lemma heap_up_step:
  "heap_up lt j xs = (if parent j = j \<or> \<not> lt (xs ! j) (xs ! parent j) then xs else heap_up lt (parent j) (swap (parent j) j xs))"
  by (subst heap_up.simps) (simp add: Let_def parent_def)

lemma swap_up:
  assumes "weak_order lt" "heap_but_up lt j n xs" "n \<le> length xs" "j < n" "0 < j" "lt (xs ! j) (xs ! (parent j))"
  shows "heap_but_up lt (parent j) n (swap (parent j) j xs)"
proof -
  define i where "i = parent j"
  have ij: "i < j" "i < length xs" "j < length xs" using assms(3-5) parent_less(1) [OF assms(5)] by (auto simp: i_def)
  have a: "\<not> lt (xs ! k) (xs ! (parent k))" if "0 < k" "k < n" "k \<noteq> j" for k
    using assms(2) that by (simp add: heap_but_up_def)
  have b: "\<not> lt (xs ! k) (xs ! i)" if "0 < k" "k < n" "parent k = j" for k
    using assms(2,5) that by (simp add: heap_but_up_def i_def)
  have l: "lt (xs ! j) (xs ! i)" using assms(6) by (simp add: i_def)
  note w = weak_orderD [OF assms(1)]
  show ?thesis unfolding i_def [symmetric] heap_but_up_def
  proof (intro conjI allI impI)
    fix k assume k: "0 < k \<and> k < n \<and> k \<noteq> i"
    show "\<not> lt (swap i j xs ! k) (swap i j xs ! (parent k))"
    proof (cases "k = j")
      case True
      then show ?thesis using ij w(1) [OF l] by (simp add: i_def [symmetric])
    next
      case False
      have "\<not> lt (xs ! k) (xs ! j)" if "parent k = i" using a [of k] that k False w(3) [OF l] by simp
      moreover have "\<not> lt (xs ! k) (xs ! i)" if "parent k = j" using b that k by simp
      ultimately show ?thesis using False k ij a [of k] by auto
    qed
  next
    fix k assume k: "0 < k \<and> k < n \<and> parent k = i \<and> 0 < i"
    have p: "\<not> lt (xs ! i) (xs ! (parent i))" using a [of i] k ij assms(4) by simp
    moreover have "\<not> lt (xs ! k) (xs ! i)" if "k \<noteq> j" using a [of k] k that by simp
    ultimately have "\<not> lt (xs ! k) (xs ! (parent i))" if "k \<noteq> j" using w(2) that by blast
    then show "\<not> lt (swap i j xs ! k) (swap i j xs ! (parent i))" using k ij p parent_less(1) [of i] by auto
  qed
qed

lemma heap_up_heap:
  assumes "weak_order lt" "heap_but_up lt j n xs" "n \<le> length xs" "j < n"
  shows "is_heap lt n (heap_up lt j xs) \<and> mset (heap_up lt j xs) = mset xs"
  using assms
proof (induction j arbitrary: xs rule: less_induct)
  case (less j xs)
  show ?case
  proof (cases "parent j = j \<or> \<not> lt (xs ! j) (xs ! parent j)")
    case True
    then have "heap_up lt j xs = xs" by (simp add: heap_up_step [where j = j])
    moreover have "\<not> lt (xs ! j) (xs ! parent j)" if "0 < j" using True parent_less(1) [OF that] by auto
    ultimately show ?thesis using less.prems(2) by (auto simp: is_heap_def heap_but_up_def)
  next
    case False
    then have "0 < j" using parent_less(2) by (cases j) auto
    then have j: "0 < j" "parent j < j" using parent_less(1) by simp_all
    have "heap_but_up lt (parent j) n (swap (parent j) j xs)" using less.prems False j by (intro swap_up) auto
    from less.IH [OF j(2) less.prems(1) this] show ?thesis using less.prems(3,4) j False by (simp add: heap_up_step [where j = j])
  qed
qed

lemma swap_down:
  assumes "weak_order lt" "heap_but_down lt i n xs" "n \<le> length xs" "j < n" "0 < j" "parent j = i"
    and "lt (xs ! j) (xs ! i)" "\<And>k. 0 < k \<Longrightarrow> k < n \<Longrightarrow> parent k = i \<Longrightarrow> \<not> lt (xs ! k) (xs ! j)"
  shows "heap_but_down lt j n (swap i j xs)"
proof -
  have ij: "i < j" "i < length xs" "j < length xs" using assms(3-6) parent_less(1) [OF assms(5)] by auto
  have a: "\<not> lt (xs ! k) (xs ! (parent k))" if "0 < k" "k < n" "parent k \<noteq> i" for k
    using assms(2) that by (simp add: heap_but_down_def)
  have b: "\<not> lt (xs ! k) (xs ! (parent i))" if "0 < k" "k < n" "parent k = i" "0 < i" for k
    using assms(2) that by (simp add: heap_but_down_def)
  note w = weak_orderD [OF assms(1)]
  show ?thesis unfolding heap_but_down_def
  proof (intro conjI allI impI)
    fix k assume k: "0 < k \<and> k < n \<and> parent k \<noteq> j"
    show "\<not> lt (swap i j xs ! k) (swap i j xs ! (parent k))"
    proof (cases "k = j")
      case True
      then show ?thesis using ij assms(6) w(1) [OF assms(7)] by simp
    next
      case False
      have "\<not> lt (xs ! j) (xs ! (parent i))" if "k = i" using b [of j] assms(4-6) that k by simp
      then show ?thesis using False k ij a [of k] assms(8) [of k] parent_less(1) [of k] by auto
    qed
  next
    fix k assume k: "0 < k \<and> k < n \<and> parent k = j \<and> 0 < j"
    have "\<not> lt (xs ! k) (xs ! j)" using a [of k] k ij by auto
    then show "\<not> lt (swap i j xs ! k) (swap i j xs ! (parent j))" using k ij assms(6) parent_less(1) [of k] by auto
  qed
qed

definition best_child :: "('a \<Rightarrow> 'a \<Rightarrow> bool) \<Rightarrow> nat \<Rightarrow> nat \<Rightarrow> 'a list \<Rightarrow> nat" where
  "best_child lt i n xs = (if 2 * i + 2 < n \<and> lt (xs ! (2 * i + 2)) (xs ! (2 * i + 1)) then 2 * i + 2 else 2 * i + 1)"

lemma best_child_range: "i < best_child lt i n xs" "parent (best_child lt i n xs) = i"
  "2 * i + 1 < n \<Longrightarrow> best_child lt i n xs < n"
  by (simp_all add: best_child_def parent_def)

lemma best_child_least:
  assumes "weak_order lt" "0 < k" "k < n" "parent k = i"
  shows "\<not> lt (xs ! k) (xs ! best_child lt i n xs)"
proof -
  have irrefl: "\<not> lt a a" for a using weak_orderD(1) [OF assms(1), of a a] by blast
  consider "k = 2 * i + 1" | "k = 2 * i + 2" using child_cases [OF assms(2), of i] assms(4) by blast
  then show ?thesis
  proof cases
    case 1
    then show ?thesis using irrefl weak_orderD(1) [OF assms(1), of "xs ! (2 * i + 2)"] by (simp add: best_child_def)
  next
    case 2
    then show ?thesis using irrefl assms(3) by (simp add: best_child_def)
  qed
qed

lemma heap_down_step:
  "heap_down lt i n xs =
    (if n \<le> 2 * i + 1 \<or> \<not> lt (xs ! best_child lt i n xs) (xs ! i) then xs
     else heap_down lt (best_child lt i n xs) n (swap i (best_child lt i n xs) xs))"
  by (subst heap_down.simps) (simp add: Let_def best_child_def)

lemma heap_down_heap:
  assumes "weak_order lt" "heap_but_down lt i n xs" "n \<le> length xs"
  shows "is_heap lt n (heap_down lt i n xs) \<and> mset (heap_down lt i n xs) = mset xs \<and>
    length (heap_down lt i n xs) = length xs \<and> (\<forall>k. n \<le> k \<longrightarrow> heap_down lt i n xs ! k = xs ! k)"
  using assms
proof (induction "n - i" arbitrary: i xs rule: less_induct)
  case (less i xs)
  define j where "j = best_child lt i n xs"
  show ?case
  proof (cases "n \<le> 2 * i + 1 \<or> \<not> lt (xs ! j) (xs ! i)")
    case True
    have "\<not> lt (xs ! k) (xs ! i)" if k: "0 < k" "k < n" "parent k = i" for k
    proof -
      have "\<not> lt (xs ! j) (xs ! i)" using True k child_cases [OF k(1)] by auto
      then show ?thesis using best_child_least [OF less.prems(1) k, of xs] weak_orderD(2) [OF less.prems(1)] unfolding j_def by blast
    qed
    then have "is_heap lt n xs" using less.prems(2) by (auto simp: is_heap_def heap_but_down_def)
    then show ?thesis using True by (simp add: heap_down_step [where i = i] j_def)
  next
    case False
    note c = best_child_range [where lt = lt and i = i and n = n and xs = xs, folded j_def]
    have j: "j < n" "0 < j" "i < length xs" "j < length xs" using False less.prems(3) c by auto
    have h: "heap_but_down lt j n (swap i j xs)"
      by (rule swap_down [OF less.prems j(1,2) c(2)]) (use False best_child_least [OF less.prems(1)] in \<open>auto simp: j_def\<close>)
    have "n - j < n - i" using c(1) j(1) by linarith
    from less.hyps [OF this less.prems(1) h] less.prems(3) have "is_heap lt n (heap_down lt j n (swap i j xs)) \<and>
      mset (heap_down lt j n (swap i j xs)) = mset xs \<and> length (heap_down lt j n (swap i j xs)) = length xs \<and>
      (\<forall>k. n \<le> k \<longrightarrow> heap_down lt j n (swap i j xs) ! k = swap i j xs ! k)" using j by simp
    then show ?thesis using j False c(1) by (simp add: heap_down_step [where i = i] j_def [symmetric])
  qed
qed

lemma heap_root:
  assumes "weak_order lt" "is_heap lt n xs" "k < n"
  shows "\<not> lt (xs ! k) (xs ! 0)"
  using assms(3)
proof (induction k rule: less_induct)
  case (less k)
  show ?case
  proof (cases "k = 0")
    case True
    then show ?thesis using weak_orderD(1) [OF assms(1), of "xs ! 0" "xs ! 0"] by auto
  next
    case False
    then have "\<not> lt (xs ! k) (xs ! (parent k))" using assms(2) less.prems by (simp add: is_heap_def)
    moreover have "\<not> lt (xs ! (parent k)) (xs ! 0)" using less.prems False parent_less(1) [of k] by (intro less.IH) auto
    ultimately show ?thesis using weak_orderD(2) [OF assms(1)] by blast
  qed
qed

lemma heap_Push_heap:
  assumes "weak_order lt" "is_heap lt (length xs) xs"
  shows "is_heap lt (length (heap_Push lt x xs)) (heap_Push lt x xs)" "mset (heap_Push lt x xs) = add_mset x (mset xs)"
proof -
  have p: "parent k < length xs" if "0 < k" "k < Suc (length xs)" for k using parent_less(1) [OF that(1)] that(2) by simp
  have "heap_but_up lt (length xs) (Suc (length xs)) (xs @ [x])"
    unfolding heap_but_up_def
  proof (intro conjI allI impI)
    fix k assume k: "0 < k \<and> k < Suc (length xs) \<and> k \<noteq> length xs"
    then have "k < length xs" "\<not> lt (xs ! k) (xs ! parent k)" using assms(2) by (simp_all add: is_heap_def)
    then show "\<not> lt ((xs @ [x]) ! k) ((xs @ [x]) ! parent k)" using p [of k] k by (simp add: nth_append)
  next
    fix k assume "0 < k \<and> k < Suc (length xs) \<and> parent k = length xs \<and> 0 < length xs"
    then have False using p [of k] by simp
    then show "\<not> lt ((xs @ [x]) ! k) ((xs @ [x]) ! parent (length xs))" ..
  qed
  then have h: "is_heap lt (Suc (length xs)) (heap_Push lt x xs) \<and> mset (heap_Push lt x xs) = mset (xs @ [x])"
    using heap_up_heap [OF assms(1)] by (simp add: heap_Push_def)
  then have "size (mset (heap_Push lt x xs)) = Suc (length xs)" by simp
  then have "length (heap_Push lt x xs) = Suc (length xs)" by (simp only: size_mset)
  with h show "is_heap lt (length (heap_Push lt x xs)) (heap_Push lt x xs)" by simp
  show "mset (heap_Push lt x xs) = add_mset x (mset xs)" using h by simp
qed

lemma heap_Pop_heap:
  assumes "weak_order lt" "is_heap lt (length xs) xs" "xs \<noteq> []" "heap_Pop lt xs = (x, ys)"
  shows "is_heap lt (length ys) ys" "mset xs = add_mset x (mset ys)" "\<And>y. y \<in># mset xs \<Longrightarrow> \<not> lt y x"
proof -
  define n zs where "n = length xs - 1" and "zs = heap_down lt 0 n (swap 0 n xs)"
  have n: "n < length xs" using assms(3) by (simp add: n_def)
  have sw: "swap 0 n xs ! k = xs ! k" if "0 < k" "k < n" for k using n that by (simp add: swap_def)
  have "\<not> lt (swap 0 n xs ! k) (swap 0 n xs ! parent k)" if k: "0 < k" "k < n" "parent k \<noteq> 0" for k
    using sw [of k] sw [of "parent k"] parent_less(1) [OF k(1)] assms(2) n k by (simp add: is_heap_def)
  then have "heap_but_down lt 0 n (swap 0 n xs)" by (simp add: heap_but_down_def)
  from heap_down_heap [OF assms(1) this] n
  have z: "is_heap lt n zs" "mset zs = mset (swap 0 n xs)" "length zs = length xs" "zs ! n = swap 0 n xs ! n"
    by (simp_all add: zs_def)
  have "length xs = Suc n" using n by (simp add: n_def)
  with z n have z: "is_heap lt n zs" "mset zs = mset xs" "length zs = Suc n" "zs ! n = xs ! 0" by simp_all
  have "heap_Pop lt xs = (zs ! n, take n zs)" by (simp only: heap_Pop_def Let_def n_def zs_def)
  then have x: "x = xs ! 0" "ys = take n zs" using assms(4) z(4) by simp_all
  have "zs = take n zs @ [zs ! n]" using take_Suc_conv_app_nth [of n zs] z(3) by simp
  then have "mset zs = mset (take n zs @ [zs ! n])" by simp
  then show "mset xs = add_mset x (mset ys)" using z x by simp
  show "is_heap lt (length ys) ys" unfolding is_heap_def
  proof (intro allI impI)
    fix k assume "0 < k \<and> k < length ys"
    then have k: "0 < k" "k < n" "parent k < n" using z(3) x(2) parent_less(1) [of k] by simp_all
    then have "\<not> lt (zs ! k) (zs ! parent k)" using z(1) by (simp add: is_heap_def)
    then show "\<not> lt (ys ! k) (ys ! parent k)" using k x(2) by simp
  qed
  show "\<not> lt y x" if "y \<in># mset xs" for y
  proof -
    have "y \<in> set xs" using that by simp
    then obtain k where "k < length xs" "y = xs ! k" unfolding in_set_conv_nth by blast
    then show ?thesis using heap_root [OF assms(1,2), of k] x(1) by simp
  qed
qed

section \<open>Tasks\<close>

datatype TaskStatus = TaskStatusPending | TaskStatusRunning | TaskStatusSuccess | TaskStatusFailed | TaskStatusCancelled

definition TaskStatus_String :: "TaskStatus \<Rightarrow> string" where
  "TaskStatus_String s = (case s of
     TaskStatusPending \<Rightarrow> ''pending'' | TaskStatusRunning \<Rightarrow> ''running'' | TaskStatusSuccess \<Rightarrow> ''success''
   | TaskStatusFailed \<Rightarrow> ''failed'' | TaskStatusCancelled \<Rightarrow> ''cancelled'')"

text \<open>
  What a task's function does is chosen anew at each run, so it is no field here; times and durations are
  in nanoseconds.
\<close>

record Task =
  t_ID :: string
  t_Name :: string
  t_Status :: TaskStatus
  t_Priority :: int
  t_MaxRetries :: int
  t_RetryCount :: int
  t_Timeout :: int
  t_CreatedAt :: int
  t_StartedAt :: "int option"
  t_FinishedAt :: "int option"
  t_Error :: "string option"
  t_Metadata :: "string \<rightharpoonup> string"
  t_result :: "string option"

datatype TaskOption = WithPriority int | WithMaxRetries int | WithTimeout int | WithMetadata string string

definition apply_option :: "TaskOption \<Rightarrow> Task \<Rightarrow> Task" where
  "apply_option op t = (case op of
     WithPriority p \<Rightarrow>
       t\<lparr>t_Priority := (let p1 = (if p < 0 then 0 else p) in if 100 < p1 then 100 else p1)\<rparr>
   | WithMaxRetries m \<Rightarrow> t\<lparr>t_MaxRetries := (if m < 0 then 0 else m)\<rparr>
   | WithTimeout d \<Rightarrow> if 0 < d then t\<lparr>t_Timeout := d\<rparr> else t
   | WithMetadata k v \<Rightarrow> t\<lparr>t_Metadata := (t_Metadata t)(k \<mapsto> v)\<rparr>)"

text \<open>\<^verbatim>\<open>ident\<close> is what \<^verbatim>\<open>generateTaskID\<close> gave.\<close>

definition NewTask :: "string \<Rightarrow> int \<Rightarrow> string \<Rightarrow> TaskOption list \<Rightarrow> Task" where
  "NewTask ident now name opts =
    fold apply_option opts
      \<lparr>t_ID = ident, t_Name = name, t_Status = TaskStatusPending, t_Priority = 50, t_MaxRetries = 3, t_RetryCount = 0,
       t_Timeout = 30 * 10 ^ 9, t_CreatedAt = now, t_StartedAt = None, t_FinishedAt = None, t_Error = None,
       t_Metadata = (\<lambda>_. None), t_result = None\<rparr>"

definition GetResult :: "Task \<Rightarrow> string option" where "GetResult t = t_result t"

text \<open>\<^verbatim>\<open>fmt.Sprintf("task_%d_%d", timestamp, id)\<close>, with the counter that it increments (64 bits wide).\<close>

definition generateTaskID :: "64 word \<Rightarrow> int \<Rightarrow> string \<times> 64 word" where
  "generateTaskID counter now = (''task_'' @ show_int now @ ''_'' @ show_nat (unat (counter + 1)), counter + 1)"

section \<open>The priority queue\<close>

type_synonym store = "nat \<Rightarrow> Task"

definition Less :: "store \<Rightarrow> nat \<Rightarrow> nat \<Rightarrow> bool" where
  "Less st a b \<longleftrightarrow>
    (if t_Priority (st a) = t_Priority (st b) then t_CreatedAt (st a) < t_CreatedAt (st b)
     else t_Priority (st b) < t_Priority (st a))"

definition PushTask :: "store \<Rightarrow> nat \<Rightarrow> nat list \<Rightarrow> nat list" where
  "PushTask st a q = heap_Push (Less st) a q"

definition PopTask :: "store \<Rightarrow> nat list \<Rightarrow> nat option \<times> nat list" where
  "PopTask st q = (if q = [] then (None, q) else case heap_Pop (Less st) q of (a, q1) \<Rightarrow> (Some a, q1))"

definition PeekTask :: "nat list \<Rightarrow> nat option" where
  "PeekTask q = (if q = [] then None else Some (q ! 0))"

definition Size :: "nat list \<Rightarrow> nat" where "Size q = length q"

lemma weak_order_Less: "weak_order (Less st)"
  by (auto simp: weak_order_def Less_def)

definition queue_ok :: "store \<Rightarrow> nat list \<Rightarrow> bool" where
  "queue_ok st q \<longleftrightarrow> is_heap (Less st) (length q) q"

section \<open>The contract of a priority queue\<close>

text \<open>
  What the worker pool relies on: a queue is a multiset of items, and taking one out gives one that no
  other item precedes.
\<close>

locale prio_queue =
  fixes ok :: "'q \<Rightarrow> bool" and items :: "'q \<Rightarrow> 'a multiset" and lt :: "'a \<Rightarrow> 'a \<Rightarrow> bool"
    and push :: "'a \<Rightarrow> 'q \<Rightarrow> 'q" and pop :: "'q \<Rightarrow> 'a option \<times> 'q"
  assumes order: "weak_order lt"
    and push_ok: "ok q \<Longrightarrow> ok (push a q)"
    and push_items: "ok q \<Longrightarrow> items (push a q) = add_mset a (items q)"
    and pop_none: "ok q \<Longrightarrow> pop q = (None, q1) \<Longrightarrow> items q = {#} \<and> q1 = q"
    and pop_some: "ok q \<Longrightarrow> pop q = (Some a, q1) \<Longrightarrow> ok q1 \<and> items q = add_mset a (items q1)"
    and pop_first: "ok q \<Longrightarrow> pop q = (Some a, q1) \<Longrightarrow> b \<in># items q \<Longrightarrow> \<not> lt b a"

text \<open>Taking out one item after the other.\<close>

fun drain :: "('q \<Rightarrow> 'a option \<times> 'q) \<Rightarrow> nat \<Rightarrow> 'q \<Rightarrow> 'a list \<times> 'q" where
  "drain pop 0 q = ([], q)"
| "drain pop (Suc n) q =
    (case pop q of (None, q1) \<Rightarrow> ([], q1) | (Some a, q1) \<Rightarrow> (case drain pop n q1 of (l, q2) \<Rightarrow> (a # l, q2)))"

context prio_queue begin

lemma push_all:
  "ok q \<Longrightarrow> ok (fold push l q) \<and> items (fold push l q) = items q + mset l"
  by (induction l arbitrary: q) (simp_all add: push_ok push_items)

lemma drain_items:
  "ok q \<Longrightarrow> drain pop n q = (l, q1) \<Longrightarrow> ok q1 \<and> items q = mset l + items q1 \<and> length l = min n (size (items q))"
proof (induction n arbitrary: q l)
  case (Suc n)
  show ?case
  proof (cases "fst (pop q)")
    case None
    then obtain q2 where p: "pop q = (None, q2)" by (cases "pop q") auto
    then show ?thesis using Suc.prems pop_none [OF Suc.prems(1) p] by simp
  next
    case (Some a)
    then obtain q2 where p: "pop q = (Some a, q2)" by (cases "pop q") auto
    obtain l2 where d: "drain pop n q2 = (l2, q1)" "l = a # l2"
      using Suc.prems(2) p by (cases "drain pop n q2") auto
    have q2: "ok q2" "items q = add_mset a (items q2)" using pop_some [OF Suc.prems(1) p] by blast+
    from Suc.IH [OF q2(1) d(1)] have i: "ok q1" "items q2 = mset l2 + items q1" "length l2 = min n (size (items q2))"
      by blast+
    have "length l = min (Suc n) (size (items q))" unfolding q2(2) d(2) using i(3) by simp
    then show ?thesis using i(1,2) by (simp add: q2(2) d(2))
  qed
qed simp

lemma drain_sorted:
  "ok q \<Longrightarrow> drain pop n q = (l, q1) \<Longrightarrow> sorted_wrt (\<lambda>a b. \<not> lt b a) l"
proof (induction n arbitrary: q l)
  case (Suc n)
  show ?case
  proof (cases "fst (pop q)")
    case None
    then show ?thesis using Suc.prems by (cases "pop q") auto
  next
    case (Some a)
    then obtain q2 where p: "pop q = (Some a, q2)" by (cases "pop q") auto
    obtain l2 where d: "drain pop n q2 = (l2, q1)" "l = a # l2"
      using Suc.prems(2) p by (cases "drain pop n q2") auto
    have q2: "ok q2" "items q = add_mset a (items q2)" using pop_some [OF Suc.prems(1) p] by blast+
    have "\<not> lt b a" if "b \<in> set l2" for b
      using pop_first [OF Suc.prems(1) p, of b] drain_items [OF q2(1) d(1)] q2(2) that by auto
    then show ?thesis using d(2) Suc.IH [OF q2(1) d(1)] by simp
  qed
qed simp

end

interpretation tq: prio_queue "queue_ok st" mset "Less st" "PushTask st" "PopTask st" for st :: store
proof
  show "weak_order (Less st)" by (rule weak_order_Less)
  fix q a q1 b
  assume q: "queue_ok st q"
  show "queue_ok st (PushTask st a q)" "mset (PushTask st a q) = add_mset a (mset q)"
    using heap_Push_heap [OF weak_order_Less, of st q] q by (simp_all add: queue_ok_def PushTask_def)
  show "mset q = {#} \<and> q1 = q" if "PopTask st q = (None, q1)"
    using that by (simp add: PopTask_def split: if_splits prod.splits)
  assume "PopTask st q = (Some a, q1)"
  then have p: "q \<noteq> []" "heap_Pop (Less st) q = (a, q1)" by (simp_all add: PopTask_def split: if_splits prod.splits)
  note h = heap_Pop_heap [OF weak_order_Less _ p, folded queue_ok_def]
  show "queue_ok st q1 \<and> mset q = add_mset a (mset q1)" using h(1,2) q by (simp add: queue_ok_def)
  show "\<not> Less st b a" if "b \<in># mset q" using h(3) q that by (simp add: queue_ok_def)
qed

text \<open>The order depends on priority and creation time only, which no operation changes.\<close>

lemma queue_ok_cong:
  assumes "\<And>a. a \<in> set q \<Longrightarrow> t_Priority (st a) = t_Priority (st1 a) \<and> t_CreatedAt (st a) = t_CreatedAt (st1 a)"
  shows "queue_ok st q = queue_ok st1 q"
proof -
  have "Less st (q ! k) (q ! parent k) = Less st1 (q ! k) (q ! parent k)" if "0 < k" "k < length q" for k
    using assms [of "q ! k"] assms [of "q ! parent k"] parent_less(1) [OF that(1)] that by (simp add: Less_def)
  then show ?thesis by (auto simp: queue_ok_def is_heap_def)
qed

lemma queue_ok_Nil [simp]: "queue_ok st []"
  by (simp add: queue_ok_def is_heap_def)

lemma peek_pop:
  assumes "queue_ok st q" "PopTask st q = (Some a, q1)"
  shows "PeekTask q = Some a"
proof -
  have p: "q \<noteq> []" "heap_Pop (Less st) q = (a, q1)" using assms(2) by (simp_all add: PopTask_def split: if_splits prod.splits)
  define n where "n = length q - 1"
  have n: "length q = Suc n" using p(1) by (simp add: n_def)
  have sw: "swap 0 n q ! k = q ! k" if "0 < k" "k < n" for k using n that by (simp add: swap_def)
  have "\<not> Less st (swap 0 n q ! k) (swap 0 n q ! parent k)" if k: "0 < k" "k < n" "parent k \<noteq> 0" for k
    using sw [of k] sw [of "parent k"] parent_less(1) [OF k(1)] assms(1) n k by (simp add: is_heap_def queue_ok_def)
  then have "heap_but_down (Less st) 0 n (swap 0 n q)" by (simp add: heap_but_down_def)
  from heap_down_heap [OF weak_order_Less this] n have "heap_down (Less st) 0 n (swap 0 n q) ! n = q ! 0" by simp
  then show ?thesis using p n by (simp add: heap_Pop_def Let_def PeekTask_def)
qed

section \<open>What the queue serves\<close>

text \<open>
  C31. The queue serves by priority and age: whatever tasks are put in, in whatever order, taking them out
  one after the other gives every task exactly once, a task of higher priority before one of lower
  priority and of equal ones the earlier created before the later.
\<close>
theorem queue_serves_in_order:
  "case drain (PopTask st) (length l) (fold (PushTask st) l []) of (out, rest) \<Rightarrow>
     mset out = mset l \<and> rest = [] \<and>
     sorted_wrt (\<lambda>a b. t_Priority (st b) < t_Priority (st a) \<or>
       t_Priority (st a) = t_Priority (st b) \<and> t_CreatedAt (st a) \<le> t_CreatedAt (st b)) out"
proof -
  obtain out rest where d: "drain (PopTask st) (length l) (fold (PushTask st) l []) = (out, rest)"
    by (cases "drain (PopTask st) (length l) (fold (PushTask st) l [])")
  have q: "queue_ok st (fold (PushTask st) l [])" "mset (fold (PushTask st) l []) = mset l"
    using tq.push_all [of st "[]" l] by simp_all
  have "length out = length l" "mset l = mset out + mset rest"
    using tq.drain_items [OF q(1) d] q(2) size_mset [of l] by simp_all
  then have "rest = []" by (metis add_cancel_left_right length_0_conv size_mset size_union)
  moreover have "sorted_wrt (\<lambda>a b. t_Priority (st b) < t_Priority (st a) \<or>
       t_Priority (st a) = t_Priority (st b) \<and> t_CreatedAt (st a) \<le> t_CreatedAt (st b)) out"
    using tq.drain_sorted [OF q(1) d] by (rule sorted_wrt_mono_rel [rotated]) (auto simp: Less_def split: if_splits)
  ultimately show ?thesis using d \<open>mset l = mset out + mset rest\<close> by simp
qed

end
