(* ===== verification/TaskPool.thy ===== *)
theory TaskPool
  imports TaskHeap
begin

text \<open>
  The task queue and its worker pool (pkg/task/task_queue.go, worker_pool.go, worker.go, metrics.go):
  goroutines as control points, channels as their contents, the wait group as its counter. Every step is
  an atomic piece of the code between two points where another goroutine may run; what the task
  functions return, when timers fire and which ready case a select takes is left open. Log lines are left
  out; the two callbacks only log.
\<close>

section \<open>State\<close>

text \<open>
  Where a worker's goroutine is: not started, at its select, holding a task it has received, running it
  (with the time taken at the start), about to run the deferred function, returned.
\<close>

datatype wpc = W_Off | W_Select | W_Took nat | W_Run nat int | W_Done | W_Exited

record worker =
  wk_taskChan :: "nat option"
  wk_stopChan :: bool
  wk_isBusy :: bool
  wk_currentTask :: "nat option"
  wk_pc :: wpc

definition newWorker :: worker where
  "newWorker = \<lparr>wk_taskChan = None, wk_stopChan = False, wk_isBusy = False, wk_currentTask = None, wk_pc = W_Off\<rparr>"

text \<open>The scheduler: at its select, in the loop at a worker, blocked on sending to it, returned.\<close>

datatype spc = S_Off | S_Select | S_Loop nat | S_Send nat nat | S_Exited

text \<open>\<^verbatim>\<open>Stop\<close>: not called, waiting for the wait group, returned.\<close>

datatype stop_pc = Not_Stopped | Stop_Waiting | Stop_Returned

record PoolStats =
  TotalTasks :: int
  SuccessTasks :: int
  FailedTasks :: int
  RetryTasks :: int
  ActiveWorkers :: int
  QueuedTasks :: int
  AvgExecuteTime :: int
  totalExecTime :: int
  execCount :: int

text \<open>
  The pool and the queue around it; \<^verbatim>\<open>p_next\<close> is the first address not yet given to a task, and
  \<^verbatim>\<open>p_admitted\<close> are the submissions between the check of the queue's size and the rest.
\<close>

record pool =
  p_store :: store
  p_next :: nat
  p_workers :: "worker list"
  p_taskQueue :: "nat list"
  p_retryQueue :: "nat list"
  p_sched :: spc
  p_isShutdown :: bool
  p_wg :: int
  p_stop :: stop_pc
  p_taskDoneChan :: bool
  p_stats :: PoolStats
  p_taskMap :: "string \<rightharpoonup> nat"
  p_maxQueueSize :: int
  p_admitted :: "nat list"

section \<open>Construction\<close>

definition runtimeNumCPU :: "int \<Rightarrow> int" where
  "runtimeNumCPU n = (if n < 2 then 2 else if 16 < n then 16 else n)"

definition no_stats :: PoolStats where
  "no_stats = \<lparr>TotalTasks = 0, SuccessTasks = 0, FailedTasks = 0, RetryTasks = 0, ActiveWorkers = 0, QueuedTasks = 0,
     AvgExecuteTime = 0, totalExecTime = 0, execCount = 0\<rparr>"

definition no_task :: Task where "no_task = NewTask [] 0 [] []"

definition NewWorkerPool :: "int \<Rightarrow> int \<Rightarrow> pool" where
  "NewWorkerPool cpus workerCount =
    (let n = (if workerCount \<le> 0 then runtimeNumCPU cpus else workerCount) in
     \<lparr>p_store = (\<lambda>_. no_task), p_next = 0, p_workers = replicate (nat n) newWorker, p_taskQueue = [], p_retryQueue = [],
      p_sched = S_Off, p_isShutdown = False, p_wg = 0, p_stop = Not_Stopped, p_taskDoneChan = False, p_stats = no_stats,
      p_taskMap = (\<lambda>_. None), p_maxQueueSize = 0, p_admitted = []\<rparr>)"

record TaskQueueConfig =
  WorkerCount :: int
  MaxQueueSize :: int

definition DefaultConfig :: TaskQueueConfig where
  "DefaultConfig = \<lparr>WorkerCount = 0, MaxQueueSize = 10000\<rparr>"

definition NewTaskQueue :: "int \<Rightarrow> TaskQueueConfig \<Rightarrow> pool" where
  "NewTaskQueue cpus cf =
    (NewWorkerPool cpus (if WorkerCount cf \<le> 0 then runtimeNumCPU cpus else WorkerCount cf))
      \<lparr>p_maxQueueSize := (if MaxQueueSize cf \<le> 0 then 10000 else MaxQueueSize cf)\<rparr>"

text \<open>Starting the workers' and the scheduler's goroutines.\<close>

definition Start :: "pool \<Rightarrow> pool" where
  "Start p = p\<lparr>p_workers := map (\<lambda>w. w\<lparr>wk_pc := W_Select\<rparr>) (p_workers p), p_sched := S_Select\<rparr>"

section \<open>Submitting\<close>

definition ErrPoolShutdown :: string where "ErrPoolShutdown = ''worker pool is shutdown''"
definition ErrTaskNotFound :: string where "ErrTaskNotFound = ''task not found''"
definition ErrQueueFull :: string where "ErrQueueFull = ''task queue is full''"

definition count_total :: "PoolStats \<Rightarrow> PoolStats" where
  "count_total s = s\<lparr>TotalTasks := TotalTasks s + 1\<rparr>"

definition enqueue :: "nat \<Rightarrow> pool \<Rightarrow> pool" where
  "enqueue a p = p\<lparr>p_stats := count_total (p_stats p), p_wg := p_wg p + 1, p_taskQueue := PushTask (p_store p) a (p_taskQueue p)\<rparr>"

definition pool_Submit :: "nat \<Rightarrow> pool \<Rightarrow> string option \<times> pool" where
  "pool_Submit a p =
    (if p_isShutdown p then (Some ErrPoolShutdown, p) else (None, (enqueue a p)\<lparr>p_taskDoneChan := True\<rparr>))"

definition SubmitBatch :: "nat list \<Rightarrow> pool \<Rightarrow> string option \<times> pool" where
  "SubmitBatch l p =
    (if p_isShutdown p then (Some ErrPoolShutdown, p) else (None, (fold enqueue l p)\<lparr>p_taskDoneChan := True\<rparr>))"

definition GetQueueSize :: "pool \<Rightarrow> int" where "GetQueueSize p = int (Size (p_taskQueue p))"

definition full :: "pool \<Rightarrow> bool" where "full p \<longleftrightarrow> p_maxQueueSize p \<le> GetQueueSize p"

text \<open>The rest of a submission after the check.\<close>

definition Submit_rest :: "nat \<Rightarrow> pool \<Rightarrow> string option \<times> pool" where
  "Submit_rest a p = pool_Submit a (p\<lparr>p_taskMap := (p_taskMap p)(t_ID (p_store p a) \<mapsto> a)\<rparr>)"

definition Submit :: "nat \<Rightarrow> pool \<Rightarrow> string option \<times> pool" where
  "Submit a p = (if full p then (Some ErrQueueFull, p) else Submit_rest a p)"

text \<open>A new task at the next address.\<close>

definition create_task :: "Task \<Rightarrow> pool \<Rightarrow> nat \<times> pool" where
  "create_task t p = (p_next p, p\<lparr>p_store := (p_store p)(p_next p := t), p_next := p_next p + 1\<rparr>)"

definition SubmitFunc :: "string \<Rightarrow> int \<Rightarrow> string \<Rightarrow> TaskOption list \<Rightarrow> pool \<Rightarrow> (string + string) \<times> pool" where
  "SubmitFunc ident now name opts p =
    (case create_task (NewTask ident now name opts) p of
       (a, p1) \<Rightarrow> (case Submit a p1 of (Some er, p2) \<Rightarrow> (Inl er, p2) | (None, p2) \<Rightarrow> (Inr (t_ID (p_store p2 a)), p2)))"

text \<open>
  The caller waits for the first error or nil that a run sends, or for the timeout: \<^verbatim>\<open>first\<close> is what
  arrives in time. It never gets a result.
\<close>

definition SubmitFuncSync ::
  "string \<Rightarrow> int \<Rightarrow> string \<Rightarrow> int \<Rightarrow> TaskOption list \<Rightarrow> string option option \<Rightarrow> pool \<Rightarrow> (string option \<times> string option) \<times> pool" where
  "SubmitFuncSync ident now name timeout opts arrived p =
    (case create_task ((NewTask ident now name opts)\<lparr>t_Timeout := timeout\<rparr>) p of
       (a, p1) \<Rightarrow>
         (case Submit a p1 of
            (Some er, p2) \<Rightarrow> ((None, Some er), p2)
          | (None, p2) \<Rightarrow>
            ((None, case arrived of Some er \<Rightarrow> er | None \<Rightarrow> Some ''context deadline exceeded''), p2)))"

definition GetTask :: "string \<Rightarrow> pool \<Rightarrow> Task option" where
  "GetTask ident p = map_option (p_store p) (p_taskMap p ident)"

definition set_task :: "nat \<Rightarrow> (Task \<Rightarrow> Task) \<Rightarrow> pool \<Rightarrow> pool" where
  "set_task a f p = p\<lparr>p_store := (p_store p)(a := f (p_store p a))\<rparr>"

definition CancelTask :: "string \<Rightarrow> pool \<Rightarrow> string option \<times> pool" where
  "CancelTask ident p =
    (case p_taskMap p ident of
       None \<Rightarrow> (Some ErrTaskNotFound, p)
     | Some a \<Rightarrow>
       if t_Status (p_store p a) = TaskStatusPending
       then (None, set_task a (\<lambda>t. t\<lparr>t_Status := TaskStatusCancelled\<rparr>) p) else (None, p))"

section \<open>The scheduler\<close>

definition set_worker :: "nat \<Rightarrow> (worker \<Rightarrow> worker) \<Rightarrow> pool \<Rightarrow> pool" where
  "set_worker i f p = p\<lparr>p_workers := (p_workers p)[i := f (p_workers p ! i)]\<rparr>"

text \<open>The next task: of the retry queue first.\<close>

definition next_task :: "pool \<Rightarrow> nat option \<times> pool" where
  "next_task p =
    (case PopTask (p_store p) (p_retryQueue p) of
       (Some a, rq) \<Rightarrow> (Some a, p\<lparr>p_retryQueue := rq\<rparr>)
     | (None, rq) \<Rightarrow> (case PopTask (p_store p) (p_taskQueue p) of (r, q) \<Rightarrow> (r, p\<lparr>p_taskQueue := q\<rparr>)))"

text \<open>\<^verbatim>\<open>dispatchTasks\<close> at worker number \<^verbatim>\<open>i\<close> of its loop.\<close>

definition dispatch_at :: "nat \<Rightarrow> pool \<Rightarrow> pool" where
  "dispatch_at i p =
    (if length (p_workers p) \<le> i then p\<lparr>p_sched := S_Select\<rparr>
     else if wk_isBusy (p_workers p ! i) then p\<lparr>p_sched := S_Loop (i + 1)\<rparr>
     else case next_task p of
            (None, p1) \<Rightarrow> p1\<lparr>p_sched := S_Select\<rparr>
          | (Some a, p1) \<Rightarrow> p1\<lparr>p_sched := S_Send i a\<rparr>)"

text \<open>The send succeeds once the channel's one place is free.\<close>

definition send_task :: "nat \<Rightarrow> nat \<Rightarrow> pool \<Rightarrow> pool" where
  "send_task i a p = (set_worker i (\<lambda>w. w\<lparr>wk_taskChan := Some a\<rparr>) p)\<lparr>p_sched := S_Loop (i + 1)\<rparr>"

section \<open>Workers\<close>

text \<open>How a run ends: the function returns, panics, or is still running at the timeout.\<close>

datatype outcome = Returned "string option" | Panicked string | TimedOut

definition retryTask :: "nat \<Rightarrow> pool \<Rightarrow> pool" where
  "retryTask a p = p\<lparr>p_stats := (p_stats p)\<lparr>RetryTasks := RetryTasks (p_stats p) + 1\<rparr>, p_wg := p_wg p + 1,
     p_retryQueue := PushTask (p_store p) a (p_retryQueue p), p_taskDoneChan := True\<rparr>"

definition taskDone :: "pool \<Rightarrow> pool" where "taskDone p = p\<lparr>p_wg := p_wg p - 1\<rparr>"

definition record_time :: "Task \<Rightarrow> PoolStats \<Rightarrow> PoolStats" where
  "record_time t s =
    (case (t_StartedAt t, t_FinishedAt t) of
       (Some b, Some f) \<Rightarrow>
         (let total = totalExecTime s + (f - b); n = execCount s + 1
          in s\<lparr>totalExecTime := total, execCount := n, AvgExecuteTime := total div n\<rparr>)
     | _ \<Rightarrow> s)"

definition notifyTaskSuccess :: "nat \<Rightarrow> pool \<Rightarrow> pool" where
  "notifyTaskSuccess a p =
    p\<lparr>p_stats := record_time (p_store p a) ((p_stats p)\<lparr>SuccessTasks := SuccessTasks (p_stats p) + 1\<rparr>)\<rparr>"

definition notifyTaskFailed :: "nat \<Rightarrow> pool \<Rightarrow> pool" where
  "notifyTaskFailed a p =
    p\<lparr>p_stats := record_time (p_store p a) ((p_stats p)\<lparr>FailedTasks := FailedTasks (p_stats p) + 1\<rparr>)\<rparr>"

definition recv_task :: "nat \<Rightarrow> nat \<Rightarrow> pool \<Rightarrow> pool" where
  "recv_task i a p = set_worker i (\<lambda>w. w\<lparr>wk_taskChan := None, wk_pc := W_Took a\<rparr>) p"

text \<open>\<^verbatim>\<open>execute\<close>: up to the select, from the select to the end, and the deferred function.\<close>

definition exec_begin :: "nat \<Rightarrow> nat \<Rightarrow> int \<Rightarrow> pool \<Rightarrow> pool" where
  "exec_begin i a now p =
    set_task a (\<lambda>t. t\<lparr>t_Status := TaskStatusRunning, t_StartedAt := Some now\<rparr>)
      (set_worker i (\<lambda>w. w\<lparr>wk_isBusy := True, wk_currentTask := Some a, wk_pc := W_Run a now\<rparr>) p)"

definition run_error :: "outcome \<Rightarrow> string option" where
  "run_error r = (case r of Returned er \<Rightarrow> er | Panicked m \<Rightarrow> Some (''panic: '' @ m) | TimedOut \<Rightarrow> Some ''context deadline exceeded'')"

definition failed_at :: "int \<Rightarrow> string \<Rightarrow> Task \<Rightarrow> Task" where
  "failed_at now er t = t\<lparr>t_Error := Some er, t_Status := TaskStatusFailed, t_FinishedAt := Some now\<rparr>"

definition retries_left :: "Task \<Rightarrow> bool" where "retries_left t \<longleftrightarrow> t_RetryCount t < t_MaxRetries t"

definition exec_end :: "nat \<Rightarrow> nat \<Rightarrow> int \<Rightarrow> outcome \<Rightarrow> pool \<Rightarrow> pool" where
  "exec_end i a now r p =
    (let p1 = set_worker i (\<lambda>w. w\<lparr>wk_pc := W_Done\<rparr>) p in
     case run_error r of
       None \<Rightarrow> notifyTaskSuccess a (set_task a (\<lambda>t. t\<lparr>t_Status := TaskStatusSuccess, t_FinishedAt := Some now\<rparr>) p1)
     | Some er \<Rightarrow>
       (let p2 = set_task a (failed_at now er) p1 in
        if r \<noteq> TimedOut \<and> retries_left (p_store p a)
        then retryTask a (set_task a (\<lambda>t. t\<lparr>t_RetryCount := t_RetryCount t + 1\<rparr>) p2)
        else notifyTaskFailed a p2))"

definition exec_release :: "nat \<Rightarrow> pool \<Rightarrow> pool" where
  "exec_release i p = taskDone (set_worker i (\<lambda>w. w\<lparr>wk_isBusy := False, wk_currentTask := None, wk_pc := W_Select\<rparr>) p)"

section \<open>Stopping\<close>

definition Stop_call :: "pool \<Rightarrow> pool" where
  "Stop_call p = (if p_isShutdown p then p else p\<lparr>p_isShutdown := True, p_stop := Stop_Waiting\<rparr>)"

definition Stop_finish :: "pool \<Rightarrow> pool" where
  "Stop_finish p = p\<lparr>p_workers := map (\<lambda>w. w\<lparr>wk_stopChan := True\<rparr>) (p_workers p), p_stop := Stop_Returned\<rparr>"

section \<open>Statistics\<close>

definition GetStats :: "pool \<Rightarrow> PoolStats" where
  "GetStats p = (p_stats p)\<lparr>QueuedTasks := GetQueueSize p, ActiveWorkers := int (length (filter wk_isBusy (p_workers p)))\<rparr>"

record HealthStatus =
  hs_Status :: string
  workers_active :: bool
  queue_not_full :: bool
  failure_rate_ok :: bool

text \<open>
  The quotients of the code are compared crosswise; for numbers below \<^verbatim>\<open>2^50\<close> the rounding of
  float64 does not change the outcome.
\<close>

definition HealthCheck :: "pool \<Rightarrow> HealthStatus" where
  "HealthCheck p =
    (let s = GetStats p; active = 0 < ActiveWorkers s; room = 10 * QueuedTasks s < 9 * p_maxQueueSize p;
         rate = (TotalTasks s \<le> 0 \<or> 10 * FailedTasks s < TotalTasks s);
         st1 = (if active then ''healthy'' else ''unhealthy'');
         st2 = (if room then st1 else ''warning'');
         st3 = (if \<not> rate \<and> st2 = ''healthy'' then ''warning'' else st2)
     in \<lparr>hs_Status = st3, workers_active = active, queue_not_full = room, failure_rate_ok = rate\<rparr>)"

section \<open>Steps\<close>

datatype pool_event = Tau | Submitted nat | Started nat | Retried nat | Succeeded nat | Failed nat

definition end_event :: "nat \<Rightarrow> outcome \<Rightarrow> pool \<Rightarrow> pool_event" where
  "end_event a r p =
    (if run_error r = None then Succeeded a
     else if r \<noteq> TimedOut \<and> retries_left (p_store p a) then Retried a else Failed a)"

text \<open>\<^verbatim>\<open>n\<close> bounds how many submissions are under way at a time.\<close>

inductive pool_step :: "nat \<Rightarrow> pool \<Rightarrow> pool_event \<Rightarrow> pool \<Rightarrow> bool" for n where
  Starting: "p_sched p = S_Off \<Longrightarrow> pool_step n p Tau (Start p)"
| Creating: "t = NewTask ident now name opts \<Longrightarrow> pool_step n p Tau (snd (create_task (t\<lparr>t_Timeout := d\<rparr>) p))"
| Admitting: "\<not> full p \<Longrightarrow> a < p_next p \<Longrightarrow> length (p_admitted p) < n \<Longrightarrow>
    pool_step n p Tau (p\<lparr>p_admitted := a # p_admitted p\<rparr>)"
| Submitting: "a \<in> set (p_admitted p) \<Longrightarrow>
    pool_step n p (if p_isShutdown p then Tau else Submitted a)
      (snd (Submit_rest a (p\<lparr>p_admitted := remove1 a (p_admitted p)\<rparr>)))"
| Cancelling: "pool_step n p Tau (snd (CancelTask ident p))"
| Waking: "p_sched p = S_Select \<Longrightarrow> p_taskDoneChan p \<Longrightarrow>
    pool_step n p Tau (p\<lparr>p_sched := S_Loop 0, p_taskDoneChan := False\<rparr>)"
| Ticking: "p_sched p = S_Select \<Longrightarrow> pool_step n p Tau (p\<lparr>p_sched := S_Loop 0\<rparr>)"
| Dispatching: "p_sched p = S_Loop i \<Longrightarrow> pool_step n p Tau (dispatch_at i p)"
| Sending: "p_sched p = S_Send i a \<Longrightarrow> wk_taskChan (p_workers p ! i) = None \<Longrightarrow> pool_step n p Tau (send_task i a p)"
| Sched_exit: "p_sched p = S_Select \<Longrightarrow> p_isShutdown p \<Longrightarrow> pool_step n p Tau (p\<lparr>p_sched := S_Exited\<rparr>)"
| Receiving: "i < length (p_workers p) \<Longrightarrow> wk_pc (p_workers p ! i) = W_Select \<Longrightarrow>
    wk_taskChan (p_workers p ! i) = Some a \<Longrightarrow> pool_step n p Tau (recv_task i a p)"
| Beginning: "i < length (p_workers p) \<Longrightarrow> wk_pc (p_workers p ! i) = W_Took a \<Longrightarrow>
    pool_step n p (Started a) (exec_begin i a now p)"
| Ending: "i < length (p_workers p) \<Longrightarrow> wk_pc (p_workers p ! i) = W_Run a now \<Longrightarrow>
    pool_step n p (end_event a r p) (exec_end i a now r p)"
| Releasing: "i < length (p_workers p) \<Longrightarrow> wk_pc (p_workers p ! i) = W_Done \<Longrightarrow> pool_step n p Tau (exec_release i p)"
| Worker_exit: "i < length (p_workers p) \<Longrightarrow> wk_pc (p_workers p ! i) = W_Select \<Longrightarrow> wk_stopChan (p_workers p ! i) \<Longrightarrow>
    pool_step n p Tau (set_worker i (\<lambda>w. w\<lparr>wk_stopChan := False, wk_pc := W_Exited\<rparr>) p)"
| Stopping: "pool_step n p Tau (Stop_call p)"
| Stopped: "p_stop p = Stop_Waiting \<Longrightarrow> p_wg p = 0 \<Longrightarrow> pool_step n p Tau (Stop_finish p)"

inductive_cases pool_stepE: "pool_step n p ev p1"

text \<open>Runs with their events, the latest first.\<close>

inductive pool_run :: "nat \<Rightarrow> pool \<Rightarrow> pool_event list \<Rightarrow> pool \<Rightarrow> bool" for n where
  Run_Nil: "pool_run n p [] p"
| Run_step: "pool_run n p es p1 \<Longrightarrow> pool_step n p1 ev p2 \<Longrightarrow> pool_run n p (ev # es) p2"

end
