(* ===== verification/TaskProps.thy ===== *)
theory TaskProps
  imports TaskPool
begin

text \<open>
  What the task queue guarantees over any interleaving of its goroutines: where every accepted task is,
  that it gets one verdict, how often it runs, when the pool can finish its work and when its
  \<^verbatim>\<open>Stop\<close> cannot.
\<close>

section \<open>Where the tasks are\<close>

definition held_task :: "nat option \<Rightarrow> nat multiset" where
  "held_task x = (case x of None \<Rightarrow> {#} | Some a \<Rightarrow> {#a#})"

definition waiting_at :: "worker \<Rightarrow> nat multiset" where
  "waiting_at w = held_task (wk_taskChan w) + (case wk_pc w of W_Took a \<Rightarrow> {#a#} | _ \<Rightarrow> {#})"

definition running_at :: "worker \<Rightarrow> nat multiset" where
  "running_at w = (case wk_pc w of W_Run a now \<Rightarrow> {#a#} | _ \<Rightarrow> {#})"

definition finishing_at :: "worker \<Rightarrow> nat" where
  "finishing_at w = (if wk_pc w = W_Done then 1 else 0)"

definition sent :: "spc \<Rightarrow> nat multiset" where
  "sent s = (case s of S_Send i a \<Rightarrow> {#a#} | _ \<Rightarrow> {#})"

abbreviation over :: "(worker \<Rightarrow> 'a::comm_monoid_add) \<Rightarrow> worker list \<Rightarrow> 'a" where
  "over f ws \<equiv> sum_list (map f ws)"

definition queued :: "pool \<Rightarrow> nat multiset" where
  "queued p = mset (p_taskQueue p) + mset (p_retryQueue p)"

definition unstarted :: "pool \<Rightarrow> nat multiset" where
  "unstarted p = queued p + sent (p_sched p) + over waiting_at (p_workers p)"

definition in_pool :: "pool \<Rightarrow> nat multiset" where
  "in_pool p = unstarted p + over running_at (p_workers p)"

definition finishing :: "pool \<Rightarrow> nat" where "finishing p = over finishing_at (p_workers p)"

lemmas at_defs = waiting_at_def running_at_def finishing_at_def held_task_def

lemma sum_list_update: "i < length l \<Longrightarrow> sum_list (map f (l[i := x])) + f (l ! i) = sum_list (map f l) + f x"
  for f :: "'a \<Rightarrow> 'b::cancel_comm_monoid_add"
  by (induction l arbitrary: i) (auto simp: ac_simps split: nat.splits)

lemma over_set_worker:
  "i < length (p_workers p) \<Longrightarrow>
    over f (p_workers (set_worker i g p)) + f (p_workers p ! i) = over f (p_workers p) + f (g (p_workers p ! i))"
  for f :: "worker \<Rightarrow> 'b::cancel_comm_monoid_add"
  by (simp add: set_worker_def sum_list_update)

section \<open>Frames\<close>

lemma pool_frames [simp]:
  "p_workers (set_task a f p) = p_workers p" "p_sched (set_task a f p) = p_sched p"
  "p_taskQueue (set_task a f p) = p_taskQueue p" "p_retryQueue (set_task a f p) = p_retryQueue p"
  "p_wg (set_task a f p) = p_wg p" "p_stats (set_task a f p) = p_stats p" "p_next (set_task a f p) = p_next p"
  "p_admitted (set_task a f p) = p_admitted p" "p_isShutdown (set_task a f p) = p_isShutdown p" "p_stop (set_task a f p) = p_stop p"
  "p_store (set_task a f p) = (p_store p)(a := f (p_store p a))" "p_maxQueueSize (set_task a f p) = p_maxQueueSize p"
  "p_taskQueue (set_worker i g p) = p_taskQueue p" "p_retryQueue (set_worker i g p) = p_retryQueue p"
  "p_sched (set_worker i g p) = p_sched p" "p_wg (set_worker i g p) = p_wg p" "p_stats (set_worker i g p) = p_stats p"
  "p_next (set_worker i g p) = p_next p" "p_admitted (set_worker i g p) = p_admitted p"
  "p_isShutdown (set_worker i g p) = p_isShutdown p" "p_stop (set_worker i g p) = p_stop p" "p_store (set_worker i g p) = p_store p"
  "p_maxQueueSize (set_worker i g p) = p_maxQueueSize p" "length (p_workers (set_worker i g p)) = length (p_workers p)"
  by (simp_all add: set_task_def set_worker_def)

lemma notify_frames [simp]:
  "p_workers (notifyTaskSuccess a p) = p_workers p" "p_sched (notifyTaskSuccess a p) = p_sched p"
  "p_taskQueue (notifyTaskSuccess a p) = p_taskQueue p" "p_retryQueue (notifyTaskSuccess a p) = p_retryQueue p"
  "p_wg (notifyTaskSuccess a p) = p_wg p" "p_next (notifyTaskSuccess a p) = p_next p" "p_store (notifyTaskSuccess a p) = p_store p"
  "p_admitted (notifyTaskSuccess a p) = p_admitted p" "p_isShutdown (notifyTaskSuccess a p) = p_isShutdown p"
  "p_stop (notifyTaskSuccess a p) = p_stop p" "p_maxQueueSize (notifyTaskSuccess a p) = p_maxQueueSize p"
  "p_workers (notifyTaskFailed a p) = p_workers p" "p_sched (notifyTaskFailed a p) = p_sched p"
  "p_taskQueue (notifyTaskFailed a p) = p_taskQueue p" "p_retryQueue (notifyTaskFailed a p) = p_retryQueue p"
  "p_wg (notifyTaskFailed a p) = p_wg p" "p_next (notifyTaskFailed a p) = p_next p" "p_store (notifyTaskFailed a p) = p_store p"
  "p_admitted (notifyTaskFailed a p) = p_admitted p" "p_isShutdown (notifyTaskFailed a p) = p_isShutdown p"
  "p_stop (notifyTaskFailed a p) = p_stop p" "p_maxQueueSize (notifyTaskFailed a p) = p_maxQueueSize p"
  by (simp_all add: notifyTaskSuccess_def notifyTaskFailed_def)

lemma record_time_frames [simp]:
  "TotalTasks (record_time t s) = TotalTasks s" "SuccessTasks (record_time t s) = SuccessTasks s"
  "FailedTasks (record_time t s) = FailedTasks s" "RetryTasks (record_time t s) = RetryTasks s"
  by (simp_all add: record_time_def Let_def split: option.splits)

section \<open>Sound states\<close>

text \<open>
  Both queues are heaps, the tasks held exist, the scheduler sends to a worker that exists, and before
  the start nobody runs.
\<close>

definition sane :: "pool \<Rightarrow> bool" where
  "sane p \<longleftrightarrow>
     queue_ok (p_store p) (p_taskQueue p) \<and> queue_ok (p_store p) (p_retryQueue p) \<and>
     (\<forall>a \<in># in_pool p. a < p_next p) \<and> (\<forall>a \<in> set (p_admitted p). a < p_next p) \<and>
     (\<forall>i a. p_sched p = S_Send i a \<longrightarrow> i < length (p_workers p)) \<and>
     (p_sched p = S_Off \<longrightarrow> (\<forall>w \<in> set (p_workers p). wk_pc w = W_Off \<and> wk_taskChan w = None \<and> \<not> wk_isBusy w))"

lemma next_task_frames:
  assumes "next_task p = (r, p1)"
  shows "p_workers p1 = p_workers p" "p_sched p1 = p_sched p" "p_wg p1 = p_wg p" "p_stats p1 = p_stats p" "p_next p1 = p_next p"
    "p_admitted p1 = p_admitted p" "p_isShutdown p1 = p_isShutdown p" "p_stop p1 = p_stop p" "p_store p1 = p_store p"
    "p_maxQueueSize p1 = p_maxQueueSize p"
  using assms by (auto simp: next_task_def split: prod.splits option.splits)

lemma next_task_cases:
  assumes "queue_ok (p_store p) (p_taskQueue p)" "queue_ok (p_store p) (p_retryQueue p)" "next_task p = (r, p1)"
  shows "queued p = queued p1 + held_task r \<and> queue_ok (p_store p) (p_taskQueue p1) \<and> queue_ok (p_store p) (p_retryQueue p1) \<and>
    (r = None \<longrightarrow> queued p = {#})"
proof -
  obtain r1 q1 where r1: "PopTask (p_store p) (p_retryQueue p) = (r1, q1)" by (cases "PopTask (p_store p) (p_retryQueue p)")
  obtain r2 q2 where r2: "PopTask (p_store p) (p_taskQueue p) = (r2, q2)" by (cases "PopTask (p_store p) (p_taskQueue p)")
  show ?thesis
  proof (cases r1)
    case (Some a)
    then have "p1 = p\<lparr>p_retryQueue := q1\<rparr>" "r = Some a" using assms(3) r1 by (simp_all add: next_task_def)
    then show ?thesis using tq.pop_some [OF assms(2)] r1 Some assms(1) by (simp add: queued_def held_task_def)
  next
    case None
    then have p1: "p1 = p\<lparr>p_taskQueue := q2\<rparr>" "r = r2" using assms(3) r1 r2 by (simp_all add: next_task_def)
    have "mset (p_retryQueue p) = {#}" using tq.pop_none [OF assms(2)] r1 None by simp
    then show ?thesis
      using p1 r2 tq.pop_none [OF assms(1)] tq.pop_some [OF assms(1)] assms by (cases r2) (auto simp: queued_def held_task_def)
  qed
qed

section \<open>What a step moves\<close>

definition submitted :: "pool_event \<Rightarrow> nat multiset" where
  "submitted ev = (case ev of Submitted a \<Rightarrow> {#a#} | _ \<Rightarrow> {#})"

definition started :: "pool_event \<Rightarrow> nat multiset" where
  "started ev = (case ev of Started a \<Rightarrow> {#a#} | _ \<Rightarrow> {#})"

definition retried :: "pool_event \<Rightarrow> nat multiset" where
  "retried ev = (case ev of Retried a \<Rightarrow> {#a#} | _ \<Rightarrow> {#})"

definition verdict :: "pool_event \<Rightarrow> nat multiset" where
  "verdict ev = (case ev of Succeeded a \<Rightarrow> {#a#} | Failed a \<Rightarrow> {#a#} | _ \<Rightarrow> {#})"

lemmas event_defs = submitted_def started_def retried_def verdict_def

lemma event_simps [simp]:
  "submitted Tau = {#}" "submitted (Submitted a) = {#a#}" "submitted (Started a) = {#}" "submitted (Retried a) = {#}"
  "submitted (Succeeded a) = {#}" "submitted (Failed a) = {#}"
  "started Tau = {#}" "started (Submitted a) = {#}" "started (Started a) = {#a#}" "started (Retried a) = {#}"
  "started (Succeeded a) = {#}" "started (Failed a) = {#}"
  "retried Tau = {#}" "retried (Submitted a) = {#}" "retried (Started a) = {#}" "retried (Retried a) = {#a#}"
  "retried (Succeeded a) = {#}" "retried (Failed a) = {#}"
  "verdict Tau = {#}" "verdict (Submitted a) = {#}" "verdict (Started a) = {#}" "verdict (Retried a) = {#}"
  "verdict (Succeeded a) = {#a#}" "verdict (Failed a) = {#a#}"
  by (simp_all add: event_defs)

text \<open>The books of a step: tasks wait, run and get a verdict; the wait group and the counters follow.\<close>

definition moves :: "pool \<Rightarrow> pool_event \<Rightarrow> pool \<Rightarrow> bool" where
  "moves p ev p1 \<longleftrightarrow>
    unstarted p1 + started ev = unstarted p + submitted ev + retried ev \<and>
    over running_at (p_workers p1) + verdict ev + retried ev = over running_at (p_workers p) + started ev \<and>
    p_wg p1 + int (finishing p) + int (size (verdict ev)) = p_wg p + int (finishing p1) + int (size (submitted ev)) \<and>
    TotalTasks (p_stats p1) = TotalTasks (p_stats p) + int (size (submitted ev)) \<and>
    SuccessTasks (p_stats p1) + FailedTasks (p_stats p1) = SuccessTasks (p_stats p) + FailedTasks (p_stats p) + int (size (verdict ev))"

lemma moves_Tau:
  assumes "unstarted p1 = unstarted p" "over running_at (p_workers p1) = over running_at (p_workers p)" "p_wg p1 + int (finishing p) = p_wg p + int (finishing p1)"
    and "TotalTasks (p_stats p1) = TotalTasks (p_stats p)" "SuccessTasks (p_stats p1) = SuccessTasks (p_stats p)"
    and "FailedTasks (p_stats p1) = FailedTasks (p_stats p)"
  shows "moves p Tau p1"
  using assms by (simp add: moves_def)

lemma over_map: "(\<And>w. w \<in> set ws \<Longrightarrow> f (g w) = f w) \<Longrightarrow> over f (map g ws) = over f ws"
  by (induction ws) simp_all

lemma over_stop:
  "over waiting_at (map (\<lambda>w. w\<lparr>wk_stopChan := b\<rparr>) ws) = over waiting_at ws"
  "over running_at (map (\<lambda>w. w\<lparr>wk_stopChan := b\<rparr>) ws) = over running_at ws"
  "over finishing_at (map (\<lambda>w. w\<lparr>wk_stopChan := b\<rparr>) ws) = over finishing_at ws"
  by (rule over_map; simp add: at_defs)+

lemma push_items [simp]: "queue_ok st q \<Longrightarrow> mset (PushTask st a q) = add_mset a (mset q)"
  by (rule tq.push_items)

lemma moves_Submit:
  assumes "sane p"
  shows "moves p (if p_isShutdown p then Tau else Submitted a) (snd (Submit_rest a (p\<lparr>p_admitted := l\<rparr>)))"
proof (cases "p_isShutdown p")
  case True
  then show ?thesis by (simp add: moves_def Submit_rest_def pool_Submit_def unstarted_def queued_def finishing_def)
next
  case False
  have "queue_ok (p_store p) (p_taskQueue p)" using assms by (simp add: sane_def)
  then show ?thesis using False
    by (simp add: moves_def Submit_rest_def pool_Submit_def enqueue_def count_total_def unstarted_def queued_def finishing_def)
qed

lemma moves_dispatch:
  assumes "sane p" "p_sched p = S_Loop i"
  shows "moves p Tau (dispatch_at i p)"
proof -
  obtain r p1 where n: "next_task p = (r, p1)" by (cases "next_task p")
  have q: "queue_ok (p_store p) (p_taskQueue p)" "queue_ok (p_store p) (p_retryQueue p)" using assms(1) by (simp_all add: sane_def)
  have c: "queued p = queued p1 + held_task r" using next_task_cases [OF q n] by blast
  note f = next_task_frames [OF n]
  consider "length (p_workers p) \<le> i" | "i < length (p_workers p)" "wk_isBusy (p_workers p ! i)"
    | "i < length (p_workers p)" "\<not> wk_isBusy (p_workers p ! i)" by linarith
  then show ?thesis
  proof cases
    case 3
    then show ?thesis using c f assms(2) n
      by (cases r) (simp_all add: dispatch_at_def moves_def unstarted_def finishing_def queued_def sent_def held_task_def)
  qed (use assms(2) in \<open>simp_all add: dispatch_at_def moves_def unstarted_def finishing_def queued_def sent_def\<close>)
qed

lemma moves_worker:
  assumes "i < length (p_workers p)" "p_workers p1 = p_workers (set_worker i g p)" "w = p_workers p ! i"
  shows "over waiting_at (p_workers p1) + waiting_at w = over waiting_at (p_workers p) + waiting_at (g w)"
    and "over running_at (p_workers p1) + running_at w = over running_at (p_workers p) + running_at (g w)"
    and "over finishing_at (p_workers p1) + finishing_at w = over finishing_at (p_workers p) + finishing_at (g w)"
  unfolding assms(2,3) by (rule over_set_worker [OF assms(1)])+

lemma exec_end_workers: "p_workers (exec_end i a now r p) = p_workers (set_worker i (\<lambda>w. w\<lparr>wk_pc := W_Done\<rparr>) p)"
  by (simp add: exec_end_def Let_def retryTask_def split: option.splits)

lemma queue_ok_upd [simp]:
  "t_Priority t = t_Priority (st a) \<Longrightarrow> t_CreatedAt t = t_CreatedAt (st a) \<Longrightarrow> queue_ok (st(a := t)) q = queue_ok st q"
  by (rule queue_ok_cong) simp

lemma exec_end_queues:
  assumes "queue_ok (p_store p) (p_retryQueue p)"
  shows "mset (p_retryQueue (exec_end i a now r p)) = mset (p_retryQueue p) + retried (end_event a r p) \<and>
    p_taskQueue (exec_end i a now r p) = p_taskQueue p \<and> p_sched (exec_end i a now r p) = p_sched p"
  using assms by (cases "run_error r") (simp_all add: exec_end_def end_event_def Let_def retryTask_def failed_at_def)

lemma exec_end_frames [simp]:
  "p_sched (exec_end i a now r p) = p_sched p" "p_isShutdown (exec_end i a now r p) = p_isShutdown p"
  "p_stop (exec_end i a now r p) = p_stop p" "p_taskQueue (exec_end i a now r p) = p_taskQueue p"
  "p_admitted (exec_end i a now r p) = p_admitted p" "p_maxQueueSize (exec_end i a now r p) = p_maxQueueSize p"
  by (simp_all add: exec_end_def Let_def retryTask_def split: option.splits)

lemma exec_end_counts:
  "p_wg (exec_end i a now r p) = p_wg p + int (size (retried (end_event a r p))) \<and>
   TotalTasks (p_stats (exec_end i a now r p)) = TotalTasks (p_stats p) \<and>
   SuccessTasks (p_stats (exec_end i a now r p)) + FailedTasks (p_stats (exec_end i a now r p)) =
     SuccessTasks (p_stats p) + FailedTasks (p_stats p) + int (size (verdict (end_event a r p)))"
  by (simp add: exec_end_def end_event_def Let_def retryTask_def notifyTaskSuccess_def notifyTaskFailed_def set_task_def
      set_worker_def split: option.splits)

lemma end_event_cases: "submitted (end_event a r p) = {#} \<and> started (end_event a r p) = {#} \<and>
    verdict (end_event a r p) + retried (end_event a r p) = {#a#} \<and>
    int (size (retried (end_event a r p))) + int (size (verdict (end_event a r p))) = 1"
  by (simp add: end_event_def)

lemma moves_local:
  assumes "i < length (p_workers p)" "w = p_workers p ! i" "p_workers p1 = p_workers (set_worker i g p)"
    and "mset (p_taskQueue p1) = mset (p_taskQueue p)" "mset (p_retryQueue p1) = mset (p_retryQueue p) + retried ev"
    and "submitted ev = {#}" "sent (p_sched p1) + waiting_at (g w) + started ev = sent (p_sched p) + waiting_at w"
    and "running_at (g w) + verdict ev + retried ev = running_at w + started ev"
    and "p_wg p1 + int (finishing_at w) + int (size (verdict ev)) = p_wg p + int (finishing_at (g w))"
    and "TotalTasks (p_stats p1) = TotalTasks (p_stats p)"
    and "SuccessTasks (p_stats p1) + FailedTasks (p_stats p1) = SuccessTasks (p_stats p) + FailedTasks (p_stats p) + int (size (verdict ev))"
  shows "moves p ev p1"
proof -
  note o = moves_worker [OF assms(1,3,2)]
  have "unstarted p1 + started ev + waiting_at w = unstarted p + submitted ev + retried ev + waiting_at w"
  proof -
    have "unstarted p1 + started ev + waiting_at w =
        queued p1 + (sent (p_sched p1) + started ev) + (over waiting_at (p_workers p1) + waiting_at w)"
      by (simp add: unstarted_def ac_simps)
    also have "\<dots> = queued p1 + over waiting_at (p_workers p) + (sent (p_sched p1) + waiting_at (g w) + started ev)"
      unfolding o(1) by (simp add: ac_simps)
    finally show ?thesis using assms(4-6) unfolding assms(7) by (simp add: unstarted_def queued_def ac_simps)
  qed
  moreover have "over running_at (p_workers p1) + verdict ev + retried ev + running_at w = over running_at (p_workers p) + started ev + running_at w"
  proof -
    have "over running_at (p_workers p1) + verdict ev + retried ev + running_at w =
        (over running_at (p_workers p1) + running_at w) + (verdict ev + retried ev)" by (simp add: ac_simps)
    also have "\<dots> = over running_at (p_workers p) + (running_at (g w) + verdict ev + retried ev)" unfolding o(2) by (simp add: ac_simps)
    finally show ?thesis unfolding assms(8) by (simp add: ac_simps)
  qed
  moreover have "p_wg p1 + int (finishing p) + int (size (verdict ev)) = p_wg p + int (finishing p1) + int (size (submitted ev))"
    using assms(6,9) o(3) by (simp add: finishing_def)
  ultimately show ?thesis using assms(10,11,6) by (simp add: moves_def)
qed

lemma moves_Release:
  assumes "i < length (p_workers p)" "wk_pc (p_workers p ! i) = W_Done"
  shows "moves p Tau (exec_release i p)"
  by (rule moves_local [OF assms(1) refl, where g = "\<lambda>w. w\<lparr>wk_isBusy := False, wk_currentTask := None, wk_pc := W_Select\<rparr>"])
    (use assms in \<open>simp_all add: exec_release_def taskDone_def set_worker_def at_defs\<close>)

lemma moves_Recv:
  assumes "i < length (p_workers p)" "wk_pc (p_workers p ! i) = W_Select" "wk_taskChan (p_workers p ! i) = Some a"
  shows "moves p Tau (recv_task i a p)"
  by (rule moves_local [OF assms(1) refl, where g = "\<lambda>w. w\<lparr>wk_taskChan := None, wk_pc := W_Took a\<rparr>"])
    (use assms in \<open>simp_all add: recv_task_def set_worker_def at_defs\<close>)

lemma moves_Begin:
  assumes "i < length (p_workers p)" "wk_pc (p_workers p ! i) = W_Took a"
  shows "moves p (Started a) (exec_begin i a now p)"
  by (rule moves_local [OF assms(1) refl, where g = "\<lambda>w. w\<lparr>wk_isBusy := True, wk_currentTask := Some a, wk_pc := W_Run a now\<rparr>"])
    (use assms in \<open>simp_all add: exec_begin_def set_worker_def set_task_def at_defs\<close>)

lemma moves_End:
  assumes "sane p" "i < length (p_workers p)" "wk_pc (p_workers p ! i) = W_Run a now"
  shows "moves p (end_event a r p) (exec_end i a now r p)"
proof -
  have q: "queue_ok (p_store p) (p_retryQueue p)" using assms(1) by (simp add: sane_def)
  show ?thesis
    by (rule moves_local [OF assms(2) refl exec_end_workers])
      (use assms exec_end_queues [OF q] exec_end_counts end_event_cases [of a r p] in \<open>simp_all add: at_defs\<close>)
qed

lemma moves_Send:
  assumes "sane p" "p_sched p = S_Send i a" "wk_taskChan (p_workers p ! i) = None"
  shows "moves p Tau (send_task i a p)"
proof -
  have "i < length (p_workers p)" using assms(1,2) by (simp add: sane_def)
  then show ?thesis
    by (rule moves_local [OF _ refl, where g = "\<lambda>w. w\<lparr>wk_taskChan := Some a\<rparr>"]) (use assms in \<open>simp_all add: send_task_def set_worker_def at_defs sent_def\<close>)
qed

lemma moves_Exit:
  assumes "i < length (p_workers p)" "wk_pc (p_workers p ! i) = W_Select"
  shows "moves p Tau (set_worker i (\<lambda>w. w\<lparr>wk_stopChan := False, wk_pc := W_Exited\<rparr>) p)"
  by (rule moves_local [OF assms(1) refl refl]) (use assms in \<open>simp_all add: at_defs\<close>)

lemma moves_step:
  assumes "pool_step n p ev p1" "sane p"
  shows "moves p ev p1"
  using assms(1)
proof cases
  case Starting
  have off: "wk_pc w = W_Off" if "w \<in> set (p_workers p)" for w using Starting(3) assms(2) that by (simp add: sane_def)
  have "over waiting_at (map (\<lambda>w. w\<lparr>wk_pc := W_Select\<rparr>) (p_workers p)) = over waiting_at (p_workers p)"
    "over running_at (map (\<lambda>w. w\<lparr>wk_pc := W_Select\<rparr>) (p_workers p)) = over running_at (p_workers p)"
    "over finishing_at (map (\<lambda>w. w\<lparr>wk_pc := W_Select\<rparr>) (p_workers p)) = over finishing_at (p_workers p)"
    by (rule over_map; simp add: off at_defs)+
  then show ?thesis unfolding Starting(1,2)
    using Starting(3) by (intro moves_Tau) (simp_all add: Start_def unstarted_def queued_def sent_def finishing_def)
next
  case Stopped
  then show ?thesis unfolding Stopped(1,2)
    by (intro moves_Tau) (simp_all add: Stop_finish_def unstarted_def queued_def finishing_def over_stop [unfolded map_map])
next
  case (Creating t ident now name opts d)
  then show ?thesis unfolding Creating(1,2) by (intro moves_Tau) (simp_all add: create_task_def unstarted_def queued_def finishing_def)
next
  case (Cancelling ident)
  then show ?thesis unfolding Cancelling(1,2)
    by (intro moves_Tau) (simp_all add: CancelTask_def unstarted_def queued_def finishing_def split: option.splits)
next
  case Stopping
  then show ?thesis unfolding Stopping(1,2) by (intro moves_Tau) (simp_all add: Stop_call_def unstarted_def queued_def finishing_def)
next
  case (Submitting a)
  show ?thesis unfolding Submitting(1,2) by (rule moves_Submit [OF assms(2)])
next
  case (Dispatching i)
  show ?thesis unfolding Dispatching(1,2) by (rule moves_dispatch [OF assms(2) Dispatching(3)])
next
  case (Sending i a)
  show ?thesis unfolding Sending(1,2) by (rule moves_Send [OF assms(2) Sending(3,4)])
next
  case (Receiving i a)
  show ?thesis unfolding Receiving(1,2) by (rule moves_Recv [OF Receiving(3-5)])
next
  case (Beginning i a now)
  show ?thesis unfolding Beginning(1,2) by (rule moves_Begin [OF Beginning(3,4)])
next
  case (Ending i a now r)
  show ?thesis unfolding Ending(1,2) by (rule moves_End [OF assms(2) Ending(3,4)])
next
  case (Releasing i)
  show ?thesis unfolding Releasing(1,2) by (rule moves_Release [OF Releasing(3,4)])
next
  case (Worker_exit i)
  show ?thesis unfolding Worker_exit(1,2) by (rule moves_Exit [OF Worker_exit(3,4)])
qed (simp_all add: moves_def unstarted_def queued_def finishing_def sent_def)

section \<open>Sound states stay sound\<close>

lemma moves_in_pool: "moves p ev p1 \<Longrightarrow> in_pool p1 + verdict ev = in_pool p + submitted ev"
proof -
  assume m: "moves p ev p1"
  have "in_pool p1 + verdict ev + (started ev + retried ev) =
      (unstarted p1 + started ev) + (over running_at (p_workers p1) + verdict ev + retried ev)"
    by (simp add: in_pool_def ac_simps)
  also have "\<dots> = in_pool p + submitted ev + (started ev + retried ev)"
    using m by (simp add: moves_def in_pool_def ac_simps)
  finally show ?thesis by simp
qed

lemmas step_frames = Start_def create_task_def Submit_rest_def pool_Submit_def enqueue_def CancelTask_def dispatch_at_def
  send_task_def recv_task_def exec_begin_def exec_end_def retryTask_def Let_def exec_release_def taskDone_def Stop_call_def
  Stop_finish_def

lemma step_keeps:
  assumes "pool_step n p ev p1"
  shows "length (p_workers p1) = length (p_workers p)" "p_maxQueueSize p1 = p_maxQueueSize p" "p_next p \<le> p_next p1"
proof -
  show "length (p_workers p1) = length (p_workers p)" using assms
    by cases (auto simp: step_frames dest: next_task_frames split: option.splits prod.splits)
  show "p_maxQueueSize p1 = p_maxQueueSize p" using assms
    by cases (auto simp: step_frames dest: next_task_frames split: option.splits prod.splits)
  show "p_next p \<le> p_next p1" using assms
    by cases (auto simp: step_frames dest: next_task_frames split: option.splits prod.splits)
qed

lemma in_queue: "a \<in> set (p_taskQueue p) \<Longrightarrow> a \<in># in_pool p" "a \<in> set (p_retryQueue p) \<Longrightarrow> a \<in># in_pool p"
  by (simp_all add: in_pool_def unstarted_def queued_def)

lemma queues_step:
  assumes "pool_step n p ev p1" "sane p"
  shows "queue_ok (p_store p1) (p_taskQueue p1) \<and> queue_ok (p_store p1) (p_retryQueue p1)"
  using assms(1)
proof cases
  case (Creating t ident now name opts d)
  have "a \<noteq> p_next p" if "a \<in> set (p_taskQueue p) \<union> set (p_retryQueue p)" for a
    using assms(2) that in_queue [of a p] by (auto simp: sane_def)
  then have "queue_ok ((p_store p)(p_next p := t1)) q = queue_ok (p_store p) q"
    if "q = p_taskQueue p \<or> q = p_retryQueue p" for q t1
    using that by (intro queue_ok_cong) auto
  then show ?thesis using assms(2) by (simp add: Creating create_task_def sane_def)
next
  case (Submitting a)
  then show ?thesis using assms(2) tq.push_ok by (simp add: Submit_rest_def pool_Submit_def enqueue_def sane_def)
next
  case (Dispatching i)
  obtain r p2 where n: "next_task p = (r, p2)" by (cases "next_task p")
  have q: "queue_ok (p_store p) (p_taskQueue p)" "queue_ok (p_store p) (p_retryQueue p)" using assms(2) by (simp_all add: sane_def)
  show ?thesis using next_task_cases [OF q n] next_task_frames [OF n] q n
    by (simp add: Dispatching dispatch_at_def split: option.splits)
next
  case (Ending i a now r)
  have q: "queue_ok (p_store p) (p_taskQueue p)" "queue_ok (p_store p) (p_retryQueue p)" using assms(2) by (simp_all add: sane_def)
  show ?thesis
  proof (cases "run_error r")
    case None
    then show ?thesis using q by (simp add: Ending exec_end_def)
  next
    case (Some er)
    have "queue_ok ((p_store p)(a := t)) (PushTask ((p_store p)(a := t)) a (p_retryQueue p))"
      if "t_Priority t = t_Priority (p_store p a)" "t_CreatedAt t = t_CreatedAt (p_store p a)" for t
      using q that by (intro tq.push_ok) simp
    then show ?thesis using q Some by (simp add: Ending exec_end_def Let_def retryTask_def failed_at_def)
  qed
qed (use assms(2) in \<open>auto simp: sane_def step_frames split: option.splits\<close>)

lemma admitted_step:
  assumes "pool_step n p ev p1" "\<forall>a \<in> set (p_admitted p). a < p_next p"
  shows "(\<forall>a \<in> set (p_admitted p1). a < p_next p1) \<and> set_mset (submitted ev) \<subseteq> set (p_admitted p)"
  using assms(1)
proof cases
  case (Dispatching i)
  obtain r p2 where n: "next_task p = (r, p2)" by (cases "next_task p")
  show ?thesis using assms(2) next_task_frames [OF n] n by (simp add: Dispatching dispatch_at_def split: option.splits)
next
  case (Submitting a)
  then show ?thesis using assms(2) by (auto simp: Submit_rest_def pool_Submit_def enqueue_def dest: notin_set_remove1)
next
  case (Ending i a now r)
  then show ?thesis using assms(2) end_event_cases [of a r p] by (auto simp: exec_end_def Let_def retryTask_def split: option.splits)
qed (use assms(2) in \<open>auto simp: step_frames less_Suc_eq split: option.splits\<close>)

lemma sched_step:
  assumes "pool_step n p ev p1" "sane p" "p_sched p1 = S_Send i a"
  shows "i < length (p_workers p1)"
  using assms(1)
proof cases
  case (Dispatching j)
  obtain r p2 where n: "next_task p = (r, p2)" by (cases "next_task p")
  show ?thesis using assms(3) next_task_frames [OF n] n by (auto simp: Dispatching dispatch_at_def split: if_splits option.splits)
next
  case (Ending j b now r)
  then show ?thesis using assms(2,3)
    by (auto simp: sane_def exec_end_workers exec_end_def Let_def retryTask_def split: option.splits if_splits)
qed (use assms(2,3) in \<open>auto simp: sane_def step_frames split: option.splits if_splits\<close>)

lemma off_step:
  assumes "pool_step n p ev p1" "sane p" "p_sched p1 = S_Off"
  shows "\<forall>w \<in> set (p_workers p1). wk_pc w = W_Off \<and> wk_taskChan w = None \<and> \<not> wk_isBusy w"
proof -
  have off: "wk_pc (p_workers p ! j) = W_Off" if "p_sched p = S_Off" "j < length (p_workers p)" for j
    using assms(2) that by (simp add: sane_def)
  show ?thesis using assms(1)
  proof cases
    case (Dispatching j)
    obtain r p2 where n: "next_task p = (r, p2)" by (cases "next_task p")
    show ?thesis using assms(3) next_task_frames [OF n] n Dispatching by (auto simp: dispatch_at_def split: if_splits option.splits)
  next
    case (Ending j b now r)
    have "p_sched p1 = p_sched p" using Ending by (simp add: exec_end_def Let_def retryTask_def split: option.splits)
    then show ?thesis using off [of j] assms(3) Ending(3,4) by simp
  next
    case (Receiving j b)
    then show ?thesis using off [of j] assms(3) by (simp add: recv_task_def)
  next
    case (Beginning j b now)
    then show ?thesis using off [of j] assms(3) by (simp add: exec_begin_def)
  next
    case (Releasing j)
    then show ?thesis using off [of j] assms(3) by (simp add: exec_release_def taskDone_def)
  next
    case (Worker_exit j)
    then show ?thesis using off [of j] assms(3) by simp
  qed (use assms(2,3) in \<open>auto simp: sane_def Start_def create_task_def Submit_rest_def pool_Submit_def enqueue_def CancelTask_def
      send_task_def Stop_call_def Stop_finish_def split: option.splits if_splits\<close>)
qed

lemma sane_step:
  assumes "pool_step n p ev p1" "sane p"
  shows "sane p1"
proof -
  have "set_mset (in_pool p1) \<subseteq> set_mset (in_pool p) \<union> set_mset (submitted ev)"
    using moves_in_pool [OF moves_step [OF assms]] by (metis set_mset_union sup_ge1)
  moreover have "\<forall>a \<in># in_pool p. a < p_next p" "\<forall>a \<in> set (p_admitted p). a < p_next p" using assms(2) by (simp_all add: sane_def)
  ultimately have "\<forall>a \<in># in_pool p1. a < p_next p1"
    using admitted_step [OF assms(1)] step_keeps(3) [OF assms(1)] by (meson UnE less_le_trans subset_iff)
  then show ?thesis
    using queues_step [OF assms] admitted_step [OF assms(1)] assms(2) sched_step [OF assms] off_step [OF assms] unfolding sane_def by blast
qed

section \<open>Reachable pools\<close>

text \<open>A pool as the constructor makes it, for any configuration.\<close>

definition fresh_pool :: "pool \<Rightarrow> bool" where
  "fresh_pool p \<longleftrightarrow> (\<exists>cpus cf. p = NewTaskQueue cpus cf)"

lemma fresh_simps:
  assumes "fresh_pool p"
  shows "p_workers p = replicate (length (p_workers p)) newWorker" "p_taskQueue p = []" "p_retryQueue p = []" "p_sched p = S_Off"
    "p_wg p = 0" "p_stats p = no_stats" "p_admitted p = []" "p_stop p = Not_Stopped" "\<not> p_isShutdown p"
    "0 < length (p_workers p)" "0 < p_maxQueueSize p" "p_next p = 0"
  using assms by (auto simp: fresh_pool_def NewTaskQueue_def NewWorkerPool_def Let_def runtimeNumCPU_def split: if_splits)

lemma sum_list_empty [simp]: "sum_list (replicate m {#}) = {#}"
  by (induction m) simp_all

lemma fresh_empty:
  assumes "fresh_pool p"
  shows "in_pool p = {#}" "unstarted p = {#}" "finishing p = 0" "over running_at (p_workers p) = {#}" "sane p"
proof -
  obtain m where "p_workers p = replicate m newWorker" using fresh_simps(1) [OF assms] by blast
  then show "in_pool p = {#}" "unstarted p = {#}" "finishing p = 0" "over running_at (p_workers p) = {#}" "sane p"
    using fresh_simps [OF assms]
    by (simp_all add: sane_def in_pool_def unstarted_def queued_def sent_def finishing_def at_defs newWorker_def)
qed

lemma run_sane: "pool_run n p0 es p \<Longrightarrow> fresh_pool p0 \<Longrightarrow> sane p"
  by (induction rule: pool_run.induct) (simp_all add: fresh_empty sane_step)

definition total :: "(pool_event \<Rightarrow> nat multiset) \<Rightarrow> pool_event list \<Rightarrow> nat multiset" where
  "total f es = sum_list (map f es)"

lemma total_simps [simp]: "total f [] = {#}" "total f (ev # es) = f ev + total f es"
  by (simp_all add: total_def)

text \<open>The books of a run.\<close>

lemma run_books:
  assumes "pool_run n p0 es p" "fresh_pool p0"
  shows "in_pool p + total verdict es = total submitted es \<and>
    unstarted p + total started es = total submitted es + total retried es \<and>
    p_wg p = int (size (in_pool p)) + int (finishing p) \<and>
    TotalTasks (p_stats p) = int (size (total submitted es)) \<and>
    SuccessTasks (p_stats p) + FailedTasks (p_stats p) = int (size (total verdict es))"
  using assms
proof (induction rule: pool_run.induct)
  case (Run_Nil p)
  then show ?case by (simp add: fresh_empty fresh_simps no_stats_def)
next
  case (Run_step p0 es p1 ev p2)
  have m: "moves p1 ev p2" by (rule moves_step [OF Run_step.hyps(2) run_sane [OF Run_step.hyps(1) Run_step.prems]])
  note i = moves_in_pool [OF m]
  from Run_step have h: "in_pool p1 + total verdict es = total submitted es" 
    "unstarted p1 + total started es = total submitted es + total retried es"
    "p_wg p1 = int (size (in_pool p1)) + int (finishing p1)" by blast+
  have "size (in_pool p2) + size (verdict ev) = size (in_pool p1) + size (submitted ev)" using i by (metis size_union)
  moreover have "in_pool p2 + total verdict (ev # es) = total submitted (ev # es)"
    using i h(1) by (simp add: ac_simps) (metis add.assoc add.commute)
  moreover have "unstarted p2 + total started (ev # es) = total submitted (ev # es) + total retried (ev # es)"
  proof -
    have "unstarted p2 + started ev = unstarted p1 + submitted ev + retried ev" using m by (simp add: moves_def)
    then have "unstarted p2 + started ev + total started es = unstarted p1 + total started es + submitted ev + retried ev"
      by (simp add: ac_simps)
    then show ?thesis unfolding h(2) by (simp add: ac_simps)
  qed
  ultimately show ?case using m h(3) Run_step.IH [OF Run_step.prems] by (simp add: moves_def)
qed

section \<open>Retries\<close>

lemma option_keeps: "t_RetryCount (apply_option op t) = t_RetryCount t" "0 \<le> t_MaxRetries t \<Longrightarrow> 0 \<le> t_MaxRetries (apply_option op t)"
  by (simp_all add: apply_option_def split: TaskOption.splits)

lemma NewTask_retries: "t_RetryCount (NewTask ident now name opts) = 0 \<and> 0 \<le> t_MaxRetries (NewTask ident now name opts)"
proof -
  have "t_RetryCount (fold apply_option l t) = t_RetryCount t \<and> (0 \<le> t_MaxRetries t \<longrightarrow> 0 \<le> t_MaxRetries (fold apply_option l t))" for l t
    by (induction l arbitrary: t) (simp_all add: option_keeps)
  then show ?thesis by (simp add: NewTask_def)
qed

definition retries_ok :: "Task \<Rightarrow> bool" where
  "retries_ok t \<longleftrightarrow> 0 \<le> t_RetryCount t \<and> t_RetryCount t \<le> t_MaxRetries t"

text \<open>An old task keeps its limit and counts its retries; a new one has none.\<close>

lemma retries_step:
  assumes "pool_step n p ev p1"
  shows "(a < p_next p \<longrightarrow> t_RetryCount (p_store p1 a) = t_RetryCount (p_store p a) + int (count (retried ev) a) \<and>
      (retries_ok (p_store p a) \<longrightarrow> retries_ok (p_store p1 a))) \<and>
    (p_next p \<le> a \<and> a < p_next p1 \<longrightarrow> t_RetryCount (p_store p1 a) = 0 \<and> retries_ok (p_store p1 a))"
  using assms
proof cases
  case (Creating t ident now name opts d)
  then show ?thesis using NewTask_retries [of ident now name opts] by (auto simp: create_task_def retries_ok_def)
next
  case (Dispatching j)
  obtain r p2 where n: "next_task p = (r, p2)" by (cases "next_task p")
  show ?thesis using next_task_frames [OF n] n by (cases r) (auto simp: Dispatching dispatch_at_def)
next
  case (Ending j b now r)
  then show ?thesis
    by (cases "run_error r") (simp_all add: exec_end_def end_event_def Let_def retryTask_def failed_at_def retries_ok_def retries_left_def)
qed (simp_all add: step_frames retries_ok_def split: option.splits)

lemma run_retries:
  assumes "pool_run n p0 es p" "fresh_pool p0"
  shows "int (count (total retried es) a) = (if a < p_next p then t_RetryCount (p_store p a) else 0) \<and>
    (a < p_next p \<longrightarrow> retries_ok (p_store p a))"
  using assms
proof (induction rule: pool_run.induct)
  case (Run_Nil p)
  then show ?case by (simp add: fresh_simps)
next
  case (Run_step p0 es p1 ev p2)
  have s: "sane p1" by (rule run_sane [OF Run_step.hyps(1) Run_step.prems])
  have "a < p_next p1" if "a \<in># retried ev"
    using Run_step.hyps(2) that s
  proof cases
    case (Ending i b now r)
    then have "b = a" using that end_event_cases [of b r p1] by (metis empty_iff insert_iff set_mset_add_mset_insert set_mset_empty union_iff)
    moreover have "b \<in># running_at (p_workers p1 ! i)" using Ending by (simp add: running_at_def)
    then have "b \<in># over running_at (p_workers p1)" using Ending(3) by auto
    ultimately show ?thesis using s by (simp add: sane_def in_pool_def)
  qed (auto split: if_splits)
  then have "count (retried ev) a = 0" if "p_next p1 \<le> a" using that by (meson count_eq_zero_iff leD)
  then show ?case using Run_step.IH [OF Run_step.prems] retries_step [OF Run_step.hyps(2), of a] step_keeps(3) [OF Run_step.hyps(2)]
    by (cases "a < p_next p1") auto
qed

section \<open>Runs\<close>

lemma run_append: "pool_run n p1 es2 p2 \<Longrightarrow> pool_run n p0 es1 p1 \<Longrightarrow> pool_run n p0 (es2 @ es1) p2"
  by (induction rule: pool_run.induct) (auto intro: pool_run.intros)

lemma total_append [simp]: "total f (es2 @ es1) = total f es2 + total f es1"
  by (simp add: total_def)

lemma one_step: "pool_step n p ev p1 \<Longrightarrow> pool_run n p [ev] p1"
  by (rule Run_step [OF Run_Nil])

section \<open>A pool at work\<close>

text \<open>
  Until \<^verbatim>\<open>Stop\<close> is called nobody returns; after the start nobody is still off; a worker says
  it is busy exactly while it runs a task.
\<close>

definition working :: "pool \<Rightarrow> bool" where
  "working p \<longleftrightarrow>
     (p_stop p \<noteq> Not_Stopped \<longrightarrow> p_isShutdown p) \<and>
     (\<not> p_isShutdown p \<longrightarrow> p_sched p \<noteq> S_Exited \<and> (\<forall>w \<in> set (p_workers p). \<not> wk_stopChan w \<and> wk_pc w \<noteq> W_Exited)) \<and>
     (p_sched p \<noteq> S_Off \<longrightarrow> (\<forall>w \<in> set (p_workers p). wk_pc w \<noteq> W_Off)) \<and>
     (\<forall>w \<in> set (p_workers p). wk_isBusy w \<longleftrightarrow> finishing_at w = 1 \<or> running_at w \<noteq> {#})"

lemma set_set_worker:
  "\<forall>w \<in> set (p_workers p). P w \<Longrightarrow> (i < length (p_workers p) \<Longrightarrow> P (g (p_workers p ! i))) \<Longrightarrow>
    \<forall>w \<in> set (p_workers (set_worker i g p)). P w"
  using set_update_subset_insert [of "p_workers p" i "g (p_workers p ! i)"]
  by (cases "i < length (p_workers p)") (auto simp: set_worker_def list_update_beyond)

lemma working_local:
  assumes "working p" "p_workers p1 = p_workers (set_worker i g p)" "p_isShutdown p1 = p_isShutdown p" "p_stop p1 = p_stop p"
    and "p_sched p1 \<noteq> S_Off \<Longrightarrow> p_sched p \<noteq> S_Off" "p_sched p1 \<noteq> S_Exited \<or> p_sched p = S_Exited" "i < length (p_workers p)"
    and "w = p_workers p ! i" "wk_pc (g w) = W_Exited \<Longrightarrow> wk_pc w = W_Exited \<or> wk_stopChan w" "wk_stopChan (g w) \<Longrightarrow> wk_stopChan w"
    and "wk_pc (g w) = W_Off \<Longrightarrow> wk_pc w = W_Off"
    and "wk_isBusy w = (finishing_at w = 1 \<or> running_at w \<noteq> {#}) \<Longrightarrow> wk_isBusy (g w) \<longleftrightarrow> finishing_at (g w) = 1 \<or> running_at (g w) \<noteq> {#}"
  shows "working p1"
proof -
  have w: "w \<in> set (p_workers p)" using assms(7,8) by simp
  have "\<forall>v \<in> set (p_workers p1). wk_isBusy v \<longleftrightarrow> finishing_at v = 1 \<or> running_at v \<noteq> {#}"
    unfolding assms(2) by (rule set_set_worker) (use assms(1,8,12) w in \<open>auto simp: working_def\<close>)
  moreover have "\<forall>v \<in> set (p_workers p1). wk_pc v \<noteq> W_Off" if "p_sched p1 \<noteq> S_Off"
    unfolding assms(2) by (rule set_set_worker) (use assms(1,5,8,11) w that in \<open>auto simp: working_def\<close>)
  moreover have "\<forall>v \<in> set (p_workers p1). \<not> wk_stopChan v \<and> wk_pc v \<noteq> W_Exited" if "\<not> p_isShutdown p1"
    unfolding assms(2) by (rule set_set_worker) (use assms(1,3,8-10) w that in \<open>auto simp: working_def\<close>)
  moreover have "p_stop p1 \<noteq> Not_Stopped \<longrightarrow> p_isShutdown p1" "\<not> p_isShutdown p1 \<longrightarrow> p_sched p1 \<noteq> S_Exited"
    using assms(1,3,4,6) by (auto simp: working_def)
  ultimately show ?thesis unfolding working_def by blast
qed

lemma working_step:
  assumes "pool_step n p ev p1" "sane p" "working p"
  shows "working p1"
  using assms(1)
proof cases
  case Starting
  then show ?thesis using assms(2,3) by (auto simp: working_def sane_def Start_def finishing_at_def running_at_def)
next
  case (Dispatching j)
  obtain r p2 where n: "next_task p = (r, p2)" by (cases "next_task p")
  show ?thesis using next_task_frames [OF n] n Dispatching(3) assms(3)
    by (cases r) (auto simp: Dispatching dispatch_at_def working_def)
next
  case (Sending i a)
  then have "i < length (p_workers p)" using assms(2) by (simp add: sane_def)
  then show ?thesis unfolding Sending
    by (rule working_local [OF assms(3), rotated 5, OF _ refl, where g = "\<lambda>w. w\<lparr>wk_taskChan := Some a\<rparr>"])
      (simp_all add: send_task_def set_worker_def at_defs Sending)
next
  case (Receiving i a)
  show ?thesis unfolding Receiving(2)
    by (rule working_local [OF assms(3), rotated 5, OF Receiving(3) refl, where g = "\<lambda>w. w\<lparr>wk_taskChan := None, wk_pc := W_Took a\<rparr>"])
      (simp_all add: recv_task_def at_defs Receiving)
next
  case (Beginning i a now)
  show ?thesis unfolding Beginning(2)
    by (rule working_local [OF assms(3), rotated 5, OF Beginning(3) refl,
          where g = "\<lambda>w. w\<lparr>wk_isBusy := True, wk_currentTask := Some a, wk_pc := W_Run a now\<rparr>"])
      (simp_all add: exec_begin_def at_defs Beginning)
next
  case (Ending i a now r)
  show ?thesis unfolding Ending(2)
    by (rule working_local [OF assms(3) exec_end_workers _ _ _ _ Ending(3) refl])
      (simp_all add: at_defs Ending)
next
  case (Releasing i)
  show ?thesis unfolding Releasing(2)
    by (rule working_local [OF assms(3), rotated 5, OF Releasing(3) refl,
          where g = "\<lambda>w. w\<lparr>wk_isBusy := False, wk_currentTask := None, wk_pc := W_Select\<rparr>"])
      (simp_all add: exec_release_def taskDone_def at_defs Releasing)
next
  case (Worker_exit i)
  show ?thesis unfolding Worker_exit(2)
    by (rule working_local [OF assms(3) refl _ _ _ _ Worker_exit(3) refl]) (simp_all add: at_defs Worker_exit)
next
  case Stopped
  then show ?thesis using assms(3) by (auto simp: working_def Stop_finish_def finishing_at_def running_at_def)
qed (use assms(3) in \<open>auto simp: working_def create_task_def Submit_rest_def pool_Submit_def enqueue_def CancelTask_def
    Stop_call_def split: option.splits\<close>)

lemma run_working: "pool_run n p0 es p \<Longrightarrow> fresh_pool p0 \<Longrightarrow> working p"
proof (induction rule: pool_run.induct)
  case (Run_Nil p)
  obtain m where "p_workers p = replicate m newWorker" using fresh_simps(1) [OF Run_Nil] by blast
  then show ?case using fresh_simps [OF Run_Nil] by (auto simp: working_def newWorker_def at_defs)
next
  case (Run_step p0 es p1 ev p2)
  then show ?case using working_step run_sane by blast
qed

end
