(* ===== verification/TaskLive.thy ===== *)
theory TaskLive
  imports TaskProps
begin

text \<open>
  The properties of the task queue: verdicts, retries, the bound on the queue, how the work of a running
  pool can always be finished, and what \<^verbatim>\<open>Stop\<close> waits for.
\<close>

section \<open>Work left\<close>

definition load :: "worker \<Rightarrow> nat" where
  "load w = (case wk_taskChan w of None \<Rightarrow> 0 | Some a \<Rightarrow> 5) +
     (case wk_pc w of W_Took a \<Rightarrow> 4 | W_Run a now \<Rightarrow> 3 | W_Done \<Rightarrow> 1 | _ \<Rightarrow> 0)"

definition work :: "pool \<Rightarrow> nat" where
  "work p = 7 * size (queued p) + (case p_sched p of S_Send i a \<Rightarrow> 6 | _ \<Rightarrow> 0) + over load (p_workers p)"

definition alive :: "pool \<Rightarrow> bool" where
  "alive p \<longleftrightarrow> sane p \<and> working p \<and> \<not> p_isShutdown p \<and> p_sched p \<noteq> S_Off \<and> 0 < length (p_workers p)"

lemma alive_step:
  "pool_step n p ev p1 \<Longrightarrow> alive p \<Longrightarrow> \<not> p_isShutdown p1 \<Longrightarrow> p_sched p1 \<noteq> S_Off \<Longrightarrow> alive p1"
  using sane_step working_step step_keeps(1) by (simp add: alive_def)

lemma load_over: "i < length (p_workers p) \<Longrightarrow> over load (p_workers (set_worker i g p)) + load (p_workers p ! i) = over load (p_workers p) + load (g (p_workers p ! i))"
  by (rule over_set_worker)

lemma load_zero: "over load ws = 0 \<longleftrightarrow> (\<forall>w \<in> set ws. load w = 0)"
  by (induction ws) auto

text \<open>A worker with a task moves on.\<close>

lemma worker_moves:
  assumes "alive p" "i < length (p_workers p)" "load (p_workers p ! i) \<noteq> 0"
  shows "\<exists>ev p1. pool_step n p ev p1 \<and> submitted ev = {#} \<and> alive p1 \<and> work p1 < work p"
proof -
  let ?w = "p_workers p ! i"
  have w: "\<not> p_isShutdown p" "p_sched p \<noteq> S_Off" "wk_pc ?w \<noteq> W_Off" "wk_pc ?w \<noteq> W_Exited"
    using assms(1,2) by (auto simp: alive_def working_def)
  have by_step: ?thesis if "pool_step n p ev p1" "submitted ev = {#}" "p_workers p1 = p_workers (set_worker i g p)"
    "load (g ?w) < load ?w" "queued p1 = queued p" "p_sched p1 = p_sched p" "p_isShutdown p1 = p_isShutdown p" for ev p1 g
  proof -
    have "alive p1" using alive_step [OF that(1) assms(1)] that(6,7) w by simp
    moreover have "work p1 < work p" using load_over [OF assms(2), of g] that(3-6) by (simp add: work_def)
    ultimately show ?thesis using that(1,2) by blast
  qed
  consider (took) a where "wk_pc ?w = W_Took a" | (run) a now where "wk_pc ?w = W_Run a now" | (fin) "wk_pc ?w = W_Done"
    | (recv) a where "wk_pc ?w = W_Select" "wk_taskChan ?w = Some a"
    using w assms(3) by (cases "wk_pc ?w"; cases "wk_taskChan ?w") (auto simp: load_def)
  then show ?thesis
  proof cases
    case took
    show ?thesis
      by (rule by_step [OF Beginning [OF assms(2) took, where now = 0] _,
            where g = "\<lambda>w. w\<lparr>wk_isBusy := True, wk_currentTask := Some a, wk_pc := W_Run a 0\<rparr>"])
        (simp_all add: exec_begin_def queued_def load_def took)
  next
    case run
    have "end_event a (Returned None) p = Succeeded a" by (simp add: end_event_def run_error_def)
    moreover have "queued (exec_end i a now (Returned None) p) = queued p"
      by (simp add: queued_def exec_end_def run_error_def)
    ultimately show ?thesis
      by (intro by_step [OF Ending [OF assms(2) run, where r = "Returned None"] _ exec_end_workers]) (simp_all add: load_def run)
  next
    case fin
    show ?thesis
      by (rule by_step [OF Releasing [OF assms(2) fin], where g = "\<lambda>w. w\<lparr>wk_isBusy := False, wk_currentTask := None, wk_pc := W_Select\<rparr>"])
        (simp_all add: exec_release_def taskDone_def queued_def load_def fin)
  next
    case recv
    show ?thesis
      by (rule by_step [OF Receiving [OF assms(2) recv], where g = "\<lambda>w. w\<lparr>wk_taskChan := None, wk_pc := W_Took a\<rparr>"])
        (simp_all add: recv_task_def queued_def load_def recv)
  qed
qed

text \<open>With all workers free, the scheduler hands out a task that waits.\<close>

lemma dispatch_pops:
  assumes "alive p" "p_sched p = S_Loop i" "i < length (p_workers p)" "\<not> wk_isBusy (p_workers p ! i)" "queued p \<noteq> {#}"
  shows "alive (dispatch_at i p) \<and> work (dispatch_at i p) < work p"
proof -
  obtain r p1 where n: "next_task p = (r, p1)" by (cases "next_task p")
  have q: "queue_ok (p_store p) (p_taskQueue p)" "queue_ok (p_store p) (p_retryQueue p)"
    using assms(1) by (simp_all add: alive_def sane_def)
  note c = next_task_cases [OF q n]
  then obtain a where r: "r = Some a" using assms(5) by auto
  have d: "dispatch_at i p = p1\<lparr>p_sched := S_Send i a\<rparr>" using assms(3,4) n r by (simp add: dispatch_at_def)
  have "alive (dispatch_at i p)"
    by (rule alive_step [OF Dispatching [OF assms(2)] assms(1)]) (use assms(1) next_task_frames [OF n] in \<open>simp_all add: d alive_def\<close>)
  moreover have "size (queued p) = Suc (size (queued p1))" using c r by (simp add: held_task_def)
  then have "work (dispatch_at i p) < work p" using next_task_frames [OF n] assms(2) by (simp add: d work_def queued_def)
  ultimately show ?thesis ..
qed

lemma scheduler_moves:
  assumes "alive p" "\<forall>w \<in> set (p_workers p). load w = 0" "0 < work p"
  shows "\<exists>es p1. pool_run n p es p1 \<and> total submitted es = {#} \<and> alive p1 \<and> work p1 < work p"
proof -
  have idle: "wk_taskChan w = None" "\<not> wk_isBusy w" if "w \<in> set (p_workers p)" for w
    using assms(1,2) that by (auto simp: alive_def working_def load_def at_defs split: option.splits wpc.splits)
  have l: "0 < length (p_workers p)" "\<not> p_isShutdown p" "over load (p_workers p) = 0"
    using assms(1,2) by (simp_all add: alive_def load_zero)
  have from_Loop0: "\<exists>es p2. pool_run n p1 es p2 \<and> total submitted es = {#} \<and> alive p2 \<and> work p2 < work p1"
    if "alive p1" "p_sched p1 = S_Loop 0" "p_workers p1 = p_workers p" "queued p1 \<noteq> {#}" for p1
  proof -
    have "p_workers p ! 0 \<in> set (p_workers p)" using l(1) by simp
    then have "alive (dispatch_at 0 p1) \<and> work (dispatch_at 0 p1) < work p1"
      using dispatch_pops [OF that(1,2)] idle(2) that(3,4) l(1) by simp
    then show ?thesis using one_step [OF Dispatching [OF that(2)]] by (metis total_simps event_simps(1) add_0_right)
  qed
  have from_Select: "\<exists>es p2. pool_run n p1 es p2 \<and> total submitted es = {#} \<and> alive p2 \<and> work p2 < work p1"
    if h: "alive p1" "p_sched p1 = S_Select" "p_workers p1 = p_workers p" "queued p1 \<noteq> {#}" for p1
  proof -
    let ?p2 = "p1\<lparr>p_sched := S_Loop 0\<rparr>"
    have s: "pool_step n p1 Tau ?p2" by (rule Ticking [OF h(2)])
    have a: "alive ?p2" by (rule alive_step [OF s h(1)]) (use h(1) in \<open>simp_all add: alive_def\<close>)
    obtain es p3 where "pool_run n ?p2 es p3" "total submitted es = {#}" "alive p3" "work p3 < work ?p2"
      using from_Loop0 [OF a] h(3,4) by (auto simp: queued_def)
    moreover have "work ?p2 = work p1" using h(2) by (simp add: work_def queued_def)
    ultimately show ?thesis using run_append [OF _ one_step [OF s]] by (metis total_append total_simps event_simps(1) add_0_right)
  qed
  show ?thesis
  proof (cases "p_sched p")
    case (S_Send i a)
    have i: "i < length (p_workers p)" using assms(1) S_Send by (simp add: alive_def sane_def)
    then have c: "wk_taskChan (p_workers p ! i) = None" "load (p_workers p ! i) = 0" using idle(1) assms(2) by simp_all
    have s: "pool_step n p Tau (send_task i a p)" by (rule Sending [OF S_Send c(1)])
    have "alive (send_task i a p)"
      by (rule alive_step [OF s assms(1)]) (use assms(1) in \<open>simp_all add: alive_def send_task_def\<close>)
    moreover have "over load (p_workers (set_worker i (\<lambda>w. w\<lparr>wk_taskChan := Some a\<rparr>) p)) = 5"
      using load_over [OF i, of "\<lambda>w. w\<lparr>wk_taskChan := Some a\<rparr>"] c l(3) by (simp add: load_def split: wpc.splits)
    then have "work (send_task i a p) < work p" using S_Send l(3) by (simp add: work_def send_task_def queued_def)
    ultimately show ?thesis using one_step [OF s] by (metis total_simps event_simps(1) add_0_right)
  next
    case (S_Loop i)
    then have q: "queued p \<noteq> {#}" using assms(3) l(3) by (auto simp: work_def)
    show ?thesis
    proof (cases "i < length (p_workers p)")
      case True
      then have "\<not> wk_isBusy (p_workers p ! i)" using idle(2) by simp
      then have "alive (dispatch_at i p) \<and> work (dispatch_at i p) < work p"
        using dispatch_pops [OF assms(1) S_Loop True] q by simp
      then show ?thesis using one_step [OF Dispatching [OF S_Loop]] by (metis total_simps event_simps(1) add_0_right)
    next
      case False
      then have d: "dispatch_at i p = p\<lparr>p_sched := S_Select\<rparr>" by (simp add: dispatch_at_def)
      have s: "pool_step n p Tau (dispatch_at i p)" by (rule Dispatching [OF S_Loop])
      have a: "alive (dispatch_at i p)" by (rule alive_step [OF s assms(1)]) (use assms(1) in \<open>simp_all add: d alive_def\<close>)
      obtain es p3 where "pool_run n (dispatch_at i p) es p3" "total submitted es = {#}" "alive p3" "work p3 < work (dispatch_at i p)"
        using from_Select [OF a] q by (auto simp: d queued_def)
      moreover have "work (dispatch_at i p) = work p" using S_Loop by (simp add: d work_def queued_def)
      ultimately show ?thesis using run_append [OF _ one_step [OF s]] by (metis total_append total_simps event_simps(1) add_0_right)
    qed
  next
    case S_Select
    then have "queued p \<noteq> {#}" using assms(3) l(3) by (auto simp: work_def)
    then show ?thesis using from_Select [OF assms(1) S_Select] by simp
  qed (use assms(1) in \<open>auto simp: alive_def working_def\<close>)
qed

lemma work_moves:
  assumes "alive p" "0 < work p"
  shows "\<exists>es p1. pool_run n p es p1 \<and> total submitted es = {#} \<and> alive p1 \<and> work p1 < work p"
proof (cases "\<forall>w \<in> set (p_workers p). load w = 0")
  case False
  then obtain i where "i < length (p_workers p)" "load (p_workers p ! i) \<noteq> 0" by (auto simp: in_set_conv_nth)
  then show ?thesis using worker_moves [OF assms(1)] one_step by (metis total_simps add_0_right)
qed (use scheduler_moves assms in blast)

lemma work_ends: "alive p \<Longrightarrow> \<exists>es p1. pool_run n p es p1 \<and> total submitted es = {#} \<and> alive p1 \<and> work p1 = 0"
proof (induction "work p" arbitrary: p rule: less_induct)
  case less
  show ?case
  proof (cases "work p = 0")
    case True
    then show ?thesis using less.prems Run_Nil by fastforce
  next
    case False
    then obtain es p1 where a: "pool_run n p es p1" "total submitted es = {#}" "alive p1" "work p1 < work p"
      using work_moves [OF less.prems] by blast
    then obtain es2 p2 where "pool_run n p1 es2 p2" "total submitted es2 = {#}" "alive p2" "work p2 = 0" using less.hyps by blast
    then show ?thesis using run_append [OF _ a(1)] a(2) by (metis total_append add_0_right)
  qed
qed

lemma no_work: "work p = 0 \<Longrightarrow> in_pool p = {#} \<and> finishing p = 0"
proof -
  assume w: "work p = 0"
  then have l: "\<forall>w \<in> set (p_workers p). load w = 0" by (simp add: work_def load_zero)
  have "waiting_at w = {#} \<and> running_at w = {#} \<and> finishing_at w = 0" if "w \<in> set (p_workers p)" for w
    using l that by (auto simp: load_def at_defs split: option.splits wpc.splits)
  then have "over waiting_at (p_workers p) = {#}" "over running_at (p_workers p) = {#}" "over finishing_at (p_workers p) = 0"
    by (simp_all cong: map_cong) 
  then show ?thesis using w by (auto simp: work_def in_pool_def unstarted_def queued_def sent_def finishing_def split: spc.splits)
qed

section \<open>Verdicts and retries\<close>

text \<open>
  C28. No task is lost and none is reported twice: in any interleaving of submissions, cancellations, the
  scheduler, the workers and \<^verbatim>\<open>Stop\<close>, every accepted submission of a task either has its
  one verdict (success or failure) or is still in the pool, waiting or running; the counters of the
  statistics and the wait group say exactly that.
\<close>
theorem one_verdict_each:
  assumes "fresh_pool p0" "pool_run n p0 es p"
  shows "count (total submitted es) a = count (total verdict es) a + count (in_pool p) a \<and>
    TotalTasks (p_stats p) = SuccessTasks (p_stats p) + FailedTasks (p_stats p) + int (size (in_pool p)) \<and>
    p_wg p = int (size (in_pool p)) + int (finishing p)"
proof -
  note b = run_books [OF assms(2,1)]
  have "size (in_pool p) + size (total verdict es) = size (total submitted es)" using b by (metis size_union)
  moreover have "count (total submitted es) a = count (in_pool p) a + count (total verdict es) a" using b by (metis count_union)
  ultimately show ?thesis using b by simp
qed

text \<open>
  C29. Retrying ends: a task is run at most once for each time it was submitted plus its limit of retries,
  however its function fails, so no task keeps the pool busy for ever; its counter of retries is exact
  and stays within the limit.
\<close>
theorem retries_bounded:
  assumes "fresh_pool p0" "pool_run n p0 es p" "a < p_next p"
  shows "int (count (total started es) a) \<le> int (count (total submitted es) a) + t_MaxRetries (p_store p a) \<and>
    t_RetryCount (p_store p a) = int (count (total retried es) a) \<and> t_RetryCount (p_store p a) \<le> t_MaxRetries (p_store p a)"
proof -
  have "unstarted p + total started es = total submitted es + total retried es" using run_books [OF assms(2,1)] by blast
  then have "count (unstarted p) a + count (total started es) a = count (total submitted es) a + count (total retried es) a"
    by (metis count_union)
  then show ?thesis using run_retries [OF assms(2,1), of a] assms(3) by (simp add: retries_ok_def)
qed

section \<open>The pool can always finish\<close>

text \<open>
  C30. The pool never gets stuck while it is not being stopped: from every reachable state of a started
  pool there is a way to go on, without any further submission, in which every task in the pool gets its
  verdict and the wait group reaches zero.
\<close>
theorem work_can_finish:
  assumes "fresh_pool p0" "pool_run n p0 es p" "p_sched p \<noteq> S_Off" "\<not> p_isShutdown p"
  shows "\<exists>es1 p1. pool_run n p es1 p1 \<and> total submitted es1 = {#} \<and> total verdict es1 = in_pool p \<and>
    in_pool p1 = {#} \<and> p_wg p1 = 0"
proof -
  have "length (p_workers p) = length (p_workers p0)" using assms(2) by (induction rule: pool_run.induct) (simp_all add: step_keeps)
  then have "alive p" using run_sane run_working assms fresh_simps(10) [OF assms(1)] by (simp add: alive_def)
  then obtain es1 p1 where r: "pool_run n p es1 p1" "total submitted es1 = {#}" "work p1 = 0" using work_ends by blast
  have "in_pool p1 + total verdict (es1 @ es) = total submitted (es1 @ es)" "in_pool p + total verdict es = total submitted es"
    "p_wg p1 = int (size (in_pool p1)) + int (finishing p1)"
    using run_books [OF run_append [OF r(1) assms(2)] assms(1)] run_books [OF assms(2,1)] by blast+
  then have b: "in_pool p1 + (total verdict es1 + total verdict es) = in_pool p + total verdict es"
    "p_wg p1 = int (size (in_pool p1)) + int (finishing p1)" using r(2) by simp_all
  have e: "in_pool p1 = {#}" "finishing p1 = 0" using no_work [OF r(3)] by simp_all
  have "total verdict es1 = in_pool p" "p_wg p1 = 0" using b unfolding e by simp_all
  then show ?thesis using r(1,2) e(1) by blast
qed

section \<open>Stopping\<close>

lemma exec_end_stop [simp]: "p_stop (exec_end i a now r p) = p_stop p"
  by simp

lemma stopped_step:
  assumes "pool_step n p ev p1" "sane p" "p_isShutdown p"
  shows "p_isShutdown p1 \<and> submitted ev = {#} \<and> (p_stop p1 = Stop_Returned \<longrightarrow> p_stop p = Stop_Returned \<or> p_wg p = 0)"
  using assms(1)
proof cases
  case (Dispatching j)
  obtain r p2 where n: "next_task p = (r, p2)" by (cases "next_task p")
  show ?thesis using next_task_frames [OF n] n assms(3) by (cases r) (simp_all add: Dispatching dispatch_at_def)
next
  case (Ending i a now r)
  then show ?thesis using assms(3) end_event_cases by simp
qed (use assms(3) in \<open>simp_all add: Start_def create_task_def Submit_rest_def pool_Submit_def CancelTask_def send_task_def
    recv_task_def exec_begin_def exec_release_def taskDone_def Stop_call_def Stop_finish_def split: option.splits\<close>)

lemma not_stopped_step:
  assumes "pool_step n p ev p1" "working p" "\<not> p_isShutdown p"
  shows "p_stop p1 \<noteq> Stop_Returned"
proof -
  have ns: "p_stop p = Not_Stopped" using assms(2,3) by (auto simp: working_def)
  show ?thesis using assms(1)
  proof cases
    case (Dispatching j)
    obtain r p2 where n: "next_task p = (r, p2)" by (cases "next_task p")
    show ?thesis using next_task_frames [OF n] n ns by (cases r) (simp_all add: Dispatching dispatch_at_def)
  qed (simp_all add: ns Start_def create_task_def Submit_rest_def pool_Submit_def enqueue_def CancelTask_def send_task_def
      recv_task_def exec_begin_def exec_release_def taskDone_def Stop_call_def split: option.splits)
qed

lemma returned_shutdown: "working p \<Longrightarrow> p_stop p = Stop_Returned \<Longrightarrow> p_isShutdown p"
  by (simp add: working_def)

lemma no_tasks_after_stop:
  assumes "fresh_pool p0" "pool_run n p0 es p" "p_stop p = Stop_Returned"
  shows "in_pool p = {#}"
  using assms(2,1,3)
proof (induction rule: pool_run.induct)
  case (Run_Nil p)
  then show ?case by (simp add: fresh_simps)
next
  case (Run_step p0 es p1 ev p2)
  have s: "sane p1" "working p1" using run_sane run_working Run_step.hyps(1) Run_step.prems(1) by blast+
  have sub: "in_pool p2 + verdict ev = in_pool p1 + submitted ev" by (rule moves_in_pool [OF moves_step [OF Run_step.hyps(2) s(1)]])
  have sh: "p_isShutdown p1" using not_stopped_step [OF Run_step.hyps(2) s(2)] Run_step.prems(2) by blast
  note st = stopped_step [OF Run_step.hyps(2) s(1) sh]
  show ?case
  proof (cases "p_stop p1 = Stop_Returned")
    case True
    then show ?thesis using Run_step.IH Run_step.prems(1) sub st by simp
  next
    case False
    then have "p_wg p1 = 0" using st Run_step.prems(2) by blast
    then have "int (size (in_pool p1)) + int (finishing p1) = 0" using run_books [OF Run_step.hyps(1) Run_step.prems(1)] by simp
    then have "size (in_pool p1) = 0" by linarith
    then have "in_pool p1 = {#}" by simp
    then show ?thesis using sub st by simp
  qed
qed

text \<open>
  \<^verbatim>\<open>Stop\<close> waits: once it has returned, no task is in the pool, every accepted submission
  has its verdict, and none is accepted any more.
\<close>
theorem stop_waits_for_all:
  assumes "fresh_pool p0" "pool_run n p0 es p" "p_stop p = Stop_Returned"
  shows "in_pool p = {#} \<and> total verdict es = total submitted es \<and> pool_Submit a p = (Some ErrPoolShutdown, p)"
proof -
  have "in_pool p = {#}" by (rule no_tasks_after_stop [OF assms])
  moreover have "p_isShutdown p" by (rule returned_shutdown [OF run_working [OF assms(2,1)] assms(3)])
  ultimately show ?thesis using run_books [OF assms(2,1)] by (simp add: pool_Submit_def)
qed

lemma exited_step:
  assumes "pool_step n p ev p1" "sane p" "p_sched p = S_Exited" "queued p \<noteq> {#}"
  shows "p_sched p1 = S_Exited \<and> queued p1 \<noteq> {#}"
  using assms(1)
proof cases
  case (Ending i a now r)
  have q: "queue_ok (p_store p) (p_retryQueue p)" using assms(2) by (simp add: sane_def)
  show ?thesis using exec_end_queues [OF q, of i a now r] assms(3,4) by (auto simp: Ending queued_def)
next
  case (Submitting a)
  have "queue_ok (p_store p) (p_taskQueue p)" using assms(2) by (simp add: sane_def)
  then have "queued p1 = queued p \<or> queued p1 = add_mset a (queued p)"
    by (simp add: Submitting Submit_rest_def pool_Submit_def enqueue_def queued_def)
  moreover have "p_sched p1 = S_Exited" using assms(3) by (simp add: Submitting Submit_rest_def pool_Submit_def enqueue_def)
  ultimately show ?thesis using assms(4) by auto
qed (use assms(3,4) in \<open>simp_all add: queued_def create_task_def CancelTask_def send_task_def
    recv_task_def exec_begin_def exec_release_def taskDone_def Stop_call_def Stop_finish_def split: option.splits\<close>)

text \<open>
  C32. \<^verbatim>\<open>Stop\<close> can hang for ever: closing the channel ends the scheduler, and once it has
  returned while a task still waits in one of the queues, no continuation of any kind takes that task out
  again; the wait group stays above zero and \<^verbatim>\<open>Stop\<close> never returns. (The witness is such a
  state, one task submitted and then stopped.)
\<close>
theorem stop_hangs:
  assumes "fresh_pool p0" "pool_run n p0 es p" "p_sched p = S_Exited" "queued p \<noteq> {#}" "pool_run n p es1 p1"
  shows "p_stop p1 \<noteq> Stop_Returned \<and> 0 < p_wg p1 \<and> queued p1 \<noteq> {#}"
proof -
  have q: "p_sched p1 = S_Exited \<and> queued p1 \<noteq> {#}"
    using assms(5,2,3,4)
  proof (induction rule: pool_run.induct)
    case (Run_step p es1 p1 ev p2)
    have "sane p1" by (rule run_sane [OF run_append [OF Run_step.hyps(1) Run_step.prems(1)] assms(1)])
    then show ?case using exited_step [OF Run_step.hyps(2)] Run_step.IH Run_step.prems by blast
  qed simp
  have r: "pool_run n p0 (es1 @ es) p1" by (rule run_append [OF assms(5,2)])
  have i: "in_pool p1 \<noteq> {#}" using q by (auto simp: in_pool_def unstarted_def)
  then have "0 < p_wg p1" using run_books [OF r assms(1)] by (simp add: nonempty_has_size)
  then show ?thesis using q i no_tasks_after_stop [OF assms(1) r] by blast
qed

section \<open>The bound on the queue\<close>

lemma pop_length:
  assumes "queue_ok st q" "PopTask st q = (r, q2)"
  shows "length q2 \<le> length q"
proof (cases r)
  case None
  then show ?thesis using tq.pop_none [OF assms(1)] assms(2) by simp
next
  case (Some a)
  then have "mset q = add_mset a (mset q2)" using tq.pop_some [OF assms(1)] assms(2) by blast
  then have "length q = Suc (length q2)" by (metis size_mset size_add_mset)
  then show ?thesis by simp
qed

lemma bound_step:
  assumes "pool_step n p ev p1" "sane p" "int (length (p_taskQueue p)) + int (length (p_admitted p)) < p_maxQueueSize p + int n"
  shows "int (length (p_taskQueue p1)) + int (length (p_admitted p1)) < p_maxQueueSize p1 + int n"
  using assms(1)
proof cases
  case (Admitting a)
  then show ?thesis by (simp add: full_def GetQueueSize_def Size_def)
next
  case (Submitting a)
  have "mset (PushTask (p_store p) a (p_taskQueue p)) = add_mset a (mset (p_taskQueue p))" using assms(2) by (simp add: sane_def)
  then have "length (PushTask (p_store p) a (p_taskQueue p)) = Suc (length (p_taskQueue p))" by (metis size_mset size_add_mset)
  moreover have "Suc (length (remove1 a (p_admitted p))) = length (p_admitted p)"
    using Submitting(3) length_pos_if_in_set [OF Submitting(3)] by (simp add: length_remove1)
  moreover have "p_admitted p1 = remove1 a (p_admitted p)" "p_maxQueueSize p1 = p_maxQueueSize p"
    "p_taskQueue p1 = p_taskQueue p \<or> p_taskQueue p1 = PushTask (p_store p) a (p_taskQueue p)"
    unfolding Submitting(2) by (simp_all add: Submit_rest_def pool_Submit_def enqueue_def)
  ultimately have "length (p_admitted p1) + 1 = length (p_admitted p)" "length (p_taskQueue p1) \<le> length (p_taskQueue p) + 1"
    "p_maxQueueSize p1 = p_maxQueueSize p" by auto
  then show ?thesis using assms(3) by linarith
next
  case (Dispatching j)
  obtain r p2 where n: "next_task p = (r, p2)" by (cases "next_task p")
  obtain r2 q2 where q: "PopTask (p_store p) (p_taskQueue p) = (r2, q2)" by (cases "PopTask (p_store p) (p_taskQueue p)")
  have "length q2 \<le> length (p_taskQueue p)" using pop_length [OF _ q] assms(2) by (simp add: sane_def)
  then have "length (p_taskQueue p2) \<le> length (p_taskQueue p)" using n q by (auto simp: next_task_def split: prod.splits option.splits)
  then show ?thesis using next_task_frames [OF n] n assms(3) by (cases r) (simp_all add: Dispatching dispatch_at_def)
qed (use assms(3) in \<open>simp_all add: Start_def create_task_def CancelTask_def send_task_def recv_task_def exec_begin_def
    exec_release_def taskDone_def Stop_call_def Stop_finish_def split: option.splits\<close>)

text \<open>
  The limit of the queue holds but for races: with at most \<^verbatim>\<open>n\<close> submissions under way at a
  time, the queue of new tasks never holds more than the limit and \<^verbatim>\<open>n - 1\<close> tasks (exactly
  the limit for one submitter at a time), however the checks and the pushes interleave.
\<close>
theorem queue_bounded:
  assumes "fresh_pool p0" "pool_run n p0 es p" "0 < n"
  shows "GetQueueSize p \<le> p_maxQueueSize p + int n - 1"
proof -
  have "int (length (p_taskQueue p)) + int (length (p_admitted p)) < p_maxQueueSize p + int n"
    using assms(2,1,3)
  proof (induction rule: pool_run.induct)
    case (Run_Nil p)
    then show ?case using fresh_simps(2,7,11) [OF Run_Nil(1)] by simp
  next
    case (Run_step p0 es p1 ev p2)
    then show ?case using bound_step [OF Run_step.hyps(2)] run_sane by blast
  qed
  then show ?thesis by (simp add: GetQueueSize_def Size_def)
qed

section \<open>Cancelling and timing\<close>

text \<open>Cancelling marks a task and takes nothing out of the pool: the task is run all the same.\<close>

lemma cancel_keeps_task: "in_pool (snd (CancelTask ident p)) = in_pool p"
  by (simp add: CancelTask_def in_pool_def unstarted_def queued_def split: option.splits)

lemma cancelled_is_run: "t_Status (p_store (exec_begin i a now p) a) = TaskStatusRunning"
  by (simp add: exec_begin_def)

text \<open>The end of a run is stamped with the time of its start, so no run takes any time.\<close>

lemma runs_take_no_time:
  assumes "t_StartedAt (p_store p a) = Some now"
  shows "totalExecTime (p_stats (exec_end i a now r p)) = totalExecTime (p_stats p)"
  using assms by (simp add: exec_end_def Let_def retryTask_def notifyTaskSuccess_def notifyTaskFailed_def record_time_def
      set_task_def set_worker_def failed_at_def split: option.splits)

section \<open>Witnesses\<close>

text \<open>One worker, one task submitted after the start, and a stop before the scheduler has looked.\<close>

definition start_pool :: pool where
  "start_pool = NewTaskQueue 4 \<lparr>WorkerCount = 1, MaxQueueSize = 1\<rparr>"

definition busy_pool :: pool where
  "busy_pool = snd (Submit_rest 0 (snd (create_task (NewTask ''t'' 0 ''n'' []) (Start start_pool))))"

definition hung_pool :: pool where
  "hung_pool = (Stop_call busy_pool)\<lparr>p_sched := S_Exited\<rparr>"

definition stopped_pool :: pool where
  "stopped_pool = Stop_finish (Stop_call start_pool)"

lemma start_fresh: "fresh_pool start_pool"
  by (auto simp: fresh_pool_def start_pool_def)

lemma busy_run: "pool_run 1 start_pool [Submitted 0, Tau, Tau, Tau] busy_pool"
proof -
  let ?t = "NewTask ''t'' 0 ''n'' []"
  define p1 p2 p3 where "p1 = Start start_pool" and "p2 = snd (create_task ?t p1)" and "p3 = p2\<lparr>p_admitted := 0 # p_admitted p2\<rparr>"
  have t: "?t\<lparr>t_Timeout := 30 * 10 ^ 9\<rparr> = ?t" by (simp add: NewTask_def)
  have s: "p_maxQueueSize start_pool = 1" "p_next start_pool = 0" "p_admitted start_pool = []" "\<not> p_isShutdown start_pool"
    "p_taskQueue start_pool = []" "p_sched start_pool = S_Off"
    by (simp_all add: start_pool_def NewTaskQueue_def NewWorkerPool_def)
  then have p2: "p_admitted p2 = []" "\<not> p_isShutdown p2" "p_taskQueue p2 = []" "p_next p2 = 1" "p_maxQueueSize p2 = 1"
    by (simp_all add: p2_def p1_def Start_def create_task_def)
  have a: "pool_step 1 start_pool Tau p1" unfolding p1_def by (rule Starting [OF s(6)])
  have b: "pool_step 1 p1 Tau p2" unfolding p2_def
    using Creating [OF refl, where d = "30 * 10 ^ 9" and ident = "''t''" and now = 0 and name = "''n''" and opts = "[]"]
    unfolding t by blast
  have c: "pool_step 1 p2 Tau p3" unfolding p3_def
    by (rule Admitting) (simp_all add: p2 full_def GetQueueSize_def Size_def)
  have "p3\<lparr>p_admitted := remove1 0 (p_admitted p3)\<rparr> = p2\<lparr>p_admitted := p_admitted p2\<rparr>" by (simp add: p3_def)
  also have "\<dots> = p2" by simp
  finally have "pool_step 1 p3 (if p_isShutdown p3 then Tau else Submitted 0) (snd (Submit_rest 0 p2))"
    using Submitting [of 0 p3 1] by (simp add: p3_def)
  then have d: "pool_step 1 p3 (Submitted 0) busy_pool" using p2(2) by (simp add: busy_pool_def p1_def p2_def p3_def)
  show ?thesis by (rule Run_step [OF Run_step [OF Run_step [OF Run_step [OF Run_Nil a] b] c] d])
qed

lemma busy_simps: "p_sched busy_pool = S_Select" "\<not> p_isShutdown busy_pool" "p_stop busy_pool = Not_Stopped" "p_next busy_pool = 1"
  by (simp_all add: busy_pool_def start_pool_def NewTaskQueue_def NewWorkerPool_def Start_def create_task_def Submit_rest_def
      pool_Submit_def enqueue_def)

lemma busy_queue: "queued busy_pool = {#0#}"
  by (simp add: busy_pool_def start_pool_def NewTaskQueue_def NewWorkerPool_def Start_def create_task_def Submit_rest_def
      pool_Submit_def enqueue_def queued_def)

lemma hung_run: "pool_run 1 start_pool [Tau, Tau, Submitted 0, Tau, Tau, Tau] hung_pool"
proof -
  have "pool_step 1 busy_pool Tau (Stop_call busy_pool)" by (rule Stopping)
  moreover have "pool_step 1 (Stop_call busy_pool) Tau hung_pool"
    unfolding hung_pool_def by (rule Sched_exit) (simp_all add: Stop_call_def busy_simps)
  ultimately show ?thesis using busy_run by (blast intro: pool_run.intros)
qed

theorem one_verdict_each_witness: "count (in_pool hung_pool) 0 = 1 \<and> TotalTasks (p_stats hung_pool) = int (size (in_pool hung_pool))
    + SuccessTasks (p_stats hung_pool) + FailedTasks (p_stats hung_pool)"
  using one_verdict_each [OF start_fresh hung_run, of 0] by simp

theorem retries_bounded_witness: "t_RetryCount (p_store busy_pool 0) = 0 \<and> 0 \<le> 1 + t_MaxRetries (p_store busy_pool 0)"
  using retries_bounded [OF start_fresh busy_run, of 0] busy_simps by simp

theorem work_can_finish_witness: "\<exists>es p. pool_run 1 busy_pool es p \<and> in_pool p = {#} \<and> p_wg p = 0"
  using work_can_finish [OF start_fresh busy_run] busy_simps by (metis spc.distinct(1))

theorem stop_hangs_witness: "p_stop hung_pool \<noteq> Stop_Returned \<and> 0 < p_wg hung_pool"
proof -
  have "queued hung_pool = queued busy_pool" by (simp add: hung_pool_def Stop_call_def queued_def)
  then have "p_sched hung_pool = S_Exited" "queued hung_pool \<noteq> {#}" by (simp_all add: hung_pool_def busy_queue)
  then show ?thesis using stop_hangs [OF start_fresh hung_run _ _ Run_Nil] by blast
qed

theorem stop_waits_for_all_witness: "in_pool stopped_pool = {#} \<and> fst (pool_Submit 0 stopped_pool) = Some ErrPoolShutdown"
proof -
  have "p_wg start_pool = 0" "\<not> p_isShutdown start_pool" using fresh_simps [OF start_fresh] by simp_all
  then have "pool_run 1 start_pool [Tau, Tau] stopped_pool" unfolding stopped_pool_def
    by (intro Run_step [OF Run_step [OF Run_Nil Stopping] Stopped]) (simp_all add: Stop_call_def)
  then show ?thesis using stop_waits_for_all [OF start_fresh, of 1 "[Tau, Tau]" stopped_pool 0] by (simp add: stopped_pool_def Stop_finish_def)
qed

theorem queue_bounded_witness: "GetQueueSize busy_pool \<le> 1"
proof -
  have "p_maxQueueSize busy_pool = 1"
    by (simp add: busy_pool_def start_pool_def NewTaskQueue_def NewWorkerPool_def Start_def create_task_def Submit_rest_def
        pool_Submit_def enqueue_def)
  then show ?thesis using queue_bounded [OF start_fresh busy_run] by simp
qed

end
