(* ===== verification/TaskMetrics.thy ===== *)
theory TaskMetrics
  imports TaskLive Complex_Main
begin

text \<open>
  What the task queue tells about itself (pkg/task/task_queue.go, pkg/task/metrics.go): the statistics of
  the queue and their two exports, and what the exported rates mean over a run of the pool. Rates are
  exact fractions; the code computes them in float64.
\<close>

section \<open>Statistics of the queue\<close>

record QueueStats =
  qs_TotalTasks :: int
  qs_SuccessTasks :: int
  qs_FailedTasks :: int
  qs_RetryTasks :: int
  qs_ActiveWorkers :: int
  qs_QueuedTasks :: int
  qs_WorkerCount :: int
  qs_MaxQueueSize :: int
  qs_AvgExecuteTime :: int

definition queue_GetStats :: "pool \<Rightarrow> QueueStats" where
  "queue_GetStats p =
    (let s = GetStats p in
     \<lparr>qs_TotalTasks = TotalTasks s, qs_SuccessTasks = SuccessTasks s, qs_FailedTasks = FailedTasks s,
      qs_RetryTasks = RetryTasks s, qs_ActiveWorkers = ActiveWorkers s, qs_QueuedTasks = QueuedTasks s,
      qs_WorkerCount = int (length (p_workers p)), qs_MaxQueueSize = p_maxQueueSize p,
      qs_AvgExecuteTime = AvgExecuteTime s\<rparr>)"

section \<open>Exports\<close>

datatype metric = Stamp string | Number int | Percent rat

text \<open>Nanoseconds to milliseconds; the division of int64 rounds towards zero.\<close>

definition truncMillis :: "int \<Rightarrow> int" where
  "truncMillis t = (if 0 \<le> t then t div 1000000 else - (- t div 1000000))"

definition common_metrics :: "string \<Rightarrow> QueueStats \<Rightarrow> string \<rightharpoonup> metric" where
  "common_metrics now s =
    [''timestamp'' \<mapsto> Stamp now, ''total_tasks'' \<mapsto> Number (qs_TotalTasks s),
     ''success_tasks'' \<mapsto> Number (qs_SuccessTasks s), ''failed_tasks'' \<mapsto> Number (qs_FailedTasks s),
     ''retry_tasks'' \<mapsto> Number (qs_RetryTasks s), ''queued_tasks'' \<mapsto> Number (qs_QueuedTasks s),
     ''active_workers'' \<mapsto> Number (qs_ActiveWorkers s), ''worker_count'' \<mapsto> Number (qs_WorkerCount s),
     ''max_queue_size'' \<mapsto> Number (qs_MaxQueueSize s),
     ''avg_execute_time_ms'' \<mapsto> Number (truncMillis (qs_AvgExecuteTime s))]"

definition rate_metrics :: "QueueStats \<Rightarrow> (string \<rightharpoonup> metric) \<Rightarrow> string \<rightharpoonup> metric" where
  "rate_metrics s m =
    (if 0 < qs_TotalTasks s
     then m(''success_rate'' \<mapsto> Percent (of_int (qs_SuccessTasks s) / of_int (qs_TotalTasks s) * 100),
            ''failure_rate'' \<mapsto> Percent (of_int (qs_FailedTasks s) / of_int (qs_TotalTasks s) * 100))
     else m)"

definition usage_metric :: "QueueStats \<Rightarrow> (string \<rightharpoonup> metric) \<Rightarrow> string \<rightharpoonup> metric" where
  "usage_metric s m =
    (if 0 < qs_MaxQueueSize s
     then m(''queue_usage'' \<mapsto> Percent (of_int (qs_QueuedTasks s) / of_int (qs_MaxQueueSize s) * 100))
     else m)"

text \<open>The fields of the exported JSON, before \<^verbatim>\<open>json.MarshalIndent\<close>, and the map.\<close>

definition ExportMetrics :: "string \<Rightarrow> pool \<Rightarrow> string \<rightharpoonup> metric" where
  "ExportMetrics now p =
    (let s = queue_GetStats p in
     usage_metric s (rate_metrics s ((common_metrics now s)
       (''success_rate'' \<mapsto> Percent 0, ''failure_rate'' \<mapsto> Percent 0, ''queue_usage'' \<mapsto> Percent 0))))"

definition GetMetricsMap :: "string \<Rightarrow> pool \<Rightarrow> string \<rightharpoonup> metric" where
  "GetMetricsMap now p = (let s = queue_GetStats p in usage_metric s (rate_metrics s (common_metrics now s)))"

text \<open>The line the monitor logs every thirty seconds.\<close>

definition monitor_line :: "pool \<Rightarrow> int list" where
  "monitor_line p =
    (let s = queue_GetStats p in
     [qs_TotalTasks s, qs_SuccessTasks s, qs_FailedTasks s, qs_RetryTasks s, qs_QueuedTasks s, qs_ActiveWorkers s,
      qs_WorkerCount s])"

lemmas metrics_defs = ExportMetrics_def GetMetricsMap_def usage_metric_def rate_metrics_def common_metrics_def
  queue_GetStats_def GetStats_def Let_def

section \<open>What the exports say\<close>

text \<open>The map is the JSON without the rates that are not defined yet.\<close>

lemma map_below_json: "GetMetricsMap now p \<subseteq>\<^sub>m ExportMetrics now p"
  by (auto simp: map_le_def metrics_defs)

lemma map_without_rates:
  assumes "k \<in> dom (ExportMetrics now p)" "k \<notin> dom (GetMetricsMap now p)"
  shows "ExportMetrics now p k = Some (Percent 0)"
  using assms by (auto simp: metrics_defs split: if_splits)

text \<open>
  Over any run of the pool the two rates add up to the share of the accepted submissions that have their
  verdict, so never to more than a hundred.
\<close>

lemma rates_exact:
  assumes "fresh_pool p0" "pool_run n p0 es p" "total submitted es \<noteq> {#}"
  obtains s f where "ExportMetrics now p ''success_rate'' = Some (Percent s)"
    "ExportMetrics now p ''failure_rate'' = Some (Percent f)"
    "s + f = 100 * (of_nat (size (total verdict es)) / of_nat (size (total submitted es)))" "s + f \<le> 100"
proof -
  note b = run_books [OF assms(2,1)]
  let ?t = "size (total submitted es)" and ?v = "size (total verdict es)"
  from assms(3) have t: "0 < ?t" by (simp add: nonempty_has_size)
  let ?s = "of_int (SuccessTasks (p_stats p)) / of_nat ?t * (100::rat)"
  let ?f = "of_int (FailedTasks (p_stats p)) / of_nat ?t * (100::rat)"
  have "of_int (SuccessTasks (p_stats p) + FailedTasks (p_stats p)) = (of_nat ?v :: rat)" using b by simp
  then have v: "of_int (SuccessTasks (p_stats p)) + of_int (FailedTasks (p_stats p)) = (of_nat ?v :: rat)" by simp
  have e: "?s + ?f = 100 * (of_nat ?v / of_nat ?t)" unfolding v [symmetric] by (simp add: add_divide_distrib algebra_simps)
  have "size (in_pool p) + ?v = ?t" using b by (metis size_union)
  then have "?v \<le> ?t" by simp
  with t have "(of_nat ?v / of_nat ?t :: rat) \<le> 1" by simp
  with e have l: "?s + ?f \<le> 100" by linarith
  have "ExportMetrics now p ''success_rate'' = Some (Percent ?s)" "ExportMetrics now p ''failure_rate'' = Some (Percent ?f)"
    using b t by (simp_all add: metrics_defs)
  then show thesis using e l that by blast
qed

end
