(* ===== verification/EventBus.thy ===== *)
theory EventBus
  imports GoStrings "HOL-Library.Sublist"
begin

text \<open>
  The event bus (pkg/eventbus/eventbus.go, interface.go): publishing at once or through a buffer that one
  goroutine empties, subscriptions, and closing. The connection to the broker, JSON and UUIDs are
  parameters; the broker is the list of the messages it took. A step is a piece of the code between two
  points where another goroutine may run.
\<close>

section \<open>Events and messages\<close>

record Envelope =
  EventID :: string
  EventType :: string
  Topic :: string
  Source :: string
  Version :: string
  OccurredAt :: int
  Data :: string

record mq_message =
  mq_topic :: string
  Payload :: string
  Timestamp :: int
  at_topic :: string
  at_event_type :: string
  at_event_id :: string
  at_event_source :: string

record pendingEvent =
  pe_topic :: string
  pe_payload :: string
  pe_eventType :: string
  pe_eventID :: string

record EventBusConfig =
  cf_Source :: string
  PublishTimeout :: int
  PendingBufferSize :: int

definition DefaultEventBusConfig :: EventBusConfig where
  "DefaultEventBusConfig = \<lparr>cf_Source = ''ley-unknown'', PublishTimeout = 5 * 10 ^ 9, PendingBufferSize = 1024\<rparr>"

definition ErrEventBusClosed :: string where "ErrEventBusClosed = ''event bus is closed''"
definition ErrEventBusFull :: string where "ErrEventBusFull = ''event bus buffer is full''"

text \<open>The type's name after its last dot.\<close>

definition typeName :: "string \<Rightarrow> string" where
  "typeName s = rev (takeWhile (\<lambda>c. c \<noteq> CHR ''.'') (rev s))"

section \<open>The bus\<close>

text \<open>The goroutine: at its receive, holding an event, returned.\<close>

datatype bus_pc = B_Waiting | B_Holding pendingEvent | B_Exited

text \<open>
  \<^verbatim>\<open>eb_closing\<close> says how far \<^verbatim>\<open>Close\<close> is: not called, waiting for the
  goroutine, returned. A nil map of producers is None.
\<close>

datatype close_pc = Not_Closed | Close_Waiting | Close_Returned

record eventBus =
  eb_config :: EventBusConfig
  eb_producers :: "string set option"
  eb_closed :: bool
  eb_stopCh :: bool
  eb_pending :: "pendingEvent list"
  eb_pendingClosed :: bool
  eb_worker :: bus_pc
  eb_closing :: close_pc
  eb_connClosed :: bool
  eb_broker :: "mq_message list"

definition NewEventBus :: "EventBusConfig \<Rightarrow> eventBus" where
  "NewEventBus cf =
    \<lparr>eb_config = \<lparr>cf_Source = (if cf_Source cf = [] then ''ley-unknown'' else cf_Source cf),
       PublishTimeout = (if PublishTimeout cf \<le> 0 then 5 * 10 ^ 9 else PublishTimeout cf),
       PendingBufferSize = (if PendingBufferSize cf \<le> 0 then 1024 else PendingBufferSize cf)\<rparr>,
     eb_producers = Some {}, eb_closed = False, eb_stopCh = False, eb_pending = [], eb_pendingClosed = False,
     eb_worker = B_Waiting, eb_closing = Not_Closed, eb_connClosed = False, eb_broker = []\<rparr>"

text \<open>What a call ends with: nil, an error, or a panic of the runtime.\<close>

datatype pub_result = Nil_error | Error string | Panic string

section \<open>Publishing\<close>

text \<open>
  What the world decides for one message: its id and times, the envelope's JSON, and what the connection
  and the producer answer.
\<close>

record world_choice =
  wc_id :: string
  wc_now :: int
  wc_json :: "Envelope \<Rightarrow> string + string"
  wc_new_producer :: "string option"
  wc_send :: "string option"

definition getOrCreateProducer :: "world_choice \<Rightarrow> string \<Rightarrow> eventBus \<Rightarrow> pub_result \<times> eventBus" where
  "getOrCreateProducer x topic eb =
    (case eb_producers eb of
       Some ps \<Rightarrow>
         if topic \<in> ps then (Nil_error, eb)
         else (case wc_new_producer x of
                 Some er \<Rightarrow> (Error er, eb)
               | None \<Rightarrow> (Nil_error, eb\<lparr>eb_producers := Some (insert topic ps)\<rparr>))
     | None \<Rightarrow>
         (case wc_new_producer x of
            Some er \<Rightarrow> (Error er, eb)
          | None \<Rightarrow> (Panic ''assignment to entry in nil map'', eb)))"

definition envelope_of :: "world_choice \<Rightarrow> eventBus \<Rightarrow> string \<Rightarrow> string \<Rightarrow> string \<Rightarrow> Envelope" where
  "envelope_of x eb topic raw et = \<lparr>EventID = wc_id x, EventType = et, Topic = topic, Source = cf_Source (eb_config eb),
     Version = ''1.0'', OccurredAt = wc_now x, Data = raw\<rparr>"

definition message_of :: "world_choice \<Rightarrow> eventBus \<Rightarrow> string \<Rightarrow> string \<Rightarrow> string \<Rightarrow> mq_message" where
  "message_of x eb topic payload et = \<lparr>mq_topic = topic, Payload = payload, Timestamp = wc_now x, at_topic = topic,
     at_event_type = et, at_event_id = wc_id x, at_event_source = cf_Source (eb_config eb)\<rparr>"

definition publishRaw :: "world_choice \<Rightarrow> string \<Rightarrow> string \<Rightarrow> string \<Rightarrow> eventBus \<Rightarrow> pub_result \<times> eventBus" where
  "publishRaw x topic raw et eb =
    (case wc_json x (envelope_of x eb topic raw et) of
       Inl er \<Rightarrow> (Error er, eb)
     | Inr payload \<Rightarrow>
       (case getOrCreateProducer x topic eb of
          (Nil_error, eb1) \<Rightarrow>
            (case wc_send x of
               Some er \<Rightarrow> (Error er, eb1)
             | None \<Rightarrow> (Nil_error, eb1\<lparr>eb_broker := eb_broker eb1 @ [message_of x eb topic payload et]\<rparr>))
        | r \<Rightarrow> r))"

text \<open>
  The asynchronous call: its check of the flag, then, with the event already built, the send into the
  buffer. A send into a closed channel panics.
\<close>

definition publish_check :: "(string + string) \<Rightarrow> eventBus \<Rightarrow> pub_result option" where
  "publish_check raw eb =
    (if eb_closed eb then Some (Error ErrEventBusClosed) else case raw of Inl er \<Rightarrow> Some (Error er) | Inr _ \<Rightarrow> None)"

definition new_event :: "string \<Rightarrow> string \<Rightarrow> string \<Rightarrow> string \<Rightarrow> pendingEvent" where
  "new_event topic raw go_type ident =
    \<lparr>pe_topic = topic, pe_payload = raw, pe_eventType = typeName go_type, pe_eventID = ident\<rparr>"

definition publish_send :: "pendingEvent \<Rightarrow> eventBus \<Rightarrow> pub_result \<times> eventBus" where
  "publish_send ev eb =
    (if eb_pendingClosed eb then (Panic ''send on closed channel'', eb)
     else if int (length (eb_pending eb)) < PendingBufferSize (eb_config eb)
          then (Nil_error, eb\<lparr>eb_pending := eb_pending eb @ [ev]\<rparr>)
          else (Error ErrEventBusFull, eb))"

definition PublishAsync :: "(string + string) \<Rightarrow> string \<Rightarrow> string \<Rightarrow> string \<Rightarrow> eventBus \<Rightarrow> pub_result \<times> eventBus" where
  "PublishAsync raw topic go_type ident eb =
    (case publish_check raw eb of
       Some r \<Rightarrow> (r, eb)
     | None \<Rightarrow> (case raw of Inl er \<Rightarrow> (Error er, eb) | Inr t \<Rightarrow> publish_send (new_event topic t go_type ident) eb))"

definition PublishSync :: "world_choice \<Rightarrow> (string + string) \<Rightarrow> string \<Rightarrow> string \<Rightarrow> eventBus \<Rightarrow> pub_result \<times> eventBus" where
  "PublishSync x raw topic go_type eb =
    (if eb_closed eb then (Error ErrEventBusClosed, eb)
     else case raw of Inl er \<Rightarrow> (Error er, eb) | Inr t \<Rightarrow> publishRaw x topic t (typeName go_type) eb)"

section \<open>The goroutine\<close>

text \<open>One turn of its loop: the receive, and what follows with the event.\<close>

definition worker_recv :: "eventBus \<Rightarrow> eventBus" where
  "worker_recv eb =
    (case eb_pending eb of
       ev # rest \<Rightarrow> eb\<lparr>eb_pending := rest, eb_worker := B_Holding ev\<rparr>
     | [] \<Rightarrow> if eb_pendingClosed eb then eb\<lparr>eb_worker := B_Exited\<rparr> else eb)"

definition worker_handle :: "world_choice \<Rightarrow> pendingEvent \<Rightarrow> eventBus \<Rightarrow> pub_result option \<times> eventBus" where
  "worker_handle x ev eb =
    (if eb_stopCh eb then (None, eb\<lparr>eb_worker := B_Exited\<rparr>)
     else case publishRaw x (pe_topic ev) (pe_payload ev) (pe_eventType ev) eb of
            (r, eb1) \<Rightarrow> (Some r, eb1\<lparr>eb_worker := B_Waiting\<rparr>))"

section \<open>Closing\<close>

definition Close_begin :: "eventBus \<Rightarrow> eventBus" where
  "Close_begin eb =
    (if eb_closed eb then eb
     else eb\<lparr>eb_closed := True, eb_stopCh := True, eb_pendingClosed := True, eb_closing := Close_Waiting\<rparr>)"

text \<open>\<^verbatim>\<open>errs\<close> are the errors of the producers, then of the connection.\<close>

definition Close_end :: "string list \<Rightarrow> eventBus \<Rightarrow> pub_result \<times> eventBus" where
  "Close_end er_list eb =
    (if er_list = [] then Nil_error else Error (''eventbus close: '' @ concat er_list),
     eb\<lparr>eb_producers := None, eb_connClosed := True, eb_closing := Close_Returned\<rparr>)"

section \<open>Subscribing\<close>

text \<open>What a consumer does with a message: an error makes the broker deliver it again.\<close>

definition on_message :: "(string \<Rightarrow> string + Envelope) \<Rightarrow> (Envelope \<Rightarrow> string option) \<Rightarrow> mq_message \<Rightarrow> string option" where
  "on_message unmarshal handler m =
    (case unmarshal (Payload m) of Inl er \<Rightarrow> Some er | Inr en \<Rightarrow> handler en)"

section \<open>Steps\<close>

text \<open>
  What a step shows: an event taken into the buffer, an event that the goroutine published with what the
  world chose and what came of it, a synchronous publish that succeeded (topic, data and type), a panic.
\<close>

datatype bus_event = Quiet | Accepted pendingEvent | Handled world_choice pendingEvent pub_result
  | Synced world_choice string string string | Panicked

definition sync_event :: "world_choice \<Rightarrow> (string + string) \<Rightarrow> string \<Rightarrow> string \<Rightarrow> pub_result \<Rightarrow> bus_event" where
  "sync_event x raw topic go_type r =
    (case raw of Inl er \<Rightarrow> Quiet | Inr t \<Rightarrow> if r = Nil_error then Synced x topic t (typeName go_type) else Quiet)"

text \<open>\<^verbatim>\<open>calls\<close> are the asynchronous calls between their check and their send.\<close>

inductive bus_step :: "eventBus \<times> pendingEvent list \<Rightarrow> bus_event \<Rightarrow> eventBus \<times> pendingEvent list \<Rightarrow> bool" where
  Check: "publish_check (Inr raw) eb = None \<Longrightarrow>
    bus_step (eb, calls) Quiet (eb, new_event topic raw go_type ident # calls)"
| Send: "ev \<in> set calls \<Longrightarrow> publish_send ev eb = (r, eb1) \<Longrightarrow>
    bus_step (eb, calls) (case r of Nil_error \<Rightarrow> Accepted ev | Error er \<Rightarrow> Quiet | Panic m \<Rightarrow> Panicked) (eb1, remove1 ev calls)"
| Sync: "PublishSync x raw topic go_type eb = (r, eb1) \<Longrightarrow>
    bus_step (eb, calls) (sync_event x raw topic go_type r) (eb1, calls)"
| Receive: "eb_worker eb = B_Waiting \<Longrightarrow> bus_step (eb, calls) Quiet (worker_recv eb, calls)"
| Handle: "eb_worker eb = B_Holding ev \<Longrightarrow> worker_handle x ev eb = (r, eb1) \<Longrightarrow>
    bus_step (eb, calls) (case r of None \<Rightarrow> Quiet | Some res \<Rightarrow> Handled x ev res) (eb1, calls)"
| Closing: "bus_step (eb, calls) Quiet (Close_begin eb, calls)"
| Closed: "eb_closing eb = Close_Waiting \<Longrightarrow> eb_worker eb = B_Exited \<Longrightarrow>
    bus_step (eb, calls) Quiet (snd (Close_end er_list eb), calls)"

inductive_cases bus_stepE: "bus_step st ev st1"

text \<open>A run and what happened in it, in order.\<close>

inductive bus_run :: "eventBus \<times> pendingEvent list \<Rightarrow> bus_event list \<Rightarrow> eventBus \<times> pendingEvent list \<Rightarrow> bool" where
  Bus_Nil: "bus_run st [] st"
| Bus_snoc: "bus_run st es st1 \<Longrightarrow> bus_step st1 ev st2 \<Longrightarrow> bus_run st (es @ [ev]) st2"

section \<open>In order, and nothing lost before closing\<close>

definition accepted :: "bus_event list \<Rightarrow> pendingEvent list" where
  "accepted es = concat (map (\<lambda>e. case e of Accepted ev \<Rightarrow> [ev] | _ \<Rightarrow> []) es)"

definition handled :: "bus_event list \<Rightarrow> pendingEvent list" where
  "handled es = concat (map (\<lambda>e. case e of Handled x ev r \<Rightarrow> [ev] | _ \<Rightarrow> []) es)"

text \<open>The publishes of a run that succeeded, of the goroutine and of synchronous callers, in their order.\<close>

type_synonym publication = "world_choice \<times> string \<times> string \<times> string"

definition published :: "bus_event list \<Rightarrow> publication list" where
  "published es = concat (map (\<lambda>e. case e of
       Handled x ev r \<Rightarrow> if r = Nil_error then [(x, pe_topic ev, pe_payload ev, pe_eventType ev)] else []
     | Synced x topic raw et \<Rightarrow> [(x, topic, raw, et)]
     | _ \<Rightarrow> []) es)"

text \<open>The message of a publication: the envelope of its data as JSON, on its topic, with the attributes.\<close>

definition carries :: "EventBusConfig \<Rightarrow> publication \<Rightarrow> mq_message \<Rightarrow> bool" where
  "carries cf p m \<longleftrightarrow> (case p of (x, topic, raw, et) \<Rightarrow>
     wc_json x \<lparr>EventID = wc_id x, EventType = et, Topic = topic, Source = cf_Source cf, Version = ''1.0'',
       OccurredAt = wc_now x, Data = raw\<rparr> = Inr (Payload m) \<and>
     mq_topic m = topic \<and> at_topic m = topic \<and> at_event_type m = et \<and> at_event_id m = wc_id x \<and>
     at_event_source m = cf_Source cf)"

definition in_hand :: "bus_pc \<Rightarrow> pendingEvent list" where
  "in_hand w = (case w of B_Holding ev \<Rightarrow> [ev] | _ \<Rightarrow> [])"

lemma history_simps [simp]: "accepted [] = []" "handled [] = []"
  "accepted (es @ [ev]) = accepted es @ accepted [ev]" "handled (es @ [ev]) = handled es @ handled [ev]"
  "accepted [Accepted e] = [e]" "accepted [Quiet] = []" "accepted [Handled x e r] = []" "accepted [Panicked] = []"
  "handled [Accepted e] = []" "handled [Quiet] = []" "handled [Handled x e r] = [e]" "handled [Panicked] = []"
  "accepted [Synced x t d et] = []" "handled [Synced x t d et] = []"
  by (simp_all add: accepted_def handled_def)

lemma publications_simps [simp]: "published [] = []" "published (es @ [ev]) = published es @ published [ev]"
  "published [Accepted e] = []" "published [Quiet] = []" "published [Panicked] = []" "published [Synced x t d et] = [(x, t, d, et)]"
  "published [Handled x e r] = (if r = Nil_error then [(x, pe_topic e, pe_payload e, pe_eventType e)] else [])"
  by (simp_all add: published_def)

lemma sync_event_simps [simp]: "accepted [sync_event x raw topic ty r] = []" "handled [sync_event x raw topic ty r] = []"
  by (simp_all add: sync_event_def split: sum.split)

text \<open>A publish that succeeds gives the broker one message, the right one; any other gives it none.\<close>

lemma publishRaw_broker:
  assumes "publishRaw x topic raw et eb = (r, eb1)"
  shows "\<exists>ms. eb_broker eb1 = eb_broker eb @ ms \<and>
    list_all2 (carries (eb_config eb)) (if r = Nil_error then [(x, topic, raw, et)] else []) ms"
proof (cases "wc_json x (envelope_of x eb topic raw et)")
  case (Inr payload)
  obtain r0 eb0 where g: "getOrCreateProducer x topic eb = (r0, eb0)" by fastforce
  then have k: "eb_broker eb0 = eb_broker eb" "eb_config eb0 = eb_config eb"
    by (auto simp: getOrCreateProducer_def split: option.splits if_splits)
  from assms Inr g k show ?thesis
    by (cases r0; cases "wc_send x") (auto simp: publishRaw_def carries_def message_of_def envelope_of_def)
qed (use assms in \<open>auto simp: publishRaw_def\<close>)

lemma publishRaw_keeps:
  "publishRaw x topic raw et eb = (r, eb1) \<Longrightarrow>
    eb_pending eb1 = eb_pending eb \<and> eb_worker eb1 = eb_worker eb \<and> eb_stopCh eb1 = eb_stopCh eb \<and>
    eb_pendingClosed eb1 = eb_pendingClosed eb \<and> eb_closed eb1 = eb_closed eb \<and> eb_config eb1 = eb_config eb \<and>
    eb_closing eb1 = eb_closing eb"
  by (auto simp: publishRaw_def getOrCreateProducer_def split: sum.splits option.splits if_splits pub_result.splits prod.splits)

text \<open>
  The accepted events are the handled ones, the one in the goroutine's hand and those in the buffer, in
  this order; once the goroutine has returned a tail of them is left over. The flags of \<^verbatim>\<open>Close\<close> go
  together, and the buffer keeps its bound.
\<close>

definition bus_ok :: "bus_event list \<Rightarrow> eventBus \<Rightarrow> bool" where
  "bus_ok es eb \<longleftrightarrow>
     (eb_worker eb \<noteq> B_Exited \<longrightarrow> accepted es = handled es @ in_hand (eb_worker eb) @ eb_pending eb) \<and>
     prefix (handled es) (accepted es) \<and> eb_stopCh eb = eb_closed eb \<and> eb_pendingClosed eb = eb_closed eb \<and>
     (eb_worker eb = B_Exited \<longrightarrow> eb_closed eb) \<and> (eb_closing eb \<noteq> Not_Closed \<longrightarrow> eb_closed eb) \<and>
     (eb_closing eb = Close_Returned \<longrightarrow> eb_worker eb = B_Exited) \<and>
     int (length (eb_pending eb)) \<le> PendingBufferSize (eb_config eb) \<and>
     list_all2 (carries (eb_config eb)) (published es) (eb_broker eb)"

lemma bus_ok_new: "bus_ok [] (NewEventBus cf)"
  by (simp add: bus_ok_def NewEventBus_def in_hand_def)

lemma bus_ok_step:
  assumes "bus_step (eb, calls) ev (eb1, calls1)" "bus_ok es eb"
  shows "bus_ok (es @ [ev]) eb1"
  using assms(1)
proof cases
  case (Send e r)
  then show ?thesis using assms(2)
    by (cases "eb_worker eb") (auto simp: bus_ok_def publish_send_def in_hand_def prefix_def split: if_splits)
next
  case (Sync x raw topic go_type r)
  show ?thesis
  proof (cases "eb_closed eb \<or> (\<exists>er. raw = Inl er)")
    case True
    then have "eb1 = eb" "published [ev] = []"
      using Sync by (auto simp: PublishSync_def sync_event_def split: if_splits sum.splits)
    then show ?thesis using Sync assms(2) by (simp add: bus_ok_def)
  next
    case False
    then obtain t where t: "raw = Inr t" "publishRaw x topic t (typeName go_type) eb = (r, eb1)"
      using Sync by (cases raw) (auto simp: PublishSync_def)
    obtain ms where ms: "eb_broker eb1 = eb_broker eb @ ms"
      "list_all2 (carries (eb_config eb)) (if r = Nil_error then [(x, topic, t, typeName go_type)] else []) ms"
      using publishRaw_broker [OF t(2)] by blast
    have "published [ev] = (if r = Nil_error then [(x, topic, t, typeName go_type)] else [])"
      using Sync t(1) by (simp add: sync_event_def)
    then show ?thesis using Sync assms(2) ms publishRaw_keeps [OF t(2)]
      by (auto simp: bus_ok_def list_all2_appendI)
  qed
next
  case Receive
  then show ?thesis using assms(2)
    by (cases "eb_pending eb") (auto simp: bus_ok_def worker_recv_def in_hand_def split: if_splits)
next
  case (Handle e x r)
  show ?thesis
  proof (cases "eb_stopCh eb")
    case True
    then show ?thesis using Handle assms(2) by (auto simp: bus_ok_def worker_handle_def)
  next
    case False
    obtain res eb2 where p: "publishRaw x (pe_topic e) (pe_payload e) (pe_eventType e) eb = (res, eb2)"
      by (cases "publishRaw x (pe_topic e) (pe_payload e) (pe_eventType e) eb")
    obtain ms where ms: "eb_broker eb2 = eb_broker eb @ ms"
      "list_all2 (carries (eb_config eb)) (if res = Nil_error then [(x, pe_topic e, pe_payload e, pe_eventType e)] else []) ms"
      using publishRaw_broker [OF p] by blast
    have s: "ev = Handled x e res" "eb1 = eb2\<lparr>eb_worker := B_Waiting\<rparr>"
      using Handle False p by (auto simp: worker_handle_def)
    have "list_all2 (carries (eb_config eb1)) (published (es @ [ev])) (eb_broker eb1)"
      using assms(2) ms publishRaw_keeps [OF p] by (simp add: s bus_ok_def list_all2_appendI)
    then show ?thesis using Handle(3) False assms(2) publishRaw_keeps [OF p] unfolding s
      by (auto simp: bus_ok_def in_hand_def prefix_def)
  qed
qed (use assms(2) in \<open>auto simp: bus_ok_def Close_begin_def Close_end_def in_hand_def\<close>)

lemma bus_run_ok: "bus_run st es st1 \<Longrightarrow> st = (NewEventBus cf, []) \<Longrightarrow> bus_ok es (fst st1)"
proof (induction rule: bus_run.induct)
  case (Bus_Nil st)
  then show ?case by (simp add: bus_ok_new)
next
  case (Bus_snoc st es st1 ev st2)
  then show ?case using bus_ok_step by (cases st1; cases st2) auto
qed

text \<open>
  C33. The bus is a queue: in any interleaving of callers, the goroutine and \<^verbatim>\<open>Close\<close>, the
  goroutine takes the accepted events in the order they were accepted, each once and none besides, and until
  \<^verbatim>\<open>Close\<close> is called every accepted event is taken, in hand or in the buffer, whose bound holds. What
  the broker has received is, in this order, exactly one message for each publish that succeeded, of the
  goroutine or of a synchronous caller, with the envelope of its data; an event whose publish failed is not
  tried again and lost.
\<close>
theorem events_in_order:
  assumes "bus_run (NewEventBus cf, []) es (eb, calls)"
  shows "prefix (handled es) (accepted es) \<and>
    (eb_closed eb \<or> accepted es = handled es @ in_hand (eb_worker eb) @ eb_pending eb) \<and>
    int (length (eb_pending eb)) \<le> PendingBufferSize (eb_config eb) \<and>
    list_all2 (carries (eb_config eb)) (published es) (eb_broker eb)"
  using bus_run_ok [OF assms refl] by (auto simp: bus_ok_def)

section \<open>Closing loses what is buffered\<close>

lemma closed_step:
  assumes "bus_step (eb, calls) ev (eb1, calls1)" "bus_ok es eb" "eb_closed eb"
  shows "eb_closed eb1 \<and> handled [ev] = [] \<and> accepted [ev] = []"
  using assms(1)
proof cases
  case (Send e r)
  then show ?thesis using assms(2,3) by (auto simp: bus_ok_def publish_send_def)
next
  case (Sync x raw topic go_type r)
  then show ?thesis using assms(3) by (simp add: PublishSync_def)
next
  case Receive
  then show ?thesis using assms(3) by (simp add: worker_recv_def split: list.splits)
next
  case (Handle e x r)
  then show ?thesis using assms(2,3) by (auto simp: bus_ok_def worker_handle_def)
qed (use assms(3) in \<open>simp_all add: Close_begin_def Close_end_def publish_check_def\<close>)

lemma bus_run_ok_from: "bus_run st es st1 \<Longrightarrow> bus_ok es0 (fst st) \<Longrightarrow> bus_ok (es0 @ es) (fst st1)"
proof (induction rule: bus_run.induct)
  case (Bus_snoc st es st1 ev st2)
  then show ?case using bus_ok_step [of "fst st1" "snd st1" ev "fst st2" "snd st2" "es0 @ es"] by simp
qed simp

text \<open>
  Closing drops what is buffered, and breaks callers: from the moment \<^verbatim>\<open>Close\<close> has set its
  flags, no accepted event that was not handled yet is ever handed to the broker, in any continuation, and
  every call that had passed its check panics at its send into the closed channel.
\<close>
theorem close_drops_events:
  assumes "bus_run (NewEventBus cf, []) es (eb, calls)" "eb_closed eb" "bus_run (eb, calls) es1 (eb1, calls1)"
  shows "handled (es @ es1) = handled es \<and> accepted (es @ es1) = accepted es \<and>
    fst (publish_send ev eb1) = Panic ''send on closed channel''"
proof -
  have "eb_closed (fst st1) \<and> handled es1 = [] \<and> accepted es1 = []" if "bus_run st es1 st1" "st = (eb, calls)" for st st1
    using that
  proof (induction rule: bus_run.induct)
    case (Bus_snoc st es1 st1 ev st2)
    have ok: "bus_ok (es @ es1) (fst st1)"
      using bus_run_ok_from [OF Bus_snoc.hyps(1)] bus_run_ok [OF assms(1) refl] Bus_snoc.prems by simp
    show ?case using closed_step [of "fst st1" "snd st1" ev "fst st2" "snd st2", OF _ ok] Bus_snoc by simp
  qed (use assms(2) in simp)
  from this [OF assms(3) refl] have c: "eb_closed eb1" "handled es1 = []" "accepted es1 = []" by simp_all
  have "bus_ok (es @ es1) eb1" using bus_run_ok_from [OF assms(3)] bus_run_ok [OF assms(1) refl] by simp
  then have "eb_pendingClosed eb1" using c(1) by (simp add: bus_ok_def)
  then show ?thesis using c(2,3) by (simp add: accepted_def handled_def publish_send_def)
qed

section \<open>What is published arrives\<close>

text \<open>A message that was sent gives the subscriber's handler the envelope with the event's data.\<close>

lemma published_arrives:
  assumes "publishRaw x topic raw et eb = (Nil_error, eb1)" "\<And>en t. wc_json x en = Inr t \<Longrightarrow> unmarshal t = Inr en"
  shows "\<exists>m. eb_broker eb1 = eb_broker eb @ [m] \<and> mq_topic m = topic \<and>
    on_message unmarshal handler m = handler (envelope_of x eb topic raw et)"
proof -
  obtain payload eb2 where p: "wc_json x (envelope_of x eb topic raw et) = Inr payload"
    "getOrCreateProducer x topic eb = (Nil_error, eb2)"
    "eb1 = eb2\<lparr>eb_broker := eb_broker eb2 @ [message_of x eb topic payload et]\<rparr>"
    using assms(1) by (auto simp: publishRaw_def split: sum.splits prod.splits pub_result.splits option.splits)
  have "eb_broker eb2 = eb_broker eb" using p(2) by (auto simp: getOrCreateProducer_def split: option.splits if_splits)
  then show ?thesis using p assms(2) by (auto simp: on_message_def message_of_def)
qed

section \<open>Witnesses\<close>

definition small_bus :: eventBus where "small_bus = NewEventBus DefaultEventBusConfig"

definition an_event :: pendingEvent where "an_event = new_event ''t'' ''{}'' ''biz.E'' ''1''"

definition a_choice :: world_choice where
  "a_choice = \<lparr>wc_id = ''2'', wc_now = 1, wc_json = (\<lambda>en. Inr (Data en)), wc_new_producer = None, wc_send = None\<rparr>"

definition lost_bus :: eventBus where
  "lost_bus = snd (Close_end [] ((Close_begin (small_bus\<lparr>eb_pending := [an_event]\<rparr>))\<lparr>eb_pending := [], eb_worker := B_Exited\<rparr>))"

lemma one_accepted:
  "bus_run (small_bus, []) [Quiet, Accepted an_event] (small_bus\<lparr>eb_pending := [an_event]\<rparr>, [])"
proof -
  have s: "\<not> eb_closed small_bus" "\<not> eb_pendingClosed small_bus" "eb_pending small_bus = []" "PendingBufferSize (eb_config small_bus) = 1024"
    by (simp_all add: small_bus_def NewEventBus_def DefaultEventBusConfig_def)
  have a: "bus_step (small_bus, []) Quiet (small_bus, [an_event])" unfolding an_event_def
    by (rule Check) (simp add: publish_check_def s)
  have "bus_step (small_bus, [an_event]) (case Nil_error of Nil_error \<Rightarrow> Accepted an_event | Error er \<Rightarrow> Quiet | Panic m \<Rightarrow> Panicked)
      (small_bus\<lparr>eb_pending := [an_event]\<rparr>, remove1 an_event [an_event])"
    by (rule Send) (simp_all add: publish_send_def s)
  then have "bus_step (small_bus, [an_event]) (Accepted an_event) (small_bus\<lparr>eb_pending := [an_event]\<rparr>, [])" by simp
  from Bus_snoc [OF Bus_snoc [OF Bus_Nil a] this] show ?thesis by simp
qed

lemma close_it:
  "bus_run (small_bus, []) [Quiet, Accepted an_event, Quiet] (Close_begin (small_bus\<lparr>eb_pending := [an_event]\<rparr>), [])"
  using Bus_snoc [OF one_accepted Closing] by simp

lemma lose_it:
  "bus_run (Close_begin (small_bus\<lparr>eb_pending := [an_event]\<rparr>), []) [Quiet, Quiet, Quiet] (lost_bus, [])"
proof -
  let ?c = "Close_begin (small_bus\<lparr>eb_pending := [an_event]\<rparr>)"
  have c: "eb_worker ?c = B_Waiting" "eb_pending ?c = [an_event]" "eb_stopCh ?c" "eb_closing ?c = Close_Waiting"
    by (simp_all add: Close_begin_def small_bus_def NewEventBus_def)
  have a: "bus_step (?c, []) Quiet (?c\<lparr>eb_pending := [], eb_worker := B_Holding an_event\<rparr>, [])"
    using Receive [OF c(1), of "[]"] c(2) by (simp add: worker_recv_def)
  have "bus_step (?c\<lparr>eb_pending := [], eb_worker := B_Holding an_event\<rparr>, []) (case None of None \<Rightarrow> Quiet | Some res \<Rightarrow> Handled a_choice an_event res)
      (?c\<lparr>eb_pending := [], eb_worker := B_Exited\<rparr>, [])"
    by (rule Handle) (simp_all add: worker_handle_def c)
  then have b: "bus_step (?c\<lparr>eb_pending := [], eb_worker := B_Holding an_event\<rparr>, []) Quiet (?c\<lparr>eb_pending := [], eb_worker := B_Exited\<rparr>, [])"
    by simp
  have d: "bus_step (?c\<lparr>eb_pending := [], eb_worker := B_Exited\<rparr>, []) Quiet (lost_bus, [])"
    unfolding lost_bus_def by (rule Closed) (simp_all add: c)
  from Bus_snoc [OF Bus_snoc [OF Bus_snoc [OF Bus_Nil a] b] d] show ?thesis by simp
qed

lemma one_published:
  obtains eb where "bus_run (small_bus, []) [Quiet, Accepted an_event, Quiet, Handled a_choice an_event Nil_error] (eb, [])"
proof -
  let ?p = "small_bus\<lparr>eb_pending := [an_event]\<rparr>"
  let ?h = "?p\<lparr>eb_pending := [], eb_worker := B_Holding an_event\<rparr>"
  have s: "eb_worker ?p = B_Waiting" "eb_pending ?p = [an_event]" "\<not> eb_stopCh ?h" "eb_producers small_bus = Some {}"
    by (simp_all add: small_bus_def NewEventBus_def)
  have a: "bus_step (?p, []) Quiet (?h, [])" using Receive [OF s(1), of "[]"] s(2) by (simp add: worker_recv_def)
  obtain r eb where p: "publishRaw a_choice (pe_topic an_event) (pe_payload an_event) (pe_eventType an_event) ?h = (r, eb)" by fastforce
  then have r: "r = Nil_error" by (auto simp: publishRaw_def getOrCreateProducer_def s(4) a_choice_def)
  have "bus_step (?h, []) (case Some r of None \<Rightarrow> Quiet | Some res \<Rightarrow> Handled a_choice an_event res) (eb\<lparr>eb_worker := B_Waiting\<rparr>, [])"
    by (rule Handle) (use s(3) p in \<open>simp_all add: worker_handle_def\<close>)
  then have b: "bus_step (?h, []) (Handled a_choice an_event Nil_error) (eb\<lparr>eb_worker := B_Waiting\<rparr>, [])" by (simp add: r)
  from Bus_snoc [OF Bus_snoc [OF one_accepted a] b] that [of "eb\<lparr>eb_worker := B_Waiting\<rparr>"] show thesis by simp
qed

theorem events_in_order_witness:
  "\<exists>eb m. bus_run (NewEventBus DefaultEventBusConfig, []) [Quiet, Accepted an_event, Quiet, Handled a_choice an_event Nil_error] (eb, []) \<and>
    eb_broker eb = [m] \<and> mq_topic m = ''t'' \<and> Payload m = ''{}'' \<and> at_event_type m = ''E''"
proof -
  obtain eb where eb: "bus_run (small_bus, []) [Quiet, Accepted an_event, Quiet, Handled a_choice an_event Nil_error] (eb, [])"
    by (rule one_published)
  have t: "pe_topic an_event = ''t''" "pe_payload an_event = ''{}''" "pe_eventType an_event = ''E''"
    by (simp_all add: an_event_def new_event_def typeName_def)
  from events_in_order [OF eb [unfolded small_bus_def]] obtain m where "eb_broker eb = [m]"
    "carries (eb_config eb) (a_choice, ''t'', ''{}'', ''E'') m"
    by (auto simp: published_def list_all2_Cons1 t)
  with eb show ?thesis by (auto simp: carries_def a_choice_def small_bus_def)
qed

theorem close_drops_events_witness:
  "eb_closing lost_bus = Close_Returned \<and> handled [Quiet, Accepted an_event, Quiet, Quiet, Quiet, Quiet] = [] \<and>
   accepted [Quiet, Accepted an_event, Quiet, Quiet, Quiet, Quiet] = [an_event]"
proof -
  have "eb_closed (Close_begin (small_bus\<lparr>eb_pending := [an_event]\<rparr>))" by (simp add: Close_begin_def)
  from close_drops_events [OF close_it [unfolded small_bus_def] this [unfolded small_bus_def] lose_it [unfolded small_bus_def]]
  show ?thesis by (simp add: lost_bus_def Close_end_def accepted_def handled_def)
qed

end
