(* ===== verification/MemQueue.thy ===== *)
theory MemQueue
  imports EventBus
begin

text \<open>
  Message queues (pkg/mq): consumers' options, the connection in memory that both services give to their
  event bus, as steps of its senders and consumers, what the NATS adapter does around its client, and the
  bus on top of the connection in memory.
\<close>

section \<open>Options\<close>

definition ErrConnectionClosed :: string where "ErrConnectionClosed = ''mq: connection closed''"

record ConsumerConfig =
  Group :: string
  AutoAck :: bool
  PrefetchCount :: int
  MaxRetries :: int
  PollTimeout :: int

datatype ConsumerOption = WithConsumerGroup string | WithAutoAck bool | WithPrefetchCount int | WithPollTimeout int

fun consumer_option :: "ConsumerOption \<Rightarrow> ConsumerConfig \<Rightarrow> ConsumerConfig" where
  "consumer_option (WithConsumerGroup g) c = c\<lparr>Group := g\<rparr>"
| "consumer_option (WithAutoAck b) c = c\<lparr>AutoAck := b\<rparr>"
| "consumer_option (WithPrefetchCount n) c = c\<lparr>PrefetchCount := n\<rparr>"
| "consumer_option (WithPollTimeout d) c = c\<lparr>PollTimeout := d\<rparr>"

section \<open>The connection in memory\<close>

text \<open>
  A channel for each topic; closing closes them all. A consumer is at its select, runs the handler on a
  message, or has returned; \<^verbatim>\<open>ms_senders\<close> are the calls of \<^verbatim>\<open>Send\<close> past
  their check of the flag.
\<close>

record memoryConnection =
  mc_queues :: "string \<rightharpoonup> mq_message list"
  mc_bufferSize :: int
  mc_closed :: bool
  mc_shut :: bool

definition NewMemoryConnection :: "int \<Rightarrow> memoryConnection" where
  "NewMemoryConnection n = \<lparr>mc_queues = (\<lambda>_. None), mc_bufferSize = (if n \<le> 0 then 1024 else n), mc_closed = False, mc_shut = False\<rparr>"

definition ensureQueue :: "string \<Rightarrow> memoryConnection \<Rightarrow> memoryConnection" where
  "ensureQueue t mc = (if mc_queues mc t = None then mc\<lparr>mc_queues := (mc_queues mc)(t \<mapsto> [])\<rparr> else mc)"

definition mem_NewProducer :: "string \<Rightarrow> memoryConnection \<Rightarrow> string option \<times> memoryConnection" where
  "mem_NewProducer t mc = (if mc_closed mc then (Some ErrConnectionClosed, mc) else (None, ensureQueue t mc))"

datatype consumer_pc = C_Select | C_Handling mq_message | C_Returned

record memoryConsumer =
  co_topic :: string
  co_autoAck :: bool
  co_pc :: consumer_pc

definition mem_NewConsumer ::
  "string \<Rightarrow> ConsumerOption list \<Rightarrow> memoryConnection \<Rightarrow> (string + memoryConsumer) \<times> memoryConnection" where
  "mem_NewConsumer t opts mc =
    (if mc_closed mc then (Inl ErrConnectionClosed, mc)
     else let cf = fold consumer_option opts \<lparr>Group = [], AutoAck = False, PrefetchCount = 0, MaxRetries = 0, PollTimeout = 100 * 10 ^ 6\<rparr>
          in (Inr \<lparr>co_topic = t, co_autoAck = AutoAck cf, co_pc = C_Select\<rparr>, ensureQueue t mc))"

definition mem_Ping :: "memoryConnection \<Rightarrow> string option" where
  "mem_Ping mc = (if mc_closed mc then Some ErrConnectionClosed else None)"

record memst =
  ms_conn :: memoryConnection
  ms_senders :: "mq_message list"
  ms_consumers :: "memoryConsumer list"

definition queue_of :: "string \<Rightarrow> memst \<Rightarrow> mq_message list" where
  "queue_of t s = (case mc_queues (ms_conn s) t of None \<Rightarrow> [] | Some q \<Rightarrow> q)"

definition set_queue :: "string \<Rightarrow> mq_message list \<Rightarrow> memst \<Rightarrow> memst" where
  "set_queue t q s = s\<lparr>ms_conn := (ms_conn s)\<lparr>mc_queues := (mc_queues (ms_conn s))(t \<mapsto> q)\<rparr>\<rparr>"

definition room :: "string \<Rightarrow> memst \<Rightarrow> bool" where
  "room t s \<longleftrightarrow> int (length (queue_of t s)) < mc_bufferSize (ms_conn s)"

text \<open>\<^verbatim>\<open>Send\<close>: the check with the time filled in, and the send into the channel.\<close>

definition zero_time :: int where "zero_time = - 62135596800 * 10 ^ 9"

definition send_check :: "int \<Rightarrow> mq_message \<Rightarrow> memst \<Rightarrow> string option \<times> memst" where
  "send_check now m s =
    (if mc_closed (ms_conn s) then (Some ErrConnectionClosed, s)
     else (None, s\<lparr>ms_senders := (if Timestamp m = zero_time then m\<lparr>Timestamp := now\<rparr> else m) # ms_senders s\<rparr>))"

definition send_put :: "mq_message \<Rightarrow> memst \<Rightarrow> memst" where
  "send_put m s = (set_queue (mq_topic m) (queue_of (mq_topic m) s @ [m]) s)\<lparr>ms_senders := remove1 m (ms_senders s)\<rparr>"

text \<open>A batch ends with the first error.\<close>

fun SendBatch :: "('m \<Rightarrow> 's \<Rightarrow> string option \<times> 's) \<Rightarrow> 'm list \<Rightarrow> 's \<Rightarrow> string option \<times> 's" where
  "SendBatch send [] s = (None, s)"
| "SendBatch send (m # l) s = (case send m s of (Some er, s1) \<Rightarrow> (Some er, s1) | (None, s1) \<Rightarrow> SendBatch send l s1)"

definition set_pc :: "nat \<Rightarrow> consumer_pc \<Rightarrow> memst \<Rightarrow> memst" where
  "set_pc i pc s = s\<lparr>ms_consumers := (ms_consumers s)[i := (ms_consumers s ! i)\<lparr>co_pc := pc\<rparr>]\<rparr>"

definition consume_recv :: "nat \<Rightarrow> mq_message \<Rightarrow> mq_message list \<Rightarrow> memst \<Rightarrow> memst" where
  "consume_recv i m rest s = set_pc i (C_Handling m) (set_queue (co_topic (ms_consumers s ! i)) rest s)"

datatype mem_event = Still | Sent mq_message | Received mq_message | Acked mq_message | Nacked mq_message | Send_panic

text \<open>The message's own functions do nothing unless the sender has set them, which the bus does not.\<close>

definition verdict_of :: "bool \<Rightarrow> string option \<Rightarrow> mq_message \<Rightarrow> mem_event" where
  "verdict_of autoAck er m = (if autoAck then Still else if er \<noteq> None then Nacked m else Acked m)"

definition mem_Close :: "memst \<Rightarrow> memst" where
  "mem_Close s = s\<lparr>ms_conn := (ms_conn s)\<lparr>mc_closed := True\<rparr>\<rparr>"

definition mem_close_channels :: "memst \<Rightarrow> memst" where
  "mem_close_channels s = s\<lparr>ms_conn := (ms_conn s)\<lparr>mc_shut := True\<rparr>\<rparr>"

inductive mem_step :: "memst \<Rightarrow> mem_event \<Rightarrow> memst \<Rightarrow> bool" where
  M_producer: "mem_step s Still (s\<lparr>ms_conn := snd (mem_NewProducer t (ms_conn s))\<rparr>)"
| M_consumer: "mem_NewConsumer t opts (ms_conn s) = (Inr co, mc) \<Longrightarrow>
    mem_step s Still (s\<lparr>ms_conn := mc, ms_consumers := ms_consumers s @ [co]\<rparr>)"
| M_check: "mc_queues (ms_conn s) (mq_topic m) \<noteq> None \<Longrightarrow> mem_step s Still (snd (send_check now m s))"
| M_send: "m \<in> set (ms_senders s) \<Longrightarrow> \<not> mc_shut (ms_conn s) \<Longrightarrow> room (mq_topic m) s \<Longrightarrow> mem_step s (Sent m) (send_put m s)"
| M_panic: "m \<in> set (ms_senders s) \<Longrightarrow> mc_shut (ms_conn s) \<Longrightarrow>
    mem_step s Send_panic (s\<lparr>ms_senders := remove1 m (ms_senders s)\<rparr>)"
| M_timeout: "m \<in> set (ms_senders s) \<Longrightarrow> mem_step s Still (s\<lparr>ms_senders := remove1 m (ms_senders s)\<rparr>)"
| M_recv: "i < length (ms_consumers s) \<Longrightarrow> co_pc (ms_consumers s ! i) = C_Select \<Longrightarrow>
    queue_of (co_topic (ms_consumers s ! i)) s = m # rest \<Longrightarrow> mem_step s (Received m) (consume_recv i m rest s)"
| M_settle: "i < length (ms_consumers s) \<Longrightarrow> co_pc (ms_consumers s ! i) = C_Handling m \<Longrightarrow>
    mem_step s (verdict_of (co_autoAck (ms_consumers s ! i)) er m) (set_pc i C_Select s)"
| M_end: "i < length (ms_consumers s) \<Longrightarrow> co_pc (ms_consumers s ! i) = C_Select \<Longrightarrow> mc_shut (ms_conn s) \<Longrightarrow>
    queue_of (co_topic (ms_consumers s ! i)) s = [] \<Longrightarrow> mem_step s Still (set_pc i C_Returned s)"
| M_cancel: "i < length (ms_consumers s) \<Longrightarrow> co_pc (ms_consumers s ! i) = C_Select \<Longrightarrow> mem_step s Still (set_pc i C_Returned s)"
| M_close: "\<not> mc_closed (ms_conn s) \<Longrightarrow> mem_step s Still (mem_Close s)"
| M_shut: "mc_closed (ms_conn s) \<Longrightarrow> mem_step s Still (mem_close_channels s)"

definition new_mem :: "int \<Rightarrow> memst" where
  "new_mem n = \<lparr>ms_conn = NewMemoryConnection n, ms_senders = [], ms_consumers = []\<rparr>"

section \<open>First in, first out\<close>

definition sent_on :: "string \<Rightarrow> mem_event list \<Rightarrow> mq_message list" where
  "sent_on t es = concat (map (\<lambda>e. case e of Sent m \<Rightarrow> if mq_topic m = t then [m] else [] | _ \<Rightarrow> []) es)"

definition received_on :: "string \<Rightarrow> mem_event list \<Rightarrow> mq_message list" where
  "received_on t es = concat (map (\<lambda>e. case e of Received m \<Rightarrow> if mq_topic m = t then [m] else [] | _ \<Rightarrow> []) es)"

lemma traffic_simps [simp]:
  "sent_on t [] = []" "received_on t [] = []"
  "sent_on t (es @ es1) = sent_on t es @ sent_on t es1" "received_on t (es @ es1) = received_on t es @ received_on t es1"
  "sent_on t [Still] = []" "sent_on t [Received m] = []" "sent_on t [Send_panic] = []" "sent_on t [verdict_of a er m] = []"
  "sent_on t [Sent m] = (if mq_topic m = t then [m] else [])"
  "received_on t [Still] = []" "received_on t [Sent m] = []" "received_on t [Send_panic] = []" "received_on t [verdict_of a er m] = []"
  "received_on t [Received m] = (if mq_topic m = t then [m] else [])"
  by (simp_all add: sent_on_def received_on_def verdict_of_def)

text \<open>Every topic's channel holds what was sent and not received, within its bound, and only its own messages.\<close>

definition mem_ok :: "int \<Rightarrow> mem_event list \<Rightarrow> memst \<Rightarrow> bool" where
  "mem_ok n es s \<longleftrightarrow> mc_bufferSize (ms_conn s) = n \<and>
    (\<forall>t. sent_on t es = received_on t es @ queue_of t s \<and> int (length (queue_of t s)) \<le> n \<and>
       (\<forall>m\<in>set (queue_of t s). mq_topic m = t))"

lemma queue_simps [simp]:
  "queue_of t (set_queue t1 q s) = (if t = t1 then q else queue_of t s)"
  "queue_of t (set_pc i pc s) = queue_of t s" "queue_of t (s\<lparr>ms_senders := l\<rparr>) = queue_of t s"
  "queue_of t (mem_Close s) = queue_of t s" "queue_of t (mem_close_channels s) = queue_of t s"
  "mc_bufferSize (ms_conn (set_queue t1 q s)) = mc_bufferSize (ms_conn s)"
  "mc_bufferSize (ms_conn (set_pc i pc s)) = mc_bufferSize (ms_conn s)"
  "mc_bufferSize (ms_conn (mem_Close s)) = mc_bufferSize (ms_conn s)" "mc_bufferSize (ms_conn (mem_close_channels s)) = mc_bufferSize (ms_conn s)"
  by (simp_all add: queue_of_def set_queue_def set_pc_def mem_Close_def mem_close_channels_def)

lemma ensure_simps [simp]:
  "mc_bufferSize (ensureQueue t mc) = mc_bufferSize mc"
  "(case mc_queues (ensureQueue t1 mc) t of None \<Rightarrow> [] | Some q \<Rightarrow> q) = (case mc_queues mc t of None \<Rightarrow> [] | Some q \<Rightarrow> q)"
  by (simp_all add: ensureQueue_def)

lemma ensured [simp]:
  "queue_of t (s\<lparr>ms_conn := snd (mem_NewProducer t1 (ms_conn s))\<rparr>) = queue_of t s"
  "mc_bufferSize (snd (mem_NewProducer t1 mc)) = mc_bufferSize mc"
  by (simp_all add: queue_of_def mem_NewProducer_def)

lemma consumer_ensured:
  assumes "mem_NewConsumer t1 opts (ms_conn s) = (Inr co, mc)"
  shows "queue_of t (s\<lparr>ms_conn := mc, ms_consumers := l\<rparr>) = queue_of t s" "mc_bufferSize mc = mc_bufferSize (ms_conn s)"
  using assms by (auto simp: queue_of_def mem_NewConsumer_def Let_def split: if_splits)

lemma mem_ok_step: "mem_step s ev s1 \<Longrightarrow> mem_ok n es s \<Longrightarrow> mem_ok n (es @ [ev]) s1"
proof (induction rule: mem_step.induct)
  case (M_producer s t)
  then show ?case by (simp add: mem_ok_def)
next
  case (M_consumer t opts s co mc)
  then show ?case by (simp add: mem_ok_def consumer_ensured [OF M_consumer(1)])
next
  case (M_check s m now)
  then show ?case by (simp add: mem_ok_def send_check_def)
next
  case (M_send m s)
  then show ?case by (auto simp: mem_ok_def send_put_def room_def)
next
  case (M_recv i s m rest)
  have q: "sent_on t es = received_on t es @ queue_of t s" "int (length (queue_of t s)) \<le> n" "\<forall>m\<in>set (queue_of t s). mq_topic m = t" for t
    using M_recv(4) by (simp_all add: mem_ok_def)
  from q(3) [of "co_topic (ms_consumers s ! i)"] M_recv(3) have m: "co_topic (ms_consumers s ! i) = mq_topic m" by simp
  have b: "mc_bufferSize (ms_conn s) = n" using M_recv(4) by (simp add: mem_ok_def)
  have f: "queue_of (mq_topic m) s = m # rest" using M_recv(3) unfolding m .
  have "sent_on t (es @ [Received m]) = received_on t (es @ [Received m]) @ queue_of t (consume_recv i m rest s) \<and>
      int (length (queue_of t (consume_recv i m rest s))) \<le> n \<and> (\<forall>m1\<in>set (queue_of t (consume_recv i m rest s)). mq_topic m1 = t)" for t
  proof (cases "t = mq_topic m")
    case True
    have c: "queue_of (mq_topic m) (consume_recv i m rest s) = rest" by (simp add: consume_recv_def m)
    have "\<forall>m1\<in>set rest. mq_topic m1 = mq_topic m" using q(3) [of "mq_topic m"] unfolding f by (meson list.set_intros(2))
    then show ?thesis using q(1,2) [of "mq_topic m"] unfolding True c f by simp
  next
    case False
    then have c: "queue_of t (consume_recv i m rest s) = queue_of t s" "received_on t [Received m] = []"
      by (simp_all add: consume_recv_def m)
    show ?thesis unfolding c(1) traffic_simps(3,4) c(2) using q [of t] by (simp add: sent_on_def)
  qed
  then show ?case using b by (simp add: mem_ok_def consume_recv_def)
qed (simp_all add: mem_ok_def)

text \<open>Runs, with the events in order.\<close>

inductive mem_run :: "memst \<Rightarrow> mem_event list \<Rightarrow> memst \<Rightarrow> bool" where
  Mem_Nil: "mem_run s [] s"
| Mem_snoc: "mem_run s es s1 \<Longrightarrow> mem_step s1 ev s2 \<Longrightarrow> mem_run s (es @ [ev]) s2"

lemma mem_ok_new: "mem_ok (if n \<le> 0 then 1024 else n) [] (new_mem n)"
  by (simp add: mem_ok_def new_mem_def NewMemoryConnection_def queue_of_def)

lemma mem_run_ok: "mem_run s es s1 \<Longrightarrow> s = new_mem n \<Longrightarrow> mem_ok (if n \<le> 0 then 1024 else n) es s1"
proof (induction rule: mem_run.induct)
  case (Mem_snoc s es s1 ev s2)
  then show ?case using mem_ok_step by blast
qed (simp add: mem_ok_new)

text \<open>
  A topic is a queue: whatever senders and consumers do, its messages are received in the order they were
  sent, each by one consumer and once, also when the handler fails (nothing is delivered again), and no
  more than the channel holds are ever waiting.
\<close>
theorem topic_is_queue:
  assumes "mem_run (new_mem n) es s"
  shows "sent_on t es = received_on t es @ queue_of t s \<and> int (length (queue_of t s)) \<le> (if n \<le> 0 then 1024 else n)"
  using mem_run_ok [OF assms refl] by (auto simp: mem_ok_def)

section \<open>The bus on the connection in memory\<close>

text \<open>
  The services' bus: a message the bus hands over is one the connection takes, in the same step; a
  producer exists then. Everything else happens on one side alone.
\<close>

definition take_message :: "mq_message \<Rightarrow> memst \<Rightarrow> memst \<Rightarrow> bool" where
  "take_message m s s1 \<longleftrightarrow>
    (let s0 = snd (send_check 0 m (s\<lparr>ms_conn := snd (mem_NewProducer (mq_topic m) (ms_conn s))\<rparr>))
     in \<not> mc_closed (ms_conn s) \<and> \<not> mc_shut (ms_conn s) \<and> Timestamp m \<noteq> zero_time \<and> room (mq_topic m) s0 \<and> s1 = send_put m s0)"

inductive wired_step ::
  "(eventBus \<times> pendingEvent list) \<times> memst \<Rightarrow> bus_event \<Rightarrow> mem_event \<Rightarrow> (eventBus \<times> pendingEvent list) \<times> memst \<Rightarrow> bool" where
  W_bus: "bus_step st ev st1 \<Longrightarrow> eb_broker (fst st1) = eb_broker (fst st) \<Longrightarrow> wired_step (st, s) ev Still (st1, s)"
| W_publish: "bus_step st ev st1 \<Longrightarrow> eb_broker (fst st1) = eb_broker (fst st) @ [m] \<Longrightarrow> take_message m s s1 \<Longrightarrow>
    wired_step (st, s) ev (Sent m) (st1, s1)"
| W_mem: "mem_step s ev s1 \<Longrightarrow> (\<forall>m. ev \<noteq> Sent m) \<Longrightarrow> wired_step (st, s) Quiet ev (st, s1)"

inductive wired_run ::
  "(eventBus \<times> pendingEvent list) \<times> memst \<Rightarrow> bus_event list \<Rightarrow> mem_event list \<Rightarrow> (eventBus \<times> pendingEvent list) \<times> memst \<Rightarrow> bool" where
  Wired_Nil: "wired_run w [] [] w"
| Wired_snoc: "wired_run w es ms w1 \<Longrightarrow> wired_step w1 ev me w2 \<Longrightarrow> wired_run w (es @ [ev]) (ms @ [me]) w2"

definition wired :: "EventBusConfig \<Rightarrow> int \<Rightarrow> (eventBus \<times> pendingEvent list) \<times> memst" where
  "wired cf n = ((NewEventBus cf, []), new_mem n)"

text \<open>The bus of both services (ProvideEventBus).\<close>

definition ProvideEventBus :: "string \<Rightarrow> (eventBus \<times> pendingEvent list) \<times> memst" where
  "ProvideEventBus src = wired \<lparr>cf_Source = src, PublishTimeout = 0, PendingBufferSize = 0\<rparr> 256"

lemma take_ok: "take_message m s s1 \<Longrightarrow> mem_ok n es s \<Longrightarrow> mem_ok n (es @ [Sent m]) s1"
proof -
  assume t: "take_message m s s1" and ok: "mem_ok n es s"
  let ?s = "s\<lparr>ms_conn := snd (mem_NewProducer (mq_topic m) (ms_conn s))\<rparr>"
  have "mem_ok n (es @ [Still]) ?s" by (rule mem_ok_step [OF M_producer ok])
  then have 1: "mem_ok n es ?s" by (simp add: mem_ok_def)
  from t have c: "\<not> mc_closed (ms_conn s)" "\<not> mc_shut (ms_conn s)" "Timestamp m \<noteq> zero_time"
    "room (mq_topic m) (snd (send_check 0 m ?s))" "s1 = send_put m (snd (send_check 0 m ?s))"
    by (simp_all add: take_message_def Let_def)
  have q: "mc_queues (ms_conn ?s) (mq_topic m) \<noteq> None" "\<not> mc_closed (ms_conn ?s)" "\<not> mc_shut (ms_conn ?s)"
    using c(1,2) by (simp_all add: mem_NewProducer_def ensureQueue_def)
  have "mem_ok n (es @ [Still]) (snd (send_check 0 m ?s))" by (rule mem_ok_step [OF M_check [OF q(1)] 1])
  then have 2: "mem_ok n es (snd (send_check 0 m ?s))" by (simp add: mem_ok_def)
  show ?thesis unfolding c(5)
    by (rule mem_ok_step [OF M_send 2]) (use q(2,3) c(3,4) in \<open>simp_all add: send_check_def\<close>)
qed

lemma sent_keeps_consumers: "take_message m s s1 \<Longrightarrow> ms_consumers s1 = ms_consumers s"
  by (auto simp: take_message_def Let_def send_put_def set_queue_def send_check_def)

text \<open>What the bus has handed over on a topic is what was sent on it.\<close>

definition wired_ok :: "int \<Rightarrow> mem_event list \<Rightarrow> (eventBus \<times> pendingEvent list) \<times> memst \<Rightarrow> bool" where
  "wired_ok n ms w \<longleftrightarrow> mem_ok n ms (snd w) \<and> (\<forall>t. filter (\<lambda>m. mq_topic m = t) (eb_broker (fst (fst w))) = sent_on t ms)"

lemma wired_ok_step: "wired_step w ev me w1 \<Longrightarrow> wired_ok n ms w \<Longrightarrow> wired_ok n (ms @ [me]) w1"
proof (induction rule: wired_step.induct)
  case (W_bus st ev st1 s)
  then show ?case by (simp add: wired_ok_def mem_ok_def)
next
  case (W_publish st ev st1 m s s1)
  then show ?case using take_ok by (simp add: wired_ok_def)
next
  case (W_mem s ev s1 st)
  have "sent_on t [ev] = []" for t using W_mem(2) by (cases ev) (simp_all add: sent_on_def)
  then show ?case using W_mem mem_ok_step by (simp add: wired_ok_def)
qed

lemma wired_run_ok: "wired_run w es ms w1 \<Longrightarrow> w = wired cf n \<Longrightarrow> wired_ok (if n \<le> 0 then 1024 else n) ms w1"
proof (induction rule: wired_run.induct)
  case (Wired_Nil w)
  have "eb_broker (NewEventBus cf) = []" by (simp add: NewEventBus_def)
  then show ?case using Wired_Nil mem_ok_new by (simp add: wired_ok_def wired_def)
next
  case (Wired_snoc w es ms w1 ev me w2)
  then show ?case using wired_ok_step by blast
qed

text \<open>
  C37. From the bus to its subscribers: the messages that a topic's consumers receive are the ones the bus
  has published on it, in the order of publication, none twice, none besides, and no more than the
  channel's places are on their way.
\<close>
theorem subscribers_in_order:
  assumes "wired_run (wired cf n) es ms ((eb, calls), s)"
  shows "\<exists>on_way. filter (\<lambda>m. mq_topic m = t) (eb_broker eb) = received_on t ms @ on_way \<and>
    int (length on_way) \<le> (if n \<le> 0 then 1024 else n)"
  using wired_run_ok [OF assms refl] by (auto simp: wired_ok_def mem_ok_def)

section \<open>A topic nobody reads\<close>

definition published_on :: "string \<Rightarrow> bus_event list \<Rightarrow> nat" where
  "published_on t es = length (filter (\<lambda>e. case e of Handled x ev Nil_error \<Rightarrow> pe_topic ev = t | _ \<Rightarrow> False) es)"

lemma published_simps [simp]:
  "published_on t [] = 0" "published_on t (es @ es1) = published_on t es + published_on t es1"
  by (simp_all add: published_on_def)

lemma publishRaw_sends:
  assumes "publishRaw x topic raw et eb = (r, eb1)"
  shows "if r = Nil_error then \<exists>m. eb_broker eb1 = eb_broker eb @ [m] \<and> mq_topic m = topic else eb_broker eb1 = eb_broker eb"
  using assms
  by (auto simp: publishRaw_def getOrCreateProducer_def message_of_def split: sum.splits option.splits if_splits prod.splits pub_result.splits)

lemma bus_step_published:
  assumes "bus_step (eb, calls) ev (eb1, calls1)" "0 < published_on t [ev]"
  shows "\<exists>m. eb_broker eb1 = eb_broker eb @ [m] \<and> mq_topic m = t \<and> published_on t [ev] = 1"
  using assms(1)
proof cases
  case (Send e r)
  then show ?thesis using assms(2) by (auto simp: published_on_def split: pub_result.splits)
next
  case (Sync x raw topic go_type r)
  then show ?thesis using assms(2) by (auto simp: published_on_def sync_event_def split: sum.splits if_splits)
next
  case (Handle e x r)
  then show ?thesis using assms(2)
    by (auto simp: published_on_def worker_handle_def split: if_splits prod.splits option.splits pub_result.splits dest!: publishRaw_sends)
qed (use assms(2) in \<open>simp_all add: published_on_def\<close>)

lemma wired_published:
  assumes "wired_step w ev me w1"
  shows "published_on t [ev] \<le> length (sent_on t [me])"
  using assms
proof (induction rule: wired_step.induct)
  case (W_bus st ev st1 s)
  show ?case
  proof (rule ccontr)
    assume "\<not> ?thesis"
    then have "0 < published_on t [ev]" by simp
    with W_bus bus_step_published [of "fst st" "snd st" ev "fst st1" "snd st1" t] show False by auto
  qed
next
  case (W_publish st ev st1 m s s1)
  then show ?case using bus_step_published [of "fst st" "snd st" ev "fst st1" "snd st1" t] by (cases "0 < published_on t [ev]") auto
qed (simp add: published_on_def)

lemma wired_run_published: "wired_run w es ms w1 \<Longrightarrow> published_on t es \<le> length (sent_on t ms)"
proof (induction rule: wired_run.induct)
  case (Wired_snoc w es ms w1 ev me w2)
  then show ?case using wired_published [OF Wired_snoc.hyps(2), of t] by simp
qed simp

lemma mem_step_consumers: "mem_step s ev s1 \<Longrightarrow> ms_consumers s1 = [] \<Longrightarrow> ms_consumers s = [] \<and> (\<forall>m. ev \<noteq> Received m)"
  by (induction rule: mem_step.induct)
    (auto simp: send_check_def send_put_def set_queue_def set_pc_def consume_recv_def mem_Close_def mem_close_channels_def verdict_of_def
      split: if_splits)

lemma wired_run_unread: "wired_run w es ms w1 \<Longrightarrow> ms_consumers (snd w1) = [] \<Longrightarrow> received_on t ms = [] \<and> ms_consumers (snd w) = []"
proof (induction rule: wired_run.induct)
  case (Wired_snoc w es ms w1 ev me w2)
  from Wired_snoc.hyps(2) Wired_snoc.prems have "ms_consumers (snd w1) = [] \<and> received_on t [me] = []"
  proof cases
    case (W_mem s s1 st)
    then show ?thesis using mem_step_consumers [of s me s1] Wired_snoc.prems by (cases me) (auto simp: received_on_def)
  qed (auto simp: sent_keeps_consumers)
  then show ?case using Wired_snoc.IH by simp
qed simp

text \<open>
  C38. A topic nobody reads ends after its first messages: in the services, whose bus runs on a connection
  in memory of 256 places, and which never subscribe, the goroutine publishes at most 256 events of a
  topic, ever, whatever else happens.
\<close>
theorem unread_topic_stops:
  assumes "wired_run (ProvideEventBus src) es ms (st, s)" "ms_consumers s = []"
  shows "published_on t es \<le> 256"
proof -
  obtain eb calls where st: "st = (eb, calls)" by (cases st)
  from assms(1) have ok: "wired_ok 256 ms (st, s)" unfolding ProvideEventBus_def by (auto dest!: wired_run_ok)
  have "received_on t ms = []" using wired_run_unread [OF assms(1), of t] assms(2) by simp
  then have "length (sent_on t ms) \<le> 256" using ok by (auto simp: wired_ok_def mem_ok_def)
  then show ?thesis using wired_run_published [OF assms(1), of t] by simp
qed

section \<open>The NATS adapter\<close>

text \<open>\<^verbatim>\<open>fmt.Sprintf\<close> of the names derived from a topic.\<close>

definition stream_name :: "string \<Rightarrow> string" where "stream_name topic = ''STREAM_'' @ topic"

definition consumer_name :: "string \<Rightarrow> string \<Rightarrow> string" where
  "consumer_name topic group_name = ''CONSUMER_'' @ topic @ ''_'' @ group_name"

definition nats_NewConsumer :: "ConsumerOption list \<Rightarrow> ConsumerConfig" where
  "nats_NewConsumer opts =
    fold consumer_option opts \<lparr>Group = ''default'', AutoAck = False, PrefetchCount = 10, MaxRetries = 0, PollTimeout = 100 * 10 ^ 6\<rparr>"

text \<open>
  The cached streams, a nil map after \<^verbatim>\<open>Close\<close>; \<^verbatim>\<open>create\<close> is the client's
  answer for a stream's name and subject.
\<close>

definition getOrCreateStream ::
  "(string \<Rightarrow> string \<Rightarrow> string + 'st) \<Rightarrow> string \<Rightarrow> (string \<rightharpoonup> 'st) option \<Rightarrow> (pub_result + 'st) \<times> (string \<rightharpoonup> 'st) option" where
  "getOrCreateStream create topic streams =
    (case (case streams of None \<Rightarrow> None | Some m \<Rightarrow> m topic) of
       Some st \<Rightarrow> (Inr st, streams)
     | None \<Rightarrow>
       (case create (stream_name topic) topic of
          Inl er \<Rightarrow> (Inl (Error (''nats: failed to create stream for topic '' @ topic @ '': '' @ er)), streams)
        | Inr st \<Rightarrow>
          (case streams of
             None \<Rightarrow> (Inl (Panic ''assignment to entry in nil map''), None)
           | Some m \<Rightarrow> (Inr st, Some (m(topic \<mapsto> st))))))"

datatype settlement = Ack | Nak | Term | Unsettled

text \<open>What becomes of a message when the handler has ended.\<close>

definition nats_settle :: "ConsumerConfig \<Rightarrow> string option \<Rightarrow> settlement" where
  "nats_settle cf er =
    (if er \<noteq> None then (if \<not> AutoAck cf then (if 0 < MaxRetries cf then Nak else Term) else Unsettled)
     else if \<not> AutoAck cf then Ack else Unsettled)"

lemma no_retry_option: "MaxRetries (fold consumer_option opts cf) = MaxRetries cf"
proof (induction opts arbitrary: cf)
  case (Cons x opts)
  then show ?case by (cases x) simp_all
qed simp

text \<open>No option asks for retries, so a message whose handler fails is never delivered again.\<close>

lemma nats_never_retries: "nats_settle (nats_NewConsumer opts) er \<noteq> Nak"
  by (simp add: nats_settle_def nats_NewConsumer_def no_retry_option)

section \<open>Witnesses\<close>

text \<open>One event goes from the caller through the goroutine into the connection, and to a consumer.\<close>

definition viewed :: pendingEvent where "viewed = new_event ''article.viewed'' ''{}'' ''biz.E'' ''1''"

definition choice :: world_choice where
  "choice = \<lparr>wc_id = ''2'', wc_now = 1, wc_json = (\<lambda>_. Inr ''{}''), wc_new_producer = None, wc_send = None\<rparr>"

definition blog_bus :: eventBus where
  "blog_bus = NewEventBus \<lparr>cf_Source = ''blog-service'', PublishTimeout = 0, PendingBufferSize = 0\<rparr>"

definition viewed_message :: mq_message where "viewed_message = message_of choice blog_bus ''article.viewed'' ''{}'' ''E''"

definition sent_bus :: eventBus where
  "sent_bus = blog_bus\<lparr>eb_producers := Some {''article.viewed''}, eb_broker := [viewed_message]\<rparr>"

definition one_sent :: memst where
  "one_sent = send_put viewed_message (snd (send_check 0 viewed_message
     ((new_mem 256)\<lparr>ms_conn := snd (mem_NewProducer ''article.viewed'' (ms_conn (new_mem 256)))\<rparr>)))"

lemma blog_bus_simps [simp]:
  "eb_closed blog_bus = False" "eb_stopCh blog_bus = False" "eb_pendingClosed blog_bus = False" "eb_pending blog_bus = []" "eb_broker blog_bus = []"
  "eb_worker blog_bus = B_Waiting" "eb_producers blog_bus = Some {}" "PendingBufferSize (eb_config blog_bus) = 1024"
  by (simp_all add: blog_bus_def NewEventBus_def)

lemma viewed_type: "pe_eventType viewed = ''E''" "pe_topic viewed = ''article.viewed''" "pe_payload viewed = ''{}''"
  by (simp_all add: viewed_def new_event_def typeName_def)

lemma viewed_taken: "take_message viewed_message (new_mem 256) one_sent"
  by (simp add: take_message_def one_sent_def Let_def viewed_message_def message_of_def choice_def zero_time_def new_mem_def
      NewMemoryConnection_def mem_NewProducer_def ensureQueue_def send_check_def room_def queue_of_def)

lemma viewed_handled:
  "worker_handle choice viewed (blog_bus\<lparr>eb_worker := B_Holding viewed\<rparr>) = (Some Nil_error, sent_bus)"
proof -
  let ?h = "blog_bus\<lparr>eb_worker := B_Holding viewed\<rparr>"
  have e: "wc_json choice en = Inr ''{}''" "wc_new_producer choice = None" "wc_send choice = None" for en
    by (simp_all add: choice_def)
  have m: "message_of choice ?h ''article.viewed'' ''{}'' ''E'' = viewed_message"
    by (simp add: message_of_def viewed_message_def)
  have g: "getOrCreateProducer choice ''article.viewed'' ?h = (Nil_error, ?h\<lparr>eb_producers := Some {''article.viewed''}\<rparr>)"
    by (simp add: getOrCreateProducer_def e)
  have p: "publishRaw choice ''article.viewed'' ''{}'' ''E'' ?h =
      (Nil_error, ?h\<lparr>eb_producers := Some {''article.viewed''}, eb_broker := [viewed_message]\<rparr>)"
    by (simp only: publishRaw_def e g prod.case sum.case pub_result.case option.case) (simp add: m)
  have "blog_bus\<lparr>eb_worker := B_Waiting\<rparr> = blog_bus" by (simp add: blog_bus_def NewEventBus_def)
  then show ?thesis by (simp add: worker_handle_def viewed_type p sent_bus_def)
qed

lemma viewed_run:
  "wired_run (ProvideEventBus ''blog-service'') [Quiet, Accepted viewed, Quiet, Handled choice viewed Nil_error]
     [Still, Still, Still, Sent viewed_message] ((sent_bus, []), one_sent)"
proof -
  let ?m = "new_mem 256"
  have 0: "wired_run (ProvideEventBus ''blog-service'') [] [] ((blog_bus, []), ?m)"
    by (simp add: ProvideEventBus_def wired_def blog_bus_def Wired_Nil)
  have "bus_step (blog_bus, []) Quiet (blog_bus, [viewed])" unfolding viewed_def by (rule Check) (simp add: publish_check_def)
  from Wired_snoc [OF 0 W_bus [OF this]]
  have 1: "wired_run (ProvideEventBus ''blog-service'') [Quiet] [Still] ((blog_bus, [viewed]), ?m)" by simp
  have "bus_step (blog_bus, [viewed]) (case Nil_error of Nil_error \<Rightarrow> Accepted viewed | Error er \<Rightarrow> Quiet | Panic m \<Rightarrow> Panicked)
      (blog_bus\<lparr>eb_pending := [viewed]\<rparr>, remove1 viewed [viewed])" by (rule Send) (simp_all add: publish_send_def)
  from Wired_snoc [OF 1 W_bus [OF this]]
  have 2: "wired_run (ProvideEventBus ''blog-service'') [Quiet, Accepted viewed] [Still, Still] ((blog_bus\<lparr>eb_pending := [viewed]\<rparr>, []), ?m)" by simp
  have r: "worker_recv (blog_bus\<lparr>eb_pending := [viewed]\<rparr>) = blog_bus\<lparr>eb_worker := B_Holding viewed\<rparr>"
    by (simp add: worker_recv_def blog_bus_def NewEventBus_def)
  have "bus_step (blog_bus\<lparr>eb_pending := [viewed]\<rparr>, []) Quiet (blog_bus\<lparr>eb_worker := B_Holding viewed\<rparr>, [])"
    unfolding r [symmetric] by (rule Receive) simp
  from Wired_snoc [OF 2 W_bus [OF this]]
  have 3: "wired_run (ProvideEventBus ''blog-service'') [Quiet, Accepted viewed, Quiet] [Still, Still, Still]
      ((blog_bus\<lparr>eb_worker := B_Holding viewed\<rparr>, []), ?m)" by simp
  have "bus_step (blog_bus\<lparr>eb_worker := B_Holding viewed\<rparr>, []) (case Some Nil_error of None \<Rightarrow> Quiet | Some res \<Rightarrow> Handled choice viewed res) (sent_bus, [])"
    by (rule Handle [OF _ viewed_handled]) simp
  from Wired_snoc [OF 3 W_publish [OF this _ viewed_taken]] show ?thesis by (simp add: sent_bus_def)
qed

theorem unread_topic_stops_witness:
  "published_on ''article.viewed'' [Quiet, Accepted viewed, Quiet, Handled choice viewed Nil_error] = 1 \<and>
   published_on ''article.viewed'' [Quiet, Accepted viewed, Quiet, Handled choice viewed Nil_error] \<le> 256"
proof -
  have "ms_consumers one_sent = []" using sent_keeps_consumers [OF viewed_taken] by (simp add: new_mem_def)
  from unread_topic_stops [OF viewed_run this] show ?thesis by (simp add: published_on_def viewed_type)
qed

theorem subscribers_in_order_witness:
  "\<exists>ms w. wired_run (ProvideEventBus ''blog-service'') [Quiet, Accepted viewed, Quiet, Handled choice viewed Nil_error, Quiet, Quiet] ms w \<and>
    received_on ''article.viewed'' ms = [viewed_message]"
proof -
  let ?co = "\<lparr>co_topic = ''article.viewed'', co_autoAck = False, co_pc = C_Select\<rparr>"
  let ?s = "one_sent\<lparr>ms_consumers := [?co]\<rparr>"
  have q: "mc_queues (ms_conn one_sent) = [''article.viewed'' \<mapsto> [viewed_message]]" "\<not> mc_closed (ms_conn one_sent)" "ms_consumers one_sent = []"
    by (simp_all add: one_sent_def send_put_def set_queue_def viewed_message_def message_of_def choice_def zero_time_def new_mem_def
        NewMemoryConnection_def mem_NewProducer_def ensureQueue_def send_check_def queue_of_def)
  have "mem_NewConsumer ''article.viewed'' [] (ms_conn one_sent) = (Inr ?co, ms_conn one_sent)"
    using q by (simp add: mem_NewConsumer_def ensureQueue_def)
  from M_consumer [OF this] have a: "mem_step one_sent Still ?s" using q by simp
  have b: "mem_step ?s (Received viewed_message) (consume_recv 0 viewed_message [] ?s)"
    by (rule M_recv) (use q in \<open>simp_all add: queue_of_def\<close>)
  let ?st = "(sent_bus, [] :: pendingEvent list)" and ?s2 = "consume_recv 0 viewed_message [] ?s"
  have "wired_run (ProvideEventBus ''blog-service'') [Quiet, Accepted viewed, Quiet, Handled choice viewed Nil_error, Quiet, Quiet]
      [Still, Still, Still, Sent viewed_message, Still, Received viewed_message] (?st, ?s2)"
    using Wired_snoc [OF Wired_snoc [OF viewed_run W_mem [OF a]] W_mem [OF b]] by simp
  then have r: "wired_run (ProvideEventBus ''blog-service'') [Quiet, Accepted viewed, Quiet, Handled choice viewed Nil_error, Quiet, Quiet]
      [Still, Still, Still, Sent viewed_message, Still, Received viewed_message] (?st, ?s2)" .
  have "received_on ''article.viewed'' [Still, Still, Still, Sent viewed_message, Still, Received viewed_message] = [viewed_message]"
    using subscribers_in_order [OF r [unfolded ProvideEventBus_def], of "''article.viewed''"]
    by (auto simp: received_on_def viewed_message_def message_of_def)
  with r show ?thesis by blast
qed

end
