(* ===== verification/RemoteConf.thy ===== *)
theory RemoteConf
  imports Gateway
begin

text \<open>
  The gateway's business configuration (app/entry/conf/remote.go) and what is built from it at the start
  (app/entry/infra/redis.go, app/entry/internal/router/middleware/provider.go): durations, decoding, the
  watch on the key in etcd, the channel of one place to the goroutine that stores the newest
  configuration, and the holder the gateway reads. YAML and etcd's client are parameters.
\<close>

section \<open>Durations\<close>

text \<open>\<^verbatim>\<open>time.ParseDuration\<close> of the standard library, in nanoseconds.\<close>

definition unit_of :: "string \<Rightarrow> nat option" where
  "unit_of u =
    map_of [(''ns'', 1), (''us'', 10 ^ 3), (bstr [194, 181] @ ''s'', 10 ^ 3), (bstr [206, 188] @ ''s'', 10 ^ 3),
      (''ms'', 10 ^ 6), (''s'', 10 ^ 9), (''m'', 60 * 10 ^ 9), (''h'', 3600 * 10 ^ 9)] u"

fun leadingInt :: "nat \<Rightarrow> string \<Rightarrow> (nat \<times> string) option" where
  "leadingInt x [] = Some (x, [])"
| "leadingInt x (c # s) =
    (if \<not> is_digit c then Some (x, c # s)
     else if 2 ^ 63 div 10 < x then None
     else let y = x * 10 + (byte c - 48) in if 2 ^ 63 < y then None else leadingInt y s)"

text \<open>Digits beyond the range are read over: value, scale and whether it has overflowed.\<close>

fun leadingFraction :: "nat \<Rightarrow> nat \<Rightarrow> bool \<Rightarrow> string \<Rightarrow> nat \<times> nat \<times> string" where
  "leadingFraction x scale over [] = (x, scale, [])"
| "leadingFraction x scale over (c # s) =
    (if \<not> is_digit c then (x, scale, c # s)
     else if over \<or> (2 ^ 63 - 1) div 10 < x then leadingFraction x scale True s
     else let y = x * 10 + (byte c - 48) in
          if 2 ^ 63 < y then leadingFraction x scale True s else leadingFraction y (scale * 10) False s)"

definition fraction_of :: "string \<Rightarrow> nat \<times> nat \<times> string" where
  "fraction_of s = (if s \<noteq> [] \<and> hd s = CHR ''.'' then leadingFraction 0 1 False (tl s) else (0, 1, s))"

text \<open>
  A number with its unit; \<^verbatim>\<open>fmul\<close> is the float64 product of a fraction with unit over scale,
  cut to an integer.
\<close>

definition one_term :: "(nat \<Rightarrow> nat \<Rightarrow> nat \<Rightarrow> nat) \<Rightarrow> string \<Rightarrow> (nat \<times> string) option" where
  "one_term fmul s =
    (if s = [] \<or> \<not> (hd s = CHR ''.'' \<or> is_digit (hd s)) then None
     else case leadingInt 0 s of
       None \<Rightarrow> None
     | Some (v, s1) \<Rightarrow>
       (let pre = length s1 \<noteq> length s;
            (f, scale, s2) = fraction_of s1;
            post = (s1 \<noteq> [] \<and> hd s1 = CHR ''.'' \<and> length s2 \<noteq> length (tl s1));
            u = takeWhile (\<lambda>c. \<not> (c = CHR ''.'' \<or> is_digit c)) s2; rest = drop (length u) s2
        in if \<not> pre \<and> \<not> post \<or> u = [] then None
           else case unit_of u of
             None \<Rightarrow> None
           | Some un \<Rightarrow>
             if 2 ^ 63 div un < v then None
             else let w = v * un + (if 0 < f then fmul f un scale else 0) in if 2 ^ 63 < w then None else Some (w, rest)))"

lemma leadingInt_length: "leadingInt x s = Some (v, r) \<Longrightarrow> length r \<le> length s"
  by (induction x s rule: leadingInt.induct) (auto simp: Let_def split: if_splits)

lemma leadingFraction_length: "leadingFraction x scale over s = (f, sc, r) \<Longrightarrow> length r \<le> length s"
proof (induction s arbitrary: x scale over)
  case (Cons c s)
  then show ?case by (auto simp: Let_def split: if_splits intro: le_SucI)
qed simp

lemma one_term_length:
  assumes "one_term fmul s = Some (w, rest)"
  shows "length rest < length s"
proof -
  obtain v s1 where i: "leadingInt 0 s = Some (v, s1)"
    using assms by (auto simp: one_term_def split: if_splits option.splits)
  obtain f sc s2 where fr: "fraction_of s1 = (f, sc, s2)" by (cases "fraction_of s1") auto
  define u where "u = takeWhile (\<lambda>c. \<not> (c = CHR ''.'' \<or> is_digit c)) s2"
  have "rest = drop (length u) s2 \<and> u \<noteq> []"
    using assms i fr unfolding one_term_def by (auto simp: Let_def u_def split: if_splits option.splits)
  moreover have "length s2 \<le> length s1"
    using fr leadingFraction_length [of 0 1 False "tl s1" f sc s2] unfolding fraction_of_def by (auto split: if_splits)
  moreover have "length u \<le> length s2" unfolding u_def by (rule length_takeWhile_le)
  moreover have "length s1 \<le> length s" by (rule leadingInt_length [OF i])
  ultimately show ?thesis by (cases u) auto
qed

function parse_terms :: "(nat \<Rightarrow> nat \<Rightarrow> nat \<Rightarrow> nat) \<Rightarrow> nat \<Rightarrow> string \<Rightarrow> nat option" where
  "parse_terms fmul d s =
    (if s = [] then Some d
     else case one_term fmul s of
       None \<Rightarrow> None
     | Some (w, rest) \<Rightarrow> if 2 ^ 63 < d + w then None else parse_terms fmul (d + w) rest)"
  by pat_completeness auto

termination
  by (relation "measure (\<lambda>(fmul, d, s). length s)") (auto dest: one_term_length)

declare parse_terms.simps [simp del]

definition ParseDuration :: "(nat \<Rightarrow> nat \<Rightarrow> nat \<Rightarrow> nat) \<Rightarrow> string \<Rightarrow> int option" where
  "ParseDuration fmul s =
    (let signed = (s \<noteq> [] \<and> (hd s = CHR ''-'' \<or> hd s = CHR ''+'')); neg = (s \<noteq> [] \<and> hd s = CHR ''-''); t = (if signed then tl s else s)
     in if t = ''0'' then Some 0
        else if t = [] then None
        else case parse_terms fmul 0 t of
          None \<Rightarrow> None
        | Some d \<Rightarrow> if neg then Some (- int d) else if 2 ^ 63 - 1 < d then None else Some (int d))"

text \<open>A YAML scalar: its tag and text. Whole numbers are seconds.\<close>

record yaml_node =
  yn_Tag :: string
  yn_Value :: string

definition UnmarshalYAML :: "(nat \<Rightarrow> nat \<Rightarrow> nat \<Rightarrow> nat) \<Rightarrow> yaml_node \<Rightarrow> int res" where
  "UnmarshalYAML fmul node =
    (if yn_Tag node = ''!!int'' then
       (case parse_int64 (yn_Value node) of
          None \<Rightarrow> Inl (Opaque ''seconds'') | Some sec \<Rightarrow> Inr (wrap64 (sec * 10 ^ 9)))
     else case ParseDuration fmul (yn_Value node) of None \<Rightarrow> Inl (Opaque ''duration'') | Some d \<Rightarrow> Inr d)"

section \<open>The configuration\<close>

record JWTConfig =
  jc_Secret :: string
  jc_Issuer :: string
  jc_AccessTTL :: int
  jc_RefreshTTL :: int

record RedisConfig =
  rd_Host :: string
  rd_Port :: int
  rd_Password :: string
  rd_DB :: int

record CORSConfig =
  AllowOrigins :: "string list"
  AllowMethods :: "string list"
  AllowHeaders :: "string list"
  MaxAge :: int

record RateLimitConfig =
  RPS :: int
  Burst :: int

record RemoteConfig =
  rc_JWT :: JWTConfig
  rc_Redis :: RedisConfig
  rc_CORS :: CORSConfig
  rc_RateLimit :: RateLimitConfig

definition zero_config :: RemoteConfig where
  "zero_config =
    \<lparr>rc_JWT = \<lparr>jc_Secret = [], jc_Issuer = [], jc_AccessTTL = 0, jc_RefreshTTL = 0\<rparr>,
     rc_Redis = \<lparr>rd_Host = [], rd_Port = 0, rd_Password = [], rd_DB = 0\<rparr>,
     rc_CORS = \<lparr>AllowOrigins = [], AllowMethods = [], AllowHeaders = [], MaxAge = 0\<rparr>,
     rc_RateLimit = \<lparr>RPS = 0, Burst = 0\<rparr>\<rparr>"

text \<open>
  What the YAML library makes of a text, but for the two durations, whose nodes it hands to
  \<^verbatim>\<open>UnmarshalYAML\<close> when they are present.
\<close>

record parsed =
  ps_config :: RemoteConfig
  ps_access :: "yaml_node option"
  ps_refresh :: "yaml_node option"

definition node_value :: "(nat \<Rightarrow> nat \<Rightarrow> nat \<Rightarrow> nat) \<Rightarrow> yaml_node option \<Rightarrow> int res" where
  "node_value fmul n = (case n of None \<Rightarrow> Inr 0 | Some nd \<Rightarrow> UnmarshalYAML fmul nd)"

definition decodeRemoteConfig :: "(nat \<Rightarrow> nat \<Rightarrow> nat \<Rightarrow> nat) \<Rightarrow> (string \<Rightarrow> parsed res) \<Rightarrow> string \<Rightarrow> RemoteConfig res" where
  "decodeRemoteConfig fmul yaml data =
    (case yaml data of
       Inl er \<Rightarrow> Inl (Wrap ''yaml'' er)
     | Inr p \<Rightarrow>
       (case (node_value fmul (ps_access p), node_value fmul (ps_refresh p)) of
          (Inr a, Inr r) \<Rightarrow>
            Inr ((ps_config p)\<lparr>rc_JWT := (rc_JWT (ps_config p))\<lparr>jc_AccessTTL := a, jc_RefreshTTL := r\<rparr>\<rparr>)
        | (Inl er, _) \<Rightarrow> Inl (Wrap ''yaml'' er)
        | (_, Inl er) \<Rightarrow> Inl (Wrap ''yaml'' er)))"

section \<open>Reading and watching the key\<close>

text \<open>The key's history in etcd; its value is what the last event left.\<close>

datatype kv_event = Put string | Deleted

definition kv_value :: "kv_event list \<Rightarrow> string option" where
  "kv_value l = (if l = [] then None else case last l of Put v \<Rightarrow> Some v | Deleted \<Rightarrow> None)"

definition ErrRemoteConfigNotFound :: err where "ErrRemoteConfigNotFound = Opaque ''remote config not found''"

type_synonym decoder = "string \<Rightarrow> RemoteConfig res"

definition loadRemoteConfig :: "decoder \<Rightarrow> err option \<Rightarrow> kv_event list \<Rightarrow> RemoteConfig res" where
  "loadRemoteConfig dec fault l =
    (case fault of
       Some er \<Rightarrow> Inl (Wrap ''get'' er)
     | None \<Rightarrow> (case kv_value l of None \<Rightarrow> Inl ErrRemoteConfigNotFound | Some v \<Rightarrow> dec v))"

text \<open>
  The holder with its goroutines: what it has done so far, the watch (where it began in the history and
  what it reads next), the channel's place, what the consumer has received and not stored yet, and the
  configuration in force.
\<close>

datatype phase = P_Load | P_Get | P_Watching | P_NoWatch | P_Stopped

record remote =
  et_log :: "kv_event list"
  h_phase :: phase
  h_watch :: "(nat \<times> nat) option"
  h_chan :: "RemoteConfig option"
  h_hand :: "RemoteConfig option"
  h_cfg :: "RemoteConfig option"

text \<open>The channel keeps the newest: a full one is emptied first.\<close>

definition deliver :: "RemoteConfig \<Rightarrow> RemoteConfig option \<Rightarrow> RemoteConfig option" where
  "deliver c ch = (if ch = None then Some c else let ch1 = None in if ch1 = None then Some c else ch1)"

definition holder_load :: "decoder \<Rightarrow> err option \<Rightarrow> remote \<Rightarrow> remote" where
  "holder_load dec fault r =
    (case loadRemoteConfig dec fault (et_log r) of
       Inr c \<Rightarrow> r\<lparr>h_cfg := Some c, h_phase := P_Get\<rparr> | Inl er \<Rightarrow> r\<lparr>h_phase := P_Get\<rparr>)"

definition watchRemoteConfig :: "decoder \<Rightarrow> err option \<Rightarrow> remote \<Rightarrow> remote" where
  "watchRemoteConfig dec fault r =
    (case loadRemoteConfig dec fault (et_log r) of
       Inr c \<Rightarrow> r\<lparr>h_chan := Some c, h_phase := P_Watching\<rparr>
     | Inl er \<Rightarrow> if er = ErrRemoteConfigNotFound then r\<lparr>h_phase := P_Watching\<rparr> else r\<lparr>h_phase := P_NoWatch\<rparr>)"

definition watch_event :: "decoder \<Rightarrow> kv_event \<Rightarrow> remote \<Rightarrow> remote" where
  "watch_event dec ev r =
    (case ev of
       Deleted \<Rightarrow> r
     | Put v \<Rightarrow> (case dec v of Inl er \<Rightarrow> r | Inr c \<Rightarrow> r\<lparr>h_chan := deliver c (h_chan r)\<rparr>))"

definition Get :: "remote \<Rightarrow> RemoteConfig" where
  "Get r = (case h_cfg r of Some c \<Rightarrow> c | None \<Rightarrow> zero_config)"

definition new_holder :: "kv_event list \<Rightarrow> remote" where
  "new_holder l = \<lparr>et_log = l, h_phase = P_Load, h_watch = None, h_chan = None, h_hand = None, h_cfg = None\<rparr>"

inductive remote_step :: "decoder \<Rightarrow> remote \<Rightarrow> remote \<Rightarrow> bool" for dec where
  Change: "remote_step dec r (r\<lparr>et_log := et_log r @ [ev]\<rparr>)"
| Load: "h_phase r = P_Load \<Longrightarrow> remote_step dec r (holder_load dec fault r)"
| First_get: "h_phase r = P_Get \<Longrightarrow> remote_step dec r (watchRemoteConfig dec fault r)"
| Watch_open: "h_phase r = P_Watching \<Longrightarrow> h_watch r = None \<Longrightarrow>
    remote_step dec r (r\<lparr>h_watch := Some (length (et_log r), length (et_log r))\<rparr>)"
| Watch_event: "h_watch r = Some (b, k) \<Longrightarrow> k < length (et_log r) \<Longrightarrow>
    remote_step dec r ((watch_event dec (et_log r ! k) r)\<lparr>h_watch := Some (b, k + 1)\<rparr>)"
| Watch_broken: "remote_step dec r (r\<lparr>h_watch := None\<rparr>)"
| Consumer_receive: "h_chan r = Some c \<Longrightarrow> h_hand r = None \<Longrightarrow> remote_step dec r (r\<lparr>h_chan := None, h_hand := Some c\<rparr>)"
| Consumer_store: "h_hand r = Some c \<Longrightarrow> remote_step dec r (r\<lparr>h_hand := None, h_cfg := Some c\<rparr>)"
| Stop: "remote_step dec r (r\<lparr>h_phase := P_Stopped, h_watch := None\<rparr>)"

definition remote_reach :: "decoder \<Rightarrow> remote \<Rightarrow> bool" where
  "remote_reach dec r \<longleftrightarrow> (\<exists>l. (remote_step dec)\<^sup>*\<^sup>* (new_holder l) r)"

section \<open>The newest configuration\<close>

fun newest_put :: "decoder \<Rightarrow> RemoteConfig option \<Rightarrow> kv_event list \<Rightarrow> RemoteConfig option" where
  "newest_put dec acc [] = acc"
| "newest_put dec acc (Deleted # l) = newest_put dec acc l"
| "newest_put dec acc (Put v # l) = newest_put dec (case dec v of Inr c \<Rightarrow> Some c | Inl er \<Rightarrow> acc) l"

lemma newest_put_snoc:
  "newest_put dec acc (l @ [ev]) =
    (case ev of Deleted \<Rightarrow> newest_put dec acc l
     | Put v \<Rightarrow> (case dec v of Inr c \<Rightarrow> Some c | Inl er \<Rightarrow> newest_put dec acc l))"
  by (induction dec acc l rule: newest_put.induct) (cases ev; simp split: sum.splits)+

text \<open>The newest configuration on its way to the holder, or there.\<close>

definition newest :: "remote \<Rightarrow> RemoteConfig option" where
  "newest r = (case h_chan r of Some c \<Rightarrow> Some c | None \<Rightarrow> (case h_hand r of Some c \<Rightarrow> Some c | None \<Rightarrow> h_cfg r))"

lemma newest_simps [simp]:
  "newest (r\<lparr>h_watch := w\<rparr>) = newest r" "newest (r\<lparr>et_log := l\<rparr>) = newest r"
  "newest (r\<lparr>h_chan := Some c\<rparr>) = Some c" "newest (r\<lparr>h_phase := p\<rparr>) = newest r"
  by (simp_all add: newest_def cong: option.case_cong)

definition remote_ok :: "decoder \<Rightarrow> remote \<Rightarrow> bool" where
  "remote_ok dec r \<longleftrightarrow>
     (\<forall>b k. h_watch r = Some (b, k) \<longrightarrow>
       b \<le> k \<and> k \<le> length (et_log r) \<and> h_phase r = P_Watching \<and>
       (\<forall>c. newest_put dec None (drop b (take k (et_log r))) = Some c \<longrightarrow> newest r = Some c))"

lemma deliver_newest [simp]: "deliver c ch = Some c"
  by (simp add: deliver_def)

lemma remote_ok_step: "remote_step dec r r1 \<Longrightarrow> remote_ok dec r \<Longrightarrow> remote_ok dec r1"
proof (induction rule: remote_step.induct)
  case (Watch_event r b k)
  have b: "b \<le> k" "h_phase r = P_Watching" using Watch_event by (simp_all add: remote_ok_def)
  have t: "drop b (take (Suc k) (et_log r)) = drop b (take k (et_log r)) @ [et_log r ! k]"
    using Watch_event(2) b(1) by (simp add: take_Suc_conv_app_nth)
  show ?case using Watch_event b
    by (cases "et_log r ! k") (auto simp: remote_ok_def watch_event_def t newest_put_snoc split: sum.splits)
qed (auto simp: remote_ok_def newest_def holder_load_def watchRemoteConfig_def split: sum.splits option.splits)

lemma remote_reach_ok: "remote_reach dec r \<Longrightarrow> remote_ok dec r"
proof -
  have "(remote_step dec)\<^sup>*\<^sup>* (new_holder l) r \<Longrightarrow> remote_ok dec r" for l
  proof (induction rule: rtranclp_induct)
    case base
    then show ?case by (simp add: remote_ok_def new_holder_def)
  qed (rule remote_ok_step)
  then show "remote_reach dec r \<Longrightarrow> remote_ok dec r" by (auto simp: remote_reach_def)
qed

text \<open>
  C34. Changes reach the gateway: whatever the goroutines and etcd do in between, once a watch has read
  all events and the consumer is idle, the holder answers the newest configuration that was put and
  could be decoded since that watch began; deletions and broken texts leave it alone, and a slow consumer
  only skips older ones.
\<close>
theorem updates_reach_holder:
  assumes "remote_reach dec r" "h_watch r = Some (b, length (et_log r))" "h_chan r = None" "h_hand r = None"
    and "newest_put dec None (drop b (et_log r)) = Some c"
  shows "Get r = c"
  using remote_reach_ok [OF assms(1)] assms(2-5) by (simp add: remote_ok_def newest_def Get_def)

lemma remote_more: "remote_reach dec r \<Longrightarrow> remote_step dec r r1 \<Longrightarrow> remote_reach dec r1"
  by (auto simp: remote_reach_def intro: rtranclp.rtrancl_into_rtrancl)

text \<open>The first steps of a holder whose key has the value \<^verbatim>\<open>v\<close>, which then changes.\<close>

definition begun :: "RemoteConfig \<Rightarrow> kv_event list \<Rightarrow> remote" where
  "begun c l = \<lparr>et_log = l, h_phase = P_Watching, h_watch = None, h_chan = None, h_hand = None, h_cfg = Some c\<rparr>"

lemma begun_reach: "dec v = Inr c \<Longrightarrow> remote_reach dec (begun c (Put v # l))"
proof (induction l rule: rev_induct)
  case Nil
  let ?r = "new_holder [Put v]"
  have d: "loadRemoteConfig dec None [Put v] = Inr c" using Nil by (simp add: loadRemoteConfig_def kv_value_def)
  have "remote_reach dec ?r" by (auto simp: remote_reach_def)
  then have "remote_reach dec (holder_load dec None ?r)"
    by (rule remote_more) (rule remote_step.Load, simp add: new_holder_def)
  then have "remote_reach dec (watchRemoteConfig dec None (holder_load dec None ?r))"
    by (rule remote_more) (rule remote_step.First_get, simp add: new_holder_def holder_load_def d)
  then have "remote_reach dec ((begun c [Put v])\<lparr>h_chan := Some c\<rparr>)"
    by (simp add: new_holder_def holder_load_def watchRemoteConfig_def d begun_def)
  then have "remote_reach dec ((begun c [Put v])\<lparr>h_hand := Some c\<rparr>)"
    by (rule remote_more) (use remote_step.Consumer_receive [of "(begun c [Put v])\<lparr>h_chan := Some c\<rparr>" c dec] in \<open>simp add: begun_def\<close>)
  then show ?case
    by (rule remote_more) (use remote_step.Consumer_store [of "(begun c [Put v])\<lparr>h_hand := Some c\<rparr>" c dec] in \<open>simp add: begun_def\<close>)
next
  case (snoc ev l)
  then have "remote_reach dec (begun c (Put v # l))" by simp
  then show ?case
    by (rule remote_more) (use remote_step.Change [of dec "begun c (Put v # l)" ev] in \<open>simp add: begun_def\<close>)
qed

definition opened :: "RemoteConfig \<Rightarrow> kv_event list \<Rightarrow> remote" where
  "opened c l = (begun c l)\<lparr>h_watch := Some (length l, length l)\<rparr>"

lemma opened_reach: "dec v = Inr c \<Longrightarrow> remote_reach dec (opened c (Put v # l))"
  unfolding opened_def
  by (rule remote_more [OF begun_reach]) (use remote_step.Watch_open [of "begun c (Put v # l)" dec] in \<open>simp_all add: begun_def\<close>)

text \<open>
  What the watch misses: it begins at the newest revision and not at the one the first read saw (and
  so does every new subscription), so a change between the two is never delivered: there are runs in which
  every event has been read, every channel is empty and every goroutine waits, and the gateway still
  answers with the old configuration.
\<close>
theorem update_missed:
  assumes "dec v1 = Inr c1" "dec v2 = Inr c2"
  shows "\<exists>r k. remote_reach dec r \<and> kv_value (et_log r) = Some v2 \<and> h_watch r = Some (k, length (et_log r)) \<and>
    h_chan r = None \<and> h_hand r = None \<and> Get r = c1"
  by (rule exI [of _ "opened c1 [Put v1, Put v2]"], rule exI [of _ "2"])
    (use opened_reach [of dec v1 c1 "[Put v2]"] assms(1) in \<open>simp add: opened_def begun_def kv_value_def Get_def\<close>)

text \<open>A parser of texts that hold one duration, on which the two are evaluated.\<close>

definition toy_yaml :: "string \<Rightarrow> parsed res" where
  "toy_yaml v = Inr \<lparr>ps_config = zero_config, ps_access = Some \<lparr>yn_Tag = ''!!str'', yn_Value = v\<rparr>, ps_refresh = None\<rparr>"

definition toy_decoder :: decoder where "toy_decoder = decodeRemoteConfig (\<lambda>f un scale. f * un div scale) toy_yaml"

definition toy_remote :: "int \<Rightarrow> RemoteConfig" where
  "toy_remote d = zero_config\<lparr>rc_JWT := (rc_JWT zero_config)\<lparr>jc_AccessTTL := d, jc_RefreshTTL := 0\<rparr>\<rparr>"

lemma duration_15m: "ParseDuration f ''15m'' = Some (900 * 10 ^ 9)"
  by (simp add: ParseDuration_def parse_terms.simps one_term_def fraction_of_def unit_of_def is_digit_def byte_def bstr_def)

lemma duration_1h: "ParseDuration f ''1h'' = Some (3600 * 10 ^ 9)"
  by (simp add: ParseDuration_def parse_terms.simps one_term_def fraction_of_def unit_of_def is_digit_def byte_def bstr_def)

lemma toy_decodes: "toy_decoder ''15m'' = Inr (toy_remote (900 * 10 ^ 9))" "toy_decoder ''1h'' = Inr (toy_remote (3600 * 10 ^ 9))"
  by (simp_all add: toy_decoder_def decodeRemoteConfig_def toy_yaml_def node_value_def UnmarshalYAML_def duration_15m duration_1h toy_remote_def)

theorem update_missed_witness:
  "\<exists>r. remote_reach toy_decoder r \<and> kv_value (et_log r) = Some ''1h'' \<and> jc_AccessTTL (rc_JWT (Get r)) = 900 * 10 ^ 9"
  using update_missed [where dec = toy_decoder, OF toy_decodes] by (fastforce simp: toy_remote_def)

theorem updates_reach_holder_witness:
  "\<exists>r. remote_reach toy_decoder r \<and> jc_AccessTTL (rc_JWT (Get r)) = 3600 * 10 ^ 9"
proof -
  let ?c = "toy_remote (900 * 10 ^ 9)" and ?c1 = "toy_remote (3600 * 10 ^ 9)" and ?l = "[Put ''15m'', Put ''1h'']"
  let ?r1 = "(opened ?c [Put ''15m''])\<lparr>et_log := ?l\<rparr>"
  let ?r2 = "(watch_event toy_decoder (Put ''1h'') ?r1)\<lparr>h_watch := Some (1, 2)\<rparr>"
  let ?r3 = "?r2\<lparr>h_chan := None, h_hand := Some ?c1\<rparr>" and ?r4 = "?r2\<lparr>h_chan := None, h_hand := None, h_cfg := Some ?c1\<rparr>"
  have "remote_reach toy_decoder ?r1"
    using remote_more [OF opened_reach [where dec = toy_decoder, OF toy_decodes(1), of "[]"] remote_step.Change [of _ _ "Put ''1h''"]]
    by (simp add: opened_def begun_def)
  then have "remote_reach toy_decoder ?r2"
    by (rule remote_more) (use remote_step.Watch_event [of ?r1 1 1 toy_decoder] in \<open>simp add: opened_def numeral_2_eq_2\<close>)
  then have "remote_reach toy_decoder ?r3"
    by (rule remote_more) (use remote_step.Consumer_receive [of ?r2 ?c1 toy_decoder] in
        \<open>simp add: opened_def begun_def watch_event_def toy_decodes deliver_def\<close>)
  then have r: "remote_reach toy_decoder ?r4"
    by (rule remote_more) (use remote_step.Consumer_store [of ?r3 ?c1 toy_decoder] in \<open>simp add: opened_def begun_def\<close>)
  have "et_log ?r4 = ?l" by (simp add: watch_event_def toy_decodes)
  then have "Get ?r4 = ?c1"
    by (intro updates_reach_holder [OF r, of 1]) (simp_all add: numeral_2_eq_2 toy_decodes)
  then show ?thesis using r by (intro exI [of _ ?r4]) (simp add: toy_remote_def)
qed

section \<open>What is built at the start\<close>

text \<open>The blacklist's cache: none without a host or when the probe fails.\<close>

definition NewBlacklistCache :: "RedisConfig \<Rightarrow> bool \<Rightarrow> bool" where
  "NewBlacklistCache cf probe_ok \<longleftrightarrow> rd_Host cf \<noteq> [] \<and> probe_ok"

definition NewJWT_of :: "RemoteConfig \<Rightarrow> JwtConfig" where
  "NewJWT_of cf = \<lparr>SigningKey = jc_Secret (rc_JWT cf), ExpiredTime = jc_AccessTTL (rc_JWT cf),
     RefreshExpiredTime = jc_RefreshTTL (rc_JWT cf), cfg_Issuer = jc_Issuer (rc_JWT cf)\<rparr>"


lemma Get_zero: "h_cfg r = None \<Longrightarrow> Get r = zero_config"
  by (simp add: Get_def)

text \<open>
  C35. A gateway without its configuration is open: when the first read fails, the parser is built with the
  empty key and the blacklist is off, and whoever signs claims with the empty key is let through with the
  identity and the role of those claims.
\<close>
theorem empty_key_accepted:
  assumes "lib_sound L" "h_cfg r = None" "sign L [] cl = Inr t" "TokenType cl = TokenTypeAccess" "now < ExpiresAt cl"
    and "extractBearerToken (rq_header rq ''Authorization'') = bearerOK t"
  shows "NewJWTAuth (ParseAccessToken L (NewJWT_of (Get r)) now)
      (if NewBlacklistCache (rc_Redis (Get r)) ok then Some bl else None) False rq c = Inr (identify cl t c)"
proof -
  have p: "parse L [] now t = Inr cl" using assms(1,3,5) unfolding lib_sound_def by blast
  have k: "SigningKey (NewJWT_of (Get r)) = []" "\<not> NewBlacklistCache (rc_Redis (Get r)) ok"
    by (simp_all add: Get_zero [OF assms(2)] NewJWT_of_def zero_config_def NewBlacklistCache_def)
  have "ParseAccessToken L (NewJWT_of (Get r)) now t = Inr cl"
    by (simp add: ParseAccessToken_def ParseToken_def k(1) p assms(4))
  then show ?thesis by (simp add: NewJWTAuth_def k(2) assms(6))
qed

theorem empty_key_accepted_witness:
  "\<exists>L t cl. pl_Role (cl_Payload cl) = ''admin'' \<and>
    NewJWTAuth (ParseAccessToken L (NewJWT_of (Get (new_holder []))) 3) None False
      \<lparr>rq_method = [], rq_path = [], rq_header = (\<lambda>h. ''Bearer '' @ t), rq_query = (\<lambda>_. []), rq_body = Inr [], rq_client_ip = []\<rparr> gctx0
     = Inr (identify cl t gctx0)"
proof -
  let ?p = "\<lparr>pl_UserId = 1, pl_UserName = ''eve'', pl_Role = ''admin''\<rparr>"
  let ?cl = "toy_claims TokenTypeAccess 15 ''1'' ?p"
  let ?rq = "\<lparr>rq_method = [], rq_path = [], rq_header = (\<lambda>h. ''Bearer a''), rq_query = (\<lambda>_. []), rq_body = Inr [], rq_client_ip = []\<rparr>"
  have t: "trim_space ''Bearer a'' = ''Bearer a''" "trim_space ''a'' = ''a''"
    by (simp_all add: trim_space_def trim_segs_def is_space_def byte_def)
  have b: "extractBearerToken ''Bearer a'' = bearerOK ''a''"
    by (simp add: extractBearerToken_def Let_def bearerPrefix_def equal_fold_def t)
  obtain L where L: "lib_sound L" "sign L [] ?cl = Inr ''a''"
    using toy_sound [of ?cl ?cl] by (rule that) (simp add: toy_lib_def)
  have h: "h_cfg (new_holder []) = None" by (simp add: new_holder_def)
  have "NewJWTAuth (ParseAccessToken L (NewJWT_of (Get (new_holder []))) 3)
      (if NewBlacklistCache (rc_Redis (Get (new_holder []))) True then Some (\<lambda>_. False) else None) False ?rq gctx0 = Inr (identify ?cl ''a'' gctx0)"
    by (rule empty_key_accepted [OF L(1) h L(2)]) (simp_all add: toy_claims_def b)
  moreover have "\<not> NewBlacklistCache (rc_Redis (Get (new_holder []))) True"
    by (simp add: NewBlacklistCache_def Get_zero [OF h] zero_config_def)
  ultimately show ?thesis by (intro exI [of _ L] exI [of _ "''a''"] exI [of _ ?cl]) (simp add: toy_claims_def)
qed

end
