(* ===== verification/Digest.thy ===== *)
theory Digest
  imports GoStrings "HOL-Library.Word"
begin

text \<open>
  The two digests the middlewares take from Go's standard library, \<^verbatim>\<open>crypto/sha256\<close> and
  \<^verbatim>\<open>crypto/md5\<close>, on bytes, with their text in lower case hexadecimal digits
  (\<^verbatim>\<open>encoding/hex\<close>).
\<close>

unbundle bit_operations_syntax

section \<open>Bytes, words and hexadecimal digits\<close>

type_synonym w32 = "32 word"

definition be_bytes :: "nat \<Rightarrow> nat \<Rightarrow> nat list" where
  "be_bytes n k = map (\<lambda>i. k div 256 ^ (n - 1 - i) mod 256) [0..<n]"

definition le_bytes :: "nat \<Rightarrow> nat \<Rightarrow> nat list" where
  "le_bytes n k = map (\<lambda>i. k div 256 ^ i mod 256) [0..<n]"

definition be_value :: "nat list \<Rightarrow> nat" where
  "be_value bs = foldl (\<lambda>v b. v * 256 + b) 0 bs"

lemma be_bytes_length [simp]: "length (be_bytes n k) = n" by (simp add: be_bytes_def)
lemma le_bytes_length [simp]: "length (le_bytes n k) = n" by (simp add: le_bytes_def)

definition hex_char :: "nat \<Rightarrow> char" where
  "hex_char d = (if d < 10 then char_of (48 + d) else char_of (87 + d))"

definition hex_EncodeToString :: "nat list \<Rightarrow> string" where
  "hex_EncodeToString bs = concat (map (\<lambda>b. [hex_char (b div 16), hex_char (b mod 16)]) bs)"

lemma hex_length: "length (hex_EncodeToString bs) = 2 * length bs"
  by (induction bs) (simp_all add: hex_EncodeToString_def)

function chunks :: "nat \<Rightarrow> 'a list \<Rightarrow> 'a list list" where
  "chunks n xs = (if n = 0 \<or> xs = [] then [] else take n xs # chunks n (drop n xs))"
  by pat_completeness auto

termination by (relation "measure (\<lambda>(n, xs). length xs)") auto

declare chunks.simps [simp del]

text \<open>One bit, zeros up to the end of a block of 64 bytes, and the length in bits in the last eight.\<close>

definition padded :: "(nat \<Rightarrow> nat \<Rightarrow> nat list) \<Rightarrow> nat list \<Rightarrow> nat list" where
  "padded enc m = m @ [128] @ replicate ((119 - length m mod 64) mod 64) 0 @ enc 8 (8 * length m mod 2 ^ 64)"

section \<open>SHA-256\<close>

text \<open>
  The constants are the first 32 bits of the fractions of the cube roots of the first 64 primes and of the
  square roots of the first eight; \<^verbatim>\<open>root_bits\<close> finds a root of an integer bit by bit.
\<close>

fun root_bits :: "nat \<Rightarrow> nat \<Rightarrow> nat \<Rightarrow> nat \<Rightarrow> nat" where
  "root_bits k n 0 r = r"
| "root_bits k n (Suc b) r = root_bits k n b (if (r + 2 ^ b) ^ k \<le> n then r + 2 ^ b else r)"

definition root_fraction :: "nat \<Rightarrow> nat \<Rightarrow> w32" where
  "root_fraction k p = of_nat (root_bits k (p * 2 ^ (32 * k)) 36 0)"

definition first_primes :: "nat list" where
  "first_primes = filter (\<lambda>n. list_all (\<lambda>d. n mod d \<noteq> 0) [2..<n]) [2..<312]"

definition sha_K :: "w32 list" where "sha_K = map (root_fraction 3) first_primes"

definition sha_H :: "w32 list" where "sha_H = map (root_fraction 2) [2, 3, 5, 7, 11, 13, 17, 19]"

definition sha_schedule :: "w32 list \<Rightarrow> w32 list" where
  "sha_schedule m =
    foldl (\<lambda>w t.
      let x = w ! (t - 15); y = w ! (t - 2);
          s0 = word_rotr 7 x XOR word_rotr 18 x XOR drop_bit 3 x;
          s1 = word_rotr 17 y XOR word_rotr 19 y XOR drop_bit 10 y
      in w @ [w ! (t - 16) + s0 + w ! (t - 7) + s1]) m [16..<64]"

type_synonym sha_state = "w32 \<times> w32 \<times> w32 \<times> w32 \<times> w32 \<times> w32 \<times> w32 \<times> w32"

definition sha_round :: "sha_state \<Rightarrow> w32 \<times> w32 \<Rightarrow> sha_state" where
  "sha_round s kw =
    (case (s, kw) of ((a, b, c, d, e, f, g, h), (k, w)) \<Rightarrow>
      let S1 = word_rotr 6 e XOR word_rotr 11 e XOR word_rotr 25 e; ch = (e AND f) XOR (NOT e AND g);
          t1 = h + S1 + ch + k + w;
          S0 = word_rotr 2 a XOR word_rotr 13 a XOR word_rotr 22 a; maj = (a AND b) XOR (a AND c) XOR (b AND c)
      in (t1 + S0 + maj, a, b, c, d + t1, e, f, g))"

definition sha_list :: "sha_state \<Rightarrow> w32 list" where
  "sha_list s = (case s of (a, b, c, d, e, f, g, h) \<Rightarrow> [a, b, c, d, e, f, g, h])"

definition sha_block :: "w32 list \<Rightarrow> nat list \<Rightarrow> w32 list" where
  "sha_block h bs =
    (let w = sha_schedule (map (\<lambda>c. of_nat (be_value c)) (chunks 4 bs));
         s = foldl sha_round (h ! 0, h ! 1, h ! 2, h ! 3, h ! 4, h ! 5, h ! 6, h ! 7) (zip sha_K w)
     in map2 (+) h (sha_list s))"

definition sha256_Sum256 :: "nat list \<Rightarrow> nat list" where
  "sha256_Sum256 m = concat (map (\<lambda>w. be_bytes 4 (unat w)) (foldl sha_block sha_H (chunks 64 (padded be_bytes m))))"

lemma sha_blocks_length: "length h = 8 \<Longrightarrow> length (foldl sha_block h bs) = 8"
proof (induction bs arbitrary: h)
  case (Cons b bs)
  have "length (sha_block h b) = 8"
    using Cons.prems by (simp add: sha_block_def Let_def sha_list_def split: prod.splits)
  then show ?case using Cons.IH by simp
qed simp

lemma sha256_length: "length (sha256_Sum256 m) = 32"
proof -
  have "length (concat (map (\<lambda>w::w32. be_bytes 4 (unat w)) l)) = 4 * length l" for l by (induction l) simp_all
  then show ?thesis by (simp add: sha256_Sum256_def sha_blocks_length sha_H_def)
qed

section \<open>MD5\<close>

definition md5_K :: "w32 list" where
  "md5_K = [
    0xd76aa478, 0xe8c7b756, 0x242070db, 0xc1bdceee, 0xf57c0faf, 0x4787c62a, 0xa8304613, 0xfd469501, 0x698098d8,
    0x8b44f7af, 0xffff5bb1, 0x895cd7be, 0x6b901122, 0xfd987193, 0xa679438e, 0x49b40821, 0xf61e2562, 0xc040b340,
    0x265e5a51, 0xe9b6c7aa, 0xd62f105d, 0x2441453, 0xd8a1e681, 0xe7d3fbc8, 0x21e1cde6, 0xc33707d6, 0xf4d50d87,
    0x455a14ed, 0xa9e3e905, 0xfcefa3f8, 0x676f02d9, 0x8d2a4c8a, 0xfffa3942, 0x8771f681, 0x6d9d6122, 0xfde5380c,
    0xa4beea44, 0x4bdecfa9, 0xf6bb4b60, 0xbebfbc70, 0x289b7ec6, 0xeaa127fa, 0xd4ef3085, 0x4881d05, 0xd9d4d039,
    0xe6db99e5, 0x1fa27cf8, 0xc4ac5665, 0xf4292244, 0x432aff97, 0xab9423a7, 0xfc93a039, 0x655b59c3, 0x8f0ccc92,
    0xffeff47d, 0x85845dd1, 0x6fa87e4f, 0xfe2ce6e0, 0xa3014314, 0x4e0811a1, 0xf7537e82, 0xbd3af235, 0x2ad7d2bb,
    0xeb86d391]"

definition md5_shift :: "nat \<Rightarrow> nat" where
  "md5_shift i = [[7, 12, 17, 22], [5, 9, 14, 20], [4, 11, 16, 23], [6, 10, 15, 21]] ! (i div 16) ! (i mod 4)"

type_synonym md5_state = "w32 \<times> w32 \<times> w32 \<times> w32"

definition md5_round :: "w32 list \<Rightarrow> md5_state \<Rightarrow> nat \<Rightarrow> md5_state" where
  "md5_round m s i =
    (case s of (a, b, c, d) \<Rightarrow>
      let (f, g) =
        (if i < 16 then ((b AND c) OR (NOT b AND d), i)
         else if i < 32 then ((d AND b) OR (NOT d AND c), (5 * i + 1) mod 16)
         else if i < 48 then (b XOR c XOR d, (3 * i + 5) mod 16)
         else (c XOR (b OR NOT d), (7 * i) mod 16))
      in (d, b + word_rotl (md5_shift i) (f + a + md5_K ! i + m ! g), b, c))"

definition md5_block :: "md5_state \<Rightarrow> nat list \<Rightarrow> md5_state" where
  "md5_block s bs =
    (case (s, foldl (md5_round (map (\<lambda>c. of_nat (be_value (rev c))) (chunks 4 bs))) s [0..<64]) of
       ((a, b, c, d), (a', b', c', d')) \<Rightarrow> (a + a', b + b', c + c', d + d'))"

definition md5_Sum :: "nat list \<Rightarrow> nat list" where
  "md5_Sum m =
    (case foldl md5_block (0x67452301, 0xefcdab89, 0x98badcfe, 0x10325476) (chunks 64 (padded le_bytes m)) of
       (a, b, c, d) \<Rightarrow> concat (map (\<lambda>w. le_bytes 4 (unat w)) [a, b, c, d]))"

end
