(* ===== verification/Pow.thy ===== *)
theory Pow
  imports Digest
begin

text \<open>
  Proof of work (pkg/middleware/pow.go): a table of challenges that are issued, tried and swept, the
  middleware that asks for a solved one, and the search for a nonce.
\<close>

section \<open>Challenges\<close>

record PoWConfig =
  pc_Enabled :: bool
  pc_Mode :: string
  pc_Difficulty :: int
  pc_ChallengeTTL :: int

record challenge =
  ch_ID :: string
  ch_Challenge :: string
  ch_Difficulty :: int
  CreatedAt :: int
  Used :: bool

type_synonym challenges = "string \<rightharpoonup> challenge"

record ChallengeResponse =
  cr_ChallengeID :: string
  cr_Challenge :: string
  cr_Difficulty :: int

text \<open>Times are seconds since 1970; \<^verbatim>\<open>cid\<close> and \<^verbatim>\<open>word\<close> are the uuids drawn.\<close>

definition GenerateChallenge :: "PoWConfig \<Rightarrow> int \<Rightarrow> string \<Rightarrow> string \<Rightarrow> challenges \<Rightarrow> ChallengeResponse \<times> challenges" where
  "GenerateChallenge cf now cid word m =
    (\<lparr>cr_ChallengeID = cid, cr_Challenge = word, cr_Difficulty = pc_Difficulty cf\<rparr>,
     m(cid \<mapsto> \<lparr>ch_ID = cid, ch_Challenge = word, ch_Difficulty = pc_Difficulty cf, CreatedAt = now, Used = False\<rparr>))"

text \<open>None is the panic of \<^verbatim>\<open>strings.Repeat\<close> at a negative count.\<close>

definition verifyHash :: "string \<Rightarrow> string \<Rightarrow> int \<Rightarrow> bool option" where
  "verifyHash c nonce d =
    (let h = hex_EncodeToString (sha256_Sum256 (map byte (c @ nonce)))
     in if d < 0 then None else Some (has_prefix h (replicate (nat d) (CHR ''0''))))"

datatype pow_verdict = Passed | Refused string | Broken

definition VerifyPoW :: "PoWConfig \<Rightarrow> int \<Rightarrow> string \<Rightarrow> string \<Rightarrow> challenges \<Rightarrow> pow_verdict \<times> challenges" where
  "VerifyPoW cf now cid nonce m =
    (case m cid of
       None \<Rightarrow> (Refused ''invalid challenge id'', m)
     | Some c \<Rightarrow>
       if Used c then (Refused ''challenge already used'', m)
       else if pc_ChallengeTTL cf < now - CreatedAt c then (Refused ''challenge expired'', m(cid := None))
       else case verifyHash (ch_Challenge c) nonce (ch_Difficulty c) of
              None \<Rightarrow> (Broken, m)
            | Some ok \<Rightarrow>
              if \<not> ok then (Refused ''invalid proof of work'', m) else (Passed, m(cid \<mapsto> c\<lparr>Used := True\<rparr>)))"

definition cleanupExpiredChallenges :: "PoWConfig \<Rightarrow> int \<Rightarrow> challenges \<Rightarrow> challenges" where
  "cleanupExpiredChallenges cf now m =
    (\<lambda>cid. case m cid of
       None \<Rightarrow> None | Some c \<Rightarrow> if pc_ChallengeTTL cf < now - CreatedAt c \<or> Used c then None else Some c)"

section \<open>The middleware\<close>

definition pow_isExemptPath :: "string \<Rightarrow> bool" where
  "pow_isExemptPath path \<longleftrightarrow>
    (\<exists>p\<in>set [''/webapi/pow/challenge'', ''/webapi/sms/callback'', ''/webapi/wechat-pay/notify'']. has_prefix path p)"

text \<open>
  \<^verbatim>\<open>tr\<close> is the operation and the headers of a server transport; the verdict
  \<^verbatim>\<open>Passed\<close> says that the handler is called.
\<close>

definition pow_Server :: "PoWConfig \<Rightarrow> int \<Rightarrow> (string \<times> (string \<Rightarrow> string)) option \<Rightarrow> challenges \<Rightarrow> pow_verdict \<times> challenges" where
  "pow_Server cf now tr m =
    (if \<not> pc_Enabled cf \<or> pc_Mode cf = ''off'' then (Passed, m)
     else case tr of
       None \<Rightarrow> (Passed, m)
     | Some (path, hdr) \<Rightarrow>
       if pow_isExemptPath path \<or> \<not> has_prefix path ''/webapi/'' then (Passed, m)
       else
         let cid = hdr ''X-PoW-Challenge''; nonce = hdr ''X-PoW-Nonce'' in
         if cid = [] \<or> nonce = [] then (if pc_Mode cf = ''enforce'' then Refused ''missing pow headers'' else Passed, m)
         else (case VerifyPoW cf now cid nonce m of
                 (Refused er, m1) \<Rightarrow>
                   (if pc_Mode cf = ''enforce'' then Refused (''pow verification failed: '' @ er) else Passed, m1)
               | (v, m1) \<Rightarrow> (v, m1)))"

section \<open>The search\<close>

text \<open>The counter is an int, which starts again at the least one after the greatest.\<close>

definition int_succ :: "int \<Rightarrow> int" where
  "int_succ i = (if i = 2 ^ 63 - 1 then - (2 ^ 63) else i + 1)"

partial_function (option) search_nonce :: "string \<Rightarrow> int \<Rightarrow> int \<Rightarrow> string option" where
  "search_nonce c d i =
    (case verifyHash c (show_int i) d of
       None \<Rightarrow> None
     | Some ok \<Rightarrow> if ok then Some (show_int i) else search_nonce c d (int_succ i))"

definition CalculateNonce :: "string \<Rightarrow> int \<Rightarrow> string option" where
  "CalculateNonce c d = search_nonce c d 0"

lemma search_from:
  assumes "\<And>j. j < k \<Longrightarrow> verifyHash c (show_int (i + int j)) d = Some False" "i + int k < 2 ^ 63"
  shows "search_nonce c d i = search_nonce c d (i + int k)"
  using assms
proof (induction k)
  case (Suc k)
  then have "search_nonce c d (i + int k) = search_nonce c d (int_succ (i + int k))"
    by (subst search_nonce.simps) simp
  moreover have "int_succ (i + int k) = i + int (Suc k)" using Suc.prems(2) by (simp add: int_succ_def)
  ultimately show ?case using Suc by simp
qed simp

text \<open>
  The search for a nonce ends: when the text of some natural number below 2 to the 63 solves the
  challenge, it returns the text of the least one.
\<close>
theorem nonce_search_ends:
  assumes "verifyHash c (show_nat n) d = Some True" "n < 2 ^ 63"
  shows "CalculateNonce c d = Some (show_nat (LEAST k. verifyHash c (show_nat k) d = Some True))"
proof -
  define k where "k = (LEAST k. verifyHash c (show_nat k) d = Some True)"
  have k: "verifyHash c (show_nat k) d = Some True" unfolding k_def by (rule LeastI [of _ n]) (rule assms(1))
  have "k \<le> n" unfolding k_def by (rule Least_le) (rule assms(1))
  then have small: "int k < 2 ^ 63" using assms(2) by (metis of_nat_less_iff of_nat_numeral of_nat_power order.strict_trans1)
  have s: "show_int (int j) = show_nat j" for j by (simp add: show_int_def)
  have "verifyHash c (show_int (0 + int j)) d = Some False" if "j < k" for j
  proof -
    have "verifyHash c (show_nat j) d \<noteq> Some True" using that not_less_Least unfolding k_def by blast
    moreover have "verifyHash c x d \<noteq> None" for x using k by (auto simp: verifyHash_def Let_def split: if_splits)
    ultimately show ?thesis using s by (metis add_0 option.exhaust)
  qed
  with search_from [of k c 0 d] small have "search_nonce c d 0 = search_nonce c d (int k)" by simp
  then show ?thesis using k by (subst (asm) (2) search_nonce.simps) (simp add: CalculateNonce_def s k_def)
qed

lemma no_difficulty: "verifyHash c nonce 0 = Some True"
  by (simp add: verifyHash_def has_prefix_def)

lemma digit_zero: "char_of (48 :: nat) = CHR ''0''"
  by (simp add: char_of_eq_iff)

theorem nonce_search_ends_witness: "CalculateNonce ''puzzle'' 0 = Some ''0''"
proof -
  have "(LEAST k. verifyHash ''puzzle'' (show_nat k) 0 = Some True) = 0" by (simp add: no_difficulty Least_eq_0)
  with nonce_search_ends [of "''puzzle''" 3 0] show ?thesis
    by (simp add: no_difficulty show_nat.simps [of 0] digit_def digit_zero)
qed

text \<open>
  A difficulty above 64 asks for more zeros than the digest has digits: no nonce ever passes, and the
  search never returns.
\<close>
theorem too_difficult:
  assumes "64 < d"
  shows "verifyHash c nonce d = Some False"
proof -
  let ?h = "hex_EncodeToString (sha256_Sum256 (map byte (c @ nonce)))"
  have "length ?h = 64" by (simp add: hex_length sha256_length)
  then have "\<not> has_prefix ?h (replicate (nat d) (CHR ''0''))"
    using assms by (auto simp: has_prefix_def dest!: arg_cong [where f = length])
  then show ?thesis using assms by (simp add: verifyHash_def Let_def)
qed

section \<open>What passes\<close>

datatype pow_event = Issue int string string | Try int string string | Sweep int

fun pow_step :: "PoWConfig \<Rightarrow> challenges \<Rightarrow> pow_event \<Rightarrow> challenges" where
  "pow_step cf m (Issue t cid word) = snd (GenerateChallenge cf t cid word m)"
| "pow_step cf m (Try t cid nonce) = snd (VerifyPoW cf t cid nonce m)"
| "pow_step cf m (Sweep t) = cleanupExpiredChallenges cf t m"

definition pow_store :: "PoWConfig \<Rightarrow> pow_event list \<Rightarrow> challenges" where
  "pow_store cf evs = foldl (pow_step cf) Map.empty evs"

fun event_time :: "pow_event \<Rightarrow> int" where
  "event_time (Issue t cid word) = t"
| "event_time (Try t cid nonce) = t"
| "event_time (Sweep t) = t"

fun issued :: "pow_event list \<Rightarrow> string list" where
  "issued [] = []"
| "issued (Issue t cid word # evs) = cid # issued evs"
| "issued (ev # evs) = issued evs"

text \<open>A challenge has passed already.\<close>

definition passed :: "PoWConfig \<Rightarrow> pow_event list \<Rightarrow> string \<Rightarrow> bool" where
  "passed cf evs cid \<longleftrightarrow>
    (\<exists>evs1 t nonce evs2. evs = evs1 @ Try t cid nonce # evs2 \<and> fst (VerifyPoW cf t cid nonce (pow_store cf evs1)) = Passed)"

lemma pow_store_snoc: "pow_store cf (evs @ [ev]) = pow_step cf (pow_store cf evs) ev"
  by (simp add: pow_store_def)

lemma passed_snoc:
  "passed cf (evs @ [ev]) cid \<longleftrightarrow>
    passed cf evs cid \<or> (\<exists>t nonce. ev = Try t cid nonce \<and> fst (VerifyPoW cf t cid nonce (pow_store cf evs)) = Passed)"
proof
  assume "passed cf (evs @ [ev]) cid"
  then obtain b t n a where h: "evs @ [ev] = b @ Try t cid n # a" "fst (VerifyPoW cf t cid n (pow_store cf b)) = Passed"
    by (auto simp: passed_def)
  show "passed cf evs cid \<or> (\<exists>t nonce. ev = Try t cid nonce \<and> fst (VerifyPoW cf t cid nonce (pow_store cf evs)) = Passed)"
  proof (cases a rule: rev_cases)
    case Nil
    with h show ?thesis by auto
  next
    case (snoc a' x)
    with h(1) have "evs = b @ Try t cid n # a'" by simp
    with h(2) show ?thesis by (auto simp: passed_def)
  qed
next
  assume "passed cf evs cid \<or> (\<exists>t nonce. ev = Try t cid nonce \<and> fst (VerifyPoW cf t cid nonce (pow_store cf evs)) = Passed)"
  then show "passed cf (evs @ [ev]) cid"
    unfolding passed_def by (metis append.assoc append_Cons append_Nil)
qed

lemma issued_append: "issued (a @ b) = issued a @ issued b"
  by (induction a rule: issued.induct) simp_all

lemma issued_mem: "cid \<in> set (issued evs) \<longleftrightarrow> (\<exists>t word. Issue t cid word \<in> set evs)"
  by (induction evs rule: issued.induct) auto

text \<open>An issued challenge is in the table with its mark, or it has passed or expired.\<close>

definition entry :: "PoWConfig \<Rightarrow> int \<Rightarrow> string \<Rightarrow> string \<Rightarrow> bool \<Rightarrow> challenge" where
  "entry cf t cid word u = \<lparr>ch_ID = cid, ch_Challenge = word, ch_Difficulty = pc_Difficulty cf, CreatedAt = t, Used = u\<rparr>"

definition pow_ok :: "PoWConfig \<Rightarrow> pow_event list \<Rightarrow> int \<Rightarrow> bool" where
  "pow_ok cf evs now \<longleftrightarrow>
    (\<forall>cid. cid \<notin> set (issued evs) \<longrightarrow> pow_store cf evs cid = None \<and> \<not> passed cf evs cid) \<and>
    (\<forall>t cid word. Issue t cid word \<in> set evs \<longrightarrow>
       pow_store cf evs cid = Some (entry cf t cid word (passed cf evs cid)) \<or>
       pow_store cf evs cid = None \<and> (passed cf evs cid \<or> pc_ChallengeTTL cf < now - t))"

lemma entry_simps [simp]:
  "ch_Challenge (entry cf t cid word u) = word" "ch_Difficulty (entry cf t cid word u) = pc_Difficulty cf"
  "CreatedAt (entry cf t cid word u) = t" "Used (entry cf t cid word u) = u"
  "(entry cf t cid word u)\<lparr>Used := u1\<rparr> = entry cf t cid word u1"
  by (simp_all add: entry_def)

lemma try_other: "cid1 \<noteq> cid \<Longrightarrow> snd (VerifyPoW cf t cid nonce m) cid1 = m cid1"
  by (simp add: VerifyPoW_def Let_def split: option.split)

lemma try_none: "m cid = None \<Longrightarrow> VerifyPoW cf t cid nonce m = (Refused ''invalid challenge id'', m)"
  by (simp add: VerifyPoW_def)

lemma try_entry:
  assumes "m cid = Some (entry cf t0 cid word u)"
  shows "snd (VerifyPoW cf t cid nonce m) cid =
      (if \<not> u \<and> pc_ChallengeTTL cf < t - t0 then None
       else Some (entry cf t0 cid word (u \<or> fst (VerifyPoW cf t cid nonce m) = Passed)))"
    and "fst (VerifyPoW cf t cid nonce m) = Passed \<longleftrightarrow>
      \<not> u \<and> t - t0 \<le> pc_ChallengeTTL cf \<and> verifyHash word nonce (pc_Difficulty cf) = Some True"
  using assms by (cases u; cases "pc_ChallengeTTL cf < t - t0"; cases "verifyHash word nonce (pc_Difficulty cf)";
      simp add: VerifyPoW_def)+

lemma pow_ok_later: "pow_ok cf evs now \<Longrightarrow> now \<le> later \<Longrightarrow> pow_ok cf evs later"
  by (fastforce simp: pow_ok_def)

lemma pow_ok_snoc:
  assumes "pow_ok cf evs (event_time ev)" "distinct (issued (evs @ [ev]))"
  shows "pow_ok cf (evs @ [ev]) (event_time ev)"
proof (cases ev)
  case (Issue t cid word)
  with assms(2) have new: "cid \<notin> set (issued evs)" by (simp add: issued_append)
  then have "\<And>t word. Issue t cid word \<notin> set evs" by (auto simp: issued_mem)
  with assms(1) new Issue show ?thesis
    by (auto simp: pow_ok_def passed_snoc pow_store_snoc issued_append GenerateChallenge_def entry_def)
next
  case (Try t cid nonce)
  let ?m = "pow_store cf evs"
  have m: "pow_store cf (evs @ [ev]) = snd (VerifyPoW cf t cid nonce ?m)" using Try by (simp add: pow_store_snoc)
  have p: "passed cf (evs @ [ev]) cid1 \<longleftrightarrow> passed cf evs cid1 \<or> cid1 = cid \<and> fst (VerifyPoW cf t cid nonce ?m) = Passed" for cid1
    using Try by (auto simp: passed_snoc)
  have i: "issued (evs @ [ev]) = issued evs" "Issue t1 cid1 word \<in> set (evs @ [ev]) \<longleftrightarrow> Issue t1 cid1 word \<in> set evs" for t1 cid1 word
    using Try by (simp_all add: issued_append)
  have none: "?m cid1 = None \<and> \<not> passed cf evs cid1" if "cid1 \<notin> set (issued evs)" for cid1
    using assms(1) that by (simp add: pow_ok_def)
  have some: "?m cid1 = Some (entry cf t1 cid1 word (passed cf evs cid1)) \<or>
      ?m cid1 = None \<and> (passed cf evs cid1 \<or> pc_ChallengeTTL cf < t - t1)" if "Issue t1 cid1 word \<in> set evs" for t1 cid1 word
    using assms(1) that Try by (simp add: pow_ok_def)
  show ?thesis unfolding pow_ok_def m p i
  proof (intro conjI allI impI)
    fix cid1 assume n: "cid1 \<notin> set (issued evs)"
    show "snd (VerifyPoW cf t cid nonce ?m) cid1 = None"
      using none [OF n] by (cases "cid1 = cid") (simp_all add: try_other try_none)
    show "\<not> (passed cf evs cid1 \<or> cid1 = cid \<and> fst (VerifyPoW cf t cid nonce ?m) = Passed)"
      using none [OF n] by (auto simp: try_none)
  next
    fix t1 cid1 word assume "Issue t1 cid1 word \<in> set evs"
    from some [OF this] show "snd (VerifyPoW cf t cid nonce ?m) cid1 =
        Some (entry cf t1 cid1 word (passed cf evs cid1 \<or> cid1 = cid \<and> fst (VerifyPoW cf t cid nonce ?m) = Passed)) \<or>
      snd (VerifyPoW cf t cid nonce ?m) cid1 = None \<and>
      ((passed cf evs cid1 \<or> cid1 = cid \<and> fst (VerifyPoW cf t cid nonce ?m) = Passed) \<or> pc_ChallengeTTL cf < event_time ev - t1)"
      using Try by (cases "cid1 = cid") (auto simp: try_other try_none try_entry(1) split: if_splits)
  qed
next
  case (Sweep t)
  with assms(1) show ?thesis
    by (fastforce simp: pow_ok_def passed_snoc pow_store_snoc issued_append cleanupExpiredChallenges_def entry_def split: option.splits)
qed

lemma pow_ok_run: "sorted (map event_time (evs @ [ev])) \<Longrightarrow> distinct (issued evs) \<Longrightarrow> pow_ok cf evs (event_time ev)"
proof (induction evs arbitrary: ev rule: rev_induct)
  case Nil
  then show ?case by (simp add: pow_ok_def pow_store_def passed_def)
next
  case (snoc x evs)
  then have "pow_ok cf evs (event_time x)" by (simp add: sorted_append issued_append)
  then have "pow_ok cf (evs @ [x]) (event_time x)" by (rule pow_ok_snoc) (rule snoc.prems(2))
  then show ?case by (rule pow_ok_later) (use snoc.prems(1) in \<open>simp add: sorted_append\<close>)
qed

text \<open>
  C36. Exactly the right attempts pass: after any calls and sweeps, an attempt passes if and only if its
  challenge was issued no longer ago than the time to live, its digest has the zeros, and no attempt on
  that challenge has passed before. (The ids drawn are different and the clock does not go back.)
\<close>
theorem pow_exact:
  assumes "distinct (issued evs)" "sorted (map event_time (evs @ [Try now cid nonce]))"
  shows "fst (VerifyPoW cf now cid nonce (pow_store cf evs)) = Passed \<longleftrightarrow>
    (\<exists>t word. Issue t cid word \<in> set evs \<and> now - t \<le> pc_ChallengeTTL cf \<and> verifyHash word nonce (pc_Difficulty cf) = Some True) \<and>
    \<not> passed cf evs cid"
proof -
  have ok: "pow_ok cf evs now" using pow_ok_run [OF assms(2,1), of cf] by simp
  show ?thesis
  proof (cases "cid \<in> set (issued evs)")
    case False
    with ok have "pow_store cf evs cid = None" by (simp add: pow_ok_def)
    with False show ?thesis by (auto simp: VerifyPoW_def issued_mem)
  next
    case True
    then obtain t word where i: "Issue t cid word \<in> set evs" by (auto simp: issued_mem)
    have only: "t1 = t \<and> ch1 = word" if "Issue t1 cid ch1 \<in> set evs" for t1 ch1
      using assms(1) i that
    proof (induction evs rule: issued.induct)
      case (2 t0 cid0 ch0 evs)
      then show ?case by (auto simp: issued_mem)
    qed auto
    have ex: "(\<exists>t1 ch1. Issue t1 cid ch1 \<in> set evs \<and> P t1 ch1) \<longleftrightarrow> P t word" for P using i only by blast
    from ok i have "pow_store cf evs cid = Some (entry cf t cid word (passed cf evs cid)) \<or>
       pow_store cf evs cid = None \<and> (passed cf evs cid \<or> pc_ChallengeTTL cf < now - t)"
      by (simp add: pow_ok_def)
    then show ?thesis
    proof
      assume s: "pow_store cf evs cid = Some (entry cf t cid word (passed cf evs cid))"
      show ?thesis unfolding ex try_entry(2) [where m = "pow_store cf evs", OF s] by blast
    next
      assume "pow_store cf evs cid = None \<and> (passed cf evs cid \<or> pc_ChallengeTTL cf < now - t)"
      then show ?thesis unfolding ex by (auto simp: try_none)
    qed
  qed
qed

definition easy :: PoWConfig where
  "easy = \<lparr>pc_Enabled = True, pc_Mode = ''enforce'', pc_Difficulty = 0, pc_ChallengeTTL = 300\<rparr>"

theorem pow_exact_witness:
  "fst (VerifyPoW easy 20 ''a'' ''n'' (pow_store easy [Issue 10 ''a'' ''x'', Sweep 15])) = Passed \<and>
   fst (VerifyPoW easy 30 ''a'' ''n'' (pow_store easy [Issue 10 ''a'' ''x'', Try 20 ''a'' ''n''])) \<noteq> Passed"
proof -
  let ?h = "[Issue 10 ''a'' ''x'', Sweep 15]" and ?g = "[Issue 10 ''a'' ''x'', Try 20 ''a'' ''n'']"
  have no: "\<not> passed easy ?h ''a''" by (auto simp: passed_def Cons_eq_append_conv append_eq_Cons_conv)
  have "fst (VerifyPoW easy 20 ''a'' ''n'' (pow_store easy [Issue 10 ''a'' ''x''])) = Passed"
    by (simp add: pow_store_def GenerateChallenge_def VerifyPoW_def easy_def no_difficulty)
  then have yes: "passed easy ?g ''a''"
    unfolding passed_def by (intro exI [of _ "[Issue 10 ''a'' ''x'']"]) auto
  show ?thesis
    using pow_exact [of ?h 20 "''a''" "''n''" easy] pow_exact [of ?g 30 "''a''" "''n''" easy] no yes
    by (auto simp: easy_def no_difficulty)
qed

end
