(* ===== verification/EdgeOne.thy ===== *)
theory EdgeOne
  imports Cache Digest
begin

text \<open>
  Signed requests of the content network (pkg/middleware/edgeone.go): the signature over key, path and
  time, its check, the middleware, and the two generators.
\<close>

section \<open>The middleware\<close>

record EdgeOneConfig =
  AppKey :: string
  AppTokenP :: string
  AppTsP :: string
  AppTTL :: int
  WebKey :: string
  WebTokenP :: string
  WebTsP :: string
  WebTTL :: int
  eo_Enabled :: bool
  ExemptPaths :: "string list"

definition calculateSignature :: "string \<Rightarrow> string \<Rightarrow> string \<Rightarrow> string" where
  "calculateSignature key path ts = (let signStr = key @ path @ ts in hex_EncodeToString (md5_Sum (map byte signStr)))"

text \<open>\<^verbatim>\<open>tr\<close> is the operation and the headers of a server transport; None is no error.\<close>

definition verifySignature ::
  "int \<Rightarrow> (string \<times> (string \<Rightarrow> string)) option \<Rightarrow> string \<Rightarrow> string \<Rightarrow> string \<Rightarrow> string \<Rightarrow> int \<Rightarrow> string option" where
  "verifySignature now tr path key tokenP tsP ttl =
    (case tr of
       None \<Rightarrow> Some ''transport header not found''
     | Some (_, hdr) \<Rightarrow>
       let token = hdr tokenP; tsStr = hdr tsP in
       if token = [] \<or> tsStr = [] then Some ''missing signature or timestamp''
       else case parse_int64 tsStr of
              None \<Rightarrow> Some ''invalid timestamp''
            | Some ts \<Rightarrow>
              if ts < wrap64 (now - ttl) \<or> wrap64 (now + 300) < ts then Some ''signature expired''
              else if token \<noteq> calculateSignature key path tsStr then Some ''invalid signature'' else None)"

definition eo_isExemptPath :: "EdgeOneConfig \<Rightarrow> string \<Rightarrow> bool" where
  "eo_isExemptPath cf path \<longleftrightarrow> (\<exists>p\<in>set (ExemptPaths cf). has_prefix path p)"

text \<open>The error, or None when the handler is called.\<close>

definition eo_Server :: "EdgeOneConfig \<Rightarrow> int \<Rightarrow> (string \<times> (string \<Rightarrow> string)) option \<Rightarrow> string option" where
  "eo_Server cf now tr =
    (if \<not> eo_Enabled cf then None
     else case tr of
       None \<Rightarrow> None
     | Some (path, hdr) \<Rightarrow>
       if eo_isExemptPath cf path then None
       else let check = (\<lambda>key tokenP tsP ttl.
                  case verifySignature now tr path key tokenP tsP ttl of
                    None \<Rightarrow> None | Some er \<Rightarrow> Some (''edgeone auth failed: '' @ er))
            in if has_prefix path ''/mobapi/'' then check (AppKey cf) (AppTokenP cf) (AppTsP cf) (AppTTL cf)
               else if has_prefix path ''/webapi/'' then check (WebKey cf) (WebTokenP cf) (WebTsP cf) (WebTTL cf)
               else None)"

text \<open>Name and value of the two parameters.\<close>

definition GenerateAppSignature :: "EdgeOneConfig \<Rightarrow> int \<Rightarrow> string \<Rightarrow> string \<times> string \<times> string \<times> string" where
  "GenerateAppSignature cf now path =
    (let ts = show_int now in (AppTokenP cf, calculateSignature (AppKey cf) path ts, AppTsP cf, ts))"

definition GenerateWebSignature :: "EdgeOneConfig \<Rightarrow> int \<Rightarrow> string \<Rightarrow> string \<times> string \<times> string \<times> string" where
  "GenerateWebSignature cf now path =
    (let ts = show_int now in (WebTokenP cf, calculateSignature (WebKey cf) path ts, WebTsP cf, ts))"

section \<open>Signing and checking\<close>

lemma md5_length: "length (md5_Sum m) = 16"
  by (simp add: md5_Sum_def split: prod.split)

lemma signature_length: "length (calculateSignature key path ts) = 32"
  by (simp add: calculateSignature_def Let_def hex_length md5_length)

lemma signature_not_empty [simp]: "calculateSignature key path ts \<noteq> []"
  using signature_length [of key path ts] by auto

lemma show_int_not_Nil [simp]: "show_int i \<noteq> []"
  by (simp add: show_int_def)

text \<open>
  What is signed is admitted: the parameters made for an application's or a browser's path, put into
  the headers of a request for that path, pass the check from five minutes before the time they were made
  until the time to live has gone by.
\<close>
theorem signed_is_admitted:
  assumes "has_prefix path ''/mobapi/'' \<and> GenerateAppSignature cf t path = (tokenP, token, tsP, ts) \<and> ttl = AppTTL cf \<or>
      has_prefix path ''/webapi/'' \<and> GenerateWebSignature cf t path = (tokenP, token, tsP, ts) \<and> ttl = WebTTL cf"
    and "hdr tokenP = token" "hdr tsP = ts" "0 \<le> t" "t \<le> now + 300" "now - t \<le> ttl" "now < 2 ^ 62" "0 \<le> now" "ttl < 2 ^ 62"
  shows "eo_Server cf now (Some (path, hdr)) = None"
proof -
  have p: "parse_int64 (show_int t) = Some t" by (rule parse_int64_show) (use assms(4,5,7) in simp_all)
  have w: "wrap64 (now - ttl) = now - ttl" "wrap64 (now + 300) = now + 300"
    by (rule wrap64_id; use assms(4-9) in simp)+
  have differ: "\<not> (has_prefix path ''/mobapi/'' \<and> has_prefix path ''/webapi/'')"
    by (auto simp: has_prefix_def take_Cons' numeral_eq_Suc split: if_splits)
  have "verifySignature now (Some (path, hdr)) path key tokenP tsP ttl = None"
    if "token = calculateSignature key path (show_int t)" "ts = show_int t" for key
    using assms(2,3,5,6) that by (simp add: verifySignature_def Let_def p w)
  with assms(1) differ show ?thesis
    by (auto simp: eo_Server_def GenerateAppSignature_def GenerateWebSignature_def Let_def)
qed

definition edge :: EdgeOneConfig where
  "edge = \<lparr>AppKey = ''k1'', AppTokenP = ''sign'', AppTsP = ''t'', AppTTL = 600, WebKey = ''k2'', WebTokenP = ''sign'', WebTsP = ''t'',
     WebTTL = 600, eo_Enabled = True, ExemptPaths = []\<rparr>"

definition signed :: "string \<Rightarrow> string \<Rightarrow> string \<Rightarrow> string" where
  "signed path ts h = (if h = ''t'' then ts else if h = ''sign'' then calculateSignature ''k2'' path ts else [])"

theorem signed_is_admitted_witness:
  "eo_Server edge 1000 (Some (''/webapi/a'', signed ''/webapi/a'' (show_int 900))) = None"
  by (rule signed_is_admitted [where t = 900 and tokenP = "''sign''" and tsP = "''t''" and ttl = 600
        and token = "calculateSignature ''k2'' ''/webapi/a'' (show_int 900)" and ts = "show_int 900"])
    (simp_all add: edge_def signed_def GenerateWebSignature_def has_prefix_def Let_def)

section \<open>Another path with the same signature\<close>

text \<open>
  A signature does not say where its path ends: key, path and time are signed without a separator and
  a time may begin with zeros, so a signature for a path that ends in a zero is one for the path without
  it. Every request that is admitted is also admitted with the zero moved to the time.
\<close>
theorem zero_moves:
  assumes "verifySignature now (Some (p1, hdr)) (path @ ''0'') key tokenP tsP ttl = None" "list_all is_digit (hdr tsP)" "tokenP \<noteq> tsP"
  shows "verifySignature now (Some (p2, hdr(tsP := CHR ''0'' # hdr tsP))) path key tokenP tsP ttl = None"
proof -
  have z: "is_digit (CHR ''0'')" "byte (CHR ''0'') = 48" by (simp_all add: is_digit_def byte_def)
  have n: "hdr tsP \<noteq> []" using assms(1) by (auto simp: verifySignature_def Let_def)
  have "hd (hdr tsP) \<noteq> CHR ''-'' \<and> hd (hdr tsP) \<noteq> CHR ''+''"
    using n assms(2) by (cases "hdr tsP") (auto dest: digit_not_sign)
  moreover have "dec_value (CHR ''0'' # hdr tsP) = dec_value (hdr tsP)" by (simp add: dec_value_def z(2))
  ultimately have "parse_int64 (CHR ''0'' # hdr tsP) = parse_int64 (hdr tsP)"
    using n assms(2) by (simp add: parse_int64_def Let_def z(1))
  moreover have "calculateSignature key path (CHR ''0'' # hdr tsP) = calculateSignature key (path @ ''0'') (hdr tsP)"
    by (simp add: calculateSignature_def)
  ultimately show ?thesis
    using assms(1,3) by (simp add: verifySignature_def Let_def split: if_splits option.splits)
qed

theorem zero_moves_witness:
  "verifySignature 1000 (Some ([], (signed ''/webapi/a0'' ''900'')(''t'' := ''0900''))) ''/webapi/a'' ''k2'' ''sign'' ''t'' 600 = None"
proof -
  have w: "wrap64 400 = 400" "wrap64 1300 = 1300" by (simp_all add: wrap64_id)
  have "verifySignature 1000 (Some ([], signed ''/webapi/a0'' ''900'')) (''/webapi/a'' @ ''0'') ''k2'' ''sign'' ''t'' 600 = None"
    by (simp add: verifySignature_def signed_def parse_int64_def dec_value_def is_digit_def byte_def w)
  from zero_moves [OF this, of "[]"] show ?thesis by (simp add: signed_def is_digit_def byte_def)
qed

end
