(* ===== verification/LogWriter.thy ===== *)
theory LogWriter
  imports Prelude "HOL-Library.Sublist"
begin

text \<open>
  The writers behind the logger (pkg/log/logger.go): the buffered writer guarded by a mutex, and the
  asynchronous writer, whose callers copy each line into a pooled buffer and send it over a channel to one
  goroutine. Buffers are addresses into a store, because the safety of the pool is a matter of who may still
  touch a buffer.
\<close>

section \<open>The buffered writer of the standard library (bufio.Writer)\<close>

text \<open>
  A fault function says whether the file accepts a chunk: \<^verbatim>\<open>None\<close> if it does, \<^verbatim>\<open>Some n\<close> if it fails after
  \<^verbatim>\<open>n\<close> bytes. A writer that has failed once stays failed.
\<close>

type_synonym sink_fault = "string \<Rightarrow> string \<Rightarrow> nat option"

record bufw =
  bw_size :: nat
  bw_buf :: string
  bw_out :: string
  bw_err :: bool

definition NewWriterSize :: "nat \<Rightarrow> bufw" where
  "NewWriterSize n = \<lparr>bw_size = (if n = 0 then 4096 else n), bw_buf = [], bw_out = [], bw_err = False\<rparr>"

definition sink_write :: "sink_fault \<Rightarrow> string \<Rightarrow> bufw \<Rightarrow> nat \<times> bufw" where
  "sink_write fl p b =
    (case fl (bw_out b) p of
       None \<Rightarrow> (length p, b\<lparr>bw_out := bw_out b @ p\<rparr>)
     | Some n \<Rightarrow> (min n (length p), b\<lparr>bw_out := bw_out b @ take n p, bw_err := True\<rparr>))"

definition bw_flush :: "sink_fault \<Rightarrow> bufw \<Rightarrow> bufw" where
  "bw_flush fl b =
    (if bw_err b \<or> bw_buf b = [] then b
     else let (n, b1) = sink_write fl (bw_buf b) b in b1\<lparr>bw_buf := drop n (bw_buf b)\<rparr>)"

abbreviation room :: "bufw \<Rightarrow> nat" where "room b \<equiv> bw_size b - length (bw_buf b)"

function bw_write :: "sink_fault \<Rightarrow> string \<Rightarrow> nat \<Rightarrow> bufw \<Rightarrow> nat \<times> bufw" where
  "bw_write fl p nn b =
    (if bw_err b then (nn, b)
     else if length p \<le> room b then (nn + length p, b\<lparr>bw_buf := bw_buf b @ p\<rparr>)
     else if bw_buf b = [] then
       let (n, b1) = sink_write fl p b in bw_write fl (drop n p) (nn + n) b1
     else
       let n = room b in
       bw_write fl (drop n p) (nn + n) (bw_flush fl (b\<lparr>bw_buf := bw_buf b @ take n p\<rparr>)))"
  by pat_completeness auto

termination
  by (relation "measures [\<lambda>(fl, p, nn, b). if bw_err b then 0 else 1, \<lambda>(fl, p, nn, b). length p,
      \<lambda>(fl, p, nn, b). length (bw_buf b)]")
    (auto simp: sink_write_def bw_flush_def Let_def split: option.splits if_splits)

declare bw_write.simps [simp del]

text \<open>What the writer owes for the bytes \<^verbatim>\<open>d\<close> it was given: without a failure the file and the buffer hold
  exactly these; with one, the file holds a beginning of them.\<close>

definition accounted :: "bufw \<Rightarrow> string \<Rightarrow> bool" where
  "accounted b d \<longleftrightarrow> prefix (bw_out b) d \<and> (\<not> bw_err b \<longrightarrow> bw_out b @ bw_buf b = d)"

lemma accounted_start [simp]: "accounted (NewWriterSize n) []"
  by (simp add: accounted_def NewWriterSize_def)

lemma accounted_ext: "bw_err b \<Longrightarrow> accounted b d \<Longrightarrow> accounted b (d @ p)"
  by (auto simp: accounted_def)

lemma accounted_sink:
  assumes "accounted b d" "\<not> bw_err b" "bw_buf b = []" "sink_write fl p b = (n, b1)"
  shows "accounted b1 (d @ take n p)" "n \<le> length p" "\<not> bw_err b1 \<Longrightarrow> n = length p" "bw_buf b1 = []"
    "prefix (bw_out b1) (d @ p)"
  using assms by (auto simp: accounted_def sink_write_def take_is_prefix min_def split: option.splits if_splits)

lemma accounted_flush:
  assumes "accounted b d"
  shows "accounted (bw_flush fl b) d" "\<not> bw_err (bw_flush fl b) \<Longrightarrow> bw_buf (bw_flush fl b) = []"
  using assms
  by (auto simp: accounted_def bw_flush_def sink_write_def take_is_prefix split: option.splits)

lemma bw_flush_err: "\<not> bw_err (bw_flush fl b) \<Longrightarrow> \<not> bw_err b"
  by (auto simp: bw_flush_def)

lemma bw_write_accounted:
  assumes "accounted b d" "bw_write fl p nn b = (m, b')"
  shows "accounted b' (d @ p) \<and> (\<not> bw_err b' \<longrightarrow> m = nn + length p)"
  using assms
proof (induction fl p nn b arbitrary: d rule: bw_write.induct)
  case (1 fl p nn b)
  consider "bw_err b" | "\<not> bw_err b" "length p \<le> room b"
    | "\<not> bw_err b" "\<not> length p \<le> room b" "bw_buf b = []"
    | "\<not> bw_err b" "\<not> length p \<le> room b" "bw_buf b \<noteq> []" by blast
  then show ?case
  proof cases
    case 1
    with "1.prems" show ?thesis by (auto simp: bw_write.simps [of fl p nn b] intro: accounted_ext)
  next
    case 2
    with "1.prems" show ?thesis by (auto simp: bw_write.simps [of fl p nn b] accounted_def)
  next
    case 3
    obtain n b1 where s: "sink_write fl p b = (n, b1)" by fastforce
    note a = accounted_sink[OF "1.prems"(1) 3(1,3) s]
    from 3 "1.prems"(2) s have w: "bw_write fl (drop n p) (nn + n) b1 = (m, b')"
      by (simp add: bw_write.simps [of fl p nn b] Let_def)
    from "1.IH"(1)[OF 3 s[symmetric] refl a(1) w] a(2) show ?thesis by auto
  next
    case 4
    let ?n = "room b" let ?b = "bw_flush fl (b\<lparr>bw_buf := bw_buf b @ take ?n p\<rparr>)"
    from 4 "1.prems"(2) have w: "bw_write fl (drop ?n p) (nn + ?n) ?b = (m, b')"
      by (simp add: bw_write.simps [of fl p nn b] Let_def)
    have "accounted (b\<lparr>bw_buf := bw_buf b @ take ?n p\<rparr>) (d @ take ?n p)"
      using "1.prems"(1) 4(1) by (auto simp: accounted_def)
    from "1.IH"(2)[OF 4 refl accounted_flush(1)[OF this] w] 4(2) show ?thesis by auto
  qed
qed

section \<open>The buffered writer with a mutex (bufferedWriteSyncer)\<close>

definition NewBufferedWriteSyncer :: "nat \<Rightarrow> bufw" where
  "NewBufferedWriteSyncer n = NewWriterSize n"

definition bws_Write :: "sink_fault \<Rightarrow> string \<Rightarrow> bufw \<Rightarrow> (nat \<times> bool) \<times> bufw" where
  "bws_Write fl p b = (let (n, b1) = bw_write fl p 0 b in ((n, bw_err b1), b1))"

definition bws_Sync :: "sink_fault \<Rightarrow> bufw \<Rightarrow> bool \<times> bufw" where
  "bws_Sync fl b = (let b1 = bw_flush fl b in (bw_err b1, b1))"

text \<open>Lines written one after the other (the mutex makes each write one step), then a flush.\<close>

definition bws_Writes :: "sink_fault \<Rightarrow> string list \<Rightarrow> bufw \<Rightarrow> bufw" where
  "bws_Writes fl ps b = foldl (\<lambda>b p. snd (bws_Write fl p b)) b ps"

lemma bws_Writes_accounted: "accounted b d \<Longrightarrow> accounted (bws_Writes fl ps b) (d @ concat ps)"
proof (induction ps arbitrary: b d)
  case (Cons p ps)
  obtain n b1 where w: "bw_write fl p 0 b = (n, b1)" by fastforce
  from Cons.IH[OF bw_write_accounted[OF Cons.prems w, THEN conjunct1]]
  show ?case by (simp add: bws_Writes_def bws_Write_def w)
qed (simp add: bws_Writes_def)

lemma synced_lines_are_in_the_file:
  assumes "bws_Sync fl (bws_Writes fl ps (NewBufferedWriteSyncer n)) = (False, b)"
  shows "bw_out b = concat ps"
proof -
  have a: "accounted (bws_Writes fl ps (NewBufferedWriteSyncer n)) (concat ps)"
    using bws_Writes_accounted[OF accounted_start] by (simp add: NewBufferedWriteSyncer_def)
  from assms have "b = bw_flush fl (bws_Writes fl ps (NewBufferedWriteSyncer n))" "\<not> bw_err b"
    by (auto simp: bws_Sync_def Let_def)
  with accounted_flush[OF a, of fl] show ?thesis by (simp add: accounted_def)
qed

section \<open>The asynchronous writer (asyncWriteSyncer)\<close>

text \<open>
  A caller of \<^verbatim>\<open>Write\<close> holds its argument, then a buffer from the pool, then the filled buffer that it
  sends; the drain goroutine holds the buffer it received, and puts it back once it is written.
\<close>

datatype wpc = WIdle | WCall string | WGot string nat | WReady string nat

datatype dpc = DIdle | DGot nat | DWrote nat | DExit

record aws =
  aw_mem :: "nat \<Rightarrow> string"
  aw_cap :: "nat \<Rightarrow> nat"
  aw_next :: nat
  aw_pool :: "nat set"
  aw_ch :: "nat list"
  aw_closed :: bool
  aw_bufW :: bufw
  aw_drain :: dpc
  aw_callers :: "nat \<Rightarrow> wpc"
  aw_panic :: bool

definition chan_size :: nat where "chan_size = 4096"

definition NewAsyncWriteSyncer :: "nat \<Rightarrow> aws" where
  "NewAsyncWriteSyncer n =
    \<lparr>aw_mem = (\<lambda>a. []), aw_cap = (\<lambda>a. 0), aw_next = 0, aw_pool = {}, aw_ch = [], aw_closed = False,
     aw_bufW = NewWriterSize n, aw_drain = DIdle, aw_callers = (\<lambda>w. WIdle), aw_panic = False\<rparr>"

text \<open>
  The steps. \<^verbatim>\<open>Get\<close> of a \<^verbatim>\<open>sync.Pool\<close> returns any pooled buffer or a new one, and the pool may drop
  buffers at any time; \<^verbatim>\<open>append(buf[:0], p...)\<close> moves to a new array when the capacity is too small.
\<close>

datatype aw_ev = EWrite nat string | EGet nat nat | ECopy nat | ESend nat string | ESendClosed nat | ERecv | EDWrite | EDPut | EDExit
  | EClose | EDrop nat

definition aw_new :: "nat \<Rightarrow> aws \<Rightarrow> nat \<times> aws" where
  "aw_new c s = (aw_next s, s\<lparr>aw_next := aw_next s + 1, aw_cap := (aw_cap s)(aw_next s := c),
      aw_mem := (aw_mem s)(aw_next s := [])\<rparr>)"

definition aw_set :: "nat \<Rightarrow> wpc \<Rightarrow> aws \<Rightarrow> aws" where
  "aw_set w pc s = s\<lparr>aw_callers := (aw_callers s)(w := pc)\<rparr>"

definition aw_get :: "nat \<Rightarrow> nat \<Rightarrow> aws \<Rightarrow> aws option" where
  "aw_get w a s =
    (case aw_callers s w of
       WCall p \<Rightarrow>
        (if a \<in> aw_pool s then Some (aw_set w (WGot p a) (s\<lparr>aw_pool := aw_pool s - {a}\<rparr>))
         else if a = aw_next s then Some (aw_set w (WGot p a) (snd (aw_new 4096 s)))
         else None)
     | _ \<Rightarrow> None)"

definition aw_copy :: "nat \<Rightarrow> aws \<Rightarrow> aws option" where
  "aw_copy w s =
    (case aw_callers s w of
       WGot p a \<Rightarrow>
        (let (a1, s1) = (if length p \<le> aw_cap s a then (a, s) else aw_new (length p) s) in
         Some (aw_set w (WReady p a1) (s1\<lparr>aw_mem := (aw_mem s1)(a1 := p)\<rparr>)))
     | _ \<Rightarrow> None)"

definition aw_send :: "nat \<Rightarrow> string \<Rightarrow> aws \<Rightarrow> aws option" where
  "aw_send w q s =
    (case aw_callers s w of
       WReady p a \<Rightarrow>
        (if p \<noteq> q then None
         else if \<not> aw_closed s \<and> length (aw_ch s) < chan_size then Some (aw_set w WIdle (s\<lparr>aw_ch := aw_ch s @ [a]\<rparr>))
         else None)
     | _ \<Rightarrow> None)"

text \<open>A send on the closed channel panics.\<close>

definition aw_send_closed :: "nat \<Rightarrow> aws \<Rightarrow> aws option" where
  "aw_send_closed w s =
    (case aw_callers s w of
       WReady p a \<Rightarrow> (if aw_closed s then Some (s\<lparr>aw_panic := True\<rparr>) else None)
     | _ \<Rightarrow> None)"

definition drain_recv :: "aws \<Rightarrow> aws option" where
  "drain_recv s =
    (case (aw_drain s, aw_ch s) of
       (DIdle, a # q) \<Rightarrow> Some (s\<lparr>aw_ch := q, aw_drain := DGot a\<rparr>)
     | _ \<Rightarrow> None)"

definition drain_write :: "sink_fault \<Rightarrow> aws \<Rightarrow> aws option" where
  "drain_write fl s =
    (case aw_drain s of
       DGot a \<Rightarrow> Some (s\<lparr>aw_bufW := snd (bw_write fl (aw_mem s a) 0 (aw_bufW s)), aw_drain := DWrote a\<rparr>)
     | _ \<Rightarrow> None)"

definition drain_put :: "aws \<Rightarrow> aws option" where
  "drain_put s =
    (case aw_drain s of
       DWrote a \<Rightarrow> Some (s\<lparr>aw_pool := insert a (aw_pool s), aw_drain := DIdle\<rparr>)
     | _ \<Rightarrow> None)"

definition drain_exit :: "sink_fault \<Rightarrow> aws \<Rightarrow> aws option" where
  "drain_exit fl s =
    (if aw_drain s = DIdle \<and> aw_closed s \<and> aw_ch s = []
     then Some (s\<lparr>aw_bufW := bw_flush fl (aw_bufW s), aw_drain := DExit\<rparr>) else None)"

definition aw_Close :: "aws \<Rightarrow> aws" where
  "aw_Close s = (if aw_closed s then s\<lparr>aw_panic := True\<rparr> else s\<lparr>aw_closed := True\<rparr>)"

definition aw_Sync :: "aws \<Rightarrow> err option \<times> aws" where "aw_Sync s = (None, s)"

definition aw_step :: "sink_fault \<Rightarrow> aw_ev \<Rightarrow> aws \<Rightarrow> aws option" where
  "aw_step fl e s =
    (if aw_panic s then None
     else case e of
       EWrite w p \<Rightarrow> (if aw_callers s w = WIdle then Some (aw_set w (WCall p) s) else None)
     | EGet w a \<Rightarrow> aw_get w a s
     | ECopy w \<Rightarrow> aw_copy w s
     | ESend w p \<Rightarrow> aw_send w p s
     | ESendClosed w \<Rightarrow> aw_send_closed w s
     | ERecv \<Rightarrow> drain_recv s
     | EDWrite \<Rightarrow> drain_write fl s
     | EDPut \<Rightarrow> drain_put s
     | EDExit \<Rightarrow> drain_exit fl s
     | EClose \<Rightarrow> Some (aw_Close s)
     | EDrop a \<Rightarrow> Some (s\<lparr>aw_pool := aw_pool s - {a}\<rparr>))"

inductive aw_run :: "sink_fault \<Rightarrow> aws \<Rightarrow> aw_ev list \<Rightarrow> aws \<Rightarrow> bool" for fl s0 where
  aw_start: "aw_run fl s0 [] s0"
| aw_more: "aw_run fl s0 es s \<Longrightarrow> aw_step fl e s = Some s' \<Longrightarrow> aw_run fl s0 (es @ [e]) s'"

inductive_cases aw_runE: "aw_run fl s0 es s"

text \<open>The lines sent, in order: what the writer has promised by returning from \<^verbatim>\<open>Write\<close>.\<close>

fun sent_line :: "aw_ev \<Rightarrow> string list" where
  "sent_line (ESend w p) = [p]"
| "sent_line e = []"

definition sent_lines :: "aw_ev list \<Rightarrow> string list" where
  "sent_lines es = concat (map sent_line es)"

lemma sent_lines_snoc [simp]: "sent_lines [] = []" "sent_lines (es @ fs) = sent_lines es @ sent_lines fs"
  "sent_lines [e] = sent_line e"
  by (simp_all add: sent_lines_def)

section \<open>Who holds a buffer\<close>

fun held_by :: "wpc \<Rightarrow> nat set" where
  "held_by (WGot p a) = {a}"
| "held_by (WReady p a) = {a}"
| "held_by pc = {}"

fun drain_holds :: "dpc \<Rightarrow> nat list" where
  "drain_holds (DGot a) = [a]"
| "drain_holds (DWrote a) = [a]"
| "drain_holds pc = []"

fun unwritten :: "dpc \<Rightarrow> nat list" where
  "unwritten (DGot a) = [a]"
| "unwritten pc = []"

text \<open>
  A buffer is in at most one place: the pool, the hands of one caller, the channel or the hands of the
  drain goroutine.
\<close>

definition own :: "nat list \<Rightarrow> nat set \<Rightarrow> (nat \<Rightarrow> nat set) \<Rightarrow> nat \<Rightarrow> bool" where
  "own q P H n \<longleftrightarrow>
    distinct q \<and> (\<forall>a \<in> set q. a < n \<and> a \<notin> P) \<and> (\<forall>a \<in> P. a < n) \<and>
    (\<forall>w. \<forall>a \<in> H w. a < n \<and> a \<notin> P \<and> a \<notin> set q \<and> (\<forall>w'. a \<in> H w' \<longrightarrow> w' = w))"

lemma own_take: "own q P H n \<Longrightarrow> a \<in> P \<Longrightarrow> own q (P - {a}) (H(w := {a})) n"
  and own_new: "own q P H n \<Longrightarrow> own q P (H(w := {n})) (Suc n)"
  and own_drop: "own q P H n \<Longrightarrow> own q P (H(w := {})) n"
  and own_put: "own (a # q) P H n \<Longrightarrow> own q (insert a P) H n"
  and own_lose: "own q P H n \<Longrightarrow> own q (P - A) H n"
  by (auto simp: own_def less_Suc_eq)

lemma own_send:
  assumes "own q P H n" "H w = {a}"
  shows "own (q @ [a]) P (H(w := {})) n"
proof -
  from assms have a: "a < n" "a \<notin> P" "a \<notin> set q" unfolding own_def by blast+
  have "w' = w" if "a \<in> H w'" for w' using assms that unfolding own_def by blast
  with a assms(1) show ?thesis unfolding own_def by (simp, blast)
qed

abbreviation holders :: "aws \<Rightarrow> nat \<Rightarrow> nat set" where "holders s \<equiv> held_by \<circ> aw_callers s"

definition owned :: "aws \<Rightarrow> bool" where
  "owned s \<longleftrightarrow> own (drain_holds (aw_drain s) @ aw_ch s) (aw_pool s) (holders s) (aw_next s)"

definition filled :: "aws \<Rightarrow> bool" where
  "filled s \<longleftrightarrow> (\<forall>w p a. aw_callers s w = WReady p a \<longrightarrow> aw_mem s a = p)"

definition inflight :: "aws \<Rightarrow> string list" where
  "inflight s = map (aw_mem s) (unwritten (aw_drain s) @ aw_ch s)"

definition aw_account :: "string \<Rightarrow> aws \<Rightarrow> bool" where
  "aw_account d s \<longleftrightarrow> (\<exists>e. d = e @ concat (inflight s) \<and> accounted (aw_bufW s) e)"

definition drained :: "aws \<Rightarrow> bool" where
  "drained s \<longleftrightarrow> (aw_drain s = DExit \<longrightarrow> aw_closed s \<and> aw_ch s = [] \<and> (\<not> bw_err (aw_bufW s) \<longrightarrow> bw_buf (aw_bufW s) = []))"

lemma aw_set_simps [simp]:
  "aw_mem (aw_set w pc s) = aw_mem s" "aw_cap (aw_set w pc s) = aw_cap s" "aw_next (aw_set w pc s) = aw_next s"
  "aw_pool (aw_set w pc s) = aw_pool s" "aw_ch (aw_set w pc s) = aw_ch s" "aw_closed (aw_set w pc s) = aw_closed s"
  "aw_bufW (aw_set w pc s) = aw_bufW s" "aw_drain (aw_set w pc s) = aw_drain s"
  "aw_callers (aw_set w pc s) = (aw_callers s)(w := pc)" "aw_panic (aw_set w pc s) = aw_panic s"
  by (simp_all add: aw_set_def)

lemmas caller_ops = aw_get_def aw_copy_def aw_send_def aw_send_closed_def aw_new_def aw_Close_def
lemmas drain_ops = drain_recv_def drain_write_def drain_put_def drain_exit_def

lemma step_owned:
  assumes "owned s" "aw_step fl e s = Some s'"
  shows "owned s'"
proof (cases e)
  case (EWrite w p)
  with assms show ?thesis by (auto simp: aw_step_def owned_def fun_upd_comp intro: own_drop split: if_splits)
next
  case (EGet w a)
  with assms show ?thesis
    by (auto simp: aw_step_def owned_def caller_ops fun_upd_comp intro: own_take own_new split: if_splits wpc.splits)
next
  case (ECopy w)
  then obtain p a where c: "aw_callers s w = WGot p a" using assms(2)
    by (auto simp: aw_step_def caller_ops split: if_splits wpc.splits)
  then have h: "(holders s)(w := {a}) = holders s" by (auto simp: fun_eq_iff)
  show ?thesis
  proof (cases "length p \<le> aw_cap s a")
    case True
    with assms ECopy c h show ?thesis by (auto simp: aw_step_def owned_def caller_ops fun_upd_comp split: if_splits)
  next
    case False
    with assms ECopy c show ?thesis
      by (auto simp: aw_step_def owned_def caller_ops fun_upd_comp intro: own_new split: if_splits)
  qed
next
  case (ESend w p)
  with assms show ?thesis
    using own_send [of "drain_holds (aw_drain s) @ aw_ch s" "aw_pool s" "holders s" "aw_next s" w]
    by (auto simp: aw_step_def owned_def caller_ops fun_upd_comp split: if_splits wpc.splits)
qed (use assms in \<open>auto simp: aw_step_def owned_def caller_ops drain_ops own_put own_lose
      split: if_splits wpc.splits dpc.splits list.splits\<close>)

text \<open>No caller writes into a buffer that is on its way to the file.\<close>

lemma ownedD:
  assumes "owned s"
  shows "a \<in> held_by (aw_callers s w) \<Longrightarrow> a < aw_next s \<and> a \<notin> set (unwritten (aw_drain s) @ aw_ch s)"
    "a \<in> set (unwritten (aw_drain s) @ aw_ch s) \<Longrightarrow> a < aw_next s"
    "a \<in> aw_pool s \<Longrightarrow> a < aw_next s"
    "a \<in> aw_pool s \<Longrightarrow> a \<notin> held_by (aw_callers s w)"
    "a \<in> held_by (aw_callers s w) \<Longrightarrow> a \<in> held_by (aw_callers s w') \<Longrightarrow> w = w'"
proof -
  have u: "set (unwritten (aw_drain s)) \<subseteq> set (drain_holds (aw_drain s))" by (cases "aw_drain s") auto
  from assms have o: "own (drain_holds (aw_drain s) @ aw_ch s) (aw_pool s) (holders s) (aw_next s)"
    by (simp add: owned_def)
  show "a \<in> held_by (aw_callers s w) \<Longrightarrow> a < aw_next s \<and> a \<notin> set (unwritten (aw_drain s) @ aw_ch s)"
    using o u unfolding own_def comp_apply set_append by blast
  show "a \<in> set (unwritten (aw_drain s) @ aw_ch s) \<Longrightarrow> a < aw_next s"
    using o u unfolding own_def comp_apply set_append by blast
  show "a \<in> aw_pool s \<Longrightarrow> a < aw_next s" "a \<in> aw_pool s \<Longrightarrow> a \<notin> held_by (aw_callers s w)"
    "a \<in> held_by (aw_callers s w) \<Longrightarrow> a \<in> held_by (aw_callers s w') \<Longrightarrow> w = w'"
    using o unfolding own_def comp_apply set_append by blast+
qed

lemma not_next: "owned s \<Longrightarrow> aw_next s \<notin> set (unwritten (aw_drain s) @ aw_ch s)"
  "owned s \<Longrightarrow> aw_next s \<notin> held_by (aw_callers s w)"
  using ownedD(1,2) less_irrefl by metis+

lemma step_filled:
  assumes "owned s" "filled s" "aw_step fl e s = Some s'"
  shows "filled s'"
proof -
  have h: "a \<noteq> aw_next s" if "aw_callers s w = WReady p a" for w p a
    using not_next(2) [OF assms(1), of w] that by auto
  have d: "a \<noteq> b" if "aw_callers s w = WReady p a" "aw_callers s w' = WGot q b" for w w' p q a b
    using ownedD(5) [OF assms(1), of a w w'] that by auto
  show ?thesis
    using assms(2,3) h d
    by (cases e) (auto simp: aw_step_def filled_def caller_ops drain_ops split: if_splits wpc.splits dpc.splits list.splits)
qed

lemma inflight_cong:
  "aw_drain s' = aw_drain s \<Longrightarrow> aw_ch s' = aw_ch s \<Longrightarrow>
    (\<And>a. a \<in> set (unwritten (aw_drain s) @ aw_ch s) \<Longrightarrow> aw_mem s' a = aw_mem s a) \<Longrightarrow> inflight s' = inflight s"
  by (simp add: inflight_def)

lemma account_cong: "aw_account d s \<Longrightarrow> inflight s' = inflight s \<Longrightarrow> aw_bufW s' = aw_bufW s \<Longrightarrow> aw_account d s'"
  by (simp add: aw_account_def)

lemma step_account:
  assumes "owned s" "filled s" "aw_account d s" "aw_step fl e s = Some s'"
  shows "aw_account (d @ concat (sent_line e)) s'"
proof (cases e)
  case (EGet w a)
  with assms not_next(1) [OF assms(1)] show ?thesis
    by (auto simp: aw_step_def caller_ops intro!: inflight_cong elim!: account_cong split: if_splits wpc.splits)
next
  case (ECopy w)
  with assms(4) obtain p a where c: "aw_callers s w = WGot p a"
    by (auto simp: aw_step_def caller_ops split: if_splits wpc.splits)
  with ownedD(1) [OF assms(1), of a w] not_next(1) [OF assms(1)] assms(3,4) ECopy show ?thesis
    by (auto simp: aw_step_def caller_ops intro!: inflight_cong elim!: account_cong split: if_splits)
next
  case (ESend w p)
  with assms show ?thesis
    by (auto simp: aw_step_def caller_ops aw_account_def inflight_def filled_def split: if_splits wpc.splits)
next
  case ERecv
  with assms show ?thesis
    by (auto simp: aw_step_def drain_ops aw_account_def inflight_def split: if_splits dpc.splits list.splits)
next
  case EDWrite
  with assms(4) obtain a where a: "aw_drain s = DGot a"
    "s' = s\<lparr>aw_bufW := snd (bw_write fl (aw_mem s a) 0 (aw_bufW s)), aw_drain := DWrote a\<rparr>"
    by (auto simp: aw_step_def drain_ops split: if_splits dpc.splits)
  from assms(3) obtain e1 where e1: "d = e1 @ concat (inflight s)" "accounted (aw_bufW s) e1"
    by (auto simp: aw_account_def)
  obtain m b where "bw_write fl (aw_mem s a) 0 (aw_bufW s) = (m, b)" by fastforce
  with bw_write_accounted [OF e1(2) this] e1(1) a EDWrite show ?thesis
    by (auto simp: aw_account_def inflight_def)
next
  case EDPut
  with assms show ?thesis
    by (auto simp: aw_step_def drain_ops aw_account_def inflight_def split: if_splits dpc.splits)
next
  case EDExit
  with assms show ?thesis
    by (auto simp: aw_step_def drain_ops aw_account_def inflight_def accounted_flush split: if_splits)
qed (use assms in \<open>auto simp: aw_step_def caller_ops aw_account_def inflight_def split: if_splits wpc.splits\<close>)

lemma step_drained:
  assumes "drained s" "aw_step fl e s = Some s'"
  shows "drained s'"
proof (cases e)
  case EDExit
  with assms show ?thesis
    by (auto simp: aw_step_def drain_ops drained_def bw_flush_def sink_write_def split: if_splits option.splits)
qed (use assms in \<open>auto simp: aw_step_def caller_ops drain_ops drained_def
      split: if_splits wpc.splits dpc.splits list.splits\<close>)

definition aw_ok :: "string \<Rightarrow> aws \<Rightarrow> bool" where
  "aw_ok d s \<longleftrightarrow> owned s \<and> filled s \<and> aw_account d s \<and> drained s"

lemma start_ok: "aw_ok [] (NewAsyncWriteSyncer n)"
  by (auto simp: aw_ok_def owned_def own_def filled_def aw_account_def inflight_def drained_def NewAsyncWriteSyncer_def)

lemma step_ok [invs]: "aw_ok d s \<Longrightarrow> aw_step fl e s = Some s' \<Longrightarrow> aw_ok (d @ concat (sent_line e)) s'"
  unfolding aw_ok_def by (blast intro: step_owned step_filled step_account step_drained)

lemma run_ok: "aw_run fl (NewAsyncWriteSyncer n) es s \<Longrightarrow> aw_ok (concat (sent_lines es)) s"
  by (induction rule: aw_run.induct) (auto simp: start_ok dest: step_ok)

text \<open>Whatever fails, the file holds a beginning of the lines sent.\<close>

lemma file_is_a_beginning:
  assumes "aw_run fl (NewAsyncWriteSyncer n) es s"
  shows "prefix (bw_out (aw_bufW s)) (concat (sent_lines es))"
  using run_ok [OF assms] by (auto simp: aw_ok_def aw_account_def accounted_def prefix_def)

lemma file_is_everything:
  assumes "aw_run fl (NewAsyncWriteSyncer n) es s" "aw_drain s = DExit" "\<not> bw_err (aw_bufW s)"
  shows "bw_out (aw_bufW s) = concat (sent_lines es)"
  using run_ok [OF assms(1)] assms(2,3)
  by (auto simp: aw_ok_def aw_account_def accounted_def drained_def inflight_def)

section \<open>Close returns\<close>

text \<open>What the drain goroutine still has to do once the channel is closed.\<close>

definition finish_current :: "dpc \<Rightarrow> aw_ev list" where
  "finish_current pc = (case pc of DGot a \<Rightarrow> [EDWrite, EDPut] | DWrote a \<Rightarrow> [EDPut] | _ \<Rightarrow> [])"

definition finish :: "aws \<Rightarrow> aw_ev list" where
  "finish s = finish_current (aw_drain s) @ concat (replicate (length (aw_ch s)) [ERecv, EDWrite, EDPut]) @ [EDExit]"

lemma sent_finish [simp]: "sent_lines (finish s) = []"
proof -
  have "sent_lines (concat (replicate n [ERecv, EDWrite, EDPut])) = []" for n
    by (induction n) (simp_all add: sent_lines_def)
  then show ?thesis by (auto simp: finish_def finish_current_def sent_lines_def split: dpc.splits)
qed

lemma run_idle_drain:
  "aw_run fl s0 es s \<Longrightarrow> aw_drain s = DIdle \<Longrightarrow> aw_closed s \<Longrightarrow> \<not> aw_panic s \<Longrightarrow>
    \<exists>s'. aw_run fl s0 (es @ finish s) s' \<and> aw_drain s' = DExit"
proof (induction "aw_ch s" arbitrary: s es)
  case Nil
  then have "aw_step fl EDExit s = Some (s\<lparr>aw_bufW := bw_flush fl (aw_bufW s), aw_drain := DExit\<rparr>)"
    by (simp add: aw_step_def drain_ops)
  with Nil show ?case by (fastforce simp: finish_def finish_current_def intro: aw_more)
next
  case (Cons a q)
  let ?s1 = "s\<lparr>aw_ch := q, aw_drain := DGot a\<rparr>"
  let ?s2 = "?s1\<lparr>aw_bufW := snd (bw_write fl (aw_mem s a) 0 (aw_bufW s)), aw_drain := DWrote a\<rparr>"
  let ?s3 = "?s2\<lparr>aw_pool := insert a (aw_pool s), aw_drain := DIdle\<rparr>"
  have st: "aw_step fl ERecv s = Some ?s1" "aw_step fl EDWrite ?s1 = Some ?s2" "aw_step fl EDPut ?s2 = Some ?s3"
    using Cons.prems Cons.hyps(2) [symmetric] by (simp_all add: aw_step_def drain_ops)
  have "aw_run fl s0 (es @ [ERecv, EDWrite, EDPut]) ?s3"
    using aw_more [OF aw_more [OF aw_more [OF Cons.prems(1) st(1)] st(2)] st(3)] by simp
  from Cons.hyps(1) [of ?s3, OF _ this] Cons.prems Cons.hyps(2) [symmetric]
  show ?case by (simp add: finish_def finish_current_def)
qed

lemma run_finish:
  assumes "aw_run fl s0 es s" "aw_drain s \<noteq> DExit" "aw_closed s" "\<not> aw_panic s"
  shows "\<exists>s'. aw_run fl s0 (es @ finish s) s' \<and> aw_drain s' = DExit"
proof (cases "aw_drain s")
  case DIdle
  with run_idle_drain assms show ?thesis by blast
next
  case (DGot a)
  let ?s2 = "s\<lparr>aw_bufW := snd (bw_write fl (aw_mem s a) 0 (aw_bufW s)), aw_drain := DWrote a\<rparr>"
  let ?s3 = "?s2\<lparr>aw_pool := insert a (aw_pool s), aw_drain := DIdle\<rparr>"
  have st: "aw_step fl EDWrite s = Some ?s2" "aw_step fl EDPut ?s2 = Some ?s3"
    using assms DGot by (simp_all add: aw_step_def drain_ops)
  from run_idle_drain [OF aw_more [OF aw_more [OF assms(1) st(1)] st(2)]] assms DGot
  show ?thesis by (simp add: finish_def finish_current_def)
next
  case (DWrote a)
  have st: "aw_step fl EDPut s = Some (s\<lparr>aw_pool := insert a (aw_pool s), aw_drain := DIdle\<rparr>)"
    using assms DWrote by (simp add: aw_step_def drain_ops)
  from run_idle_drain [OF aw_more [OF assms(1) st]] assms DWrote
  show ?thesis by (simp add: finish_def finish_current_def)
qed (use assms in auto)

lemma write_no_fault: "fl = (\<lambda>d p. None) \<Longrightarrow> \<not> bw_err b \<Longrightarrow> \<not> bw_err (snd (bw_write fl p nn b))"
proof (induction fl p nn b rule: bw_write.induct)
  case (1 fl p nn b)
  then show ?case
    by (subst bw_write.simps) (auto simp: Let_def sink_write_def bw_flush_def)
qed

lemma run_no_fault: "aw_run (\<lambda>d p. None) (NewAsyncWriteSyncer n) es s \<Longrightarrow> \<not> bw_err (aw_bufW s)"
proof (induction rule: aw_run.induct)
  case (aw_more es s e s')
  then show ?case
    by (cases e) (auto simp: aw_step_def caller_ops drain_ops write_no_fault bw_flush_def sink_write_def
        split: if_splits wpc.splits dpc.splits list.splits)
qed (simp add: NewAsyncWriteSyncer_def NewWriterSize_def)

text \<open>
  C39. However the callers of Write, the drain goroutine and the pool interleave, and whatever the file does,
  the buffers they share never mix up lines: once Close has closed the channel, and unless a Write or a
  second Close after it has panicked on the closed channel (which ends the process), the drain goroutine has
  finitely many steps left, after which Close returns and the file holds a beginning of the lines whose
  Write returned, in the order in which they were sent: all of them when the file never fails, while lines
  after a failed write of the file are lost, as the drain goroutine ignores its errors.
\<close>

theorem close_writes_all:
  assumes "aw_run fl (NewAsyncWriteSyncer n) es s" "aw_closed s" "\<not> aw_panic s" "aw_drain s \<noteq> DExit"
  shows "\<exists>s'. aw_run fl (NewAsyncWriteSyncer n) (es @ finish s) s' \<and> aw_drain s' = DExit \<and>
    prefix (bw_out (aw_bufW s')) (concat (sent_lines es)) \<and>
    (bw_err (aw_bufW s') \<or> bw_out (aw_bufW s') = concat (sent_lines es)) \<and>
    (fl = (\<lambda>d p. None) \<longrightarrow> bw_out (aw_bufW s') = concat (sent_lines es))"
proof -
  from run_finish [OF assms(1,4,2,3)] obtain s' where r:
    "aw_run fl (NewAsyncWriteSyncer n) (es @ finish s) s'" "aw_drain s' = DExit" by blast
  have "\<not> bw_err (aw_bufW s')" if "fl = (\<lambda>d p. None)" using run_no_fault [OF r(1) [unfolded that]] .
  with file_is_everything [OF r] file_is_a_beginning [OF r(1)] r show ?thesis by auto
qed

fun aw_exec :: "sink_fault \<Rightarrow> aw_ev list \<Rightarrow> aws \<Rightarrow> aws option" where
  "aw_exec fl [] s = Some s"
| "aw_exec fl (e # es) s = (case aw_step fl e s of None \<Rightarrow> None | Some s1 \<Rightarrow> aw_exec fl es s1)"

lemma exec_run: "aw_run fl s0 es s \<Longrightarrow> aw_exec fl fs s = Some s' \<Longrightarrow> aw_run fl s0 (es @ fs) s'"
proof (induction fs arbitrary: es s)
  case (Cons f fs)
  then obtain s1 where "aw_step fl f s = Some s1" "aw_exec fl fs s1 = Some s'" by (auto split: option.splits)
  with Cons.IH [OF aw_more [OF Cons.prems(1) this(1)]] show ?case by simp
qed simp

lemmas run_exec = exec_run [OF aw_start, simplified]

text \<open>Two callers share one pooled buffer, the second line is longer than it.\<close>

definition two_lines :: "aw_ev list" where
  "two_lines = [EWrite 0 ''ab'', EGet 0 0, EWrite 1 ''cd'', ECopy 0, ESend 0 ''ab'', ERecv, EDWrite, EDPut,
    EGet 1 0, ECopy 1, ESend 1 ''cd'', EClose]"

lemmas exec_simps = aw_step_def caller_ops drain_ops NewAsyncWriteSyncer_def NewWriterSize_def chan_size_def
  aw_set_def bw_write.simps

lemma two_lines_run:
  "\<exists>s. aw_exec (\<lambda>d p. None) two_lines (NewAsyncWriteSyncer 64) = Some s \<and> aw_closed s \<and> \<not> aw_panic s \<and> aw_drain s = DIdle"
  by (simp add: two_lines_def exec_simps)

lemma close_writes_all_witness:
  "\<exists>s'. aw_run (\<lambda>d p. None) (NewAsyncWriteSyncer 64)
      (two_lines @ [ERecv, EDWrite, EDPut, EDExit]) s' \<and> bw_out (aw_bufW s') = ''abcd''"
proof -
  define s where "s = the (aw_exec (\<lambda>d p. None) two_lines (NewAsyncWriteSyncer 64))"
  have e: "aw_exec (\<lambda>d p. None) two_lines (NewAsyncWriteSyncer 64) = Some s" "aw_closed s" "\<not> aw_panic s"
      "aw_drain s = DIdle" "aw_ch s = [0]"
    by (simp_all add: s_def two_lines_def exec_simps)
  have "finish s = [ERecv, EDWrite, EDPut, EDExit]"
    by (simp add: finish_def finish_current_def e)
  moreover have "concat (sent_lines two_lines) = ''abcd''"
    by (simp add: two_lines_def sent_lines_def)
  ultimately show ?thesis
    using close_writes_all [OF run_exec [OF e(1)] e(2,3)] e(4) by auto
qed

text \<open>
  Sync reports success without writing anything: a line whose Write has returned is not in the file when
  the process ends after a Sync, as it does after a fatal entry.
\<close>

lemma synced_line_lost:
  "\<exists>s. aw_run (\<lambda>d p. None) (NewAsyncWriteSyncer 64)
      [EWrite 0 ''x'', EGet 0 0, ECopy 0, ESend 0 ''x'', ERecv, EDWrite, EDPut] s \<and>
    aw_Sync s = (None, s) \<and> bw_out (aw_bufW s) = []"
proof -
  define s where "s = the (aw_exec (\<lambda>d p. None)
    [EWrite 0 ''x'', EGet 0 0, ECopy 0, ESend 0 ''x'', ERecv, EDWrite, EDPut] (NewAsyncWriteSyncer 64))"
  have "aw_exec (\<lambda>d p. None) [EWrite 0 ''x'', EGet 0 0, ECopy 0, ESend 0 ''x'', ERecv, EDWrite, EDPut]
      (NewAsyncWriteSyncer 64) = Some s" "bw_out (aw_bufW s) = []"
    by (simp_all add: s_def exec_simps)
  with run_exec [OF this(1)] show ?thesis by (blast intro: aw_Sync_def)
qed

end
