(* ===== verification/Log.thy ===== *)
theory Log
  imports Metadata
begin

text \<open>
  The logger (pkg/log): the fields that tie a log line to a trace and a user (context.go), the adapter that
  lets Kratos log through zap (kratos.go), the bridge of zap entries to OTLP log records (otel.go), the
  choice of the outputs of a new logger and the colouring of its lines (logger.go), and the small helpers
  of file.go, print.go and pkg/otelx.

  zap, OpenTelemetry and Kratos are outside the repository: a span context is the pair of its ids (zero when
  absent), their hexadecimal texts are parameters, and a zap field is the record that zap's constructors
  fill.
\<close>

section \<open>Fields of zap\<close>

datatype field_type = StringType | BoolType | Int64Type | Int32Type | Int16Type | Int8Type | Uint64Type
  | Uint32Type | Uint16Type | Uint8Type | UintptrType | Float64Type | Float32Type | DurationType | TimeType
  | StringerType | ErrorType | OtherType

text \<open>A value behind an interface: what it offers as a Stringer, as an error, and what fmt prints for it.\<close>

record iface =
  if_String :: "string option"
  if_Error :: "string option"
  if_print :: string

definition no_iface :: iface where
  "no_iface = \<lparr>if_String = None, if_Error = None, if_print = ''<nil>''\<rparr>"

record zfield =
  zf_Key :: string
  zf_Type :: field_type
  zf_Integer :: "64 word"
  zf_String :: string
  zf_Interface :: iface

definition zap_String :: "string \<Rightarrow> string \<Rightarrow> zfield" where
  "zap_String k v = \<lparr>zf_Key = k, zf_Type = StringType, zf_Integer = 0, zf_String = v, zf_Interface = no_iface\<rparr>"

definition zap_Uint64 :: "string \<Rightarrow> nat \<Rightarrow> zfield" where
  "zap_Uint64 k n = \<lparr>zf_Key = k, zf_Type = Uint64Type, zf_Integer = of_nat n, zf_String = [], zf_Interface = no_iface\<rparr>"

section \<open>Correlation fields (context.go)\<close>

definition FieldTraceID :: string where "FieldTraceID = ''trace_id''"
definition FieldSpanID :: string where "FieldSpanID = ''span_id''"
definition FieldUserID :: string where "FieldUserID = ''user_id''"
definition FieldRole :: string where "FieldRole = ''role''"

lemmas field_names = FieldTraceID_def FieldSpanID_def FieldUserID_def FieldRole_def

text \<open>The texts of trace and span ids, and their parsers, of the OpenTelemetry library.\<close>

record span_text =
  tid_text :: "128 word \<Rightarrow> string"
  tid_parse :: "string \<Rightarrow> 128 word option"
  sid_text :: "64 word \<Rightarrow> string"
  sid_parse :: "string \<Rightarrow> 64 word option"

record log_ctx =
  lc_md :: ctx
  lc_trace :: "128 word"
  lc_span :: "64 word"

definition correlationFields :: "span_text \<Rightarrow> log_ctx \<Rightarrow> zfield list" where
  "correlationFields X c =
    (if lc_trace c \<noteq> 0 then
       zap_String FieldTraceID (tid_text X (lc_trace c)) #
       (if lc_span c \<noteq> 0 then [zap_String FieldSpanID (sid_text X (lc_span c))] else [])
     else []) @
    (let md = GetRequestMetaData (lc_md c) in
     (if 0 < UserID (auth md) then [zap_Uint64 FieldUserID (UserID (auth md))] else []) @
     (if Role (auth md) \<noteq> [] then [zap_String FieldRole (Role (auth md))] else []))"

text \<open>
  A logger is the list of the fields added to it by \<^verbatim>\<open>With\<close>; the global one may be missing, and so may the
  context. \<^verbatim>\<open>Nop\<close> is the logger that drops everything.
\<close>

datatype zlogger = Nop | Zap "zfield list"

primrec zap_With :: "zlogger \<Rightarrow> zfield list \<Rightarrow> zlogger" where
  "zap_With Nop fs = Nop"
| "zap_With (Zap gs) fs = Zap (gs @ fs)"

definition WithContext :: "span_text \<Rightarrow> zlogger option \<Rightarrow> log_ctx option \<Rightarrow> zlogger option" where
  "WithContext X l c =
    (case (l, c) of
       (Some z, Some c) \<Rightarrow>
        (let fs = correlationFields X c in if fs = [] then l else Some (zap_With z fs))
     | _ \<Rightarrow> l)"

definition log_Ctx :: "span_text \<Rightarrow> zlogger option \<Rightarrow> log_ctx option \<Rightarrow> zlogger option" where
  "log_Ctx X global c =
    (let l = (case global of None \<Rightarrow> Some Nop | Some z \<Rightarrow> Some z) in
     case c of None \<Rightarrow> l | Some c \<Rightarrow> WithContext X l (Some c))"

text \<open>The global logger: reading it before it is set panics.\<close>

definition GetLogger :: "zlogger option \<Rightarrow> zlogger option" where
  "GetLogger global = global"

definition SetGlobalLogger :: "zlogger option \<Rightarrow> zlogger option \<Rightarrow> zlogger option" where
  "SetGlobalLogger l global = l"

definition SwapGlobalLogger :: "zlogger option \<Rightarrow> zlogger option \<Rightarrow> zlogger option \<times> zlogger option" where
  "SwapGlobalLogger l global = (global, l)"

section \<open>The Kratos adapter (kratos.go)\<close>

text \<open>A value of type any in a key-value list of Kratos.\<close>

datatype gany = ANil | AString string | AUint64 nat | AOther iface

primrec isEmptyValue :: "gany \<Rightarrow> bool" where
  "isEmptyValue ANil \<longleftrightarrow> True"
| "isEmptyValue (AString s) \<longleftrightarrow> s = []"
| "isEmptyValue (AUint64 n) \<longleftrightarrow> False"
| "isEmptyValue (AOther i) \<longleftrightarrow> False"

definition correlationKeys :: "string list" where
  "correlationKeys = [FieldTraceID, FieldSpanID, FieldUserID, FieldRole]"

definition traceIDValuer :: "span_text \<Rightarrow> log_ctx \<Rightarrow> gany" where
  "traceIDValuer X c = (if lc_trace c \<noteq> 0 then AString (tid_text X (lc_trace c)) else AString [])"

definition spanIDValuer :: "span_text \<Rightarrow> log_ctx \<Rightarrow> gany" where
  "spanIDValuer X c = (if lc_span c \<noteq> 0 then AString (sid_text X (lc_span c)) else AString [])"

definition userIDValuer :: "log_ctx \<Rightarrow> gany" where
  "userIDValuer c =
    (let md = GetRequestMetaData (lc_md c) in if 0 < UserID (auth md) then AUint64 (UserID (auth md)) else AString [])"

definition roleValuer :: "log_ctx \<Rightarrow> gany" where
  "roleValuer c =
    (let md = GetRequestMetaData (lc_md c) in if Role (auth md) \<noteq> [] then AString (Role (auth md)) else AString [])"

text \<open>What Kratos puts before the key-values of a call on \<^verbatim>\<open>GetKratosLogger()\<close> with a context: the
  prefix of \<^verbatim>\<open>With\<close>, its valuers applied.\<close>

definition GetKratosLogger :: "span_text \<Rightarrow> log_ctx \<Rightarrow> gany list" where
  "GetKratosLogger X c =
    [AString FieldTraceID, traceIDValuer X c, AString FieldSpanID, spanIDValuer X c,
     AString FieldUserID, userIDValuer c, AString FieldRole, roleValuer c]"

text \<open>Levels are integers in both libraries.\<close>

definition klog_Debug :: int where "klog_Debug = -1"
definition klog_Info :: int where "klog_Info = 0"
definition klog_Warn :: int where "klog_Warn = 1"
definition klog_Error :: int where "klog_Error = 2"
definition klog_Fatal :: int where "klog_Fatal = 3"

definition zap_Debug :: int where "zap_Debug = -1"
definition zap_Info :: int where "zap_Info = 0"
definition zap_Warn :: int where "zap_Warn = 1"
definition zap_Error :: int where "zap_Error = 2"
definition zap_Fatal :: int where "zap_Fatal = 5"

lemmas log_levels = klog_Debug_def klog_Info_def klog_Warn_def klog_Error_def klog_Fatal_def
  zap_Debug_def zap_Info_def zap_Warn_def zap_Error_def zap_Fatal_def

definition toZapLevel :: "int \<Rightarrow> int" where
  "toZapLevel level =
    (if level = klog_Debug then zap_Debug
     else if level = klog_Warn then zap_Warn
     else if level = klog_Error then zap_Error
     else if level = klog_Fatal then zap_Fatal
     else zap_Info)"

text \<open>\<^verbatim>\<open>zap.Any\<close>; \<^verbatim>\<open>other\<close> is what it makes of a value that is neither a string nor a uint64.\<close>

definition zap_Any :: "(string \<Rightarrow> gany \<Rightarrow> zfield) \<Rightarrow> string \<Rightarrow> gany \<Rightarrow> zfield" where
  "zap_Any other k v = (case v of AString s \<Rightarrow> zap_String k s | AUint64 n \<Rightarrow> zap_Uint64 k n | _ \<Rightarrow> other k v)"

definition DefaultMessageKey :: string where "DefaultMessageKey = ''msg''"

definition as_key :: "gany \<Rightarrow> string" where
  "as_key k = (case k of AString s \<Rightarrow> s | _ \<Rightarrow> [])"

fun keyval_loop :: "(string \<Rightarrow> gany \<Rightarrow> zfield) \<Rightarrow> gany list \<Rightarrow> string \<Rightarrow> zfield list \<Rightarrow> string \<times> zfield list" where
  "keyval_loop other (k # v # kvs) msg fs =
    (let key = as_key k in
     if key = DefaultMessageKey then keyval_loop other kvs (case v of AString s \<Rightarrow> s | _ \<Rightarrow> msg) fs
     else if key \<in> set correlationKeys \<and> isEmptyValue v then keyval_loop other kvs msg fs
     else keyval_loop other kvs msg (fs @ [zap_Any other key v]))"
| "keyval_loop other kvs msg fs = (msg, fs)"

text \<open>
  What a call writes: an entry (level, message, fs) if its level is enabled, and whether the process
  ends, as zap does after a fatal entry.
\<close>

record log_effect =
  le_entry :: "(int \<times> string \<times> zfield list) option"
  le_exit :: bool

definition zap_log :: "(int \<Rightarrow> bool) \<Rightarrow> int \<Rightarrow> string \<Rightarrow> zfield list \<Rightarrow> log_effect" where
  "zap_log enabled lvl msg fs =
    \<lparr>le_entry = (if enabled lvl then Some (lvl, msg, fs) else None), le_exit = (lvl = zap_Fatal)\<rparr>"

definition kratosLogger_Log ::
    "(int \<Rightarrow> bool) \<Rightarrow> (string \<Rightarrow> gany \<Rightarrow> zfield) \<Rightarrow> (gany list \<Rightarrow> string) \<Rightarrow> int \<Rightarrow> gany list \<Rightarrow> log_effect" where
  "kratosLogger_Log enabled other unpaired level keyvals =
    (if \<not> enabled (toZapLevel level) then \<lparr>le_entry = None, le_exit = False\<rparr>
     else if keyvals = [] \<or> odd (length keyvals) then zap_log enabled zap_Warn (unpaired keyvals) []
     else
       let (msg, fs) = keyval_loop other keyvals [] [] in
       if level = klog_Debug then zap_log enabled zap_Debug msg fs
       else if level = klog_Info then zap_log enabled zap_Info msg fs
       else if level = klog_Warn then zap_log enabled zap_Warn msg fs
       else if level = klog_Error then zap_log enabled zap_Error msg fs
       else if level = klog_Fatal then zap_log enabled zap_Fatal msg fs
       else zap_log enabled zap_Info msg fs)"

section \<open>The OTLP core (otel.go)\<close>

definition isTraceField :: "string \<Rightarrow> bool" where
  "isTraceField key \<longleftrightarrow> key \<in> {FieldTraceID, FieldSpanID, ''trace.id'', ''span.id''}"

primrec traceContext_loop :: "span_text \<Rightarrow> zfield list \<Rightarrow> 128 word \<times> 64 word \<Rightarrow> 128 word \<times> 64 word" where
  "traceContext_loop X [] ids = ids"
| "traceContext_loop X (f # fs) ids =
    traceContext_loop X fs
      (if zf_Type f \<noteq> StringType \<or> zf_String f = [] then ids
       else if zf_Key f = FieldTraceID \<or> zf_Key f = ''trace.id'' then
         (case tid_parse X (zf_String f) of Some t \<Rightarrow> (t, snd ids) | None \<Rightarrow> ids)
       else if zf_Key f = FieldSpanID \<or> zf_Key f = ''span.id'' then
         (case sid_parse X (zf_String f) of Some d \<Rightarrow> (fst ids, d) | None \<Rightarrow> ids)
       else ids)"

definition traceContextFromFields :: "span_text \<Rightarrow> zfield list \<Rightarrow> (128 word \<times> 64 word) \<times> bool" where
  "traceContextFromFields X fs = (let ids = traceContext_loop X fs (0, 0) in (ids, fst ids \<noteq> 0))"

definition contextWithTrace :: "span_text \<Rightarrow> zfield list \<Rightarrow> (128 word \<times> 64 word) option" where
  "contextWithTrace X fs = (case traceContextFromFields X fs of (ids, ok) \<Rightarrow> if \<not> ok then None else Some ids)"

text \<open>Severities of OpenTelemetry logs.\<close>

datatype severity = SeverityDebug | SeverityInfo | SeverityWarn | SeverityError | SeverityFatal

definition toOtelSeverity :: "int \<Rightarrow> severity" where
  "toOtelSeverity lvl =
    (if lvl = zap_Debug then SeverityDebug
     else if lvl = zap_Info then SeverityInfo
     else if lvl = zap_Warn then SeverityWarn
     else if lvl = zap_Error then SeverityError
     else SeverityFatal)"

text \<open>
  The value of an attribute. A float is given by the bits it is read from; durations and times are printed
  by the time package, whose texts are parameters.
\<close>

datatype attr_value = VString string | VBool bool | VInt64 "64 word" | VFloat64 "64 word" | VFloat32 "32 word"

record time_text =
  duration_text :: "64 word \<Rightarrow> string"
  instant_text :: "64 word \<Rightarrow> string"

definition int_types :: "field_type list" where
  "int_types = [Int64Type, Int32Type, Int16Type, Int8Type, Uint64Type, Uint32Type, Uint16Type, Uint8Type, UintptrType]"

definition attributeFromField :: "time_text \<Rightarrow> zfield \<Rightarrow> string \<times> attr_value" where
  "attributeFromField T f =
    (let rest = VString (if_print (zf_Interface f)) in
     (zf_Key f,
      if zf_Type f = StringType then VString (zf_String f)
      else if zf_Type f = BoolType then VBool (zf_Integer f = 1)
      else if zf_Type f \<in> set int_types then VInt64 (zf_Integer f)
      else if zf_Type f = Float64Type then VFloat64 (zf_Integer f)
      else if zf_Type f = Float32Type then VFloat32 (ucast (zf_Integer f))
      else if zf_Type f = DurationType then VString (duration_text T (zf_Integer f))
      else if zf_Type f = TimeType then VString (instant_text T (zf_Integer f))
      else if zf_Type f = StringerType then
        (case if_String (zf_Interface f) of Some s \<Rightarrow> VString s | None \<Rightarrow> rest)
      else if zf_Type f = ErrorType then
        (case if_Error (zf_Interface f) of Some s \<Rightarrow> VString s | None \<Rightarrow> rest)
      else rest))"

primrec attributesFromFields :: "time_text \<Rightarrow> zfield list \<Rightarrow> (string \<times> attr_value) list" where
  "attributesFromFields T [] = []"
| "attributesFromFields T (f # fs) =
    (if zf_Key f = [] \<or> isTraceField (zf_Key f) then attributesFromFields T fs
     else attributeFromField T f # attributesFromFields T fs)"

record otlpLogCore =
  oc_minLevel :: int
  oc_fields :: "zfield list"

record zentry =
  ent_Level :: int
  ent_Time :: int
  ent_Message :: string

record otlp_record =
  or_Timestamp :: int
  or_Severity :: severity
  or_SeverityText :: string
  or_Body :: string
  or_Attributes :: "(string \<times> attr_value) list"
  or_trace :: "(128 word \<times> 64 word) option"

definition otlp_Enabled :: "otlpLogCore \<Rightarrow> int \<Rightarrow> bool" where
  "otlp_Enabled c lvl \<longleftrightarrow> oc_minLevel c \<le> lvl"

definition otlp_With :: "otlpLogCore \<Rightarrow> zfield list \<Rightarrow> otlpLogCore" where
  "otlp_With c fs = c\<lparr>oc_fields := oc_fields c @ fs\<rparr>"

definition otlp_Check :: "otlpLogCore \<Rightarrow> zentry \<Rightarrow> otlpLogCore list \<Rightarrow> otlpLogCore list" where
  "otlp_Check c ent cores = (if otlp_Enabled c (ent_Level ent) then cores @ [c] else cores)"

definition otlp_Write ::
    "span_text \<Rightarrow> time_text \<Rightarrow> (int \<Rightarrow> string) \<Rightarrow> otlpLogCore \<Rightarrow> zentry \<Rightarrow> zfield list \<Rightarrow> otlp_record" where
  "otlp_Write X T capital c ent fs =
    (let all = oc_fields c @ fs in
     \<lparr>or_Timestamp = ent_Time ent, or_Severity = toOtelSeverity (ent_Level ent),
      or_SeverityText = capital (ent_Level ent), or_Body = ent_Message ent,
      or_Attributes = attributesFromFields T all, or_trace = contextWithTrace X all\<rparr>)"

definition otlp_Sync :: "otlpLogCore \<Rightarrow> err option" where "otlp_Sync c = None"

text \<open>
  The endpoint of an exporter (pkg/otelx); \<^verbatim>\<open>url\<close> is what \<^verbatim>\<open>url.Parse\<close> makes of a text, the scheme, the host
  and the path, or \<^verbatim>\<open>None\<close> for an error.
\<close>

definition trim_suffix :: "string \<Rightarrow> string \<Rightarrow> string" where
  "trim_suffix s p = (if has_suffix s p then take (length s - length p) s else s)"

definition ParseEndpoint :: "(string \<Rightarrow> (string \<times> string \<times> string) option) \<Rightarrow> (nat \<Rightarrow> nat) \<Rightarrow>
    string \<Rightarrow> bool \<Rightarrow> string \<Rightarrow> string \<times> string \<times> bool" where
  "ParseEndpoint url low raw insecure defaultPath =
    (let trimmed = trim_space raw in
     if trimmed = [] then ([], [], insecure)
     else if \<not> contains trimmed ''://'' then (trimmed, [], insecure)
     else
       let fallback = (trim_prefix (trim_prefix trimmed ''https://'') ''http://'', [], insecure) in
       (case url trimmed of
          None \<Rightarrow> fallback
        | Some (scheme, host, path) \<Rightarrow>
          if host = [] then fallback
          else
            let sch = to_lower low scheme;
                insecure1 = (if sch = ''https'' then False else if sch = ''http'' then True else insecure);
                p = trim_suffix path ''/'';
                p1 = (if p = trim_suffix defaultPath ''/'' then [] else p)
            in (host, p1, insecure1)))"

text \<open>
  The new core; \<^verbatim>\<open>exporter\<close> says whether the exporter can be made from the endpoint, the path and the
  choice of plain text. The provider is kept for \<^verbatim>\<open>ShutdownOTLP\<close>, which has nothing to do without one.
\<close>

definition newOTLPLogCore :: "(string \<Rightarrow> (string \<times> string \<times> string) option) \<Rightarrow> (nat \<Rightarrow> nat) \<Rightarrow>
    (string \<Rightarrow> string option \<Rightarrow> bool \<Rightarrow> err option) \<Rightarrow> string \<Rightarrow> string \<Rightarrow> int \<Rightarrow> string option \<Rightarrow>
    otlpLogCore option res \<times> string option" where
  "newOTLPLogCore url low exporter serviceName endpoint minLevel provider =
    (if trim_space endpoint = [] then (Inr None, provider)
     else
       let (host, path, insecure) = ParseEndpoint url low endpoint True ''/v1/logs'' in
       (case exporter host (if path \<noteq> [] then Some path else None) insecure of
          Some er \<Rightarrow> (Inl (Wrap ''OTLP log exporter'' er), provider)
        | None \<Rightarrow> (Inr (Some \<lparr>oc_minLevel = minLevel, oc_fields = []\<rparr>), Some serviceName)))"

definition ShutdownOTLP :: "(string \<Rightarrow> err option) \<Rightarrow> string option \<Rightarrow> err option" where
  "ShutdownOTLP shutdown provider = (case provider of None \<Rightarrow> None | Some lp \<Rightarrow> shutdown lp)"

section \<open>A new logger (logger.go)\<close>

text \<open>The package variables that choose the writers.\<close>

record log_flags =
  UseLawAsyncWriter :: bool
  UseLawConsoleWriter :: bool
  EnableAsyncConsoleLog :: bool
  EnableAsyncFileLog :: bool

definition log_defaults :: log_flags where
  "log_defaults = \<lparr>UseLawAsyncWriter = True, UseLawConsoleWriter = True, EnableAsyncConsoleLog = False,
    EnableAsyncFileLog = True\<rparr>"

datatype log_writer = ColorOutput | FileWriter string | LawAsync log_writer | Buffered log_writer nat
  | AsyncSync log_writer nat

datatype log_encoder = ColorConsole | PlainConsole | CustomJson | PlainJson

datatype log_core = IoCore log_encoder log_writer int | OtlpCore otlpLogCore

text \<open>The path of the file of a day and a second, given by the texts of the time package.\<close>

definition GetLogPath :: "string \<Rightarrow> string \<Rightarrow> string \<Rightarrow> string \<Rightarrow> string" where
  "GetLogPath day second logDir serviceName =
    (if logDir = [] then []
     else logDir @ ''/'' @ day @ ''/'' @ serviceName @ ''/'' @ second @ ''.log'')"

definition NewFileWriter :: "string \<Rightarrow> log_writer" where "NewFileWriter p = FileWriter p"

text \<open>The option WithOTLP overwrites both values; the last one given wins.\<close>

definition WithOTLP :: "string \<Rightarrow> string \<Rightarrow> string \<times> string \<Rightarrow> string \<times> string" where
  "WithOTLP serviceName endpoint old = (serviceName, endpoint)"

text \<open>
  NewLogger: \<^verbatim>\<open>mkdir\<close> is the outcome of making the directory, \<^verbatim>\<open>parse_level\<close> zap's parser of level names,
  \<^verbatim>\<open>otlp\<close> the call of newOTLPLogCore with the options' values. A failing OTLP core is only reported.
\<close>

definition console_writer :: "log_flags \<Rightarrow> log_writer" where
  "console_writer fl =
    (if \<not> EnableAsyncConsoleLog fl then ColorOutput
     else if UseLawConsoleWriter fl then LawAsync ColorOutput
     else Buffered ColorOutput (64 * 1024))"

text \<open>The console writer and the file writer, as the second block of the code leaves them.\<close>

definition file_writer :: "log_flags \<Rightarrow> string \<Rightarrow> log_writer \<Rightarrow> log_writer \<times> log_writer option" where
  "file_writer fl logPath console =
    (if logPath = [] then (console, None)
     else if \<not> EnableAsyncFileLog fl then (NewFileWriter logPath, None)
     else if UseLawAsyncWriter fl then (console, Some (LawAsync (NewFileWriter logPath)))
     else (console, Some (AsyncSync (NewFileWriter logPath) (256 * 1024))))"

definition encoders :: "nat \<Rightarrow> log_encoder \<times> log_encoder" where
  "encoders mode =
    (let isDev = (mode = 0) in if isDev then (ColorConsole, PlainConsole) else (CustomJson, PlainJson))"

definition logger_cores :: "(string \<Rightarrow> string \<Rightarrow> int \<Rightarrow> otlpLogCore option res) \<Rightarrow> string \<times> string \<Rightarrow> int \<Rightarrow>
    log_encoder \<times> log_encoder \<Rightarrow> log_writer \<times> log_writer option \<Rightarrow> log_core list" where
  "logger_cores otlp names zLevel enc w =
    (let cores = [IoCore (fst enc) (fst w) zLevel];
         cores1 = (case snd w of None \<Rightarrow> cores | Some fw \<Rightarrow> cores @ [IoCore (snd enc) fw zLevel]) in
     if snd names = [] then cores1
     else (case otlp (fst names) (snd names) zLevel of
             Inl er \<Rightarrow> cores1
           | Inr None \<Rightarrow> cores1
           | Inr (Some c) \<Rightarrow> cores1 @ [OtlpCore c]))"

definition NewLogger :: "log_flags \<Rightarrow> (string \<Rightarrow> err option) \<Rightarrow> (string \<Rightarrow> int res) \<Rightarrow>
    (string \<Rightarrow> string \<Rightarrow> int \<Rightarrow> otlpLogCore option res) \<Rightarrow> string \<Rightarrow> string \<Rightarrow>
    nat \<Rightarrow> string \<Rightarrow> string \<Rightarrow> string \<Rightarrow> (string \<times> string \<Rightarrow> string \<times> string) list \<Rightarrow> log_core list res" where
  "NewLogger fl mkdir parse_level otlp day second mode level logDir appName opts =
    (let names = foldl (\<lambda>x opt. opt x) ([], []) opts;
         logPath = GetLogPath day second logDir appName in
     case (if logPath \<noteq> [] then mkdir logPath else None) of
       Some er \<Rightarrow> Inl (Wrap ''mkdir'' er)
     | None \<Rightarrow>
       (case parse_level level of
          Inl er \<Rightarrow> Inl er
        | Inr zLevel \<Rightarrow>
          Inr (logger_cores otlp names zLevel (encoders mode) (file_writer fl logPath (console_writer fl)))))"

text \<open>
  The colouring of a JSON line on the console: the text after the last reset code is wrapped, where
  \<^verbatim>\<open>LastIndex\<close> is -1 when there is none. \<^verbatim>\<open>yellow\<close> and \<^verbatim>\<open>red\<close> are the colour functions.
\<close>

definition ColorResetStr :: string where "ColorResetStr = bstr [27] @ ''[0m''"

fun last_index :: "string \<Rightarrow> string \<Rightarrow> int" where
  "last_index pat [] = (if pat = [] then 0 else -1)"
| "last_index pat (c # s) =
    (let i = last_index pat s in
     if 0 \<le> i then i + 1 else if has_prefix (c # s) pat then 0 else -1)"

definition recolor :: "(string \<Rightarrow> string) \<Rightarrow> string \<Rightarrow> string" where
  "recolor colour s =
    (let k = nat (last_index ColorResetStr s + int (length ColorResetStr)) in take k s @ colour (drop k s))"

definition EncodeEntry :: "(string \<Rightarrow> string) \<Rightarrow> (string \<Rightarrow> string) \<Rightarrow> int \<Rightarrow> string res \<Rightarrow> string res" where
  "EncodeEntry yellow red level encoded =
    (case encoded of
       Inl er \<Rightarrow> Inl er
     | Inr s \<Rightarrow>
       if level = zap_Warn then Inr (recolor yellow s)
       else if level = zap_Error then Inr (recolor red s)
       else Inr s)"

datatype colour_name = HiBlue | HiGreen | HiYellow | HiRed | HiWhite

definition level_colour :: "int \<Rightarrow> colour_name" where
  "level_colour level =
    (if level = zap_Debug then HiBlue
     else if level = zap_Info then HiGreen
     else if level = zap_Warn then HiYellow
     else if level = zap_Error then HiRed
     else HiWhite)"

definition customLevelColorEncoder :: "(colour_name \<Rightarrow> string \<Rightarrow> string) \<Rightarrow> (int \<Rightarrow> string) \<Rightarrow> int \<Rightarrow> string" where
  "customLevelColorEncoder paint capital level = paint (level_colour level) (capital level)"

section \<open>Printing (print.go)\<close>

text \<open>\<^verbatim>\<open>Sprint\<close> over the texts that fmt prints for its arguments.\<close>

primrec sprint_loop :: "bool \<Rightarrow> string list \<Rightarrow> string \<Rightarrow> string" where
  "sprint_loop first [] out = out"
| "sprint_loop first (a # as) out = sprint_loop False as (out @ (if first then [] else '' '') @ a)"

definition log_Sprint :: "string list \<Rightarrow> string" where
  "log_Sprint as = (if as = [] then [] else sprint_loop True as [])"

end
