(* ===== verification/LogProps.thy ===== *)
theory LogProps
  imports Log LogWriter
begin

text \<open>
  What the logger promises: a line carries the correlation fields of its context whichever of the two
  interfaces wrote it, the OTLP record of the line belongs to the trace of the context, and where the lines
  of a new logger go.
\<close>

section \<open>Key-value lists\<close>

fun kv_pairs :: "'a list \<Rightarrow> ('a \<times> 'a) list" where
  "kv_pairs (k # v # xs) = (k, v) # kv_pairs xs"
| "kv_pairs xs = []"

definition is_kept :: "gany \<times> gany \<Rightarrow> bool" where
  "is_kept p \<longleftrightarrow> as_key (fst p) \<noteq> DefaultMessageKey \<and>
    \<not> (as_key (fst p) \<in> set correlationKeys \<and> isEmptyValue (snd p))"

definition kept_fields :: "(string \<Rightarrow> gany \<Rightarrow> zfield) \<Rightarrow> gany list \<Rightarrow> zfield list" where
  "kept_fields other kvs = map (\<lambda>(k, v). zap_Any other (as_key k) v) (filter is_kept (kv_pairs kvs))"

fun last_message :: "gany list \<Rightarrow> string \<Rightarrow> string" where
  "last_message (k # v # xs) msg =
    last_message xs (case (as_key k = DefaultMessageKey, v) of (True, AString s) \<Rightarrow> s | _ \<Rightarrow> msg)"
| "last_message xs msg = msg"

lemma keyval_loop: "keyval_loop other kvs msg fs = (last_message kvs msg, fs @ kept_fields other kvs)"
  by (induction other kvs msg fs rule: keyval_loop.induct)
    (auto simp: kept_fields_def is_kept_def Let_def split: gany.splits)

lemma kratos_entry:
  assumes "enabled (toZapLevel level)" "kvs \<noteq> []" "even (length kvs)"
  shows "kratosLogger_Log enabled other unpaired level kvs =
    zap_log enabled (toZapLevel level) (last_message kvs []) (kept_fields other kvs)"
  using assms by (auto simp: kratosLogger_Log_def keyval_loop toZapLevel_def log_levels)

section \<open>The correlation fields\<close>

lemma bound_message: "last_message (GetKratosLogger X c @ kvs) msg = last_message kvs msg"
  by (simp add: GetKratosLogger_def as_key_def field_names DefaultMessageKey_def)

text \<open>A span id without a trace id: the valuers report it, \<^verbatim>\<open>log.Ctx\<close> does not.\<close>

definition lone_span :: "span_text \<Rightarrow> log_ctx \<Rightarrow> zfield list" where
  "lone_span X c = (if lc_trace c = 0 \<and> lc_span c \<noteq> 0 then [zap_String FieldSpanID (sid_text X (lc_span c))] else [])"

lemma bound_fields:
  assumes "lc_trace c \<noteq> 0 \<longrightarrow> tid_text X (lc_trace c) \<noteq> []" "lc_span c \<noteq> 0 \<longrightarrow> sid_text X (lc_span c) \<noteq> []"
  shows "kept_fields other (GetKratosLogger X c @ kvs) = lone_span X c @ correlationFields X c @ kept_fields other kvs"
proof -
  have one: "map (\<lambda>(k, v). zap_Any other (as_key k) v) (filter is_kept [(k, v)]) =
      (if is_kept (k, v) then [zap_Any other (as_key k) v] else [])" for k v by simp
  have names: "as_key (AString k) = k" for k by (simp add: as_key_def)
  have kept: "is_kept (AString FieldTraceID, traceIDValuer X c) \<longleftrightarrow> lc_trace c \<noteq> 0"
      "is_kept (AString FieldSpanID, spanIDValuer X c) \<longleftrightarrow> lc_span c \<noteq> 0"
    using assms by (simp_all add: is_kept_def as_key_def field_names DefaultMessageKey_def correlationKeys_def
        traceIDValuer_def spanIDValuer_def)
  have kept': "is_kept (AString FieldUserID, userIDValuer c) \<longleftrightarrow> 0 < UserID (auth (GetRequestMetaData (lc_md c)))"
      "is_kept (AString FieldRole, roleValuer c) \<longleftrightarrow> Role (auth (GetRequestMetaData (lc_md c))) \<noteq> []"
    by (simp_all add: is_kept_def as_key_def field_names DefaultMessageKey_def correlationKeys_def
        userIDValuer_def roleValuer_def Let_def)
  have kv: "kv_pairs (GetKratosLogger X c @ kvs) = [(AString FieldTraceID, traceIDValuer X c)] @
      [(AString FieldSpanID, spanIDValuer X c)] @ [(AString FieldUserID, userIDValuer c)] @
      [(AString FieldRole, roleValuer c)] @ kv_pairs kvs"
    by (simp add: GetKratosLogger_def)
  have "kept_fields other (GetKratosLogger X c @ kvs) =
      (if lc_trace c \<noteq> 0 then [zap_Any other FieldTraceID (traceIDValuer X c)] else []) @
      (if lc_span c \<noteq> 0 then [zap_Any other FieldSpanID (spanIDValuer X c)] else []) @
      (if 0 < UserID (auth (GetRequestMetaData (lc_md c))) then [zap_Any other FieldUserID (userIDValuer c)] else []) @
      (if Role (auth (GetRequestMetaData (lc_md c))) \<noteq> [] then [zap_Any other FieldRole (roleValuer c)] else []) @
      kept_fields other kvs"
    by (simp only: kept_fields_def kv filter_append map_append one kept kept' names)
  then show ?thesis
    by (simp add: lone_span_def correlationFields_def traceIDValuer_def spanIDValuer_def userIDValuer_def
        roleValuer_def zap_Any_def Let_def)
qed

text \<open>
  C40. A line of a call with paired key-values, of an enabled level, written through the Kratos logger carries
  exactly the correlation fields that log.Ctx gives to a line of the same context, before the fields of the
  call, whose pairs keep their order and lose only the message and the correlation values that are empty; the
  level is the one the level of the call names. The rest: a span id without a trace id is reported by the
  Kratos logger alone, a call with an odd number of key-values becomes a warning without any field, and a
  disabled level writes nothing. The texts of the ids are not empty, as OpenTelemetry's hex texts are not.
\<close>

theorem both_loggers_agree:
  assumes "lc_trace c \<noteq> 0 \<longrightarrow> tid_text X (lc_trace c) \<noteq> []" "lc_span c \<noteq> 0 \<longrightarrow> sid_text X (lc_span c) \<noteq> []"
  shows "le_entry (kratosLogger_Log enabled other unpaired level (GetKratosLogger X c @ kvs)) =
    (if \<not> enabled (toZapLevel level) then None
     else if odd (length kvs) then (if enabled zap_Warn then Some (zap_Warn, unpaired (GetKratosLogger X c @ kvs), []) else None)
     else Some (toZapLevel level, last_message kvs [], lone_span X c @ correlationFields X c @ kept_fields other kvs))"
proof (cases "enabled (toZapLevel level) \<and> even (length kvs)")
  case True
  then have "kratosLogger_Log enabled other unpaired level (GetKratosLogger X c @ kvs) =
      zap_log enabled (toZapLevel level) (last_message (GetKratosLogger X c @ kvs) [])
        (kept_fields other (GetKratosLogger X c @ kvs))"
    by (intro kratos_entry) (auto simp: GetKratosLogger_def)
  then show ?thesis
    using True bound_fields [OF assms] by (simp add: zap_log_def bound_message)
qed (auto simp: kratosLogger_Log_def GetKratosLogger_def zap_log_def)

definition sample_text :: span_text where
  "sample_text = \<lparr>tid_text = (\<lambda>t. show_nat (unat t)), tid_parse = (\<lambda>s. Some (of_nat (dec_value s))),
    sid_text = (\<lambda>t. show_nat (unat t)), sid_parse = (\<lambda>s. Some (of_nat (dec_value s)))\<rparr>"

definition sample_ctx :: log_ctx where
  "sample_ctx = \<lparr>lc_md = as_user 42 ''admin'', lc_trace = 7, lc_span = 9\<rparr>"

lemma both_loggers_agree_witness:
  "le_entry (kratosLogger_Log (\<lambda>l. 0 \<le> l) (\<lambda>k v. zap_String k []) (\<lambda>kvs. []) klog_Error
      (GetKratosLogger sample_text sample_ctx @ [AString ''msg'', AString ''hi'', AString ''role'', ANil])) =
    Some (2, ''hi'', correlationFields sample_text sample_ctx)"
  using both_loggers_agree [of sample_ctx sample_text "\<lambda>l. 0 \<le> l" "\<lambda>k v. zap_String k []" "\<lambda>kvs. []" klog_Error
      "[AString ''msg'', AString ''hi'', AString ''role'', ANil]"]
  by (simp add: sample_text_def sample_ctx_def toZapLevel_def log_levels kept_fields_def is_kept_def as_key_def
      DefaultMessageKey_def correlationKeys_def field_names lone_span_def)

section \<open>OTLP records\<close>

lemma traceContext_append: "traceContext_loop X (fs @ gs) ids = traceContext_loop X gs (traceContext_loop X fs ids)"
  by (induction fs arbitrary: ids) simp_all

lemma no_trace_fields: "\<forall>f \<in> set fs. \<not> isTraceField (zf_Key f) \<Longrightarrow> traceContext_loop X fs ids = ids"
  by (induction fs) (auto simp: isTraceField_def)

lemma correlation_trace:
  assumes "lc_trace c \<noteq> 0" "tid_text X (lc_trace c) \<noteq> []" "tid_parse X (tid_text X (lc_trace c)) = Some (lc_trace c)"
    "lc_span c \<noteq> 0" "sid_text X (lc_span c) \<noteq> []" "sid_parse X (sid_text X (lc_span c)) = Some (lc_span c)"
  shows "traceContext_loop X (correlationFields X c) ids = (lc_trace c, lc_span c)"
  using assms
  by (auto simp: correlationFields_def traceContext_append zap_String_def zap_Uint64_def field_names Let_def)

text \<open>
  A line that a logger of log.Ctx writes to the OTLP core becomes a record of the trace and the span of
  its context, whatever fields the logger had before and whatever other fields the call adds.
\<close>

theorem record_joins_trace:
  assumes "lc_trace c \<noteq> 0" "tid_text X (lc_trace c) \<noteq> []" "tid_parse X (tid_text X (lc_trace c)) = Some (lc_trace c)"
    "lc_span c \<noteq> 0" "sid_text X (lc_span c) \<noteq> []" "sid_parse X (sid_text X (lc_span c)) = Some (lc_span c)"
    "\<forall>f \<in> set fs. \<not> isTraceField (zf_Key f)"
  shows "or_trace (otlp_Write X T capital (otlp_With core (correlationFields X c)) ent fs) = Some (lc_trace c, lc_span c)"
  using assms correlation_trace [OF assms(1-6)] no_trace_fields [OF assms(7)]
  by (simp add: otlp_Write_def otlp_With_def contextWithTrace_def traceContextFromFields_def traceContext_append Let_def)

lemma dec_show: "show_nat 7 = ''7''" "show_nat 9 = ''9''" "dec_value ''7'' = 7" "dec_value ''9'' = 9"
  by code_simp+

lemma record_joins_trace_witness:
  "or_trace (otlp_Write sample_text \<lparr>duration_text = (\<lambda>d. []), instant_text = (\<lambda>d. [])\<rparr> (\<lambda>l. [])
      (otlp_With \<lparr>oc_minLevel = 0, oc_fields = [zap_String ''service'' ''blog'']\<rparr> (correlationFields sample_text sample_ctx))
      \<lparr>ent_Level = 0, ent_Time = 0, ent_Message = ''hi''\<rparr> [zap_String ''user'' ''kay'']) = Some (7, 9)"
  using record_joins_trace [of sample_ctx sample_text "[zap_String ''user'' ''kay'']"]
  by (simp add: sample_text_def sample_ctx_def zap_String_def isTraceField_def field_names dec_show)

text \<open>The attributes are the fields that have a key and are not part of the trace, in order.\<close>

lemma attribute_keys:
  "map fst (attributesFromFields T fs) = filter (\<lambda>k. k \<noteq> [] \<and> \<not> isTraceField k) (map zf_Key fs)"
  by (induction fs) (auto simp: attributeFromField_def Let_def)

text \<open>A user id from 2^63 on is reported as a negative number.\<close>

lemma large_user_id:
  "attributeFromField T (zap_Uint64 FieldUserID n) = (FieldUserID, VInt64 (of_nat n))"
  by (simp add: attributeFromField_def zap_Uint64_def int_types_def Let_def)

lemma large_user_id_negative: "sint (of_nat (2 ^ 63) :: 64 word) < 0"
  by simp

section \<open>Where the lines go\<close>

definition core_writers :: "log_core list \<Rightarrow> log_writer list" where
  "core_writers cs = concat (map (\<lambda>c. case c of IoCore e w l \<Rightarrow> [w] | OtlpCore o1 \<Rightarrow> []) cs)"

lemma GetLogPath_Nil [simp]: "GetLogPath day second logDir app = [] \<longleftrightarrow> logDir = []"
  by (simp add: GetLogPath_def)

text \<open>With the defaults every line goes to the console at once and to the file through the queue.\<close>

lemma default_writers:
  assumes "NewLogger log_defaults mkdir pl otlp day second mode level logDir app opts = Inr cs"
  shows "core_writers cs = ColorOutput #
    (if logDir = [] then [] else [LawAsync (FileWriter (GetLogPath day second logDir app))])"
  using assms
  by (auto simp: NewLogger_def logger_cores_def log_defaults_def file_writer_def console_writer_def core_writers_def NewFileWriter_def
      Let_def split: option.splits sum.splits if_splits prod.splits)

text \<open>With the synchronous file writer, the console is silent: its core got the writer of the file.\<close>

lemma sync_file_steals_console:
  assumes "NewLogger fl mkdir pl otlp day second mode level logDir app opts = Inr cs"
    "\<not> EnableAsyncFileLog fl" "logDir \<noteq> []"
  shows "core_writers cs = [FileWriter (GetLogPath day second logDir app)]"
  using assms
  by (auto simp: NewLogger_def logger_cores_def file_writer_def core_writers_def NewFileWriter_def
      Let_def split: option.splits sum.splits if_splits prod.splits)

section \<open>Colours and printing\<close>

lemma last_index_absent: "\<not> contains s pat \<Longrightarrow> pat \<noteq> [] \<Longrightarrow> last_index pat s = -1"
  by (induction s) (auto simp: has_prefix_def)

text \<open>A JSON line has no reset code: the colour starts after its third byte.\<close>

lemma json_split: "\<not> contains s ColorResetStr \<Longrightarrow> recolor paint s = take 3 s @ paint (drop 3 s)"
  by (simp add: recolor_def last_index_absent ColorResetStr_def bstr_def)

lemma recolor_plain: "paint = id \<Longrightarrow> recolor paint s = s"
  by (simp add: recolor_def Let_def)

lemma Sprint_join: "log_Sprint as = join_with CHR '' '' as"
proof -
  have *: "sprint_loop False bs out = out @ concat (map (\<lambda>a. '' '' @ a) bs)" for bs out
    by (induction bs arbitrary: out) auto
  show ?thesis by (cases as) (auto simp: log_Sprint_def join_with_def *)
qed

lemma swap_restores: "SwapGlobalLogger l g = (p, g1) \<Longrightarrow> SetGlobalLogger p g1 = g"
  by (auto simp: SwapGlobalLogger_def SetGlobalLogger_def)

text \<open>An endpoint with a scheme decides the transport itself.\<close>

lemma scheme_decides:
  assumes "contains (trim_space raw) ''://''" "url (trim_space raw) = Some (sch, host, path)" "host \<noteq> []"
    "to_lower low sch \<in> {''http'', ''https''}"
  shows "ParseEndpoint url low raw b1 dp = ParseEndpoint url low raw b2 dp"
  using assms by (auto simp: ParseEndpoint_def Let_def)

end
