(* ===== verification/ViewProps.thy ===== *)
theory ViewProps
  imports Views ArticleLife ClientIp
begin

text \<open>
  No view is lost and none is counted twice: the view count of an article's row and the increment that waits
  in the cache together are the views counted so far, over any sequence of views and flushes that do not
  overlap, while no counter expires; and what happens when they do, or when a delete fails.
\<close>

section \<open>The counters in the cache\<close>

definition counter :: "nat \<Rightarrow> blog \<Rightarrow> cobj cval option" where
  "counter i b = held (view_key i) (kv b)"

definition buffered :: "nat \<Rightarrow> blog \<Rightarrow> int" where
  "buffered i b =
    (case counter i b of
       Some (Raw s) \<Rightarrow> (case parse_int64 s of Some d \<Rightarrow> d | None \<Rightarrow> 0)
     | _ \<Rightarrow> 0)"

definition row_views :: "nat \<Rightarrow> blog \<Rightarrow> int" where
  "row_views i b = (case row_by_id b i of Some po \<Rightarrow> po_ViewCount po | None \<Rightarrow> 0)"

definition views_total :: "nat \<Rightarrow> blog \<Rightarrow> int" where
  "views_total i b = row_views i b + buffered i b"

text \<open>Every counter is a positive 64-bit number, and none has passed its deadline.\<close>

definition counter_value :: "cobj cval option \<Rightarrow> bool" where
  "counter_value v \<longleftrightarrow> (\<forall>x. v = Some x \<longrightarrow> (\<exists>d. x = Raw (show_int d) \<and> 0 < d \<and> d < 2 ^ 63))"

definition counters_ok :: "blog \<Rightarrow> bool" where
  "counters_ok b \<longleftrightarrow> (\<forall>i. counter_value (counter i b))"

definition unexpired :: "env \<Rightarrow> blog \<Rightarrow> bool" where
  "unexpired e b \<longleftrightarrow> (\<forall>i. live e (kv b) (view_key i) = counter i b)"

lemma view_key_inj [simp]: "view_key i = view_key j \<longleftrightarrow> i = j"
  by (simp add: view_key_def show_nat_inj)

lemma view_not_dedup [simp]: "view_key i \<noteq> dedup_key j ip" "dedup_key j ip \<noteq> view_key i"
  by (simp_all add: view_key_def dedup_key_def ViewCountCachePrefix_def ViewCountDedupPrefix_def)

lemma buffered_value: "counter i b = Some (Raw (show_int d)) \<Longrightarrow> 0 < d \<Longrightarrow> d < 2 ^ 63 \<Longrightarrow> buffered i b = d"
  by (simp add: buffered_def parse_int64_show)

lemma buffered_cong: "counter i b' = counter i b \<Longrightarrow> buffered i b' = buffered i b"
  by (simp add: buffered_def)

lemma row_views_cong: "articles b' = articles b \<Longrightarrow> row_views i b' = row_views i b"
  by (simp add: row_views_def row_by_id_def)

lemma row_views_update:
  assumes "row_by_id b i \<noteq> None"
  shows "row_views i (update_row (po_ViewCount_update (\<lambda>n. n + d)) j b) = row_views i b + (if i = j then d else 0)"
    "row_by_id (update_row (po_ViewCount_update (\<lambda>n. n + d)) j b) i \<noteq> None"
  using assms by (auto simp: row_views_def row_by_id_update)

section \<open>One view\<close>

lemma setnx_counter:
  assumes "rc_setnx e (dedup_key i ip) v ttl m = (r, m1)"
  shows "held (view_key j) m1 = held (view_key j) m" "live e m1 (view_key j) = live e m (view_key j)"
  using assms by (auto simp: rc_setnx_def held_def live_def split: if_splits)

lemma expire_held: "held k' (snd (rc_expire e k ttl m)) = held k' m"
  by (auto simp: rc_expire_def held_def live_def split: option.splits if_splits)

lemma incr_counter:
  assumes "rc_incr e (view_key i) m = (r, m1)" "live e m (view_key i) = held (view_key i) m"
    "counter_value (held (view_key i) m)"
  shows "j \<noteq> i \<Longrightarrow> held (view_key j) m1 = held (view_key j) m"
    "r = Inl er \<Longrightarrow> m1 = m"
    "r = Inr n \<Longrightarrow> held (view_key i) m1 = Some (Raw (show_int n)) \<and> 0 < n \<and> n < 2 ^ 63 \<and>
      (case held (view_key i) m of None \<Rightarrow> n = 1 | Some x \<Rightarrow> x = Raw (show_int (n - 1)) \<and> 0 < n - 1)"
  using assms
  by (auto simp: rc_incr_def held_def counter_value_def parse_int64_show split: if_splits option.splits cval.splits)

lemma fallback_views:
  assumes "view_fallback e j b = (r, b')" "row_by_id b i \<noteq> None"
  shows "kv b' = kv b \<and> row_by_id b' i \<noteq> None \<and>
    row_views i b' = row_views i b + (if i = j \<and> r = Inr True then 1 else 0)"
  using assms row_views_update [OF assms(2), of 1 j]
  by (auto simp: view_fallback_def IncrementView_def articleRepo_IncrementViewCount_def offer_def row_views_def
      row_by_id_def split: if_splits prod.splits option.splits)

definition counted :: "nat \<Rightarrow> nat \<Rightarrow> bool res \<Rightarrow> int" where
  "counted i j r = (if i = j \<and> r = Inr True then 1 else 0)"

lemma same_counters:
  assumes "\<And>j. held (view_key j) (kv b') = held (view_key j) (kv b)" "counters_ok b"
  shows "counters_ok b' \<and> buffered i b' = buffered i b"
  using assms by (simp add: counters_ok_def counter_def buffered_def)

lemma view_step:
  assumes "counters_ok b" "unexpired e b" "row_by_id b i \<noteq> None" "ViewArticle e j ip b = (r, b')"
  shows "counters_ok b' \<and> row_by_id b' i \<noteq> None \<and> views_total i b' = views_total i b + counted i j r"
proof (cases "j = 0")
  case True
  with assms show ?thesis by (auto simp: ViewArticle_def counted_def)
next
  case False
  obtain q m1 where s: "rc_setnx e (dedup_key j ip) (Raw ''1'') ViewDedupWindow (kv b) = (q, m1)" by fastforce
  note k1 = setnx_counter [OF s]
  have row1: "row_by_id (b\<lparr>kv := m\<rparr>) i = row_by_id b i" "row_views i (b\<lparr>kv := m\<rparr>) = row_views i b" for m
    by (simp_all add: row_by_id_def row_views_def)
  consider er where "q = Inl er" | "q = Inr False" | "q = Inr True" by (cases q) auto
  then show ?thesis
  proof cases
    case 1
    with assms(4) s False have f: "view_fallback e j (b\<lparr>kv := m1\<rparr>) = (r, b')" by (simp add: ViewArticle_def)
    from fallback_views [OF f, of i] assms(3) same_counters [of b' b i, OF _ assms(1)] k1(1)
    show ?thesis by (auto simp: row1 views_total_def counted_def)
  next
    case 2
    with assms(4) s False have "b' = b\<lparr>kv := m1\<rparr>" "r = Inr False" by (auto simp: ViewArticle_def)
    with assms(3) same_counters [of b' b i, OF _ assms(1)] k1(1)
    show ?thesis by (auto simp: row1 views_total_def counted_def)
  next
    case 3
    obtain p m2 where c: "rc_incr e (view_key j) m1 = (p, m2)" by fastforce
    have lv: "live e m1 (view_key j) = held (view_key j) m1" using assms(2) k1 by (simp add: unexpired_def counter_def)
    have cv: "counter_value (held (view_key j) m1)" using assms(1) k1(1) by (simp add: counters_ok_def counter_def)
    note ic = incr_counter [OF c lv cv]
    show ?thesis
    proof (cases p)
      case (Inl er)
      with assms(4) s False 3 c have f: "view_fallback e j (b\<lparr>kv := m1\<rparr>) = (r, b')"
        using ic(2) by (simp add: ViewArticle_def)
      from fallback_views [OF f, of i] assms(3) same_counters [of b' b i, OF _ assms(1)] k1(1)
      show ?thesis by (auto simp: row1 views_total_def counted_def)
    next
      case (Inr n)
      let ?m = "snd (rc_expire e (view_key j) ViewCountTTL m2)"
      from assms(4) s False 3 c Inr have b': "b' = offer (ArticleViewed j) (b\<lparr>kv := ?m\<rparr>)" "r = Inr True"
        by (auto simp: ViewArticle_def)
      have ct: "counter k b' = (if k = j then Some (Raw (show_int n)) else counter k b)" for k
        using ic(1) [of k] ic(3) [OF Inr] k1(1) [of k] by (simp add: b' counter_def offer_def expire_held)
      have n: "0 < n" "n < 2 ^ 63" "buffered j b = n - 1"
        using ic(3) [OF Inr] k1(1) [of j]
        by (auto simp: counter_def buffered_def parse_int64_show split: option.splits)
      have "counters_ok b'"
        using assms(1) n(1,2) by (auto simp: counters_ok_def ct counter_value_def)
      moreover have "buffered i b' = buffered i b + (if i = j then 1 else 0)"
        using n buffered_value [of j b' n] buffered_cong [of i b' b] by (auto simp: ct)
      moreover have "row_by_id b' i = row_by_id b i" "row_views i b' = row_views i b"
        by (simp_all add: b' offer_def row_by_id_def row_views_def)
      ultimately show ?thesis
        using assms(3) b'(2) by (simp add: views_total_def counted_def)
    qed
  qed
qed

section \<open>A flush\<close>

lemma parse_view:
  assumes "j \<le> max_uint64" "0 < d" "d < 2 ^ 63"
  shows "parse_count (view_key j, Raw (show_int d)) = Some (j, d)"
proof -
  have nc: "CHR '':'' \<notin> set (show_nat j)"
    using show_nat_digits [of j] by (auto simp: list_all_iff is_digit_def byte_def)
  have "view_key j = ''ley'' @ CHR '':'' # ''article'' @ CHR '':'' # ''view'' @ CHR '':'' # show_nat j"
    by (simp add: view_key_def ViewCountCachePrefix_def)
  then have "split_on CHR '':'' (view_key j) = [''ley'', ''article'', ''view'', show_nat j]"
    using split_on_single [OF nc] by simp
  with assms show ?thesis by (simp add: parse_count_def parse_uint64_show parse_int64_show)
qed

text \<open>The counters that a list of keys brings along.\<close>

definition view_keys :: "string list \<Rightarrow> bool" where
  "view_keys ks \<longleftrightarrow> (\<forall>k \<in> set ks. \<exists>j. j \<le> max_uint64 \<and> k = view_key j)"

definition reply :: "blog \<Rightarrow> string list \<Rightarrow> (string \<times> cobj cval) list" where
  "reply b ks = List.map_filter (\<lambda>k. map_option (\<lambda>v. (k, v)) (held k (kv b))) ks"

lemma reply_simps [simp]: "reply b [] = []"
  "reply b (k # ks) = (case held k (kv b) of None \<Rightarrow> reply b ks | Some v \<Rightarrow> (k, v) # reply b ks)"
  by (auto simp: reply_def map_filter_simps split: option.split)

lemma collect_reply:
  assumes "view_keys ks" "counters_ok b" "distinct (map fst acc)"
    "\<And>i d. map_of acc i = Some d \<Longrightarrow> d = buffered i b"
  shows "distinct (map fst (collect_counts (reply b ks) acc)) \<and>
    map_of (collect_counts (reply b ks) acc) i =
      (if view_key i \<in> set ks \<and> counter i b \<noteq> None then Some (buffered i b) else map_of acc i)"
  using assms
proof (induction ks arbitrary: acc)
  case (Cons k ks)
  then obtain j where j: "j \<le> max_uint64" "k = view_key j" and ks: "view_keys ks" by (auto simp: view_keys_def)
  show ?case
  proof (cases "counter j b")
    case None
    with j have "reply b (k # ks) = reply b ks" by (simp add: counter_def)
    with Cons.IH [OF ks Cons.prems(2-4)] None j show ?thesis by auto
  next
    case (Some v)
    with Cons.prems(2) obtain d where d: "v = Raw (show_int d)" "0 < d" "d < 2 ^ 63"
      by (auto simp: counters_ok_def counter_value_def)
    with Some have bd: "buffered j b = d" by (simp add: buffered_value)
    have "collect_counts (reply b (k # ks)) acc = collect_counts (reply b ks) (AList.update j d acc)"
      using Some d j parse_view [OF j(1) d(2,3)] by (simp add: counter_def)
    moreover have "distinct (map fst (AList.update j d acc))"
      using Cons.prems(3) by (rule distinct_update)
    moreover have "\<And>i x. map_of (AList.update j d acc) i = Some x \<Longrightarrow> x = buffered i b"
      using Cons.prems(4) bd by (auto simp: update_conv' split: if_splits)
    ultimately show ?thesis
      using Cons.IH [OF ks Cons.prems(2), of "AList.update j d acc"] Some bd j
      by (auto simp: update_conv')
  qed
qed simp

lemma add_views_row:
  assumes "row_by_id b i \<noteq> None" "distinct (map fst cs)"
  shows "row_by_id (add_views cs b) i \<noteq> None \<and> kv (add_views cs b) = kv b \<and>
    row_views i (add_views cs b) = row_views i b + (case map_of cs i of None \<Rightarrow> 0 | Some d \<Rightarrow> d)"
  using assms
proof (induction cs arbitrary: b)
  case (Cons c cs)
  obtain j d where c: "c = (j, d)" by fastforce
  let ?b = "update_row (po_ViewCount_update (\<lambda>n. n + d)) j b"
  have "add_views (c # cs) b = add_views cs ?b" by (simp add: add_views_def c)
  with Cons.IH [of ?b] Cons.prems row_views_update [OF Cons.prems(1), of d j] show ?case
    by (cases "i = j") (auto simp: c map_of_eq_None_iff [THEN iffD2] split: option.splits)
qed (simp add: add_views_def)

lemma flush_delete_frame:
  "articles (flush_delete e ks b) = articles b \<and>
    held k (kv (flush_delete e ks b)) = (if k \<in> set ks \<and> \<not> kv_fault e [''del'', k] then None else held k (kv b))"
proof (induction ks arbitrary: b)
  case (Cons x ks)
  have "flush_delete e (x # ks) b = flush_delete e ks (kv_del e x b)" by (simp add: flush_delete_def)
  with Cons [of "kv_del e x b"] show ?case
    by (auto simp: kv_del_def rc_delete_def held_def)
qed (simp add: flush_delete_def)

definition flush_ok :: "env \<Rightarrow> string list res \<Rightarrow> bool" where
  "flush_ok e scanned \<longleftrightarrow> (\<forall>ks. scanned = Inr ks \<longrightarrow> view_keys ks \<and> (\<forall>k \<in> set ks. \<not> kv_fault e [''del'', k]))"

lemma mget_reply:
  assumes "view_keys ks" "unexpired e b" "rc_mget e ks (kv b) = Inr kvs"
  shows "kvs = reply b ks"
proof -
  have "live e (kv b) k = held k (kv b)" if "k \<in> set ks" for k
    using assms(1,2) that by (auto simp: view_keys_def unexpired_def counter_def)
  then have "List.map_filter (\<lambda>k. map_option (Pair k) (live e (kv b) k)) ks = reply b ks"
    by (induction ks) (auto simp: map_filter_simps split: option.split)
  with assms(3) show ?thesis by (auto simp: rc_mget_def map_filter_simps split: if_splits)
qed

lemma flush_tx_cases: "flush_tx e cs b = (Some db_error, b) \<or> flush_tx e cs b = (None, add_views cs b)"
  unfolding flush_tx_def by (rule if_split [THEN iffD2]) simp

lemma flush_cases:
  obtains "flushViewCounts e scanned b = b"
  | ks kvs where "scanned = Inr ks" "rc_mget e ks (kv b) = Inr kvs"
      "flushViewCounts e scanned b = flush_delete e ks (add_views (collect_counts kvs []) b)"
proof (cases "\<exists>ks kvs. scanned = Inr ks \<and> ks \<noteq> [] \<and> rc_mget e ks (kv b) = Inr kvs \<and> collect_counts kvs [] \<noteq> [] \<and>
    fst (flush_tx e (collect_counts kvs []) b) = None")
  case True
  then obtain ks kvs where k: "scanned = Inr ks" "ks \<noteq> []" "rc_mget e ks (kv b) = Inr kvs" "collect_counts kvs [] \<noteq> []"
      "fst (flush_tx e (collect_counts kvs []) b) = None" by blast
  then have "flush_tx e (collect_counts kvs []) b = (None, add_views (collect_counts kvs []) b)"
    using flush_tx_cases [of e "collect_counts kvs []" b] by auto
  with k that(2) show ?thesis by (simp add: flushViewCounts_def Let_def)
next
  case False
  have "flushViewCounts e scanned b = b"
  proof (cases scanned)
    case (Inr ks)
    show ?thesis
    proof (cases "rc_mget e ks (kv b)")
      case (Inr kvs)
      from flush_tx_cases [of e "collect_counts kvs []" b] False \<open>scanned = Inr ks\<close> Inr show ?thesis
        by (auto simp: flushViewCounts_def Let_def)
    qed (simp add: flushViewCounts_def Inr)
  qed (simp add: flushViewCounts_def)
  with that(1) show ?thesis .
qed

lemma flush_writes:
  assumes "counters_ok b" "row_by_id b i \<noteq> None" "view_keys ks" "\<And>k. k \<in> set ks \<Longrightarrow> \<not> kv_fault e [''del'', k]"
    "b' = flush_delete e ks (add_views (collect_counts (reply b ks) []) b)"
  shows "counters_ok b' \<and> row_by_id b' i \<noteq> None \<and> views_total i b' = views_total i b"
proof -
  let ?cs = "collect_counts (reply b ks) []"
  note cr = collect_reply [OF assms(3,1), of "[]"]
  note av = add_views_row [OF assms(2), of ?cs]
  have ct: "counter j b' = (if view_key j \<in> set ks then None else counter j b)" for j
    using flush_delete_frame [of e ks "add_views ?cs b" "view_key j"] assms(4) av cr by (simp add: assms(5) counter_def)
  have rows: "articles b' = articles (add_views ?cs b)"
    using flush_delete_frame by (simp add: assms(5))
  have "counters_ok b'"
    using assms(1) by (simp add: counters_ok_def ct counter_value_def)
  moreover have "row_by_id b' i \<noteq> None" "row_views i b' = row_views i b + (case map_of ?cs i of None \<Rightarrow> 0 | Some d \<Rightarrow> d)"
    using av cr rows row_views_cong [OF rows] by (auto simp: row_by_id_def)
  moreover have "(case map_of ?cs i of None \<Rightarrow> 0 | Some d \<Rightarrow> d) + buffered i b' = buffered i b"
    using cr [of i] by (auto simp: ct buffered_def)
  ultimately show ?thesis by (simp add: views_total_def)
qed

lemma flush_step:
  assumes "counters_ok b" "unexpired e b" "row_by_id b i \<noteq> None" "flush_ok e scanned"
  shows "counters_ok (flushViewCounts e scanned b) \<and> row_by_id (flushViewCounts e scanned b) i \<noteq> None \<and>
    views_total i (flushViewCounts e scanned b) = views_total i b"
proof (cases rule: flush_cases [of e scanned b])
  case 1
  with assms(1,3) show ?thesis by simp
next
  case (2 ks kvs)
  then have "kvs = reply b ks" using mget_reply [OF _ assms(2)] assms(4) by (auto simp: flush_ok_def)
  with 2 flush_writes [OF assms(1,3), of ks e] assms(4) show ?thesis by (auto simp: flush_ok_def)
qed

section \<open>Any sequence\<close>

text \<open>
  Views of any articles from any address and flushes of any scanned keys, each with its own faults and time;
  in between, operations that touch neither the count of the article nor a counter.
\<close>

inductive views_run :: "nat \<Rightarrow> blog \<Rightarrow> int \<Rightarrow> blog \<Rightarrow> bool" for i b0 where
  vr_start: "views_run i b0 0 b0"
| vr_view: "views_run i b0 n b \<Longrightarrow> unexpired e b \<Longrightarrow> ViewArticle e j ip b = (r, b') \<Longrightarrow>
    views_run i b0 (n + counted i j r) b'"
| vr_flush: "views_run i b0 n b \<Longrightarrow> unexpired e b \<Longrightarrow> flush_ok e scanned \<Longrightarrow>
    views_run i b0 n (flushViewCounts e scanned b)"
| vr_other: "views_run i b0 n b \<Longrightarrow> row_by_id b' i \<noteq> None \<Longrightarrow> row_views i b' = row_views i b \<Longrightarrow>
    (\<And>j. counter j b' = counter j b) \<Longrightarrow> views_run i b0 n b'"

lemma views_run_ok:
  assumes "views_run i b0 n b" "counters_ok b0" "row_by_id b0 i \<noteq> None"
  shows "counters_ok b \<and> row_by_id b i \<noteq> None \<and> views_total i b = views_total i b0 + n"
  using assms
proof induction
  case (vr_view n b e j ip r b')
  with view_step [of b e i j ip r b'] show ?case by simp
next
  case (vr_flush n b e scanned)
  with flush_step [of b e i scanned] show ?case by simp
next
  case (vr_other n b b')
  then show ?case by (simp add: counters_ok_def views_total_def buffered_def)
qed simp

text \<open>
  C6. No view is lost and none counts twice while the counters live: over any sequence of views and flushes,
  one after another, at each of which no counter has passed its two hours without a view or a flush, and in
  which any call of the database and the cache may fail except the deletes of flushed counters, the view
  count in the row of a live article and its counter in the cache add up to what they were plus the views
  that were answered as counted. When flushes fail for two hours after the last view, the counter expires
  and its views are lost; a view between the reading and the deleting of a flush, and a failed delete, are
  outside as well.
\<close>

theorem views_exact:
  assumes "views_run i b0 n b" "counters_ok b0" "row_by_id b0 i \<noteq> None"
  shows "row_views i b + buffered i b = row_views i b0 + buffered i b0 + n"
  using views_run_ok [OF assms] by (simp add: views_total_def)

definition seen_kv :: "string list \<Rightarrow> int \<Rightarrow> cobj rstore" where
  "seen_kv ips n = (\<lambda>k. if k = view_key 1 then Some (Raw (show_int n), Some ViewCountTTL)
    else if k \<in> dedup_key 1 ` set ips then Some (Raw ''1'', Some ViewDedupWindow) else None)"

definition seen_by :: "string list \<Rightarrow> int \<Rightarrow> event list \<Rightarrow> blog" where
  "seen_by ips n ob = (one_article Published)\<lparr>kv := seen_kv ips n, outbox := ob\<rparr>"

lemma one_facts: "kv (one_article st) = Map.empty" "row_by_id (one_article st) 1 = Some (one_po st)"
  "po_ViewCount (one_po st) = 0"
    apply (simp add: one_article_def blog0_def)
   apply (rule one_row)
  by (simp add: one_po_def)

lemma dedup_key_inj [simp]: "dedup_key i ip = dedup_key i ip' \<longleftrightarrow> ip = ip'"
  by (simp add: dedup_key_def)

lemma seen_facts [simp]: "row_by_id (seen_by ips n ob) 1 = Some (one_po Published)"
  "counter i (seen_by ips n ob) = (if i = 1 then Some (Raw (show_int n)) else None)"
  "unexpired env0 (seen_by ips n ob)"
  using one_facts(2) [of Published]
  by (auto simp: seen_by_def seen_kv_def row_by_id_def counter_def held_def unexpired_def live_def env0_def ViewCountTTL_def minute_def)

lemma calm_view:
  assumes "live env0 m (dedup_key 1 ip) = None" "rc_incr env0 (view_key 1) (m(dedup_key 1 ip \<mapsto> (Raw ''1'', Some ViewDedupWindow))) =
    (Inr n, m2)" "live env0 m2 (view_key 1) = Some v"
  shows "ViewArticle env0 1 ip (b\<lparr>kv := m\<rparr>) = (Inr True, b\<lparr>kv := m2(view_key 1 \<mapsto> (v, Some ViewCountTTL)),
    outbox := outbox b @ [ArticleViewed 1]\<rparr>)"
  using assms
  by (simp add: ViewArticle_def rc_setnx_def rc_expire_def deadline_def in_units_def second_def millisecond_def
      env0_def offer_def ViewDedupWindow_def ViewCountTTL_def minute_def)

lemma first_view:
  obtains ob where "ViewArticle env0 1 ip (one_article Published) = (Inr True, seen_by [ip] 1 ob)"
proof -
  have i: "rc_incr env0 (view_key 1) [dedup_key 1 ip \<mapsto> (Raw ''1'', Some ViewDedupWindow)] =
      (Inr 1, [dedup_key 1 ip \<mapsto> (Raw ''1'', Some ViewDedupWindow), view_key 1 \<mapsto> (Raw (show_int 1), None)])"
    by (simp add: rc_incr_def live_def env0_def)
  have m: "[dedup_key 1 ip \<mapsto> (Raw ''1'', Some ViewDedupWindow), view_key 1 \<mapsto> (Raw (show_int 1), None)]
      (view_key 1 \<mapsto> (Raw (show_int 1), Some ViewCountTTL)) = seen_kv [ip] 1"
    by (auto simp: seen_kv_def fun_eq_iff)
  have "one_article Published = (one_article Published)\<lparr>kv := Map.empty\<rparr>"
    using one_facts(1) by simp
  with calm_view [of Map.empty ip 1 _ "Raw (show_int 1)" "one_article Published", OF _ i] m that
  show ?thesis by (simp add: live_def seen_by_def)
qed

lemma updates_commute: "b\<lparr>outbox := ob, kv := m\<rparr> = b\<lparr>kv := m, outbox := ob\<rparr>" for b :: blog
  by (cases b) simp

lemma next_view:
  assumes "ip \<noteq> jp"
  obtains ob' where "ViewArticle env0 1 jp (seen_by [ip] 1 ob) = (Inr True, seen_by [jp, ip] 2 ob')"
proof -
  let ?m = "(seen_kv [ip] 1)(dedup_key 1 jp \<mapsto> (Raw ''1'', Some ViewDedupWindow))"
  let ?m2 = "?m(view_key 1 \<mapsto> (Raw (show_int 2), Some ViewCountTTL))"
  have p: "parse_int64 (show_int 1) = Some 1" by (rule parse_int64_show) simp_all
  have l: "live env0 ?m (view_key 1) = Some (Raw (show_int 1))" "?m (view_key 1) = Some (Raw (show_int 1), Some ViewCountTTL)"
    by (simp_all add: live_def seen_kv_def env0_def ViewCountTTL_def minute_def)
  then have i: "rc_incr env0 (view_key 1) ?m = (Inr 2, ?m2)"
    unfolding rc_incr_def l(1) by (simp add: p env0_def)
  have "live env0 (seen_kv [ip] 1) (dedup_key 1 jp) = None"
    using assms by (auto simp: live_def seen_kv_def)
  note v = calm_view [OF this i, of "Raw (show_int 2)" "seen_by [ip] 1 ob"]
  have m: "?m2(view_key 1 \<mapsto> (Raw (show_int 2), Some ViewCountTTL)) = seen_kv [jp, ip] 2"
    by (auto simp: seen_kv_def fun_eq_iff)
  have "live env0 ?m2 (view_key 1) = Some (Raw (show_int 2))"
    by (simp add: live_def env0_def ViewCountTTL_def minute_def)
  from v [OF this] have "ViewArticle env0 1 jp (seen_by [ip] 1 ob) =
      (Inr True, seen_by [jp, ip] 2 (outbox (seen_by [ip] 1 ob) @ [ArticleViewed 1]))"
    unfolding m by (simp add: seen_by_def updates_commute)
  with that show ?thesis .
qed

lemma one_key: "view_keys [view_key 1]" "flush_ok env0 (Inr [view_key 1])"
  by (auto simp: flush_ok_def view_keys_def env0_def max_uint64_def intro!: exI [of _ 1])

lemma views_exact_witness:
  "\<exists>b. row_views 1 b + buffered 1 b = 1 \<and>
    b = flushViewCounts env0 (Inr [view_key 1]) (snd (ViewArticle env0 1 ''1.2.3.4'' (one_article Published)))"
proof -
  let ?b0 = "one_article Published"
  obtain ob where v: "ViewArticle env0 1 ''1.2.3.4'' ?b0 = (Inr True, seen_by [''1.2.3.4''] 1 ob)" by (rule first_view)
  have u: "unexpired env0 ?b0"
    by (simp add: unexpired_def counter_def held_def live_def one_facts)
  from vr_flush [OF vr_view [OF vr_start u v] _ one_key(2), of 1]
  have r: "views_run 1 ?b0 1 (flushViewCounts env0 (Inr [view_key 1]) (snd (ViewArticle env0 1 ''1.2.3.4'' ?b0)))"
    unfolding v snd_conv counted_def by simp
  show ?thesis
    using views_exact [OF r] one_facts [of Published]
    by (simp add: counters_ok_def counter_value_def counter_def held_def row_views_def buffered_def)
qed

section \<open>Overlaps and failing deletes\<close>

text \<open>What the second half of a flush makes of the increments that its first half read.\<close>

definition flush_rest :: "env \<Rightarrow> string list \<Rightarrow> (string \<times> cobj cval) list \<Rightarrow> blog \<Rightarrow> blog" where
  "flush_rest e ks kvs b = flush_delete e ks (add_views (collect_counts kvs []) b)"

lemma flush_rest_total:
  assumes "view_keys ks" "counters_ok b" "view_key i \<in> set ks" "row_by_id b' i \<noteq> None"
  shows "views_total i (flush_rest e ks (reply b ks) b') = row_views i b' + buffered i b +
    (if kv_fault e [''del'', view_key i] then buffered i b' else 0)"
proof -
  let ?cs = "collect_counts (reply b ks) []"
  note cr = collect_reply [OF assms(1,2), of "[]" i]
  note av = add_views_row [OF assms(4), of ?cs]
  note fd = flush_delete_frame [of e ks "add_views ?cs b'" "view_key i"]
  have "row_views i (flush_rest e ks (reply b ks) b') = row_views i (add_views ?cs b')"
    using fd by (auto simp: flush_rest_def intro: row_views_cong)
  moreover have "row_views i (add_views ?cs b') = row_views i b' + buffered i b"
    using av cr assms(3) by (auto simp: buffered_def)
  moreover have "counter i (flush_rest e ks (reply b ks) b') =
      (if kv_fault e [''del'', view_key i] then counter i b' else None)"
    using fd av cr assms(3) by (auto simp: flush_rest_def counter_def)
  ultimately show ?thesis by (simp add: views_total_def buffered_def)
qed

text \<open>
  Views of an article that arrive after a flush has read its counter and before it deletes it are
  lost: the total falls by exactly their number, although each of them was answered as counted.
\<close>

theorem late_views_lost:
  assumes "view_keys ks" "counters_ok b" "view_key i \<in> set ks" "row_by_id b' i \<noteq> None"
    "\<not> kv_fault e [''del'', view_key i]" "counter i b \<noteq> None"
  shows "views_total i (flush_rest e ks (reply b ks) b') = views_total i b' - (buffered i b' - buffered i b)"
  using flush_rest_total [OF assms(1-4), of e] assms(5) by (simp add: views_total_def)

lemma late_views_lost_witness:
  "\<exists>ob ob'. ViewArticle env0 1 ''5.6.7.8'' (seen_by [''1.2.3.4''] 1 ob) = (Inr True, seen_by [''5.6.7.8'', ''1.2.3.4''] 2 ob') \<and>
    views_total 1 (flush_rest env0 [view_key 1] (reply (seen_by [''1.2.3.4''] 1 ob) [view_key 1])
      (seen_by [''5.6.7.8'', ''1.2.3.4''] 2 ob')) = 1"
proof -
  obtain ob' where v: "ViewArticle env0 1 ''5.6.7.8'' (seen_by [''1.2.3.4''] 1 []) =
      (Inr True, seen_by [''5.6.7.8'', ''1.2.3.4''] 2 ob')" 
    by (rule next_view [of "''1.2.3.4''" "''5.6.7.8''"]) simp_all
  have b: "buffered 1 (seen_by ips n ob) = n" if "0 < n" "n < 2 ^ 63" for ips n ob
    using that by (intro buffered_value) simp_all
  have f: "row_by_id (seen_by ips n ob) 1 = Some (one_po Published)" "po_ViewCount (one_po Published) = 0" for ips n ob
    by (simp_all only: seen_facts one_facts)
  have o: "counters_ok (seen_by [''1.2.3.4''] 1 [])"
    by (auto simp: counters_ok_def counter_value_def)
  have "views_total 1 (flush_rest env0 [view_key 1] (reply (seen_by [''1.2.3.4''] 1 []) [view_key 1])
      (seen_by [''5.6.7.8'', ''1.2.3.4''] 2 ob')) = views_total 1 (seen_by [''5.6.7.8'', ''1.2.3.4''] 2 ob') -
      (buffered 1 (seen_by [''5.6.7.8'', ''1.2.3.4''] 2 ob') - buffered 1 (seen_by [''1.2.3.4''] 1 []))"
    by (rule late_views_lost [OF one_key(1) o]) (simp_all add: seen_facts [simplified])
  also have "\<dots> = 1" unfolding views_total_def row_views_def f option.case by (simp add: f(2) b [of 1, simplified])
  finally have "views_total 1 (flush_rest env0 [view_key 1] (reply (seen_by [''1.2.3.4''] 1 []) [view_key 1])
      (seen_by [''5.6.7.8'', ''1.2.3.4''] 2 ob')) = 1" .
  with v show ?thesis by blast
qed

text \<open>A flushed counter whose delete fails stays, and the next flush adds it again.\<close>

lemma failed_delete_counts_twice:
  assumes "view_keys ks" "counters_ok b" "view_key i \<in> set ks" "row_by_id b i \<noteq> None"
    "kv_fault e [''del'', view_key i]"
  shows "views_total i (flush_rest e ks (reply b ks) b) = views_total i b + buffered i b"
  using flush_rest_total [OF assms(1-4), of e] assms(5) by (simp add: views_total_def)

end
