(* ===== verification/CacheScan.thy ===== *)
theory CacheScan
  imports ViewProps
begin

text \<open>
  The rest of the Redis cache (pkg/cache/redis.go): the loop over SCAN, times to live, flushing, counting
  down, reading and deleting an object; and the flush of the view counts on top of a scan.
\<close>

section \<open>Single commands\<close>

text \<open>
  A connection is described by its address; the cache is returned whether the first PING succeeds or not.
\<close>

record redis_options =
  ro_Addr :: string
  ro_Password :: string
  ro_DB :: int
  ro_PoolSize :: nat
  ro_MinIdleConns :: nat

definition NewRedisCache :: "string \<Rightarrow> int \<Rightarrow> string \<Rightarrow> int \<Rightarrow> redis_options" where
  "NewRedisCache host port password db =
    \<lparr>ro_Addr = host @ '':'' @ show_int port, ro_Password = password, ro_DB = db, ro_PoolSize = 20, ro_MinIdleConns = 5\<rparr>"

text \<open>Durations are nanoseconds; Redis answers in whole seconds, rounded.\<close>

definition rc_ttl :: "env \<Rightarrow> string \<Rightarrow> 'o rstore \<Rightarrow> int res" where
  "rc_ttl e k m =
    (if kv_fault e [''ttl'', k] then Inl kv_error
     else case live e m k of
            None \<Rightarrow> Inr (- 2)
          | Some v \<Rightarrow>
            (case snd (the (m k)) of
               None \<Rightarrow> Inr (- 1)
             | Some t \<Rightarrow> Inr ((t - e_now e + 500000000) div 1000000000 * 1000000000)))"

definition rc_flush :: "env \<Rightarrow> 'o rstore \<Rightarrow> err option \<times> 'o rstore" where
  "rc_flush e m = (if kv_fault e [''flushdb''] then (Some kv_error, m) else (None, Map.empty))"

definition rc_decr :: "env \<Rightarrow> string \<Rightarrow> 'o rstore \<Rightarrow> int res \<times> 'o rstore" where
  "rc_decr e k m =
    (if kv_fault e [''decr'', k] then (Inl kv_error, m)
     else case live e m k of
            None \<Rightarrow> (Inr (- 1), m(k \<mapsto> (Raw (show_int (- 1)), None)))
          | Some (Json x) \<Rightarrow> (Inl kv_error, m)
          | Some (Raw b) \<Rightarrow>
              (case parse_int64 b of
                 None \<Rightarrow> (Inl kv_error, m)
               | Some n \<Rightarrow>
                   if - (2 ^ 63) \<le> n - 1
                   then (Inr (n - 1), m(k \<mapsto> (Raw (show_int (n - 1)), snd (the (m k)))))
                   else (Inl kv_error, m)))"

definition rc_get_object_del :: "env \<Rightarrow> ('o \<Rightarrow> 'a option) \<Rightarrow> string \<Rightarrow> 'o rstore \<Rightarrow> 'a res \<times> 'o rstore" where
  "rc_get_object_del e as k m =
    (case rc_getdel e k m of
       (Inl er, m1) \<Rightarrow> (Inl er, m1)
     | (Inr (Raw b), m1) \<Rightarrow> (Inl (Opaque ''json''), m1)
     | (Inr (Json x), m1) \<Rightarrow> (case as x of None \<Rightarrow> (Inl (Opaque ''json''), m1) | Some a \<Rightarrow> (Inr a, m1)))"

section \<open>ScanAll\<close>

text \<open>
  One SCAN takes a cursor and answers a page of keys and the next cursor, 0 at the end; the server's state
  \<^verbatim>\<open>s\<close> may change from call to call. The loop runs until it sees 0 or an error.
\<close>

type_synonym 's scan = "nat \<Rightarrow> 's \<Rightarrow> (string list \<times> nat) res \<times> 's"

partial_function (option) scan_loop :: "'s scan \<Rightarrow> nat \<Rightarrow> string list \<Rightarrow> 's \<Rightarrow> (string list res \<times> 's) option" where
  "scan_loop scan cursor keys s =
    (case scan cursor s of
       (Inl er, s1) \<Rightarrow> Some (Inl er, s1)
     | (Inr (page, nxt), s1) \<Rightarrow>
       if nxt = 0 then Some (Inr (keys @ page), s1) else scan_loop scan nxt (keys @ page) s1)"

definition ScanAll :: "'s scan \<Rightarrow> 's \<Rightarrow> (string list res \<times> 's) option" where
  "ScanAll scan s = scan_loop scan 0 [] s"

text \<open>The pages of a complete iteration.\<close>

inductive scan_pages :: "'s scan \<Rightarrow> nat \<Rightarrow> 's \<Rightarrow> string list list \<Rightarrow> 's \<Rightarrow> bool" for scan where
  sp_last: "scan c s = (Inr (p, 0), s1) \<Longrightarrow> scan_pages scan c s [p] s1"
| sp_next: "scan c s = (Inr (p, n), s1) \<Longrightarrow> n \<noteq> 0 \<Longrightarrow> scan_pages scan n s1 ps s2 \<Longrightarrow> scan_pages scan c s (p # ps) s2"

lemma scan_loop_pages:
  assumes "scan_pages scan c s ps s'"
  shows "scan_loop scan c keys s = Some (Inr (keys @ concat ps), s')"
  using assms
proof (induction arbitrary: keys)
  case (sp_last c s p s1)
  then show ?case by (subst scan_loop.simps) simp
next
  case (sp_next c s p n s1 ps s2)
  then show ?case by (subst scan_loop.simps) simp
qed

definition whole_scan :: "'s scan \<Rightarrow> nat \<Rightarrow> string list \<Rightarrow> 's \<Rightarrow> string list res \<times> 's \<Rightarrow> bool" where
  "whole_scan scan c keys s y \<longleftrightarrow> (\<forall>ks. fst y = Inr ks \<longrightarrow> (\<exists>ps. scan_pages scan c s ps (snd y) \<and> ks = keys @ concat ps))"

lemma loop_whole_scan:
  assumes "scan_loop scan c keys s = Some y"
  shows "whole_scan scan c keys s y"
proof (rule scan_loop.raw_induct [of whole_scan, OF _ assms], goal_cases)
  case (1 loop scan c keys s y)
  obtain r s1 where sc: "scan c s = (r, s1)" by fastforce
  show ?case
  proof (cases r)
    case (Inr x)
    obtain p n where x: "x = (p, n)" by fastforce
    show ?thesis
    proof (cases "n = 0")
      case True
      with 1(2) sc Inr x show ?thesis by (auto simp: whole_scan_def intro!: exI [of _ "[p]"] sp_last)
    next
      case False
      with 1(2) sc Inr x have "loop scan n (keys @ p) s1 = Some y" by simp
      with 1(1) have "whole_scan scan n (keys @ p) s1 y" by blast
      with False sc Inr x show ?thesis
        by (fastforce simp: whole_scan_def intro: sp_next)
    qed
  qed (use 1(2) sc in \<open>auto simp: whole_scan_def\<close>)
qed

text \<open>
  ScanAll returns a list of keys exactly when the cursors it is given come back to 0 without an error,
  however many pages that takes, and then the list is the pages one after the other.
\<close>

theorem ScanAll_exact:
  "ScanAll scan s = Some (Inr ks, s') \<longleftrightarrow> (\<exists>ps. scan_pages scan 0 s ps s' \<and> ks = concat ps)"
  using scan_loop_pages [of scan 0 s _ s' "[]"] loop_whole_scan [of scan 0 "[]" s "(Inr ks, s')"]
  by (auto simp: ScanAll_def whole_scan_def)

text \<open>A server whose cursors never come back to 0 holds the loop for ever.\<close>

lemma ScanAll_endless:
  assumes "\<And>c s. \<exists>p n s1. scan c s = (Inr (p, Suc n), s1)"
  shows "\<nexists>ks s'. ScanAll scan s = Some (Inr ks, s')"
proof -
  have "scan_pages scan c s ps s' \<Longrightarrow> False" for c s ps s'
  proof (induction rule: scan_pages.induct)
    case (sp_last c s p s1)
    with assms [of c s] show ?case by auto
  qed
  then show ?thesis using loop_whole_scan [of scan 0 "[]" s] by (fastforce simp: ScanAll_def whole_scan_def)
qed

section \<open>The last flush\<close>

text \<open>What the flush does when nothing fails and some counter is among the keys.\<close>

lemma counters_read:
  assumes "calm e" "counters_ok b" "unexpired e b" "view_keys ks" "view_key i \<in> set ks" "counter i b \<noteq> None"
  shows "ks \<noteq> []" "rc_mget e ks (kv b) = Inr (reply b ks)" "collect_counts (reply b ks) [] \<noteq> []"
proof -
  show "rc_mget e ks (kv b) = Inr (reply b ks)"
  proof (cases "rc_mget e ks (kv b)")
    case (Inr kvs)
    with mget_reply [OF assms(4,3)] show ?thesis by simp
  qed (use assms(1,5) in \<open>auto simp: rc_mget_def split: if_splits\<close>)
  have "map_of (collect_counts (reply b ks) []) i \<noteq> None"
    using collect_reply [OF assms(4,2), of "[]" i] assms(5,6) by simp
  then show "collect_counts (reply b ks) [] \<noteq> []" by auto
qed (use assms(5) in auto)

lemma flush_all_counters:
  assumes "calm e" "counters_ok b" "unexpired e b" "view_keys ks" "view_key i \<in> set ks" "counter i b \<noteq> None"
  shows "flushViewCounts e (Inr ks) b = flush_rest e ks (reply b ks) b"
proof -
  have "flush_tx e (collect_counts (reply b ks) []) b = (None, add_views (collect_counts (reply b ks) []) b)"
    using assms(1) by (auto simp: flush_tx_def)
  with counters_read [OF assms] show ?thesis by (simp add: flushViewCounts_def flush_rest_def Let_def)
qed

text \<open>
  The flush at shutdown leaves nothing behind: when the pages of the scan bring the counter of a live article
  and nothing fails, the scan ends, the row then holds all its views and the counter is gone.
\<close>

lemma last_flush_complete:
  assumes "scan_pages scan 0 s ps s'" "calm e" "counters_ok b" "unexpired e b" "view_keys (concat ps)"
    "view_key i \<in> set (concat ps)" "counter i b \<noteq> None" "row_by_id b i \<noteq> None"
  obtains r where "ScanAll scan s = Some (r, s')"
    "row_views i (flushViewCounts e r b) = row_views i b + buffered i b"
    "counter i (flushViewCounts e r b) = None"
proof -
  let ?ks = "concat ps"
  let ?b = "flush_rest e ?ks (reply b ?ks) b"
  have f: "flushViewCounts e (Inr ?ks) b = ?b" by (rule flush_all_counters [OF assms(2-7)])
  note fd = flush_delete_frame [of e ?ks "add_views (collect_counts (reply b ?ks) []) b" "view_key i"]
  have c: "counter i ?b = None"
    using fd assms(2,6) by (simp add: flush_rest_def counter_def)
  have "views_total i ?b = row_views i b + buffered i b"
    using flush_rest_total [OF assms(5,3,6,8), of e] assms(2) by simp
  with c have "row_views i ?b = row_views i b + buffered i b" by (simp add: views_total_def buffered_def)
  moreover have "ScanAll scan s = Some (Inr ?ks, s')"
    using scan_loop_pages [OF assms(1), of "[]"] by (simp add: ScanAll_def)
  ultimately show thesis using that [of "Inr ?ks"] f c by simp
qed

end
