(* ===== verification/Flusher.thy ===== *)
theory Flusher
  imports CacheScan
begin

text \<open>
  The goroutine that flushes the view counts (app/blog/internal/data/data.go: startViewCountFlusher) beside
  the function that stops it. A flush is two halves, the reads and the writes, between which the other one
  may run. The ticker may fire whenever the goroutine is at its select, also when the channel
  \<^verbatim>\<open>done\<close> is closed, since a select chooses freely among the ready cases.
\<close>

section \<open>The two halves of a flush\<close>

definition flush_read :: "env \<Rightarrow> string list res \<Rightarrow> blog \<Rightarrow> (string list \<times> (string \<times> cobj cval) list) option" where
  "flush_read e scanned b =
    (case scanned of
       Inl er \<Rightarrow> None
     | Inr keys \<Rightarrow>
       if keys = [] then None
       else (case rc_mget e keys (kv b) of
               Inl er \<Rightarrow> None
             | Inr kvs \<Rightarrow> if collect_counts kvs [] = [] then None else Some (keys, kvs)))"

definition flush_write :: "env \<Rightarrow> string list \<times> (string \<times> cobj cval) list \<Rightarrow> blog \<Rightarrow> blog" where
  "flush_write e r b =
    (case flush_tx e (collect_counts (snd r) []) b of
       (Some er, b1) \<Rightarrow> b1
     | (None, b1) \<Rightarrow> flush_delete e (fst r) b1)"

lemma flush_halves: "flushViewCounts e scanned b = (case flush_read e scanned b of None \<Rightarrow> b | Some r \<Rightarrow> flush_write e r b)"
  
  by (auto simp: flushViewCounts_def flush_read_def flush_write_def Let_def split: sum.split prod.split option.split)

section \<open>The goroutine and its stop function\<close>

datatype flush_pc = Idle | Writing "string list \<times> (string \<times> cobj cval) list" | Returned_fl

record flusher =
  fl_loop :: flush_pc
  fl_done :: bool
  fl_stop :: "flush_pc option"
  fl_panic :: bool
  fl_blog :: blog

definition startViewCountFlusher :: "blog \<Rightarrow> flusher" where
  "startViewCountFlusher b = \<lparr>fl_loop = Idle, fl_done = False, fl_stop = None, fl_panic = False, fl_blog = b\<rparr>"

definition begin_flush :: "env \<Rightarrow> string list res \<Rightarrow> flush_pc \<Rightarrow> blog \<Rightarrow> flush_pc" where
  "begin_flush e scanned quiet b = (case flush_read e scanned b of None \<Rightarrow> quiet | Some r \<Rightarrow> Writing r)"

datatype flush_event = Ticked env "string list res" | Wrote env | Done_seen | Stop_called | Stop_read env "string list res" | Stop_wrote env

definition fl_step :: "flush_event \<Rightarrow> flusher \<Rightarrow> flusher option" where
  "fl_step ev s =
    (case ev of
       Ticked e scanned \<Rightarrow>
         if fl_loop s = Idle then Some (s\<lparr>fl_loop := begin_flush e scanned Idle (fl_blog s)\<rparr>) else None
     | Wrote e \<Rightarrow>
         (case fl_loop s of Writing r \<Rightarrow> Some (s\<lparr>fl_loop := Idle, fl_blog := flush_write e r (fl_blog s)\<rparr>) | _ \<Rightarrow> None)
     | Done_seen \<Rightarrow> if fl_loop s = Idle \<and> fl_done s then Some (s\<lparr>fl_loop := Returned_fl\<rparr>) else None
     | Stop_called \<Rightarrow>
         if fl_done s then Some (s\<lparr>fl_panic := True\<rparr>) else Some (s\<lparr>fl_done := True, fl_stop := Some Idle\<rparr>)
     | Stop_read e scanned \<Rightarrow>
         if fl_stop s = Some Idle then Some (s\<lparr>fl_stop := Some (begin_flush e scanned Returned_fl (fl_blog s))\<rparr>) else None
     | Stop_wrote e \<Rightarrow>
         (case fl_stop s of
            Some (Writing r) \<Rightarrow> Some (s\<lparr>fl_stop := Some Returned_fl, fl_blog := flush_write e r (fl_blog s)\<rparr>)
          | _ \<Rightarrow> None))"

inductive fl_run :: "flusher \<Rightarrow> flush_event list \<Rightarrow> flusher \<Rightarrow> bool" for s0 where
  fl_start: "fl_run s0 [] s0"
| fl_more: "fl_run s0 es s \<Longrightarrow> fl_step ev s = Some s' \<Longrightarrow> fl_run s0 (es @ [ev]) s'"

section \<open>Flushes that do not overlap\<close>

definition writing :: "flusher \<Rightarrow> (string list \<times> (string \<times> cobj cval) list) list" where
  "writing s = (case fl_loop s of Writing r \<Rightarrow> [r] | _ \<Rightarrow> []) @ (case fl_stop s of Some (Writing r) \<Rightarrow> [r] | _ \<Rightarrow> [])"

text \<open>The scans of an event bring keys of counters, which are not past their deadlines, and no delete fails.\<close>

definition ok_event :: "flush_event \<Rightarrow> flusher \<Rightarrow> bool" where
  "ok_event ev s \<longleftrightarrow>
    (case ev of
       Ticked e scanned \<Rightarrow> writing s = [] \<and> (\<forall>ks. scanned = Inr ks \<longrightarrow> view_keys ks) \<and> unexpired e (fl_blog s)
     | Stop_read e scanned \<Rightarrow> writing s = [] \<and> (\<forall>ks. scanned = Inr ks \<longrightarrow> view_keys ks) \<and> unexpired e (fl_blog s)
     | Wrote e \<Rightarrow> (\<forall>i. \<not> kv_fault e [''del'', view_key i])
     | Stop_wrote e \<Rightarrow> (\<forall>i. \<not> kv_fault e [''del'', view_key i])
     | _ \<Rightarrow> True)"

text \<open>What a half-done flush has read is still what the cache holds.\<close>

definition fl_ok :: "nat \<Rightarrow> int \<Rightarrow> flusher \<Rightarrow> bool" where
  "fl_ok i n s \<longleftrightarrow> counters_ok (fl_blog s) \<and> row_by_id (fl_blog s) i \<noteq> None \<and> views_total i (fl_blog s) = n \<and>
    length (writing s) \<le> 1 \<and> (\<forall>r \<in> set (writing s). view_keys (fst r) \<and> snd r = reply (fl_blog s) (fst r))"

lemma read_reply:
  assumes "flush_read e scanned b = Some r" "unexpired e b" "\<forall>ks. scanned = Inr ks \<longrightarrow> view_keys ks"
  shows "view_keys (fst r) \<and> snd r = reply b (fst r)"
  using assms mget_reply [OF _ assms(2)]
  by (auto simp: flush_read_def split: sum.splits if_splits)

lemma write_total:
  assumes "view_keys (fst r)" "snd r = reply b (fst r)" "counters_ok b" "row_by_id b i \<noteq> None"
    "\<forall>j. \<not> kv_fault e [''del'', view_key j]"
  shows "counters_ok (flush_write e r b) \<and> row_by_id (flush_write e r b) i \<noteq> None \<and>
    views_total i (flush_write e r b) = views_total i b"
proof -
  have d: "\<And>k. k \<in> set (fst r) \<Longrightarrow> \<not> kv_fault e [''del'', k]" using assms(1,5) by (auto simp: view_keys_def)
  from flush_tx_cases [of e "collect_counts (snd r) []" b] show ?thesis
  proof
    assume "flush_tx e (collect_counts (snd r) []) b = (None, add_views (collect_counts (snd r) []) b)"
    then have "flush_write e r b = flush_delete e (fst r) (add_views (collect_counts (reply b (fst r)) []) b)"
      using assms(2) by (simp add: flush_write_def)
    with flush_writes [OF assms(3,4,1) d] show ?thesis by blast
  next
    assume "flush_tx e (collect_counts (snd r) []) b = (Some db_error, b)"
    with assms(3,4) show ?thesis by (simp add: flush_write_def)
  qed
qed

lemma fl_ok_step:
  assumes "fl_ok i n s" "fl_step ev s = Some s'" "ok_event ev s"
  shows "fl_ok i n s'"
proof (cases ev)
  case (Ticked e scanned)
  with assms read_reply [of e scanned "fl_blog s"] show ?thesis
    by (auto simp: fl_step_def ok_event_def fl_ok_def writing_def begin_flush_def split: if_splits option.splits flush_pc.splits)
next
  case (Stop_read e scanned)
  with assms read_reply [of e scanned "fl_blog s"] show ?thesis
    by (auto simp: fl_step_def ok_event_def fl_ok_def writing_def begin_flush_def split: if_splits option.splits flush_pc.splits)
next
  case (Wrote e)
  with assms(2) obtain r where r: "fl_loop s = Writing r" "s' = s\<lparr>fl_loop := Idle, fl_blog := flush_write e r (fl_blog s)\<rparr>"
    by (auto simp: fl_step_def split: flush_pc.splits)
  with assms(1,3) Wrote write_total [of r "fl_blog s" i e] show ?thesis
    by (auto simp: ok_event_def fl_ok_def writing_def split: option.splits flush_pc.splits)
next
  case (Stop_wrote e)
  with assms(2) obtain r where r: "fl_stop s = Some (Writing r)"
      "s' = s\<lparr>fl_stop := Some Returned_fl, fl_blog := flush_write e r (fl_blog s)\<rparr>"
    by (auto simp: fl_step_def split: flush_pc.splits option.splits)
  with assms(1,3) Stop_wrote write_total [of r "fl_blog s" i e] show ?thesis
    by (auto simp: ok_event_def fl_ok_def writing_def split: option.splits flush_pc.splits)
next
  case Done_seen
  with assms(2) have "s' = s\<lparr>fl_loop := Returned_fl\<rparr>" "fl_loop s = Idle" by (auto simp: fl_step_def split: if_splits)
  with assms(1) show ?thesis by (simp add: fl_ok_def writing_def)
next
  case Stop_called
  show ?thesis
  proof (cases "fl_done s")
    case True
    with assms(2) Stop_called have s: "s' = s\<lparr>fl_panic := True\<rparr>" by (simp add: fl_step_def)
    then have "writing s' = writing s" by (simp add: writing_def)
    with s assms(1) show ?thesis by (simp add: fl_ok_def)
  next
    case False
    with assms(2) Stop_called have s: "s' = s\<lparr>fl_done := True, fl_stop := Some Idle\<rparr>" by (simp add: fl_step_def)
    have "set (writing s') \<subseteq> set (writing s)" "length (writing s') \<le> length (writing s)"
      by (simp_all add: writing_def s)
    with s assms(1) show ?thesis by (auto simp: fl_ok_def)
  qed
qed

inductive ok_run :: "flusher \<Rightarrow> flush_event list \<Rightarrow> flusher \<Rightarrow> bool" for s0 where
  ok_start: "ok_run s0 [] s0"
| ok_more: "ok_run s0 es s \<Longrightarrow> ok_event ev s \<Longrightarrow> fl_step ev s = Some s' \<Longrightarrow> ok_run s0 (es @ [ev]) s'"

text \<open>
  As long as no flush begins while another one is between its halves, the ticker's flushes and the last one
  of the stop function together change no total, in whatever order they come.
\<close>

theorem flusher_keeps_views:
  assumes "ok_run (startViewCountFlusher b) es s" "counters_ok b" "row_by_id b i \<noteq> None"
  shows "views_total i (fl_blog s) = views_total i b"
proof -
  from assms have "fl_ok i (views_total i b) s"
  proof (induction rule: ok_run.induct)
    case (ok_more es s ev s')
    then show ?case using fl_ok_step by blast
  qed (simp add: fl_ok_def startViewCountFlusher_def writing_def)
  then show ?thesis by (simp add: fl_ok_def)
qed

section \<open>Flushes that overlap\<close>

text \<open>
  Stopping does not wait for a flush that is under way: when the goroutine has read a counter and has not yet
  written it, the flush of the stop function reads it too, and its views are in the row twice.
\<close>

theorem stop_counts_twice:
  assumes "fl_loop s = Writing (ks, reply (fl_blog s) ks)" "\<not> fl_done s"
    "calm e" "counters_ok (fl_blog s)" "unexpired e (fl_blog s)" "view_keys ks" "view_key i \<in> set ks"
    "counter i (fl_blog s) \<noteq> None" "row_by_id (fl_blog s) i \<noteq> None"
  shows "\<exists>s'. fl_run s [Stop_called, Stop_read e (Inr ks), Stop_wrote e, Wrote e, Done_seen] s' \<and> fl_loop s' = Returned_fl \<and>
    views_total i (fl_blog s') = views_total i (fl_blog s) + buffered i (fl_blog s)"
proof -
  let ?b = "fl_blog s" and ?r = "(ks, reply (fl_blog s) ks)"
  let ?b1 = "flush_write e ?r ?b"
  let ?b2 = "flush_write e ?r ?b1"
  note cr = counters_read [OF assms(3-8)]
  have rd: "begin_flush e (Inr ks) Returned_fl ?b = Writing ?r" using cr by (simp add: begin_flush_def flush_read_def)
  have w: "flush_write e ?r b' = flush_rest e ks (reply ?b ks) b'" for b'
    using assms(3) by (simp add: flush_write_def flush_tx_def flush_rest_def)
  have del: "\<And>j. \<not> kv_fault e [''del'', view_key j]" using assms(3) by simp
  have b1: "row_by_id ?b1 i \<noteq> None" "views_total i ?b1 = views_total i ?b"
    using write_total [of ?r ?b i e] assms(4,6,9) del by auto
  have "counter i ?b1 = None"
    using flush_delete_frame [of e ks "add_views (collect_counts (reply ?b ks) []) ?b" "view_key i"] assms(7) del
    by (simp add: w flush_rest_def counter_def)
  then have "row_views i ?b1 = views_total i ?b" using b1(2) by (simp add: views_total_def buffered_def)
  then have t: "views_total i ?b2 = views_total i ?b + buffered i ?b"
    using flush_rest_total [OF assms(6,4,7) b1(1), of e] del by (simp add: w)
  let ?s1 = "s\<lparr>fl_done := True, fl_stop := Some Idle\<rparr>"
  let ?s2 = "?s1\<lparr>fl_stop := Some (Writing ?r)\<rparr>"
  let ?s3 = "?s2\<lparr>fl_stop := Some Returned_fl, fl_blog := ?b1\<rparr>"
  let ?s4 = "?s3\<lparr>fl_loop := Idle, fl_blog := ?b2\<rparr>"
  have "fl_step Stop_called s = Some ?s1" "fl_step (Stop_read e (Inr ks)) ?s1 = Some ?s2"
    "fl_step (Stop_wrote e) ?s2 = Some ?s3" "fl_step (Wrote e) ?s3 = Some ?s4"
    "fl_step Done_seen ?s4 = Some (?s4\<lparr>fl_loop := Returned_fl\<rparr>)"
    using assms(1,2) rd by (simp_all add: fl_step_def)
  from fl_more [OF fl_more [OF fl_more [OF fl_more [OF fl_more [OF fl_start this(1)] this(2)] this(3)] this(4)] this(5)] t
  show ?thesis by (intro exI [of _ "?s4\<lparr>fl_loop := Returned_fl\<rparr>"]) simp
qed

end
