(* ===== verification/Nats.thy ===== *)
theory Nats
  imports MemQueue
begin

text \<open>
  The NATS adapter (pkg/mq/nats.go): what its producer sends and what its consumer makes of a delivery. The
  client of NATS, its streams and its server are parameters: \<^verbatim>\<open>publish\<close> answers an error or none on
  its own state.
\<close>

section \<open>Messages on both sides\<close>

text \<open>A message of the package, whose timestamp is 0 when it is not set, and one of NATS.\<close>

record Message =
  msg_ID :: string
  msg_Key :: string
  msg_Payload :: string
  msg_Attributes :: "string \<rightharpoonup> string"
  msg_Timestamp :: int

record nats_msg =
  nm_Subject :: string
  nm_Data :: string
  nm_Header :: "string \<rightharpoonup> string list"

definition nats_message :: "string \<Rightarrow> Message \<Rightarrow> nats_msg" where
  "nats_message topic m =
    \<lparr>nm_Subject = topic, nm_Data = msg_Payload m, nm_Header = (\<lambda>k. map_option (\<lambda>v. [v]) (msg_Attributes m k))\<rparr>"

definition received_message :: "int \<Rightarrow> nats_msg \<Rightarrow> Message" where
  "received_message now jm =
    \<lparr>msg_ID = [], msg_Key = [], msg_Payload = nm_Data jm,
     msg_Attributes = (\<lambda>k. case nm_Header jm k of Some (v # vs) \<Rightarrow> Some v | _ \<Rightarrow> None), msg_Timestamp = now\<rparr>"

text \<open>Payload and attributes arrive as they were sent; id, key and time of a message do not.\<close>

theorem message_survives:
  "received_message now (nats_message topic m) = m\<lparr>msg_ID := [], msg_Key := [], msg_Timestamp := now\<rparr>"
  by (cases m) (auto simp: received_message_def nats_message_def split: option.split)

section \<open>The connection\<close>

text \<open>
  Connecting: when the second step fails, the connection of the first is closed. The result is the cache of
  streams, the second component what the client was asked to close.
\<close>

definition NewNATSConnection :: "err option \<Rightarrow> err option \<Rightarrow> (string \<rightharpoonup> 'st) res \<times> bool" where
  "NewNATSConnection connect jetstream =
    (case connect of
       Some er \<Rightarrow> (Inl (Wrap ''nats: failed to connect'' er), False)
     | None \<Rightarrow>
       (case jetstream of
          Some er \<Rightarrow> (Inl (Wrap ''nats: failed to create jetstream context'' er), True)
        | None \<Rightarrow> (Inr Map.empty, False)))"

definition nats_conn_Close :: "(string \<rightharpoonup> 'st) option \<Rightarrow> (string \<rightharpoonup> 'st) option" where
  "nats_conn_Close streams = None"

definition nats_Ping :: "bool \<Rightarrow> string option" where
  "nats_Ping connected = (if \<not> connected then Some ErrConnectionClosed else None)"

lemma closed_connection_panics:
  assumes "create (stream_name topic) topic = Inr st"
  shows "fst (getOrCreateStream create topic (nats_conn_Close streams)) = Inl (Panic ''assignment to entry in nil map'')"
  using assms by (simp add: getOrCreateStream_def nats_conn_Close_def)

section \<open>Sending\<close>

definition nats_Send :: "int \<Rightarrow> (nats_msg \<Rightarrow> 's \<Rightarrow> string option \<times> 's) \<Rightarrow> string \<Rightarrow> Message \<Rightarrow> 's \<Rightarrow> string option \<times> 's" where
  "nats_Send now publish topic m s =
    (let m1 = (if msg_Timestamp m = 0 then m\<lparr>msg_Timestamp := now\<rparr> else m) in publish (nats_message topic m1) s)"

fun nats_SendBatch :: "int \<Rightarrow> (nats_msg \<Rightarrow> 's \<Rightarrow> string option \<times> 's) \<Rightarrow> string \<Rightarrow> Message list \<Rightarrow> 's \<Rightarrow> string option \<times> 's" where
  "nats_SendBatch now publish topic [] s = (None, s)"
| "nats_SendBatch now publish topic (m # ms) s =
    (case nats_Send now publish topic m s of
       (Some er, s1) \<Rightarrow> (Some er, s1)
     | (None, s1) \<Rightarrow> nats_SendBatch now publish topic ms s1)"

text \<open>
  A server that keeps what it accepts: \<^verbatim>\<open>up\<close> says which publication, counted from the first, is accepted.
\<close>

definition log_publish :: "(nat \<Rightarrow> string option) \<Rightarrow> nats_msg \<Rightarrow> nat \<times> nats_msg list \<Rightarrow> string option \<times> (nat \<times> nats_msg list)" where
  "log_publish up jm s = (case up (fst s) of Some er \<Rightarrow> (Some er, (Suc (fst s), snd s)) | None \<Rightarrow> (None, (Suc (fst s), snd s @ [jm])))"

lemma nats_message_time [simp]: "nats_message topic (m\<lparr>msg_Timestamp := t\<rparr>) = nats_message topic m"
  by (simp add: nats_message_def)

lemma logged_send: "nats_Send now (log_publish up) topic m (n, l) =
    (case up n of Some er \<Rightarrow> (Some er, (Suc n, l)) | None \<Rightarrow> (None, (Suc n, l @ [nats_message topic m])))"
  by (simp add: nats_Send_def log_publish_def Let_def split: option.split)

text \<open>A batch is not atomic: when it fails, the messages before the failing one have been published, and none after it.\<close>

lemma batch_prefix:
  assumes "nats_SendBatch now (log_publish up) topic ms (n, l) = (r, (n', l'))"
  shows "\<exists>k. k \<le> length ms \<and> l' = l @ map (nats_message topic) (take k ms) \<and> (r = None \<longleftrightarrow> k = length ms)"
  using assms
proof (induction ms arbitrary: n l)
  case (Cons m ms)
  show ?case
  proof (cases "up n")
    case None
    with Cons.prems have "nats_SendBatch now (log_publish up) topic ms (Suc n, l @ [nats_message topic m]) = (r, (n', l'))"
      by (simp add: logged_send)
    from Cons.IH [OF this] obtain k where "k \<le> length ms"
      "l' = (l @ [nats_message topic m]) @ map (nats_message topic) (take k ms)" "r = None \<longleftrightarrow> k = length ms" by blast
    then show ?thesis by (intro exI [of _ "Suc k"]) simp
  next
    case (Some er)
    with Cons.prems have "l' = l" "r = Some er"
      by (auto simp: logged_send)
    then show ?thesis by (intro exI [of _ 0]) simp
  qed
qed simp

section \<open>Consuming\<close>

text \<open>What the server is asked for: a durable consumer with explicit acknowledgements.\<close>

record consumer_request =
  cr_Durable :: string
  cr_AckExplicit :: bool
  cr_FilterSubject :: string
  cr_MaxWaiting :: int

definition request_for :: "string \<Rightarrow> ConsumerConfig \<Rightarrow> consumer_request" where
  "request_for topic cf =
    \<lparr>cr_Durable = consumer_name topic (Group cf), cr_AckExplicit = True, cr_FilterSubject = topic,
     cr_MaxWaiting = PrefetchCount cf\<rparr>"

text \<open>Starting to consume; an error or a panic ends it, otherwise it waits and deliveries come.\<close>

definition nats_Consume :: "(string \<Rightarrow> string \<Rightarrow> string + 'st) \<Rightarrow> ('st \<Rightarrow> consumer_request \<Rightarrow> string option) \<Rightarrow> string option \<Rightarrow>
    string \<Rightarrow> ConsumerConfig \<Rightarrow> (string \<rightharpoonup> 'st) option \<Rightarrow> pub_result option \<times> (string \<rightharpoonup> 'st) option" where
  "nats_Consume create mk_consumer start topic cf streams =
    (case getOrCreateStream create topic streams of
       (Inl er, streams1) \<Rightarrow> (Some er, streams1)
     | (Inr st, streams1) \<Rightarrow>
       (case mk_consumer st (request_for topic cf) of
          Some er \<Rightarrow> (Some (Error (''nats: failed to create consumer: '' @ er)), streams1)
        | None \<Rightarrow>
          (case start of
             Some er \<Rightarrow> (Some (Error (''nats: failed to start consuming: '' @ er)), streams1)
           | None \<Rightarrow> (None, streams1))))"

text \<open>One delivery: the handler runs on the message and the adapter settles it.\<close>

definition nats_deliver :: "ConsumerConfig \<Rightarrow> (Message \<Rightarrow> 'h \<Rightarrow> string option \<times> 'h) \<Rightarrow> int \<Rightarrow> nats_msg \<Rightarrow> 'h \<Rightarrow> settlement \<times> 'h" where
  "nats_deliver cf handler now jm h = (case handler (received_message now jm) h of (er, h1) \<Rightarrow> (nats_settle cf er, h1))"

text \<open>
  A stream delivers its messages one after the other, and one again as long as it is not settled for good;
  \<^verbatim>\<open>fuel\<close> bounds the deliveries looked at.
\<close>

fun nats_stream :: "nat \<Rightarrow> ConsumerConfig \<Rightarrow> (Message \<Rightarrow> 'h \<Rightarrow> string option \<times> 'h) \<Rightarrow> int \<Rightarrow> nats_msg list \<Rightarrow> 'h \<Rightarrow>
    nats_msg list \<times> 'h" where
  "nats_stream 0 cf handler now q h = (q, h)"
| "nats_stream (Suc n) cf handler now [] h = ([], h)"
| "nats_stream (Suc n) cf handler now (jm # q) h =
    (case nats_deliver cf handler now jm h of
       (r, h1) \<Rightarrow> nats_stream n cf handler now (if r = Ack \<or> r = Term then q else q @ [jm]) h1)"

text \<open>What a handler that keeps its messages has seen.\<close>

definition keeper :: "(Message \<Rightarrow> string option) \<Rightarrow> Message \<Rightarrow> Message list \<Rightarrow> string option \<times> Message list" where
  "keeper f m seen = (f m, seen @ [m])"

text \<open>
  Without AutoAck and retries, as every consumer the options can make, each message is handled exactly once, in
  order, also when its handler fails.
\<close>

lemma handled_once:
  assumes "\<not> AutoAck cf" "MaxRetries cf \<le> 0"
  shows "nats_stream (length q) cf (keeper f) now q seen = ([], seen @ map (received_message now) q)"
proof (induction q arbitrary: seen)
  case (Cons jm q)
  have "nats_deliver cf (keeper f) now jm seen \<in> {Ack, Term} \<times> {seen @ [received_message now jm]}"
    using assms by (auto simp: nats_deliver_def keeper_def nats_settle_def)
  with Cons show ?case by (auto split: prod.split)
qed simp

text \<open>With AutoAck nothing is ever settled: the messages come again and again.\<close>

lemma auto_ack_repeats:
  assumes "AutoAck cf"
  shows "nats_stream (n * length q) cf (keeper f) now q seen =
    (q, seen @ concat (replicate n (map (received_message now) q)))"
proof (induction n arbitrary: seen)
  case (Suc n)
  have one: "nats_stream (length l + k) cf (keeper f) now (l @ r) seen =
      nats_stream k cf (keeper f) now (r @ l) (seen @ map (received_message now) l)" for l r k seen
  proof (induction l arbitrary: r seen)
    case (Cons a l)
    have "nats_deliver cf (keeper f) now a seen = (Unsettled, seen @ [received_message now a])"
      using assms by (simp add: nats_deliver_def keeper_def nats_settle_def)
    with Cons [of "r @ [a]" "seen @ [received_message now a]"] show ?case by simp
  qed simp
  from one [of q "n * length q" "[]" seen] Suc [of "seen @ map (received_message now) q"] show ?case by simp
qed (cases q, simp_all)

end
