(* ===== verification/OssClients.thy ===== *)
theory OssClients
  imports ObjectStore
begin

text \<open>
  The clients of the object storage (pkg/oss): the interface the services use, its implementations over the
  SDKs of Aliyun and MinIO, and the tracing decorator around them. The SDKs are parameters: records of
  calls on a state of the storage service.
\<close>

section \<open>The interface (oss.go)\<close>

text \<open>What a listing or a read tells of an object besides its size and type; times are in seconds.\<close>

record ObjectMeta = ObjectInfo +
  oi_LastModified :: int
  oi_ETag :: string

record Part =
  PartNumber :: int
  ETag :: string

record BucketInfo =
  bi_Name :: string
  bi_CreationDate :: string

type_synonym ('s, 'a) call = "'s \<Rightarrow> (oss_error + 'a) \<times> 's"

record 's OSSWithBucket =
  i_PutObject :: "string \<Rightarrow> string \<Rightarrow> int \<Rightarrow> string \<Rightarrow> ('s, unit) call"
  i_GetObject :: "string \<Rightarrow> ('s, string \<times> ObjectMeta) call"
  i_GetObjectRange :: "string \<Rightarrow> int \<Rightarrow> int \<Rightarrow> ('s, string \<times> ObjectMeta) call"
  i_StatObject :: "string \<Rightarrow> ('s, ObjectMeta) call"
  i_DeleteObject :: "string \<Rightarrow> ('s, unit) call"
  i_DeleteObjects :: "string list \<Rightarrow> ('s, unit) call"
  i_CopyObject :: "string \<Rightarrow> string \<Rightarrow> ('s, unit) call"
  i_ListObjects :: "string \<Rightarrow> int \<Rightarrow> string \<Rightarrow> ('s, ObjectMeta list \<times> string) call"
  i_GetPresignedURL :: "string \<Rightarrow> int \<Rightarrow> ('s, string) call"
  i_GetPresignedPutURL :: "string \<Rightarrow> string \<Rightarrow> int \<Rightarrow> ('s, string) call"
  i_InitiateMultipartUpload :: "string \<Rightarrow> string \<Rightarrow> ('s, string) call"
  i_UploadPart :: "string \<Rightarrow> string \<Rightarrow> int \<Rightarrow> string \<Rightarrow> int \<Rightarrow> ('s, Part) call"
  i_CompleteMultipartUpload :: "string \<Rightarrow> string \<Rightarrow> Part list \<Rightarrow> ('s, unit) call"
  i_AbortMultipartUpload :: "string \<Rightarrow> string \<Rightarrow> ('s, unit) call"
  i_BucketExists :: "string \<Rightarrow> ('s, bool) call"
  i_MakeBucket :: "string \<Rightarrow> ('s, unit) call"
  i_RemoveBucket :: "string \<Rightarrow> ('s, unit) call"
  i_ListBuckets :: "('s, BucketInfo list) call"

text \<open>An answer of an SDK, its error mapped and its result converted.\<close>

definition mapped :: "(sdk_error \<Rightarrow> oss_error) \<Rightarrow> ('x \<Rightarrow> 'a) \<Rightarrow> (sdk_error + 'x) \<times> 's \<Rightarrow> (oss_error + 'a) \<times> 's" where
  "mapped err f r = (case r of (Inl er, s) \<Rightarrow> (Inl (err er), s) | (Inr x, s) \<Rightarrow> (Inr (f x), s))"

definition seconds :: "int \<Rightarrow> int" where "seconds n = wrap64 (n * 1000000000)"

section \<open>Aliyun (aliyun.go)\<close>

text \<open>Values the SDK returns by pointer are options; a missing time is the zero time.\<close>

definition derefStr :: "string option \<Rightarrow> string" where
  "derefStr p = (case p of None \<Rightarrow> [] | Some s \<Rightarrow> s)"

definition derefTime :: "int option \<Rightarrow> int" where
  "derefTime p = (case p of None \<Rightarrow> - 62135596800 | Some t \<Rightarrow> t)"

definition opt_string :: "string \<Rightarrow> string option" where
  "opt_string s = (if s \<noteq> [] then Some s else None)"

record al_info =
  al_ContentLength :: int
  al_ContentType :: "string option"
  al_LastModified :: "int option"
  al_ETag :: "string option"

record al_entry =
  ae_Key :: "string option"
  ae_Size :: int
  ae_LastModified :: "int option"
  ae_ETag :: "string option"

record 's aliyun_sdk =
  al_PutObject :: "string \<Rightarrow> string \<Rightarrow> string option \<Rightarrow> int option \<Rightarrow> 's \<Rightarrow> (sdk_error + unit) \<times> 's"
  al_GetObject :: "string \<Rightarrow> string option \<Rightarrow> 's \<Rightarrow> (sdk_error + string \<times> al_info) \<times> 's"
  al_HeadObject :: "string \<Rightarrow> 's \<Rightarrow> (sdk_error + al_info) \<times> 's"
  al_DeleteObject :: "string \<Rightarrow> 's \<Rightarrow> (sdk_error + unit) \<times> 's"
  al_DeleteMultipleObjects :: "string list \<Rightarrow> 's \<Rightarrow> sdk_error option \<times> 's"
  al_CopyObject :: "string \<Rightarrow> string \<Rightarrow> 's \<Rightarrow> (sdk_error + unit) \<times> 's"
  al_ListObjectsV2 :: "int \<Rightarrow> string option \<Rightarrow> string option \<Rightarrow> 's \<Rightarrow>
    (sdk_error + al_entry list \<times> bool \<times> string option) \<times> 's"
  al_PresignGet :: "string \<Rightarrow> int \<Rightarrow> 's \<Rightarrow> (sdk_error + string) \<times> 's"
  al_PresignPut :: "string \<Rightarrow> string option \<Rightarrow> int \<Rightarrow> 's \<Rightarrow> (sdk_error + string) \<times> 's"
  al_InitiateMultipartUpload :: "string \<Rightarrow> string option \<Rightarrow> 's \<Rightarrow> (sdk_error + string option) \<times> 's"
  al_UploadPart :: "string \<Rightarrow> string \<Rightarrow> int \<Rightarrow> string \<Rightarrow> 's \<Rightarrow> (sdk_error + string option) \<times> 's"
  al_CompleteMultipartUpload :: "string \<Rightarrow> string \<Rightarrow> (int \<times> string) list \<Rightarrow> 's \<Rightarrow> (sdk_error + unit) \<times> 's"
  al_AbortMultipartUpload :: "string \<Rightarrow> string \<Rightarrow> 's \<Rightarrow> (sdk_error + unit) \<times> 's"
  al_GetBucketInfo :: "string \<Rightarrow> 's \<Rightarrow> (sdk_error + unit) \<times> 's"
  al_PutBucket :: "string \<Rightarrow> 's \<Rightarrow> (sdk_error + unit) \<times> 's"
  al_DeleteBucket :: "string \<Rightarrow> 's \<Rightarrow> (sdk_error + unit) \<times> 's"
  al_ListBuckets :: "'s \<Rightarrow> (sdk_error + (string option \<times> int option) list) \<times> 's"

definition aliyun_PutObject :: "'s aliyun_sdk \<Rightarrow> string \<Rightarrow> string \<Rightarrow> int \<Rightarrow> string \<Rightarrow> ('s, unit) call" where
  "aliyun_PutObject sdk k body sz ctype s =
    mapped toAliyunErr id (al_PutObject sdk k body (opt_string ctype) (if 0 \<le> sz then Some sz else None) s)"

definition al_meta :: "string \<Rightarrow> al_info \<Rightarrow> ObjectMeta" where
  "al_meta k i = \<lparr>oi_Key = k, oi_Size = al_ContentLength i, oi_ContentType = derefStr (al_ContentType i),
    oi_LastModified = derefTime (al_LastModified i), oi_ETag = derefStr (al_ETag i)\<rparr>"

definition aliyun_getObject :: "'s aliyun_sdk \<Rightarrow> string \<Rightarrow> string \<Rightarrow> ('s, string \<times> ObjectMeta) call" where
  "aliyun_getObject sdk k header s =
    mapped toAliyunErr (\<lambda>(body, i). (body, al_meta k i)) (al_GetObject sdk k (opt_string header) s)"

definition aliyun_GetObject :: "'s aliyun_sdk \<Rightarrow> string \<Rightarrow> ('s, string \<times> ObjectMeta) call" where
  "aliyun_GetObject sdk k = aliyun_getObject sdk k []"

definition aliyun_GetObjectRange :: "'s aliyun_sdk \<Rightarrow> string \<Rightarrow> int \<Rightarrow> int \<Rightarrow> ('s, string \<times> ObjectMeta) call" where
  "aliyun_GetObjectRange sdk k offset len s =
    (case rangeHeader offset len of Inl er \<Rightarrow> (Inl er, s) | Inr h \<Rightarrow> aliyun_getObject sdk k h s)"

definition aliyun_StatObject :: "'s aliyun_sdk \<Rightarrow> string \<Rightarrow> ('s, ObjectMeta) call" where
  "aliyun_StatObject sdk k s = mapped toAliyunErr (al_meta k) (al_HeadObject sdk k s)"

definition aliyun_DeleteObject :: "'s aliyun_sdk \<Rightarrow> string \<Rightarrow> ('s, unit) call" where
  "aliyun_DeleteObject sdk k s = mapped toAliyunErr id (al_DeleteObject sdk k s)"

definition unit_answer :: "oss_error option \<times> 's \<Rightarrow> (oss_error + unit) \<times> 's" where
  "unit_answer r = (case r of (Some er, s) \<Rightarrow> (Inl er, s) | (None, s) \<Rightarrow> (Inr (), s))"

definition aliyun_CopyObject :: "'s aliyun_sdk \<Rightarrow> string \<Rightarrow> string \<Rightarrow> ('s, unit) call" where
  "aliyun_CopyObject sdk src dst s = mapped toAliyunErr id (al_CopyObject sdk src dst s)"

definition al_entry_meta :: "al_entry \<Rightarrow> ObjectMeta" where
  "al_entry_meta x = \<lparr>oi_Key = derefStr (ae_Key x), oi_Size = ae_Size x, oi_ContentType = [],
    oi_LastModified = derefTime (ae_LastModified x), oi_ETag = derefStr (ae_ETag x)\<rparr>"

definition aliyun_ListObjects :: "'s aliyun_sdk \<Rightarrow> string \<Rightarrow> int \<Rightarrow> string \<Rightarrow> ('s, ObjectMeta list \<times> string) call" where
  "aliyun_ListObjects sdk pre limit token s =
    mapped toAliyunErr
      (\<lambda>(es, truncd, nxt). (map al_entry_meta es, if truncd \<and> nxt \<noteq> None then the nxt else []))
      (al_ListObjectsV2 sdk (listLimit limit) (opt_string pre) (opt_string token) s)"

definition aliyun_PresignedURL :: "'s aliyun_sdk \<Rightarrow> string \<Rightarrow> int \<Rightarrow> ('s, string) call" where
  "aliyun_PresignedURL sdk k expiry s =
    (case validateExpiry expiry of
       Some er \<Rightarrow> (Inl er, s)
     | None \<Rightarrow> mapped toAliyunErr id (al_PresignGet sdk k (seconds expiry) s))"

definition aliyun_PresignedPutURL :: "'s aliyun_sdk \<Rightarrow> string \<Rightarrow> string \<Rightarrow> int \<Rightarrow> ('s, string) call" where
  "aliyun_PresignedPutURL sdk k ctype expiry s =
    (case validateExpiry expiry of
       Some er \<Rightarrow> (Inl er, s)
     | None \<Rightarrow> mapped toAliyunErr id (al_PresignPut sdk k (opt_string ctype) (seconds expiry) s))"

definition aliyun_InitiateMultipartUpload :: "'s aliyun_sdk \<Rightarrow> string \<Rightarrow> string \<Rightarrow> ('s, string) call" where
  "aliyun_InitiateMultipartUpload sdk k ctype s =
    (case al_InitiateMultipartUpload sdk k (opt_string ctype) s of
       (Inl er, s1) \<Rightarrow> (Inl (toAliyunErr er), s1)
     | (Inr None, s1) \<Rightarrow> (Inl (InvalidParam ''uploadId''), s1)
     | (Inr (Some u), s1) \<Rightarrow> (Inr u, s1))"

definition aliyun_UploadPart :: "'s aliyun_sdk \<Rightarrow> string \<Rightarrow> string \<Rightarrow> int \<Rightarrow> string \<Rightarrow> int \<Rightarrow> ('s, Part) call" where
  "aliyun_UploadPart sdk k u n body sz s =
    mapped toAliyunErr (\<lambda>t. \<lparr>PartNumber = n, ETag = derefStr t\<rparr>) (al_UploadPart sdk k u n body s)"

definition aliyun_CompleteMultipartUpload :: "'s aliyun_sdk \<Rightarrow> string \<Rightarrow> string \<Rightarrow> Part list \<Rightarrow> ('s, unit) call" where
  "aliyun_CompleteMultipartUpload sdk k u parts s =
    mapped toAliyunErr id (al_CompleteMultipartUpload sdk k u (map (\<lambda>p. (PartNumber p, ETag p)) parts) s)"

definition aliyun_AbortMultipartUpload :: "'s aliyun_sdk \<Rightarrow> string \<Rightarrow> string \<Rightarrow> ('s, unit) call" where
  "aliyun_AbortMultipartUpload sdk k u s = mapped toAliyunErr id (al_AbortMultipartUpload sdk k u s)"

definition aliyun_BucketExists :: "'s aliyun_sdk \<Rightarrow> string \<Rightarrow> ('s, bool) call" where
  "aliyun_BucketExists sdk bu s =
    (case al_GetBucketInfo sdk bu s of
       (Inr x, s1) \<Rightarrow> (BucketExists None, s1)
     | (Inl er, s1) \<Rightarrow> (BucketExists (Some er), s1))"

definition aliyun_MakeBucket :: "'s aliyun_sdk \<Rightarrow> string \<Rightarrow> ('s, unit) call" where
  "aliyun_MakeBucket sdk bu s = mapped toAliyunErr id (al_PutBucket sdk bu s)"

definition aliyun_RemoveBucket :: "'s aliyun_sdk \<Rightarrow> string \<Rightarrow> ('s, unit) call" where
  "aliyun_RemoveBucket sdk bu s = mapped toAliyunErr id (al_DeleteBucket sdk bu s)"

definition aliyun_ListBuckets :: "'s aliyun_sdk \<Rightarrow> (int \<Rightarrow> string) \<Rightarrow> ('s, BucketInfo list) call" where
  "aliyun_ListBuckets sdk rfc3339 s =
    mapped toAliyunErr (map (\<lambda>(n, t). \<lparr>bi_Name = derefStr n, bi_CreationDate = rfc3339 (derefTime t)\<rparr>))
      (al_ListBuckets sdk s)"

definition AliyunOSS :: "'s aliyun_sdk \<Rightarrow> (int \<Rightarrow> string) \<Rightarrow> 's OSSWithBucket" where
  "AliyunOSS sdk rfc3339 = \<lparr>
    i_PutObject = aliyun_PutObject sdk,
    i_GetObject = aliyun_GetObject sdk,
    i_GetObjectRange = aliyun_GetObjectRange sdk,
    i_StatObject = aliyun_StatObject sdk,
    i_DeleteObject = aliyun_DeleteObject sdk,
    i_DeleteObjects = (\<lambda>ks s. unit_answer (DeleteObjects (al_DeleteMultipleObjects sdk) ks s)),
    i_CopyObject = aliyun_CopyObject sdk,
    i_ListObjects = aliyun_ListObjects sdk,
    i_GetPresignedURL = aliyun_PresignedURL sdk,
    i_GetPresignedPutURL = aliyun_PresignedPutURL sdk,
    i_InitiateMultipartUpload = aliyun_InitiateMultipartUpload sdk,
    i_UploadPart = aliyun_UploadPart sdk,
    i_CompleteMultipartUpload = aliyun_CompleteMultipartUpload sdk,
    i_AbortMultipartUpload = aliyun_AbortMultipartUpload sdk,
    i_BucketExists = aliyun_BucketExists sdk,
    i_MakeBucket = aliyun_MakeBucket sdk,
    i_RemoveBucket = aliyun_RemoveBucket sdk,
    i_ListBuckets = aliyun_ListBuckets sdk rfc3339\<rparr>"

section \<open>MinIO (minio.go)\<close>

record mi_info =
  mi_Key :: string
  mi_Size :: int
  mi_ContentType :: string
  mi_LastModified :: int
  mi_ETag :: string

text \<open>
  \<^verbatim>\<open>SetRange\<close> writes the Range header of a read. \<^verbatim>\<open>RemoveObjects\<close> takes any number of keys and answers with
  the errors of its batches, in order.
\<close>

record 's minio_sdk =
  mi_SetRange :: "int \<Rightarrow> int \<Rightarrow> sdk_error + string"
  mi_PutObject :: "string \<Rightarrow> string \<Rightarrow> int \<Rightarrow> string \<Rightarrow> 's \<Rightarrow> (sdk_error + unit) \<times> 's"
  mi_GetObject :: "string \<Rightarrow> string option \<Rightarrow> 's \<Rightarrow> (sdk_error + string \<times> mi_info) \<times> 's"
  mi_StatObject :: "string \<Rightarrow> 's \<Rightarrow> (sdk_error + mi_info) \<times> 's"
  mi_RemoveObject :: "string \<Rightarrow> 's \<Rightarrow> (sdk_error + unit) \<times> 's"
  mi_RemoveObjects :: "string list \<Rightarrow> 's \<Rightarrow> sdk_error option list \<times> 's"
  mi_CopyObject :: "string \<Rightarrow> string \<Rightarrow> 's \<Rightarrow> (sdk_error + unit) \<times> 's"
  mi_ListObjectsV2 :: "string \<Rightarrow> string \<Rightarrow> int \<Rightarrow> 's \<Rightarrow> (sdk_error + mi_info list \<times> bool \<times> string) \<times> 's"
  mi_PresignedGetObject :: "string \<Rightarrow> int \<Rightarrow> 's \<Rightarrow> (sdk_error + string) \<times> 's"
  mi_PresignedPutObject :: "string \<Rightarrow> int \<Rightarrow> 's \<Rightarrow> (sdk_error + string) \<times> 's"
  mi_NewMultipartUpload :: "string \<Rightarrow> string \<Rightarrow> 's \<Rightarrow> (sdk_error + string) \<times> 's"
  mi_PutObjectPart :: "string \<Rightarrow> string \<Rightarrow> int \<Rightarrow> string \<Rightarrow> int \<Rightarrow> 's \<Rightarrow> (sdk_error + string) \<times> 's"
  mi_CompleteMultipartUpload :: "string \<Rightarrow> string \<Rightarrow> (int \<times> string) list \<Rightarrow> 's \<Rightarrow> (sdk_error + unit) \<times> 's"
  mi_AbortMultipartUpload :: "string \<Rightarrow> string \<Rightarrow> 's \<Rightarrow> (sdk_error + unit) \<times> 's"
  mi_BucketExists :: "string \<Rightarrow> 's \<Rightarrow> (sdk_error + bool) \<times> 's"
  mi_MakeBucket :: "string \<Rightarrow> 's \<Rightarrow> (sdk_error + unit) \<times> 's"
  mi_RemoveBucket :: "string \<Rightarrow> 's \<Rightarrow> (sdk_error + unit) \<times> 's"
  mi_ListBuckets :: "'s \<Rightarrow> (sdk_error + (string \<times> int) list) \<times> 's"

definition mi_meta :: "string \<Rightarrow> mi_info \<Rightarrow> ObjectMeta" where
  "mi_meta k i = \<lparr>oi_Key = k, oi_Size = mi_Size i, oi_ContentType = mi_ContentType i,
    oi_LastModified = mi_LastModified i, oi_ETag = mi_ETag i\<rparr>"

definition minio_PutObject :: "'s minio_sdk \<Rightarrow> string \<Rightarrow> string \<Rightarrow> int \<Rightarrow> string \<Rightarrow> ('s, unit) call" where
  "minio_PutObject sdk k body sz ctype s = mapped toOssErr id (mi_PutObject sdk k body sz ctype s)"

definition minio_GetObject :: "'s minio_sdk \<Rightarrow> string \<Rightarrow> ('s, string \<times> ObjectMeta) call" where
  "minio_GetObject sdk k s = mapped toOssErr (\<lambda>(body, i). (body, mi_meta k i)) (mi_GetObject sdk k None s)"

definition minio_range :: "'s minio_sdk \<Rightarrow> int \<Rightarrow> int \<Rightarrow> oss_error + string" where
  "minio_range sdk offset len =
    (if offset < 0 then Inl (InvalidParam (''offset='' @ show_int offset))
     else case (if len \<le> 0 then mi_SetRange sdk offset 0 else mi_SetRange sdk offset (wrap64 (offset + len - 1))) of
            Inl er \<Rightarrow> Inl (toOssErr er)
          | Inr h \<Rightarrow> Inr h)"

definition minio_GetObjectRange :: "'s minio_sdk \<Rightarrow> string \<Rightarrow> int \<Rightarrow> int \<Rightarrow> ('s, string \<times> ObjectMeta) call" where
  "minio_GetObjectRange sdk k offset len s =
    (case minio_range sdk offset len of
       Inl er \<Rightarrow> (Inl er, s)
     | Inr h \<Rightarrow> mapped toOssErr (\<lambda>(body, i). (body, mi_meta k i)) (mi_GetObject sdk k (Some h) s))"

definition minio_StatObject :: "'s minio_sdk \<Rightarrow> string \<Rightarrow> ('s, ObjectMeta) call" where
  "minio_StatObject sdk k s = mapped toOssErr (mi_meta k) (mi_StatObject sdk k s)"

definition minio_DeleteObject :: "'s minio_sdk \<Rightarrow> string \<Rightarrow> ('s, unit) call" where
  "minio_DeleteObject sdk k s = mapped toOssErr id (mi_RemoveObject sdk k s)"

primrec first_error :: "sdk_error option list \<Rightarrow> oss_error option" where
  "first_error [] = None"
| "first_error (x # xs) = (case x of Some er \<Rightarrow> Some (toOssErr er) | None \<Rightarrow> first_error xs)"

definition minio_DeleteObjects :: "'s minio_sdk \<Rightarrow> string list \<Rightarrow> ('s, unit) call" where
  "minio_DeleteObjects sdk ks s =
    (if ks = [] then (Inr (), s)
     else case mi_RemoveObjects sdk ks s of (errs, s1) \<Rightarrow> unit_answer (first_error errs, s1))"

definition minio_CopyObject :: "'s minio_sdk \<Rightarrow> string \<Rightarrow> string \<Rightarrow> ('s, unit) call" where
  "minio_CopyObject sdk src dst s = mapped toOssErr id (mi_CopyObject sdk src dst s)"

definition minio_ListObjects :: "'s minio_sdk \<Rightarrow> string \<Rightarrow> int \<Rightarrow> string \<Rightarrow> ('s, ObjectMeta list \<times> string) call" where
  "minio_ListObjects sdk pre limit token s =
    mapped toOssErr (\<lambda>(os, truncd, nxt). (map (\<lambda>x. mi_meta (mi_Key x) x) os, if truncd then nxt else []))
      (mi_ListObjectsV2 sdk pre token (if limit \<le> 0 \<or> 1000 < limit then 1000 else limit) s)"

definition minio_PresignedURL :: "'s minio_sdk \<Rightarrow> string \<Rightarrow> int \<Rightarrow> ('s, string) call" where
  "minio_PresignedURL sdk k expiry s = mapped toOssErr id (mi_PresignedGetObject sdk k (seconds expiry) s)"

definition minio_PresignedPutURL :: "'s minio_sdk \<Rightarrow> string \<Rightarrow> string \<Rightarrow> int \<Rightarrow> ('s, string) call" where
  "minio_PresignedPutURL sdk k ctype expiry s = mapped toOssErr id (mi_PresignedPutObject sdk k (seconds expiry) s)"

definition minio_InitiateMultipartUpload :: "'s minio_sdk \<Rightarrow> string \<Rightarrow> string \<Rightarrow> ('s, string) call" where
  "minio_InitiateMultipartUpload sdk k ctype s = mapped toOssErr id (mi_NewMultipartUpload sdk k ctype s)"

definition minio_UploadPart :: "'s minio_sdk \<Rightarrow> string \<Rightarrow> string \<Rightarrow> int \<Rightarrow> string \<Rightarrow> int \<Rightarrow> ('s, Part) call" where
  "minio_UploadPart sdk k u n body sz s =
    mapped toOssErr (\<lambda>t. \<lparr>PartNumber = n, ETag = t\<rparr>) (mi_PutObjectPart sdk k u n body sz s)"

definition minio_CompleteMultipartUpload :: "'s minio_sdk \<Rightarrow> string \<Rightarrow> string \<Rightarrow> Part list \<Rightarrow> ('s, unit) call" where
  "minio_CompleteMultipartUpload sdk k u parts s =
    mapped toOssErr id (mi_CompleteMultipartUpload sdk k u (map (\<lambda>p. (PartNumber p, ETag p)) parts) s)"

definition minio_AbortMultipartUpload :: "'s minio_sdk \<Rightarrow> string \<Rightarrow> string \<Rightarrow> ('s, unit) call" where
  "minio_AbortMultipartUpload sdk k u s = mapped toOssErr id (mi_AbortMultipartUpload sdk k u s)"

definition minio_BucketExists :: "'s minio_sdk \<Rightarrow> string \<Rightarrow> ('s, bool) call" where
  "minio_BucketExists sdk bu s = mapped toOssErr id (mi_BucketExists sdk bu s)"

definition minio_MakeBucket :: "'s minio_sdk \<Rightarrow> string \<Rightarrow> ('s, unit) call" where
  "minio_MakeBucket sdk bu s = mapped toOssErr id (mi_MakeBucket sdk bu s)"

definition minio_RemoveBucket :: "'s minio_sdk \<Rightarrow> string \<Rightarrow> ('s, unit) call" where
  "minio_RemoveBucket sdk bu s = mapped toOssErr id (mi_RemoveBucket sdk bu s)"

definition minio_ListBuckets :: "'s minio_sdk \<Rightarrow> (int \<Rightarrow> string) \<Rightarrow> ('s, BucketInfo list) call" where
  "minio_ListBuckets sdk rfc3339 s =
    mapped toOssErr (map (\<lambda>(n, t). \<lparr>bi_Name = n, bi_CreationDate = rfc3339 t\<rparr>)) (mi_ListBuckets sdk s)"

definition MinioOSS :: "'s minio_sdk \<Rightarrow> (int \<Rightarrow> string) \<Rightarrow> 's OSSWithBucket" where
  "MinioOSS sdk rfc3339 = \<lparr>
    i_PutObject = minio_PutObject sdk,
    i_GetObject = minio_GetObject sdk,
    i_GetObjectRange = minio_GetObjectRange sdk,
    i_StatObject = minio_StatObject sdk,
    i_DeleteObject = minio_DeleteObject sdk,
    i_DeleteObjects = minio_DeleteObjects sdk,
    i_CopyObject = minio_CopyObject sdk,
    i_ListObjects = minio_ListObjects sdk,
    i_GetPresignedURL = minio_PresignedURL sdk,
    i_GetPresignedPutURL = minio_PresignedPutURL sdk,
    i_InitiateMultipartUpload = minio_InitiateMultipartUpload sdk,
    i_UploadPart = minio_UploadPart sdk,
    i_CompleteMultipartUpload = minio_CompleteMultipartUpload sdk,
    i_AbortMultipartUpload = minio_AbortMultipartUpload sdk,
    i_BucketExists = minio_BucketExists sdk,
    i_MakeBucket = minio_MakeBucket sdk,
    i_RemoveBucket = minio_RemoveBucket sdk,
    i_ListBuckets = minio_ListBuckets sdk rfc3339\<rparr>"

section \<open>Tracing (trace.go)\<close>

text \<open>
  The decorator works on the state of the client together with what it reported: the spans that have ended
  and the measurements, one per call. The result of a call only decides whether the span carries an error.
\<close>

record span =
  sp_operation :: string
  sp_key :: "string option"
  sp_error :: "oss_error option"

record 's traced =
  tr_state :: 's
  tr_spans :: "span list"
  tr_durations :: "(string \<times> bool) list"

definition error_of :: "oss_error + 'a \<Rightarrow> oss_error option" where
  "error_of r = (case r of Inl er \<Rightarrow> Some er | Inr x \<Rightarrow> None)"

definition begin_span :: "string \<Rightarrow> string \<Rightarrow> span" where
  "begin_span op k = \<lparr>sp_operation = op, sp_key = opt_string k, sp_error = None\<rparr>"

definition end_span :: "oss_error option \<Rightarrow> span \<Rightarrow> span" where
  "end_span er sp = (case er of None \<Rightarrow> sp | Some e \<Rightarrow> sp\<lparr>sp_error := Some e\<rparr>)"

definition recordOSSOperation :: "bool \<Rightarrow> string \<Rightarrow> oss_error option \<Rightarrow> (string \<times> bool) list \<Rightarrow> (string \<times> bool) list" where
  "recordOSSOperation meter op er ds = (if \<not> meter then ds else ds @ [(op, er = None)])"

definition traced_call :: "bool \<Rightarrow> string \<Rightarrow> string \<Rightarrow> ('s, 'a) call \<Rightarrow> ('s traced, 'a) call" where
  "traced_call meter op k f t =
    (let sp = begin_span op k;
         (r, s1) = f (tr_state t);
         er = error_of r
     in (r, \<lparr>tr_state = s1, tr_spans = tr_spans t @ [end_span er sp],
             tr_durations = recordOSSOperation meter op er (tr_durations t)\<rparr>))"

definition NewTracedOSS :: "bool \<Rightarrow> 's OSSWithBucket \<Rightarrow> 's traced OSSWithBucket" where
  "NewTracedOSS meter inner = \<lparr>
    i_PutObject = (\<lambda>k body n ctype. traced_call meter ''PutObject'' k (i_PutObject inner k body n ctype)),
    i_GetObject = (\<lambda>k. traced_call meter ''GetObject'' k (i_GetObject inner k)),
    i_GetObjectRange = (\<lambda>k a n. traced_call meter ''GetObjectRange'' k (i_GetObjectRange inner k a n)),
    i_StatObject = (\<lambda>k. traced_call meter ''StatObject'' k (i_StatObject inner k)),
    i_DeleteObject = (\<lambda>k. traced_call meter ''DeleteObject'' k (i_DeleteObject inner k)),
    i_DeleteObjects = (\<lambda>ks. traced_call meter ''DeleteObjects'' [] (i_DeleteObjects inner ks)),
    i_CopyObject = (\<lambda>src dst. traced_call meter ''CopyObject'' src (i_CopyObject inner src dst)),
    i_ListObjects = (\<lambda>pre n tok. traced_call meter ''ListObjects'' pre (i_ListObjects inner pre n tok)),
    i_GetPresignedURL = (\<lambda>k n. traced_call meter ''GetPresignedURL'' k (i_GetPresignedURL inner k n)),
    i_GetPresignedPutURL = (\<lambda>k c n. traced_call meter ''GetPresignedPutURL'' k (i_GetPresignedPutURL inner k c n)),
    i_InitiateMultipartUpload =
      (\<lambda>k c. traced_call meter ''InitiateMultipartUpload'' k (i_InitiateMultipartUpload inner k c)),
    i_UploadPart = (\<lambda>k u n body sz. traced_call meter ''UploadPart'' k (i_UploadPart inner k u n body sz)),
    i_CompleteMultipartUpload =
      (\<lambda>k u ps. traced_call meter ''CompleteMultipartUpload'' k (i_CompleteMultipartUpload inner k u ps)),
    i_AbortMultipartUpload = (\<lambda>k u. traced_call meter ''AbortMultipartUpload'' k (i_AbortMultipartUpload inner k u)),
    i_BucketExists = (\<lambda>bu. traced_call meter ''BucketExists'' [] (i_BucketExists inner bu)),
    i_MakeBucket = (\<lambda>bu. traced_call meter ''MakeBucket'' [] (i_MakeBucket inner bu)),
    i_RemoveBucket = (\<lambda>bu. traced_call meter ''RemoveBucket'' [] (i_RemoveBucket inner bu)),
    i_ListBuckets = traced_call meter ''ListBuckets'' [] (i_ListBuckets inner)\<rparr>"

record AliyunConfig =
  Region :: string
  AccessKeyID :: string
  AccessKeySecret :: string
  BucketName :: string

definition NewAliyunOSS :: "(AliyunConfig \<Rightarrow> 's aliyun_sdk) \<Rightarrow> (int \<Rightarrow> string) \<Rightarrow> bool \<Rightarrow> AliyunConfig \<Rightarrow>
    oss_error + 's traced OSSWithBucket" where
  "NewAliyunOSS client rfc3339 meter cfg =
    (if Region cfg = [] \<or> AccessKeyID cfg = [] \<or> AccessKeySecret cfg = [] \<or> BucketName cfg = []
     then Inl (InvalidParam ''config'')
     else Inr (NewTracedOSS meter (AliyunOSS (client cfg) rfc3339)))"

definition NewMinioOSS :: "(int \<Rightarrow> string) \<Rightarrow> bool \<Rightarrow> 's minio_sdk \<Rightarrow> 's traced OSSWithBucket" where
  "NewMinioOSS rfc3339 meter sdk = NewTracedOSS meter (MinioOSS sdk rfc3339)"

text \<open>The choice of the implementation (app/blog/internal/data/data.go); a failing client panics.\<close>

definition ProvideOSS :: "string \<Rightarrow> oss_error + 'c \<Rightarrow> oss_error + 'c \<Rightarrow> 'c option" where
  "ProvideOSS provider aliyun minio =
    (if provider = ''aliyun'' then (case aliyun of Inl er \<Rightarrow> None | Inr c \<Rightarrow> Some c)
     else (case minio of Inl er \<Rightarrow> None | Inr c \<Rightarrow> Some c))"

end
