(* ===== verification/Tracing.thy ===== *)
theory Tracing
  imports Log Complex_Main
begin

text \<open>
  What watches the program: the plugin that traces database statements (pkg/trace/gorm.go), the hook that
  traces Redis commands (redis.go), the set-up and shutdown of the providers (tracer.go, pkg/metrics), the
  middlewares of the gateway that count and log requests, and the common middlewares of the services
  (pkg/middleware/common.go). The exporters and the stores behind them are outside.
\<close>

section \<open>Decorators\<close>

text \<open>Calls one after the other, with their answers.\<close>

primrec run_calls :: "('c \<Rightarrow> 's \<Rightarrow> 'r \<times> 's) \<Rightarrow> 'c list \<Rightarrow> 's \<Rightarrow> 'r list \<times> 's" where
  "run_calls f [] s = ([], s)"
| "run_calls f (c # cs) s = (let (r, s1) = f c s; (rs, s2) = run_calls f cs s1 in (r # rs, s2))"

text \<open>
  What a client may rely on when a service is wrapped: \<^verbatim>\<open>inside\<close> is the state of the wrapped service within
  the state of the wrapper, which gives the same answers and does the same to it.
\<close>

locale decorator =
  fixes inner :: "'c \<Rightarrow> 's \<Rightarrow> 'r \<times> 's"
    and outer :: "'c \<Rightarrow> 't \<Rightarrow> 'r \<times> 't"
    and inside :: "'t \<Rightarrow> 's"
  assumes answers: "fst (outer c t) = fst (inner c (inside t))"
    and passes: "inside (snd (outer c t)) = snd (inner c (inside t))"
begin

lemma transparent:
  "fst (run_calls outer cs t) = fst (run_calls inner cs (inside t)) \<and>
    inside (snd (run_calls outer cs t)) = snd (run_calls inner cs (inside t))"
proof (induction cs arbitrary: t)
  case (Cons c cs)
  obtain r t1 where o: "outer c t = (r, t1)" by fastforce
  with answers [of c t] passes [of c t] have "inner c (inside t) = (r, inside t1)" by (simp add: prod_eq_iff)
  with Cons.IH [of t1] o show ?case by (simp add: case_prod_beta Let_def)
qed simp

text \<open>Whatever holds of the wrapped service after any calls holds inside the wrapper.\<close>

lemma keeps:
  assumes "\<And>c s. I s \<Longrightarrow> I (snd (inner c s))" "I (inside t)"
  shows "I (inside (snd (run_calls outer cs t)))"
  using assms(2)
proof (induction cs arbitrary: t)
  case (Cons c cs)
  obtain r t1 where o: "outer c t = (r, t1)" by fastforce
  with passes [of c t] assms(1) [OF Cons.prems, of c] have "I (inside t1)" by simp
  with Cons.IH [of t1] o show ?case by (simp add: case_prod_beta Let_def)
qed simp

end

text \<open>Wrapping a wrapper.\<close>

lemma decorator_stack:
  assumes "decorator inner mid inside1" "decorator mid outer inside2"
  shows "decorator inner outer (inside1 \<circ> inside2)"
  using assms by (simp add: decorator_def)

section \<open>Database statements (gorm.go)\<close>

text \<open>A span with its attributes and, once it has ended, the error it carries.\<close>

record tspan =
  ts_name :: string
  ts_attrs :: "(string \<times> string) list"
  ts_error :: "string option"

text \<open>A statement of gorm: its table, its error so far, and the slot in its settings.\<close>

record gorm_stmt =
  gs_Table :: string
  gs_Error :: "string option"
  gs_slot :: "tspan option"

text \<open>What has been reported: ended spans and measurements (system, operation, result).\<close>

record reports =
  rp_spans :: "tspan list"
  rp_durations :: "(string \<times> string \<times> string) list"

definition resultLabel :: "string option \<Rightarrow> string" where
  "resultLabel er = (if er \<noteq> None then ''error'' else ''success'')"

definition recordDBOperation :: "bool \<Rightarrow> string \<Rightarrow> string \<Rightarrow> string option \<Rightarrow> reports \<Rightarrow> reports" where
  "recordDBOperation meter dbSystem operation er r =
    (if \<not> meter then r else r\<lparr>rp_durations := rp_durations r @ [(dbSystem, operation, resultLabel er)]\<rparr>)"

definition gorm_span :: "string \<Rightarrow> string \<Rightarrow> string \<Rightarrow> tspan" where
  "gorm_span dialect op table =
    \<lparr>ts_name = ''db.'' @ op @ (if table \<noteq> [] then '' '' @ table else []),
     ts_attrs = [(''db.system'', dialect), (''db.operation.name'', op)] @
       (if table \<noteq> [] then [(''db.collection.name'', table)] else []),
     ts_error = None\<rparr>"

definition gorm_before :: "string \<Rightarrow> string \<Rightarrow> gorm_stmt \<Rightarrow> gorm_stmt" where
  "gorm_before dialect op st =
    (if gs_Error st \<noteq> None then st else st\<lparr>gs_slot := Some (gorm_span dialect op (gs_Table st))\<rparr>)"

definition gorm_after :: "bool \<Rightarrow> string \<Rightarrow> gorm_stmt \<Rightarrow> reports \<Rightarrow> gorm_stmt \<times> reports" where
  "gorm_after meter dialect st r =
    (case gs_slot st of
       None \<Rightarrow> (st, r)
     | Some sp \<Rightarrow>
       let sp1 = (case gs_Error st of None \<Rightarrow> sp | Some er \<Rightarrow> sp\<lparr>ts_error := Some er\<rparr>);
           r1 = r\<lparr>rp_spans := rp_spans r @ [sp1]\<rparr>
       in (st\<lparr>gs_slot := None\<rparr>, recordDBOperation meter dialect (gs_Table st) (gs_Error st) r1))"

text \<open>One operation of gorm: the callback before it, the statement itself, which may fail, the callback after it.\<close>

definition gorm_operation ::
    "bool \<Rightarrow> string \<Rightarrow> string \<Rightarrow> (gorm_stmt \<Rightarrow> string option) \<Rightarrow> gorm_stmt \<Rightarrow> reports \<Rightarrow> gorm_stmt \<times> reports" where
  "gorm_operation meter dialect op exec st r =
    (let st1 = gorm_before dialect op st;
         st2 = (if gs_Error st1 \<noteq> None then st1 else st1\<lparr>gs_Error := exec st1\<rparr>)
     in gorm_after meter dialect st2 r)"

text \<open>The callbacks are registered in this order; the first failing registration ends the set-up.\<close>

definition gorm_ops :: "string list" where
  "gorm_ops = [''create'', ''query'', ''update'', ''delete'']"

primrec register_steps :: "(string \<Rightarrow> err option) \<Rightarrow> string list \<Rightarrow> string list \<Rightarrow> err option \<times> string list" where
  "register_steps reg [] done1 = (None, done1)"
| "register_steps reg (op # ops) done1 =
    (let before = ''ley:otel:before:'' @ op; after = ''ley:otel:after:'' @ op in
     case reg before of
       Some er \<Rightarrow> (Some er, done1)
     | None \<Rightarrow> (case reg after of
           Some er \<Rightarrow> (Some er, done1 @ [before])
         | None \<Rightarrow> register_steps reg ops (done1 @ [before, after])))"

definition gorm_Initialize :: "(string \<Rightarrow> err option) \<Rightarrow> err option \<times> string list" where
  "gorm_Initialize reg = register_steps reg gorm_ops []"

section \<open>Redis commands (redis.go)\<close>

text \<open>A command has a full name and a name; \<^verbatim>\<open>upper\<close> is \<^verbatim>\<open>strings.ToUpper\<close>.\<close>

type_synonym redis_cmd = "string \<times> string"

definition redis_span :: "(string \<Rightarrow> string) \<Rightarrow> redis_cmd list \<Rightarrow> tspan" where
  "redis_span upper cmds =
    \<lparr>ts_name = ''redis'' @ (if cmds \<noteq> [] then '' '' @ upper (fst (hd cmds)) else []),
     ts_attrs = [(''db.system'', ''redis''), (''db.operation.batch_size'', show_nat (length cmds))] @
       (if cmds \<noteq> [] then [(''db.operation.name'', upper (snd (hd cmds)))] else []),
     ts_error = None\<rparr>"

definition recordRedisOperation :: "bool \<Rightarrow> nat \<Rightarrow> string option \<Rightarrow> reports \<Rightarrow> reports" where
  "recordRedisOperation meter n er r =
    (if \<not> meter then r else r\<lparr>rp_durations := rp_durations r @ [(''redis'', show_nat n, resultLabel er)]\<rparr>)"

definition redis_end :: "bool \<Rightarrow> nat \<Rightarrow> tspan \<Rightarrow> string option \<Rightarrow> reports \<Rightarrow> reports" where
  "redis_end meter n sp er r =
    recordRedisOperation meter n er (r\<lparr>rp_spans := rp_spans r @ [sp\<lparr>ts_error := er\<rparr>]\<rparr>)"

text \<open>\<^verbatim>\<open>next\<close> runs the command on the store; its error is what the caller gets. A missing key is an error too.\<close>

definition redis_Nil :: string where "redis_Nil = ''redis: nil''"

definition ProcessHook :: "(string \<Rightarrow> string) \<Rightarrow> bool \<Rightarrow> (redis_cmd \<Rightarrow> 's \<Rightarrow> string option \<times> 's) \<Rightarrow>
    redis_cmd \<Rightarrow> 's \<times> reports \<Rightarrow> string option \<times> ('s \<times> reports)" where
  "ProcessHook upper meter next1 cmd sr =
    (case next1 cmd (fst sr) of
       (er, s1) \<Rightarrow> (er, (s1, redis_end meter 1 (redis_span upper [cmd]) er (snd sr))))"

definition ProcessPipelineHook :: "(string \<Rightarrow> string) \<Rightarrow> bool \<Rightarrow> (redis_cmd list \<Rightarrow> 's \<Rightarrow> string option \<times> 's) \<Rightarrow>
    redis_cmd list \<Rightarrow> 's \<times> reports \<Rightarrow> string option \<times> ('s \<times> reports)" where
  "ProcessPipelineHook upper meter next1 cmds sr =
    (case next1 cmds (fst sr) of
       (er, s1) \<Rightarrow> (er, (s1, redis_end meter (length cmds) (redis_span upper cmds) er (snd sr))))"

definition DialHook :: "'h \<Rightarrow> 'h" where "DialHook next1 = next1"

section \<open>Providers (tracer.go, pkg/metrics)\<close>

record trace_config =
  tc_Endpoint :: string
  tc_ServiceName :: string
  tc_ServiceVersion :: string
  tc_Environment :: string
  tc_SampleRatio :: rat
  tc_Insecure :: bool

definition resourceAttributes :: "trace_config \<Rightarrow> (string \<times> string) list" where
  "resourceAttributes cfg =
    (if tc_ServiceName cfg \<noteq> [] then [(''service.name'', tc_ServiceName cfg)] else []) @
    (if tc_ServiceVersion cfg \<noteq> [] then [(''service.version'', tc_ServiceVersion cfg)] else []) @
    (if tc_Environment cfg \<noteq> [] then [(''deployment.environment'', tc_Environment cfg)] else [])"

text \<open>\<^verbatim>\<open>env\<close> is the variable OTEL_TRACES_SAMPLER_ARG, \<^verbatim>\<open>parse\<close> is \<^verbatim>\<open>strconv.ParseFloat\<close>.\<close>

definition sampleRatio :: "(string \<Rightarrow> rat option) \<Rightarrow> string \<Rightarrow> rat \<Rightarrow> rat" where
  "sampleRatio parse env configured =
    (if 0 < configured \<and> configured \<le> 1 then configured
     else if env \<noteq> [] then
       (case parse env of
          Some v \<Rightarrow> if 0 < v \<and> v \<le> 1 then v else 1
        | None \<Rightarrow> 1)
     else 1)"

definition normalizeEndpoint :: "(string \<Rightarrow> (string \<times> string \<times> string) option) \<Rightarrow> (nat \<Rightarrow> nat) \<Rightarrow>
    string \<Rightarrow> bool \<Rightarrow> string \<times> string \<times> bool" where
  "normalizeEndpoint url low raw insecure = ParseEndpoint url low raw insecure ''/v1/traces''"

text \<open>The options of the exporter: the endpoint, the path, plain text.\<close>

datatype exporter_option = WithEndpoint string | WithURLPath string | WithInsecure

definition endpoint_options :: "string \<times> string \<times> bool \<Rightarrow> exporter_option list" where
  "endpoint_options x =
    (case x of (endpoint, path, insecure) \<Rightarrow>
       [WithEndpoint endpoint] @ (if path \<noteq> [] then [WithURLPath path] else []) @ (if insecure then [WithInsecure] else []))"

definition trace_options :: "(string \<Rightarrow> (string \<times> string \<times> string) option) \<Rightarrow> (nat \<Rightarrow> nat) \<Rightarrow> trace_config \<Rightarrow> exporter_option list" where
  "trace_options url low cfg =
    (let x = normalizeEndpoint url low (tc_Endpoint cfg) (tc_Insecure cfg) in
     if fst x \<noteq> [] then endpoint_options x else [])"

definition metric_options :: "(string \<Rightarrow> (string \<times> string \<times> string) option) \<Rightarrow> (nat \<Rightarrow> nat) \<Rightarrow> string \<Rightarrow> exporter_option list" where
  "metric_options url low raw = endpoint_options (ParseEndpoint url low raw True ''/v1/metrics'')"

text \<open>A provider that shuts down once and remembers the outcome; \<^verbatim>\<open>down\<close> is the SDK's shutdown on its state.\<close>

record once_provider =
  op_done :: bool
  op_err :: "err option"

definition new_provider :: once_provider where
  "new_provider = \<lparr>op_done = False, op_err = None\<rparr>"

definition provider_Shutdown :: "('s \<Rightarrow> err option \<times> 's) \<Rightarrow> once_provider \<times> 's \<Rightarrow> err option \<times> (once_provider \<times> 's)" where
  "provider_Shutdown down ps =
    (case ps of (p, s) \<Rightarrow>
       if op_done p then (op_err p, (p, s))
       else (case down s of (er, s1) \<Rightarrow> (er, (\<lparr>op_done = True, op_err = er\<rparr>, s1))))"

definition trace_Shutdown :: "('s \<Rightarrow> err option \<times> 's) \<Rightarrow> once_provider option \<times> 's \<Rightarrow> err option \<times> (once_provider option \<times> 's)" where
  "trace_Shutdown down gs =
    (case gs of
       (None, s) \<Rightarrow> (None, gs)
     | (Some p, s) \<Rightarrow> (case provider_Shutdown down (p, s) of (er, (p1, s1)) \<Rightarrow> (er, (Some p1, s1))))"

text \<open>
  What Init sets up: the exporter's options, the ratio of the sampler for traces without a parent, the resource
  (the attributes, and those of the environment unless they cannot be read), the propagators.
\<close>

record trace_setup =
  tt_options :: "exporter_option list"
  tt_ratio :: rat
  tt_attributes :: "(string \<times> string) list"
  tt_from_env :: bool
  tt_propagators :: "string list"

text \<open>The exporter may fail; otherwise the new provider replaces the global one.\<close>

definition trace_Init :: "(exporter_option list \<Rightarrow> err option) \<Rightarrow> (string \<Rightarrow> (string \<times> string \<times> string) option) \<Rightarrow>
    (nat \<Rightarrow> nat) \<Rightarrow> (string \<Rightarrow> rat option) \<Rightarrow> string \<Rightarrow> err option \<Rightarrow> trace_config \<Rightarrow> once_provider option \<Rightarrow>
    (trace_setup \<times> once_provider) res \<times> once_provider option" where
  "trace_Init exporter url low parse env resource cfg global =
    (let opts = trace_options url low cfg in
     case exporter opts of
       Some er \<Rightarrow> (Inl er, global)
     | None \<Rightarrow>
       (Inr (\<lparr>tt_options = opts, tt_ratio = sampleRatio parse env (tc_SampleRatio cfg),
          tt_attributes = resourceAttributes cfg, tt_from_env = (resource = None),
          tt_propagators = [''tracecontext'', ''baggage'']\<rparr>, new_provider), Some new_provider))"

text \<open>
  New of the metrics: the readers of the provider, Prometheus first, OTLP when an endpoint is given, and its
  resource; it becomes the default provider.
\<close>

datatype metric_reader = PrometheusReader | OtlpReader "exporter_option list"

record metrics_provider =
  mp_serviceName :: string
  mp_readers :: "metric_reader list"
  mp_from_env :: bool

definition metrics_New :: "err option \<Rightarrow> err option \<Rightarrow> (exporter_option list \<Rightarrow> err option) \<Rightarrow>
    (string \<Rightarrow> (string \<times> string \<times> string) option) \<Rightarrow> (nat \<Rightarrow> nat) \<Rightarrow> string \<Rightarrow> string \<Rightarrow>
    metrics_provider option \<Rightarrow> metrics_provider res \<times> metrics_provider option" where
  "metrics_New prom resource exporter url low serviceName otlpEndpoint global =
    (case prom of
       Some er \<Rightarrow> (Inl (Wrap ''prometheus exporter'' er), global)
     | None \<Rightarrow>
       let opts = metric_options url low otlpEndpoint;
           p = (\<lambda>readers. \<lparr>mp_serviceName = serviceName, mp_readers = readers, mp_from_env = (resource = None)\<rparr>) in
       if trim_space otlpEndpoint \<noteq> [] then
         (case exporter opts of
            Some er \<Rightarrow> (Inl (Wrap ''otlp exporter'' er), global)
          | None \<Rightarrow> let q = p [PrometheusReader, OtlpReader opts] in (Inr q, Some q))
       else let q = p [PrometheusReader] in (Inr q, Some q))"

lemma metrics_always_scraped:
  "metrics_New prom resource exporter url low sn ep global = (Inr p, d) \<Longrightarrow> d = Some p \<and> hd (mp_readers p) = PrometheusReader"
  by (auto simp: metrics_New_def Let_def split: option.splits if_splits)

lemma failed_init_keeps_provider:
  "trace_Init exporter url low parse env resource cfg global = (Inl er, g) \<Longrightarrow> g = global"
  by (auto simp: trace_Init_def Let_def split: option.splits)

section \<open>Requests at the gateway (observability.go, request_logger.go)\<close>

text \<open>How the rest of the chain ends: with the status written, or by a panic that unwinds through it.\<close>

datatype handler_end = Answered nat | Panicked

record http_span =
  hs_name :: string
  hs_method :: string
  hs_path :: string
  hs_route :: string
  hs_status :: nat
  hs_failed :: bool

record http_obs =
  ho_active :: int
  ho_requests :: "(string \<times> string \<times> nat) list"
  ho_durations :: "(string \<times> string \<times> nat) list"
  ho_started :: "string list"
  ho_spans :: "http_span list"
  ho_logs :: "(int \<times> string \<times> string \<times> nat option) list"

record http_req =
  hr_Method :: string
  hr_Path :: string
  hr_RawQuery :: string
  hr_FullPath :: string
  hr_RequestID :: string

type_synonym http_handler = "http_obs \<Rightarrow> handler_end \<times> http_obs"

definition route_label :: "http_req \<Rightarrow> string" where
  "route_label q = (if hr_FullPath q = [] then ''unmatched'' else hr_FullPath q)"

definition Observability :: "http_req \<Rightarrow> http_handler \<Rightarrow> http_handler" where
  "Observability q next1 st =
    (let name = hr_Method q @ '' '' @ hr_Path q;
         st1 = st\<lparr>ho_started := ho_started st @ [name], ho_active := ho_active st + 1\<rparr>
     in case next1 st1 of
          (Panicked, st2) \<Rightarrow> (Panicked, st2\<lparr>ho_active := ho_active st2 - 1\<rparr>)
        | (Answered status, st2) \<Rightarrow>
          let route = route_label q; attrs = (hr_Method q, route, status);
              st3 = st2\<lparr>ho_requests := ho_requests st2 @ [attrs], ho_durations := ho_durations st2 @ [attrs],
                ho_spans := ho_spans st2 @ [\<lparr>hs_name = name, hs_method = hr_Method q, hs_path = hr_Path q,
                  hs_route = route, hs_status = status, hs_failed = (500 \<le> status)\<rparr>]\<rparr>
          in (Answered status, st3\<lparr>ho_active := ho_active st3 - 1\<rparr>))"

definition logged_path :: "http_req \<Rightarrow> string" where
  "logged_path q = hr_Path q @ (if hr_RawQuery q \<noteq> [] then ''?'' @ hr_RawQuery q else [])"

definition status_level :: "nat \<Rightarrow> int" where
  "status_level status = (if 500 \<le> status then zap_Error else if 400 \<le> status then zap_Warn else zap_Info)"

text \<open>A log line: its level, the method, the path and, once it is known, the status.\<close>

definition RequestLogger :: "http_req \<Rightarrow> http_handler \<Rightarrow> http_handler" where
  "RequestLogger q next1 st =
    (let st1 = st\<lparr>ho_logs := ho_logs st @ [(zap_Debug, hr_Method q, logged_path q, None)]\<rparr>
     in case next1 st1 of
          (Panicked, st2) \<Rightarrow> (Panicked, st2)
        | (Answered status, st2) \<Rightarrow>
          (Answered status,
           st2\<lparr>ho_logs := ho_logs st2 @ [(status_level status, hr_Method q, logged_path q, Some status)]\<rparr>))"

text \<open>gin's recovery, the first of the chain, with the handler of app.go: an answer 500 and a line of its own.\<close>

definition CustomRecovery :: "http_handler \<Rightarrow> http_handler" where
  "CustomRecovery next1 st =
    (case next1 st of
       (Panicked, st1) \<Rightarrow> (Answered 500, st1\<lparr>ho_logs := ho_logs st1 @ [(zap_Error, [], [], None)]\<rparr>)
     | (Answered status, st1) \<Rightarrow> (Answered status, st1))"

definition observed_chain :: "http_req \<Rightarrow> http_handler \<Rightarrow> http_handler" where
  "observed_chain q h = CustomRecovery (Observability q (RequestLogger q h))"

text \<open>
  The logger of the gateway's middlewares: GetLogger panics (None) when there is no global logger, before
  the check for a missing one is reached.
\<close>

definition mwLogger :: "zlogger option \<Rightarrow> zlogger option" where
  "mwLogger global = (case GetLogger global of None \<Rightarrow> None | Some l \<Rightarrow> Some l)"

section \<open>The middlewares of the services (common.go)\<close>

text \<open>
  A call of a service's handler returns a reply and an error, each possibly missing, or panics. The
  recovery of Kratos answers a panic with no reply and the error of its handler, which here is none.
\<close>

datatype 'r call_end = Returned "'r option" "err option" | CallPanicked

definition recovery_handler :: "'q \<Rightarrow> err option" where "recovery_handler req = None"

definition kratos_recovery :: "('q \<Rightarrow> err option) \<Rightarrow> ('q \<Rightarrow> 'r call_end) \<Rightarrow> 'q \<Rightarrow> 'r call_end" where
  "kratos_recovery handler next1 req =
    (case next1 req of CallPanicked \<Rightarrow> Returned None (handler req) | Returned r er \<Rightarrow> Returned r er)"

text \<open>The chain: recovery outermost, then the middlewares that only observe, here \<^verbatim>\<open>inner\<close>.\<close>

definition CommonServerMiddlewares :: "(('q \<Rightarrow> 'r call_end) \<Rightarrow> 'q \<Rightarrow> 'r call_end) list \<Rightarrow> ('q \<Rightarrow> 'r call_end) \<Rightarrow> 'q \<Rightarrow> 'r call_end" where
  "CommonServerMiddlewares inner h = foldr (\<lambda>m. m) (kratos_recovery recovery_handler # inner) h"

section \<open>What they promise\<close>

lemma gorm_operation_reports:
  assumes "gs_slot st = None"
  shows "gorm_operation meter dialect op exec st r =
    (if gs_Error st \<noteq> None then (st, r)
     else let er = exec (st\<lparr>gs_slot := Some (gorm_span dialect op (gs_Table st))\<rparr>) in
       (st\<lparr>gs_Error := er\<rparr>,
        recordDBOperation meter dialect (gs_Table st) er
          (r\<lparr>rp_spans := rp_spans r @ [(gorm_span dialect op (gs_Table st))\<lparr>ts_error := er\<rparr>]\<rparr>)))"
  using assms
  by (cases st) (auto simp: gorm_operation_def gorm_before_def gorm_after_def gorm_span_def Let_def split: option.splits)

text \<open>A measurement carries the name of the table where the operation belongs.\<close>

lemma measured_by_table:
  assumes "gs_slot st = None" "gs_Error st = None" "meter"
  shows "rp_durations (snd (gorm_operation meter dialect op exec st r)) =
    rp_durations r @ [(dialect, gs_Table st, resultLabel (exec (st\<lparr>gs_slot := Some (gorm_span dialect op (gs_Table st))\<rparr>)))]"
  using assms by (simp add: gorm_operation_reports recordDBOperation_def Let_def)

lemma initialize_all:
  "(\<And>n. reg n = None) \<Longrightarrow> gorm_Initialize reg =
    (None, concat (map (\<lambda>op. [''ley:otel:before:'' @ op, ''ley:otel:after:'' @ op]) gorm_ops))"
  by (simp add: gorm_Initialize_def gorm_ops_def Let_def)

text \<open>A read of a missing key ends its span as failed.\<close>

lemma miss_is_reported_as_error:
  assumes "next1 cmd s = (Some redis_Nil, s')"
  shows "ProcessHook upper True next1 cmd (s, r) =
    (Some redis_Nil, (s', \<lparr>rp_spans = rp_spans r @ [(redis_span upper [cmd])\<lparr>ts_error := Some redis_Nil\<rparr>],
      rp_durations = rp_durations r @ [(''redis'', show_nat 1, ''error'')]\<rparr>))"
  using assms by (cases r) (simp add: ProcessHook_def redis_end_def recordRedisOperation_def resultLabel_def)

text \<open>The hook is a decorator of the commands and of the pipelines.\<close>

interpretation hooked: decorator next1 "ProcessHook upper meter next1" fst for next1 upper meter
  by unfold_locales (simp_all add: ProcessHook_def split: prod.split)

interpretation hooked_pipeline: decorator next1 "ProcessPipelineHook upper meter next1" fst for next1 upper meter
  by unfold_locales (simp_all add: ProcessPipelineHook_def split: prod.split)

text \<open>Over any sequence of commands the hook changes no answer and nothing in Redis.\<close>

lemma hook_transparent:
  "fst (run_calls (ProcessHook upper meter next1) cmds (s, r)) = fst (run_calls next1 cmds s)"
  "fst (snd (run_calls (ProcessHook upper meter next1) cmds (s, r))) = snd (run_calls next1 cmds s)"
  using hooked.transparent [of upper meter next1 cmds "(s, r)"] by simp_all

lemma shutdown_once:
  "provider_Shutdown down (p, s) = (er, (p1, s1)) \<Longrightarrow> provider_Shutdown down (p1, s1) = (er, (p1, s1))"
  by (auto simp: provider_Shutdown_def split: if_splits prod.splits)

lemma ratio_range: "0 < sampleRatio parse env c \<and> sampleRatio parse env c \<le> 1"
  by (auto simp: sampleRatio_def split: option.splits)

text \<open>A service answers a panic with neither a reply nor an error, whatever observes the call.\<close>

lemma observers_pass_panic:
  assumes "\<And>m g. m \<in> set inner \<Longrightarrow> g req = CallPanicked \<Longrightarrow> m g req = CallPanicked" "h req = CallPanicked"
  shows "foldr (\<lambda>m. m) inner h req = CallPanicked"
  using assms by (induction inner) auto

text \<open>
  When a handler of a service panics, its client is told of no error: the recovery middleware, given a
  handler that returns nil, turns the panic into an answer with no error and no reply.
\<close>

theorem panic_is_no_error:
  assumes "\<And>m g. m \<in> set inner \<Longrightarrow> g req = CallPanicked \<Longrightarrow> m g req = CallPanicked" "h req = CallPanicked"
  shows "CommonServerMiddlewares inner h req = Returned None None"
  using observers_pass_panic [where inner = inner and h = h and req = req] assms
  by (simp add: CommonServerMiddlewares_def kratos_recovery_def recovery_handler_def)

lemma panic_is_no_error_witness:
  "CommonServerMiddlewares [\<lambda>g q. g q, \<lambda>g q. g q] (\<lambda>q. CallPanicked) (7::nat) = (Returned None None :: nat call_end)"
  by (rule panic_is_no_error) auto

text \<open>Requests one after the other, each with the handler that serves it.\<close>

primrec serve_all :: "(http_req \<times> http_handler) list \<Rightarrow> http_obs \<Rightarrow> handler_end list \<times> http_obs" where
  "serve_all [] st = ([], st)"
| "serve_all (x # xs) st =
    (let (r, st1) = observed_chain (fst x) (snd x) st; (rs, st2) = serve_all xs st1 in (r # rs, st2))"

text \<open>A handler that ends in a given way and leaves the observations alone.\<close>

definition plain_handler :: "handler_end \<Rightarrow> http_handler" where "plain_handler r st = (r, st)"

definition plain_requests :: "(http_req \<times> handler_end) list \<Rightarrow> (http_req \<times> http_handler) list" where
  "plain_requests xs = map (\<lambda>(q, r). (q, plain_handler r)) xs"

definition answered :: "(http_req \<times> handler_end) list \<Rightarrow> (string \<times> string \<times> nat) list" where
  "answered xs = concat (map (\<lambda>(q, r). case r of Answered n \<Rightarrow> [(hr_Method q, route_label q, n)] | Panicked \<Rightarrow> []) xs)"

lemma serve_all_counts:
  assumes "serve_all (plain_requests xs) st = (rs, st')"
  shows "ho_active st' = ho_active st \<and> ho_requests st' = ho_requests st @ answered xs \<and>
    length (ho_started st') = length (ho_started st) + length xs \<and>
    length (ho_spans st') = length (ho_spans st) + length (answered xs)"
  using assms
proof (induction xs arbitrary: st rs)
  case (Cons x xs)
  obtain q r where x: "x = (q, r)" by fastforce
  obtain st1 where c: "observed_chain q (plain_handler r) st = (fst (observed_chain q (plain_handler r) st), st1)"
    by (metis surjective_pairing)
  have one: "ho_active st1 = ho_active st" "ho_requests st1 = ho_requests st @ answered [x]"
      "length (ho_started st1) = Suc (length (ho_started st))"
      "length (ho_spans st1) = length (ho_spans st) + length (answered [x])"
    using c by (cases r; auto simp: x observed_chain_def CustomRecovery_def Observability_def RequestLogger_def
        plain_handler_def answered_def Let_def)+
  from Cons.prems c obtain rs1 where "serve_all (plain_requests xs) st1 = (rs1, st')"
    by (auto simp: plain_requests_def x Let_def split: prod.splits)
  from Cons.IH [OF this] one show ?case by (simp add: answered_def)
qed (simp add: plain_requests_def answered_def)

text \<open>
  The gateway's counters: over any requests the number of active ones comes back to what it was, also
  when handlers panic; but a request whose handler panics is answered with 500 and is not among the counted
  requests, and its span never ends.
\<close>

theorem requests_observed:
  assumes "serve_all (plain_requests xs) st = (rs, st')"
  shows "ho_active st' = ho_active st \<and> ho_requests st' = ho_requests st @ answered xs \<and>
    length (ho_started st') - length (ho_started st) = length xs \<and>
    length (ho_spans st') - length (ho_spans st) = length (answered xs)"
  using serve_all_counts [OF assms] by simp

lemma requests_observed_witness:
  "let q = \<lparr>hr_Method = ''GET'', hr_Path = ''/a'', hr_RawQuery = [], hr_FullPath = ''/a'', hr_RequestID = []\<rparr>;
       st = \<lparr>ho_active = 0, ho_requests = [], ho_durations = [], ho_started = [], ho_spans = [], ho_logs = []\<rparr>
   in ho_active (snd (serve_all (plain_requests [(q, Panicked), (q, Answered 200)]) st)) = 0 \<and>
     ho_requests (snd (serve_all (plain_requests [(q, Panicked), (q, Answered 200)]) st)) = [(''GET'', ''/a'', 200)]"
  unfolding Let_def
  using requests_observed [OF surjective_pairing,
      of "[(\<lparr>hr_Method = ''GET'', hr_Path = ''/a'', hr_RawQuery = [], hr_FullPath = ''/a'', hr_RequestID = []\<rparr>, Panicked),
           (\<lparr>hr_Method = ''GET'', hr_Path = ''/a'', hr_RawQuery = [], hr_FullPath = ''/a'', hr_RequestID = []\<rparr>, Answered 200)]"
         "\<lparr>ho_active = 0, ho_requests = [], ho_durations = [], ho_started = [], ho_spans = [], ho_logs = []\<rparr>"]
  by (simp only: answered_def) (simp add: route_label_def)

text \<open>A panicking request leaves no line of its own above the level of debugging.\<close>

lemma panic_has_no_completion_line:
  "ho_logs (snd (observed_chain q (plain_handler Panicked) st)) =
    ho_logs st @ [(zap_Debug, hr_Method q, logged_path q, None), (zap_Error, [], [], None)]"
  by (simp add: observed_chain_def CustomRecovery_def Observability_def RequestLogger_def plain_handler_def Let_def)

lemma no_logger_panics: "mwLogger None = None"
  by (simp add: mwLogger_def GetLogger_def)

end
