(* ===== verification/OssProps.thy ===== *)
theory OssProps
  imports OssClients Tracing
begin

text \<open>
  Tracing changes nothing but the traces, over any sequence of calls; and how the two implementations ask
  for a part of an object.
\<close>

section \<open>Sequences of calls\<close>

datatype oss_op =
    OPut string string int string | OGet string | ORange string int int | OStat string | ODelete string
  | ODeletes "string list" | OCopy string string | OList string int string | OPresignGet string int
  | OPresignPut string string int | OInit string string | OPart string string int string int
  | OComplete string string "Part list" | OAbort string string | OBucketExists string | OMakeBucket string
  | ORemoveBucket string | OListBuckets

datatype oss_answer =
    RDone "oss_error + unit" | RObject "oss_error + string \<times> ObjectMeta" | RMeta "oss_error + ObjectMeta"
  | RList "oss_error + ObjectMeta list \<times> string" | RText "oss_error + string" | RPart "oss_error + Part"
  | RFlag "oss_error + bool" | RBuckets "oss_error + BucketInfo list"

fun oss_apply :: "'s OSSWithBucket \<Rightarrow> oss_op \<Rightarrow> 's \<Rightarrow> oss_answer \<times> 's" where
  "oss_apply c (OPut k body n ctype) s = map_prod RDone id (i_PutObject c k body n ctype s)"
| "oss_apply c (OGet k) s = map_prod RObject id (i_GetObject c k s)"
| "oss_apply c (ORange k a n) s = map_prod RObject id (i_GetObjectRange c k a n s)"
| "oss_apply c (OStat k) s = map_prod RMeta id (i_StatObject c k s)"
| "oss_apply c (ODelete k) s = map_prod RDone id (i_DeleteObject c k s)"
| "oss_apply c (ODeletes ks) s = map_prod RDone id (i_DeleteObjects c ks s)"
| "oss_apply c (OCopy src dst) s = map_prod RDone id (i_CopyObject c src dst s)"
| "oss_apply c (OList pre n tok) s = map_prod RList id (i_ListObjects c pre n tok s)"
| "oss_apply c (OPresignGet k n) s = map_prod RText id (i_GetPresignedURL c k n s)"
| "oss_apply c (OPresignPut k ctype n) s = map_prod RText id (i_GetPresignedPutURL c k ctype n s)"
| "oss_apply c (OInit k ctype) s = map_prod RText id (i_InitiateMultipartUpload c k ctype s)"
| "oss_apply c (OPart k u n body sz) s = map_prod RPart id (i_UploadPart c k u n body sz s)"
| "oss_apply c (OComplete k u ps) s = map_prod RDone id (i_CompleteMultipartUpload c k u ps s)"
| "oss_apply c (OAbort k u) s = map_prod RDone id (i_AbortMultipartUpload c k u s)"
| "oss_apply c (OBucketExists bu) s = map_prod RFlag id (i_BucketExists c bu s)"
| "oss_apply c (OMakeBucket bu) s = map_prod RDone id (i_MakeBucket c bu s)"
| "oss_apply c (ORemoveBucket bu) s = map_prod RDone id (i_RemoveBucket c bu s)"
| "oss_apply c OListBuckets s = map_prod RBuckets id (i_ListBuckets c s)"

definition oss_run :: "'s OSSWithBucket \<Rightarrow> oss_op list \<Rightarrow> 's \<Rightarrow> oss_answer list \<times> 's" where
  "oss_run c = run_calls (oss_apply c)"

primrec answer_error :: "oss_answer \<Rightarrow> oss_error option" where
  "answer_error (RDone r) = error_of r"
| "answer_error (RObject r) = error_of r"
| "answer_error (RMeta r) = error_of r"
| "answer_error (RList r) = error_of r"
| "answer_error (RText r) = error_of r"
| "answer_error (RPart r) = error_of r"
| "answer_error (RFlag r) = error_of r"
| "answer_error (RBuckets r) = error_of r"

text \<open>The name and the object key that a call's span should carry.\<close>

fun op_label :: "oss_op \<Rightarrow> string \<times> string option" where
  "op_label (OPut k body n ctype) = (''PutObject'', opt_string k)"
| "op_label (OGet k) = (''GetObject'', opt_string k)"
| "op_label (ORange k a n) = (''GetObjectRange'', opt_string k)"
| "op_label (OStat k) = (''StatObject'', opt_string k)"
| "op_label (ODelete k) = (''DeleteObject'', opt_string k)"
| "op_label (ODeletes ks) = (''DeleteObjects'', None)"
| "op_label (OCopy src dst) = (''CopyObject'', opt_string src)"
| "op_label (OList pre n tok) = (''ListObjects'', opt_string pre)"
| "op_label (OPresignGet k n) = (''GetPresignedURL'', opt_string k)"
| "op_label (OPresignPut k ctype n) = (''GetPresignedPutURL'', opt_string k)"
| "op_label (OInit k ctype) = (''InitiateMultipartUpload'', opt_string k)"
| "op_label (OPart k u n body sz) = (''UploadPart'', opt_string k)"
| "op_label (OComplete k u ps) = (''CompleteMultipartUpload'', opt_string k)"
| "op_label (OAbort k u) = (''AbortMultipartUpload'', opt_string k)"
| "op_label (OBucketExists bu) = (''BucketExists'', None)"
| "op_label (OMakeBucket bu) = (''MakeBucket'', None)"
| "op_label (ORemoveBucket bu) = (''RemoveBucket'', None)"
| "op_label OListBuckets = (''ListBuckets'', None)"

definition span_for :: "oss_op \<Rightarrow> oss_answer \<Rightarrow> span" where
  "span_for x a = \<lparr>sp_operation = fst (op_label x), sp_key = snd (op_label x), sp_error = answer_error a\<rparr>"

definition observed :: "bool \<Rightarrow> (oss_op \<times> oss_answer) list \<Rightarrow> 's \<Rightarrow> 's traced \<Rightarrow> 's traced" where
  "observed meter lg s t = \<lparr>tr_state = s, tr_spans = tr_spans t @ map (\<lambda>(x, a). span_for x a) lg,
    tr_durations = tr_durations t @ (if meter then map (\<lambda>(x, a). (fst (op_label x), answer_error a = None)) lg else [])\<rparr>"

lemma traced_call_observed:
  "traced_call meter nm k f t = (case f (tr_state t) of (r, s) \<Rightarrow>
    (r, \<lparr>tr_state = s, tr_spans = tr_spans t @ [\<lparr>sp_operation = nm, sp_key = opt_string k, sp_error = error_of r\<rparr>],
         tr_durations = tr_durations t @ (if meter then [(nm, error_of r = None)] else [])\<rparr>))"
  by (auto simp: traced_call_def begin_span_def end_span_def recordOSSOperation_def Let_def
      split: prod.splits option.splits)

lemma opt_string_Nil [simp]: "opt_string [] = None"
  by (simp add: opt_string_def)

lemma apply_traced:
  "oss_apply (NewTracedOSS meter c) x t =
    (case oss_apply c x (tr_state t) of (a, s) \<Rightarrow> (a, observed meter [(x, a)] s t))"
  by (cases x) (auto simp: NewTracedOSS_def traced_call_observed observed_def span_for_def split: prod.split)

lemma observed_observed: "observed meter lg2 s2 (observed meter lg1 s1 t) = observed meter (lg1 @ lg2) s2 t"
  by (simp add: observed_def)

text \<open>
  Tracing is transparent: over any sequence of calls the traced client gives the answers of the client
  it wraps and leaves the storage in the same state, and it reports one ended span and one measurement per
  call, in order, with the call's operation and key and an error exactly if the call failed.
\<close>

theorem traced_transparent:
  "oss_run (NewTracedOSS meter c) xs t =
    (case oss_run c xs (tr_state t) of (as, s) \<Rightarrow> (as, observed meter (zip xs as) s t))"
proof (induction xs arbitrary: t)
  case (Cons x xs)
  obtain a s where a: "oss_apply c x (tr_state t) = (a, s)" by fastforce
  obtain as s2 where r: "oss_run c xs s = (as, s2)" by fastforce
  have "oss_apply (NewTracedOSS meter c) x t = (a, observed meter [(x, a)] s t)" by (simp add: apply_traced a)
  moreover have "tr_state (observed meter [(x, a)] s t) = s" by (simp add: observed_def)
  ultimately show ?case
    using Cons.IH [of "observed meter [(x, a)] s t"] r by (simp add: oss_run_def a observed_observed)
qed (simp add: observed_def oss_run_def)

interpretation traced_oss: decorator "oss_apply c" "oss_apply (NewTracedOSS meter c)" tr_state for c meter
  by unfold_locales (simp_all add: apply_traced observed_def split: prod.split)

text \<open>So what every call keeps of the storage is kept behind the tracing client.\<close>

lemma traced_keeps:
  assumes "\<And>x s. I s \<Longrightarrow> I (snd (oss_apply c x s))" "I (tr_state t)"
  shows "I (tr_state (snd (oss_run (NewTracedOSS meter c) xs t)))"
  unfolding oss_run_def using assms by (rule traced_oss.keeps)

section \<open>Parts of objects\<close>

text \<open>
  MinIO and Aliyun ask for the same part of an object, except that MinIO's client, asked for a whole
  object from its start (offset 0, no length), asks for its first byte only: its SDK reads the range 0 to 0
  as one byte, and takes an end of 0 as "to the end" only after a positive start.
\<close>

theorem minio_whole_range_is_one_byte:
  assumes "\<And>a. 0 < a \<Longrightarrow> mi_SetRange sdk a 0 = Inr (''bytes='' @ show_int a @ ''-'')"
    "\<And>a b. 0 \<le> a \<Longrightarrow> a \<le> b \<Longrightarrow> mi_SetRange sdk a b = Inr (''bytes='' @ show_int a @ ''-'' @ show_int b)"
    "0 \<le> offset" "offset + len \<le> 2 ^ 63"
  shows "minio_range sdk offset len =
    (if offset = 0 \<and> len \<le> 0 then Inr ''bytes=0-0'' else rangeHeader offset len)"
proof -
  have z: "show_int 0 = ''0''" by code_simp
  have "wrap64 (offset + len - 1) = offset + len - 1" if "0 < len"
    using that assms(3,4) by (intro wrap64_id) simp_all
  moreover have "offset \<le> offset + len - 1" if "0 < len" using that by simp
  ultimately show ?thesis
    using assms(1) [of offset] assms(2) [of offset "offset + len - 1"] assms(2) [of 0 0] assms(3)
    by (auto simp: minio_range_def rangeHeader_def z)
qed

definition doc_sdk :: "unit minio_sdk \<Rightarrow> unit minio_sdk" where
  "doc_sdk sdk = sdk\<lparr>mi_SetRange := (\<lambda>a b.
    if 0 < a \<and> b = 0 then Inr (''bytes='' @ show_int a @ ''-'')
    else if 0 \<le> a \<and> a \<le> b then Inr (''bytes='' @ show_int a @ ''-'' @ show_int b)
    else Inl (OtherError ''range''))\<rparr>"

lemma minio_whole_range_is_one_byte_witness:
  "\<forall>sdk. minio_range (doc_sdk sdk) 0 0 = Inr ''bytes=0-0''"
  by (intro allI, subst minio_whole_range_is_one_byte) (auto simp: doc_sdk_def)

text \<open>Both clients recognise the same errors of the service.\<close>

lemma clients_map_alike: "oss_is (toOssErr er) t = oss_is (toAliyunErr er) t"
  by (simp add: toOssErr_def toAliyunErr_def)

text \<open>An expiry outside one second to seven days never reaches the SDK of Aliyun.\<close>

lemma aliyun_expiry_checked:
  "\<not> (1 \<le> n \<and> n \<le> 7 * 24 * 3600) \<Longrightarrow> aliyun_PresignedURL sdk k n s = (Inl (InvalidParam ''expiry''), s)"
  "\<not> (1 \<le> n \<and> n \<le> 7 * 24 * 3600) \<Longrightarrow> aliyun_PresignedPutURL sdk k c n s = (Inl (InvalidParam ''expiry''), s)"
  by (auto simp: aliyun_PresignedURL_def aliyun_PresignedPutURL_def validateExpiry_def)

text \<open>MinIO's client hands its SDK the product modulo 2^64: a huge number of seconds can look like an hour.\<close>

lemma minio_expiry_wraps: "seconds 18446747674 = 3600290448384"
  by (simp add: seconds_def wrap64_def)

end
