(* ===== verification/Transport.thy ===== *)
theory Transport
  imports BlogService FilesProps Tracing
begin

text \<open>
  Between the gateway and the services: the names under which services register and are dialled
  (pkg/util/tools.go, pkg/constant), the options of the connections (app/entry/infra/grpc.go) and of the
  servers (internal/server of the services), and what they mean for large messages.
\<close>

section \<open>Names\<close>

definition AppName :: string where "AppName = ''ley''"
definition ServiceNameBlog :: string where "ServiceNameBlog = ''blog''"
definition ServiceNameAuth :: string where "ServiceNameAuth = ''auth''"

definition DisServiceName :: "string \<Rightarrow> string" where
  "DisServiceName serviceName = AppName @ ''.'' @ serviceName"

definition DiscoveryEndpoint :: "string \<Rightarrow> string" where
  "DiscoveryEndpoint serviceName = ''discovery'' @ ''://'' @ [] @ ''/'' @ serviceName"

text \<open>The id of an instance; \<^verbatim>\<open>host\<close> is missing when the host name cannot be read.\<close>

definition ServiceId :: "string option \<Rightarrow> string \<Rightarrow> string \<Rightarrow> string" where
  "ServiceId host uuid serviceName =
    (case host of
       None \<Rightarrow> serviceName @ ''.'' @ uuid
     | Some h \<Rightarrow> h @ ''.'' @ serviceName @ ''.'' @ uuid)"

primrec InArray :: "'a \<Rightarrow> 'a list \<Rightarrow> bool" where
  "InArray val [] \<longleftrightarrow> False"
| "InArray val (v # vs) \<longleftrightarrow> (if v = val then True else InArray val vs)"

text \<open>\<^verbatim>\<open>to_slice\<close> lists a set of the set package in some order.\<close>

definition UniqueSlice :: "('a set \<Rightarrow> 'a list) \<Rightarrow> 'a list \<Rightarrow> 'a list" where
  "UniqueSlice to_slice xs = to_slice (set xs)"

section \<open>Connections of the gateway\<close>

datatype client_middleware = TracingClient | MetricsClient | MetadataClient

text \<open>A limit that is not set is the default of the library.\<close>

record rpc_client =
  rc_endpoint :: string
  rc_middleware :: "client_middleware list"
  rc_timeout :: int
  rc_max_send :: "nat option"
  rc_max_recv :: "nat option"

definition blogMaxMsgSize :: nat where "blogMaxMsgSize = 32 * 2 ^ 20"

definition dialServiceConn :: "string \<Rightarrow> (rpc_client \<Rightarrow> rpc_client) list \<Rightarrow> rpc_client" where
  "dialServiceConn endpoint extras =
    foldl (\<lambda>c opt. opt c)
      \<lparr>rc_endpoint = endpoint, rc_middleware = [TracingClient, MetricsClient, MetadataClient],
       rc_timeout = 3 * 1000000000, rc_max_send = None, rc_max_recv = None\<rparr> extras"

definition NewAuthClientConn :: rpc_client where
  "NewAuthClientConn = dialServiceConn (DiscoveryEndpoint ''ley.auth'') []"

definition NewBlogClientConn :: rpc_client where
  "NewBlogClientConn = dialServiceConn (DiscoveryEndpoint ''ley.blog'')
    [\<lambda>c. c\<lparr>rc_max_recv := Some blogMaxMsgSize, rc_max_send := Some blogMaxMsgSize\<rparr>]"

section \<open>Servers\<close>

text \<open>The part of the bootstrap configuration of a server: its address and its timeout, if given.\<close>

record server_conf =
  sc_Addr :: string
  sc_Timeout :: "int option"

record rpc_server =
  rs_address :: "string option"
  rs_timeout :: "int option"
  rs_services :: "string list"
  rs_max_recv :: "nat option"

definition server_options :: "server_conf option \<Rightarrow> string option \<times> int option" where
  "server_options bs =
    (case bs of
       None \<Rightarrow> (None, None)
     | Some cf \<Rightarrow>
       (let addr = trim_space (sc_Addr cf) in if addr \<noteq> [] then Some addr else None,
        case sc_Timeout cf of None \<Rightarrow> None | Some d \<Rightarrow> if 0 < d then Some d else None))"

definition blog_NewGRPCServer :: "server_conf option \<Rightarrow> rpc_server" where
  "blog_NewGRPCServer bs =
    \<lparr>rs_address = fst (server_options bs), rs_timeout = snd (server_options bs),
     rs_services = [''Article'', ''Tag'', ''Category'', ''File'', ''Site''], rs_max_recv = None\<rparr>"

definition auth_NewGRPCServer :: "server_conf option \<Rightarrow> rpc_server" where
  "auth_NewGRPCServer bs =
    \<lparr>rs_address = fst (server_options bs), rs_timeout = snd (server_options bs),
     rs_services = [''Auth''], rs_max_recv = None\<rparr>"

text \<open>The HTTP servers answer the health checks themselves, and the metrics if there is a provider.\<close>

record http_server =
  ht_address :: "string option"
  ht_timeout :: "int option"
  ht_services :: "string list"

definition blog_NewHTTPServer :: "server_conf option \<Rightarrow> http_server" where
  "blog_NewHTTPServer bs =
    \<lparr>ht_address = fst (server_options bs), ht_timeout = snd (server_options bs),
     ht_services = [''Article'', ''Tag'', ''Category'', ''File'', ''Site'']\<rparr>"

definition auth_NewHTTPServer :: "server_conf option \<Rightarrow> http_server" where
  "auth_NewHTTPServer bs =
    \<lparr>ht_address = fst (server_options bs), ht_timeout = snd (server_options bs), ht_services = [''Auth'']\<rparr>"

definition ops_route :: "string \<Rightarrow> string option \<Rightarrow> (nat \<times> string) option" where
  "ops_route path metrics =
    (if path = ''/healthz'' then Some (200, ''status=ok'')
     else if path = ''/readyz'' then Some (200, ''status=ready'')
     else if path = ''/metrics'' then (case metrics of Some body \<Rightarrow> Some (200, body) | None \<Rightarrow> Some (404, []))
     else None)"

section \<open>A call\<close>

text \<open>
  A request of \<^verbatim>\<open>n\<close> bytes goes out if the client's limit allows it and in if the server's does; \<^verbatim>\<open>dsend\<close>
  and \<^verbatim>\<open>drecv\<close> are the library's defaults and \<^verbatim>\<open>too_large\<close> the error of a refused message.
\<close>

definition limit :: "nat \<Rightarrow> nat option \<Rightarrow> nat" where
  "limit d m = (case m of None \<Rightarrow> d | Some n \<Rightarrow> n)"

definition rpc_call :: "nat \<Rightarrow> nat \<Rightarrow> err \<Rightarrow> rpc_client \<Rightarrow> rpc_server \<Rightarrow> nat \<Rightarrow> ('s \<Rightarrow> 'r res \<times> 's) \<Rightarrow> 's \<Rightarrow> 'r res \<times> 's" where
  "rpc_call dsend drecv too_large c srv n h s =
    (if n \<le> limit dsend (rc_max_send c) \<and> n \<le> limit drecv (rs_max_recv srv) then h s else (Inl too_large, s))"

text \<open>The handlers of FileService that prepare direct uploads.\<close>

definition presignedExpiresIn :: int where "presignedExpiresIn = 3600"

definition svc_GetPresignedPutURL ::
  "env \<Rightarrow> (string \<Rightarrow> string \<Rightarrow> int \<Rightarrow> string res) \<Rightarrow> ctx \<Rightarrow> string \<Rightarrow> string \<Rightarrow> (string \<times> string) res" where
  "svc_GetPresignedPutURL e presign c fn mime =
    (case GetPresignedPutURL e presign c fn mime of Inl er \<Rightarrow> Inl er | Inr (url, k) \<Rightarrow> Inr (url, k))"

definition svc_CreatePresignedUpload ::
  "env \<Rightarrow> (string \<Rightarrow> string \<Rightarrow> int \<Rightarrow> string res) \<Rightarrow> (int \<Rightarrow> string) \<Rightarrow> string \<Rightarrow> ctx \<Rightarrow> string \<Rightarrow> string \<Rightarrow> int \<Rightarrow>
    (string \<times> string \<times> int) res" where
  "svc_CreatePresignedUpload e presign day uid c fn mime sz =
    (case CreatePresignedUpload e presign day uid c fn mime sz of
       Inl er \<Rightarrow> Inl er
     | Inr (url, k) \<Rightarrow> Inr (url, k, presignedExpiresIn))"

section \<open>What follows\<close>

text \<open>The gateway dials the names under which the services register.\<close>

lemma dials_registered_names:
  "rc_endpoint NewAuthClientConn = DiscoveryEndpoint (DisServiceName ServiceNameAuth)"
  "rc_endpoint NewBlogClientConn = DiscoveryEndpoint (DisServiceName ServiceNameBlog)"
  by (simp_all add: NewAuthClientConn_def NewBlogClientConn_def dialServiceConn_def DisServiceName_def
      AppName_def ServiceNameAuth_def ServiceNameBlog_def)

lemma identity_travels: "MetadataClient \<in> set (rc_middleware NewAuthClientConn) \<inter> set (rc_middleware NewBlogClientConn)"
  by (simp add: NewAuthClientConn_def NewBlogClientConn_def dialServiceConn_def)

lemma InArray_iff: "InArray v xs \<longleftrightarrow> v \<in> set xs"
  by (induction xs) auto

lemma small_messages_pass:
  assumes "n \<le> blogMaxMsgSize" "n \<le> drecv"
  shows "rpc_call dsend drecv er NewBlogClientConn (blog_NewGRPCServer bs) n h s = h s"
  using assms by (simp add: rpc_call_def limit_def NewBlogClientConn_def dialServiceConn_def blog_NewGRPCServer_def)

lemma accepted_upload_succeeds:
  assumes "calm e" "getCurrentUserID c = Inr u" "check_upload e fn mime d = None"
  shows "\<exists>f s'. svc_UploadFile rfc e key c fn mime d s = (Inr f, s')"
  using assms
  by (simp add: svc_UploadFile_def reply_def Upload_def fileRepo_Create_def oss_PutObject_def oss_fault_def insert_file_def Let_def)

text \<open>
  C19. Files between 4 and 10 MiB cannot be uploaded through the gateway: the handler accepts and stores
  them, and the gateway's connection was given a limit of 32 MiB for them, but the blog's server keeps the
  library's limit of 4 MiB for what it receives, so the call fails before the handler runs and nothing is
  stored.
\<close>

theorem large_upload_never_arrives:
  assumes "calm e" "getCurrentUserID c = Inr u" "check_upload e fn mime d = None"
    "4 * 1024 * 1024 < length d" "drecv = 4 * 1024 * 1024" "length d \<le> n"
  shows "is_ok (fst (svc_UploadFile rfc e key c fn mime d s)) \<and>
    rpc_call dsend drecv too_large NewBlogClientConn (blog_NewGRPCServer bs) n
      (svc_UploadFile rfc e key c fn mime d) s = (Inl too_large, s)"
proof -
  obtain f s' where "svc_UploadFile rfc e key c fn mime d s = (Inr f, s')"
    using accepted_upload_succeeds [OF assms(1-3)] by blast
  with assms(4-6) show ?thesis by (simp add: rpc_call_def limit_def blog_NewGRPCServer_def)
qed

lemma large_note: "check_upload env0 ''dir/../a.TXT'' ''text/plain'' (replicate 5000000 CHR ''x'') = None"
  unfolding check_upload_def base_a ext_a
  by (simp add: bad_name_def allowedExtensions_def allowedMimeTypes_def MaxFileSize_def verifyMagicNumber_def magicNumbers_def
      has_prefix_def)

lemma large_upload_never_arrives_witness:
  "rpc_call (2 ^ 31 - 1) 4194304 (Opaque ''ResourceExhausted'') NewBlogClientConn (blog_NewGRPCServer None) 5000100
      (svc_UploadFile (\<lambda>t. []) env0 ''k'' (as_user 1 ''reader'') ''dir/../a.TXT'' ''text/plain''
        (replicate 5000000 CHR ''x'')) files0 = (Inl (Opaque ''ResourceExhausted''), files0)"
proof -
  have u: "getCurrentUserID (as_user 1 ''reader'') = Inr 1" by simp
  show ?thesis
    by (rule large_upload_never_arrives [OF calm_env0(1) u large_note, THEN conjunct2]) simp_all
qed

end
