(* ===== verification/Meters.thy ===== *)
theory Meters
  imports Gateway Tracing
begin

text \<open>
  Counters by name: results of the use cases (app/auth/internal/biz/metrics.go, app/blog/internal/biz/
  metrics.go), calls the gateway forwards (app/entry/internal/domain/proxy/observability.go), the default
  provider (pkg/metrics/global.go) and the instruments of a provider (pkg/metrics/metrics.go).
\<close>

section \<open>Results of the use cases\<close>

text \<open>The counts added so far, by their label; a counter that could not be made is missing.\<close>

type_synonym counts = "string list option"

definition resultOf :: "err option \<Rightarrow> string" where
  "resultOf er = (if er \<noteq> None then ''error'' else ''success'')"

definition auth_recordResult :: "counts \<Rightarrow> string \<Rightarrow> counts" where
  "auth_recordResult counter result = (case counter of None \<Rightarrow> None | Some c \<Rightarrow> Some (c @ [result]))"

definition blog_recordResult :: "counts \<Rightarrow> err option \<Rightarrow> counts" where
  "blog_recordResult counter er = (case counter of None \<Rightarrow> None | Some c \<Rightarrow> Some (c @ [resultOf er]))"

section \<open>Forwarded calls\<close>

record proxy_obs =
  px_requests :: "(string \<times> string) list option"
  px_durations :: "string list option"
  px_lines :: "(int \<times> string \<times> nat option) list"

definition recordProxyCall :: "string \<Rightarrow> nat \<Rightarrow> 'e option \<Rightarrow> proxy_obs \<Rightarrow> proxy_obs" where
  "recordProxyCall operation httpStatus er o1 =
    (let result = (if er \<noteq> None then ''error'' else ''success'');
         o2 = (case px_requests o1 of None \<Rightarrow> o1 | Some rs \<Rightarrow> o1\<lparr>px_requests := Some (rs @ [(operation, result)])\<rparr>);
         o3 = (case px_durations o2 of None \<Rightarrow> o2 | Some ds \<Rightarrow> o2\<lparr>px_durations := Some (ds @ [operation])\<rparr>);
         entry = (if er = None then (zap_Debug, operation, None)
           else if 500 \<le> httpStatus then (zap_Error, operation, None)
           else (zap_Warn, operation, Some httpStatus))
     in o3\<lparr>px_lines := px_lines o3 @ [entry]\<rparr>)"

text \<open>What the skeleton of the handlers records of a call.\<close>

definition record_call :: "string \<Rightarrow> callerr option \<Rightarrow> proxy_obs \<Rightarrow> proxy_obs" where
  "record_call operation er o1 =
    (case er of
       Some x \<Rightarrow> (case MapGRPCError er of (httpStatus, code, msg) \<Rightarrow> recordProxyCall operation httpStatus er o1)
     | None \<Rightarrow> recordProxyCall operation 200 (None :: callerr option) o1)"

text \<open>
  Of every call one line is written: at the level Error exactly if the client is answered a status from 500
  on, at Warn with the status for the other failures, and at Debug for a success.
\<close>

definition call_line :: "callerr option \<Rightarrow> int" where
  "call_line er = (if er = None then zap_Debug else if 500 \<le> fst (MapGRPCError er) then zap_Error else zap_Warn)"

lemma one_line_per_call:
  "px_lines (record_call operation er o1) = px_lines o1 @
    [(call_line er, operation, if call_line er = zap_Warn then Some (fst (MapGRPCError er)) else None)]"
  by (cases o1) (auto simp: record_call_def recordProxyCall_def call_line_def log_levels Let_def split: option.split prod.split)

text \<open>The requests counted are the calls made, with the share of failures.\<close>

primrec record_calls :: "(string \<times> callerr option) list \<Rightarrow> proxy_obs \<Rightarrow> proxy_obs" where
  "record_calls [] o1 = o1"
| "record_calls (x # xs) o1 = record_calls xs (record_call (fst x) (snd x) o1)"

lemma calls_counted:
  assumes "px_requests o1 = Some rs"
  shows "px_requests (record_calls xs o1) =
    Some (rs @ map (\<lambda>(op, er). (op, if er \<noteq> None then ''error'' else ''success'')) xs)"
  using assms
proof (induction xs arbitrary: o1 rs)
  case (Cons x xs)
  have "px_requests (record_call (fst x) (snd x) o1) =
      Some (rs @ [(fst x, if snd x \<noteq> None then ''error'' else ''success'')])"
    using Cons.prems by (auto simp: record_call_def recordProxyCall_def Let_def split: option.split prod.split)
  with Cons.IH show ?case by (simp add: case_prod_beta)
qed simp

section \<open>Providers\<close>

text \<open>The default provider and the handler for /metrics that it gives.\<close>

definition SetDefault :: "'p \<Rightarrow> 'p option \<Rightarrow> 'p option" where "SetDefault p g = Some p"

definition DefaultHandler :: "('p \<Rightarrow> 'h) \<Rightarrow> 'p option \<Rightarrow> 'h option" where
  "DefaultHandler handler g = (case g of None \<Rightarrow> None | Some p \<Rightarrow> Some (handler p))"

text \<open>The middlewares are made once, from the meter that is global at their first use.\<close>

definition ServerMiddleware :: "('meter \<Rightarrow> 'mw) \<Rightarrow> 'meter \<Rightarrow> 'mw option \<Rightarrow> 'mw \<times> 'mw option" where
  "ServerMiddleware build meter once = (case once of Some m \<Rightarrow> (m, once) | None \<Rightarrow> let m = build meter in (m, Some m))"

definition ClientMiddleware :: "('meter \<Rightarrow> 'mw) \<Rightarrow> 'meter \<Rightarrow> 'mw option \<Rightarrow> 'mw \<times> 'mw option" where
  "ClientMiddleware build meter once = (case once of Some m \<Rightarrow> (m, once) | None \<Rightarrow> let m = build meter in (m, Some m))"

lemma first_meter_stays:
  "ServerMiddleware build m1 once = (mw, once1) \<Longrightarrow> ServerMiddleware build m2 once1 = (mw, once1)"
  "ClientMiddleware build m1 once = (mw, once1) \<Longrightarrow> ClientMiddleware build m2 once1 = (mw, once1)"
  by (auto simp: ServerMiddleware_def ClientMiddleware_def Let_def split: option.splits)

text \<open>Instruments of a provider: the SDK's error comes back with the name in front.\<close>

definition named_instrument :: "string \<Rightarrow> (string \<Rightarrow> 'i res) \<Rightarrow> string \<Rightarrow> 'i res" where
  "named_instrument kind sdk name = (case sdk name of Inl er \<Rightarrow> Inl (Wrap (kind @ '' '' @ name) er) | Inr i \<Rightarrow> Inr i)"

definition metrics_Int64Counter :: "(string \<Rightarrow> 'i res) \<Rightarrow> string \<Rightarrow> 'i res" where
  "metrics_Int64Counter sdk name = named_instrument ''counter'' sdk name"

definition metrics_Float64Histogram :: "(string \<Rightarrow> 'i res) \<Rightarrow> string \<Rightarrow> 'i res" where
  "metrics_Float64Histogram sdk name = named_instrument ''histogram'' sdk name"

definition metrics_Int64UpDownCounter :: "(string \<Rightarrow> 'i res) \<Rightarrow> string \<Rightarrow> 'i res" where
  "metrics_Int64UpDownCounter sdk name = named_instrument ''updown counter'' sdk name"

text \<open>The transport middlewares need both instruments.\<close>

definition KratosServerMiddleware :: "'c res \<Rightarrow> 'h res \<Rightarrow> ('c \<Rightarrow> 'h \<Rightarrow> 'mw) \<Rightarrow> 'mw res" where
  "KratosServerMiddleware requests seconds build =
    (case requests of
       Inl er \<Rightarrow> Inl (Wrap ''server counter'' er)
     | Inr c \<Rightarrow> (case seconds of Inl er \<Rightarrow> Inl (Wrap ''server histogram'' er) | Inr h \<Rightarrow> Inr (build c h)))"

definition KratosClientMiddleware :: "'c res \<Rightarrow> 'h res \<Rightarrow> ('c \<Rightarrow> 'h \<Rightarrow> 'mw) \<Rightarrow> 'mw res" where
  "KratosClientMiddleware requests seconds build =
    (case requests of
       Inl er \<Rightarrow> Inl (Wrap ''client counter'' er)
     | Inr c \<Rightarrow> (case seconds of Inl er \<Rightarrow> Inl (Wrap ''client histogram'' er) | Inr h \<Rightarrow> Inr (build c h)))"

end
