(* ===== verification/Startup.thy ===== *)
theory Startup
  imports Transport TaskPool CacheScan
begin

text \<open>
  How the three programs start and end (app/*/cmd/*/main.go), on which database (pkg/infra/data.go), and the
  task queue they share (pkg/infra/task.go). Calls of other packages succeed or fail as the arguments say.
\<close>

section \<open>Programs as lists of steps\<close>

text \<open>
  What a program does in sight of others: it acquires and releases resources, writes a line (level and
  key-values) and serves. Deferred releases run last first, after the last statement and after a panic. The
  reader of the local configuration, which is closed in line, is not counted among the resources.
\<close>

datatype act = Acquired string | Released string | Line int "gany list" | Served

record startup =
  su_acts :: "act list"
  su_defers :: "string list"

datatype main_end = Finished | Panic_main string

type_synonym step_main = "startup \<Rightarrow> main_end option \<times> startup"

definition must :: "string \<Rightarrow> err option \<Rightarrow> step_main" where
  "must what er s = (case er of None \<Rightarrow> (None, s) | Some e \<Rightarrow> (Some (Panic_main what), s))"

definition acquire :: "string \<Rightarrow> step_main" where
  "acquire r s = (None, s\<lparr>su_acts := su_acts s @ [Acquired r], su_defers := r # su_defers s\<rparr>)"

definition line :: "int \<Rightarrow> gany list \<Rightarrow> step_main" where
  "line lvl kvs s = (None, s\<lparr>su_acts := su_acts s @ [Line lvl kvs]\<rparr>)"

definition serving :: step_main where
  "serving s = (None, s\<lparr>su_acts := su_acts s @ [Served]\<rparr>)"

primrec steps :: "step_main list \<Rightarrow> step_main" where
  "steps [] s = (None, s)"
| "steps (p # ps) s = (case p s of (Some x, s1) \<Rightarrow> (Some x, s1) | (None, s1) \<Rightarrow> steps ps s1)"

definition run_main :: "step_main list \<Rightarrow> main_end \<times> act list" where
  "run_main ps =
    (case steps ps \<lparr>su_acts = [], su_defers = []\<rparr> of
       (x, s) \<Rightarrow> (case x of None \<Rightarrow> Finished | Some e \<Rightarrow> e, su_acts s @ map Released (su_defers s)))"

section \<open>Bootstrap configuration\<close>

record log_conf =
  lg_Mode :: nat
  lg_Level :: string
  lg_Path :: string

record bootstrap =
  bc_Log :: "log_conf option"
  bc_Trace :: "string option"
  bc_Etcd :: "string list option"

text \<open>Mode, level and path of the logger; \<^verbatim>\<open>path\<close> is the program's own default.\<close>

definition log_settings :: "string \<Rightarrow> bootstrap \<Rightarrow> nat \<times> string \<times> string" where
  "log_settings path bc =
    (case bc_Log bc of
       None \<Rightarrow> (0, ''Debug'', path)
     | Some l \<Rightarrow> (lg_Mode l, lg_Level l, lg_Path l))"

definition trace_endpoint :: "bootstrap \<Rightarrow> string" where
  "trace_endpoint bc = (case bc_Trace bc of None \<Rightarrow> [] | Some x \<Rightarrow> x)"

definition no_etcd :: "bootstrap \<Rightarrow> bool" where
  "no_etcd bc \<longleftrightarrow> (case bc_Etcd bc of None \<Rightarrow> True | Some es \<Rightarrow> es = [])"

section \<open>The services (auth/main.go, blog/main.go)\<close>

text \<open>
  What the calls answer: loading and scanning the local configuration, the logger with its settings, the
  metrics, etcd, the remote configuration, the tracer, wire's injector, and the run of the application;
  \<^verbatim>\<open>sv_any\<close> makes an error a value of a log line.
\<close>

record service_calls =
  sv_any :: "err \<Rightarrow> gany"
  sv_load :: "err option"
  sv_scan :: "err option"
  sv_logger :: "nat \<Rightarrow> string \<Rightarrow> string \<Rightarrow> err option"
  sv_metrics :: "err option"
  sv_etcd :: "err option"
  sv_remote :: "err option"
  sv_remote_load :: "err option"
  sv_remote_scan :: "err option"
  sv_tracer :: "err option"
  sv_wire :: "err option"
  sv_run :: "err option"

definition new_logger :: "service_calls \<Rightarrow> string \<Rightarrow> bootstrap \<Rightarrow> err option" where
  "new_logger cs path bc = (case log_settings path bc of (mode, level, dir) \<Rightarrow> sv_logger cs mode level dir)"

definition init_metrics :: "(err \<Rightarrow> gany list) \<Rightarrow> err option \<Rightarrow> step_main" where
  "init_metrics kvs er = (case er of Some e \<Rightarrow> line klog_Error (kvs e) | None \<Rightarrow> acquire ''metrics'')"

definition init_tracer :: "(err \<Rightarrow> gany list) \<Rightarrow> bootstrap \<Rightarrow> err option \<Rightarrow> step_main" where
  "init_tracer kvs bc er =
    (if trace_endpoint bc = [] then steps []
     else steps ((case er of Some e \<Rightarrow> [line klog_Error (kvs e)] | None \<Rightarrow> []) @ [acquire ''tracer'']))"

definition etcd_check :: "bootstrap \<Rightarrow> err option" where
  "etcd_check bc = (if no_etcd bc then Some (Opaque ''etcd.endpoints is required'') else None)"

definition auth_main :: "service_calls \<Rightarrow> bootstrap \<Rightarrow> main_end \<times> act list" where
  "auth_main cs bc = run_main
    [must ''load'' (sv_load cs), must ''scan'' (sv_scan cs),
     must ''logger'' (new_logger cs ''./data/logs'' bc), acquire ''otlp logs'',
     must ''etcd.endpoints'' (etcd_check bc),
     init_metrics (\<lambda>e. [AString ''init metrics error'', sv_any cs e]) (sv_metrics cs),
     must ''etcd'' (sv_etcd cs), acquire ''etcd'',
     line klog_Info [AString ''init logger success''],
     must ''remote'' (sv_remote cs), acquire ''remote config'',
     must ''remote load'' (sv_remote_load cs), must ''remote scan'' (sv_remote_scan cs),
     init_tracer (\<lambda>e. [AString ''init tracer error'', sv_any cs e]) bc (sv_tracer cs),
     must ''wire'' (sv_wire cs), acquire ''app'',
     line klog_Info [AString ''init wireApp success''],
     serving, must ''run'' (sv_run cs)]"

definition blog_main :: "service_calls \<Rightarrow> bootstrap \<Rightarrow> main_end \<times> act list" where
  "blog_main cs bc = run_main
    [must ''load'' (sv_load cs), must ''scan'' (sv_scan cs),
     must ''logger'' (new_logger cs ''./data/logs'' bc), acquire ''otlp logs'',
     must ''etcd.endpoints'' (etcd_check bc),
     init_metrics (\<lambda>e. [AString ''init metrics error'', sv_any cs e]) (sv_metrics cs),
     must ''etcd'' (sv_etcd cs), acquire ''etcd'',
     must ''remote'' (sv_remote cs), acquire ''remote config'',
     must ''remote load'' (sv_remote_load cs), must ''remote scan'' (sv_remote_scan cs),
     init_tracer (\<lambda>e. [AString ''init tracer error'', sv_any cs e]) bc (sv_tracer cs),
     must ''wire'' (sv_wire cs), acquire ''app'', serving, must ''run'' (sv_run cs)]"

section \<open>The gateway (entry/main.go, entry/app.go)\<close>

text \<open>ListenAndServe ends with an error, or with ErrServerClosed when the server was shut down.\<close>

datatype serve_end = Server_closed | Serve_failed err

definition StartServer :: "serve_end \<Rightarrow> err option" where
  "StartServer x = (case x of Server_closed \<Rightarrow> None | Serve_failed er \<Rightarrow> Some er)"

text \<open>The address the gateway listens on.\<close>

definition entry_addr :: "string option \<Rightarrow> string" where
  "entry_addr http_addr =
    (case http_addr of None \<Rightarrow> ''0.0.0.0:8000'' | Some a \<Rightarrow> if a \<noteq> [] then a else ''0.0.0.0:8000'')"

text \<open>
  Serving ends on a signal (None) or by itself, with an error that is logged; a server that was closed
  before a signal came would leave main waiting, so it is no case here. Then the server is closed, which
  ends well, with an error, or not within fifteen seconds.
\<close>

datatype close_end = Closed_well | Close_failed err | Close_timeout

record entry_calls =
  en_any :: "err \<Rightarrow> gany"
  en_load :: "err option"
  en_logger :: "nat \<Rightarrow> string \<Rightarrow> string \<Rightarrow> err option"
  en_metrics :: "err option"
  en_tracer :: "err option"
  en_init :: "err option"
  en_serve :: "err option"
  en_close :: close_end

definition close_line :: "entry_calls \<Rightarrow> step_main" where
  "close_line cs =
    (case en_close cs of
       Close_failed e \<Rightarrow> line klog_Error [AString ''close'', en_any cs e]
     | Closed_well \<Rightarrow> line klog_Info [AString ''msg'', AString ''closed'']
     | Close_timeout \<Rightarrow> line klog_Warn [AString ''msg'', AString ''close timed out''])"

definition entry_main :: "entry_calls \<Rightarrow> bootstrap \<Rightarrow> main_end \<times> act list" where
  "entry_main cs bc = run_main
    [must ''load'' (en_load cs),
     must ''logger'' (case log_settings ''./data/entry/logs'' bc of (mode, level, dir) \<Rightarrow> en_logger cs mode level dir),
     acquire ''otlp logs'', line klog_Info [AString ''msg'', AString ''logger''],
     init_metrics (\<lambda>e. [AString ''msg'', en_any cs e]) (en_metrics cs),
     init_tracer (\<lambda>e. [AString ''msg'', en_any cs e]) bc (en_tracer cs),
     must ''init'' (en_init cs), acquire ''app'', line klog_Info [AString ''msg'', AString ''wired''],
     acquire ''signals'', serving,
     steps (case en_serve cs of Some e \<Rightarrow> [line klog_Error [AString ''serve'', en_any cs e]] | None \<Rightarrow> []),
     line klog_Info [AString ''msg'', AString ''closing''], close_line cs,
     line klog_Info [AString ''msg'', AString ''exit'']]"

section \<open>What every program keeps to\<close>

definition acquired :: "act list \<Rightarrow> string list" where
  "acquired as = concat (map (\<lambda>a. case a of Acquired r \<Rightarrow> [r] | _ \<Rightarrow> []) as)"

definition released :: "act list \<Rightarrow> string list" where
  "released as = concat (map (\<lambda>a. case a of Released r \<Rightarrow> [r] | _ \<Rightarrow> []) as)"

text \<open>A step releases nothing itself and defers the release of what it acquires.\<close>

definition orderly :: "step_main \<Rightarrow> bool" where
  "orderly p \<longleftrightarrow> (\<forall>s. \<exists>as. su_acts (snd (p s)) = su_acts s @ as \<and> released as = [] \<and>
    su_defers (snd (p s)) = rev (acquired as) @ su_defers s)"

lemma acquired_simps [simp]: "acquired [] = []" "acquired (a # as) = (case a of Acquired r \<Rightarrow> [r] | _ \<Rightarrow> []) @ acquired as"
    "acquired (as @ bs) = acquired as @ acquired bs"
  by (simp_all add: acquired_def)

lemma released_simps [simp]: "released [] = []" "released (a # as) = (case a of Released r \<Rightarrow> [r] | _ \<Rightarrow> []) @ released as"
    "released (as @ bs) = released as @ released bs" "released (map Released rs) = rs"
  by (simp_all add: released_def) (induction rs, simp_all)

lemma orderly_basic: "orderly (must w er)" "orderly (acquire r)" "orderly (line l kvs)" "orderly serving"
  by (auto simp: orderly_def must_def acquire_def line_def serving_def split: option.split)

lemma orderly_steps: "(\<And>p. p \<in> set ps \<Longrightarrow> orderly p) \<Longrightarrow> orderly (steps ps)"
proof (induction ps)
  case (Cons p ps)
  have "\<exists>as. su_acts (snd (steps (p # ps) s)) = su_acts s @ as \<and> released as = [] \<and>
    su_defers (snd (steps (p # ps) s)) = rev (acquired as) @ su_defers s" for s
  proof (cases "p s")
    case (Pair x s1)
    from Cons.prems [of p] Pair obtain as where a: "su_acts s1 = su_acts s @ as" "released as = []"
      "su_defers s1 = rev (acquired as) @ su_defers s" by (fastforce simp: orderly_def dest: spec [of _ s])
    show ?thesis
    proof (cases x)
      case None
      from Cons obtain bs where "su_acts (snd (steps ps s1)) = su_acts s1 @ bs" "released bs = []"
        "su_defers (snd (steps ps s1)) = rev (acquired bs) @ su_defers s1" by (fastforce simp: orderly_def)
      with a Pair None show ?thesis by (intro exI [of _ "as @ bs"]) simp
    qed (use a Pair in auto)
  qed
  then show ?case by (simp add: orderly_def)
qed (simp add: orderly_def)

lemma run_main_releases:
  assumes "run_main ps = (x, as)" "list_all orderly ps"
  shows "\<exists>bs. as = bs @ map Released (rev (acquired bs)) \<and> released bs = []"
proof -
  let ?s0 = "\<lparr>su_acts = [], su_defers = []\<rparr>"
  from orderly_steps [of ps] assms(2) obtain bs where "su_acts (snd (steps ps ?s0)) = bs" "released bs = []"
    "su_defers (snd (steps ps ?s0)) = rev (acquired bs)" by (fastforce simp: orderly_def list_all_iff dest: spec [of _ ?s0])
  with assms(1) show ?thesis by (auto simp: run_main_def split: prod.splits)
qed

lemma orderly_init: "orderly (init_metrics f er)" "orderly (init_tracer f bc er)" "orderly (close_line cs)"
  by (auto simp: init_metrics_def init_tracer_def close_line_def split: option.split close_end.split intro!: orderly_steps orderly_basic)

text \<open>
  However a program ends, by its own or by a panic anywhere, it has released everything it acquired, once
  and last first, and nothing before.
\<close>

theorem mains_release_all:
  assumes "auth_main cs bc = (x, as) \<or> blog_main cs bc = (x, as) \<or> entry_main en bc = (x, as)"
  shows "\<exists>bs. as = bs @ map Released (rev (acquired bs)) \<and> released bs = []"
  using assms
proof (elim disjE)
  assume "auth_main cs bc = (x, as)"
  then show ?thesis unfolding auth_main_def by (rule run_main_releases) (simp add: orderly_basic orderly_init)
next
  assume "blog_main cs bc = (x, as)"
  then show ?thesis unfolding blog_main_def by (rule run_main_releases) (simp add: orderly_basic orderly_init)
next
  have o: "orderly (steps (case en_serve en of None \<Rightarrow> [] | Some e \<Rightarrow> [line klog_Error [AString ''serve'', en_any en e]]))"
    by (rule orderly_steps) (auto simp: orderly_basic split: option.splits)
  assume "entry_main en bc = (x, as)"
  then show ?thesis unfolding entry_main_def by (rule run_main_releases) (simp add: orderly_basic orderly_init o)
qed

text \<open>
  A service serves exactly if its configuration was loaded and names etcd, and logger, etcd, remote
  configuration and wiring succeed; metrics and tracing may fail. It ends by a panic unless its run ended well.
\<close>

definition service_ready :: "service_calls \<Rightarrow> bootstrap \<Rightarrow> bool" where
  "service_ready cs bc \<longleftrightarrow> sv_load cs = None \<and> sv_scan cs = None \<and> new_logger cs ''./data/logs'' bc = None \<and>
    \<not> no_etcd bc \<and> sv_etcd cs = None \<and> sv_remote cs = None \<and> sv_remote_load cs = None \<and>
    sv_remote_scan cs = None \<and> sv_wire cs = None"

lemma steps_must: "steps (must w er # ps) s = (case er of None \<Rightarrow> steps ps s | Some e \<Rightarrow> (Some (Panic_main w), s))"
  by (simp add: must_def split: option.split)

lemma steps_go:
  "steps (acquire r # ps) s = steps ps (s\<lparr>su_acts := su_acts s @ [Acquired r], su_defers := r # su_defers s\<rparr>)"
  "steps (line l kvs # ps) s = steps ps (s\<lparr>su_acts := su_acts s @ [Line l kvs]\<rparr>)"
  "steps (serving # ps) s = steps ps (s\<lparr>su_acts := su_acts s @ [Served]\<rparr>)"
  by (simp_all add: acquire_def line_def serving_def)

lemma steps_append: "steps (qs @ ps) s = (case steps qs s of (None, s1) \<Rightarrow> steps ps s1 | r \<Rightarrow> r)"
  by (induction qs arbitrary: s) (auto split: prod.split option.split)

lemma steps_nested: "steps (steps qs # ps) s = steps (qs @ ps) s"
  by (simp add: steps_append split: prod.split option.split)

lemma steps_init:
  "steps (init_metrics f er # ps) s = steps ((case er of Some e \<Rightarrow> line klog_Error (f e) | None \<Rightarrow> acquire ''metrics'') # ps) s"
  "steps (init_tracer f bc er # ps) s =
    steps ((if trace_endpoint bc = [] then [] else
      (case er of Some e \<Rightarrow> [line klog_Error (f e)] | None \<Rightarrow> []) @ [acquire ''tracer'']) @ ps) s"
  by (simp only: init_metrics_def) (simp add: init_tracer_def steps_nested del: steps.simps(2) cong: if_cong)

lemmas steps_simps = steps_must steps_go steps_init steps.simps(1)

lemma serves_exactly:
  "Served \<in> set (snd (auth_main cs bc)) \<longleftrightarrow> service_ready cs bc"
  "Served \<in> set (snd (blog_main cs bc)) \<longleftrightarrow> service_ready cs bc"
  "fst (auth_main cs bc) = Finished \<longleftrightarrow> service_ready cs bc \<and> sv_run cs = None"
  "fst (blog_main cs bc) = Finished \<longleftrightarrow> service_ready cs bc \<and> sv_run cs = None"
  by (simp_all add: auth_main_def blog_main_def run_main_def service_ready_def etcd_check_def steps_simps
      del: steps.simps(2) split: option.split)

text \<open>
  The lines with which the auth service reports its start are single values where the logger wants pairs:
  after the pairs that the service's logger puts before them, they come out as a warning.
\<close>

lemma auth_lines_are_warnings:
  assumes "Line klog_Info kvs \<in> set (snd (auth_main cs bc))" "even (length prefix)" "enabled zap_Info" "enabled zap_Warn"
  shows "le_entry (kratosLogger_Log enabled other unpaired klog_Info (prefix @ kvs)) =
    Some (zap_Warn, unpaired (prefix @ kvs), [])"
proof -
  have "kvs \<in> {[AString ''init logger success''], [AString ''init wireApp success'']}"
    using assms(1)
    by (auto simp: auth_main_def run_main_def etcd_check_def steps_simps klog_Info_def klog_Error_def
        simp del: steps.simps(2) split: option.splits if_splits)
  then have "odd (length (prefix @ kvs))" using assms(2) by auto
  with assms(3,4) show ?thesis by (simp add: kratosLogger_Log_def zap_log_def toZapLevel_def log_levels)
qed

section \<open>The database (pkg/infra/data.go)\<close>

definition EngineMysql :: string where "EngineMysql = ''mysql''"
definition EnginePostgres :: string where "EnginePostgres = ''postgres''"

text \<open>GetDsn writes a line first, which panics without a global logger, and panics for other engines.\<close>

definition GetDsn :: "zlogger option \<Rightarrow> string \<Rightarrow> string \<Rightarrow> string \<Rightarrow> string \<Rightarrow> string \<Rightarrow> string \<Rightarrow> string option" where
  "GetDsn global engine host port user password dbname =
    (case GetLogger global of
       None \<Rightarrow> None
     | Some l \<Rightarrow>
       if engine = EngineMysql then
         Some (user @ '':'' @ password @ ''@tcp('' @ host @ '':'' @ port @ '')/'' @ dbname @
           ''?charset=utf8&parseTime=True&loc=Local'')
       else if engine = EnginePostgres then
         Some (''host='' @ host @ '' user='' @ user @ '' password='' @ password @ '' dbname='' @ dbname @
           '' port='' @ port @ '' sslmode=disable TimeZone=Asia/Shanghai'')
       else None)"

record db_params =
  db_Driver :: string
  db_Host :: string
  db_Port :: int
  db_User :: string
  db_Pass :: string
  db_DBName :: string

record db_conn =
  dc_dialect :: string
  dc_dsn :: string
  dc_MaxOpen :: nat
  dc_MaxIdle :: nat
  dc_MaxLifetime :: int
  dc_MaxIdleTime :: int
  dc_callbacks :: "string list"

text \<open>
  The connection, or None for a panic; \<^verbatim>\<open>opened\<close> and \<^verbatim>\<open>pool_err\<close> are gorm's answers,
  \<^verbatim>\<open>reg\<close> the registrations of the tracing plugin.
\<close>

definition NewDB :: "zlogger option \<Rightarrow> (string \<Rightarrow> string \<Rightarrow> err option) \<Rightarrow> err option \<Rightarrow> (string \<Rightarrow> err option) \<Rightarrow>
    db_params \<Rightarrow> db_conn option" where
  "NewDB global opened pool_err reg p =
    (case GetDsn global (db_Driver p) (db_Host p) (show_int (db_Port p)) (db_User p) (db_Pass p) (db_DBName p) of
       None \<Rightarrow> None
     | Some dsn \<Rightarrow>
       if db_Driver p = EngineMysql \<or> db_Driver p = EnginePostgres then
         (if opened (db_Driver p) dsn \<noteq> None then None
          else if pool_err \<noteq> None then None
          else (case gorm_Initialize reg of
                  (Some er, cbs) \<Rightarrow> None
                | (None, cbs) \<Rightarrow> Some \<lparr>dc_dialect = db_Driver p, dc_dsn = dsn, dc_MaxOpen = 50, dc_MaxIdle = 10,
                    dc_MaxLifetime = 3600 * 1000000000, dc_MaxIdleTime = 1800 * 1000000000, dc_callbacks = cbs\<rparr>))
       else None)"

definition DBSystemName :: "db_conn option \<Rightarrow> string" where
  "DBSystemName db = (case db of Some c \<Rightarrow> dc_dialect c | None \<Rightarrow> ''unknown'')"

text \<open>The services build database and cache from the data section of their configuration.\<close>

record data_conf =
  cf_Database :: db_params
  cf_RedisHost :: string
  cf_RedisPort :: int
  cf_RedisPassword :: string
  cf_RedisDb :: int

definition ProvideDB :: "zlogger option \<Rightarrow> (string \<Rightarrow> string \<Rightarrow> err option) \<Rightarrow> err option \<Rightarrow> (string \<Rightarrow> err option) \<Rightarrow>
    data_conf \<Rightarrow> db_conn option" where
  "ProvideDB global opened pool_err reg cf = NewDB global opened pool_err reg (cf_Database cf)"

definition ProvideCache :: "data_conf \<Rightarrow> redis_options" where
  "ProvideCache cf = NewRedisCache (cf_RedisHost cf) (cf_RedisPort cf) (cf_RedisPassword cf) (cf_RedisDb cf)"

text \<open>Transactions travel in the context, here the map of its values; a nil context is None.\<close>

definition SetTransaction :: "(string \<rightharpoonup> 'd) \<Rightarrow> 'd \<Rightarrow> string \<rightharpoonup> 'd" where
  "SetTransaction c tran = c(''transaction'' \<mapsto> tran)"

definition GetTransaction :: "(string \<rightharpoonup> 'd) \<Rightarrow> 'd option" where
  "GetTransaction c = c ''transaction''"

definition WithTransaction :: "'d \<Rightarrow> (string \<rightharpoonup> 'd) option \<Rightarrow> 'd" where
  "WithTransaction db c =
    (case c of
       None \<Rightarrow> db
     | Some x \<Rightarrow> (case GetTransaction x of Some t \<Rightarrow> t | None \<Rightarrow> db))"

text \<open>Offset and limit of a page (pkg/util/db.go).\<close>

definition MaxPageSize :: int where "MaxPageSize = 100"

definition Paginate :: "int \<Rightarrow> int \<Rightarrow> int \<times> int" where
  "Paginate page pageSize =
    (let size = (if MaxPageSize < pageSize then MaxPageSize else if pageSize \<le> 0 then 20 else pageSize)
     in (wrap64 (page * size), size))"

lemma transaction_wins:
  "WithTransaction db (Some (SetTransaction c t)) = t"
  "WithTransaction db None = db"
  by (simp_all add: WithTransaction_def GetTransaction_def SetTransaction_def)

text \<open>A database is opened with its own engine, pool and callbacks, or the program panics.\<close>

lemma opened_database:
  assumes "NewDB global opened pool_err reg p = Some c"
  shows "dc_dialect c = db_Driver p \<and> global \<noteq> None \<and> db_Driver p \<in> {EngineMysql, EnginePostgres} \<and>
    opened (db_Driver p) (dc_dsn c) = None \<and> DBSystemName (Some c) = db_Driver p"
  using assms
  by (auto simp: NewDB_def GetDsn_def GetLogger_def DBSystemName_def split: option.splits if_splits prod.splits)

text \<open>
  Nothing is quoted in the string for PostgreSQL, whose settings are divided by blanks: a password with a
  blank in it adds a setting of its own.
\<close>

lemma split_on_both: "split_on d (s @ d # t) = split_on d s @ split_on d t"
proof (induction s)
  case (Cons c s)
  then show ?case by (cases "split_on d s") auto
qed simp

lemma split_on_piece: "d \<notin> set x \<Longrightarrow> split_on d x = [x]"
  by (induction x) auto

lemma password_adds_setting:
  assumes "GetDsn (Some l) EnginePostgres h p u (pw @ '' '' @ x) d = Some dsn" "CHR '' '' \<notin> set x"
  shows "x \<in> set (split_on (CHR '' '') dsn)"
proof -
  have "\<exists>before after. dsn = before @ CHR '' '' # x @ CHR '' '' # after"
    using assms(1)
    by (intro exI [of _ "''host='' @ h @ '' user='' @ u @ '' password='' @ pw"]
        exI [of _ "''dbname='' @ d @ '' port='' @ p @ '' sslmode=disable TimeZone=Asia/Shanghai''"])
      (auto simp: GetDsn_def GetLogger_def EnginePostgres_def EngineMysql_def)
  then show ?thesis using assms(2) by (auto simp: split_on_both split_on_piece)
qed

section \<open>The shared task queue (pkg/infra/task.go)\<close>

definition initTaskQueue :: "int \<Rightarrow> pool" where
  "initTaskQueue cpus = Start (NewTaskQueue cpus DefaultConfig)"

definition TaskQueue :: "int \<Rightarrow> pool option \<Rightarrow> pool \<times> pool option" where
  "TaskQueue cpus g = (case g of None \<Rightarrow> let q = initTaskQueue cpus in (q, Some q) | Some q \<Rightarrow> (q, g))"

definition StopTaskQueue :: "pool option \<Rightarrow> pool option" where
  "StopTaskQueue g = (case g of None \<Rightarrow> None | Some q \<Rightarrow> Some (Stop_call q))"

text \<open>The queue is made once; after it has been stopped, asking for it gives the stopped one, which takes no task.\<close>

lemma one_queue: "TaskQueue cpus g = (q, g') \<Longrightarrow> g' = Some q \<and> TaskQueue cpus' g' = (q, g')"
  by (auto simp: TaskQueue_def Let_def split: option.splits)

lemma stopped_queue_refuses:
  assumes "TaskQueue cpus g = (q, g')" "TaskQueue cpus (StopTaskQueue g') = (q', g'')"
  shows "fst (pool_Submit a q') = Some ErrPoolShutdown"
  using assms
  by (auto simp: TaskQueue_def StopTaskQueue_def Stop_call_def pool_Submit_def Let_def split: option.splits if_splits)

end
