(* ===== verification/Spec2Isabelle.thy ===== *)
theory Spec2Isabelle
  imports ArticleLife Counts AuthProps FilesProps SiteProps ServiceProps Session
    TaskLive TaskMetrics MemQueue RemoteConf Pow EdgeOne LogWriter LogProps Flusher Nats OssProps Transport Meters Startup
begin

text \<open>
  A model of ley, a blog of three Go programs: the gateway \<^verbatim>\<open>app/entry\<close> answers HTTP and
  forwards to two gRPC services, \<^verbatim>\<open>app/auth\<close> with the accounts and
  \<^verbatim>\<open>app/blog\<close> with articles, tags, categories, files and the site's settings. Each service
  has a layer of handlers (service), one of use cases (biz) and one of repositories (data) over a database,
  Redis and an object store; \<^verbatim>\<open>pkg\<close> holds what they share. A request passes the gateway's
  middlewares (request id, CORS, rate limit, bearer token with the blacklist, role), is bound to the message
  of one call, and carries the caller's identity to the service as gRPC metadata; the service's error comes
  back as an HTTP status.

  Theories and code. A definition has the name of the function it models, with the receiver in front where
  several types have a method of that name.

  \<^item> Prelude, GoStrings, Utf8: errors as values (\<^verbatim>\<open>err\<close>, \<^verbatim>\<open>'a res\<close>), strings as
    bytes, the decoder of UTF-8, the parts of strings and strconv that are used.
  \<^item> Cache (pkg/cache, pkg/testutil/datatest/cache.go), Metadata (pkg/meta and the access helpers of the
    blog), ClientIp (pkg/security/ip.go), Jwt (pkg/jwt), Digest (SHA-256 and MD5 of the standard library).
  \<^item> BlogData, ArticleRepo, TagRepo (app/blog/internal/data): rows, tables with their unique indexes, every
    repository method with its statements and cache commands in order.
  \<^item> Slug, ArticleUse, TagUse, Views (app/blog/internal/biz): text functions, every use case of articles,
    tags and categories, the flush of view counts. Files and Site hold both layers of theirs; ObjectStore is
    pkg/oss. BlogService is app/blog/internal/service.
  \<^item> Users and AuthUse (app/auth/internal): accounts, registration, login, rotation of refresh tokens,
    logout, profiles and administration.
  \<^item> Gateway, GatewayRoutes (app/entry/internal): responses, middlewares, the 39 routes and handlers,
    and \<^verbatim>\<open>serve_http\<close>, a request's whole way. System puts the services behind it:
    \<^verbatim>\<open>serve\<close> dispatches a call on the joint state \<^verbatim>\<open>world\<close>, and
    \<^verbatim>\<open>sys_reach\<close> is reachability by requests of anybody and an operator's work.
  \<^item> RemoteConf (app/entry/conf/remote.go): the gateway's configuration from etcd, with its goroutines.
  \<^item> TaskHeap, TaskPool (pkg/task), EventBus (pkg/eventbus), MemQueue (pkg/mq): concurrent components as step relations.
    Goroutines are control points, channels their contents; a step lies between two points where another
    goroutine may run, and a run is any sequence of steps with the events that happened in it.
  \<^item> Pow, EdgeOne (pkg/middleware): proof of work and signed requests.
  \<^item> OssClients (pkg/oss): the clients of MinIO and Aliyun as the requests they make, and the decorator that
    traces them; CacheScan: the loop over SCAN; Flusher: the goroutine that flushes view counts and its end;
    TaskMetrics: the exports of the task queue; Nats: the adapter of NATS.
  \<^item> Log, LogWriter (pkg/log): what a line consists of on its ways to console, file and OTLP, and the
    writer that a goroutine drains. Tracing (pkg/trace, pkg/metrics, middlewares): what is observed of
    statements, commands and requests. Transport: the connections between gateway and services.
    Meters: counters by name. Startup: the three main functions, the database, the shared task queue.

  State is passed explicitly in records (\<^verbatim>\<open>blog\<close>, \<^verbatim>\<open>authst\<close>, \<^verbatim>\<open>world\<close>,
  \<^verbatim>\<open>pool\<close>, \<^verbatim>\<open>eventBus\<close>, \<^verbatim>\<open>remote\<close>); an operation returns its result and the
  new state. What an operation cannot decide is an argument: \<^verbatim>\<open>env\<close> holds the clock, the
  database's collation and which statement or Redis command fails, so that every error path is a branch
  and a theorem without a hypothesis on the environment holds whatever fails. Drawn values (uuids, ids) are
  arguments as well.

  Interfaces are locales, each interpreted on the model. \<^verbatim>\<open>kv_contract\<close> (Cache) is what the
  services may rely on in a cache, interpreted on Redis and on the in-memory cache of the tests.
  \<^verbatim>\<open>blog_invariant\<close> (BlogInv), \<^verbatim>\<open>auth_invariant\<close> (AuthUse) and
  \<^verbatim>\<open>site_invariant\<close> (SiteProps) reduce an invariant of a service to the calls of its
  repositories, once for all operations; their interpretations are the invariants of articles
  (ArticleInv, ArticleHist), of the slug cache (SlugCache), of the cached lists (FreshInv), of accounts and
  revoked tokens (AuthProps), of settings and backgrounds (SiteProps). \<^verbatim>\<open>prio_queue\<close>
  (TaskHeap) is what the pool needs of a queue, interpreted on the binary heap. \<^verbatim>\<open>decorator\<close>
  (Tracing) is what a client may rely on when a service is wrapped, interpreted on the hook of Redis and on
  the traced client of the object store; it is why the models of their users leave tracing out.

  What the theorems show, by theory.

  \<^item> ArticleProps, ArticleLife, ArticleHist, Counts: who reads and writes an article, its life cycle, its
    slug, the counters of likes and of categories; where a cached null entry or a soft deletion breaks
    what the code means to do.
  \<^item> CatTree, FreshInv: moving a category keeps the hierarchy a forest, whose tree shows every category
    once; cached lists are never stale while evictions succeed.
  \<^item> AuthProps, Jwt, Session: tokens only for active accounts, kinds kept apart, a refresh token used once
    and a logout that holds on every route of the gateway, both but for a token's last second.
  \<^item> FilesProps, ObjectStore, SiteProps, ServiceProps: uploads checked and isolated, batches of deletions,
    caches coherent with the tables, one active background, the likes switch.
  \<^item> GatewayProps, SystemProps: which calls a request can cause and with which identity, what a request
    can change and for whom, the bounds of the limiter, statuses kept.
  \<^item> TaskProps, TaskLive: every task has one verdict, retries end, work can finish, the queue's order and
    bound, and when \<^verbatim>\<open>Stop\<close> hangs. EventBus: order, one message for each publish that
    succeeds, loss and panics on closing. MemQueue: the bus on the connection in memory that both services use, in order up to the
    subscribers, and what becomes of a topic without one. RemoteConf: updates arrive, the updates that do not, and the
    gateway without a configuration. Pow: which attempts pass, and the search for a nonce ends. EdgeOne: signed requests are
    admitted, and the signature that fits a second path.
  \<^item> ViewProps, CacheScan, Flusher: no view is lost or counted twice while its counter lives, but for
    flushes that overlap, at shutdown for one, or fail to delete.
    LogWriter: no line is mixed up, and none is lost on Close when the file does not fail; what Sync does not
    promise. LogProps: where the two loggers agree, and records join their trace. OssProps: tracing changes nothing, the clients differ in one
    range. Tracing, Transport: what is not seen of a panic, and messages that are too large. Nats: what
    of a message arrives and how often. Startup: a program releases what it acquired however it ends, and
    serves exactly if what it needs is there.

  Parameters and what is assumed of them. golang-jwt (\<^verbatim>\<open>lib_sound\<close>: a signed token parses
  with its key into its claims until it expires, and no later), protojson (\<^verbatim>\<open>codec_ok\<close>: the
  message keeps its kind, and a merge takes the fields that are set), gin (\<^verbatim>\<open>gin_ok\<close>: a hit is
  a registered route of the method), gRPC's error transport (\<^verbatim>\<open>wire_ok\<close>), bcrypt, the token
  bucket, the ORDER BY and LIKE of the database, SQL joins over deleted rows, YAML, etcd, the broker, time
  formats. \<^verbatim>\<open>deployed\<close> says that gateway and service share library, key and Redis;
  \<^verbatim>\<open>ids_fit\<close> that user ids are 64 bits wide. GatewayToy and the witnesses make all of them
  concrete. System's calls are messages within the limits of gRPC; Transport has the limits.

  Numbers. Unsigned ids are natural numbers below \<^verbatim>\<open>2^64\<close> where they are parsed; counters and
  durations that can overflow go through \<^verbatim>\<open>wrap64\<close>; digests are on 32-bit words. Times are
  nanoseconds; an expiry reaches Redis in the unit in which the client sends it (\<^verbatim>\<open>in_units\<close>:
  whole seconds for SETEX and EXPIRE, milliseconds for SET NX). Loops are
  recursive over their lists, with a measure (heap, durations, slugs), or over a fuel that the theorems show
  to be enough: the number of rows for the tree of categories; the walk up to a category's root has the
  source's own limit of 100 levels. The search for a nonce is a partial
  function, shown to return when a number solves the challenge, and so is the loop over SCAN, which returns
  exactly when the server's cursors come back to zero.

  Not modelled: the single counters that use cases increase, which nothing reads back; constructors of clients
  and wire's provider sets; the client of NATS, the SDKs of the object stores, OpenTelemetry, zap's encoders;
  deadlines of calls except as faults; float64 rounding in health checks and rates; helpers that set up tests;
  generated code. Use cases of one service run one after another, except where a theory has steps. Within a step
  the code is taken as atomic where it is not: the test of the retry count and its increment
  (pkg/task/worker.go, \<^verbatim>\<open>exec_end\<close>) and other unsynchronised fields of a task that was submitted
  twice; the check for shutdown and the push of a submission (pkg/task/worker_pool.go,
  \<^verbatim>\<open>pool_Submit\<close>); the look-up and the making of a channel in a map without a lock
  (pkg/mq/iface.go, \<^verbatim>\<open>ensureQueue\<close>).
\<close>

end
